(* ===== verification/Prelude.thy ===== *)
theory Prelude
  imports Main "HOL-Library.Word" "HOL-Library.Monad_Syntax"
begin

text \<open>
  Shared ground of the development: the machine types of the C++ code, the wrap-around of
  its unsigned arithmetic, byte buffers with checked reads and writes, and loops over
  buffers. A pointer access outside its buffer is undefined behaviour in C++; here it is
  the value \<^term>\<open>None\<close>, so a theorem that a routine returns \<open>Some\<close> is a memory-safety
  theorem.
\<close>

unbundle bit_operations_syntax

named_theorems wrap_simps \<open>wrap-around that does not happen\<close>
named_theorems buf_simps \<open>lengths and contents of buffers after reads and writes\<close>

type_synonym byte = "8 word"
type_synonym dword = "32 word"
type_synonym qword = "64 word"

subsection \<open>Unsigned arithmetic on naturals\<close>

text \<open>
  Sizes, offsets and coordinates are naturals. \<open>u32\<close> and \<open>u64\<close> are written where the
  C++ expression has type \<open>uint32_t\<close>, \<open>uint64_t\<close> or \<open>size_t\<close> and can wrap. A wrapping
  subtraction adds the modulus first.
\<close>

definition u32 :: "nat \<Rightarrow> nat" where
  "u32 n = n mod 2 ^ 32"

definition u64 :: "nat \<Rightarrow> nat" where
  "u64 n = n mod 2 ^ 64"

definition u32_sub :: "nat \<Rightarrow> nat \<Rightarrow> nat" where
  "u32_sub a b = u32 (a + 2 ^ 32 - u32 b)"

definition u64_sub :: "nat \<Rightarrow> nat \<Rightarrow> nat" where
  "u64_sub a b = u64 (a + 2 ^ 64 - u64 b)"

abbreviation UINT32_MAX :: nat where
  "UINT32_MAX \<equiv> 4294967295"

abbreviation UINT64_MAX :: nat where
  "UINT64_MAX \<equiv> 18446744073709551615"

lemma u32_id [wrap_simps]: "n < 2 ^ 32 \<Longrightarrow> u32 n = n"
  by (simp add: u32_def)

lemma u64_id [wrap_simps]: "n < 2 ^ 64 \<Longrightarrow> u64 n = n"
  by (simp add: u64_def)

lemma u32_bound [simp]: "u32 n < 2 ^ 32"
  by (simp add: u32_def)

lemma u64_bound [simp]: "u64 n < 2 ^ 64"
  by (simp add: u64_def)

lemma u64_le [simp]: "u64 n \<le> n"
  by (simp add: u64_def)

lemma u32_le [simp]: "u32 n \<le> n"
  by (simp add: u32_def)

lemma u64_sub_id [wrap_simps]: "b \<le> a \<Longrightarrow> a < 2 ^ 64 \<Longrightarrow> u64_sub a b = a - b"
proof -
  assume le: "b \<le> a" and lt: "a < 2 ^ 64"
  have "u64_sub a b = ((a - b) + 2 ^ 64) mod 2 ^ 64"
    unfolding u64_sub_def u64_id[OF le_less_trans[OF le lt]] using le by (simp add: u64_def)
  also have "\<dots> = a - b"
    unfolding mod_add_self2 using lt by (intro mod_less) linarith
  finally show ?thesis .
qed

lemma u32_sub_id [wrap_simps]: "b \<le> a \<Longrightarrow> a < 2 ^ 32 \<Longrightarrow> u32_sub a b = a - b"
proof -
  assume le: "b \<le> a" and lt: "a < 2 ^ 32"
  have "u32_sub a b = ((a - b) + 2 ^ 32) mod 2 ^ 32"
    unfolding u32_sub_def u32_id[OF le_less_trans[OF le lt]] using le by (simp add: u32_def)
  also have "\<dots> = a - b"
    unfolding mod_add_self2 using lt by (intro mod_less) linarith
  finally show ?thesis .
qed

text \<open>The number of blocks of \<open>d\<close> elements that cover \<open>n\<close> elements, as the code computes it.\<close>

definition ceil_div :: "nat \<Rightarrow> nat \<Rightarrow> nat" where
  "ceil_div n d = (n + d - 1) div d"

lemma ceil_div_0 [simp]: "0 < d \<Longrightarrow> ceil_div 0 d = 0"
  by (simp add: ceil_div_def)

lemma ceil_div_covers: "0 < d \<Longrightarrow> n \<le> ceil_div n d * d"
proof -
  assume d: "0 < d"
  have "n + d - 1 = ((n + d - 1) div d) * d + (n + d - 1) mod d"
    by simp
  moreover have "(n + d - 1) mod d \<le> d - 1"
    using d by (metis One_nat_def Suc_pred less_Suc_eq_le mod_less_divisor)
  ultimately show ?thesis
    using d unfolding ceil_div_def by linarith
qed

lemma ceil_div_tight: "0 < d \<Longrightarrow> 0 < n \<Longrightarrow> (ceil_div n d - 1) * d < n"
proof -
  assume d: "0 < d" and n: "0 < n"
  have "(n + d - 1) div d * d \<le> n + d - 1"
    by simp
  moreover have "(ceil_div n d - 1) * d = (n + d - 1) div d * d - d"
    by (simp add: ceil_div_def diff_mult_distrib)
  ultimately show ?thesis using d n by linarith
qed

lemma div_less_ceil_div: "x < n \<Longrightarrow> 0 < d \<Longrightarrow> x div d < ceil_div n d"
proof -
  assume x: "x < n" and d: "0 < d"
  have "x < ceil_div n d * d"
    using x ceil_div_covers[OF d, of n] by linarith
  then show ?thesis
    using d by (simp add: less_mult_imp_div_less)
qed

subsection \<open>Buffers\<close>

text \<open>
  \<open>read_at xs off n\<close> is the \<open>memcpy\<close> of \<open>n\<close> elements out of \<open>xs\<close>, \<open>write_at xs off ys\<close> the
  \<open>memcpy\<close> of \<open>ys\<close> into it.
\<close>

definition read_at :: "'a list \<Rightarrow> nat \<Rightarrow> nat \<Rightarrow> 'a list option" where
  "read_at xs off n =
     (if off + n \<le> length xs then Some (take n (drop off xs)) else None)"

definition write_at :: "'a list \<Rightarrow> nat \<Rightarrow> 'a list \<Rightarrow> 'a list option" where
  "write_at xs off ys =
     (if off + length ys \<le> length xs
      then Some (take off xs @ ys @ drop (off + length ys) xs) else None)"

lemma read_at_Some_length: "read_at xs off n = Some ys \<Longrightarrow> length ys = n"
  by (auto simp: read_at_def split: if_splits)

lemma read_at_nth: "read_at xs off n = Some ys \<Longrightarrow> i < n \<Longrightarrow> ys ! i = xs ! (off + i)"
  by (auto simp: read_at_def split: if_splits)

lemma write_at_length [buf_simps]: "write_at xs off ys = Some zs \<Longrightarrow> length zs = length xs"
  by (auto simp: write_at_def split: if_splits)

lemma write_at_nth [buf_simps]:
  "write_at xs off ys = Some zs \<Longrightarrow> i < length xs \<Longrightarrow>
   zs ! i = (if off \<le> i \<and> i < off + length ys then ys ! (i - off) else xs ! i)"
  by (auto simp: write_at_def nth_append split: if_splits)

lemma write_at_defined: "off + length ys \<le> length xs \<Longrightarrow> \<exists>zs. write_at xs off ys = Some zs"
  by (simp add: write_at_def)

lemma read_at_defined: "off + n \<le> length xs \<Longrightarrow> \<exists>ys. read_at xs off n = Some ys"
  by (simp add: read_at_def)

lemma read_at_write_same: "write_at xs off ys = Some zs \<Longrightarrow> read_at zs off (length ys) = Some ys"
  by (auto simp: write_at_def read_at_def split: if_splits)

text \<open>Little-endian integers in byte buffers.\<close>

fun le_nat :: "byte list \<Rightarrow> nat" where
  "le_nat [] = 0"
| "le_nat (b # bs) = unat b + 256 * le_nat bs"

fun le_bytes :: "nat \<Rightarrow> nat \<Rightarrow> byte list" where
  "le_bytes 0 v = []"
| "le_bytes (Suc n) v = word_of_nat v # le_bytes n (v div 256)"

lemma length_le_bytes [simp]: "length (le_bytes n v) = n"
  by (induction n arbitrary: v) auto

lemma unat_byte_of_nat: "unat (word_of_nat v :: byte) = v mod 256"
  by (simp add: unat_of_nat)

lemma le_nat_le_bytes: "le_nat (le_bytes n v) = v mod 256 ^ n"
proof (induction n arbitrary: v)
  case 0
  then show ?case by simp
next
  case (Suc n)
  have "v mod (256 * 256 ^ n) = 256 * (v div 256 mod 256 ^ n) + v mod 256"
    by (rule mod_mult2_eq)
  then show ?case by (simp add: Suc.IH unat_byte_of_nat)
qed

lemma le_nat_bound: "le_nat bs < 256 ^ length bs"
proof (induction bs)
  case Nil
  then show ?case by simp
next
  case (Cons b bs)
  have "unat b < 256" using unsigned_less[of b] by simp
  moreover from Cons.IH have "256 * Suc (le_nat bs) \<le> 256 * 256 ^ length bs"
    using mult_le_mono2 by (simp add: Suc_le_eq)
  ultimately show ?case by simp
qed

lemma le_nat_append: "le_nat (xs @ ys) = le_nat xs + 256 ^ length xs * le_nat ys"
  by (induction xs) (simp_all add: algebra_simps)

lemma le_bytes_le_nat: "length bs = n \<Longrightarrow> le_bytes n (le_nat bs) = bs"
proof (induction bs arbitrary: n)
  case Nil
  then show ?case by simp
next
  case (Cons b bs)
  have "unat b < 256" using unsigned_less[of b] by simp
  then have "(unat b + 256 * le_nat bs) div 256 = le_nat bs"
    and m: "(unat b + 256 * le_nat bs) mod 256 = unat b"
    by simp_all
  moreover have "word_of_nat (unat b + 256 * le_nat bs) = b"
    unfolding word_unat_eq_iff unat_byte_of_nat by (rule m)
  ultimately show ?case using Cons by auto
qed

subsection \<open>Loops\<close>

text \<open>A \<open>for\<close> loop over a list of indices that threads a state and may fail.\<close>

fun foldM :: "('a \<Rightarrow> 's \<Rightarrow> 's option) \<Rightarrow> 'a list \<Rightarrow> 's \<Rightarrow> 's option" where
  "foldM f [] s = Some s"
| "foldM f (x # xs) s = Option.bind (f x s) (foldM f xs)"

lemma foldM_append: "foldM f (xs @ ys) s = Option.bind (foldM f xs s) (foldM f ys)"
  by (induction xs arbitrary: s) (auto split: Option.bind_splits)

lemma foldM_map: "foldM f (map g xs) s = foldM (\<lambda>x. f (g x)) xs s"
  by (induction xs arbitrary: s) (auto split: Option.bind_splits)

lemma foldM_concat: "foldM f (concat xss) s = foldM (foldM f) xss s"
  by (induction xss arbitrary: s) (auto simp: foldM_append split: Option.bind_splits)

lemma foldM_nested:
  "foldM (\<lambda>x. foldM (f x) (ys x)) xs s
   = foldM (\<lambda>(x, y). f x y) (concat (map (\<lambda>x. map (Pair x) (ys x)) xs)) s"
  by (induction xs arbitrary: s) (auto simp: foldM_append foldM_map split: Option.bind_splits)

lemma foldM_cong [fundef_cong]:
  "xs = ys \<Longrightarrow> s = t \<Longrightarrow> (\<And>x s. x \<in> set ys \<Longrightarrow> f x s = g x s) \<Longrightarrow> foldM f xs s = foldM g ys t"
proof (induction ys arbitrary: xs s t)
  case Nil
  then show ?case by simp
next
  case (Cons y ys)
  then show ?case by (auto split: Option.bind_splits)
qed

lemma foldM_invariant:
  assumes "foldM f xs s = Some t" and "P s"
    and "\<And>x s s'. x \<in> set xs \<Longrightarrow> P s \<Longrightarrow> f x s = Some s' \<Longrightarrow> P s'"
  shows "P t"
  using assms
proof (induction xs arbitrary: s)
  case Nil
  then show ?case by simp
next
  case (Cons x xs)
  from Cons.prems(1) obtain s' where s': "f x s = Some s'" and rest: "foldM f xs s' = Some t"
    by (auto split: Option.bind_splits)
  from Cons.prems(2,3) s' have "P s'" by auto
  with rest Cons.prems(3) show ?case by (intro Cons.IH) auto
qed

lemma foldM_defined:
  assumes "P s"
    and "\<And>x s. x \<in> set xs \<Longrightarrow> P s \<Longrightarrow> \<exists>s'. f x s = Some s' \<and> P s'"
  shows "\<exists>t. foldM f xs s = Some t \<and> P t"
  using assms
proof (induction xs arbitrary: s)
  case Nil
  then show ?case by simp
next
  case (Cons x xs)
  from Cons.prems obtain s' where "f x s = Some s'" and "P s'"
    by (meson list.set_intros(1))
  moreover from \<open>P s'\<close> Cons.prems(2) have "\<exists>t. foldM f xs s' = Some t \<and> P t"
    by (intro Cons.IH) auto
  ultimately show ?case by simp
qed

end
