(* ===== verification/GuestRanges.thy ===== *)
theory GuestRanges
  imports Prelude
begin

text \<open>
  The range cache of \<open>src/prosper/src/host/memory/guest_memory_map.hpp\<close>: a vector of
  half-open address ranges with a one-entry memo of the last hit and a generation tag. The
  abstraction is the set of bytes the ranges cover; the locale \<open>span_set\<close> states what a
  client of the cache relies on, and the interpretation \<open>rc\<close> discharges it for the code.
\<close>

subsection \<open>Data\<close>

record guest_range =
  r_begin :: nat
  r_end :: nat

record range_cache =
  ranges :: "guest_range list"
  last_hit :: guest_range
  generation :: nat
  have_last_hit :: bool

definition mk_range :: "nat \<Rightarrow> nat \<Rightarrow> guest_range" where
  "mk_range b e = \<lparr>r_begin = b, r_end = e\<rparr>"

definition empty_cache :: range_cache where
  "empty_cache = \<lparr>ranges = [], last_hit = mk_range 0 0, generation = 0, have_last_hit = False\<rparr>"

lemma mk_range_sel [simp]: "r_begin (mk_range b e) = b" "r_end (mk_range b e) = e"
  by (simp_all add: mk_range_def)

subsection \<open>Operations\<close>

text \<open>
  \<open>contains\<close> consults the memo, then the candidate before the first range that begins after
  the query (\<open>std::upper_bound\<close> followed by a decrement).
\<close>

definition cache_contains :: "range_cache \<Rightarrow> nat \<Rightarrow> nat \<Rightarrow> bool \<times> range_cache" where
  "cache_contains c b e =
     (if b \<ge> e then (False, c)
      else if have_last_hit c \<and> b \<ge> r_begin (last_hit c) \<and> e \<le> r_end (last_hit c) then (True, c)
      else case takeWhile (\<lambda>r. \<not> b < r_begin r) (ranges c) of
             [] \<Rightarrow> (False, c)
           | p # ps \<Rightarrow>
               (let candidate = last (p # ps) in
                if b < r_begin candidate \<or> e > r_end candidate then (False, c)
                else (True, c\<lparr>last_hit := candidate, have_last_hit := True\<rparr>)))"

definition containing_range ::
    "range_cache \<Rightarrow> nat \<Rightarrow> nat \<Rightarrow> guest_range option \<times> range_cache" where
  "containing_range c b e =
     (case cache_contains c b e of
        (False, c') \<Rightarrow> (None, c')
      | (True, c') \<Rightarrow> (Some (last_hit c'), c'))"

text \<open>The inner loop of \<open>insert\<close>: absorb every range that touches the growing span.\<close>

fun absorb :: "nat \<Rightarrow> nat \<Rightarrow> guest_range list \<Rightarrow> nat \<times> nat \<times> guest_range list" where
  "absorb b e [] = (b, e, [])"
| "absorb b e (r # rs) =
     (if r_begin r \<le> e then absorb (min b (r_begin r)) (max e (r_end r)) rs
      else (b, e, r # rs))"

definition cache_insert :: "range_cache \<Rightarrow> nat \<Rightarrow> nat \<Rightarrow> range_cache" where
  "cache_insert c b e =
     (if b \<ge> e then c
      else let before = takeWhile (\<lambda>r. r_end r < b) (ranges c);
               (b', e', after) = absorb b e (dropWhile (\<lambda>r. r_end r < b) (ranges c))
           in c\<lparr>ranges := before @ mk_range b' e' # after,
                last_hit := mk_range b' e', have_last_hit := True\<rparr>)"

definition cut_range :: "nat \<Rightarrow> nat \<Rightarrow> guest_range \<Rightarrow> guest_range list" where
  "cut_range b e r =
     (if r_end r \<le> b \<or> r_begin r \<ge> e then [r]
      else (if r_begin r < b then [mk_range (r_begin r) b] else [])
         @ (if r_end r > e then [mk_range e (r_end r)] else []))"

definition cache_erase :: "range_cache \<Rightarrow> nat \<Rightarrow> nat \<Rightarrow> range_cache" where
  "cache_erase c b e =
     (if b \<ge> e then c
      else c\<lparr>ranges := concat (map (cut_range b e) (ranges c)),
             last_hit := mk_range 0 0, have_last_hit := False\<rparr>)"

definition cache_clear :: "range_cache \<Rightarrow> range_cache" where
  "cache_clear c = c\<lparr>ranges := [], last_hit := mk_range 0 0, have_last_hit := False\<rparr>"

definition sync_generation :: "range_cache \<Rightarrow> nat \<Rightarrow> range_cache" where
  "sync_generation c g =
     (if generation c = g then c else (cache_clear c)\<lparr>generation := g\<rparr>)"

definition assign_sorted_ranges :: "range_cache \<Rightarrow> guest_range list \<Rightarrow> nat \<Rightarrow> range_cache" where
  "assign_sorted_ranges c rs g =
     c\<lparr>ranges := rs, generation := g, last_hit := mk_range 0 0, have_last_hit := False\<rparr>"

subsection \<open>Abstraction and invariant\<close>

definition range_bytes :: "guest_range \<Rightarrow> nat set" where
  "range_bytes r = {r_begin r..<r_end r}"

definition ranges_bytes :: "guest_range list \<Rightarrow> nat set" where
  "ranges_bytes rs = (\<Union>r\<in>set rs. range_bytes r)"

definition cache_bytes :: "range_cache \<Rightarrow> nat set" where
  "cache_bytes c = ranges_bytes (ranges c)"

text \<open>Ranges are nonempty, increasing, and separated by at least one uncovered byte.\<close>

definition ranges_wf :: "guest_range list \<Rightarrow> bool" where
  "ranges_wf rs \<longleftrightarrow>
     sorted_wrt (\<lambda>r s. r_end r < r_begin s) rs \<and> (\<forall>r\<in>set rs. r_begin r < r_end r)"

definition cache_wf :: "range_cache \<Rightarrow> bool" where
  "cache_wf c \<longleftrightarrow>
     ranges_wf (ranges c) \<and> (have_last_hit c \<longrightarrow> last_hit c \<in> set (ranges c))"

lemma ranges_bytes_simps [simp]:
  "ranges_bytes [] = {}"
  "ranges_bytes (r # rs) = range_bytes r \<union> ranges_bytes rs"
  "ranges_bytes (rs @ ss) = ranges_bytes rs \<union> ranges_bytes ss"
  by (auto simp: ranges_bytes_def)

lemma ranges_wf_simps [simp]:
  "ranges_wf []"
  "ranges_wf (r # rs) \<longleftrightarrow>
     r_begin r < r_end r \<and> (\<forall>s\<in>set rs. r_end r < r_begin s) \<and> ranges_wf rs"
  by (auto simp: ranges_wf_def)

lemma ranges_wf_append:
  "ranges_wf (rs @ ss) \<longleftrightarrow>
     ranges_wf rs \<and> ranges_wf ss \<and> (\<forall>r\<in>set rs. \<forall>s\<in>set ss. r_end r < r_begin s)"
  by (auto simp: ranges_wf_def sorted_wrt_append)

lemma range_bytes_mk [simp]: "range_bytes (mk_range b e) = {b..<e}"
  by (simp add: range_bytes_def)

lemma empty_cache_wf: "cache_wf empty_cache" and empty_cache_bytes: "cache_bytes empty_cache = {}"
  by (simp_all add: cache_wf_def empty_cache_def cache_bytes_def)

subsection \<open>Lookup\<close>

text \<open>A span covered by separated ranges is covered by a single one of them.\<close>

lemma span_in_one_range:
  assumes "ranges_wf rs" and "b < e" and "{b..<e} \<subseteq> ranges_bytes rs"
  shows "\<exists>r\<in>set rs. r_begin r \<le> b \<and> e \<le> r_end r"
  using assms
proof (induction rs)
  case Nil
  then show ?case by auto
next
  case (Cons r rs)
  from Cons.prems have sep: "\<forall>s\<in>set rs. r_end r < r_begin s" by simp
  show ?case
  proof (cases "r_begin r \<le> b \<and> b < r_end r")
    case True
    have "e \<le> r_end r"
    proof (rule ccontr)
      assume "\<not> e \<le> r_end r"
      with True have "r_end r \<in> {b..<e}" by auto
      with Cons.prems(3) have "r_end r \<in> ranges_bytes rs"
        by (auto simp: range_bytes_def)
      with sep show False by (auto simp: ranges_bytes_def range_bytes_def)
    qed
    with True show ?thesis by auto
  next
    case False
    have "{b..<e} \<subseteq> ranges_bytes rs"
    proof
      fix a assume a: "a \<in> {b..<e}"
      from \<open>b < e\<close> have "b \<in> {b..<e}" by simp
      with Cons.prems(3) False have "b \<in> ranges_bytes rs"
        by (fastforce simp: range_bytes_def)
      with sep have "r_end r < b" by (fastforce simp: ranges_bytes_def range_bytes_def)
      with a have "a \<notin> range_bytes r" by (simp add: range_bytes_def)
      with a Cons.prems(3) show "a \<in> ranges_bytes rs" by auto
    qed
    with Cons show ?thesis by auto
  qed
qed

lemma takeWhile_begin_wf:
  "ranges_wf rs \<Longrightarrow> r \<in> set rs \<Longrightarrow> r_begin r \<le> b \<Longrightarrow> b < r_end r \<Longrightarrow>
   last (takeWhile (\<lambda>r. \<not> b < r_begin r) rs) = r \<and> takeWhile (\<lambda>r. \<not> b < r_begin r) rs \<noteq> []"
proof (induction rs)
  case Nil
  then show ?case by simp
next
  case (Cons s rs)
  show ?case
  proof (cases "r = s")
    case True
    have "takeWhile (\<lambda>r. \<not> b < r_begin r) rs = []"
      using Cons.prems True by (cases rs) (fastforce simp: takeWhile_eq_Nil_iff)+
    with True Cons.prems show ?thesis by simp
  next
    case False
    with Cons have "last (takeWhile (\<lambda>r. \<not> b < r_begin r) rs) = r"
      and "takeWhile (\<lambda>r. \<not> b < r_begin r) rs \<noteq> []" and "r_end s < r_begin r"
      by auto
    moreover from Cons.prems \<open>r_end s < r_begin r\<close> have "r_begin s \<le> b" by simp
    ultimately show ?thesis by auto
  qed
qed

lemma cache_contains_state:
  assumes "cache_wf c"
  shows "cache_wf (snd (cache_contains c b e)) \<and> ranges (snd (cache_contains c b e)) = ranges c
         \<and> generation (snd (cache_contains c b e)) = generation c"
proof -
  have "last (p # ps) \<in> set (ranges c)"
    if "takeWhile (\<lambda>r. \<not> b < r_begin r) (ranges c) = p # ps" for p ps
    by (metis last_in_set list.distinct(1) set_takeWhileD that)
  with assms show ?thesis
    by (auto simp: cache_contains_def cache_wf_def Let_def split: list.split)
qed

lemma cache_contains_iff:
  assumes wf: "cache_wf c"
  shows "fst (cache_contains c b e) \<longleftrightarrow> b < e \<and> {b..<e} \<subseteq> cache_bytes c"
proof
  assume hit: "fst (cache_contains c b e)"
  then have be: "b < e" by (auto simp: cache_contains_def split: if_splits)
  have "\<exists>r\<in>set (ranges c). r_begin r \<le> b \<and> e \<le> r_end r"
  proof (cases "have_last_hit c \<and> b \<ge> r_begin (last_hit c) \<and> e \<le> r_end (last_hit c)")
    case True
    with wf show ?thesis by (auto simp: cache_wf_def)
  next
    case False
    with hit be obtain p ps where tw: "takeWhile (\<lambda>r. \<not> b < r_begin r) (ranges c) = p # ps"
      and "\<not> b < r_begin (last (p # ps))" and "\<not> e > r_end (last (p # ps))"
      by (auto simp: cache_contains_def Let_def split: if_splits list.splits)
    moreover have "last (p # ps) \<in> set (ranges c)"
      by (metis last_in_set list.distinct(1) set_takeWhileD tw)
    ultimately show ?thesis by (meson not_less)
  qed
  then show "b < e \<and> {b..<e} \<subseteq> cache_bytes c"
    using be by (force simp: cache_bytes_def ranges_bytes_def range_bytes_def)
next
  assume r: "b < e \<and> {b..<e} \<subseteq> cache_bytes c"
  with wf obtain r where "r \<in> set (ranges c)" and "r_begin r \<le> b" and "e \<le> r_end r"
    using span_in_one_range[of "ranges c" b e] by (auto simp: cache_wf_def cache_bytes_def)
  moreover from this r wf have "last (takeWhile (\<lambda>r. \<not> b < r_begin r) (ranges c)) = r
      \<and> takeWhile (\<lambda>r. \<not> b < r_begin r) (ranges c) \<noteq> []"
    by (intro takeWhile_begin_wf) (auto simp: cache_wf_def)
  ultimately show "fst (cache_contains c b e)"
    using r by (auto simp: cache_contains_def Let_def split: list.split)
qed

subsection \<open>Insertion and erasure\<close>

lemma takeWhile_before: "r \<in> set (takeWhile (\<lambda>r. r_end r < b) rs) \<Longrightarrow> r_end r < b"
  by (induction rs) (auto split: if_splits)

lemma absorb_begin_le: "fst (absorb b e rs) \<le> b" and absorb_end_ge: "e \<le> fst (snd (absorb b e rs))"
  by (induction b e rs rule: absorb.induct) auto

lemma absorb_begin_ge:
  "(\<And>r. r \<in> set rs \<Longrightarrow> l < r_begin r) \<Longrightarrow> l < b \<Longrightarrow> l < fst (absorb b e rs)"
  by (induction b e rs rule: absorb.induct) auto

lemma absorb_wf:
  assumes "ranges_wf rs" and "b < e"
  shows "(case absorb b e rs of (b', e', after) \<Rightarrow>
           ranges_wf (mk_range b' e' # after) \<and> set after \<subseteq> set rs)"
  using assms
proof (induction b e rs rule: absorb.induct)
  case (1 b e)
  then show ?case by simp
next
  case (2 b e r rs)
  show ?case
  proof (cases "r_begin r \<le> e")
    case True
    with 2 have "(case absorb (min b (r_begin r)) (max e (r_end r)) rs of (b', e', after) \<Rightarrow>
        ranges_wf (mk_range b' e' # after) \<and> set after \<subseteq> set rs)"
      by (intro "2.IH") auto
    with True show ?thesis by (auto split: prod.splits)
  next
    case False
    with "2.prems" show ?thesis by fastforce
  qed
qed

lemma absorb_bytes:
  assumes "ranges_wf rs" and "b < e" and "\<forall>r\<in>set rs. b \<le> r_end r"
  shows "(case absorb b e rs of (b', e', after) \<Rightarrow> {b'..<e'} \<union> ranges_bytes after)
         = {b..<e} \<union> ranges_bytes rs"
  using assms
proof (induction b e rs rule: absorb.induct)
  case (1 b e)
  then show ?case by simp
next
  case (2 b e r rs)
  show ?case
  proof (cases "r_begin r \<le> e")
    case True
    have sep: "\<forall>s\<in>set rs. min b (r_begin r) \<le> r_end s"
      using "2.prems" by auto
    have "(case absorb (min b (r_begin r)) (max e (r_end r)) rs of (b', e', after) \<Rightarrow>
        {b'..<e'} \<union> ranges_bytes after)
      = {min b (r_begin r)..<max e (r_end r)} \<union> ranges_bytes rs"
      using True "2.prems" sep by (intro "2.IH") auto
    moreover have "{min b (r_begin r)..<max e (r_end r)} = {b..<e} \<union> range_bytes r"
      using True "2.prems" by (auto simp: range_bytes_def)
    ultimately show ?thesis using True by auto
  next
    case False
    then show ?thesis by simp
  qed
qed

lemma dropWhile_ends:
  assumes "ranges_wf rs"
  shows "\<forall>r\<in>set (dropWhile (\<lambda>r. r_end r < b) rs). b \<le> r_end r"
  using assms
proof (induction rs)
  case Nil
  then show ?case by simp
next
  case (Cons r rs)
  have "b \<le> r_end s" if "s \<in> set rs" and "\<not> r_end r < b" for s
  proof -
    from Cons.prems that have "r_end r < r_begin s" and "r_begin s < r_end s"
      by (auto simp: ranges_wf_def)
    with that show ?thesis by simp
  qed
  with Cons show ?case by auto
qed

lemma cache_insert_wf:
  assumes "cache_wf c"
  shows "cache_wf (cache_insert c b e)"
proof (cases "b < e")
  case False
  with assms show ?thesis by (simp add: cache_insert_def)
next
  case True
  let ?pre = "takeWhile (\<lambda>r. r_end r < b) (ranges c)"
  let ?suf = "dropWhile (\<lambda>r. r_end r < b) (ranges c)"
  obtain b' e' after where ab: "absorb b e ?suf = (b', e', after)"
    by (metis prod_cases3)
  have "ranges_wf (?pre @ ?suf)"
    using assms by (simp add: cache_wf_def)
  then have pre: "ranges_wf ?pre" and suf: "ranges_wf ?suf"
    and sep: "\<forall>r\<in>set ?pre. \<forall>s\<in>set ?suf. r_end r < r_begin s"
    unfolding ranges_wf_append by auto
  have post: "ranges_wf (mk_range b' e' # after)" and sub: "set after \<subseteq> set ?suf"
    using absorb_wf[OF suf True] ab by auto
  have "r_end r < b'" if "r \<in> set ?pre" for r
    using absorb_begin_ge[of ?suf "r_end r" b e] sep that takeWhile_before[OF that] ab by auto
  with pre post sep sub show ?thesis
    using True ab by (auto simp: cache_insert_def cache_wf_def ranges_wf_append Let_def)
qed

lemma cache_insert_bytes:
  assumes "cache_wf c"
  shows "cache_bytes (cache_insert c b e) = cache_bytes c \<union> {b..<e}"
proof (cases "b < e")
  case False
  then show ?thesis by (simp add: cache_insert_def)
next
  case True
  let ?pre = "takeWhile (\<lambda>r. r_end r < b) (ranges c)"
  let ?suf = "dropWhile (\<lambda>r. r_end r < b) (ranges c)"
  obtain b' e' after where ab: "absorb b e ?suf = (b', e', after)"
    by (metis prod_cases3)
  have wf: "ranges_wf (?pre @ ?suf)"
    using assms by (simp add: cache_wf_def)
  then have suf: "ranges_wf ?suf"
    unfolding ranges_wf_append by auto
  have "{b'..<e'} \<union> ranges_bytes after = {b..<e} \<union> ranges_bytes ?suf"
    using absorb_bytes[OF suf True] dropWhile_ends[of "ranges c" b] assms ab
    by (simp add: cache_wf_def)
  moreover have "cache_bytes c = ranges_bytes ?pre \<union> ranges_bytes ?suf"
    unfolding cache_bytes_def by (metis ranges_bytes_simps(3) takeWhile_dropWhile_id)
  ultimately show ?thesis
    using True ab by (auto simp: cache_insert_def cache_bytes_def Let_def)
qed

lemma cut_range_bytes:
  "b < e \<Longrightarrow> ranges_bytes (cut_range b e r) = range_bytes r - {b..<e}"
  by (auto simp: cut_range_def range_bytes_def)

lemma cut_range_wf: "r_begin r < r_end r \<Longrightarrow> b < e \<Longrightarrow> ranges_wf (cut_range b e r)"
  by (auto simp: cut_range_def)

lemma cut_range_within:
  "s \<in> set (cut_range b e r) \<Longrightarrow> r_begin r \<le> r_begin s \<and> r_end s \<le> r_end r"
  by (auto simp: cut_range_def split: if_splits)

lemma ranges_wf_cut:
  "ranges_wf rs \<Longrightarrow> b < e \<Longrightarrow> ranges_wf (concat (map (cut_range b e) rs))"
proof (induction rs)
  case Nil
  then show ?case by simp
next
  case (Cons r rs)
  have "r_end s < r_begin t"
    if "s \<in> set (cut_range b e r)" and "t \<in> set (concat (map (cut_range b e) rs))" for s t
  proof -
    from that(2) obtain u where "u \<in> set rs" and "t \<in> set (cut_range b e u)" by auto
    with that(1) Cons.prems show ?thesis
      using cut_range_within[of s b e r] cut_range_within[of t b e u] by fastforce
  qed
  with Cons show ?case
    using cut_range_wf[of r b e] by (auto simp: ranges_wf_append)
qed

lemma cache_erase_wf: "cache_wf c \<Longrightarrow> cache_wf (cache_erase c b e)"
  by (auto simp: cache_erase_def cache_wf_def ranges_wf_cut)

lemma cache_erase_bytes: "cache_bytes (cache_erase c b e) = cache_bytes c - {b..<e}"
proof (cases "b < e")
  case False
  then show ?thesis by (simp add: cache_erase_def)
next
  case True
  have "ranges_bytes (concat (map (cut_range b e) rs)) = ranges_bytes rs - {b..<e}" for rs
    by (induction rs) (auto simp: cut_range_bytes[OF True])
  with True show ?thesis by (simp add: cache_erase_def cache_bytes_def)
qed

lemma cache_clear_wf: "cache_wf (cache_clear c)"
  and cache_clear_bytes: "cache_bytes (cache_clear c) = {}"
  by (simp_all add: cache_clear_def cache_wf_def cache_bytes_def)

lemma sync_generation_wf: "cache_wf c \<Longrightarrow> cache_wf (sync_generation c g)"
  by (auto simp: sync_generation_def cache_clear_def cache_wf_def)

lemma sync_generation_tag [simp]: "generation (sync_generation c g) = g"
  by (simp add: sync_generation_def)

lemma sync_generation_bytes:
  "cache_bytes (sync_generation c g) = (if generation c = g then cache_bytes c else {})"
  by (simp add: sync_generation_def cache_clear_def cache_bytes_def)

lemma cache_insert_generation [simp]: "generation (cache_insert c b e) = generation c"
  by (simp add: cache_insert_def Let_def split: prod.splits)

subsection \<open>The interface of a span set\<close>

text \<open>
  What the guest memory registry and the executor's probes rely on: \<open>bytes\<close> abstracts the
  container, and every operation acts on it as the corresponding set operation.
\<close>

locale span_set =
  fixes holds :: "'c \<Rightarrow> nat \<Rightarrow> nat \<Rightarrow> bool \<times> 'c"
    and add :: "'c \<Rightarrow> nat \<Rightarrow> nat \<Rightarrow> 'c"
    and remove :: "'c \<Rightarrow> nat \<Rightarrow> nat \<Rightarrow> 'c"
    and wipe :: "'c \<Rightarrow> 'c"
    and bytes :: "'c \<Rightarrow> nat set"
    and wf :: "'c \<Rightarrow> bool"
  assumes holds_iff: "wf c \<Longrightarrow> fst (holds c b e) \<longleftrightarrow> b < e \<and> {b..<e} \<subseteq> bytes c"
    and holds_bytes: "wf c \<Longrightarrow> bytes (snd (holds c b e)) = bytes c"
    and holds_wf: "wf c \<Longrightarrow> wf (snd (holds c b e))"
    and add_bytes: "wf c \<Longrightarrow> bytes (add c b e) = bytes c \<union> {b..<e}"
    and add_wf: "wf c \<Longrightarrow> wf (add c b e)"
    and remove_bytes: "wf c \<Longrightarrow> bytes (remove c b e) = bytes c - {b..<e}"
    and remove_wf: "wf c \<Longrightarrow> wf (remove c b e)"
    and wipe_bytes: "bytes (wipe c) = {}"
    and wipe_wf: "wf (wipe c)"
begin

lemma replace_wf: "wf c \<Longrightarrow> wf (add (remove c b e) b e)"
  by (intro add_wf remove_wf)

lemma replace_bytes: "wf c \<Longrightarrow> bytes (add (remove c b e) b e) = bytes c \<union> {b..<e}"
  by (auto simp: add_bytes remove_bytes remove_wf)

text \<open>An answer survives any later addition and any removal that misses the span.\<close>

lemma holds_after_add:
  "wf c \<Longrightarrow> fst (holds c b e) \<Longrightarrow> fst (holds (add c b' e') b e)"
  by (auto simp: holds_iff add_bytes add_wf)

lemma holds_after_remove:
  "wf c \<Longrightarrow> fst (holds (remove c b' e') b e) \<longleftrightarrow>
     fst (holds c b e) \<and> {b..<e} \<inter> {b'..<e'} = {}"
  unfolding holds_iff[OF remove_wf] holds_iff remove_bytes by blast

lemma not_holds_wipe: "\<not> fst (holds (wipe c) b e)"
  by (auto simp: holds_iff wipe_bytes wipe_wf)

lemma holds_after_holds:
  "wf c \<Longrightarrow> fst (holds (snd (holds c b e)) b' e') \<longleftrightarrow> fst (holds c b' e')"
  by (simp add: holds_iff holds_bytes holds_wf)

end

interpretation rc: span_set cache_contains cache_insert cache_erase cache_clear cache_bytes cache_wf
proof unfold_locales
  fix c :: range_cache and b e :: nat
  assume "cache_wf c"
  then show "cache_bytes (snd (cache_contains c b e)) = cache_bytes c"
    by (simp add: cache_bytes_def cache_contains_state)
qed (simp_all add: cache_contains_iff cache_contains_state cache_insert_bytes cache_insert_wf
  cache_erase_bytes cache_erase_wf cache_clear_bytes cache_clear_wf)

lemma containing_range_Some:
  assumes "cache_wf c" and "fst (containing_range c b e) = Some r"
  shows "range_bytes r \<subseteq> cache_bytes c \<and> {b..<e} \<subseteq> range_bytes r \<and> b < e \<and> r \<in> set (ranges c)"
proof -
  obtain c' where c': "cache_contains c b e = (True, c')" and r: "r = last_hit c'"
    using assms(2) by (auto simp: containing_range_def split: prod.splits bool.splits)
  have "r \<in> set (ranges c) \<and> r_begin r \<le> b \<and> e \<le> r_end r \<and> b < e"
  proof (cases "have_last_hit c \<and> b \<ge> r_begin (last_hit c) \<and> e \<le> r_end (last_hit c)")
    case True
    with assms(1) c' r show ?thesis
      by (auto simp: cache_contains_def cache_wf_def split: if_splits)
  next
    case False
    from c' have be: "b < e" by (auto simp: cache_contains_def split: if_splits)
    let ?tw = "takeWhile (\<lambda>r. \<not> b < r_begin r) (ranges c)"
    have ne: "?tw \<noteq> []" using c' False be by (auto simp: cache_contains_def split: if_splits)
    then have look: "cache_contains c b e =
        (if b < r_begin (last ?tw) \<or> e > r_end (last ?tw) then (False, c)
         else (True, c\<lparr>last_hit := last ?tw, have_last_hit := True\<rparr>))"
      using False be unfolding cache_contains_def if_not_P[OF False]
      by (cases ?tw) (simp_all add: Let_def)
    have "\<not> (b < r_begin (last ?tw) \<or> e > r_end (last ?tw))" and "last_hit c' = last ?tw"
      using c' unfolding look by (auto split: if_splits)
    moreover have "last ?tw \<in> set (ranges c)"
      using ne by (metis last_in_set set_takeWhileD)
    moreover note be
    ultimately show ?thesis by (simp add: r)
  qed
  then show ?thesis
    by (auto simp: cache_bytes_def ranges_bytes_def range_bytes_def)
qed

subsection \<open>Sequences of operations\<close>

text \<open>The public operations as data, their effect on the cache and on the set of bytes.\<close>

datatype cache_op = Contains nat nat | Insert nat nat | Erase nat nat | Clear

fun cache_apply :: "range_cache \<Rightarrow> cache_op \<Rightarrow> range_cache" where
  "cache_apply c (Contains b e) = snd (cache_contains c b e)"
| "cache_apply c (Insert b e) = cache_insert c b e"
| "cache_apply c (Erase b e) = cache_erase c b e"
| "cache_apply c Clear = cache_clear c"

fun bytes_apply :: "nat set \<Rightarrow> cache_op \<Rightarrow> nat set" where
  "bytes_apply B (Contains b e) = B"
| "bytes_apply B (Insert b e) = B \<union> {b..<e}"
| "bytes_apply B (Erase b e) = B - {b..<e}"
| "bytes_apply B Clear = {}"

lemma cache_apply_wf: "cache_wf c \<Longrightarrow> cache_wf (cache_apply c op)"
  by (cases op) (simp_all add: rc.holds_wf rc.add_wf rc.remove_wf rc.wipe_wf)

lemma cache_apply_bytes: "cache_wf c \<Longrightarrow> cache_bytes (cache_apply c op) = bytes_apply (cache_bytes c) op"
  by (cases op) (simp_all add: rc.holds_bytes rc.add_bytes rc.remove_bytes rc.wipe_bytes)

lemma cache_run:
  "cache_wf c \<Longrightarrow> cache_wf (foldl cache_apply c ops) \<and>
     cache_bytes (foldl cache_apply c ops) = foldl bytes_apply (cache_bytes c) ops"
  by (induction ops arbitrary: c) (simp_all add: cache_apply_wf cache_apply_bytes)

text \<open>
  C1: after any sequence of lookups, insertions, erasures and clears on an empty range cache,
  \<open>contains\<close> (memo and binary search included) answers yes exactly for the nonempty spans
  that the same sequence of set unions and differences covers.
\<close>

theorem range_cache_refines_byte_set:
  "fst (cache_contains (foldl cache_apply empty_cache ops) b e) \<longleftrightarrow>
     b < e \<and> {b..<e} \<subseteq> foldl bytes_apply {} ops"
  using cache_run[OF empty_cache_wf, of ops] by (simp add: rc.holds_iff empty_cache_bytes)

text \<open>
  Every sequence of operations leaves the ranges nonempty, increasing and separated (so
  that the binary search is correct), and the memo, when it is set, is one of the ranges.
\<close>

lemma range_cache_invariant:
  "ranges_wf (ranges (foldl cache_apply empty_cache ops)) \<and>
   (have_last_hit (foldl cache_apply empty_cache ops) \<longrightarrow>
      last_hit (foldl cache_apply empty_cache ops) \<in> set (ranges (foldl cache_apply empty_cache ops)))"
  using cache_run[OF empty_cache_wf, of ops] by (simp add: cache_wf_def)

end
