(* ===== verification/GuestPermission.thy ===== *)
theory GuestPermission
  imports GuestRanges
begin

text \<open>
  Guest page permissions: the readable-mapping registry and the generation counter of
  \<open>host/memory/guest_memory_map.hpp\<close>, the readability and writability probes of
  \<open>gpu/execute/gpu_executor.cpp\<close> with their thread-local range caches, the parser of
  \<open>/proc/self/maps\<close>, and the change-then-notify protocol between the code that changes a
  protection and the code that memoises an answer. The operating system is a parameter: the
  text of \<open>/proc/self/maps\<close>, the pages a probe write can read.
\<close>

subsection \<open>The registry of readable mappings\<close>

record guest_map =
  registry :: range_cache
  map_generation :: nat

definition initial_guest_map :: guest_map where
  "initial_guest_map = \<lparr>registry = empty_cache, map_generation = 1\<rparr>"

definition advance_generation :: "guest_map \<Rightarrow> guest_map" where
  "advance_generation m = m\<lparr>map_generation := u64 (map_generation m + 1)\<rparr>"

definition notify_page_protection_changed :: "guest_map \<Rightarrow> guest_map" where
  "notify_page_protection_changed m = advance_generation m"

definition notify_mapping_added :: "guest_map \<Rightarrow> nat \<Rightarrow> nat \<Rightarrow> bool \<Rightarrow> guest_map" where
  "notify_mapping_added m b sz readable =
     (if sz = 0 then m
      else if b > UINT64_MAX - sz
           then advance_generation (m\<lparr>registry := cache_clear (registry m)\<rparr>)
      else let e = b + sz; erased = cache_erase (registry m) b e
           in advance_generation
                (m\<lparr>registry := (if readable then cache_insert erased b e else erased)\<rparr>))"

definition notify_mapping_removed :: "guest_map \<Rightarrow> nat \<Rightarrow> nat \<Rightarrow> guest_map" where
  "notify_mapping_removed m b sz =
     (if sz = 0 then m
      else if b > UINT64_MAX - sz
           then advance_generation (m\<lparr>registry := cache_clear (registry m)\<rparr>)
      else advance_generation (m\<lparr>registry := cache_erase (registry m) b (b + sz)\<rparr>))"

definition readable_mapping_containing ::
    "guest_map \<Rightarrow> nat \<Rightarrow> nat \<Rightarrow> guest_range option \<times> guest_map" where
  "readable_mapping_containing m b e =
     (case containing_range (registry m) b e of (r, c) \<Rightarrow> (r, m\<lparr>registry := c\<rparr>))"

text \<open>The notifications the kernel-memory code sends, and what they mean for the readable bytes.\<close>

datatype map_event = Added nat nat bool | Removed nat nat | ProtectionChanged

fun map_step :: "guest_map \<Rightarrow> map_event \<Rightarrow> guest_map" where
  "map_step m (Added b sz readable) = notify_mapping_added m b sz readable"
| "map_step m (Removed b sz) = notify_mapping_removed m b sz"
| "map_step m ProtectionChanged = notify_page_protection_changed m"

fun readable_step :: "nat set \<Rightarrow> map_event \<Rightarrow> nat set" where
  "readable_step R (Added b sz readable) =
     (if sz = 0 then R else if b + sz > UINT64_MAX then {}
      else if readable then R \<union> {b..<b + sz} else R - {b..<b + sz})"
| "readable_step R (Removed b sz) =
     (if sz = 0 then R else if b + sz > UINT64_MAX then {} else R - {b..<b + sz})"
| "readable_step R ProtectionChanged = R"

fun effective :: "map_event \<Rightarrow> bool" where
  "effective (Added b sz readable) = (sz \<noteq> 0)"
| "effective (Removed b sz) = (sz \<noteq> 0)"
| "effective ProtectionChanged = True"

lemma advance_generation_registry [simp]: "registry (advance_generation m) = registry m"
  by (simp add: advance_generation_def)

lemma map_step_wf: "cache_wf (registry m) \<Longrightarrow> cache_wf (registry (map_step m ev))"
  by (cases ev)
     (simp_all add: notify_mapping_added_def notify_mapping_removed_def
        notify_page_protection_changed_def Let_def rc.replace_wf rc.remove_wf rc.wipe_wf)

text \<open>The arguments are 64-bit values.\<close>

fun event_ok :: "map_event \<Rightarrow> bool" where
  "event_ok (Added b sz readable) = (b \<le> UINT64_MAX \<and> sz \<le> UINT64_MAX)"
| "event_ok (Removed b sz) = (b \<le> UINT64_MAX \<and> sz \<le> UINT64_MAX)"
| "event_ok ProtectionChanged = True"

lemma past_end: "sz \<le> UINT64_MAX \<Longrightarrow> b > UINT64_MAX - sz \<longleftrightarrow> b + sz > UINT64_MAX"
  by linarith

lemma map_step_bytes:
  assumes "cache_wf (registry m)" and "event_ok ev"
  shows "cache_bytes (registry (map_step m ev)) = readable_step (cache_bytes (registry m)) ev"
proof (cases ev)
  case (Added b sz readable)
  with assms show ?thesis
    by (simp add: notify_mapping_added_def past_end Let_def rc.wipe_bytes rc.replace_bytes
        rc.remove_bytes)
next
  case (Removed b sz)
  with assms show ?thesis
    by (simp add: notify_mapping_removed_def past_end rc.wipe_bytes rc.remove_bytes)
next
  case ProtectionChanged
  then show ?thesis by (simp add: notify_page_protection_changed_def)
qed

lemma map_step_generation:
  "map_generation (map_step m ev)
   = (if effective ev then u64 (map_generation m + 1) else map_generation m)"
  by (cases ev)
     (simp_all add: notify_mapping_added_def notify_mapping_removed_def advance_generation_def
        notify_page_protection_changed_def Let_def)

lemma map_trace_wf: "cache_wf (registry m) \<Longrightarrow> cache_wf (registry (foldl map_step m evs))"
  by (induction evs arbitrary: m) (simp_all add: map_step_wf)

lemma map_trace_bytes:
  "cache_wf (registry m) \<Longrightarrow> list_all event_ok evs \<Longrightarrow>
   cache_bytes (registry (foldl map_step m evs)) = foldl readable_step (cache_bytes (registry m)) evs"
  by (induction evs arbitrary: m) (simp_all add: map_step_wf map_step_bytes)

subsection \<open>The readability probe and its cache\<close>

text \<open>
  \<open>guest_readable\<close> on Linux: a thread-local cache, then one byte written to a pipe per touched
  page. \<open>probe p\<close> tells whether the kernel can read the byte at \<open>p\<close>; \<open>pipe_ok\<close> whether the
  probe pipe exists.
\<close>

record readable_cache =
  rd_enabled :: bool
  rd_active :: bool
  persistent_ranges :: range_cache
  submit_ranges :: range_cache
  rd_calls :: nat
  rd_hits :: nat
  rd_os_probes :: nat

definition count_call :: "readable_cache \<Rightarrow> readable_cache" where
  "count_call rd = (if rd_active rd then rd\<lparr>rd_calls := u64 (rd_calls rd + 1)\<rparr> else rd)"

definition count_hit :: "bool \<Rightarrow> readable_cache \<Rightarrow> readable_cache" where
  "count_hit hit rd = (if hit \<and> rd_active rd then rd\<lparr>rd_hits := u64 (rd_hits rd + 1)\<rparr> else rd)"

lemma count_call_sel [simp]:
  "rd_active (count_call rd) = rd_active rd" "rd_enabled (count_call rd) = rd_enabled rd"
  "submit_ranges (count_call rd) = submit_ranges rd"
  "persistent_ranges (count_call rd) = persistent_ranges rd"
  by (simp_all add: count_call_def)

lemma count_hit_sel [simp]:
  "rd_active (count_hit h rd) = rd_active rd" "rd_enabled (count_hit h rd) = rd_enabled rd"
  "submit_ranges (count_hit h rd) = submit_ranges rd"
  "persistent_ranges (count_hit h rd) = persistent_ranges rd"
  by (simp_all add: count_hit_def)

definition guest_range_cache_hit ::
    "guest_map \<Rightarrow> readable_cache \<Rightarrow> nat \<Rightarrow> nat \<Rightarrow> bool \<times> guest_map \<times> readable_cache" where
  "guest_range_cache_hit m rd b e =
     (if \<not> rd_enabled rd then (False, m, rd)
      else let
        rd1 = count_call rd;
        synced = sync_generation (persistent_ranges rd1) (map_generation m);
        (in_persistent, persistent) = cache_contains synced b e;
        (in_submit, submit) =
          (if \<not> in_persistent \<and> rd_active rd1 then cache_contains (submit_ranges rd1) b e
           else (False, submit_ranges rd1));
        cached = (in_persistent \<or> in_submit);
        (mapping, m') =
          (if cached then (None, m) else readable_mapping_containing m b e);
        hit = (cached \<or> mapping \<noteq> None);
        persistent' =
          (case mapping of None \<Rightarrow> persistent
           | Some r \<Rightarrow> cache_insert persistent (r_begin r) (r_end r))
      in (hit, m', count_hit hit (rd1\<lparr>persistent_ranges := persistent', submit_ranges := submit\<rparr>)))"

definition cache_guest_readable_range ::
    "guest_map \<Rightarrow> readable_cache \<Rightarrow> nat \<Rightarrow> nat \<Rightarrow> nat \<Rightarrow> nat \<Rightarrow> guest_map \<times> readable_cache" where
  "cache_guest_readable_range m rd b e query_begin query_end =
     (if \<not> rd_enabled rd \<or> \<not> rd_active rd \<or> b \<ge> e then (m, rd)
      else let
        rd1 = rd\<lparr>submit_ranges := cache_insert (submit_ranges rd) b e\<rparr>;
        (mapping, m') = readable_mapping_containing m query_begin query_end
      in (m', case mapping of None \<Rightarrow> rd1
              | Some r \<Rightarrow> rd1\<lparr>persistent_ranges :=
                  cache_insert (persistent_ranges rd1) (r_begin r) (r_end r)\<rparr>))"

definition submit_scope_begin :: "guest_map \<Rightarrow> readable_cache \<Rightarrow> readable_cache" where
  "submit_scope_begin m rd =
     (let rd1 = rd\<lparr>rd_active := rd_enabled rd, rd_calls := 0, rd_hits := 0, rd_os_probes := 0,
                   submit_ranges := cache_clear (submit_ranges rd)\<rparr>
      in if rd_active rd1
         then rd1\<lparr>persistent_ranges := sync_generation (persistent_ranges rd1) (map_generation m)\<rparr>
         else rd1)"

definition submit_scope_end :: "readable_cache \<Rightarrow> readable_cache" where
  "submit_scope_end rd = rd\<lparr>rd_active := False\<rparr>"

abbreviation page_of :: "nat \<Rightarrow> nat" where
  "page_of a \<equiv> a div 4096 * 4096"

text \<open>The page loop; \<open>p += 0x1000\<close> wraps, so a return is not a matter of course.\<close>

partial_function (option) probe_pages ::
    "(nat \<Rightarrow> bool) \<Rightarrow> nat \<Rightarrow> nat \<Rightarrow> nat \<Rightarrow> readable_cache \<Rightarrow> (bool \<times> readable_cache) option" where
  "probe_pages probe a last_page p rd =
     (if p \<le> last_page
      then (let rd1 = (if rd_active rd then rd\<lparr>rd_os_probes := u64 (rd_os_probes rd + 1)\<rparr> else rd)
            in if \<not> probe (if p < a then a else p) then Some (False, rd1)
               else probe_pages probe a last_page (u64 (p + 4096)) rd1)
      else Some (True, rd))"

definition guest_readable ::
    "bool \<Rightarrow> (nat \<Rightarrow> bool) \<Rightarrow> guest_map \<Rightarrow> readable_cache \<Rightarrow> nat \<Rightarrow> nat
     \<Rightarrow> (bool \<times> guest_map \<times> readable_cache) option" where
  "guest_readable pipe_ok probe m rd a n =
     (if a < 4096 \<or> n = 0 then Some (False, m, rd)
      else if u64 (a + n) < a then Some (False, m, rd)
      else let e = u64 (a + n); (hit, m1, rd1) = guest_range_cache_hit m rd a e
           in if hit then Some (True, m1, rd1)
              else if \<not> pipe_ok then Some (False, m1, rd1)
              else let last_page = page_of (u64_sub (u64 (a + n)) 1)
                   in Option.bind (probe_pages probe a last_page (page_of a) rd1) (\<lambda>(ok, rd2).
                        if \<not> ok then Some (False, m1, rd2)
                        else let (m2, rd3) =
                               cache_guest_readable_range m1 rd2 (page_of a) (u64 (last_page + 4096)) a e
                             in Some (True, m2, rd3)))"

subsection \<open>The page loop\<close>

lemma page_of_le: "page_of a \<le> a"
  by simp

lemma page_step: "4096 dvd (p::nat) \<Longrightarrow> 4096 dvd q \<Longrightarrow> p < q \<Longrightarrow> p + 4096 \<le> q"
  by (elim dvdE) simp

definition all_probed :: "(nat \<Rightarrow> bool) \<Rightarrow> nat \<Rightarrow> nat \<Rightarrow> nat \<Rightarrow> bool" where
  "all_probed probe a last_page p \<longleftrightarrow>
     (\<forall>q. 4096 dvd q \<longrightarrow> p \<le> q \<longrightarrow> q \<le> last_page \<longrightarrow> probe (max a q))"

lemma all_probed_step:
  assumes "4096 dvd p" and "p \<le> last_page"
  shows "all_probed probe a last_page p \<longleftrightarrow>
         probe (max a p) \<and> all_probed probe a last_page (p + 4096)"
proof
  assume "all_probed probe a last_page p"
  with assms show "probe (max a p) \<and> all_probed probe a last_page (p + 4096)"
    by (auto simp: all_probed_def)
next
  assume r: "probe (max a p) \<and> all_probed probe a last_page (p + 4096)"
  have "probe (max a q)" if "4096 dvd q" "p \<le> q" "q \<le> last_page" for q
  proof (cases "p = q")
    case True
    with r show ?thesis by simp
  next
    case False
    with that assms(1) have "p + 4096 \<le> q" by (intro page_step) auto
    with r that show ?thesis by (simp add: all_probed_def)
  qed
  then show "all_probed probe a last_page p" by (simp add: all_probed_def)
qed

lemma max_probe: "(if p < a then a else p) = max a (p::nat)"
  by simp

lemma probe_pages_returns:
  assumes "4096 dvd p" and "4096 dvd last_page" and "last_page + 4096 < 2 ^ 64"
    and "p \<le> last_page + 4096"
  shows "\<exists>k. probe_pages probe a last_page p rd
             = Some (all_probed probe a last_page p, rd\<lparr>rd_os_probes := k\<rparr>)"
  using assms
proof (induction "last_page + 4096 - p" arbitrary: p rd rule: less_induct)
  case less
  show ?case
  proof (cases "p \<le> last_page")
    case False
    then have "all_probed probe a last_page p" by (simp add: all_probed_def)
    with False show ?thesis
      by (intro exI[of _ "rd_os_probes rd"]) (simp add: probe_pages.simps)
  next
    case True
    let ?rd = "if rd_active rd then rd\<lparr>rd_os_probes := u64 (rd_os_probes rd + 1)\<rparr> else rd"
    have step: "probe_pages probe a last_page p rd =
        (if \<not> probe (max a p) then Some (False, ?rd)
         else probe_pages probe a last_page (p + 4096) ?rd)"
      using True less.prems by (subst probe_pages.simps) (simp add: max_probe wrap_simps Let_def)
    show ?thesis
    proof (cases "probe (max a p)")
      case False
      then show ?thesis
        using all_probed_step[OF less.prems(1) True, of probe a] unfolding step
        by (cases "rd_active rd")
           (auto intro: exI[of _ "rd_os_probes rd"] exI[of _ "u64 (rd_os_probes rd + 1)"])
    next
      case p: True
      have "\<exists>k. probe_pages probe a last_page (p + 4096) ?rd
              = Some (all_probed probe a last_page (p + 4096), ?rd\<lparr>rd_os_probes := k\<rparr>)"
        using less.prems True by (intro less.hyps) auto
      with p show ?thesis
        using all_probed_step[OF less.prems(1) True, of probe a] unfolding step
        by (cases "rd_active rd") auto
    qed
  qed
qed

text \<open>
  With the last page of the address space in the range, the loop cannot leave it: either a
  probe fails or it runs for ever.
\<close>

lemma probe_pages_last_page_stuck:
  assumes "probe_pages probe a last_page p rd = Some r"
  shows "last_page + 4096 = 2 ^ 64 \<longrightarrow> 4096 dvd p \<longrightarrow> p < 2 ^ 64 \<longrightarrow> \<not> fst r"
proof (rule probe_pages.raw_induct[where
    P = "\<lambda>probe a last_page p rd r.
           last_page + 4096 = 2 ^ 64 \<longrightarrow> 4096 dvd p \<longrightarrow> p < 2 ^ 64 \<longrightarrow> \<not> fst r",
    OF _ assms], intro impI)
  fix self :: "(nat \<Rightarrow> bool) \<Rightarrow> nat \<Rightarrow> nat \<Rightarrow> nat \<Rightarrow> readable_cache \<Rightarrow> (bool \<times> readable_cache) option"
  fix probe :: "nat \<Rightarrow> bool" and a last_page p :: nat and rd r
  assume IH: "\<And>probe a last_page p rd y. self probe a last_page p rd = Some y \<Longrightarrow>
      last_page + 4096 = 2 ^ 64 \<longrightarrow> 4096 dvd p \<longrightarrow> p < 2 ^ 64 \<longrightarrow> \<not> fst y"
    and body: "(if p \<le> last_page
      then (let rd1 = (if rd_active rd then rd\<lparr>rd_os_probes := u64 (rd_os_probes rd + 1)\<rparr> else rd)
            in if \<not> probe (if p < a then a else p) then Some (False, rd1)
               else self probe a last_page (u64 (p + 4096)) rd1)
      else Some (True, rd)) = Some r"
    and top: "last_page + 4096 = 2 ^ 64" and p: "4096 dvd p" "p < 2 ^ 64"
  have "p + 4096 \<le> 2 ^ 64" using p by (intro page_step) auto
  with top have le: "p \<le> last_page" by simp
  have dvd: "4096 dvd u64 (p + 4096)"
    unfolding u64_def using p by (intro dvd_mod) auto
  show "\<not> fst r"
  proof (cases "probe (if p < a then a else p)")
    case True
    with body le have "self probe a last_page (u64 (p + 4096))
        (if rd_active rd then rd\<lparr>rd_os_probes := u64 (rd_os_probes rd + 1)\<rparr> else rd) = Some r"
      by (simp add: Let_def)
    from IH[OF this] top dvd show ?thesis using u64_bound by blast
  next
    case False
    with body le show ?thesis by (auto simp: Let_def)
  qed
qed

subsection \<open>Correctness of the readability probe\<close>

text \<open>
  \<open>R\<close> is the set of bytes the kernel lets the process read; readability is granted by pages.
  What the caches hold is readable as long as their generation is current.
\<close>

definition page_granular :: "nat set \<Rightarrow> bool" where
  "page_granular R \<longleftrightarrow> (\<forall>a b. a div 4096 = b div 4096 \<longrightarrow> a \<in> R \<longrightarrow> b \<in> R)"

definition map_sound :: "nat set \<Rightarrow> guest_map \<Rightarrow> bool" where
  "map_sound R m \<longleftrightarrow> cache_wf (registry m) \<and> cache_bytes (registry m) \<subseteq> R"

definition readable_sound :: "nat set \<Rightarrow> guest_map \<Rightarrow> readable_cache \<Rightarrow> bool" where
  "readable_sound R m rd \<longleftrightarrow>
     cache_wf (persistent_ranges rd) \<and> cache_wf (submit_ranges rd) \<and>
     cache_bytes (submit_ranges rd) \<subseteq> R \<and>
     (generation (persistent_ranges rd) = map_generation m
      \<longrightarrow> cache_bytes (persistent_ranges rd) \<subseteq> R)"

lemma all_probed_readable:
  assumes R: "page_granular R" and a: "4096 \<le> a" "0 < n"
    and all: "all_probed (\<lambda>p. p \<in> R) a (page_of (a + n - 1)) (page_of a)"
  shows "{page_of a..<page_of (a + n - 1) + 4096} \<subseteq> R"
proof
  fix x assume x: "x \<in> {page_of a..<page_of (a + n - 1) + 4096}"
  have "page_of x \<le> page_of (a + n - 1)"
    using x by (metis add.commute atLeastLessThan_iff div_less_iff_less_mult
        less_Suc_eq_le mult_Suc mult_le_mono1 zero_less_numeral)
  moreover have "page_of a \<le> page_of x"
    using x by (metis atLeastLessThan_iff less_eq_div_iff_mult_less_eq mult_le_mono1
        zero_less_numeral)
  ultimately have "max a (page_of x) \<in> R"
    using all by (auto simp: all_probed_def)
  moreover have "max a (page_of x) div 4096 = x div 4096"
    using \<open>page_of a \<le> page_of x\<close> by (cases "a \<le> page_of x") auto
  ultimately show "x \<in> R"
    using R unfolding page_granular_def by blast
qed

lemma readable_mapping_sound:
  assumes "map_sound R m" and "readable_mapping_containing m b e = (res, m')"
  shows "map_sound R m' \<and> map_generation m' = map_generation m \<and>
         (\<forall>r. res = Some r \<longrightarrow> range_bytes r \<subseteq> R \<and> {b..<e} \<subseteq> range_bytes r \<and> b < e)"
proof -
  obtain res' c where cr: "containing_range (registry m) b e = (res', c)"
    by fastforce
  have eq: "res = res'" "m' = m\<lparr>registry := c\<rparr>"
    using assms(2) cr by (auto simp: readable_mapping_containing_def)
  have c: "c = snd (cache_contains (registry m) b e)"
    using cr by (auto simp: containing_range_def split: prod.splits bool.splits)
  have "map_sound R m'"
    using assms(1) rc.holds_bytes rc.holds_wf unfolding eq c by (simp add: map_sound_def)
  moreover have "range_bytes r \<subseteq> R \<and> {b..<e} \<subseteq> range_bytes r \<and> b < e" if "res = Some r" for r
    using containing_range_Some[of "registry m" b e r] that assms(1) cr
    unfolding eq map_sound_def by auto
  ultimately show ?thesis by (simp add: eq)
qed

lemma range_bytes_insert: "{r_begin r..<r_end r} = range_bytes r"
  by (simp add: range_bytes_def)

lemma cache_hit_sound:
  assumes m: "map_sound R m" and rd: "readable_sound R m rd"
    and hit: "guest_range_cache_hit m rd b e = (hit, m', rd')"
  shows "map_sound R m' \<and> readable_sound R m' rd' \<and> map_generation m' = map_generation m
         \<and> (hit \<longrightarrow> {b..<e} \<subseteq> R)
         \<and> (rd_enabled rd' \<longrightarrow> generation (persistent_ranges rd') = map_generation m')
         \<and> rd_enabled rd' = rd_enabled rd"
proof (cases "rd_enabled rd")
  case False
  with assms show ?thesis by (simp add: guest_range_cache_hit_def)
next
  case True
  let ?synced = "sync_generation (persistent_ranges rd) (map_generation m)"
  obtain inp per where per: "cache_contains ?synced b e = (inp, per)" by fastforce
  obtain ins sub where sub: "(if \<not> inp \<and> rd_active rd then cache_contains (submit_ranges rd) b e
      else (False, submit_ranges rd)) = (ins, sub)" by fastforce
  obtain res m1 where res: "(if inp \<or> ins then (None, m) else readable_mapping_containing m b e)
      = (res, m1)" by fastforce
  have out: "hit = (inp \<or> ins \<or> res \<noteq> None)" "m' = m1"
    "persistent_ranges rd' = (case res of None \<Rightarrow> per | Some r \<Rightarrow> cache_insert per (r_begin r) (r_end r))"
    "submit_ranges rd' = sub" "rd_enabled rd' = rd_enabled rd"
    using hit True
    unfolding guest_range_cache_hit_def Let_def count_call_sel per case_prod_conv sub res
    by auto
  have sync: "cache_wf ?synced" "cache_bytes ?synced \<subseteq> R" "generation ?synced = map_generation m"
    using rd by (simp_all add: readable_sound_def sync_generation_wf sync_generation_bytes)
  have per': "per = snd (cache_contains ?synced b e)" "inp = fst (cache_contains ?synced b e)"
    using per by simp_all
  have P: "cache_wf per" "cache_bytes per \<subseteq> R" "generation per = map_generation m"
    using sync rc.holds_bytes rc.holds_wf cache_contains_state unfolding per'(1) by auto
  have pin: "inp \<Longrightarrow> {b..<e} \<subseteq> R"
    using sync rc.holds_iff unfolding per'(2) by auto
  have subwf: "cache_wf (submit_ranges rd)" "cache_bytes (submit_ranges rd) \<subseteq> R"
    using rd by (simp_all add: readable_sound_def)
  have S: "cache_wf sub \<and> cache_bytes sub \<subseteq> R \<and> (ins \<longrightarrow> {b..<e} \<subseteq> R)"
  proof (cases "\<not> inp \<and> rd_active rd")
    case c: True
    then have "sub = snd (cache_contains (submit_ranges rd) b e)"
      "ins = fst (cache_contains (submit_ranges rd) b e)"
      using sub by simp_all
    with subwf show ?thesis
      using rc.holds_bytes rc.holds_wf rc.holds_iff by auto
  next
    case False
    with sub subwf show ?thesis by auto
  qed
  have M: "map_sound R m1 \<and> map_generation m1 = map_generation m \<and>
      (\<forall>r. res = Some r \<longrightarrow> range_bytes r \<subseteq> R \<and> {b..<e} \<subseteq> range_bytes r)"
  proof (cases "inp \<or> ins")
    case c: True
    with res m show ?thesis by auto
  next
    case False
    then have "readable_mapping_containing m b e = (res, m1)" using res by simp
    with readable_mapping_sound[OF m] show ?thesis by blast
  qed
  have "cache_wf (persistent_ranges rd') \<and> cache_bytes (persistent_ranges rd') \<subseteq> R
      \<and> generation (persistent_ranges rd') = map_generation m"
    unfolding out using P M
    by (cases res) (auto simp: rc.add_wf rc.add_bytes range_bytes_insert)
  moreover have "hit \<longrightarrow> {b..<e} \<subseteq> R"
    unfolding out using pin S M by (cases res) auto
  ultimately show ?thesis
    using S M out by (simp add: readable_sound_def)
qed

lemma cache_readable_sound:
  assumes m: "map_sound R m" and rd: "readable_sound R m rd" and sub: "{b..<e} \<subseteq> R"
    and res: "cache_guest_readable_range m rd b e qb qe = (m', rd')"
  shows "map_sound R m' \<and> readable_sound R m' rd' \<and> map_generation m' = map_generation m"
proof (cases "\<not> rd_enabled rd \<or> \<not> rd_active rd \<or> b \<ge> e")
  case True
  with assms show ?thesis unfolding cache_guest_readable_range_def by auto
next
  case False
  obtain mapping m1 where look: "readable_mapping_containing m qb qe = (mapping, m1)" by fastforce
  have M: "map_sound R m1 \<and> map_generation m1 = map_generation m \<and>
      (\<forall>r. mapping = Some r \<longrightarrow> range_bytes r \<subseteq> R)"
    using readable_mapping_sound[OF m look] by blast
  have out: "m' = m1" "rd' = (case mapping of None \<Rightarrow> rd\<lparr>submit_ranges := cache_insert (submit_ranges rd) b e\<rparr>
      | Some r \<Rightarrow> rd\<lparr>submit_ranges := cache_insert (submit_ranges rd) b e,
          persistent_ranges := cache_insert (persistent_ranges rd) (r_begin r) (r_end r)\<rparr>)"
    using res False look unfolding cache_guest_readable_range_def if_not_P[OF False]
    by (auto simp: Let_def split: option.splits)
  from M sub rd show ?thesis unfolding out
    by (cases mapping)
       (auto simp: readable_sound_def rc.add_wf rc.add_bytes range_bytes_insert)
qed

lemma readable_sound_probes [simp]:
  "readable_sound R m (rd\<lparr>rd_os_probes := k\<rparr>) = readable_sound R m rd"
  by (simp add: readable_sound_def)

lemma all_probed_span:
  assumes "{a..<a + n} \<subseteq> R" and "0 < n"
  shows "all_probed (\<lambda>p. p \<in> R) a (page_of (a + n - 1)) (page_of a)"
  unfolding all_probed_def
proof (intro allI impI)
  fix q assume "q \<le> page_of (a + n - 1)"
  moreover have "page_of (a + n - 1) \<le> a + n - 1" by simp
  ultimately have "q \<le> a + n - 1" by (rule order_trans)
  with assms show "max a q \<in> R" by (auto simp: max_def)
qed

lemma page_of_mono: "a \<le> b \<Longrightarrow> page_of a \<le> page_of b"
  by (simp add: div_le_mono)

lemma guest_readable_decides:
  assumes m: "map_sound R m" and rd: "readable_sound R m rd"
    and R: "page_granular R" and low: "R \<inter> {..<4096} = {}"
    and n: "0 < n" "n < 2 ^ 32" and span: "a + n \<le> 2 ^ 64 - 4096"
  shows "\<exists>m' rd'. guest_readable True (\<lambda>p. p \<in> R) m rd a n = Some ({a..<a + n} \<subseteq> R, m', rd')
           \<and> map_sound R m' \<and> readable_sound R m' rd' \<and> map_generation m' = map_generation m"
proof (cases "a < 4096")
  case True
  have "a \<in> {a..<a + n}" using n by simp
  moreover have "a \<notin> R" using True low by blast
  ultimately have "\<not> {a..<a + n} \<subseteq> R" by blast
  with True m rd show ?thesis by (simp add: guest_readable_def)
next
  case False
  let ?last = "page_of (a + n - 1)"
  have sum: "u64 (a + n) = a + n" "u64_sub (a + n) 1 = a + n - 1"
    using span n by (simp_all add: wrap_simps)
  obtain hit m1 rd1 where look: "guest_range_cache_hit m rd a (a + n) = (hit, m1, rd1)"
    by (metis prod_cases3)
  have H: "map_sound R m1" "readable_sound R m1 rd1" "map_generation m1 = map_generation m"
    "hit \<longrightarrow> {a..<a + n} \<subseteq> R"
    using cache_hit_sound[OF m rd look] by blast+
  have run: "guest_readable True (\<lambda>p. p \<in> R) m rd a n =
      (if hit then Some (True, m1, rd1)
       else Option.bind (probe_pages (\<lambda>p. p \<in> R) a ?last (page_of a) rd1) (\<lambda>(ok, rd2).
          if \<not> ok then Some (False, m1, rd2)
          else let (m2, rd3) = cache_guest_readable_range m1 rd2 (page_of a) (u64 (?last + 4096)) a (a + n)
               in Some (True, m2, rd3)))"
    using False n unfolding guest_readable_def sum Let_def look case_prod_conv by simp
  show ?thesis
  proof (cases hit)
    case True
    with H show ?thesis by (auto simp: run)
  next
    case nohit: False
    have le: "?last \<le> a + n - 1" by simp
    have last: "?last + 4096 < 2 ^ 64" using span n le by linarith
    have "page_of a \<le> ?last" using n by (intro page_of_mono) simp
    then obtain k where k: "probe_pages (\<lambda>p. p \<in> R) a ?last (page_of a) rd1
        = Some (all_probed (\<lambda>p. p \<in> R) a ?last (page_of a), rd1\<lparr>rd_os_probes := k\<rparr>)"
      using probe_pages_returns[of "page_of a" ?last "\<lambda>p. p \<in> R" a rd1] last by auto
    show ?thesis
    proof (cases "all_probed (\<lambda>p. p \<in> R) a ?last (page_of a)")
      case False
      then have "\<not> {a..<a + n} \<subseteq> R" using all_probed_span[of a n R] n by blast
      with nohit False k H show ?thesis by (simp add: run)
    next
      case True
      have page: "{page_of a..<?last + 4096} \<subseteq> R"
        using all_probed_readable[OF R _ n(1) True] \<open>\<not> a < 4096\<close> by simp
      have "a + n - 1 < ?last + 4096"
        using dividend_less_div_times[of 4096 "a + n - 1"] by linarith
      with page have in_R: "{a..<a + n} \<subseteq> R"
        using page_of_le[of a] by (intro order_trans[OF _ page]) auto
      obtain m2 rd3 where store: "cache_guest_readable_range m1 (rd1\<lparr>rd_os_probes := k\<rparr>)
          (page_of a) (?last + 4096) a (a + n) = (m2, rd3)"
        by fastforce
      have "map_sound R m2 \<and> readable_sound R m2 rd3 \<and> map_generation m2 = map_generation m1"
        using cache_readable_sound[OF _ _ page store] H by simp
      with nohit True k H in_R store last show ?thesis by (simp add: run wrap_simps)
    qed
  qed
qed

text \<open>The begin of a submit scope forgets the submit-local ranges of the previous one.\<close>

lemma submit_scope_begin_sound:
  assumes "cache_wf (persistent_ranges rd)"
    and "generation (persistent_ranges rd) = map_generation m \<longrightarrow> cache_bytes (persistent_ranges rd) \<subseteq> R"
  shows "readable_sound R m (submit_scope_begin m rd)"
  using assms
  by (auto simp: submit_scope_begin_def readable_sound_def Let_def rc.wipe_wf rc.wipe_bytes
      sync_generation_wf sync_generation_bytes)

subsection \<open>Properties\<close>

text \<open>
  C2: whatever notifications the kernel-memory code sends, the readable-mapping registry holds
  exactly the bytes those notifications leave readable: an added readable mapping is united,
  an unreadable or removed one subtracted, and a range that runs past the address space
  drops the whole registry.
\<close>

theorem registry_tracks_notifications:
  assumes "list_all event_ok evs"
  shows "fst (cache_contains (registry (foldl map_step initial_guest_map evs)) b e) \<longleftrightarrow>
     b < e \<and> {b..<e} \<subseteq> foldl readable_step {} evs"
proof -
  have "cache_wf (registry initial_guest_map)"
    by (simp add: initial_guest_map_def empty_cache_wf)
  with map_trace_wf[OF this, of evs] map_trace_bytes[OF this assms] show ?thesis
    by (simp add: rc.holds_iff initial_guest_map_def empty_cache_bytes)
qed

theorem registry_tracks_notifications_witness:
  "fst (cache_contains (registry (foldl map_step initial_guest_map
     [Added 4096 8192 True, Removed 8192 4096])) 5000 6000)"
  using registry_tracks_notifications[of "[Added 4096 8192 True, Removed 8192 4096]" 5000 6000]
  by auto

text \<open>
  Every notification that can change a permission advances the generation counter, and
  no other one does; in particular the overflow paths, which return early, still advance it.
\<close>

lemma notifications_advance_generation:
  "map_generation (map_step m ev) \<noteq> map_generation m \<or> \<not> effective ev"
proof -
  have "u64 (g + 1) \<noteq> g" for g
  proof (cases "g < 2 ^ 64")
    case True
    then show ?thesis by (simp add: u64_def mod_Suc)
  next
    case False
    then show ?thesis using u64_bound[of "g + 1"] by linarith
  qed
  then show ?thesis by (simp add: map_step_generation)
qed

text \<open>
  C3: on Linux \<open>guest_readable\<close> returns, and answers true exactly when the kernel lets the
  process read every byte of the span, given sound caches and registry, page-granular
  permissions and an unreadable first page; it leaves caches and registry sound.
\<close>

theorem guest_readable_correct:
  assumes "map_sound R m" and "readable_sound R m rd" and "page_granular R"
    and "R \<inter> {..<4096} = {}" and "0 < n" and "n < 2 ^ 32" and "a + n \<le> 2 ^ 64 - 4096"
  shows "\<exists>m' rd'. guest_readable True (\<lambda>p. p \<in> R) m rd a n = Some ({a..<a + n} \<subseteq> R, m', rd')
           \<and> map_sound R m' \<and> readable_sound R m' rd'"
  using guest_readable_decides[OF assms] by blast

definition initial_readable_cache :: readable_cache where
  "initial_readable_cache = \<lparr>rd_enabled = True, rd_active = False, persistent_ranges = empty_cache,
     submit_ranges = empty_cache, rd_calls = 0, rd_hits = 0, rd_os_probes = 0\<rparr>"

lemma initial_sound:
  "map_sound R initial_guest_map" "readable_sound R initial_guest_map initial_readable_cache"
  using empty_cache_wf empty_cache_bytes
  by (simp_all add: map_sound_def readable_sound_def initial_guest_map_def initial_readable_cache_def)

theorem guest_readable_correct_witness:
  "\<exists>m' rd'. guest_readable True (\<lambda>p. p \<in> {8192..<16384}) initial_guest_map initial_readable_cache 8190 4
     = Some (False, m', rd')"
proof -
  have "page_granular {8192..<16384}"
    unfolding page_granular_def
  proof (intro allI impI)
    fix a b :: nat
    assume "a div 4096 = b div 4096" and "a \<in> {8192..<16384}"
    moreover have "a div 4096 = 2 \<or> a div 4096 = 3" using \<open>a \<in> _\<close> by auto
    ultimately show "b \<in> {8192..<16384}" by auto
  qed
  moreover have "{8192..<16384} \<inter> {..<4096} = ({} :: nat set)"
    unfolding set_eq_iff by auto
  ultimately have "\<exists>m' rd'. guest_readable True (\<lambda>p. p \<in> {8192..<16384}) initial_guest_map
      initial_readable_cache 8190 4 = Some ({8190..<8190 + (4::nat)} \<subseteq> {8192..<16384}, m', rd')
      \<and> map_sound {8192..<16384} m' \<and> readable_sound {8192..<16384} m' rd'"
    by (intro guest_readable_correct[OF initial_sound]) simp_all
  moreover have "\<not> {8190..<8190 + 4} \<subseteq> {8192..<(16384::nat)}"
    by simp
  ultimately show ?thesis by auto
qed

text \<open>
  The page loop of \<open>guest_readable\<close> cannot answer true for a span that touches the last
  page of the 64-bit address space: its page counter wraps to zero there, so the function
  either refuses the span or, if every probe succeeds, does not return.
\<close>

lemma guest_readable_last_page:
  assumes "guest_readable pipe_ok probe m rd a n = Some (ok, m', rd')" and "\<not> rd_enabled rd"
    and "a < 2 ^ 64" and "a + n \<le> 2 ^ 64" and "2 ^ 64 - 4096 < a + n"
  shows "\<not> ok"
proof (cases "a < 4096 \<or> n = 0 \<or> u64 (a + n) < a")
  case True
  with assms(1) show ?thesis
    by (cases "a < 4096 \<or> n = 0") (auto simp: guest_readable_def)
next
  case False
  have sum: "u64 (a + n) = a + n"
  proof (cases "a + n = 2 ^ 64")
    case True
    with False show ?thesis by (simp add: u64_def)
  next
    case f: False
    with assms(4) show ?thesis by (intro u64_id) linarith
  qed
  then have lt: "a + n < 2 ^ 64" by (metis u64_bound)
  have "u64_sub (a + n) 1 = a + n - 1" using lt False by (intro u64_sub_id) auto
  moreover have "(a + n - 1) div 4096 = 4503599627370495"
    using lt assms(5) by simp
  ultimately have last: "page_of (u64_sub (u64 (a + n)) 1) + 4096 = 2 ^ 64"
    by (simp add: sum)
  have miss: "guest_range_cache_hit m rd a (a + n) = (False, m, rd)"
    using assms(2) by (simp add: guest_range_cache_hit_def)
  show ?thesis
  proof
    assume ok
    with assms(1) False miss obtain rd2 where
      "probe_pages probe a (page_of (u64_sub (u64 (a + n)) 1)) (page_of a) rd = Some (True, rd2)"
      unfolding guest_readable_def Let_def sum miss case_prod_conv
      by (auto split: if_splits Option.bind_splits)
    from probe_pages_last_page_stuck[OF this] last assms(3) show False
      by (simp add: le_less_trans[OF page_of_le])
  qed
qed

end
