(* ===== verification/GuestWritable.thy ===== *)
theory GuestWritable
  imports GuestPermission
begin

text \<open>
  \<open>guest_writable\<close> of \<open>gpu/execute/gpu_executor.cpp\<close> on Linux: the streaming parser of
  \<open>/proc/self/maps\<close>, the writable-range cache, and the protocol between a thread that changes
  page protections and one that memoises the answer. The maps file is a parameter, in the
  format the kernel documents; the parser is proved to recover exactly the writable bytes
  above the first page whatever the chunks the file is read in.
\<close>

subsection \<open>The parser\<close>

definition hex_value :: "char \<Rightarrow> nat" where
  "hex_value h =
     (let c = of_char h in
      if 48 \<le> c \<and> c \<le> 57 then c - 48 else if 97 \<le> c \<and> c \<le> 102 then c - 97 + 10 else 0)"

text \<open>The end of the list is the terminating zero of the line buffer.\<close>

fun read_hex :: "char \<Rightarrow> nat \<Rightarrow> string \<Rightarrow> nat \<times> string" where
  "read_hex stop acc [] = (acc, [])"
| "read_hex stop acc (h # p) =
     (if h = CHR 0x00 \<or> h = stop then (acc, h # p)
      else read_hex stop (u64 (push_bit 4 acc) OR hex_value h) p)"

definition push_writable :: "guest_range list \<Rightarrow> nat \<Rightarrow> nat \<Rightarrow> guest_range list" where
  "push_writable rs b finish =
     (if rs \<noteq> [] \<and> r_end (last rs) = b
      then butlast rs @ [(last rs)\<lparr>r_end := finish\<rparr>]
      else rs @ [mk_range b finish])"

definition parse_maps_line :: "guest_range list \<Rightarrow> string \<Rightarrow> guest_range list" where
  "parse_maps_line rs line =
     (case read_hex (CHR ''-'') 0 line of
        (b, CHR ''-'' # p) \<Rightarrow>
          (case read_hex (CHR '' '') 0 p of
             (finish, CHR '' '' # r # w # _) \<Rightarrow>
               (if r \<noteq> CHR 0x00 \<and> w = CHR ''w'' \<and> finish > b
                then let b' = max b 4096
                     in if finish > b' then push_writable rs b' finish else rs
                else rs)
           | _ \<Rightarrow> rs)
      | _ \<Rightarrow> rs)"

definition feed_char :: "string \<times> guest_range list \<Rightarrow> char \<Rightarrow> string \<times> guest_range list" where
  "feed_char st c =
     (case st of (line, rs) \<Rightarrow>
        if c = CHR 0x0A then ([], parse_maps_line rs line)
        else if length line < 4095 then (line @ [c], rs)
        else (line, rs))"

definition parse_maps :: "string list \<Rightarrow> guest_range list" where
  "parse_maps chunks = snd (foldl (foldl feed_char) ([], []) chunks)"

subsection \<open>The writable probe\<close>

record writable_cache =
  wr_enabled :: bool
  wr_ranges :: range_cache
  wr_calls :: nat
  wr_hits :: nat
  wr_os_probes :: nat

definition guest_writable_cache_hit ::
    "guest_map \<Rightarrow> writable_cache \<Rightarrow> nat \<Rightarrow> nat \<Rightarrow> bool \<times> writable_cache" where
  "guest_writable_cache_hit m wc b e =
     (if \<not> wr_enabled wc then (False, wc)
      else let (hit, c) = cache_contains (sync_generation (wr_ranges wc) (map_generation m)) b e
           in (hit, wc\<lparr>wr_calls := u64 (wr_calls wc + 1), wr_ranges := c,
                       wr_hits := (if hit then u64 (wr_hits wc + 1) else wr_hits wc)\<rparr>))"

definition cache_guest_writable_range :: "writable_cache \<Rightarrow> nat \<Rightarrow> nat \<Rightarrow> writable_cache" where
  "cache_guest_writable_range wc b e =
     (if \<not> wr_enabled wc \<or> b \<ge> e then wc
      else wc\<lparr>wr_ranges := cache_insert (wr_ranges wc) b e\<rparr>)"

text \<open>
  What follows a miss, in two parts: the search in the parsed ranges, and the store under
  the generation \<open>gen\<close> read before the file was opened.
\<close>

definition found_in :: "guest_range list \<Rightarrow> nat \<Rightarrow> nat \<Rightarrow> bool" where
  "found_in rs a e \<longleftrightarrow> (\<exists>r\<in>set rs. r_begin r \<le> a \<and> e \<le> r_end r)"

definition store_writable ::
    "writable_cache \<Rightarrow> guest_range list \<Rightarrow> nat \<Rightarrow> nat \<Rightarrow> nat \<Rightarrow> bool \<times> writable_cache" where
  "store_writable wc rs gen a e =
     (let found = found_in rs a e
      in (found, if found \<and> wr_enabled wc
                 then wc\<lparr>wr_ranges := assign_sorted_ranges (wr_ranges wc) rs gen\<rparr> else wc))"

definition guest_writable ::
    "string list option \<Rightarrow> guest_map \<Rightarrow> writable_cache \<Rightarrow> nat \<Rightarrow> nat \<Rightarrow> bool \<times> writable_cache" where
  "guest_writable maps m wc a n =
     (if a < 4096 \<or> n = 0 \<or> u64 (a + n) < a then (False, wc)
      else let e = u64 (a + n); (hit, wc1) = guest_writable_cache_hit m wc a e
           in if hit then (True, wc1)
              else let gen = map_generation m;
                       wc2 = wc1\<lparr>wr_os_probes := u64 (wr_os_probes wc1 + 1)\<rparr>
                   in case maps of
                        None \<Rightarrow> (False, wc2)
                      | Some chunks \<Rightarrow> store_writable wc2 (parse_maps chunks) gen a e)"

subsection \<open>The format of the file\<close>

text \<open>
  A line of \<open>/proc/self/maps\<close>: the bounds in lower-case hexadecimal padded to eight digits,
  four permission characters, and a tail (offset, device, inode, path) without a newline.
\<close>

record vma =
  vm_start :: nat
  vm_end :: nat
  vm_read :: char
  vm_writable :: bool
  vm_rest :: string

definition hex_digit :: "nat \<Rightarrow> char" where
  "hex_digit d = char_of (if d < 10 then 48 + d else 87 + d)"

fun hex_digits :: "nat \<Rightarrow> string" where
  "hex_digits n = (if n < 16 then [hex_digit n] else hex_digits (n div 16) @ [hex_digit (n mod 16)])"

declare hex_digits.simps [simp del]

definition hex_padded :: "nat \<Rightarrow> string" where
  "hex_padded n = replicate (8 - length (hex_digits n)) (CHR ''0'') @ hex_digits n"

definition vma_line :: "vma \<Rightarrow> string" where
  "vma_line v = hex_padded (vm_start v) @ ''-'' @ hex_padded (vm_end v) @ '' '' @
     vm_read v # (if vm_writable v then CHR ''w'' else CHR ''-'') # vm_rest v"

definition maps_text :: "vma list \<Rightarrow> string" where
  "maps_text vs = concat (map (\<lambda>v. vma_line v @ [CHR 0x0A]) vs)"

definition vma_ok :: "vma \<Rightarrow> bool" where
  "vma_ok v \<longleftrightarrow> vm_start v < vm_end v \<and> vm_end v < 2 ^ 64 \<and>
     vm_read v \<noteq> CHR 0x00 \<and> vm_read v \<noteq> CHR 0x0A \<and> CHR 0x0A \<notin> set (vm_rest v)"

definition vmas_ok :: "vma list \<Rightarrow> bool" where
  "vmas_ok vs \<longleftrightarrow> list_all vma_ok vs \<and> sorted_wrt (\<lambda>v w. vm_end v \<le> vm_start w) vs"

definition writable_bytes :: "vma list \<Rightarrow> nat set" where
  "writable_bytes vs = (\<Union>v\<in>{v\<in>set vs. vm_writable v}. {max 4096 (vm_start v)..<vm_end v})"

lemma writable_bytes_Nil: "writable_bytes [] = {}"
  by (simp add: writable_bytes_def)

lemma writable_bytes_Cons: "writable_bytes (v # vs)
    = (if vm_writable v then {max 4096 (vm_start v)..<vm_end v} else {}) \<union> writable_bytes vs"
  by (auto simp: writable_bytes_def)

subsection \<open>Reading back a hexadecimal number\<close>

definition horner :: "nat \<Rightarrow> string \<Rightarrow> nat" where
  "horner acc ds = foldl (\<lambda>a h. 16 * a + hex_value h) acc ds"

definition hex_chars :: "string" where
  "hex_chars = ''0123456789abcdef''"

lemma hex_value_bound: "h \<in> set hex_chars \<Longrightarrow> hex_value h < 16"
  unfolding hex_chars_def by (auto simp: hex_value_def)

lemma hex_chars_plain: "h \<in> set hex_chars \<Longrightarrow>
   h \<noteq> CHR 0x00 \<and> h \<noteq> CHR ''-'' \<and> h \<noteq> CHR '' '' \<and> h \<noteq> CHR 0x0A"
  unfolding hex_chars_def by auto

lemma or_shift_nibble: "v < 16 \<Longrightarrow> push_bit 4 a OR v = 16 * a + (v::nat)"
proof -
  assume v: "v < 16"
  have "push_bit 4 a AND v = 0"
  proof (rule bit_eqI)
    fix n
    have "\<not> bit v n" if "4 \<le> n"
    proof -
      have "v < 2 ^ n"
        using v that power_increasing[of 4 n "2::nat"] by simp
      then show ?thesis by (metis bit_take_bit_iff less_irrefl take_bit_nat_eq_self)
    qed
    then show "bit (push_bit 4 a AND v) n = bit 0 n"
      by (auto simp: bit_simps)
  qed
  then have "push_bit 4 a OR v = push_bit 4 a + v"
    by (rule disjunctive_add_eq_or [symmetric])
  then show ?thesis by (simp add: push_bit_eq_mult)
qed

lemma horner_Cons: "horner acc (h # ds) = horner (16 * acc + hex_value h) ds"
  by (simp add: horner_def)

lemma horner_ge: "acc \<le> horner acc ds"
proof (induction ds arbitrary: acc)
  case (Cons h ds)
  from Cons[of "16 * acc + hex_value h"] show ?case unfolding horner_Cons by linarith
qed (simp add: horner_def)

lemma read_hex_digits:
  assumes "set ds \<subseteq> set hex_chars" and "horner acc ds < 2 ^ 64"
    and "stop \<in> {CHR ''-'', CHR '' ''}"
  shows "read_hex stop acc (ds @ stop # rest) = (horner acc ds, stop # rest)"
  using assms
proof (induction ds arbitrary: acc)
  case Nil
  then show ?case by (auto simp: horner_def)
next
  case (Cons h ds)
  have h: "h \<in> set hex_chars" using Cons.prems by simp
  have "16 * acc + hex_value h < 2 ^ 64"
    using horner_ge[of "16 * acc + hex_value h" ds] Cons.prems(2) unfolding horner_Cons by linarith
  then have "u64 (push_bit 4 acc) = push_bit 4 acc"
    by (simp add: wrap_simps push_bit_eq_mult)
  with or_shift_nibble[OF hex_value_bound[OF h], of acc]
  have "u64 (push_bit 4 acc) OR hex_value h = 16 * acc + hex_value h" by simp
  with Cons hex_chars_plain[OF h] show ?case by (auto simp: horner_Cons)
qed

lemma hex_digit_char: "d < 16 \<Longrightarrow> hex_digit d \<in> set hex_chars"
proof -
  have "list_all (\<lambda>d. hex_digit d \<in> set hex_chars) [0..<16]"
    by code_simp
  moreover assume "d < 16"
  ultimately show ?thesis by (simp add: list_all_iff)
qed

lemma hex_digit_value: "d < 16 \<Longrightarrow> hex_value (hex_digit d) = d"
  by (auto simp: hex_digit_def hex_value_def Let_def)

lemma hex_digits_chars: "set (hex_digits n) \<subseteq> set hex_chars"
proof (induction n rule: hex_digits.induct)
  case (1 n)
  then show ?case
    by (cases "n < 16") (simp_all add: hex_digits.simps[of n] hex_digit_char)
qed

lemma horner_hex_digits: "horner 0 (hex_digits n) = n"
proof (induction n rule: hex_digits.induct)
  case (1 n)
  then show ?case
    by (cases "n < 16") (simp_all add: hex_digits.simps[of n] horner_def hex_digit_value)
qed

lemma hex_digits_length: "n < 16 ^ Suc k \<Longrightarrow> length (hex_digits n) \<le> Suc k"
proof (induction k arbitrary: n)
  case 0
  then show ?case by (simp add: hex_digits.simps[of n])
next
  case (Suc k)
  then have "n div 16 < 16 ^ Suc k" by (simp add: less_mult_imp_div_less)
  from Suc.IH[OF this] show ?case by (simp add: hex_digits.simps[of n])
qed

lemma hex_padded_chars: "set (hex_padded n) \<subseteq> set hex_chars"
  using hex_digits_chars[of n] by (auto simp: hex_padded_def hex_chars_def)

lemma horner_zeros: "horner 0 (replicate k (CHR ''0'') @ ds) = horner 0 ds"
proof (induction k)
  case (Suc k)
  have "hex_value (CHR ''0'') = 0" by (simp add: hex_value_def)
  with Suc show ?case by (simp add: horner_def)
qed simp

lemma horner_hex_padded: "horner 0 (hex_padded n) = n"
  by (simp add: hex_padded_def horner_zeros horner_hex_digits)

lemma hex_padded_length: "n < 2 ^ 64 \<Longrightarrow> length (hex_padded n) \<le> 16"
  using hex_digits_length[of n 15] by (simp add: hex_padded_def)

subsection \<open>The parser recovers the writable ranges\<close>

definition add_vma :: "guest_range list \<Rightarrow> vma \<Rightarrow> guest_range list" where
  "add_vma rs v =
     (if vm_writable v \<and> vm_end v > max (vm_start v) 4096
      then push_writable rs (max (vm_start v) 4096) (vm_end v) else rs)"

definition vma_header :: "vma \<Rightarrow> string" where
  "vma_header v = hex_padded (vm_start v) @ ''-'' @ hex_padded (vm_end v) @ '' '' @
     [vm_read v, if vm_writable v then CHR ''w'' else CHR ''-'']"

lemma vma_line_header: "vma_line v = vma_header v @ vm_rest v"
  by (simp add: vma_line_def vma_header_def)

lemma parse_vma_header:
  assumes "vma_ok v"
  shows "parse_maps_line rs (vma_header v @ rest) = add_vma rs v"
proof -
  have "read_hex (CHR ''-'') 0 (hex_padded (vm_start v) @ CHR ''-'' # p) = (vm_start v, CHR ''-'' # p)" for p
    using read_hex_digits[OF hex_padded_chars, of 0 "vm_start v" "CHR ''-''" p] assms
    by (simp add: horner_hex_padded vma_ok_def)
  moreover have "read_hex (CHR '' '') 0 (hex_padded (vm_end v) @ CHR '' '' # p) = (vm_end v, CHR '' '' # p)" for p
    using read_hex_digits[OF hex_padded_chars, of 0 "vm_end v" "CHR '' ''" p] assms
    by (simp add: horner_hex_padded vma_ok_def)
  ultimately show ?thesis
    using assms by (simp add: parse_maps_line_def vma_header_def add_vma_def vma_ok_def Let_def)
qed

lemma vma_header_length: "vma_ok v \<Longrightarrow> length (vma_header v) \<le> 4095"
  using hex_padded_length[of "vm_start v"] hex_padded_length[of "vm_end v"]
  by (simp add: vma_header_def vma_ok_def)

lemma feed_plain:
  assumes "CHR 0x0A \<notin> set cs" and "length line \<le> 4095"
  shows "foldl feed_char (line, rs) cs = (take 4095 (line @ cs), rs)"
  using assms
proof (induction cs arbitrary: line)
  case (Cons c cs)
  then show ?case
    by (cases "length line < 4095") (auto simp: feed_char_def take_Cons')
qed simp

lemma hex_padded_plain: "CHR 0x0A \<notin> set (hex_padded n)"
  using hex_padded_chars[of n] hex_chars_plain by blast

lemma vma_line_plain: "vma_ok v \<Longrightarrow> CHR 0x0A \<notin> set (vma_line v)"
  by (auto simp: vma_line_def vma_ok_def hex_padded_plain)

lemma feed_vma:
  assumes v: "vma_ok v"
  shows "foldl feed_char ([], rs) (vma_line v @ [CHR 0x0A]) = ([], add_vma rs v)"
proof -
  have "take 4095 (vma_line v) = vma_header v @ take (4095 - length (vma_header v)) (vm_rest v)"
    using vma_header_length[OF v] by (simp add: vma_line_header)
  then show ?thesis
    using feed_plain[OF vma_line_plain[OF v], of "[]" rs]
    by (simp add: feed_char_def parse_vma_header[OF v])
qed

lemma foldl_chunks: "foldl (foldl f) s xss = foldl f s (concat xss)"
  by (induction xss arbitrary: s) simp_all

lemma feed_maps_text:
  assumes "list_all vma_ok vs"
  shows "foldl feed_char ([], rs) (maps_text vs) = ([], foldl add_vma rs vs)"
  using assms
proof (induction vs arbitrary: rs)
  case (Cons v vs)
  have "foldl feed_char ([], rs) (maps_text (v # vs))
      = foldl feed_char (foldl feed_char ([], rs) (vma_line v @ [CHR 0x0A])) (maps_text vs)"
    by (simp add: maps_text_def)
  also have "foldl feed_char ([], rs) (vma_line v @ [CHR 0x0A]) = ([], add_vma rs v)"
    using Cons.prems by (intro feed_vma) simp
  finally show ?case using Cons by simp
qed (simp add: maps_text_def)

lemma push_writable_spec:
  assumes wf: "ranges_wf rs" and ends: "\<forall>r\<in>set rs. r_end r \<le> b" and "b < f"
  shows "ranges_wf (push_writable rs b f) \<and> ranges_bytes (push_writable rs b f) = ranges_bytes rs \<union> {b..<f}
         \<and> (\<forall>r\<in>set (push_writable rs b f). r_end r \<le> f)"
proof (cases "rs \<noteq> [] \<and> r_end (last rs) = b")
  case True
  then obtain xs l where rs: "rs = xs @ [l]" by (metis append_butlast_last_id)
  with True have l: "r_end l = b" by simp
  have "r_begin l < b" using wf l by (simp add: rs ranges_wf_append)
  then have "{r_begin l..<b} \<union> {b..<f} = {r_begin l..<f}" using \<open>b < f\<close> by auto
  with True wf ends l \<open>b < f\<close> show ?thesis
    by (auto simp: push_writable_def rs ranges_wf_append range_bytes_def Un_assoc)
next
  case False
  have "r_end r < b" if "r \<in> set rs" for r
  proof -
    from that obtain xs l where rs: "rs = xs @ [l]" by (metis append_butlast_last_id empty_iff list.set(1))
    have "r_end l < b" using False ends by (auto simp: rs)
    moreover have "r_end r \<le> r_end l"
      using that wf unfolding rs ranges_wf_append by (auto intro: less_imp_le less_trans)
    ultimately show ?thesis by simp
  qed
  with False wf ends \<open>b < f\<close> show ?thesis
    by (fastforce simp: push_writable_def ranges_wf_append)
qed

lemma add_vma_spec:
  assumes "ranges_wf rs" and "\<forall>r\<in>set rs. r_end r \<le> vm_start v"
  shows "ranges_wf (add_vma rs v)
       \<and> ranges_bytes (add_vma rs v)
         = ranges_bytes rs \<union> (if vm_writable v then {max 4096 (vm_start v)..<vm_end v} else {})
       \<and> (\<forall>r\<in>set (add_vma rs v). r_end r \<le> max (vm_start v) (vm_end v))"
proof (cases "vm_writable v \<and> vm_end v > max (vm_start v) 4096")
  case True
  have "\<forall>r\<in>set rs. r_end r \<le> max (vm_start v) 4096" using assms(2) by fastforce
  from push_writable_spec[OF assms(1) this, of "vm_end v"] True show ?thesis
    by (auto simp: add_vma_def max.commute)
next
  case False
  then have "(if vm_writable v then {max 4096 (vm_start v)..<vm_end v} else {}) = {}" by auto
  with assms show ?thesis unfolding add_vma_def if_not_P[OF False] by auto
qed

lemma foldl_add_vma:
  assumes "ranges_wf rs" and "vmas_ok vs" and "\<forall>r\<in>set rs. \<forall>v\<in>set vs. r_end r \<le> vm_start v"
  shows "ranges_wf (foldl add_vma rs vs)
       \<and> ranges_bytes (foldl add_vma rs vs) = ranges_bytes rs \<union> writable_bytes vs"
  using assms
proof (induction vs arbitrary: rs)
  case Nil
  then show ?case by (simp add: writable_bytes_def)
next
  case (Cons v vs)
  have ok: "vma_ok v" "vmas_ok vs" "\<forall>w\<in>set vs. vm_end v \<le> vm_start w"
    using Cons.prems(2) by (auto simp: vmas_ok_def)
  have v: "ranges_wf (add_vma rs v)"
    "ranges_bytes (add_vma rs v)
         = ranges_bytes rs \<union> (if vm_writable v then {max 4096 (vm_start v)..<vm_end v} else {})"
    "\<forall>r\<in>set (add_vma rs v). r_end r \<le> vm_end v"
    using add_vma_spec[OF Cons.prems(1), of v] Cons.prems(3) ok(1) by (auto simp: vma_ok_def max_def)
  have "\<forall>r\<in>set (add_vma rs v). \<forall>w\<in>set vs. r_end r \<le> vm_start w"
    using v(3) ok(3) by (meson order_trans)
  from Cons.IH[OF v(1) ok(2) this] have
    "ranges_wf (foldl add_vma (add_vma rs v) vs)"
    "ranges_bytes (foldl add_vma (add_vma rs v) vs) = ranges_bytes (add_vma rs v) \<union> writable_bytes vs"
    by blast+
  then show ?case using v(2) by (simp add: writable_bytes_Cons Un_assoc)
qed

lemma parse_maps_spec:
  assumes "vmas_ok vs" and "concat chunks = maps_text vs"
  shows "ranges_wf (parse_maps chunks) \<and> ranges_bytes (parse_maps chunks) = writable_bytes vs"
  using assms foldl_add_vma[of "[]" vs] feed_maps_text[of vs "[]"]
  by (simp add: parse_maps_def foldl_chunks vmas_ok_def)

subsection \<open>The writable probe decides writability\<close>

lemma found_in_iff:
  assumes "ranges_wf rs" and "a < e"
  shows "found_in rs a e \<longleftrightarrow> {a..<e} \<subseteq> ranges_bytes rs"
proof
  assume "found_in rs a e"
  then show "{a..<e} \<subseteq> ranges_bytes rs"
    by (force simp: found_in_def ranges_bytes_def range_bytes_def)
qed (use span_in_one_range[OF assms] in \<open>auto simp: found_in_def\<close>)

definition writable_sound :: "nat set \<Rightarrow> guest_map \<Rightarrow> writable_cache \<Rightarrow> bool" where
  "writable_sound W m wc \<longleftrightarrow> cache_wf (wr_ranges wc) \<and>
     (generation (wr_ranges wc) = map_generation m \<longrightarrow> cache_bytes (wr_ranges wc) \<subseteq> W)"

lemma writable_hit_sound:
  assumes wc: "writable_sound W m wc" and hit: "guest_writable_cache_hit m wc b e = (hit, wc')"
  shows "writable_sound W m wc' \<and> (hit \<longrightarrow> b < e \<and> {b..<e} \<subseteq> W)"
proof (cases "wr_enabled wc")
  case False
  with assms show ?thesis by (auto simp: guest_writable_cache_hit_def)
next
  case True
  let ?s = "sync_generation (wr_ranges wc) (map_generation m)"
  have s: "cache_wf ?s" "cache_bytes ?s \<subseteq> W" "generation ?s = map_generation m"
    using wc by (simp_all add: writable_sound_def sync_generation_wf sync_generation_bytes)
  have out: "wr_ranges wc' = snd (cache_contains ?s b e)" "hit = fst (cache_contains ?s b e)"
    using hit True by (auto simp: guest_writable_cache_hit_def split: prod.splits)
  show ?thesis
    unfolding writable_sound_def out
    using s rc.holds_wf rc.holds_bytes rc.holds_iff cache_contains_state by auto
qed

lemma store_writable_sound:
  assumes "writable_sound W m wc" and "ranges_wf rs" and "gen = map_generation m \<longrightarrow> ranges_bytes rs \<subseteq> W"
  shows "writable_sound W m (snd (store_writable wc rs gen a e))"
  using assms
  by (auto simp: store_writable_def writable_sound_def assign_sorted_ranges_def cache_wf_def
      cache_bytes_def Let_def)

lemma guest_writable_decides:
  assumes vs: "vmas_ok vs" and chunks: "concat chunks = maps_text vs"
    and wc: "writable_sound (writable_bytes vs) m wc" and n: "0 < n" "n < 2 ^ 32"
    and a: "a < 2 ^ 64"
  shows "fst (guest_writable (Some chunks) m wc a n) = ({a..<a + n} \<subseteq> writable_bytes vs)
       \<and> writable_sound (writable_bytes vs) m (snd (guest_writable (Some chunks) m wc a n))"
proof (cases "a < 4096 \<or> u64 (a + n) < a")
  case True
  have "\<not> {a..<a + n} \<subseteq> writable_bytes vs"
  proof (cases "a < 4096")
    case low: True
    then have "a \<notin> writable_bytes vs" by (auto simp: writable_bytes_def)
    moreover have "a \<in> {a..<a + n}" using n by simp
    ultimately show ?thesis by blast
  next
    case False
    with True have "2 ^ 64 \<le> a + n" using u64_id[of "a + n"] by linarith
    then have "a + n - 1 \<in> {a..<a + n}" "2 ^ 64 - 1 \<le> a + n - 1" using n by auto
    moreover have "x < 2 ^ 64 - 1" if "x \<in> writable_bytes vs" for x
      using that vs by (fastforce simp: writable_bytes_def vmas_ok_def vma_ok_def list_all_iff)
    ultimately show ?thesis by (metis linorder_not_less subsetD)
  qed
  with True wc show ?thesis by (auto simp: guest_writable_def)
next
  case False
  have sum: "u64 (a + n) = a + n"
  proof (rule ccontr)
    assume "u64 (a + n) \<noteq> a + n"
    then have "2 ^ 64 \<le> a + n" using u64_id[of "a + n"] by linarith
    then have "u64 (a + n) = a + n - 2 ^ 64"
      using a n by (simp add: u64_def mod_if)
    moreover have "n < 2 ^ 64" using n(2) by simp
    ultimately show False using False \<open>2 ^ 64 \<le> a + n\<close> by linarith
  qed
  obtain hit wc1 where look: "guest_writable_cache_hit m wc a (a + n) = (hit, wc1)" by fastforce
  have H: "writable_sound (writable_bytes vs) m wc1" "hit \<longrightarrow> {a..<a + n} \<subseteq> writable_bytes vs"
    using writable_hit_sound[OF wc look] by blast+
  let ?wc2 = "wc1\<lparr>wr_os_probes := u64 (wr_os_probes wc1 + 1)\<rparr>"
  have run: "guest_writable (Some chunks) m wc a n =
      (if hit then (True, wc1)
       else store_writable ?wc2 (parse_maps chunks) (map_generation m) a (a + n))"
    using False n unfolding guest_writable_def sum Let_def look case_prod_conv by simp
  have P: "ranges_wf (parse_maps chunks)" "ranges_bytes (parse_maps chunks) = writable_bytes vs"
    using parse_maps_spec[OF vs chunks] by blast+
  have "fst (store_writable ?wc2 (parse_maps chunks) g a (a + n)) = ({a..<a + n} \<subseteq> writable_bytes vs)" for g
    using found_in_iff[OF P(1), of a "a + n"] n by (simp add: store_writable_def Let_def P(2))
  moreover have "writable_sound (writable_bytes vs) m ?wc2"
    using H(1) by (simp add: writable_sound_def)
  ultimately show ?thesis
    using H store_writable_sound[OF _ P(1), of _ m ?wc2 "map_generation m" a "a + n"] P(2) by (simp add: run)
qed

subsection \<open>Properties\<close>

text \<open>
  C4: whatever chunks \<open>/proc/self/maps\<close> is read in and however long its lines are, the
  streaming parser yields sorted, separated ranges that cover exactly the bytes of the
  writable mappings above the first page.
\<close>

theorem maps_parser_recovers_writable_bytes:
  assumes "vmas_ok vs" and "concat chunks = maps_text vs"
  shows "ranges_wf (parse_maps chunks) \<and> ranges_bytes (parse_maps chunks) = writable_bytes vs"
  by (rule parse_maps_spec[OF assms])

definition sample_vmas :: "vma list" where
  "sample_vmas =
     [\<lparr>vm_start = 4194304, vm_end = 4206592, vm_read = CHR ''r'', vm_writable = False, vm_rest = ''xp 0''\<rparr>,
      \<lparr>vm_start = 4206592, vm_end = 4210688, vm_read = CHR ''r'', vm_writable = True, vm_rest = ''-p 0''\<rparr>,
      \<lparr>vm_start = 4210688, vm_end = 4214784, vm_read = CHR ''r'', vm_writable = True, vm_rest = ''-p 0''\<rparr>]"

lemma sample_vmas_ok: "vmas_ok sample_vmas"
  by (simp add: sample_vmas_def vmas_ok_def vma_ok_def)

lemma sample_writable: "writable_bytes sample_vmas = {4206592..<4214784}"
proof -
  have "writable_bytes sample_vmas = {4206592..<4210688} \<union> {4210688..<4214784}"
    by (simp add: sample_vmas_def writable_bytes_Cons writable_bytes_Nil)
  also have "\<dots> = {4206592..<4214784}"
    by (rule ivl_disj_un_two(3)) simp_all
  finally show ?thesis .
qed

lemma sample_chunks: "concat [take 7 (maps_text sample_vmas), drop 7 (maps_text sample_vmas)] = maps_text sample_vmas"
  by simp

theorem maps_parser_recovers_writable_bytes_witness:
  "ranges_bytes (parse_maps [take 7 (maps_text sample_vmas), drop 7 (maps_text sample_vmas)])
   = {4206592..<4214784}"
  using maps_parser_recovers_writable_bytes[OF sample_vmas_ok sample_chunks] sample_writable by simp

text \<open>
  C5: on Linux \<open>guest_writable\<close> answers true exactly when every byte of the span lies in a
  writable mapping above the first page, whether the cache or the file answers, and it
  leaves the cache sound.
\<close>

theorem guest_writable_correct:
  assumes "vmas_ok vs" and "concat chunks = maps_text vs"
    and "writable_sound (writable_bytes vs) m wc" and "0 < n" and "n < 2 ^ 32" and "a < 2 ^ 64"
  shows "fst (guest_writable (Some chunks) m wc a n) = ({a..<a + n} \<subseteq> writable_bytes vs)
       \<and> writable_sound (writable_bytes vs) m (snd (guest_writable (Some chunks) m wc a n))"
  by (rule guest_writable_decides[OF assms])

definition initial_writable_cache :: writable_cache where
  "initial_writable_cache = \<lparr>wr_enabled = True, wr_ranges = empty_cache, wr_calls = 0, wr_hits = 0,
     wr_os_probes = 0\<rparr>"

theorem guest_writable_correct_witness:
  "fst (guest_writable (Some [take 7 (maps_text sample_vmas), drop 7 (maps_text sample_vmas)])
     initial_guest_map initial_writable_cache 4206600 8000)
   \<and> \<not> fst (guest_writable (Some [take 7 (maps_text sample_vmas), drop 7 (maps_text sample_vmas)])
     initial_guest_map initial_writable_cache 4206000 1000)"
proof -
  have "writable_sound (writable_bytes sample_vmas) initial_guest_map initial_writable_cache"
    using empty_cache_wf empty_cache_bytes by (simp add: writable_sound_def initial_writable_cache_def)
  note C = guest_writable_correct[OF sample_vmas_ok sample_chunks this]
  show ?thesis
    using C[of 8000 4206600] C[of 1000 4206000] by (auto simp: sample_writable)
qed

end
