(* ===== verification/PermissionProtocol.thy ===== *)
theory PermissionProtocol
  imports GuestWritable
begin

text \<open>
  The invariant stated in \<open>host/memory/guest_memory_map.hpp\<close> for concurrent use: a thread
  changes protections and advances the generation, another asks \<open>guest_writable\<close>. The steps
  interleave at the points where the code touches shared state: the generation read of
  \<open>sync_generation\<close> with the memo lookup, the generation read that tags a probe, the probe,
  and the store. With \<open>change_first\<close> the change precedes its notification, as the comment
  demands; the other order is modelled to show that the demand is necessary.
\<close>

datatype query_phase =
    Idle
  | Missed nat nat
  | Tagged nat nat nat
  | Probed nat nat nat "guest_range list"

record world =
  truth :: "nat set"
  shared :: guest_map
  owed :: nat
  memo :: writable_cache
  phase :: query_phase

inductive world_step :: "bool \<Rightarrow> world \<Rightarrow> world \<Rightarrow> bool" for change_first :: bool where
  change: "change_first \<Longrightarrow>
     world_step change_first w (w\<lparr>truth := W, owed := owed w + 1\<rparr>)"
| notify: "change_first \<Longrightarrow> 0 < owed w \<Longrightarrow> map_generation (shared w) < UINT64_MAX \<Longrightarrow>
     world_step change_first w
       (w\<lparr>shared := notify_page_protection_changed (shared w), owed := owed w - 1\<rparr>)"
| announce: "\<not> change_first \<Longrightarrow> map_generation (shared w) < UINT64_MAX \<Longrightarrow>
     world_step change_first w
       (w\<lparr>shared := notify_page_protection_changed (shared w), owed := owed w + 1\<rparr>)"
| late_change: "\<not> change_first \<Longrightarrow> 0 < owed w \<Longrightarrow>
     world_step change_first w (w\<lparr>truth := W, owed := owed w - 1\<rparr>)"
| spurious: "map_generation (shared w) < UINT64_MAX \<Longrightarrow>
     world_step change_first w (w\<lparr>shared := notify_page_protection_changed (shared w)\<rparr>)"
| lookup: "phase w = Idle \<Longrightarrow> guest_writable_cache_hit (shared w) (memo w) a e = (hit, wc) \<Longrightarrow>
     world_step change_first w (w\<lparr>memo := wc, phase := (if hit then Idle else Missed a e)\<rparr>)"
| tag: "phase w = Missed a e \<Longrightarrow>
     world_step change_first w (w\<lparr>phase := Tagged a e (map_generation (shared w))\<rparr>)"
| probe: "phase w = Tagged a e g \<Longrightarrow> ranges_wf rs \<Longrightarrow> ranges_bytes rs = truth w \<Longrightarrow>
     world_step change_first w (w\<lparr>phase := Probed a e g rs\<rparr>)"
| store: "phase w = Probed a e g rs \<Longrightarrow>
     world_step change_first w
       (w\<lparr>memo := snd (store_writable (memo w) rs g a e), phase := Idle\<rparr>)"

definition initial_world :: "nat set \<Rightarrow> world" where
  "initial_world W = \<lparr>truth = W, shared = initial_guest_map, owed = 0,
     memo = initial_writable_cache, phase = Idle\<rparr>"

abbreviation reachable :: "bool \<Rightarrow> nat set \<Rightarrow> world \<Rightarrow> bool" where
  "reachable change_first W w \<equiv> (world_step change_first)\<^sup>*\<^sup>* (initial_world W) w"

inductive_cases world_stepE: "world_step change_first w w'"

text \<open>A memo or an in-flight answer with tag \<open>g\<close> is sound once no notification is owed.\<close>

definition tagged_sound :: "world \<Rightarrow> nat \<Rightarrow> guest_range list \<Rightarrow> bool" where
  "tagged_sound w g rs \<longleftrightarrow> g \<le> map_generation (shared w) \<and>
     (g = map_generation (shared w) \<longrightarrow> owed w = 0 \<longrightarrow> ranges_bytes rs \<subseteq> truth w)"

fun phase_sound :: "world \<Rightarrow> query_phase \<Rightarrow> bool" where
  "phase_sound w (Tagged a e g) = (g \<le> map_generation (shared w))"
| "phase_sound w (Probed a e g rs) = (ranges_wf rs \<and> tagged_sound w g rs)"
| "phase_sound w _ = True"

definition world_inv :: "world \<Rightarrow> bool" where
  "world_inv w \<longleftrightarrow> cache_wf (wr_ranges (memo w)) \<and>
     tagged_sound w (generation (wr_ranges (memo w))) (ranges (wr_ranges (memo w))) \<and>
     phase_sound w (phase w)"

lemma notify_generation:
  "map_generation m < UINT64_MAX \<Longrightarrow>
   map_generation (notify_page_protection_changed m) = map_generation m + 1"
  by (simp add: notify_page_protection_changed_def advance_generation_def wrap_simps)

lemma tagged_sound_advance:
  assumes "tagged_sound w g rs" and "map_generation (shared w') = map_generation (shared w) + 1"
  shows "tagged_sound w' g rs"
  using assms by (simp add: tagged_sound_def)

lemma phase_sound_advance:
  "phase_sound w p \<Longrightarrow> map_generation (shared w') = map_generation (shared w) + 1 \<Longrightarrow> phase_sound w' p"
  by (cases p) (auto intro: tagged_sound_advance)

lemma tagged_sound_owed:
  assumes "tagged_sound w g rs" and "shared w' = shared w" and "0 < owed w'"
  shows "tagged_sound w' g rs"
  using assms by (simp add: tagged_sound_def)

lemma phase_sound_owed:
  "phase_sound w p \<Longrightarrow> shared w' = shared w \<Longrightarrow> 0 < owed w' \<Longrightarrow> phase_sound w' p"
  by (cases p) (auto intro: tagged_sound_owed)

lemma tagged_sound_frame:
  "truth w' = truth w \<Longrightarrow> shared w' = shared w \<Longrightarrow> owed w' = owed w \<Longrightarrow>
   tagged_sound w' g rs = tagged_sound w g rs"
  by (simp add: tagged_sound_def)

lemma phase_sound_frame:
  "truth w' = truth w \<Longrightarrow> shared w' = shared w \<Longrightarrow> owed w' = owed w \<Longrightarrow>
   phase_sound w' p = phase_sound w p"
  by (cases p) (auto simp: tagged_sound_frame[of w' w])

lemma hit_ranges:
  assumes "cache_wf (wr_ranges wc)" and "guest_writable_cache_hit m wc a e = (hit, wc')"
  shows "cache_wf (wr_ranges wc') \<and>
     (wr_ranges wc' = wr_ranges wc \<or>
      generation (wr_ranges wc') = map_generation m \<and>
      (ranges (wr_ranges wc') = [] \<or>
       generation (wr_ranges wc) = map_generation m \<and> ranges (wr_ranges wc') = ranges (wr_ranges wc)))"
proof (cases "wr_enabled wc")
  case False
  with assms show ?thesis by (auto simp: guest_writable_cache_hit_def)
next
  case True
  let ?s = "sync_generation (wr_ranges wc) (map_generation m)"
  have out: "wr_ranges wc' = snd (cache_contains ?s a e)"
    using assms(2) True by (auto simp: guest_writable_cache_hit_def split: prod.splits)
  have "cache_wf ?s" by (rule sync_generation_wf[OF assms(1)])
  from cache_contains_state[OF this, of a e] show ?thesis
    unfolding out by (auto simp: sync_generation_def cache_clear_def)
qed

lemma world_inv_step:
  assumes "world_step True w w'" and inv: "world_inv w"
  shows "world_inv w'"
  using assms(1)
proof cases
  case (change W)
  with inv show ?thesis
    using tagged_sound_owed[of w _ _ w'] phase_sound_owed[of w _ w'] by (auto simp: world_inv_def)
next
  case notify
  with inv show ?thesis
    using tagged_sound_advance[of w _ _ w'] phase_sound_advance[of w _ w'] notify_generation
    by (auto simp: world_inv_def)
next
  case spurious
  with inv show ?thesis
    using tagged_sound_advance[of w _ _ w'] phase_sound_advance[of w _ w'] notify_generation
    by (auto simp: world_inv_def)
next
  case (lookup a e hit wc)
  have "cache_wf (wr_ranges (memo w))" using inv by (simp add: world_inv_def)
  from hit_ranges[OF this lookup(3)] inv lookup show ?thesis
    by (auto simp: world_inv_def tagged_sound_def)
next
  case (tag a e)
  with inv show ?thesis by (simp add: world_inv_def tagged_sound_def)
next
  case (probe a e g rs)
  with inv show ?thesis by (simp add: world_inv_def tagged_sound_def)
next
  case (store a e g rs)
  with inv show ?thesis
    by (auto simp: world_inv_def tagged_sound_def store_writable_def Let_def
        assign_sorted_ranges_def cache_wf_def)
qed auto

lemma world_inv_initial: "world_inv (initial_world W)"
  using empty_cache_wf
  by (simp add: world_inv_def initial_world_def initial_writable_cache_def tagged_sound_def
      initial_guest_map_def empty_cache_def)

lemma world_inv_reachable: "reachable True W w \<Longrightarrow> world_inv w"
  by (induction rule: rtranclp_induct) (auto intro: world_inv_initial world_inv_step)

subsection \<open>Properties\<close>

text \<open>
  C6: with changes published after they are made, a thread that hits its memo when no
  notification is owed is told the truth: the whole span is writable. The interleaving of
  changes, notifications and probes is arbitrary.
\<close>

theorem settled_hit_is_writable:
  assumes "reachable True W w" and "owed w = 0"
    and "fst (guest_writable_cache_hit (shared w) (memo w) a e)"
  shows "a < e \<and> {a..<e} \<subseteq> truth w"
proof -
  obtain wc' where hit: "guest_writable_cache_hit (shared w) (memo w) a e = (True, wc')"
    using assms(3) by (metis prod.collapse)
  from world_inv_reachable[OF assms(1)] assms(2) have "writable_sound (truth w) (shared w) (memo w)"
    by (auto simp: world_inv_def tagged_sound_def writable_sound_def cache_bytes_def)
  from writable_hit_sound[OF this hit] show ?thesis by simp
qed

text \<open>A thread probes one page, once in each order with respect to the change.\<close>

definition after_probe :: "nat \<Rightarrow> nat set \<Rightarrow> world" where
  "after_probe k W = (initial_world W)\<lparr>
     shared := \<lparr>registry = empty_cache, map_generation = k\<rparr>,
     memo := initial_writable_cache\<lparr>wr_ranges := \<lparr>ranges = [mk_range 4096 8192], last_hit = mk_range 0 0,
       generation = k, have_last_hit = False\<rparr>, wr_calls := 1\<rparr>\<rparr>"

lemma initial_miss:
  "k \<noteq> 0 \<Longrightarrow> guest_writable_cache_hit \<lparr>registry = empty_cache, map_generation = k\<rparr> initial_writable_cache 4096 8192
   = (False, initial_writable_cache\<lparr>wr_ranges := empty_cache\<lparr>generation := k\<rparr>, wr_calls := 1\<rparr>)"
  by (simp add: guest_writable_cache_hit_def initial_writable_cache_def sync_generation_def
      empty_cache_def cache_clear_def cache_contains_def u64_def)

lemma probe_once:
  assumes w: "(world_step cf)\<^sup>*\<^sup>* (initial_world {4096..<8192}) w" and k: "0 < k"
    and eq: "w = (initial_world {4096..<8192})\<lparr>shared := \<lparr>registry = empty_cache, map_generation = k\<rparr>, owed := j\<rparr>"
  shows "(world_step cf)\<^sup>*\<^sup>* (initial_world {4096..<8192}) ((after_probe k {4096..<8192})\<lparr>owed := j\<rparr>)"
proof -
  let ?wc = "initial_writable_cache\<lparr>wr_ranges := empty_cache\<lparr>generation := k\<rparr>, wr_calls := 1\<rparr>"
  let ?rs = "[mk_range 4096 8192]"
  let ?w1 = "w\<lparr>memo := ?wc, phase := Missed 4096 8192\<rparr>"
  let ?w2 = "?w1\<lparr>phase := Tagged 4096 8192 k\<rparr>"
  let ?w3 = "?w2\<lparr>phase := Probed 4096 8192 k ?rs\<rparr>"
  have "world_step cf w ?w1"
    using lookup[of w 4096 8192 False ?wc cf] initial_miss[of k] k
    by (simp add: eq initial_world_def)
  moreover have "world_step cf ?w1 ?w2"
    using tag[of ?w1 4096 8192 cf] by (simp add: eq)
  moreover have "world_step cf ?w2 ?w3"
    by (rule probe) (simp_all add: eq initial_world_def)
  moreover have "world_step cf ?w3 (?w3\<lparr>memo := snd (store_writable (memo ?w3) ?rs k 4096 8192), phase := Idle\<rparr>)"
    by (rule store) simp
  moreover have "?w3\<lparr>memo := snd (store_writable (memo ?w3) ?rs k 4096 8192), phase := Idle\<rparr>
      = (after_probe k {4096..<8192})\<lparr>owed := j\<rparr>"
    by (simp add: eq after_probe_def initial_world_def store_writable_def found_in_def
        assign_sorted_ranges_def initial_writable_cache_def)
  ultimately show ?thesis using w by (metis (no_types, lifting) rtranclp.rtrancl_into_rtrancl)
qed

lemma after_probe_hit:
  "fst (guest_writable_cache_hit (shared (after_probe k W)) (memo (after_probe k W)) 4096 8192)"
  by (simp add: after_probe_def guest_writable_cache_hit_def initial_writable_cache_def
      sync_generation_def cache_contains_def Let_def)

theorem settled_hit_is_writable_witness:
  "\<exists>w. reachable True {4096..<8192} w \<and> owed w = 0 \<and>
       fst (guest_writable_cache_hit (shared w) (memo w) 4096 8192) \<and> {4096..<8192} \<subseteq> truth w"
proof -
  let ?w = "after_probe 1 {4096..<8192}"
  have init: "initial_world {4096..<8192} = (initial_world {4096..<8192})
      \<lparr>shared := \<lparr>registry = empty_cache, map_generation = 1\<rparr>, owed := 0\<rparr>"
    by (simp add: initial_world_def initial_guest_map_def)
  have r: "reachable True {4096..<8192} ?w"
    using probe_once[OF rtranclp.rtrancl_refl zero_less_one init, of True]
    by (simp add: after_probe_def initial_world_def)
  have z: "owed ?w = 0" by (simp add: after_probe_def initial_world_def)
  from r z after_probe_hit[of 1 "{4096..<8192}"] settled_hit_is_writable[OF r z after_probe_hit]
  show ?thesis by blast
qed

text \<open>
  The required order is necessary. If the generation is advanced before the change,
  there is an interleaving after which no notification is owed and the thread still answers
  from its memo that a page is writable which is not.
\<close>

lemma notify_before_change_goes_stale:
  "\<exists>w. reachable False {4096..<8192} w \<and> owed w = 0 \<and>
       fst (guest_writable_cache_hit (shared w) (memo w) 4096 8192) \<and> truth w = {}"
proof -
  let ?w0 = "initial_world {4096..<8192}"
  let ?w1 = "?w0\<lparr>shared := notify_page_protection_changed (shared ?w0), owed := owed ?w0 + 1\<rparr>"
  have s1: "world_step False ?w0 ?w1"
    by (rule announce) (simp_all add: initial_world_def initial_guest_map_def)
  have w1: "?w1 = ?w0\<lparr>shared := \<lparr>registry = empty_cache, map_generation = 2\<rparr>, owed := 1\<rparr>"
    by (simp add: initial_world_def initial_guest_map_def notify_page_protection_changed_def
        advance_generation_def u64_def)
  have two: "(0::nat) < 2" by simp
  let ?w2 = "(after_probe 2 {4096..<8192})\<lparr>owed := 1\<rparr>"
  have r2: "reachable False {4096..<8192} ?w2"
    by (rule probe_once[OF r_into_rtranclp[of "world_step False", OF s1] two w1])
  let ?w3 = "?w2\<lparr>truth := {}, owed := owed ?w2 - 1\<rparr>"
  have "world_step False ?w2 ?w3" by (rule late_change) simp_all
  with r2 have r3: "reachable False {4096..<8192} ?w3" by (rule rtranclp.rtrancl_into_rtrancl)
  moreover have "fst (guest_writable_cache_hit (shared ?w3) (memo ?w3) 4096 8192)"
    using after_probe_hit[of 2 "{4096..<8192}"] by simp
  ultimately show ?thesis by (intro exI[of _ ?w3]) simp
qed

end
