(* ===== verification/Swizzle.thy ===== *)
theory Swizzle
  imports Prelude
begin

text \<open>
  What the tiled layouts of \<open>gpu/texture/tile.cpp\<close> share: byte offsets computed as XORs of
  coordinate bits, an executable test that a table of coordinate masks addresses every element
  of its block once, element-wise copies between a tiled and a linear buffer, and the locale
  \<open>block_swizzle\<close> of a layout that orders blocks row by row.
\<close>

unbundle bit_operations_syntax

subsection \<open>Parity of masked coordinates\<close>

text \<open>\<open>__builtin_popcount\<close> of a 32-bit value.\<close>

definition popcount :: "nat \<Rightarrow> nat" where
  "popcount n = length (filter (bit n) [0..<32])"

lemma odd_filter_neq:
  "odd (length (filter (\<lambda>i. P i \<noteq> Q i) xs)) \<longleftrightarrow>
   odd (length (filter P xs)) \<noteq> odd (length (filter Q xs))"
proof (induction xs)
  case (Cons x xs)
  then show ?case by (cases "P x"; cases "Q x") auto
qed simp

lemma odd_popcount_xor:
  "odd (popcount ((a XOR b) AND m)) \<longleftrightarrow> odd (popcount (a AND m)) \<noteq> odd (popcount (b AND m))"
proof -
  have "filter (bit ((a XOR b) AND m)) [0..<32]
      = filter (\<lambda>i. bit (a AND m) i \<noteq> bit (b AND m) i) [0..<32]"
    by (rule filter_cong) (auto simp: bit_simps)
  then show ?thesis by (simp only: popcount_def odd_filter_neq)
qed

lemma popcount_masked:
  assumes "c < 2 ^ a" and "a \<le> 32"
  shows "popcount (c AND m) = length (filter (bit c) (filter (bit m) [0..<a]))"
proof -
  have "\<not> bit c i" if "a \<le> i" for i
  proof -
    have "c < 2 ^ i" using assms(1) that by (rule less_le_trans[OF _ power_increasing]) simp_all
    then show ?thesis by (simp add: bit_iff_odd)
  qed
  then have "filter (bit (c AND m)) [a..<32] = []"
    by (auto simp: filter_empty_conv bit_simps)
  moreover have "[0..<32] = [0..<a] @ [a..<32]"
    using assms(2) upt_add_eq_append[of 0 a "32 - a"] by simp
  moreover have "filter (bit (c AND m)) [0..<a] = filter (bit c) (filter (bit m) [0..<a])"
    by (auto simp: bit_simps intro: filter_cong)
  ultimately show ?thesis by (simp add: popcount_def)
qed

subsection \<open>Offsets from coordinate masks\<close>

text \<open>
  The loop of every copy routine that turns one coordinate into its contribution to the byte
  offset: bit \<open>i\<close> is the parity of the coordinate under the mask of bit \<open>i\<close>.
\<close>

definition coord_offset :: "nat list \<Rightarrow> nat \<Rightarrow> nat \<Rightarrow> nat \<Rightarrow> nat" where
  "coord_offset masks el bits c =
     foldl (\<lambda>v i. v OR push_bit i (popcount (c AND masks ! i) mod 2)) 0 [el..<bits]"

lemma bit_mod_2: "bit (n mod 2 :: nat) j \<longleftrightarrow> j = 0 \<and> odd n"
  by (cases j; cases "odd n") (auto simp: bit_Suc bit_0 mod_2_eq_odd)

lemma bit_coord_offset:
  "bit (coord_offset masks el bits c) j \<longleftrightarrow>
   el \<le> j \<and> j < bits \<and> odd (popcount (c AND masks ! j))"
proof -
  have "bit (foldl (\<lambda>v i. v OR push_bit i (popcount (c AND masks ! i) mod 2)) v is) j \<longleftrightarrow>
      bit v j \<or> j \<in> set is \<and> odd (popcount (c AND masks ! j))" for v "is"
  proof (induction "is" arbitrary: v)
    case (Cons i "is")
    have "bit (v OR push_bit i (popcount (c AND masks ! i) mod 2)) j \<longleftrightarrow>
        bit v j \<or> j = i \<and> odd (popcount (c AND masks ! j))"
      by (auto simp: bit_or_iff bit_push_bit_iff_nat bit_mod_2)
    then show ?case unfolding foldl_Cons Cons.IH by auto
  qed simp
  then show ?thesis by (auto simp: coord_offset_def)
qed

lemma coord_offset_xor:
  "coord_offset masks el bits (a XOR b)
   = coord_offset masks el bits a XOR coord_offset masks el bits b"
  by (rule bit_eqI) (auto simp: bit_coord_offset bit_xor_iff odd_popcount_xor)

lemma less_power2_bits: "(\<And>i. k \<le> i \<Longrightarrow> \<not> bit n i) \<Longrightarrow> n < 2 ^ k" for n :: nat
proof -
  assume "\<And>i. k \<le> i \<Longrightarrow> \<not> bit n i"
  then have "take_bit k n = n"
    by (intro bit_eqI) (use leI in \<open>auto simp: bit_take_bit_iff\<close>)
  then show ?thesis by (metis take_bit_nat_less_exp)
qed

lemma dvd_power2_bits: "(\<And>i. i < k \<Longrightarrow> \<not> bit n i) \<Longrightarrow> 2 ^ k dvd n" for n :: nat
proof -
  assume "\<And>i. i < k \<Longrightarrow> \<not> bit n i"
  then have "take_bit k n = 0"
    by (intro bit_eqI) (auto simp: bit_take_bit_iff)
  then show ?thesis by (simp add: take_bit_eq_mod dvd_eq_mod_eq_0)
qed

lemma xor_less_power2: "a < 2 ^ k \<Longrightarrow> b < 2 ^ k \<Longrightarrow> a XOR b < 2 ^ k" for a b :: nat
  by (metis take_bit_nat_eq_self take_bit_nat_less_exp take_bit_xor)

lemma xor_dvd_power2: "2 ^ k dvd a \<Longrightarrow> 2 ^ k dvd b \<Longrightarrow> 2 ^ k dvd a XOR b" for a b :: nat
  by (metis dvd_eq_mod_eq_0 take_bit_eq_mod take_bit_xor xor.left_neutral)

lemma coord_offset_less: "coord_offset masks el bits c < 2 ^ bits"
  by (rule less_power2_bits) (simp add: bit_coord_offset)

lemma coord_offset_dvd: "2 ^ el dvd coord_offset masks el bits c"
  by (rule dvd_power2_bits) (simp add: bit_coord_offset)

text \<open>Two coordinates in the same block differ only in the bits below the block size.\<close>

lemma xor_same_block:
  fixes x x' a :: nat
  assumes "x div 2 ^ a = x' div 2 ^ a"
  shows "x XOR x' < 2 ^ a"
proof (rule less_power2_bits)
  fix i assume "a \<le> i"
  then obtain j where i: "i = a + j" by (metis le_Suc_ex)
  have "bit x i = bit (x div 2 ^ a) j" "bit x' i = bit (x' div 2 ^ a) j"
    by (simp_all add: i drop_bit_eq_div[symmetric] bit_drop_bit_eq)
  with assms show "\<not> bit (x XOR x') i" by (simp add: bit_xor_iff)
qed

subsection \<open>Masks that determine the element\<close>

text \<open>
  One entry of a pattern table as the list of coordinate bits it XORs, those of the axes
  0, 1, 2 below \<open>a\<close>, \<open>b\<close>, \<open>c\<close>. Unit propagation: an entry that has one bit left, once the bits
  known to be zero are dropped, shows that this bit is zero as well.
\<close>

definition entry_bits :: "nat \<Rightarrow> nat \<Rightarrow> nat \<Rightarrow> nat \<times> nat \<times> nat \<Rightarrow> (nat \<times> nat) list" where
  "entry_bits a b c m =
     (case m of (mx, my, mz) \<Rightarrow>
        map (Pair 0) (filter (bit mx) [0..<a]) @ map (Pair 1) (filter (bit my) [0..<b])
        @ map (Pair 2) (filter (bit mz) [0..<c]))"

definition unit_step :: "(nat \<times> nat) list \<Rightarrow> (nat \<times> nat) list \<Rightarrow> (nat \<times> nat) list" where
  "unit_step known row =
     (case filter (\<lambda>p. p \<notin> set known) row of [p] \<Rightarrow> p # known | _ \<Rightarrow> known)"

fun unit_passes :: "nat \<Rightarrow> (nat \<times> nat) list list \<Rightarrow> (nat \<times> nat) list \<Rightarrow> (nat \<times> nat) list" where
  "unit_passes 0 rows known = known"
| "unit_passes (Suc k) rows known = unit_passes k rows (foldl unit_step known rows)"

definition determines :: "nat \<Rightarrow> nat \<Rightarrow> nat \<Rightarrow> (nat \<times> nat \<times> nat) list \<Rightarrow> bool" where
  "determines a b c ms \<longleftrightarrow>
     (let known = unit_passes 2 (map (entry_bits a b c) ms) []
      in list_all (\<lambda>p. p \<in> set known)
           (map (Pair 0) [0..<a] @ map (Pair 1) [0..<b] @ map (Pair 2) [0..<c]))"

lemma unit_step_sound:
  assumes "\<forall>p\<in>set known. \<not> v p" and "even (length (filter v row))"
  shows "\<forall>p\<in>set (unit_step known row). \<not> v p"
proof (cases "\<exists>p. filter (\<lambda>p. p \<notin> set known) row = [p]")
  case True
  then obtain p where p: "filter (\<lambda>p. p \<notin> set known) row = [p]" by blast
  have "filter v row = filter v (filter (\<lambda>p. p \<notin> set known) row)"
    unfolding filter_filter by (rule filter_cong) (use assms(1) in blast)+
  also have "\<dots> = filter v [p]"
    by (rule arg_cong[OF p])
  finally have "even (length (filter v [p]))"
    using assms(2) by (simp only:)
  then have "\<not> v p" by (simp split: if_splits)
  with p assms(1) show ?thesis by (simp add: unit_step_def)
next
  case False
  then have "unit_step known row = known"
    by (auto simp: unit_step_def split: list.split)
  with assms(1) show ?thesis by simp
qed

lemma fold_unit_sound:
  assumes "\<forall>p\<in>set known. \<not> v p" and "\<forall>row\<in>set rows. even (length (filter v row))"
  shows "\<forall>p\<in>set (foldl unit_step known rows). \<not> v p"
  using assms
proof (induction rows arbitrary: known)
  case (Cons r rows)
  have "\<forall>p\<in>set (unit_step known r). \<not> v p"
    by (rule unit_step_sound) (use Cons.prems in simp_all)
  from Cons.IH[OF this] Cons.prems(2) show ?case by simp
qed simp

lemma unit_passes_sound:
  assumes "\<forall>p\<in>set known. \<not> v p" and "\<forall>row\<in>set rows. even (length (filter v row))"
  shows "\<forall>p\<in>set (unit_passes k rows known). \<not> v p"
  using assms(1)
proof (induction k arbitrary: known)
  case (Suc k)
  from Suc.IH[OF fold_unit_sound[OF Suc.prems assms(2)]] show ?case by simp
qed simp

lemma zero_by_bits: "n < 2 ^ k \<Longrightarrow> (\<And>i. i < k \<Longrightarrow> \<not> bit n i) \<Longrightarrow> n = 0" for n :: nat
proof -
  assume n: "n < 2 ^ k" and low: "\<And>i. i < k \<Longrightarrow> \<not> bit n i"
  have "2 ^ k dvd n" using low by (rule dvd_power2_bits)
  with n show ?thesis by (metis dvd_imp_le gr_zeroI linorder_not_less)
qed

lemma determines_sound:
  assumes det: "determines a b c ms" and bounds: "x < 2 ^ a" "y < 2 ^ b" "z < 2 ^ c"
    and ab: "a \<le> 32" "b \<le> 32" "c \<le> 32"
    and even: "\<And>mx my mz. (mx, my, mz) \<in> set ms \<Longrightarrow>
      even (popcount (x AND mx) + popcount (y AND my) + popcount (z AND mz))"
  shows "x = 0 \<and> y = 0 \<and> z = 0"
proof -
  define v where "v = (\<lambda>(axis, i). bit (if axis = 0 then x else if axis = Suc 0 then y else z) i)"
  have "even (length (filter v row))" if "row \<in> set (map (entry_bits a b c) ms)" for row
  proof -
    from that obtain mx my mz where m: "(mx, my, mz) \<in> set ms" and row: "row = entry_bits a b c (mx, my, mz)"
      by auto
    have "length (filter v row) = popcount (x AND mx) + popcount (y AND my) + popcount (z AND mz)"
      unfolding popcount_masked[OF bounds(1) ab(1)] popcount_masked[OF bounds(2) ab(2)]
        popcount_masked[OF bounds(3) ab(3)]
      by (simp add: row entry_bits_def v_def filter_map comp_def)
    with even[OF m] show ?thesis by simp
  qed
  then have "\<forall>p\<in>set (unit_passes 2 (map (entry_bits a b c) ms) []). \<not> v p"
    by (intro unit_passes_sound) auto
  with det have k: "\<not> v p" if "p \<in> set (map (Pair 0) [0..<a] @ map (Pair 1) [0..<b] @ map (Pair 2) [0..<c])" for p
    using that unfolding determines_def Let_def list_all_iff by blast
  have "x = 0"
    using k[of "(0, i)" for i] by (intro zero_by_bits[OF bounds(1)]) (auto simp: v_def)
  moreover have "y = 0"
    using k[of "(1, i)" for i] by (intro zero_by_bits[OF bounds(2)]) (auto simp: v_def)
  moreover have "z = 0"
    using k[of "(2, i)" for i] by (intro zero_by_bits[OF bounds(3)]) (auto simp: v_def)
  ultimately show ?thesis by simp
qed

subsection \<open>Writing disjoint elements\<close>

lemma aligned_disjoint:
  assumes "n dvd d" and "n dvd d'" and "d \<le> i" "i < d + n" and "d' \<le> i" "i < d' + (n::nat)"
  shows "d = d'"
proof -
  have "d = i div n * n" if "n dvd d" and "d \<le> i" and "i < d + n" for d
  proof -
    from that(1) obtain q where q: "d = n * q" ..
    have "i div n = q"
      using that(2,3) unfolding q by (intro div_nat_eqI) (simp_all add: algebra_simps)
    with q show ?thesis by (simp add: mult.commute)
  qed
  with assms show ?thesis by metis
qed

definition write_cells :: "(nat \<times> 'a list) list \<Rightarrow> 'a list \<Rightarrow> 'a list option" where
  "write_cells ms dst = foldM (\<lambda>(d, ys) b. write_at b d ys) ms dst"

definition cells_ok :: "nat \<Rightarrow> nat \<Rightarrow> (nat \<times> 'a list) list \<Rightarrow> bool" where
  "cells_ok n len ms \<longleftrightarrow> distinct (map fst ms) \<and>
     (\<forall>(d, ys)\<in>set ms. length ys = n \<and> d + n \<le> len \<and> n dvd d)"

definition cells_written :: "nat \<Rightarrow> (nat \<times> 'a list) list \<Rightarrow> 'a list \<Rightarrow> 'a list \<Rightarrow> bool" where
  "cells_written n ms dst out \<longleftrightarrow> length out = length dst \<and>
     (\<forall>(d, ys)\<in>set ms. \<forall>k<n. out ! (d + k) = ys ! k) \<and>
     (\<forall>i<length dst. (\<forall>(d, ys)\<in>set ms. \<not> (d \<le> i \<and> i < d + n)) \<longrightarrow> out ! i = dst ! i)"

lemma write_cells_spec:
  assumes "cells_ok n (length dst) ms"
  shows "\<exists>out. write_cells ms dst = Some out \<and> cells_written n ms dst out"
  using assms
proof (induction ms arbitrary: dst)
  case Nil
  then show ?case by (simp add: write_cells_def cells_written_def)
next
  case (Cons m ms)
  obtain d ys where m: "m = (d, ys)" by fastforce
  have ys: "length ys = n" "d + n \<le> length dst" "n dvd d" "d \<notin> fst ` set ms"
    using Cons.prems by (auto simp: cells_ok_def m)
  from write_at_defined[of d ys dst] ys obtain mid where mid: "write_at dst d ys = Some mid" by auto
  have len: "length mid = length dst" by (rule write_at_length[OF mid])
  have "cells_ok n (length mid) ms" using Cons.prems by (auto simp: cells_ok_def len)
  from Cons.IH[OF this] obtain out where out: "write_cells ms mid = Some out"
    and w: "cells_written n ms mid out" by blast
  have keep: "\<not> (d' \<le> d + k \<and> d + k < d' + n)" if "k < n" and "(d', ys') \<in> set ms" for d' ys' k
  proof
    assume "d' \<le> d + k \<and> d + k < d' + n"
    moreover have "n dvd d'" using Cons.prems that(2) by (auto simp: cells_ok_def)
    ultimately have "d = d'"
      using aligned_disjoint[of n d d' "d + k"] ys(3) that(1) by simp
    with ys(4) that(2) show False by force
  qed
  have "out ! (d + k) = ys ! k" if "k < n" for k
  proof -
    have "d + k < length mid" using ys that by (simp add: len)
    moreover have "\<forall>(d', ys')\<in>set ms. \<not> (d' \<le> d + k \<and> d + k < d' + n)"
      using keep[OF that] by blast
    ultimately have "out ! (d + k) = mid ! (d + k)"
      using w unfolding cells_written_def by blast
    also have "\<dots> = ys ! k"
      using write_at_nth[OF mid, of "d + k"] ys that by simp
    finally show ?thesis .
  qed
  moreover have "out ! i = dst ! i"
    if "i < length dst" and "\<forall>(d', ys')\<in>set (m # ms). \<not> (d' \<le> i \<and> i < d' + n)" for i
  proof -
    have "out ! i = mid ! i" using w that by (auto simp: cells_written_def len)
    also have "\<dots> = dst ! i" using write_at_nth[OF mid, of i] that ys by (auto simp: m)
    finally show ?thesis .
  qed
  ultimately have "cells_written n (m # ms) dst out"
    using w by (auto simp: cells_written_def m len)
  with mid out show ?case by (auto simp: write_cells_def m)
qed

text \<open>What is written does not depend on the order of the writes.\<close>

lemma cells_written_unique:
  assumes "cells_written n ms dst out" and "cells_written n ms' dst out'" and "set ms = set ms'"
  shows "out = out'"
proof (rule nth_equalityI)
  show "length out = length out'" using assms by (simp add: cells_written_def)
next
  fix i assume i: "i < length out"
  show "out ! i = out' ! i"
  proof (cases "\<exists>(d, ys)\<in>set ms. d \<le> i \<and> i < d + n")
    case True
    then obtain d ys where m: "(d, ys) \<in> set ms" and di: "d \<le> i" "i < d + n" by blast
    then have k: "i - d < n" "d + (i - d) = i" by auto
    have "out ! (d + (i - d)) = ys ! (i - d)" "out' ! (d + (i - d)) = ys ! (i - d)"
      using assms m k(1) unfolding cells_written_def by blast+
    with k show ?thesis by simp
  next
    case False
    with assms i have "out ! i = dst ! i" "out' ! i = dst ! i"
      unfolding cells_written_def by fastforce+
    then show ?thesis by simp
  qed
qed

lemma write_cells_order:
  assumes "cells_ok n (length dst) ms" and "set ms = set ms'" and "distinct (map fst ms')"
  shows "write_cells ms dst = write_cells ms' dst"
proof -
  have "cells_ok n (length dst) ms'" using assms by (simp add: cells_ok_def)
  with assms write_cells_spec cells_written_unique show ?thesis by metis
qed

subsection \<open>Moving elements between a tiled and a linear buffer\<close>

text \<open>
  The body of every copy loop, over the direction the C++ template takes: out of the tiled
  bounds, tiling skips the element and detiling writes zeros.
\<close>

definition move_elem ::
    "bool \<Rightarrow> nat \<Rightarrow> nat \<Rightarrow> byte list \<Rightarrow> nat \<Rightarrow> nat \<Rightarrow> byte list \<Rightarrow> byte list option" where
  "move_elem to_tiled n tiled_bytes src tiled linear dst =
     (if to_tiled then
        (if tiled + n \<le> tiled_bytes
         then Option.bind (read_at src linear n) (write_at dst tiled) else Some dst)
      else if tiled + n \<le> tiled_bytes
           then Option.bind (read_at src tiled n) (write_at dst linear)
           else write_at dst linear (replicate n 0))"

definition walk ::
    "bool \<Rightarrow> nat \<Rightarrow> nat \<Rightarrow> byte list \<Rightarrow> ('c \<Rightarrow> nat) \<Rightarrow> ('c \<Rightarrow> nat) \<Rightarrow> 'c list \<Rightarrow> byte list
     \<Rightarrow> byte list option" where
  "walk to_tiled n tiled_bytes src t l cs dst =
     foldM (\<lambda>c. move_elem to_tiled n tiled_bytes src (t c) (l c)) cs dst"

definition cell :: "nat \<Rightarrow> 'a list \<Rightarrow> nat \<Rightarrow> 'a list" where
  "cell n xs o' = take n (drop o' xs)"

lemma length_cell: "o' + n \<le> length xs \<Longrightarrow> length (cell n xs o') = n"
  by (simp add: cell_def)

lemma nth_cell: "o' + n \<le> length xs \<Longrightarrow> k < n \<Longrightarrow> cell n xs o' ! k = xs ! (o' + k)"
  by (simp add: cell_def)

lemma read_cell: "o' + n \<le> length xs \<Longrightarrow> read_at xs o' n = Some (cell n xs o')"
  by (simp add: read_at_def cell_def)

lemma walk_tile_cells:
  assumes "\<And>c. c \<in> set cs \<Longrightarrow> l c + n \<le> length src"
  shows "walk True n tb src t l cs dst
       = write_cells (map (\<lambda>c. (t c, cell n src (l c))) (filter (\<lambda>c. t c + n \<le> tb) cs)) dst"
  using assms
proof (induction cs arbitrary: dst)
  case (Cons c cs)
  then show ?case
    by (auto simp: walk_def write_cells_def move_elem_def read_cell split: Option.bind_splits)
qed (simp add: walk_def write_cells_def)

definition source_cell :: "nat \<Rightarrow> nat \<Rightarrow> byte list \<Rightarrow> nat \<Rightarrow> byte list" where
  "source_cell n tb src o' = (if o' + n \<le> tb then cell n src o' else replicate n 0)"

lemma walk_detile_cells:
  assumes "tb \<le> length src"
  shows "walk False n tb src t l cs dst
       = write_cells (map (\<lambda>c. (l c, source_cell n tb src (t c))) cs) dst"
  using assms
proof (induction cs arbitrary: dst)
  case (Cons c cs)
  then show ?case
    by (auto simp: walk_def write_cells_def move_elem_def read_cell source_cell_def
        split: Option.bind_splits)
qed (simp add: walk_def write_cells_def)

definition tiled_ok :: "nat \<Rightarrow> nat \<Rightarrow> ('c \<Rightarrow> nat) \<Rightarrow> 'c list \<Rightarrow> bool" where
  "tiled_ok n len t cs \<longleftrightarrow> distinct cs \<and> inj_on t (set cs) \<and>
     (\<forall>c\<in>set cs. n dvd t c \<and> t c + n \<le> len)"

lemma tiled_okD: "tiled_ok n len t cs \<Longrightarrow> c \<in> set cs \<Longrightarrow> n dvd t c \<and> t c + n \<le> len"
  by (simp add: tiled_ok_def)

lemma distinct_map_fst: "distinct cs \<Longrightarrow> inj_on t (set cs) \<Longrightarrow> distinct (map fst (map (\<lambda>c. (t c, g c)) cs))"
  by (simp add: distinct_map comp_def)

lemma walk_tile:
  assumes t: "tiled_ok n tb t cs" and tb: "tb \<le> length dst"
    and l: "\<And>c. c \<in> set cs \<Longrightarrow> l c + n \<le> length src"
  shows "\<exists>out. walk True n tb src t l cs dst = Some out \<and>
           cells_written n (map (\<lambda>c. (t c, cell n src (l c))) cs) dst out"
proof -
  have "filter (\<lambda>c. t c + n \<le> tb) cs = cs"
    using t by (auto simp: tiled_ok_def)
  moreover have "cells_ok n (length dst) (map (\<lambda>c. (t c, cell n src (l c))) cs)"
    unfolding cells_ok_def using t tb l distinct_map_fst[of cs t]
    by (fastforce simp: tiled_ok_def length_cell simp del: map_map)
  ultimately show ?thesis
    using write_cells_spec walk_tile_cells[of cs l n src tb t dst] l by simp
qed

lemma walk_detile:
  assumes l: "tiled_ok n (length dst) l cs" and tb: "tb \<le> length src"
  shows "\<exists>out. walk False n tb src t l cs dst = Some out \<and>
           cells_written n (map (\<lambda>c. (l c, source_cell n tb src (t c))) cs) dst out"
proof -
  have "cells_ok n (length dst) (map (\<lambda>c. (l c, source_cell n tb src (t c))) cs)"
    unfolding cells_ok_def using l tb distinct_map_fst[of cs l]
    by (fastforce simp: tiled_ok_def length_cell source_cell_def simp del: map_map)
  from write_cells_spec[OF this] show ?thesis
    by (simp add: walk_detile_cells[OF tb])
qed

lemma cells_written_at:
  "cells_written n (map (\<lambda>c. (f c, g c)) cs) dst out \<Longrightarrow> c \<in> set cs \<Longrightarrow> k < n \<Longrightarrow> out ! (f c + k) = g c ! k"
  by (auto simp: cells_written_def)

text \<open>The linear side of a walk covers the whole linear buffer.\<close>

definition covers :: "nat \<Rightarrow> nat \<Rightarrow> ('c \<Rightarrow> nat) \<Rightarrow> 'c list \<Rightarrow> bool" where
  "covers n len l cs \<longleftrightarrow> (\<forall>i<len. \<exists>c\<in>set cs. l c \<le> i \<and> i < l c + n)"

theorem walk_roundtrip:
  assumes t: "tiled_ok n tb t cs" and l: "tiled_ok n len l cs" and cov: "covers n len l cs"
    and src: "length src = len" and dst: "length dst = tb" and out: "length out0 = len"
  shows "\<exists>T. walk True n tb src t l cs dst = Some T \<and> length T = tb \<and>
             walk False n tb T t l cs out0 = Some src"
proof -
  have lb: "l c + n \<le> length src" if "c \<in> set cs" for c
    using tiled_okD[OF l that] src by simp
  obtain T where T: "walk True n tb src t l cs dst = Some T"
    and wT: "cells_written n (map (\<lambda>c. (t c, cell n src (l c))) cs) dst T"
    using walk_tile[OF t, of dst l src] lb dst by auto
  have lenT: "length T = tb" using wT dst by (simp add: cells_written_def)
  obtain O' where O': "walk False n tb T t l cs out0 = Some O'"
    and wO: "cells_written n (map (\<lambda>c. (l c, source_cell n tb T (t c))) cs) out0 O'"
    using walk_detile[of n out0 l cs tb T t] l lenT out by auto
  have "O' = src"
  proof (rule nth_equalityI)
    show "length O' = length src" using wO src out by (simp add: cells_written_def)
  next
    fix i assume "i < length O'"
    then have "i < len" using wO out by (simp add: cells_written_def)
    with cov obtain c where c: "c \<in> set cs" "l c \<le> i" "i < l c + n" by (auto simp: covers_def)
    then have k: "i - l c < n" "l c + (i - l c) = i" by auto
    have tc: "t c + n \<le> tb" using tiled_okD[OF t c(1)] by simp
    have "O' ! i = source_cell n tb T (t c) ! (i - l c)"
      using cells_written_at[OF wO c(1) k(1)] k(2) by simp
    also have "\<dots> = T ! (t c + (i - l c))"
      using tc k(1) lenT by (simp add: source_cell_def nth_cell)
    also have "\<dots> = cell n src (l c) ! (i - l c)"
      by (rule cells_written_at[OF wT c(1) k(1)])
    also have "\<dots> = src ! i"
      using lb[OF c(1)] k by (simp add: nth_cell)
    finally show "O' ! i = src ! i" .
  qed
  with T O' lenT show ?thesis by blast
qed

subsection \<open>Linear surfaces\<close>

definition lin2 :: "nat \<Rightarrow> nat \<Rightarrow> nat \<times> nat \<Rightarrow> nat" where
  "lin2 n ew c = (case c of (x, y) \<Rightarrow> (y * ew + x) * n)"

definition surface_of :: "nat \<Rightarrow> nat \<Rightarrow> (nat \<times> nat) set" where
  "surface_of ew eh = {(x, y). x < ew \<and> y < eh}"

lemma row_major_inj:
  fixes x y ew :: nat
  assumes "x < ew" "x' < ew" and "y * ew + x = y' * ew + x'"
  shows "x = x' \<and> y = y'"
proof -
  have "(y * ew + x) div ew = y" "(y' * ew + x') div ew = y'"
    "(y * ew + x) mod ew = x" "(y' * ew + x') mod ew = x'"
    using assms(1,2) by (simp_all add: div_mult_self3)
  with assms(3) show ?thesis by metis
qed

lemma row_major_bound:
  fixes x y ew eh :: nat
  assumes "x < ew" and "y < eh"
  shows "y * ew + x < ew * eh"
proof -
  have "y * ew + x < Suc y * ew" using assms by simp
  also have "\<dots> \<le> eh * ew" using assms by (intro mult_le_mono1) simp
  finally show ?thesis by (simp add: mult.commute)
qed

lemma scaled_bound: "(a::nat) < b \<Longrightarrow> a * n + n \<le> b * n"
  using mult_le_mono1[of "Suc a" b n] by simp

lemma lin2_ok:
  assumes "distinct cs" and "set cs \<subseteq> surface_of ew eh" and "0 < n"
  shows "tiled_ok n (ew * eh * n) (lin2 n ew) cs"
  unfolding tiled_ok_def
proof (intro conjI ballI)
  show "inj_on (lin2 n ew) (set cs)"
  proof (rule inj_onI)
    fix c c' assume c: "c \<in> set cs" "c' \<in> set cs" and eq: "lin2 n ew c = lin2 n ew c'"
    obtain x y where xy: "c = (x, y)" by fastforce
    obtain x' y' where xy': "c' = (x', y')" by fastforce
    have "x < ew" "x' < ew" using assms(2) c by (auto simp: surface_of_def xy xy')
    moreover have "y * ew + x = y' * ew + x'" using eq assms(3) by (simp add: lin2_def xy xy')
    ultimately have "x = x' \<and> y = y'" by (rule row_major_inj)
    then show "c = c'" by (simp add: xy xy')
  qed
next
  fix c assume "c \<in> set cs"
  with assms(2) obtain x y where xy: "c = (x, y)" "x < ew" "y < eh" by (auto simp: surface_of_def)
  show "n dvd lin2 n ew c" by (simp add: lin2_def xy)
  show "lin2 n ew c + n \<le> ew * eh * n"
    unfolding lin2_def xy prod.case by (rule scaled_bound[OF row_major_bound[OF xy(2,3)]])
qed (rule assms(1))

lemma lin2_covers:
  assumes "surface_of ew eh \<subseteq> set cs" and "0 < n"
  shows "covers n (ew * eh * n) (lin2 n ew) cs"
  unfolding covers_def
proof (intro allI impI)
  fix i assume i: "i < ew * eh * n"
  let ?e = "i div n"
  have e: "?e < ew * eh" using i assms(2) by (simp add: less_mult_imp_div_less)
  then have ew: "0 < ew" by (cases ew) auto
  have "?e mod ew < ew" "?e div ew < eh"
    using ew e by (simp_all add: less_mult_imp_div_less mult.commute)
  then have "(?e mod ew, ?e div ew) \<in> set cs"
    using assms(1) by (auto simp: surface_of_def)
  moreover have "lin2 n ew (?e mod ew, ?e div ew) = ?e * n"
    unfolding lin2_def prod.case by (simp only: div_mult_mod_eq)
  moreover have "?e * n \<le> i" "i < ?e * n + n"
    using dividend_less_div_times[OF assms(2), of i] by simp_all
  ultimately show "\<exists>c\<in>set cs. lin2 n ew c \<le> i \<and> i < lin2 n ew c + n" by force
qed

subsection \<open>Layouts that order blocks row by row\<close>

text \<open>
  \<open>off x y\<close> is the byte offset of the element with global coordinates \<open>x\<close>, \<open>y\<close> inside its
  block of \<open>tw\<close> by \<open>th\<close> elements and \<open>block\<close> bytes; \<open>bpr\<close> is the number of blocks per row.
\<close>

definition tiled_addr ::
    "nat \<Rightarrow> nat \<Rightarrow> nat \<Rightarrow> (nat \<Rightarrow> nat \<Rightarrow> nat) \<Rightarrow> nat \<Rightarrow> nat \<times> nat \<Rightarrow> nat" where
  "tiled_addr tw th block off bpr c =
     (case c of (x, y) \<Rightarrow> (y div th * bpr + x div tw) * block + off x y)"

locale block_swizzle =
  fixes tw th block n :: nat and off :: "nat \<Rightarrow> nat \<Rightarrow> nat"
  assumes tw_pos: "0 < tw" and th_pos: "0 < th" and n_pos: "0 < n"
    and full: "tw * th * n = block"
    and off_less: "off x y < block"
    and off_dvd: "n dvd off x y"
    and off_inj: "x div tw = x' div tw \<Longrightarrow> y div th = y' div th \<Longrightarrow> off x y = off x' y' \<Longrightarrow> x = x' \<and> y = y'"
begin

lemma n_dvd_block: "n dvd block"
  using full by (metis dvd_triv_right)

lemma off_end: "off x y + n \<le> block"
proof -
  obtain p q where "off x y = n * p" "block = n * q"
    using off_dvd n_dvd_block by (metis dvd_def)
  with off_less[of x y] n_pos show ?thesis
    by (metis Suc_leI mult_Suc_right mult_le_mono2 mult_less_cancel1 add.commute)
qed

lemma addr_inj:
  assumes x: "x div tw < bpr" "x' div tw < bpr"
    and eq: "tiled_addr tw th block off bpr (x, y) = tiled_addr tw th block off bpr (x', y')"
  shows "x = x' \<and> y = y'"
proof -
  let ?b = "y div th * bpr + x div tw" and ?b' = "y' div th * bpr + x' div tw"
  have "?b * block + off x y = ?b' * block + off x' y'"
    using eq by (simp add: tiled_addr_def)
  with off_less have "off x y = off x' y' \<and> ?b = ?b'"
    by (intro row_major_inj[of _ block]) simp_all
  moreover from this x have "x div tw = x' div tw \<and> y div th = y' div th"
    by (intro row_major_inj[of _ bpr]) simp_all
  ultimately show ?thesis using off_inj by blast
qed

lemma addr_dvd: "n dvd tiled_addr tw th block off bpr c"
  using n_dvd_block off_dvd by (cases c) (simp add: tiled_addr_def)

lemma addr_bound:
  assumes "x div tw < bpr" and "y div th < rows"
  shows "tiled_addr tw th block off bpr (x, y) + n \<le> rows * bpr * block"
proof -
  have "y div th * bpr + x div tw < bpr * rows"
    by (rule row_major_bound[OF assms])
  from scaled_bound[OF this, of block]
  have "(y div th * bpr + x div tw) * block + block \<le> rows * bpr * block"
    by (simp only: mult.commute[of bpr rows])
  with off_end[of x y] show ?thesis by (simp add: tiled_addr_def)
qed

lemma addr_ok:
  assumes "distinct cs" and sub: "set cs \<subseteq> surface_of ew eh"
    and ew: "ew \<le> bpr * tw" and tb: "ceil_div eh th * bpr * block \<le> tb"
  shows "tiled_ok n tb (tiled_addr tw th block off bpr) cs"
  unfolding tiled_ok_def
proof (intro conjI ballI)
  have col: "x div tw < bpr" if "(x, y) \<in> set cs" for x y
  proof -
    from that sub have "x < ew" by (auto simp: surface_of_def)
    with ew have "x < bpr * tw" by simp
    then show ?thesis using tw_pos by (simp add: less_mult_imp_div_less)
  qed
  show "inj_on (tiled_addr tw th block off bpr) (set cs)"
  proof (rule inj_onI)
    fix c c' assume "c \<in> set cs" "c' \<in> set cs"
      and eq: "tiled_addr tw th block off bpr c = tiled_addr tw th block off bpr c'"
    then show "c = c'"
      using addr_inj[of "fst c" bpr "fst c'" "snd c" "snd c'"] col[of "fst c" "snd c"]
        col[of "fst c'" "snd c'"] by (simp add: prod_eq_iff)
  qed
  fix c assume c: "c \<in> set cs"
  show "n dvd tiled_addr tw th block off bpr c" by (rule addr_dvd)
  obtain x y where xy: "c = (x, y)" by fastforce
  have "y div th < ceil_div eh th"
    using c sub th_pos by (intro div_less_ceil_div) (auto simp: surface_of_def xy)
  from addr_bound[OF col this, of x y] c xy tb
  show "tiled_addr tw th block off bpr c + n \<le> tb" by simp
qed (rule assms(1))

text \<open>Tiling a whole surface and detiling it gives the surface back, whatever the order of the walk.\<close>

lemma surface_roundtrip:
  assumes "distinct cs" and cs: "set cs = surface_of ew eh"
    and "ew \<le> bpr * tw" and "ceil_div eh th * bpr * block \<le> tb"
    and "length src = ew * eh * n" and "length dst = tb" and "length out0 = ew * eh * n"
  shows "\<exists>T. walk True n tb src (tiled_addr tw th block off bpr) (lin2 n ew) cs dst = Some T \<and> length T = tb \<and>
             walk False n tb T (tiled_addr tw th block off bpr) (lin2 n ew) cs out0 = Some src"
  using assms n_pos
  by (intro walk_roundtrip[where len = "ew * eh * n"] addr_ok[where ew = ew and eh = eh] lin2_ok lin2_covers)
     simp_all

text \<open>Every aligned offset of a block belongs to an element: the offsets are a bijection.\<close>

lemma off_surj:
  assumes "i < block"
  shows "\<exists>x y. x div tw = bx \<and> y div th = by' \<and> off x y \<le> i \<and> i < off x y + n"
proof -
  let ?D = "{bx * tw..<Suc bx * tw} \<times> {by' * th..<Suc by' * th}"
  let ?f = "\<lambda>(x, y). off x y div n"
  have mem: "x div tw = bx \<and> y div th = by'" if "(x, y) \<in> ?D" for x y
    using that tw_pos th_pos by (auto intro: div_nat_eqI simp: mult.commute)
  have inj: "inj_on ?f ?D"
  proof (rule inj_onI)
    fix c c' assume c: "c \<in> ?D" "c' \<in> ?D" and "?f c = ?f c'"
    moreover obtain x y x' y' where "c = (x, y)" "c' = (x', y')" by (meson surj_pair)
    ultimately have d: "(x, y) \<in> ?D" "(x', y') \<in> ?D" and eq: "off x y div n = off x' y' div n"
      and xy: "c = (x, y)" "c' = (x', y')" by simp_all
    from eq off_dvd have "off x y = off x' y'" by (metis dvd_div_mult_self)
    with off_inj[of x x' y y'] mem[OF d(1)] mem[OF d(2)] show "c = c'" unfolding xy by simp
  qed
  have "card (?f ` ?D) = tw * th" using card_image[OF inj] by simp
  moreover have "?f ` ?D \<subseteq> {..<tw * th}"
  proof clarify
    fix x y
    have "off x y < tw * th * n" using off_less full by metis
    then show "off x y div n < tw * th" by (simp add: less_mult_imp_div_less)
  qed
  ultimately have img: "?f ` ?D = {..<tw * th}" by (intro card_subset_eq) auto
  have "i < tw * th * n" using assms full by metis
  then have "i div n \<in> ?f ` ?D" unfolding img by (simp add: less_mult_imp_div_less)
  then obtain x y where xy: "(x, y) \<in> ?D" and "i div n = off x y div n" by auto
  then have "off x y = i div n * n" using off_dvd by (metis dvd_div_mult_self)
  then have "off x y \<le> i" "i < off x y + n"
    using dividend_less_div_times[OF n_pos, of i] by simp_all
  with mem[OF xy] show ?thesis by blast
qed

end

end
