(* ===== verification/TilePatterns.thy ===== *)
theory TilePatterns
  imports Swizzle
begin

text \<open>
  The swizzle tables of \<open>gpu/texture/tile.cpp\<close>: for each element size (log2, 0 to 4) and each
  bit of the byte offset in a block, the masks of the coordinate bits it XORs. The lemmas
  state that every table, restricted to its block, determines the element.
\<close>

text \<open>\<open>PatBit\<close> is \<open>(x, y)\<close>, \<open>PatBitMsaa\<close> is \<open>(x, y, sample)\<close>, \<open>PatBit3\<close> is \<open>(x, y, z)\<close>.\<close>

type_synonym pat_bit = "nat \<times> nat"
type_synonym pat_bit3 = "nat \<times> nat \<times> nat"

definition kSw64kS :: "pat_bit list list" where
  "kSw64kS =
    [
      [(1, 0), (2, 0), (4, 0), (8, 0), (0, 1), (0, 2), (0, 4), (0, 8), (0, 16), (16, 0), (0, 32),
       (32, 0), (0, 64), (64, 0), (0, 128), (128, 0)],
      [(0, 0), (1, 0), (2, 0), (4, 0), (0, 1), (0, 2), (0, 4), (8, 0), (0, 8), (16, 0), (0, 16),
       (32, 0), (0, 32), (64, 0), (0, 64), (128, 0)],
      [(0, 0), (0, 0), (1, 0), (2, 0), (0, 1), (0, 2), (0, 4), (4, 0), (0, 8), (8, 0), (0, 16),
       (16, 0), (0, 32), (32, 0), (0, 64), (64, 0)],
      [(0, 0), (0, 0), (0, 0), (1, 0), (0, 1), (0, 2), (2, 0), (4, 0), (0, 4), (8, 0), (0, 8),
       (16, 0), (0, 16), (32, 0), (0, 32), (64, 0)],
      [(0, 0), (0, 0), (0, 0), (0, 0), (0, 1), (0, 2), (1, 0), (2, 0), (0, 4), (4, 0), (0, 8),
       (8, 0), (0, 16), (16, 0), (0, 32), (32, 0)]]"

definition kSw64kZX :: "pat_bit list list" where
  "kSw64kZX =
    [
      [(1, 0), (0, 1), (2, 0), (0, 2), (4, 0), (0, 4), (8, 0), (0, 16), (8, 8), (16, 16),
       (64, 32), (32, 64), (0, 64), (64, 0), (0, 128), (128, 0)],
      [(0, 0), (1, 0), (0, 1), (2, 0), (0, 2), (4, 0), (0, 4), (8, 0), (8, 8), (16, 16),
       (64, 32), (32, 64), (0, 16), (64, 0), (0, 64), (128, 0)],
      [(0, 0), (0, 0), (1, 0), (0, 1), (2, 0), (0, 2), (4, 0), (0, 4), (8, 8), (16, 16),
       (64, 32), (32, 64), (0, 8), (16, 0), (0, 64), (64, 0)],
      [(0, 0), (0, 0), (0, 0), (1, 0), (0, 1), (2, 0), (0, 2), (4, 0), (8, 8), (16, 16),
       (64, 32), (32, 64), (0, 4), (8, 0), (0, 16), (64, 0)],
      [(0, 0), (0, 0), (0, 0), (0, 0), (1, 0), (0, 1), (2, 0), (0, 2), (8, 8), (16, 16),
       (64, 32), (32, 64), (0, 4), (4, 0), (0, 8), (16, 0)]]"

definition kSw64kZX4x :: "pat_bit3 list list" where
  "kSw64kZX4x =
    [
      [(0, 0, 1), (0, 0, 2), (1, 0, 0), (0, 1, 0), (2, 0, 0), (0, 2, 0), (4, 0, 0), (0, 4, 0),
       (8, 8, 0), (16, 16, 0), (64, 32, 0), (32, 64, 0), (0, 8, 0), (16, 0, 0), (0, 64, 0),
       (64, 0, 0)],
      [(0, 0, 0), (0, 0, 1), (0, 0, 2), (1, 0, 0), (0, 1, 0), (2, 0, 0), (0, 2, 0), (4, 0, 0),
       (8, 8, 0), (16, 16, 0), (64, 32, 0), (32, 64, 0), (8, 0, 0), (0, 16, 0), (64, 0, 0),
       (0, 68, 0)],
      [(0, 0, 0), (0, 0, 0), (0, 0, 1), (0, 0, 2), (1, 0, 0), (0, 1, 0), (2, 0, 0), (0, 2, 0),
       (8, 8, 0), (16, 16, 0), (64, 32, 0), (32, 64, 0), (0, 8, 0), (16, 0, 0), (0, 68, 0),
       (4, 128, 0)],
      [(0, 0, 0), (0, 0, 0), (0, 0, 0), (0, 0, 1), (0, 0, 2), (1, 0, 0), (0, 1, 0), (2, 0, 0),
       (8, 8, 0), (16, 16, 0), (64, 36, 0), (32, 64, 0), (0, 8, 0), (16, 0, 0), (0, 66, 0),
       (4, 128, 0)],
      [(0, 0, 0), (0, 0, 0), (0, 0, 0), (0, 0, 0), (0, 0, 1), (0, 0, 2), (1, 0, 0), (0, 1, 0),
       (8, 8, 0), (16, 16, 0), (64, 36, 0), (34, 64, 0), (0, 8, 0), (16, 0, 0), (0, 66, 0),
       (4, 128, 0)]]"

text \<open>The pipe-rotated pattern, by log2 of the number of pipes.\<close>

definition kSw64kRX :: "pat_bit list list list" where
  "kSw64kRX =
   [
    [
      [(1, 0), (2, 0), (4, 0), (0, 2), (0, 1), (0, 4), (8, 0), (0, 8), (0, 16), (16, 0), (0, 32),
       (32, 0), (0, 64), (64, 0), (0, 128), (128, 0)],
      [(0, 0), (1, 0), (2, 0), (4, 0), (0, 1), (0, 2), (0, 4), (8, 0), (0, 8), (16, 0), (0, 16),
       (32, 0), (0, 32), (64, 0), (0, 64), (128, 0)],
      [(0, 0), (0, 0), (1, 0), (2, 0), (0, 1), (0, 2), (0, 4), (4, 0), (0, 8), (8, 0), (0, 16),
       (16, 0), (0, 32), (32, 0), (0, 64), (64, 0)],
      [(0, 0), (0, 0), (0, 0), (1, 0), (0, 1), (2, 0), (4, 0), (0, 2), (0, 4), (8, 0), (0, 8),
       (16, 0), (0, 16), (32, 0), (0, 32), (64, 0)],
      [(0, 0), (0, 0), (0, 0), (0, 0), (1, 0), (0, 1), (2, 0), (0, 2), (0, 4), (4, 0), (0, 8),
       (8, 0), (0, 16), (16, 0), (0, 32), (32, 0)]],
    [
      [(1, 0), (2, 0), (4, 0), (0, 2), (0, 1), (0, 4), (8, 0), (0, 16), (8, 8), (16, 0), (0, 32),
       (32, 0), (0, 64), (64, 0), (0, 128), (128, 0)],
      [(0, 0), (1, 0), (2, 0), (4, 0), (0, 1), (0, 2), (0, 4), (8, 0), (8, 8), (16, 0), (0, 16),
       (32, 0), (0, 32), (64, 0), (0, 64), (128, 0)],
      [(0, 0), (0, 0), (1, 0), (2, 0), (0, 1), (0, 2), (0, 4), (4, 0), (8, 8), (8, 0), (0, 16),
       (16, 0), (0, 32), (32, 0), (0, 64), (64, 0)],
      [(0, 0), (0, 0), (0, 0), (1, 0), (0, 1), (2, 0), (4, 0), (0, 2), (8, 8), (8, 0), (0, 4),
       (16, 0), (0, 16), (32, 0), (0, 32), (64, 0)],
      [(0, 0), (0, 0), (0, 0), (0, 0), (1, 0), (0, 1), (2, 0), (0, 2), (8, 8), (4, 0), (0, 4),
       (8, 0), (0, 16), (16, 0), (0, 32), (32, 0)]],
    [
      [(1, 0), (2, 0), (4, 0), (0, 2), (0, 1), (0, 4), (8, 0), (0, 16), (8, 8), (16, 16),
       (0, 32), (32, 0), (0, 64), (64, 0), (0, 128), (128, 0)],
      [(0, 0), (1, 0), (2, 0), (4, 0), (0, 1), (0, 2), (0, 4), (8, 0), (8, 8), (16, 16), (0, 16),
       (32, 0), (0, 32), (64, 0), (0, 64), (128, 0)],
      [(0, 0), (0, 0), (1, 0), (2, 0), (0, 1), (0, 2), (0, 4), (4, 0), (8, 8), (16, 16), (0, 8),
       (16, 0), (0, 32), (32, 0), (0, 64), (64, 0)],
      [(0, 0), (0, 0), (0, 0), (1, 0), (0, 1), (2, 0), (4, 0), (0, 2), (8, 8), (16, 16), (0, 4),
       (8, 0), (0, 16), (32, 0), (0, 32), (64, 0)],
      [(0, 0), (0, 0), (0, 0), (0, 0), (1, 0), (0, 1), (2, 0), (0, 2), (8, 8), (16, 16), (0, 4),
       (4, 0), (0, 8), (16, 0), (0, 32), (32, 0)]],
    [
      [(1, 0), (2, 0), (4, 0), (0, 2), (0, 1), (0, 4), (8, 0), (0, 16), (8, 8), (16, 16),
       (32, 32), (32, 0), (0, 64), (64, 0), (0, 128), (128, 0)],
      [(0, 0), (1, 0), (2, 0), (4, 0), (0, 1), (0, 2), (0, 4), (8, 0), (8, 8), (16, 16),
       (32, 32), (16, 0), (0, 32), (64, 0), (0, 64), (128, 0)],
      [(0, 0), (0, 0), (1, 0), (2, 0), (0, 1), (0, 2), (0, 4), (4, 0), (8, 8), (16, 16),
       (32, 32), (8, 0), (0, 16), (32, 0), (0, 64), (64, 0)],
      [(0, 0), (0, 0), (0, 0), (1, 0), (0, 1), (2, 0), (4, 0), (0, 2), (8, 8), (16, 16),
       (32, 32), (8, 0), (0, 4), (16, 0), (0, 32), (64, 0)],
      [(0, 0), (0, 0), (0, 0), (0, 0), (1, 0), (0, 1), (2, 0), (0, 2), (8, 8), (16, 16),
       (32, 32), (4, 0), (0, 4), (8, 0), (0, 16), (32, 0)]],
    [
      [(1, 0), (2, 0), (4, 0), (0, 2), (0, 1), (0, 4), (8, 0), (0, 16), (8, 8), (16, 16),
       (64, 32), (32, 64), (0, 64), (64, 0), (0, 128), (128, 0)],
      [(0, 0), (1, 0), (2, 0), (4, 0), (0, 1), (0, 2), (0, 4), (8, 0), (8, 8), (16, 16),
       (64, 32), (32, 64), (0, 16), (64, 0), (0, 64), (128, 0)],
      [(0, 0), (0, 0), (1, 0), (2, 0), (0, 1), (0, 2), (0, 4), (4, 0), (8, 8), (16, 16),
       (64, 32), (32, 64), (0, 8), (16, 0), (0, 64), (64, 0)],
      [(0, 0), (0, 0), (0, 0), (1, 0), (0, 1), (2, 0), (4, 0), (0, 2), (8, 8), (16, 16),
       (64, 32), (32, 64), (0, 4), (8, 0), (0, 16), (64, 0)],
      [(0, 0), (0, 0), (0, 0), (0, 0), (1, 0), (0, 1), (2, 0), (0, 2), (8, 8), (16, 16),
       (64, 32), (32, 64), (0, 4), (4, 0), (0, 8), (16, 0)]],
    [
      [(1, 0), (2, 0), (4, 0), (0, 2), (0, 1), (0, 4), (8, 0), (0, 16), (8, 8), (16, 16),
       (128, 32), (32, 128), (64, 64), (64, 0), (0, 128), (128, 0)],
      [(0, 0), (1, 0), (2, 0), (4, 0), (0, 1), (0, 2), (0, 4), (8, 0), (8, 8), (16, 16),
       (128, 32), (32, 128), (64, 64), (16, 0), (0, 64), (128, 0)],
      [(0, 0), (0, 0), (1, 0), (2, 0), (0, 1), (0, 2), (0, 4), (4, 0), (8, 8), (16, 16),
       (128, 32), (32, 128), (64, 64), (8, 0), (0, 16), (64, 0)],
      [(0, 0), (0, 0), (0, 0), (1, 0), (0, 1), (2, 0), (4, 0), (0, 2), (8, 8), (16, 16),
       (128, 32), (32, 128), (64, 64), (0, 4), (8, 0), (0, 16)],
      [(0, 0), (0, 0), (0, 0), (0, 0), (1, 0), (0, 1), (2, 0), (0, 2), (8, 8), (16, 16),
       (128, 32), (32, 128), (64, 68), (4, 0), (0, 8), (16, 0)]],
    [
      [(1, 0), (2, 0), (4, 0), (0, 2), (0, 1), (0, 4), (8, 0), (0, 16), (8, 8), (16, 16),
       (256, 32), (32, 256), (128, 64), (64, 128), (0, 128), (128, 0)],
      [(0, 0), (1, 0), (2, 0), (4, 0), (0, 1), (0, 2), (0, 4), (8, 0), (8, 8), (16, 16),
       (256, 32), (32, 256), (128, 64), (64, 128), (0, 16), (128, 0)],
      [(0, 0), (0, 0), (1, 0), (2, 0), (0, 1), (0, 2), (0, 4), (4, 0), (8, 8), (16, 16),
       (256, 32), (32, 256), (128, 64), (64, 128), (0, 8), (16, 0)],
      [(0, 0), (0, 0), (0, 0), (1, 0), (0, 1), (2, 0), (4, 0), (0, 2), (8, 8), (16, 16),
       (256, 32), (32, 256), (128, 68), (64, 128), (0, 8), (16, 0)],
      [(0, 0), (0, 0), (0, 0), (0, 0), (1, 0), (0, 1), (2, 0), (0, 2), (8, 8), (16, 16),
       (256, 32), (32, 256), (128, 68), (68, 128), (0, 8), (16, 0)]]]"

definition kSw64kbRXVolumeZ :: "nat list" where
  "kSw64kbRXVolumeZ = [0, 0, 0, 0, 0, 0, 0, 0, 8, 4, 2, 1, 0, 0, 0, 0]"

definition kSw64kbS3 :: "pat_bit3 list list" where
  "kSw64kbS3 =
    [
      [(1, 0, 0), (2, 0, 0), (0, 0, 1), (0, 1, 0), (0, 0, 2), (0, 2, 0), (4, 0, 0), (0, 0, 4),
       (0, 4, 0), (8, 0, 0), (0, 0, 8), (0, 8, 0), (16, 0, 0), (0, 0, 16), (0, 16, 0), (32, 0, 0)],
      [(0, 0, 0), (1, 0, 0), (0, 0, 1), (0, 1, 0), (0, 0, 2), (0, 2, 0), (2, 0, 0), (0, 0, 4),
       (0, 4, 0), (4, 0, 0), (0, 0, 8), (0, 8, 0), (8, 0, 0), (0, 0, 16), (0, 16, 0), (16, 0, 0)],
      [(0, 0, 0), (0, 0, 0), (1, 0, 0), (0, 1, 0), (0, 0, 1), (0, 2, 0), (2, 0, 0), (0, 0, 2),
       (0, 4, 0), (4, 0, 0), (0, 0, 4), (0, 8, 0), (8, 0, 0), (0, 0, 8), (0, 16, 0), (16, 0, 0)],
      [(0, 0, 0), (0, 0, 0), (0, 0, 0), (1, 0, 0), (0, 0, 1), (0, 1, 0), (2, 0, 0), (0, 0, 2),
       (0, 2, 0), (4, 0, 0), (0, 0, 4), (0, 4, 0), (8, 0, 0), (0, 0, 8), (0, 8, 0), (16, 0, 0)],
      [(0, 0, 0), (0, 0, 0), (0, 0, 0), (0, 0, 0), (0, 0, 1), (0, 1, 0), (1, 0, 0), (0, 0, 2),
       (0, 2, 0), (2, 0, 0), (0, 0, 4), (0, 4, 0), (4, 0, 0), (0, 0, 8), (0, 8, 0), (8, 0, 0)]]"

definition kSw64kbS3Dims :: "(nat \<times> nat \<times> nat) list" where
  "kSw64kbS3Dims = [(64, 32, 32), (32, 32, 32), (32, 32, 16), (32, 16, 16), (16, 16, 16)]"

definition kSw4kbS3Dims :: "(nat \<times> nat \<times> nat) list" where
  "kSw4kbS3Dims = [(16, 16, 16), (8, 16, 16), (8, 16, 8), (8, 8, 8), (4, 8, 8)]"

subsection \<open>Every table determines the element\<close>

text \<open>log2 of the width and height of a 64 KiB block, by log2 of the element size.\<close>

definition dims64_log2 :: "(nat \<times> nat) list" where
  "dims64_log2 = [(8, 8), (8, 7), (7, 7), (7, 6), (6, 6)]"

definition plane_ok :: "pat_bit list \<Rightarrow> nat \<Rightarrow> nat \<Rightarrow> nat \<Rightarrow> nat \<Rightarrow> bool" where
  "plane_ok pat el bits a b \<longleftrightarrow>
     length pat = 16 \<and> el + a + b = bits \<and> a \<le> 32 \<and> b \<le> 32 \<and> bits \<le> 16 \<and>
     determines a b 0 (map (\<lambda>i. (fst (pat ! i), snd (pat ! i), 0)) [el..<bits])"

lemma kSw64kS_ok:
  "list_all (\<lambda>el. plane_ok (kSw64kS ! el) el 16 (fst (dims64_log2 ! el)) (snd (dims64_log2 ! el))) [0..<5]"
  by code_simp

lemma kSw64kZX_ok:
  "list_all (\<lambda>el. plane_ok (kSw64kZX ! el) el 16 (fst (dims64_log2 ! el)) (snd (dims64_log2 ! el))) [0..<5]"
  by code_simp

lemma kSw64kRX_0_ok:
  "list_all (\<lambda>el. plane_ok (kSw64kRX ! 0 ! el) el 16 (fst (dims64_log2 ! el)) (snd (dims64_log2 ! el))) [0..<5]"
  by code_simp

lemma kSw64kRX_1_ok:
  "list_all (\<lambda>el. plane_ok (kSw64kRX ! 1 ! el) el 16 (fst (dims64_log2 ! el)) (snd (dims64_log2 ! el))) [0..<5]"
  by code_simp

lemma kSw64kRX_2_ok:
  "list_all (\<lambda>el. plane_ok (kSw64kRX ! 2 ! el) el 16 (fst (dims64_log2 ! el)) (snd (dims64_log2 ! el))) [0..<5]"
  by code_simp

lemma kSw64kRX_3_ok:
  "list_all (\<lambda>el. plane_ok (kSw64kRX ! 3 ! el) el 16 (fst (dims64_log2 ! el)) (snd (dims64_log2 ! el))) [0..<5]"
  by code_simp

lemma kSw64kRX_4_ok:
  "list_all (\<lambda>el. plane_ok (kSw64kRX ! 4 ! el) el 16 (fst (dims64_log2 ! el)) (snd (dims64_log2 ! el))) [0..<5]"
  by code_simp

lemma kSw64kRX_5_ok:
  "list_all (\<lambda>el. plane_ok (kSw64kRX ! 5 ! el) el 16 (fst (dims64_log2 ! el)) (snd (dims64_log2 ! el))) [0..<5]"
  by code_simp

lemma kSw64kRX_6_ok:
  "list_all (\<lambda>el. plane_ok (kSw64kRX ! 6 ! el) el 16 (fst (dims64_log2 ! el)) (snd (dims64_log2 ! el))) [0..<5]"
  by code_simp

lemma all_below_5: "list_all P [0..<5] \<longleftrightarrow> P 0 \<and> P 1 \<and> P 2 \<and> P 3 \<and> P (4::nat)"
  by (simp add: upt_rec eval_nat_numeral)

lemma below_7: "p < 7 \<Longrightarrow> p = 0 \<or> p = 1 \<or> p = 2 \<or> p = 3 \<or> p = 4 \<or> p = 5 \<or> p = (6::nat)"
  by presburger

lemma kSw64kRX_ok:
  assumes "p < 7"
  shows "list_all (\<lambda>el. plane_ok (kSw64kRX ! p ! el) el 16 (fst (dims64_log2 ! el)) (snd (dims64_log2 ! el))) [0..<5]"
  using below_7[OF assms]
  by (elim disjE) (simp_all only: kSw64kRX_0_ok kSw64kRX_1_ok kSw64kRX_2_ok kSw64kRX_3_ok
      kSw64kRX_4_ok kSw64kRX_5_ok kSw64kRX_6_ok)

text \<open>The first 8 and 12 bits of the standard pattern address the 256-byte and 4 KiB blocks.\<close>

lemma kSw256_ok:
  "list_all (\<lambda>el. plane_ok (kSw64kS ! el) el 8 ((8 - el + 1) div 2) ((8 - el) div 2)) [0..<5]"
  by code_simp

lemma kSw4kb_ok:
  "list_all (\<lambda>el. plane_ok (kSw64kS ! el) el 12 ((12 - el + 1) div 2) ((12 - el) div 2)) [0..<5]"
  by code_simp

text \<open>log2 of the block dimensions of the volume and multisample layouts.\<close>

definition s3_log2 :: "(nat \<times> nat \<times> nat) list" where
  "s3_log2 = [(6, 5, 5), (5, 5, 5), (5, 5, 4), (5, 4, 4), (4, 4, 4)]"

definition s3_4k_log2 :: "(nat \<times> nat \<times> nat) list" where
  "s3_4k_log2 = [(4, 4, 4), (3, 4, 4), (3, 4, 3), (3, 3, 3), (2, 3, 3)]"

definition solid_ok :: "pat_bit3 list \<Rightarrow> nat \<Rightarrow> nat \<Rightarrow> nat \<times> nat \<times> nat \<Rightarrow> bool" where
  "solid_ok pat el bits d \<longleftrightarrow>
     (case d of (a, b, c) \<Rightarrow>
       length pat = 16 \<and> el + a + b + c = bits \<and> a \<le> 32 \<and> b \<le> 32 \<and> c \<le> 32 \<and> bits \<le> 16 \<and>
       determines a b c (map (\<lambda>i. pat ! i) [el..<bits]))"

lemma kSw64kbS3_ok: "list_all (\<lambda>el. solid_ok (kSw64kbS3 ! el) el 16 (s3_log2 ! el)) [0..<5]"
  by code_simp

lemma kSw4kbS3_ok: "list_all (\<lambda>el. solid_ok (kSw64kbS3 ! el) el 12 (s3_4k_log2 ! el)) [0..<5]"
  by code_simp

lemma kSw64kZX4x_ok:
  "list_all (\<lambda>el. solid_ok (kSw64kZX4x ! el) el 16
     ((14 - el + 1) div 2, (14 - el) - (14 - el + 1) div 2, 2)) [0..<5]"
  by code_simp

end
