(* ===== verification/Tile.thy ===== *)
theory Tile
  imports TilePatterns
begin

text \<open>
  The two-dimensional layouts of \<open>gpu/texture/tile.cpp\<close>: sizes of linear and tiled surfaces,
  the copies between a linear buffer and the 256-byte, 4 KiB and 64 KiB block layouts, and the
  entry points \<open>tile_surface\<close> and \<open>detile_surface\<close>. Environment switches and the pipe count
  are the record \<open>tile_env\<close>. The vector (AVX2) and threaded variants of the 64 KiB copy are not
  modelled: the theorem that the copy does not depend on the order of its elements covers any
  split of the rows over threads.
\<close>

unbundle bit_operations_syntax

subsection \<open>Modes and sizes\<close>

abbreviation (input) Linear :: nat where "Linear \<equiv> 0"
abbreviation (input) Sw256BS :: nat where "Sw256BS \<equiv> 1"
abbreviation (input) Sw4KbS :: nat where "Sw4KbS \<equiv> 5"
abbreviation (input) Sw64KbS :: nat where "Sw64KbS \<equiv> 9"
abbreviation (input) Sw64KbZX :: nat where "Sw64KbZX \<equiv> 24"
abbreviation (input) Sw64KbRX :: nat where "Sw64KbRX \<equiv> 27"

record tile_env =
  rx_pipes_env :: "int option"
  row_major_detile :: bool
  row_major_tile :: bool
  paired_copy :: bool

definition linear_sampled_row_pitch :: "nat \<Rightarrow> nat \<Rightarrow> nat" where
  "linear_sampled_row_pitch width bytes_per_texel =
     (if width = 0 \<or> bytes_per_texel = 0 then 0
      else let tight = width * bytes_per_texel; aligned = u64 (tight + 255) div 256 * 256
           in if aligned > UINT64_MAX then 0 else aligned)"

definition linear_sampled_surface_bytes :: "nat \<Rightarrow> nat \<Rightarrow> nat \<Rightarrow> nat" where
  "linear_sampled_surface_bytes width height bytes_per_texel =
     (let pitch = linear_sampled_row_pitch width bytes_per_texel
      in if pitch = 0 \<or> height = 0 \<or> pitch > UINT64_MAX div height then 0 else pitch * height)"

definition tile_mode_is_tiled :: "nat \<Rightarrow> bool" where
  "tile_mode_is_tiled m \<longleftrightarrow>
     m = Sw256BS \<or> m = Sw4KbS \<or> m = Sw64KbS \<or> m = Sw64KbZX \<or> m = Sw64KbRX"

definition videoout_scanout_tile_mode :: "nat \<Rightarrow> nat \<Rightarrow> nat" where
  "videoout_scanout_tile_mode tiling bytes_per_texel =
     (if tiling \<noteq> 0 \<or> bytes_per_texel \<noteq> 4 then Linear else Sw64KbRX)"

definition is_64kb_mode :: "nat \<Rightarrow> bool" where
  "is_64kb_mode m \<longleftrightarrow> m = Sw64KbS \<or> m = Sw64KbZX \<or> m = Sw64KbRX"

text \<open>\<open>__builtin_ctz\<close>, undefined at 0 in C; no caller passes 0.\<close>

fun ctz :: "nat \<Rightarrow> nat" where
  "ctz n = (if n = 0 then 0 else if even n then Suc (ctz (n div 2)) else 0)"

declare ctz.simps [simp del]

subsection \<open>Block geometry\<close>

definition sw256_dims :: "nat \<Rightarrow> nat \<times> nat" where
  "sw256_dims bpe = (let bits = u32_sub 8 (ctz bpe) in (u32 (bits + 1) div 2, bits div 2))"

function sw4kb_bits :: "nat \<Rightarrow> nat \<Rightarrow> nat" where
  "sw4kb_bits bpe bits = (if 4096 div 2 ^ bits > bpe then sw4kb_bits bpe (bits + 1) else bits)"
  by pat_completeness auto

lemma shifted_out: "13 \<le> bits \<Longrightarrow> 4096 div 2 ^ bits = (0::nat)"
proof -
  assume "13 \<le> bits"
  then have "(2::nat) ^ 13 \<le> 2 ^ bits" by (rule power_increasing) simp
  then show ?thesis by (intro div_less) simp
qed

termination sw4kb_bits
proof (relation "measure (\<lambda>(bpe, bits). 13 - bits)")
  fix bpe bits :: nat
  assume "4096 div 2 ^ bits > bpe"
  then have "bits < 13" using shifted_out[of bits] by (cases "13 \<le> bits") auto
  then show "((bpe, bits + 1), bpe, bits) \<in> measure (\<lambda>(bpe, bits). 13 - bits)" by simp
qed simp

declare sw4kb_bits.simps [simp del]

definition sw4kb_dims :: "nat \<Rightarrow> nat \<times> nat" where
  "sw4kb_dims bpe = (let bits = sw4kb_bits bpe 0 in ((bits + 1) div 2, bits div 2))"

definition sw64kb_elem_log2 :: "nat \<Rightarrow> nat" where
  "sw64kb_elem_log2 bpe =
     (if bpe = 1 then 0 else if bpe = 2 then 1 else if bpe = 4 then 2 else if bpe = 8 then 3
      else if bpe = 16 then 4 else UINT32_MAX)"

definition sw64kb_dims :: "nat \<Rightarrow> nat \<times> nat" where
  "sw64kb_dims elem_log2 =
     ([256, 256, 128, 128, 64] ! elem_log2, [256, 128, 128, 64, 64] ! elem_log2)"

text \<open>
  The pipe count of the rotated pattern: 16 unless \<open>PROSPER_RX_PIPES\<close>, as \<open>atoi\<close> reads it, is a
  power of two up to 64.
\<close>

function rx_log2_loop :: "int \<Rightarrow> nat \<Rightarrow> nat" where
  "rx_log2_loop n lg = (if 2 ^ lg < n \<and> lg < 6 then rx_log2_loop n (lg + 1) else lg)"
  by pat_completeness auto
termination by (relation "measure (\<lambda>(n, lg). 6 - lg)") auto

declare rx_log2_loop.simps [simp del]

definition sw64kb_rx_pipes_log2 :: "tile_env \<Rightarrow> nat" where
  "sw64kb_rx_pipes_log2 env =
     (case rx_pipes_env env of None \<Rightarrow> 4
      | Some n \<Rightarrow> let lg = rx_log2_loop n 0 in if n \<ge> 1 \<and> 2 ^ lg = n then lg else 4)"

lemma rx_log2_loop_le: "lg \<le> 6 \<Longrightarrow> rx_log2_loop n lg \<le> 6"
proof (induction n lg rule: rx_log2_loop.induct)
  case (1 n lg)
  then show ?case by (subst rx_log2_loop.simps) auto
qed

lemma rx_pipes_less: "sw64kb_rx_pipes_log2 env < 7"
  using rx_log2_loop_le[of 0] by (auto simp: sw64kb_rx_pipes_log2_def Let_def less_Suc_eq_le
      numeral_eq_Suc split: option.split)

definition sw64kb_pattern :: "tile_env \<Rightarrow> nat \<Rightarrow> nat \<Rightarrow> pat_bit list" where
  "sw64kb_pattern env tile_mode elem_log2 =
     (if tile_mode = Sw64KbRX then kSw64kRX ! sw64kb_rx_pipes_log2 env ! elem_log2
      else if tile_mode = Sw64KbZX then kSw64kZX ! elem_log2
      else kSw64kS ! elem_log2)"

subsection \<open>Lookup tables of the small blocks\<close>

record sw_lookup =
  lk_tw :: nat
  lk_th :: nat
  byte_offsets :: "nat list"

definition sw256_byte_offset :: "nat \<Rightarrow> nat \<Rightarrow> nat \<Rightarrow> nat" where
  "sw256_byte_offset elem_log2 x y =
     foldl (\<lambda>v i. v OR push_bit i
        (case kSw64kS ! elem_log2 ! i of (px, py) \<Rightarrow>
           if px \<noteq> 0 then popcount (x AND px) mod 2 else popcount (y AND py) mod 2))
       0 [elem_log2..<8]"

definition make_sw256_lookup :: "nat \<Rightarrow> sw_lookup" where
  "make_sw256_lookup bpe =
     (case sw256_dims bpe of (bx, by') \<Rightarrow>
        let tw = 2 ^ bx; th = 2 ^ by'
        in \<lparr>lk_tw = tw, lk_th = th,
            byte_offsets = concat (map (\<lambda>y. map (\<lambda>x. sw256_byte_offset (ctz bpe) x y) [0..<tw]) [0..<th])\<rparr>)"

definition sw256_lookup :: "nat \<Rightarrow> sw_lookup" where
  "sw256_lookup bpe =
     (if bpe \<in> {1, 2, 4, 8, 16} then make_sw256_lookup bpe else make_sw256_lookup 1)"

definition sw4kb_morton :: "nat \<Rightarrow> nat \<Rightarrow> nat \<Rightarrow> nat \<Rightarrow> nat" where
  "sw4kb_morton ix iy bx by' =
     (let bits = bx + by'; elem_log2 = 12 - bits
      in foldl (\<lambda>m e.
           (case kSw64kS ! elem_log2 ! (elem_log2 + e) of (px, py) \<Rightarrow>
              if px \<noteq> 0 then m OR push_bit e (ix div 2 ^ ctz px mod 2)
              else if py \<noteq> 0 then m OR push_bit e (iy div 2 ^ ctz py mod 2)
              else m))
         0 [0..<bits])"

definition make_sw4kb_lookup :: "nat \<Rightarrow> sw_lookup" where
  "make_sw4kb_lookup bpe =
     (case sw4kb_dims bpe of (bx, by') \<Rightarrow>
        let tw = 2 ^ bx; th = 2 ^ by'
        in \<lparr>lk_tw = tw, lk_th = th,
            byte_offsets = concat (map (\<lambda>y. map (\<lambda>x. sw4kb_morton x y bx by' * bpe) [0..<tw]) [0..<th])\<rparr>)"

definition sw4kb_lookup :: "nat \<Rightarrow> sw_lookup" where
  "sw4kb_lookup bpe =
     (if bpe \<in> {1, 2, 4, 8, 16} then make_sw4kb_lookup bpe else make_sw4kb_lookup 1)"

subsection \<open>Copies of the small blocks\<close>

text \<open>
  \<open>sw256_copy\<close> and \<open>sw4kb_copy\<close> are the same loops over their lookup table and block size. The
  products that the C++ code computes in 32 bits inside the loops stay below the surface
  dimensions, except the block index. \<open>tiled_origin\<close> is 0 at every call.
\<close>

definition lookup_copy ::
    "bool \<Rightarrow> sw_lookup \<Rightarrow> nat \<Rightarrow> byte list \<Rightarrow> byte list \<Rightarrow> nat \<Rightarrow> nat \<Rightarrow> nat \<Rightarrow> nat \<Rightarrow> nat
     \<Rightarrow> byte list option" where
  "lookup_copy to_tiled lk block dst src ew eh pitch bpe tiled_bytes =
     (let tw = lk_tw lk; th = lk_th lk;
          padded_width = (if pitch \<noteq> 0 then pitch else ew);
          blocks_per_row = u32 (padded_width + tw - 1) div tw;
          block_rows = u32 (eh + th - 1) div th;
          block_cols = u32 (ew + tw - 1) div tw
      in foldM (\<lambda>by'.
           let rows = min th (eh - by' * th) in
           foldM (\<lambda>bx.
             let columns = min tw (ew - bx * tw);
                 block_base = u32 (by' * blocks_per_row + bx) * block in
             foldM (\<lambda>y.
               let linear_base = ((by' * th + y) * ew + bx * tw) * bpe in
               foldM (\<lambda>x. move_elem to_tiled bpe tiled_bytes src
                        (block_base + byte_offsets lk ! (y * tw + x)) (linear_base + x * bpe))
                 [0..<columns])
               [0..<rows])
             [0..<block_cols])
           [0..<block_rows] dst)"

definition sw256_copy ::
    "bool \<Rightarrow> byte list \<Rightarrow> byte list \<Rightarrow> nat \<Rightarrow> nat \<Rightarrow> nat \<Rightarrow> nat \<Rightarrow> nat \<Rightarrow> byte list option" where
  "sw256_copy to_tiled dst src ew eh pitch bpe tiled_bytes =
     lookup_copy to_tiled (sw256_lookup bpe) 256 dst src ew eh pitch bpe tiled_bytes"

definition sw4kb_copy ::
    "bool \<Rightarrow> byte list \<Rightarrow> byte list \<Rightarrow> nat \<Rightarrow> nat \<Rightarrow> nat \<Rightarrow> nat \<Rightarrow> nat \<Rightarrow> byte list option" where
  "sw4kb_copy to_tiled dst src ew eh pitch bpe tiled_bytes =
     lookup_copy to_tiled (sw4kb_lookup bpe) 4096 dst src ew eh pitch bpe tiled_bytes"

definition sw256_tiled_bytes :: "nat \<Rightarrow> nat \<Rightarrow> nat \<Rightarrow> nat \<Rightarrow> nat" where
  "sw256_tiled_bytes ew eh pitch bpe =
     (case sw256_dims bpe of (bx, by') \<Rightarrow>
        let padded_width = (if pitch \<noteq> 0 then pitch else ew);
            blocks_per_row = u32 (padded_width + 2 ^ bx - 1) div 2 ^ bx;
            block_rows = u32 (eh + 2 ^ by' - 1) div 2 ^ by'
        in u64 (blocks_per_row * block_rows * 256))"

definition sw4kb_tiled_bytes :: "nat \<Rightarrow> nat \<Rightarrow> nat \<Rightarrow> nat \<Rightarrow> nat" where
  "sw4kb_tiled_bytes ew eh pitch bpe =
     (case sw4kb_dims bpe of (bx, by') \<Rightarrow>
        let pw = (if pitch \<noteq> 0 then pitch else ew);
            tiles_per_row = u32 (pw + 2 ^ bx - 1) div 2 ^ bx;
            tile_rows = u32 (eh + 2 ^ by' - 1) div 2 ^ by'
        in u64 (tiles_per_row * tile_rows * 4096))"

definition sw64kb_tiled_bytes :: "nat \<Rightarrow> nat \<Rightarrow> nat \<Rightarrow> nat \<Rightarrow> nat" where
  "sw64kb_tiled_bytes ew eh pitch bpe =
     (let el = sw64kb_elem_log2 bpe in
      if el = UINT32_MAX then u64 (ew * eh * bpe)
      else case sw64kb_dims el of (bw, bh) \<Rightarrow>
        let pw = (if pitch \<noteq> 0 then pitch else ew);
            blocks_per_row = u32 (pw + bw - 1) div bw;
            block_rows = u32 (eh + bh - 1) div bh
        in u64 (blocks_per_row * block_rows * 65536))"

subsection \<open>Copies of the 64 KiB blocks\<close>

text \<open>
  One row of one block. \<open>run\<close> is 2 where two neighbouring elements may be moved at once; a
  bounded tiled side can end between them, and then only the first is moved.
\<close>

definition pair_run :: "bool \<Rightarrow> bool \<Rightarrow> nat \<Rightarrow> nat \<Rightarrow> nat \<Rightarrow> nat \<Rightarrow> nat \<Rightarrow> nat" where
  "pair_run paired full_block tiled_bytes bpe columns ix tiled =
     (let run = (if paired \<and> bpe \<le> 8 \<and> ix + 1 < columns then 2 else 1); bytes = run * bpe
      in if \<not> full_block \<and> run = 2 \<and> (tiled > tiled_bytes \<or> bytes > tiled_bytes - tiled)
         then 1 else run)"

lemma pair_run_pos: "pair_run paired full_block tb bpe columns ix tiled \<in> {1, 2}"
  by (simp add: pair_run_def Let_def)

definition move_run ::
    "bool \<Rightarrow> bool \<Rightarrow> nat \<Rightarrow> nat \<Rightarrow> byte list \<Rightarrow> nat \<Rightarrow> nat \<Rightarrow> byte list \<Rightarrow> byte list option" where
  "move_run to_tiled full_block bytes tiled_bytes src tiled linear dst =
     (let inside = (full_block \<or> tiled \<le> tiled_bytes \<and> bytes \<le> tiled_bytes - tiled)
      in if to_tiled then
           (if inside then Option.bind (read_at src linear bytes) (write_at dst tiled) else Some dst)
         else if inside then Option.bind (read_at src tiled bytes) (write_at dst linear)
         else write_at dst linear (replicate bytes 0))"

function copy_block_row ::
    "bool \<Rightarrow> bool \<Rightarrow> bool \<Rightarrow> nat \<Rightarrow> nat \<Rightarrow> byte list \<Rightarrow> (nat \<Rightarrow> nat) \<Rightarrow> nat \<Rightarrow> nat \<Rightarrow> nat \<Rightarrow> byte list
     \<Rightarrow> byte list option" where
  "copy_block_row to_tiled paired full_block tiled_bytes bpe src tiled_at linear_base columns ix dst =
     (if ix < columns
      then let tiled = tiled_at ix;
               run = pair_run paired full_block tiled_bytes bpe columns ix tiled
           in Option.bind
                (move_run to_tiled full_block (run * bpe) tiled_bytes src tiled (linear_base + ix * bpe) dst)
                (\<lambda>dst'. copy_block_row to_tiled paired full_block tiled_bytes bpe src tiled_at linear_base
                          columns (ix + run) dst')
      else Some dst)"
  by pat_completeness auto

termination copy_block_row
proof (relation "measure (\<lambda>(to_tiled, paired, full_block, tb, bpe, src, tiled_at, lb, columns, ix, dst). columns - ix)")
  fix to_tiled paired full_block :: bool and tb bpe :: nat and src and tiled_at :: "nat \<Rightarrow> nat"
  fix lb columns ix x xa xb :: nat and dst
  assume "ix < columns" and "x = tiled_at ix" and "xa = pair_run paired full_block tb bpe columns ix x"
  then show "((to_tiled, paired, full_block, tb, bpe, src, tiled_at, lb, columns, ix + xa, xc),
      to_tiled, paired, full_block, tb, bpe, src, tiled_at, lb, columns, ix, dst)
    \<in> measure (\<lambda>(to_tiled, paired, full_block, tb, bpe, src, tiled_at, lb, columns, ix, dst). columns - ix)" for xc
    using pair_run_pos[of paired full_block tb bpe columns ix x] by auto
qed simp

declare copy_block_row.simps [simp del]

definition sw64kb_copy_block_major ::
    "bool \<Rightarrow> tile_env \<Rightarrow> byte list \<Rightarrow> byte list \<Rightarrow> nat \<Rightarrow> nat \<Rightarrow> nat \<Rightarrow> nat \<Rightarrow> nat \<Rightarrow> pat_bit list \<Rightarrow> nat
     \<Rightarrow> byte list option" where
  "sw64kb_copy_block_major to_tiled env dst src ew eh pitch bpe tiled_bytes pat el =
     (case sw64kb_dims el of (bw, bh) \<Rightarrow>
        let pw = (if pitch \<noteq> 0 then pitch else ew);
            blocks_per_row = u32 (pw + bw - 1) div bw;
            fx = map (coord_offset (map fst pat) el 16) [0..<ew];
            fy = map (coord_offset (map snd pat) el 16) [0..<eh];
            surface_block_rows = u32 (eh + bh - 1) div bh;
            surface_block_cols = u32 (ew + bw - 1) div bw
        in foldM (\<lambda>block_y.
             let y0 = block_y * bh; rows = min bh (eh - y0) in
             foldM (\<lambda>block_x.
               let x0 = block_x * bw; columns = min bw (ew - x0);
                   block = block_y * blocks_per_row + block_x;
                   block_base = u64 (push_bit 16 block);
                   full_block = (block_base \<le> tiled_bytes \<and> tiled_bytes - block_base \<ge> 65536) in
               foldM (\<lambda>iy.
                 let y = y0 + iy; y_offset = fy ! y; linear_base = (y * ew + x0) * bpe in
                 copy_block_row to_tiled (paired_copy env) full_block tiled_bytes bpe src
                   (\<lambda>ix. block_base + (fx ! (x0 + ix) XOR y_offset)) linear_base columns 0)
                 [0..<rows])
               [0..<surface_block_cols])
             [0..<surface_block_rows] dst)"

definition sw64kb_copy_row_major ::
    "bool \<Rightarrow> byte list \<Rightarrow> byte list \<Rightarrow> nat \<Rightarrow> nat \<Rightarrow> nat \<Rightarrow> nat \<Rightarrow> nat \<Rightarrow> pat_bit list \<Rightarrow> nat
     \<Rightarrow> byte list option" where
  "sw64kb_copy_row_major to_tiled dst src ew eh pitch bpe tiled_bytes pat el =
     (case sw64kb_dims el of (bw, bh) \<Rightarrow>
        let pw = (if pitch \<noteq> 0 then pitch else ew);
            blocks_per_row = u32 (pw + bw - 1) div bw;
            fx = map (coord_offset (map fst pat) el 16) [0..<ew];
            fy = map (coord_offset (map snd pat) el 16) [0..<eh]
        in foldM (\<lambda>y.
             let brow = y div bh * blocks_per_row in
             foldM (\<lambda>x.
               let t = u64 (push_bit 16 (brow + x div bw)) OR (fx ! x XOR fy ! y);
                   l = (y * ew + x) * bpe
               in move_elem to_tiled bpe tiled_bytes src t l) [0..<ew])
           [0..<eh] dst)"

definition copy_bytes :: "byte list \<Rightarrow> byte list \<Rightarrow> nat \<Rightarrow> byte list option" where
  "copy_bytes dst src n = Option.bind (read_at src 0 n) (write_at dst 0)"

definition sw64kb_copy ::
    "bool \<Rightarrow> tile_env \<Rightarrow> byte list \<Rightarrow> byte list \<Rightarrow> nat \<Rightarrow> nat \<Rightarrow> nat \<Rightarrow> nat \<Rightarrow> nat \<Rightarrow> nat
     \<Rightarrow> byte list option" where
  "sw64kb_copy to_tiled env dst src ew eh pitch bpe tiled_bytes tile_mode =
     (let el = sw64kb_elem_log2 bpe in
      if el = UINT32_MAX then copy_bytes dst src (min (u64 (ew * eh * bpe)) tiled_bytes)
      else let pat = sw64kb_pattern env tile_mode el
           in if \<not> to_tiled \<and> \<not> row_major_detile env \<or> to_tiled \<and> \<not> row_major_tile env
              then sw64kb_copy_block_major to_tiled env dst src ew eh pitch bpe tiled_bytes pat el
              else sw64kb_copy_row_major to_tiled dst src ew eh pitch bpe tiled_bytes pat el)"

subsection \<open>Entry points\<close>

definition tiled_surface_bytes :: "nat \<Rightarrow> nat \<Rightarrow> nat \<Rightarrow> nat \<Rightarrow> nat \<Rightarrow> nat" where
  "tiled_surface_bytes width height tile_mode pitch bytes_per_texel =
     (if \<not> tile_mode_is_tiled tile_mode then u64 (width * height * bytes_per_texel)
      else if tile_mode = Sw256BS then sw256_tiled_bytes width height pitch bytes_per_texel
      else if is_64kb_mode tile_mode then sw64kb_tiled_bytes width height pitch bytes_per_texel
      else sw4kb_tiled_bytes width height pitch bytes_per_texel)"

definition detile_surface ::
    "tile_env \<Rightarrow> byte list \<Rightarrow> byte list \<Rightarrow> nat \<Rightarrow> nat \<Rightarrow> nat \<Rightarrow> nat \<Rightarrow> nat \<Rightarrow> byte list option" where
  "detile_surface env dst src width height tile_mode pitch bytes_per_texel =
     (if \<not> tile_mode_is_tiled tile_mode
      then copy_bytes dst src (u64 (width * height * bytes_per_texel))
      else if tile_mode = Sw256BS
      then sw256_copy False dst src width height pitch bytes_per_texel
             (sw256_tiled_bytes width height pitch bytes_per_texel)
      else if is_64kb_mode tile_mode
      then sw64kb_copy False env dst src width height pitch bytes_per_texel
             (sw64kb_tiled_bytes width height pitch bytes_per_texel) tile_mode
      else sw4kb_copy False dst src width height pitch bytes_per_texel
             (sw4kb_tiled_bytes width height pitch bytes_per_texel))"

definition detile_surface_vector ::
    "tile_env \<Rightarrow> byte list \<Rightarrow> nat \<Rightarrow> nat \<Rightarrow> nat \<Rightarrow> nat \<Rightarrow> nat \<Rightarrow> byte list option" where
  "detile_surface_vector env src width height tile_mode pitch bytes_per_texel =
     (let out = replicate (u64 (width * height * bytes_per_texel)) 0 in
      if src = [] then Some out
      else let need = tiled_surface_bytes width height tile_mode pitch bytes_per_texel;
               padded = (if length src < need then src @ replicate (need - length src) 0 else src)
           in detile_surface env out padded width height tile_mode pitch bytes_per_texel)"

definition detile_writes_whole_destination :: "nat \<Rightarrow> nat \<Rightarrow> bool" where
  "detile_writes_whole_destination tile_mode bytes_per_texel =
     (if \<not> tile_mode_is_tiled tile_mode then True
      else if tile_mode = Sw256BS then True
      else if is_64kb_mode tile_mode then sw64kb_elem_log2 bytes_per_texel \<noteq> UINT32_MAX
      else True)"

text \<open>The number of leading bytes of a tiled destination that the copy is known to overwrite.\<close>

definition zero_from :: "nat \<Rightarrow> nat \<Rightarrow> nat \<Rightarrow> nat \<Rightarrow> nat \<Rightarrow> nat \<Rightarrow> nat" where
  "zero_from width height tile_mode pitch bytes_per_texel dst_bytes =
     (if is_64kb_mode tile_mode \<and> pitch = 0
      then let el = sw64kb_elem_log2 bytes_per_texel in
        if el \<noteq> UINT32_MAX
        then case sw64kb_dims el of (bw, bh) \<Rightarrow>
          if bw \<noteq> 0 \<and> bh \<noteq> 0 \<and> width mod bw = 0
          then let blocks_x = width div bw; covered_rows = height div bh;
                   covered = u64 (covered_rows * blocks_x * 65536)
               in if covered \<le> dst_bytes then covered else 0
          else 0
        else 0
      else 0)"

definition tile_surface ::
    "tile_env \<Rightarrow> byte list \<Rightarrow> byte list \<Rightarrow> nat \<Rightarrow> nat \<Rightarrow> nat \<Rightarrow> nat \<Rightarrow> nat \<Rightarrow> byte list option" where
  "tile_surface env dst src width height tile_mode pitch bytes_per_texel =
     (if \<not> tile_mode_is_tiled tile_mode
      then copy_bytes dst src (u64 (width * height * bytes_per_texel))
      else let dst_bytes = tiled_surface_bytes width height tile_mode pitch bytes_per_texel;
               zf = zero_from width height tile_mode pitch bytes_per_texel dst_bytes
           in Option.bind (write_at dst zf (replicate (dst_bytes - zf) 0)) (\<lambda>dst0.
                if tile_mode = Sw256BS
                then sw256_copy True dst0 src width height pitch bytes_per_texel dst_bytes
                else if is_64kb_mode tile_mode
                then sw64kb_copy True env dst0 src width height pitch bytes_per_texel dst_bytes tile_mode
                else sw4kb_copy True dst0 src width height pitch bytes_per_texel dst_bytes))"

definition tiled_elements_bytes :: "nat \<Rightarrow> nat \<Rightarrow> nat \<Rightarrow> nat \<Rightarrow> nat" where
  "tiled_elements_bytes ew eh bpe tile_mode =
     (if \<not> tile_mode_is_tiled tile_mode \<or> bpe = 0 then u64 (ew * eh * bpe)
      else if tile_mode = Sw256BS then sw256_tiled_bytes ew eh 0 bpe
      else if is_64kb_mode tile_mode then sw64kb_tiled_bytes ew eh 0 bpe
      else sw4kb_tiled_bytes ew eh 0 bpe)"

text \<open>\<open>detile_elements\<close> takes the number of source bytes: a short source reads as zero.\<close>

definition detile_elements ::
    "tile_env \<Rightarrow> byte list \<Rightarrow> byte list \<Rightarrow> nat \<Rightarrow> nat \<Rightarrow> nat \<Rightarrow> nat \<Rightarrow> nat \<Rightarrow> byte list option" where
  "detile_elements env dst src src_bytes ew eh bpe tile_mode =
     (if \<not> tile_mode_is_tiled tile_mode \<or> bpe = 0
      then let total = u64 (ew * eh * bpe); n = min src_bytes total
           in Option.bind (copy_bytes dst src n) (\<lambda>dst'.
                if n < total then write_at dst' n (replicate (total - n) 0) else Some dst')
      else if is_64kb_mode tile_mode
      then sw64kb_copy False env dst src ew eh 0 bpe src_bytes tile_mode
      else if tile_mode = Sw256BS then sw256_copy False dst src ew eh 0 bpe src_bytes
      else sw4kb_copy False dst src ew eh 0 bpe src_bytes)"

end
