(* ===== verification/TileRoundTrip.thy ===== *)
theory TileRoundTrip
  imports Tile
begin

text \<open>
  The two-dimensional copies of \<open>Tile\<close> as walks over the elements of the surface, the
  interpretation of \<open>block_swizzle\<close> for the layouts of the code, and what follows: tiling and
  detiling are inverse, safe and independent of the order of the elements, and a tiled
  surface does not depend on the bytes its buffer held before.
\<close>

unbundle bit_operations_syntax

subsection \<open>Supported element sizes\<close>

datatype elem_size = B1 | B2 | B4 | B8 | B16

fun log2_of :: "elem_size \<Rightarrow> nat" where
  "log2_of B1 = 0" | "log2_of B2 = 1" | "log2_of B4 = 2" | "log2_of B8 = 3" | "log2_of B16 = 4"

abbreviation bytes_of :: "elem_size \<Rightarrow> nat" where
  "bytes_of s \<equiv> 2 ^ log2_of s"

lemma log2_of_less: "log2_of s < 5"
  by (cases s) simp_all

lemma sw64kb_elem_log2_of [simp]: "sw64kb_elem_log2 (bytes_of s) = log2_of s"
  by (cases s) (simp_all add: sw64kb_elem_log2_def)

lemma ctz_power [simp]: "ctz (2 ^ k) = k"
  by (induction k) (simp_all add: ctz.simps[of "Suc 0"] ctz.simps[of "2 * 2 ^ _"])

lemma list_all_log2: "list_all P [0..<5] \<Longrightarrow> P (log2_of s)"
  by (simp add: list_all_iff log2_of_less)

subsection \<open>Patterns as layouts\<close>

abbreviation pat_off :: "pat_bit list \<Rightarrow> nat \<Rightarrow> nat \<Rightarrow> nat \<Rightarrow> nat \<Rightarrow> nat" where
  "pat_off pat el bits x y \<equiv>
     coord_offset (map fst pat) el bits x XOR coord_offset (map snd pat) el bits y"

lemma xor_eq_0: "a XOR b = 0 \<Longrightarrow> a = b" for a b :: nat
  by (rule bit_eqI) (metis bit_0_eq bit_xor_iff bot_apply bot_bool_def)

lemma pattern_swizzle:
  assumes "plane_ok pat el bits a b"
  shows "block_swizzle (2 ^ a) (2 ^ b) (2 ^ bits) (2 ^ el) (pat_off pat el bits)"
proof
  have ok: "length pat = 16" "el + a + b = bits" "a \<le> 32" "b \<le> 32" "bits \<le> 16"
    and det: "determines a b 0 (map (\<lambda>i. (fst (pat ! i), snd (pat ! i), 0)) [el..<bits])"
    using assms by (simp_all add: plane_ok_def)
  show "2 ^ a * 2 ^ b * 2 ^ el = (2 ^ bits :: nat)"
    using ok(2) by (metis power_add add.commute add.left_commute)
  show "pat_off pat el bits x y < 2 ^ bits" for x y
    by (rule xor_less_power2) (rule coord_offset_less)+
  show "2 ^ el dvd pat_off pat el bits x y" for x y
    by (rule xor_dvd_power2) (rule coord_offset_dvd)+
  fix x x' y y'
  assume "x div 2 ^ a = x' div 2 ^ a" and "y div 2 ^ b = y' div 2 ^ b"
    and eq: "pat_off pat el bits x y = pat_off pat el bits x' y'"
  then have small: "x XOR x' < 2 ^ a" "y XOR y' < 2 ^ b"
    by (auto intro: xor_same_block)
  have "(x XOR x') = 0 \<and> (y XOR y') = 0 \<and> (0::nat) = 0"
  proof (rule determines_sound[OF det small _ ok(3,4)])
    fix mx my mz :: nat
    assume "(mx, my, mz) \<in> set (map (\<lambda>i. (fst (pat ! i), snd (pat ! i), 0)) [el..<bits])"
    then obtain i where i: "el \<le> i" "i < bits" "mx = fst (pat ! i)" "my = snd (pat ! i)" "mz = 0"
      by auto
    have len: "i < length pat" using i(2) ok(1,5) by simp
    have "bit (pat_off pat el bits x y) i \<longleftrightarrow>
        odd (popcount (x AND mx)) \<noteq> odd (popcount (y AND my))" for x y
      using i len by (simp add: bit_xor_iff bit_coord_offset)
    with eq have "(odd (popcount (x AND mx)) \<noteq> odd (popcount (y AND my)))
        = (odd (popcount (x' AND mx)) \<noteq> odd (popcount (y' AND my)))" by metis
    then show "even (popcount ((x XOR x') AND mx) + popcount ((y XOR y') AND my) + popcount (0 AND mz))"
      using odd_popcount_xor[of x x' mx] odd_popcount_xor[of y y' my] by (auto simp: popcount_def)
  qed simp_all
  then show "x = x' \<and> y = y'" by (simp add: xor_eq_0)
qed simp_all


text \<open>An offset table that reads only the coordinates inside the block is a layout as well.\<close>

lemma local_swizzle:
  assumes "block_swizzle tw th block n off"
  shows "block_swizzle tw th block n (\<lambda>x y. off (x mod tw) (y mod th))"
proof
  fix x x' y y'
  assume "x div tw = x' div tw" and "y div th = y' div th"
    and "off (x mod tw) (y mod th) = off (x' mod tw) (y' mod th)"
  moreover from this(3) have "x mod tw = x' mod tw \<and> y mod th = y' mod th"
    using block_swizzle.tw_pos[OF assms] block_swizzle.th_pos[OF assms]
    by (intro block_swizzle.off_inj[OF assms]) simp_all
  ultimately show "x = x' \<and> y = y'" by (metis div_mult_mod_eq)
qed (use assms in \<open>simp_all add: block_swizzle_def\<close>)

subsection \<open>The lookup tables hold the pattern\<close>

lemma length_grid: "length (concat (map (\<lambda>y. map (f y) [0..<w]) [0..<h])) = h * w"
  by (induction h) simp_all

lemma nth_grid:
  "x < w \<Longrightarrow> y < h \<Longrightarrow> concat (map (\<lambda>y. map (f y) [0..<w]) [0..<h]) ! (y * w + x) = f y x"
proof (induction h)
  case (Suc h)
  show ?case
  proof (cases "y < h")
    case True
    then have "y * w + x < h * w"
      using row_major_bound[OF Suc.prems(1) True] by (simp add: mult.commute)
    with Suc True show ?thesis by (simp add: nth_append length_grid)
  next
    case False
    with Suc.prems have "y = h" by simp
    with Suc.prems(1) show ?thesis by (simp add: nth_append length_grid)
  qed
qed simp

lemma popcount_single: "k < 32 \<Longrightarrow> odd (popcount (c AND 2 ^ k)) \<longleftrightarrow> bit c k"
proof -
  assume k: "k < 32"
  have "filter (bit (c AND 2 ^ k)) [0..<32] = (if bit c k then [k] else [])"
  proof -
    have "filter (\<lambda>i. i = k \<and> bit c k) [0..<n] = (if bit c k \<and> k < n then [k] else [])" for n
      by (induction n) auto
    moreover have "bit (c AND 2 ^ k) = (\<lambda>i. i = k \<and> bit c k)"
      by (auto simp: bit_and_iff bit_exp_iff)
    ultimately show ?thesis using k by simp
  qed
  then show ?thesis by (simp add: popcount_def)
qed

text \<open>In the standard pattern every address bit is one coordinate bit.\<close>

definition single_bits :: "pat_bit list \<Rightarrow> nat \<Rightarrow> bool" where
  "single_bits pat el \<longleftrightarrow> list_all (\<lambda>i. case pat ! i of (px, py) \<Rightarrow>
     px = 2 ^ ctz px \<and> ctz px < 32 \<and> py = 0 \<or> px = 0 \<and> py = 2 ^ ctz py \<and> ctz py < 32) [el..<16]"

lemma kSw64kS_single: "list_all (\<lambda>el. length (kSw64kS ! el) = 16 \<and> single_bits (kSw64kS ! el) el) [0..<5]"
  by code_simp

lemma kSw64kS_entry:
  assumes "el < 5" and "el \<le> i" and "i < 16"
  obtains px py where "kSw64kS ! el ! i = (px, py)" and "i < length (kSw64kS ! el)"
    and "px = 2 ^ ctz px \<and> ctz px < 32 \<and> py = 0 \<or> px = 0 \<and> py = 2 ^ ctz py \<and> ctz py < 32"
proof -
  obtain px py where e: "kSw64kS ! el ! i = (px, py)" by fastforce
  have "length (kSw64kS ! el) = 16" "single_bits (kSw64kS ! el) el"
    using kSw64kS_single assms(1) by (simp_all add: list_all_iff)
  moreover from this(2) have "case kSw64kS ! el ! i of (px, py) \<Rightarrow>
      px = 2 ^ ctz px \<and> ctz px < 32 \<and> py = 0 \<or> px = 0 \<and> py = 2 ^ ctz py \<and> ctz py < 32"
    using assms(2,3) unfolding single_bits_def list_all_iff by auto
  ultimately show ?thesis using that[OF e] assms(3) unfolding e prod.case by simp
qed

lemma bit_fold_or:
  "bit (foldl (\<lambda>v i. v OR push_bit i (f i mod 2)) v is) j \<longleftrightarrow> bit v j \<or> j \<in> set is \<and> odd (f j)"
  for f :: "nat \<Rightarrow> nat"
proof (induction "is" arbitrary: v)
  case (Cons i "is")
  have "bit (v OR push_bit i (f i mod 2)) j \<longleftrightarrow> bit v j \<or> j = i \<and> odd (f j)"
    by (auto simp: bit_or_iff bit_push_bit_iff_nat bit_mod_2)
  then show ?case unfolding foldl_Cons Cons.IH by auto
qed simp

lemma sw256_byte_offset_pattern:
  assumes "el < 5"
  shows "sw256_byte_offset el x y = pat_off (kSw64kS ! el) el 8 x y"
proof (rule bit_eqI)
  fix j
  let ?f = "\<lambda>i. case kSw64kS ! el ! i of (px, py) \<Rightarrow> if px \<noteq> 0 then popcount (x AND px) else popcount (y AND py)"
  have eq: "sw256_byte_offset el x y = foldl (\<lambda>v i. v OR push_bit i (?f i mod 2)) 0 [el..<8]"
    unfolding sw256_byte_offset_def by (intro foldl_cong) (auto split: prod.split)
  have "odd (?f j) \<longleftrightarrow> odd (popcount (x AND map fst (kSw64kS ! el) ! j)) \<noteq> odd (popcount (y AND map snd (kSw64kS ! el) ! j))"
    if j: "el \<le> j" "j < 8"
  proof -
    have "j < 16" using j by simp
    from kSw64kS_entry[OF assms j(1) this] obtain px py where e: "kSw64kS ! el ! j = (px, py)" "j < length (kSw64kS ! el)"
      and s: "px = 2 ^ ctz px \<and> ctz px < 32 \<and> py = 0 \<or> px = 0 \<and> py = 2 ^ ctz py \<and> ctz py < 32" by blast
    have pz: "popcount 0 = 0" by (simp add: popcount_def)
    from s show ?thesis
    proof
      assume "px = 2 ^ ctz px \<and> ctz px < 32 \<and> py = 0"
      moreover then have "px \<noteq> 0" by (metis power_not_zero zero_neq_numeral)
      ultimately show ?thesis by (simp add: e pz)
    next
      assume "px = 0 \<and> py = 2 ^ ctz py \<and> ctz py < 32"
      then show ?thesis by (simp add: e pz)
    qed
  qed
  then show "bit (sw256_byte_offset el x y) j = bit (pat_off (kSw64kS ! el) el 8 x y) j"
    unfolding eq bit_fold_or by (auto simp: bit_xor_iff bit_coord_offset)
qed

lemma foldl_cong_mem:
  "(\<And>v i. i \<in> set is \<Longrightarrow> f v i = g v i) \<Longrightarrow> foldl f v is = foldl g v is"
  by (rule foldl_cong) simp_all

lemma sw4kb_morton_pattern:
  assumes el: "el < 5" and sum: "bx + by' = 12 - el"
  shows "sw4kb_morton x y bx by' * 2 ^ el = pat_off (kSw64kS ! el) el 12 x y"
proof (rule bit_eqI)
  fix j
  let ?g = "\<lambda>e. case kSw64kS ! el ! (el + e) of (px, py) \<Rightarrow>
      if px \<noteq> 0 then x div 2 ^ ctz px else if py \<noteq> 0 then y div 2 ^ ctz py else 0"
  have el_eq: "12 - (12 - el) = el" using el by simp
  have eq: "sw4kb_morton x y bx by' = foldl (\<lambda>v e. v OR push_bit e (?g e mod 2)) 0 [0..<12 - el]"
    unfolding sw4kb_morton_def Let_def sum el_eq by (intro foldl_cong_mem) (auto split: prod.split)
  have "odd (?g (j - el)) \<longleftrightarrow> odd (popcount (x AND map fst (kSw64kS ! el) ! j)) \<noteq> odd (popcount (y AND map snd (kSw64kS ! el) ! j))"
    if j: "el \<le> j" "j < 12"
  proof -
    have "j < 16" using j by simp
    from kSw64kS_entry[OF el j(1) this] obtain px py where e: "kSw64kS ! el ! j = (px, py)" "j < length (kSw64kS ! el)"
      and s: "px = 2 ^ ctz px \<and> ctz px < 32 \<and> py = 0 \<or> px = 0 \<and> py = 2 ^ ctz py \<and> ctz py < 32" by blast
    have pz: "popcount 0 = 0" by (simp add: popcount_def)
    have idx: "el + (j - el) = j" using j by simp
    from s show ?thesis
    proof
      assume p: "px = 2 ^ ctz px \<and> ctz px < 32 \<and> py = 0"
      then have "px \<noteq> 0" by (metis power_not_zero zero_neq_numeral)
      with p show ?thesis
        using popcount_single[of "ctz px" x] by (simp add: e pz idx bit_iff_odd)
    next
      assume p: "px = 0 \<and> py = 2 ^ ctz py \<and> ctz py < 32"
      then have "py \<noteq> 0" by (metis power_not_zero zero_neq_numeral)
      with p show ?thesis
        using popcount_single[of "ctz py" y] by (simp add: e pz idx bit_iff_odd)
    qed
  qed
  moreover have "bit (sw4kb_morton x y bx by' * 2 ^ el) j \<longleftrightarrow> el \<le> j \<and> j < 12 \<and> odd (?g (j - el))"
    unfolding push_bit_eq_mult[symmetric] bit_push_bit_iff_nat eq bit_fold_or by auto
  ultimately show "bit (sw4kb_morton x y bx by' * 2 ^ el) j = bit (pat_off (kSw64kS ! el) el 12 x y) j"
    by (auto simp: bit_xor_iff bit_coord_offset)
qed

abbreviation bx256 :: "elem_size \<Rightarrow> nat" where "bx256 s \<equiv> (8 - log2_of s + 1) div 2"
abbreviation by256 :: "elem_size \<Rightarrow> nat" where "by256 s \<equiv> (8 - log2_of s) div 2"
abbreviation bx4k :: "elem_size \<Rightarrow> nat" where "bx4k s \<equiv> (12 - log2_of s + 1) div 2"
abbreviation by4k :: "elem_size \<Rightarrow> nat" where "by4k s \<equiv> (12 - log2_of s) div 2"

lemma sw256_dims_of: "sw256_dims (bytes_of s) = (bx256 s, by256 s)"
  unfolding sw256_dims_def ctz_power by (cases s) (simp_all add: u32_sub_def u32_def)

lemma sw4kb_dims_of: "sw4kb_dims (bytes_of s) = (bx4k s, by4k s)"
  by (cases s) (simp_all add: sw4kb_dims_def sw4kb_bits.simps)

definition lookup_ok :: "sw_lookup \<Rightarrow> nat \<Rightarrow> nat \<Rightarrow> (nat \<Rightarrow> nat \<Rightarrow> nat) \<Rightarrow> bool" where
  "lookup_ok lk tw th off \<longleftrightarrow> lk_tw lk = tw \<and> lk_th lk = th \<and>
     (\<forall>x<tw. \<forall>y<th. byte_offsets lk ! (y * tw + x) = off x y)"

lemma supported_bytes: "bytes_of s \<in> {1, 2, 4, 8, 16}"
  by (cases s) simp_all

lemma sw256_lookup_ok:
  "lookup_ok (sw256_lookup (bytes_of s)) (2 ^ bx256 s) (2 ^ by256 s) (pat_off (kSw64kS ! log2_of s) (log2_of s) 8)"
  using supported_bytes[of s] log2_of_less[of s]
  by (simp add: lookup_ok_def sw256_lookup_def make_sw256_lookup_def sw256_dims_of nth_grid Let_def
      sw256_byte_offset_pattern)

lemma sw4kb_lookup_ok:
  "lookup_ok (sw4kb_lookup (bytes_of s)) (2 ^ bx4k s) (2 ^ by4k s) (pat_off (kSw64kS ! log2_of s) (log2_of s) 12)"
proof -
  have "bx4k s + by4k s = 12 - log2_of s" by (cases s) simp_all
  with supported_bytes[of s] sw4kb_morton_pattern[OF log2_of_less[of s] this] show ?thesis
    by (simp add: lookup_ok_def sw4kb_lookup_def make_sw4kb_lookup_def sw4kb_dims_of nth_grid Let_def)
qed

subsection \<open>The layouts of the code\<close>

abbreviation off256 :: "elem_size \<Rightarrow> nat \<Rightarrow> nat \<Rightarrow> nat" where
  "off256 s x y \<equiv> pat_off (kSw64kS ! log2_of s) (log2_of s) 8 (x mod 2 ^ bx256 s) (y mod 2 ^ by256 s)"

abbreviation off4k :: "elem_size \<Rightarrow> nat \<Rightarrow> nat \<Rightarrow> nat" where
  "off4k s x y \<equiv> pat_off (kSw64kS ! log2_of s) (log2_of s) 12 (x mod 2 ^ bx4k s) (y mod 2 ^ by4k s)"

abbreviation bw64 :: "elem_size \<Rightarrow> nat" where "bw64 s \<equiv> fst (sw64kb_dims (log2_of s))"
abbreviation bh64 :: "elem_size \<Rightarrow> nat" where "bh64 s \<equiv> snd (sw64kb_dims (log2_of s))"

abbreviation off64 :: "tile_env \<Rightarrow> nat \<Rightarrow> elem_size \<Rightarrow> nat \<Rightarrow> nat \<Rightarrow> nat" where
  "off64 env mode s \<equiv> pat_off (sw64kb_pattern env mode (log2_of s)) (log2_of s) 16"

interpretation sw256: block_swizzle "2 ^ bx256 s" "2 ^ by256 s" 256 "bytes_of s" "off256 s" for s
proof -
  have "plane_ok (kSw64kS ! log2_of s) (log2_of s) 8 (bx256 s) (by256 s)"
    by (rule list_all_log2[OF kSw256_ok])
  from local_swizzle[OF pattern_swizzle[OF this]]
  show "block_swizzle (2 ^ bx256 s) (2 ^ by256 s) 256 (bytes_of s) (off256 s)" by simp
qed

interpretation sw4kb: block_swizzle "2 ^ bx4k s" "2 ^ by4k s" 4096 "bytes_of s" "off4k s" for s
proof -
  have "plane_ok (kSw64kS ! log2_of s) (log2_of s) 12 (bx4k s) (by4k s)"
    by (rule list_all_log2[OF kSw4kb_ok])
  from local_swizzle[OF pattern_swizzle[OF this]]
  show "block_swizzle (2 ^ bx4k s) (2 ^ by4k s) 4096 (bytes_of s) (off4k s)" by simp
qed

lemma sw64kb_dims_power:
  "bw64 s = 2 ^ fst (dims64_log2 ! log2_of s)" "bh64 s = 2 ^ snd (dims64_log2 ! log2_of s)"
  by (cases s; simp add: sw64kb_dims_def dims64_log2_def)+

lemma pattern64_ok:
  "plane_ok (sw64kb_pattern env mode (log2_of s)) (log2_of s) 16
     (fst (dims64_log2 ! log2_of s)) (snd (dims64_log2 ! log2_of s))"
  using list_all_log2[OF kSw64kS_ok, of s] list_all_log2[OF kSw64kZX_ok, of s]
    list_all_log2[OF kSw64kRX_ok[OF rx_pipes_less[of env]], of s]
  by (simp add: sw64kb_pattern_def)

interpretation sw64kb: block_swizzle "bw64 s" "bh64 s" 65536 "bytes_of s" "off64 env mode s" for env mode s
  using pattern_swizzle[OF pattern64_ok[of env mode s]] by (simp add: sw64kb_dims_power)

subsection \<open>The loops visit every element once\<close>

definition block_coords :: "nat \<Rightarrow> nat \<Rightarrow> nat \<Rightarrow> nat \<Rightarrow> (nat \<times> nat) list" where
  "block_coords tw th ew eh =
     concat (map (\<lambda>by'. concat (map (\<lambda>bx. concat (map (\<lambda>y. map (\<lambda>x. (bx * tw + x, by' * th + y))
         [0..<min tw (ew - bx * tw)]) [0..<min th (eh - by' * th)])) [0..<ceil_div ew tw]))
       [0..<ceil_div eh th])"

definition row_coords :: "nat \<Rightarrow> nat \<Rightarrow> (nat \<times> nat) list" where
  "row_coords ew eh = concat (map (\<lambda>y. map (\<lambda>x. (x, y)) [0..<ew]) [0..<eh])"

lemma distinct_concat_map:
  assumes "distinct xs" and "\<And>x. x \<in> set xs \<Longrightarrow> distinct (f x)"
    and "\<And>x y. x \<in> set xs \<Longrightarrow> y \<in> set xs \<Longrightarrow> x \<noteq> y \<Longrightarrow> set (f x) \<inter> set (f y) = {}"
  shows "distinct (concat (map f xs))"
  using assms
proof (induction xs)
  case (Cons x xs)
  have "set (f x) \<inter> (\<Union>y\<in>set xs. set (f y)) = {}"
    using Cons.prems(1,3) by fastforce
  with Cons show ?case by auto
qed simp

lemma row_coords_spec: "distinct (row_coords ew eh)" "set (row_coords ew eh) = surface_of ew eh"
  unfolding row_coords_def
  by (rule distinct_concat_map) (auto simp: distinct_map inj_on_def surface_of_def)

lemma block_split:
  "0 < t \<Longrightarrow> x < t \<Longrightarrow> (b * t + x) div t = (b::nat)"
  "0 < t \<Longrightarrow> x < t \<Longrightarrow> (b * t + x) mod t = x"
  by simp_all

lemma block_coords_mem:
  assumes "x < min tw (ew - bx * tw)" and "y < min th (eh - by' * th)"
    and "bx < ceil_div ew tw" and "by' < ceil_div eh th"
  shows "(bx * tw + x, by' * th + y) \<in> set (block_coords tw th ew eh)"
  unfolding block_coords_def set_concat set_map image_image
  by (rule UN_I[of by'], use assms in simp, rule UN_I[of bx], use assms in simp,
      rule UN_I[of y], use assms in simp, rule image_eqI[of _ _ x]) (use assms in simp_all)

lemma block_coords_set:
  assumes t: "0 < tw" "0 < th"
  shows "set (block_coords tw th ew eh) = surface_of ew eh"
proof (intro equalityI subsetI)
  fix c assume "c \<in> set (block_coords tw th ew eh)"
  then show "c \<in> surface_of ew eh" by (auto simp: block_coords_def surface_of_def)
next
  fix c assume "c \<in> surface_of ew eh"
  then obtain x y where c: "c = (x, y)" "x < ew" "y < eh" by (auto simp: surface_of_def)
  have x: "x div tw * tw + x mod tw = x" and y: "y div th * th + y mod th = y" by simp_all
  have "x mod tw < tw" "y mod th < th" using t by simp_all
  moreover have "x mod tw < ew - x div tw * tw" "y mod th < eh - y div th * th"
    using c x y by linarith+
  ultimately have "x mod tw < min tw (ew - x div tw * tw)" "y mod th < min th (eh - y div th * th)"
    by simp_all
  moreover have "x div tw < ceil_div ew tw" "y div th < ceil_div eh th"
    using c t by (simp_all add: div_less_ceil_div)
  ultimately have "(x div tw * tw + x mod tw, y div th * th + y mod th) \<in> set (block_coords tw th ew eh)"
    by (intro block_coords_mem)
  then show "c \<in> set (block_coords tw th ew eh)" by (simp only: x y c(1))
qed

lemma block_coords_distinct:
  assumes t: "0 < tw" "0 < th"
  shows "distinct (block_coords tw th ew eh)"
  unfolding block_coords_def
proof (intro distinct_concat_map)
  fix b b' :: nat assume ne: "b \<noteq> b'"
  let ?f = "\<lambda>b. concat (map (\<lambda>bx. concat (map (\<lambda>y. map (\<lambda>x. (bx * tw + x, b * th + y))
         [0..<min tw (ew - bx * tw)]) [0..<min th (eh - b * th)])) [0..<ceil_div ew tw])"
  have "snd c div th = b" if "c \<in> set (?f b)" for c b
    using that t by (auto simp: block_split)
  with ne show "set (?f b) \<inter> set (?f b') = {}" by blast
next
  fix by' b b' :: nat assume ne: "b \<noteq> b'"
  let ?f = "\<lambda>b. concat (map (\<lambda>y. map (\<lambda>x. (b * tw + x, by' * th + y))
         [0..<min tw (ew - b * tw)]) [0..<min th (eh - by' * th)])"
  have "fst c div tw = b" if "c \<in> set (?f b)" for c b
    using that t by (auto simp: block_split)
  with ne show "set (?f b) \<inter> set (?f b') = {}" by blast
qed (auto simp: distinct_map inj_on_def)

lemma walk_eta: "walk to_tiled n tb src t l cs
    = foldM (\<lambda>c. move_elem to_tiled n tb src (t c) (l c)) cs"
  by (rule ext) (simp add: walk_def)

lemma walk_concat:
  "foldM (\<lambda>a. walk to_tiled n tb src t l (cs a)) xs dst
   = walk to_tiled n tb src t l (concat (map cs xs)) dst"
  unfolding walk_eta foldM_concat foldM_map ..

lemma walk_loop:
  assumes "\<And>x. x \<in> set xs \<Longrightarrow> t' x = t (c x) \<and> l' x = l (c x)"
  shows "foldM (\<lambda>x. move_elem to_tiled n tb src (t' x) (l' x)) xs dst
       = walk to_tiled n tb src t l (map c xs) dst"
  unfolding walk_def foldM_map using assms by (intro foldM_cong) simp_all

lemma walk_nested:
  assumes "\<And>a s. a \<in> set xs \<Longrightarrow> f a s = walk to_tiled n tb src t l (cs a) s"
  shows "foldM f xs dst = walk to_tiled n tb src t l (concat (map cs xs)) dst"
proof -
  have "foldM f xs dst = foldM (\<lambda>a. walk to_tiled n tb src t l (cs a)) xs dst"
    using assms by (intro foldM_cong) simp_all
  then show ?thesis by (simp add: walk_concat)
qed

definition dims_ok :: "nat \<Rightarrow> nat \<Rightarrow> nat \<Rightarrow> bool" where
  "dims_ok ew eh pitch \<longleftrightarrow> ew \<le> 65536 \<and> eh \<le> 65536 \<and> (pitch = 0 \<or> ew \<le> pitch \<and> pitch \<le> 65536)"

abbreviation padded :: "nat \<Rightarrow> nat \<Rightarrow> nat" where
  "padded ew pitch \<equiv> (if pitch \<noteq> 0 then pitch else ew)"

lemma ceil_div_le: "0 < d \<Longrightarrow> ceil_div n d \<le> n"
proof -
  assume "0 < d"
  moreover from this have "n \<le> n * d" by simp
  ultimately have "n + d - 1 < Suc n * d" unfolding mult_Suc by linarith
  then have "(n + d - 1) div d < Suc n" by (rule less_mult_imp_div_less)
  then show ?thesis by (simp add: ceil_div_def)
qed

lemma u32_blocks: "n \<le> 65536 \<Longrightarrow> d \<le> 65536 \<Longrightarrow> u32 (n + d - 1) div d = ceil_div n d"
  by (simp add: u32_id ceil_div_def)

lemma lookup_copy_walk:
  assumes lk: "lookup_ok lk tw th off" and t: "0 < tw" "0 < th" "tw \<le> 65536" "th \<le> 65536"
    and dims: "dims_ok ew eh pitch"
  shows "lookup_copy to_tiled lk block dst src ew eh pitch bpe tb
       = walk to_tiled bpe tb src
           (tiled_addr tw th block (\<lambda>x y. off (x mod tw) (y mod th)) (ceil_div (padded ew pitch) tw))
           (lin2 bpe ew) (block_coords tw th ew eh) dst"
proof -
  let ?bpr = "ceil_div (padded ew pitch) tw"
  have sizes: "u32 (padded ew pitch + tw - 1) div tw = ?bpr"
    "u32 (eh + th - 1) div th = ceil_div eh th" "u32 (ew + tw - 1) div tw = ceil_div ew tw"
    using dims t by (auto simp only: dims_ok_def intro!: u32_blocks split: if_splits)
  have lk': "lk_tw lk = tw" "lk_th lk = th" and offs: "byte_offsets lk ! (y * tw + x) = off x y"
    if "x < tw" "y < th" for x y
    using lk that by (simp_all add: lookup_ok_def)
  have lk': "lk_tw lk = tw" "lk_th lk = th" using lk by (simp_all add: lookup_ok_def)
  have mono: "ceil_div ew tw \<le> ?bpr"
    using dims unfolding ceil_div_def by (intro div_le_mono) (auto simp: dims_ok_def)
  have small: "u32 (by' * ?bpr + bx) = by' * ?bpr + bx"
    if "by' < ceil_div eh th" "bx < ceil_div ew tw" for by' bx
  proof -
    have "by' * ?bpr + bx < ?bpr * ceil_div eh th"
      using that mono by (intro row_major_bound) simp_all
    also have "\<dots> \<le> 65536 * 65536"
      using dims order_trans[OF ceil_div_le[OF t(1)]] order_trans[OF ceil_div_le[OF t(2)]]
      by (intro mult_le_mono) (auto simp: dims_ok_def)
    finally show ?thesis by (simp add: u32_id)
  qed
  show ?thesis
    unfolding lookup_copy_def Let_def lk' sizes block_coords_def
  proof (intro walk_nested walk_loop conjI)
    fix by' bx y x
    assume b: "by' \<in> set [0..<ceil_div eh th]" "bx \<in> set [0..<ceil_div ew tw]"
      and y: "y \<in> set [0..<min th (eh - by' * th)]" and x: "x \<in> set [0..<min tw (ew - bx * tw)]"
    show "u32 (by' * ?bpr + bx) * block + byte_offsets lk ! (y * tw + x)
        = tiled_addr tw th block (\<lambda>x y. off (x mod tw) (y mod th)) ?bpr (bx * tw + x, by' * th + y)"
      using b x y t small offs by (simp add: tiled_addr_def)
    show "((by' * th + y) * ew + bx * tw) * bpe + x * bpe = lin2 bpe ew (bx * tw + x, by' * th + y)"
      by (simp add: lin2_def algebra_simps)
  qed
qed

subsection \<open>Moving two elements at once\<close>

lemma read_two:
  "read_at xs p (n + n) = Option.bind (read_at xs p n) (\<lambda>a. map_option (\<lambda>b. a @ b) (read_at xs (p + n) n))"
  by (auto simp: read_at_def take_add add.commute)

lemma write_two:
  "write_at b p (ys @ zs) = Option.bind (write_at b p ys) (\<lambda>b'. write_at b' (p + length ys) zs)"
proof (cases "p + length ys + length zs \<le> length b")
  case True
  then have "length (take p b) = p" by simp
  with True show ?thesis by (simp add: write_at_def ac_simps)
next
  case False
  then show ?thesis by (auto simp: write_at_def split: Option.bind_splits)
qed

lemma read_write_two:
  "Option.bind (read_at src q (n + n)) (write_at dst p)
   = Option.bind (Option.bind (read_at src q n) (write_at dst p))
       (\<lambda>dst'. Option.bind (read_at src (q + n) n) (write_at dst' (p + n)))"
proof (cases "read_at src q n")
  case None
  then show ?thesis by (simp add: read_two)
next
  case (Some a)
  then have "length a = n" by (rule read_at_Some_length)
  with Some show ?thesis
    by (cases "read_at src (q + n) n") (simp_all add: read_two write_two Option.bind_assoc[symmetric])
qed

lemma move_run_one:
  assumes "full_block \<Longrightarrow> tiled + n \<le> tb"
  shows "move_run to_tiled full_block n tb src tiled linear dst = move_elem to_tiled n tb src tiled linear dst"
  using assms by (auto simp: move_run_def move_elem_def Let_def)

lemma move_run_two:
  assumes "tiled + n + n \<le> tb"
  shows "move_run to_tiled full_block (n + n) tb src tiled linear dst
       = Option.bind (move_elem to_tiled n tb src tiled linear dst)
           (\<lambda>d. move_elem to_tiled n tb src (tiled + n) (linear + n) d)"
proof -
  have "tiled \<le> tb \<and> n + n \<le> tb - tiled" using assms by linarith
  moreover have "tiled + n \<le> tb" using assms by linarith
  ultimately show ?thesis
    using assms read_write_two[of src linear n dst tiled] read_write_two[of src tiled n dst linear]
    by (simp add: move_run_def move_elem_def)
qed

text \<open>
  Pairs are only formed at even columns, where the second element of the pair follows the
  first: an odd column is reached only when a bounded tiled side ended inside a pair, and then
  no pair starts there either.
\<close>

lemma pair_run_odd_stop:
  assumes "pair_run paired full_block tb bpe columns ix tiled = 2"
  shows "paired \<and> bpe \<le> 8 \<and> ix + 1 < columns \<and> (full_block \<or> tiled + bpe + bpe \<le> tb)"
  using assms by (auto simp: pair_run_def Let_def split: if_splits)

lemma foldM_Cons: "foldM f (x # xs) = (\<lambda>s. Option.bind (f x s) (foldM f xs))"
  by (rule ext) simp

lemma copy_block_row_walk:
  assumes full: "\<And>i. full_block \<Longrightarrow> i < columns \<Longrightarrow> tiled_at i + bpe \<le> tb"
    and pair: "\<And>i. bpe \<le> 8 \<Longrightarrow> even i \<Longrightarrow> i + 1 < columns \<Longrightarrow> tiled_at (i + 1) = tiled_at i + bpe"
    and start: "even ix \<or> bpe > 8 \<or> \<not> paired \<or> \<not> full_block \<and> tiled_at ix + bpe + bpe > tb"
  shows "copy_block_row to_tiled paired full_block tb bpe src tiled_at lb columns ix dst
       = walk to_tiled bpe tb src tiled_at (\<lambda>i. lb + i * bpe) [ix..<columns] dst"
  using start
proof (induction "columns - ix" arbitrary: ix dst rule: less_induct)
  case less
  show ?case
  proof (cases "ix < columns")
    case False
    then show ?thesis by (simp add: copy_block_row.simps walk_def)
  next
    case ix: True
    let ?run = "pair_run paired full_block tb bpe columns ix (tiled_at ix)"
    have upt1: "[ix..<columns] = ix # [ix + 1..<columns]" using ix by (simp add: upt_conv_Cons)
    have unfold: "copy_block_row to_tiled paired full_block tb bpe src tiled_at lb columns ix dst
      = Option.bind (move_run to_tiled full_block (?run * bpe) tb src (tiled_at ix) (lb + ix * bpe) dst)
          (\<lambda>d. copy_block_row to_tiled paired full_block tb bpe src tiled_at lb columns (ix + ?run) d)"
      using ix by (subst copy_block_row.simps) (simp add: Let_def)
    show ?thesis
    proof (cases "?run = 2")
      case True
      note stop = pair_run_odd_stop[OF True]
      with less.prems have even: "even ix" by auto
      have next': "tiled_at (ix + 1) = tiled_at ix + bpe" using pair stop even by blast
      have inside: "tiled_at ix + bpe + bpe \<le> tb"
        using stop full[of "ix + 1"] next' by auto
      have IH: "copy_block_row to_tiled paired full_block tb bpe src tiled_at lb columns (ix + 2) d
          = walk to_tiled bpe tb src tiled_at (\<lambda>i. lb + i * bpe) [ix + 2..<columns] d" for d
        using ix even by (intro less.hyps) auto
      have upt2: "[ix + 1..<columns] = (ix + 1) # [ix + 2..<columns]"
        using stop by (simp add: upt_conv_Cons)
      have lb: "lb + (ix + 1) * bpe = lb + ix * bpe + bpe" by simp
      have "?run * bpe = bpe + bpe" using True by simp
      then show ?thesis
        unfolding unfold True IH upt1 upt2 walk_def foldM_Cons lb next'
        by (simp only: move_run_two[OF inside] Option.bind_assoc)
    next
      case False
      then have one: "?run = 1" using pair_run_pos[of paired full_block tb bpe columns ix "tiled_at ix"] by simp
      have IH: "copy_block_row to_tiled paired full_block tb bpe src tiled_at lb columns (ix + 1) d
          = walk to_tiled bpe tb src tiled_at (\<lambda>i. lb + i * bpe) [ix + 1..<columns] d" for d
      proof (cases "ix + 1 < columns")
        case last: False
        then show ?thesis by (subst copy_block_row.simps) (simp add: walk_def)
      next
        case True
        have "even (ix + 1) \<or> bpe > 8 \<or> \<not> paired \<or> \<not> full_block \<and> tiled_at (ix + 1) + bpe + bpe > tb"
        proof (cases "odd ix \<or> bpe > 8 \<or> \<not> paired")
          case even: False
          then have "\<not> full_block \<and> tiled_at ix + bpe + bpe > tb"
            using one True by (auto simp: pair_run_def Let_def split: if_splits)
          moreover have "tiled_at (ix + 1) = tiled_at ix + bpe" using pair even True by simp
          ultimately show ?thesis by simp
        qed auto
        then show ?thesis using ix by (intro less.hyps) auto
      qed
      show ?thesis
        unfolding unfold one IH upt1 walk_def foldM_Cons
        using move_run_one[of full_block "tiled_at ix" bpe tb] full[OF _ ix] by simp
    qed
  qed
qed

subsection \<open>The 64 KiB copies as walks\<close>

definition pairs_adjacent :: "pat_bit list \<Rightarrow> nat \<Rightarrow> bool" where
  "pairs_adjacent pat el \<longleftrightarrow> length pat = 16 \<and> fst (pat ! el) = 1 \<and> snd (pat ! el) = 0 \<and>
     list_all (\<lambda>i. even (fst (pat ! i))) [el + 1..<16]"

lemma kSw64kS_pairs: "list_all (\<lambda>el. pairs_adjacent (kSw64kS ! el) el) [0..<4]"
  by code_simp

lemma kSw64kZX_pairs: "list_all (\<lambda>el. pairs_adjacent (kSw64kZX ! el) el) [0..<4]"
  by code_simp

lemma kSw64kRX_pairs:
  "list_all (\<lambda>p. list_all (\<lambda>el. pairs_adjacent (kSw64kRX ! p ! el) el) [0..<4]) [0..<7]"
  by code_simp

lemma pattern_pairs:
  "el < 4 \<Longrightarrow> pairs_adjacent (sw64kb_pattern env mode el) el"
  using kSw64kS_pairs kSw64kZX_pairs kSw64kRX_pairs rx_pipes_less[of env]
  by (simp add: sw64kb_pattern_def list_all_iff)

lemma even_xor_1: "even c \<Longrightarrow> c XOR 1 = c + (1::nat)"
  by (metis disjunctive_add_eq_xor and_one_eq even_iff_mod_2_eq_zero)

lemma coord_offset_pair:
  assumes "pairs_adjacent pat el" and "el < 16" and "even c"
  shows "coord_offset (map fst pat) el 16 (c + 1) XOR yo = (coord_offset (map fst pat) el 16 c XOR yo) XOR 2 ^ el"
proof -
  have "coord_offset (map fst pat) el 16 1 = 2 ^ el"
  proof (rule bit_eqI)
    fix j
    have one: "odd (popcount (1 AND m)) = odd m" for m
      using popcount_single[of 0 1, unfolded popcount_def] popcount_masked[of 1 1 m]
      by (simp add: bit_0)
    have "odd (popcount (1 AND map fst pat ! j)) \<longleftrightarrow> j = el" if "el \<le> j" "j < 16"
    proof (cases "j = el")
      case True
      with assms that show ?thesis unfolding one by (simp add: pairs_adjacent_def)
    next
      case False
      with assms(1) that have "even (fst (pat ! j))" by (auto simp: pairs_adjacent_def list_all_iff)
      with assms(1) that False show ?thesis unfolding one by (simp add: pairs_adjacent_def)
    qed
    with assms(2) show "bit (coord_offset (map fst pat) el 16 1) j = bit (2 ^ el :: nat) j"
      by (auto simp: bit_coord_offset bit_exp_iff)
  qed
  with coord_offset_xor[of "map fst pat" el 16 c 1] even_xor_1[OF assms(3)] show ?thesis
    by (simp add: ac_simps)
qed

lemma pat_off_pair:
  assumes pa: "pairs_adjacent pat el" and el: "el < 16" and c: "even c"
  shows "pat_off pat el 16 (c + 1) y = pat_off pat el 16 c y + 2 ^ el"
proof -
  let ?v = "pat_off pat el 16 c y"
  have idx: "map fst pat ! el = 1" "map snd pat ! el = 0"
    using pa el by (simp_all add: pairs_adjacent_def)
  have "\<not> bit ?v el"
  proof -
    have "\<not> odd (popcount (c AND 1))" using popcount_single[of 0 c] c by (simp add: bit_0)
    moreover have "\<not> odd (popcount (y AND 0))" by (simp add: popcount_def)
    ultimately show ?thesis using el by (simp add: bit_xor_iff bit_coord_offset idx del: and_zero_eq)
  qed
  then have "?v AND 2 ^ el = 0"
    by (intro bit_eqI) (auto simp: bit_and_iff bit_exp_iff)
  then have "?v XOR 2 ^ el = ?v + 2 ^ el" by (rule disjunctive_add_eq_xor[symmetric])
  with coord_offset_pair[OF pa el c] show ?thesis by simp
qed

lemma or_shift: "v < 2 ^ k \<Longrightarrow> push_bit k a OR v = a * 2 ^ k + v" for v a :: nat
proof -
  assume v: "v < 2 ^ k"
  have "push_bit k a AND v = 0"
  proof (rule bit_eqI)
    fix i
    have "\<not> bit v i" if "k \<le> i"
      using v that by (metis bit_take_bit_iff linorder_not_less take_bit_nat_eq_self)
    then show "bit (push_bit k a AND v) i = bit 0 i"
      by (auto simp: bit_and_iff bit_push_bit_iff_nat)
  qed
  then show ?thesis by (metis disjunctive_add_eq_or push_bit_eq_mult)
qed

lemma block_index_small:
  assumes "dims_ok ew eh pitch" and "0 < bw" "0 < bh" and "bx < ceil_div ew bw" and "by' < ceil_div eh bh"
  shows "by' * ceil_div (padded ew pitch) bw + bx < 2 ^ 48"
proof -
  have "ceil_div ew bw \<le> ceil_div (padded ew pitch) bw"
    using assms(1) unfolding ceil_div_def by (intro div_le_mono) (auto simp: dims_ok_def)
  then have "by' * ceil_div (padded ew pitch) bw + bx < ceil_div (padded ew pitch) bw * ceil_div eh bh"
    using assms by (intro row_major_bound) simp_all
  also have "\<dots> \<le> 65536 * 65536"
    using assms order_trans[OF ceil_div_le[OF assms(2)]] order_trans[OF ceil_div_le[OF assms(3)]]
    by (intro mult_le_mono) (auto simp: dims_ok_def)
  finally show ?thesis by simp
qed

lemma block_base_exact: "b < 2 ^ 48 \<Longrightarrow> u64 (push_bit 16 b) = b * 65536"
  by (simp add: push_bit_eq_mult u64_id)

lemma block_addr:
  assumes "b < 2 ^ 48" and "off < 2 ^ 16"
  shows "u64 (push_bit 16 b) OR off = b * 65536 + off"
proof -
  have "u64 (push_bit 16 b) = push_bit 16 b"
    using assms(1) by (simp add: push_bit_eq_mult u64_id)
  with or_shift[OF assms(2), of b] show ?thesis by simp
qed

lemma bw64_bounds: "0 < bw64 s" "0 < bh64 s" "bw64 s \<le> 65536" "bh64 s \<le> 65536" "even (bw64 s)"
  by (cases s; simp add: sw64kb_dims_def)+

lemma walk_cong:
  assumes "\<And>c. c \<in> set cs \<Longrightarrow> t c = t' c \<and> l c = l' c"
  shows "walk to_tiled n tb src t l cs dst = walk to_tiled n tb src t' l' cs dst"
  unfolding walk_def using assms by (intro foldM_cong) simp_all

abbreviation addr64 :: "tile_env \<Rightarrow> nat \<Rightarrow> elem_size \<Rightarrow> nat \<Rightarrow> nat \<Rightarrow> nat \<times> nat \<Rightarrow> nat" where
  "addr64 env mode s ew pitch \<equiv>
     tiled_addr (bw64 s) (bh64 s) 65536 (off64 env mode s) (ceil_div (padded ew pitch) (bw64 s))"

lemma sizes64:
  assumes "dims_ok ew eh pitch"
  shows "u32 (padded ew pitch + bw64 s - 1) div bw64 s = ceil_div (padded ew pitch) (bw64 s)"
    "u32 (eh + bh64 s - 1) div bh64 s = ceil_div eh (bh64 s)"
    "u32 (ew + bw64 s - 1) div bw64 s = ceil_div ew (bw64 s)"
  using assms bw64_bounds[of s] by (auto simp only: dims_ok_def intro!: u32_blocks split: if_splits)

lemma row_major_walk:
  assumes dims: "dims_ok ew eh pitch"
  shows "sw64kb_copy_row_major to_tiled dst src ew eh pitch (bytes_of s) tb
           (sw64kb_pattern env mode (log2_of s)) (log2_of s)
       = walk to_tiled (bytes_of s) tb src (addr64 env mode s ew pitch) (lin2 (bytes_of s) ew)
           (row_coords ew eh) dst"
  unfolding sw64kb_copy_row_major_def Let_def case_prod_unfold sizes64[OF dims] row_coords_def
proof (intro walk_nested walk_loop conjI)
  fix y x assume y: "y \<in> set [0..<eh]" and x: "x \<in> set [0..<ew]"
  have "y div bh64 s * ceil_div (padded ew pitch) (bw64 s) + x div bw64 s < 2 ^ 48"
    using x y bw64_bounds[of s] by (intro block_index_small[OF dims, where bh = "bh64 s"]) (simp_all add: div_less_ceil_div)
  moreover have "off64 env mode s x y < 2 ^ 16" using sw64kb.off_less[of env mode s x y] by simp
  ultimately have "u64 (push_bit 16 (y div bh64 s * ceil_div (padded ew pitch) (bw64 s) + x div bw64 s)) OR
      off64 env mode s x y = addr64 env mode s ew pitch (x, y)"
    unfolding tiled_addr_def prod.case by (rule block_addr)
  moreover have "map f [0..<ew] ! x = f x" "map f [0..<eh] ! y = f y" for f :: "nat \<Rightarrow> nat"
    using x y by simp_all
  ultimately show "u64 (push_bit 16 (y div bh64 s * ceil_div (padded ew pitch) (bw64 s) + x div bw64 s)) OR
      (map (coord_offset (map fst (sw64kb_pattern env mode (log2_of s))) (log2_of s) 16) [0..<ew] ! x XOR
       map (coord_offset (map snd (sw64kb_pattern env mode (log2_of s))) (log2_of s) 16) [0..<eh] ! y)
      = addr64 env mode s ew pitch (x, y)"
    by (simp only:)
  show "(y * ew + x) * bytes_of s = lin2 (bytes_of s) ew (x, y)" by (simp add: lin2_def)
qed

lemma block_row_eq:
  assumes dims: "dims_ok ew eh pitch" and b: "block_y < ceil_div eh (bh64 s)" "block_x < ceil_div ew (bw64 s)"
    and iy: "iy < min (bh64 s) (eh - block_y * bh64 s)"
    and bb: "bb = (block_y * ceil_div (padded ew pitch) (bw64 s) + block_x) * 65536"
    and full: "full \<Longrightarrow> bb + 65536 \<le> tb"
  shows "copy_block_row to_tiled paired full tb (bytes_of s) src
           (\<lambda>ix. bb + (map (coord_offset (map fst (sw64kb_pattern env mode (log2_of s))) (log2_of s) 16) [0..<ew]
                        ! (block_x * bw64 s + ix) XOR
                       map (coord_offset (map snd (sw64kb_pattern env mode (log2_of s))) (log2_of s) 16) [0..<eh]
                        ! (block_y * bh64 s + iy)))
           (((block_y * bh64 s + iy) * ew + block_x * bw64 s) * bytes_of s)
           (min (bw64 s) (ew - block_x * bw64 s)) 0 dst
       = walk to_tiled (bytes_of s) tb src (addr64 env mode s ew pitch) (lin2 (bytes_of s) ew)
           (map (\<lambda>ix. (block_x * bw64 s + ix, block_y * bh64 s + iy)) [0..<min (bw64 s) (ew - block_x * bw64 s)]) dst"
proof -
  let ?cols = "min (bw64 s) (ew - block_x * bw64 s)"
  let ?y = "block_y * bh64 s + iy"
  let ?at = "\<lambda>ix. bb + (map (coord_offset (map fst (sw64kb_pattern env mode (log2_of s))) (log2_of s) 16) [0..<ew]
                        ! (block_x * bw64 s + ix) XOR
                       map (coord_offset (map snd (sw64kb_pattern env mode (log2_of s))) (log2_of s) 16) [0..<eh] ! ?y)"
  have at: "?at ix = bb + off64 env mode s (block_x * bw64 s + ix) ?y" if "ix < ?cols" for ix
  proof -
    have "block_x * bw64 s + ix < ew" "?y < eh" using that iy by linarith+
    then show ?thesis by simp
  qed
  have pair: "?at (i + 1) = ?at i + bytes_of s"
    if "bytes_of s \<le> 8" "even i" "i + 1 < ?cols" for i
  proof -
    have "log2_of s < 4" using that(1) by (cases s) simp_all
    then have "pairs_adjacent (sw64kb_pattern env mode (log2_of s)) (log2_of s)" by (rule pattern_pairs)
    moreover have "even (block_x * bw64 s + i)" using bw64_bounds(5)[of s] that(2) by simp
    ultimately have "off64 env mode s (block_x * bw64 s + i + 1) ?y
        = off64 env mode s (block_x * bw64 s + i) ?y + bytes_of s"
      using log2_of_less[of s] by (intro pat_off_pair) simp_all
    moreover have "i < ?cols" using that(3) by simp
    ultimately show ?thesis unfolding at[OF that(3)] at[OF \<open>i < ?cols\<close>] by (simp only: add.assoc)
  qed
  have fits: "?at i + bytes_of s \<le> tb" if "full" "i < ?cols" for i
    unfolding at[OF that(2)] using full[OF that(1)]
      sw64kb.off_end[of env mode s "block_x * bw64 s + i" ?y] by linarith
  have "copy_block_row to_tiled paired full tb (bytes_of s) src ?at ((?y * ew + block_x * bw64 s) * bytes_of s) ?cols 0 dst
      = walk to_tiled (bytes_of s) tb src ?at (\<lambda>i. (?y * ew + block_x * bw64 s) * bytes_of s + i * bytes_of s) [0..<?cols] dst"
    using pair fits by (intro copy_block_row_walk) auto
  also have "\<dots> = walk to_tiled (bytes_of s) tb src (addr64 env mode s ew pitch) (lin2 (bytes_of s) ew)
      (map (\<lambda>ix. (block_x * bw64 s + ix, ?y)) [0..<?cols]) dst"
    unfolding walk_def foldM_map
  proof (rule foldM_cong, simp, simp)
    fix ix d assume "ix \<in> set [0..<?cols]"
    then have ix: "ix < ?cols" by simp
    have "addr64 env mode s ew pitch (block_x * bw64 s + ix, ?y) = ?at ix"
      unfolding at[OF ix] using ix iy bw64_bounds[of s] by (simp add: tiled_addr_def bb block_split)
    moreover have "lin2 (bytes_of s) ew (block_x * bw64 s + ix, ?y)
        = (?y * ew + block_x * bw64 s) * bytes_of s + ix * bytes_of s"
      by (simp add: lin2_def algebra_simps)
    ultimately show "move_elem to_tiled (bytes_of s) tb src (?at ix)
        ((?y * ew + block_x * bw64 s) * bytes_of s + ix * bytes_of s) d
      = move_elem to_tiled (bytes_of s) tb src (addr64 env mode s ew pitch (block_x * bw64 s + ix, ?y))
          (lin2 (bytes_of s) ew (block_x * bw64 s + ix, ?y)) d"
      by (simp only:)
  qed
  finally show ?thesis .
qed

lemma block_major_walk:
  assumes dims: "dims_ok ew eh pitch"
  shows "sw64kb_copy_block_major to_tiled env dst src ew eh pitch (bytes_of s) tb
           (sw64kb_pattern env mode (log2_of s)) (log2_of s)
       = walk to_tiled (bytes_of s) tb src (addr64 env mode s ew pitch) (lin2 (bytes_of s) ew)
           (block_coords (bw64 s) (bh64 s) ew eh) dst"
  unfolding sw64kb_copy_block_major_def Let_def case_prod_unfold sizes64[OF dims] block_coords_def
proof (intro walk_nested)
  fix block_y block_x iy d
  assume b: "block_y \<in> set [0..<ceil_div eh (bh64 s)]" "block_x \<in> set [0..<ceil_div ew (bw64 s)]"
    and iy: "iy \<in> set [0..<min (bh64 s) (eh - block_y * bh64 s)]"
  let ?b = "block_y * ceil_div (padded ew pitch) (bw64 s) + block_x"
  have base: "u64 (push_bit 16 ?b) = ?b * 65536"
    using b bw64_bounds[of s] by (intro block_base_exact block_index_small[OF dims, where bh = "bh64 s"]) simp_all
  show "copy_block_row to_tiled (paired_copy env)
        (u64 (push_bit 16 ?b) \<le> tb \<and> 65536 \<le> tb - u64 (push_bit 16 ?b)) tb (bytes_of s) src
        (\<lambda>ix. u64 (push_bit 16 ?b) +
          (map (coord_offset (map fst (sw64kb_pattern env mode (log2_of s))) (log2_of s) 16) [0..<ew]
             ! (block_x * bw64 s + ix) XOR
           map (coord_offset (map snd (sw64kb_pattern env mode (log2_of s))) (log2_of s) 16) [0..<eh]
             ! (block_y * bh64 s + iy)))
        (((block_y * bh64 s + iy) * ew + block_x * bw64 s) * bytes_of s)
        (min (bw64 s) (ew - block_x * bw64 s)) 0 d
      = walk to_tiled (bytes_of s) tb src (addr64 env mode s ew pitch) (lin2 (bytes_of s) ew)
          (map (\<lambda>x. (block_x * bw64 s + x, block_y * bh64 s + iy)) [0..<min (bw64 s) (ew - block_x * bw64 s)]) d"
    unfolding base using b iy by (intro block_row_eq[OF dims]) auto
qed

subsection \<open>The order of the elements does not matter\<close>

lemma walk_order:
  assumes cs: "distinct cs" "distinct cs'" "set cs = set cs'"
    and t: "inj_on t (set cs)" "\<And>c. c \<in> set cs \<Longrightarrow> n dvd t c"
    and l: "tiled_ok n len l cs"
    and tb: "if to_tiled then tb \<le> length dst \<and> len \<le> length src else tb \<le> length src \<and> len \<le> length dst"
  shows "walk to_tiled n tb src t l cs dst = walk to_tiled n tb src t l cs' dst"
proof (cases to_tiled)
  case True
  let ?ms = "\<lambda>cs. map (\<lambda>c. (t c, cell n src (l c))) (filter (\<lambda>c. t c + n \<le> tb) cs)"
  have lb: "l c + n \<le> length src" if "c \<in> set cs" for c
    using tiled_okD[OF l that] tb True by simp
  have inj: "inj_on t (set (filter (\<lambda>c. t c + n \<le> tb) cs'))" "inj_on t (set (filter (\<lambda>c. t c + n \<le> tb) cs))"
    using t(1) cs(3) by (auto intro: inj_on_subset)
  have "cells_ok n (length dst) (?ms cs)"
    unfolding cells_ok_def
  proof (intro conjI)
    show "distinct (map fst (?ms cs))" using cs(1) inj(2) by (intro distinct_map_fst) simp_all
    show "\<forall>(d, ys)\<in>set (?ms cs). length ys = n \<and> d + n \<le> length dst \<and> n dvd d"
      using t(2) lb tb True by (auto simp: length_cell)
  qed
  moreover have "set (?ms cs) = set (?ms cs')" using cs(3) by simp
  moreover have "distinct (map fst (?ms cs'))" using cs(2) inj(1) by (intro distinct_map_fst) simp_all
  ultimately have "write_cells (?ms cs) dst = write_cells (?ms cs') dst" by (rule write_cells_order)
  with lb cs(3) show ?thesis
    using walk_tile_cells[of cs l n src tb t dst] walk_tile_cells[of cs' l n src tb t dst] True by simp
next
  case False
  let ?ms = "map (\<lambda>c. (l c, source_cell n tb src (t c)))"
  have "cells_ok n (length dst) (?ms cs)"
    unfolding cells_ok_def
  proof (intro conjI)
    show "distinct (map fst (?ms cs))" using cs(1) l by (intro distinct_map_fst) (simp_all add: tiled_ok_def)
    show "\<forall>(d, ys)\<in>set (?ms cs). length ys = n \<and> d + n \<le> length dst \<and> n dvd d"
      using l tb False by (fastforce simp: tiled_ok_def source_cell_def length_cell)
  qed
  moreover have "set (?ms cs) = set (?ms cs')" using cs(3) by simp
  moreover have "distinct (map fst (?ms cs'))"
    using cs(2,3) l by (intro distinct_map_fst) (simp_all add: tiled_ok_def)
  ultimately have "write_cells (?ms cs) dst = write_cells (?ms cs') dst" by (rule write_cells_order)
  with False tb show ?thesis by (simp add: walk_detile_cells)
qed

subsection \<open>One layout for every tiled mode\<close>

text \<open>The dispatch on the mode that \<open>tile_surface\<close> and \<open>detile_surface\<close> share.\<close>

definition surface_copy ::
    "bool \<Rightarrow> tile_env \<Rightarrow> byte list \<Rightarrow> byte list \<Rightarrow> nat \<Rightarrow> nat \<Rightarrow> nat \<Rightarrow> nat \<Rightarrow> nat \<Rightarrow> nat \<Rightarrow> byte list option" where
  "surface_copy to_tiled env dst src w h mode pitch bpe tb =
     (if mode = Sw256BS then sw256_copy to_tiled dst src w h pitch bpe tb
      else if is_64kb_mode mode then sw64kb_copy to_tiled env dst src w h pitch bpe tb mode
      else sw4kb_copy to_tiled dst src w h pitch bpe tb)"

definition layout_addr :: "tile_env \<Rightarrow> nat \<Rightarrow> elem_size \<Rightarrow> nat \<Rightarrow> nat \<Rightarrow> nat \<times> nat \<Rightarrow> nat" where
  "layout_addr env mode s w pitch =
     (if mode = Sw256BS then tiled_addr (2 ^ bx256 s) (2 ^ by256 s) 256 (off256 s) (ceil_div (padded w pitch) (2 ^ bx256 s))
      else if is_64kb_mode mode then addr64 env mode s w pitch
      else tiled_addr (2 ^ bx4k s) (2 ^ by4k s) 4096 (off4k s) (ceil_div (padded w pitch) (2 ^ bx4k s)))"

definition layout_coords :: "bool \<Rightarrow> tile_env \<Rightarrow> nat \<Rightarrow> elem_size \<Rightarrow> nat \<Rightarrow> nat \<Rightarrow> (nat \<times> nat) list" where
  "layout_coords to_tiled env mode s w h =
     (if mode = Sw256BS then block_coords (2 ^ bx256 s) (2 ^ by256 s) w h
      else if is_64kb_mode mode
      then (if \<not> to_tiled \<and> \<not> row_major_detile env \<or> to_tiled \<and> \<not> row_major_tile env
            then block_coords (bw64 s) (bh64 s) w h else row_coords w h)
      else block_coords (2 ^ bx4k s) (2 ^ by4k s) w h)"

lemma small_dims:
  "(2::nat) ^ bx256 s \<le> 65536" "(2::nat) ^ by256 s \<le> 65536" "(2::nat) ^ bx4k s \<le> 65536" "(2::nat) ^ by4k s \<le> 65536"
  by (cases s; simp)+

lemma surface_copy_walk:
  assumes "tile_mode_is_tiled mode" and dims: "dims_ok w h pitch"
  shows "surface_copy to_tiled env dst src w h mode pitch (bytes_of s) tb
       = walk to_tiled (bytes_of s) tb src (layout_addr env mode s w pitch) (lin2 (bytes_of s) w)
           (layout_coords to_tiled env mode s w h) dst"
proof -
  have el: "log2_of s \<noteq> UINT32_MAX" using log2_of_less[of s] by simp
  show ?thesis
    unfolding surface_copy_def layout_addr_def layout_coords_def sw256_copy_def sw4kb_copy_def
      lookup_copy_walk[OF sw256_lookup_ok zero_less_power zero_less_power small_dims(1,2) dims, OF zero_less_numeral zero_less_numeral]
      lookup_copy_walk[OF sw4kb_lookup_ok zero_less_power zero_less_power small_dims(3,4) dims, OF zero_less_numeral zero_less_numeral]
      sw64kb_copy_def sw64kb_elem_log2_of Let_def row_major_walk[OF dims] block_major_walk[OF dims]
    using el by simp
qed

lemma layout_coords_spec:
  "distinct (layout_coords to_tiled env mode s w h)" "set (layout_coords to_tiled env mode s w h) = surface_of w h"
  using bw64_bounds[of s] row_coords_spec[of w h]
  by (simp_all add: layout_coords_def block_coords_distinct block_coords_set)

lemma u64_blocks:
  assumes "dims_ok w h pitch" and "0 < tw" "0 < th" "block \<le> 65536"
  shows "u64 (ceil_div (padded w pitch) tw * ceil_div h th * block)
       = ceil_div h th * ceil_div (padded w pitch) tw * block"
proof -
  have "ceil_div (padded w pitch) tw * ceil_div h th * block \<le> 65536 * 65536 * 65536"
    using assms order_trans[OF ceil_div_le[OF assms(2)]] order_trans[OF ceil_div_le[OF assms(3)]]
    by (intro mult_le_mono) (auto simp: dims_ok_def)
  then show ?thesis by (simp add: u64_id mult.commute)
qed

lemma padded_covers: "dims_ok w h pitch \<Longrightarrow> 0 < tw \<Longrightarrow> w \<le> ceil_div (padded w pitch) tw * tw"
  using ceil_div_covers[of tw "padded w pitch"] by (auto simp: dims_ok_def)

lemma sizes_small:
  assumes "dims_ok w h pitch" and "0 < tw" "0 < th" "tw \<le> 65536" "th \<le> 65536"
  shows "u32 (padded w pitch + tw - 1) div tw = ceil_div (padded w pitch) tw"
    "u32 (h + th - 1) div th = ceil_div h th"
  using assms by (auto simp only: dims_ok_def intro!: u32_blocks split: if_splits)

lemma layout_ok:
  assumes mode: "tile_mode_is_tiled mode" and dims: "dims_ok w h pitch"
    and cs: "distinct cs" "set cs \<subseteq> surface_of w h"
  shows "tiled_ok (bytes_of s) (tiled_surface_bytes w h mode pitch (bytes_of s)) (layout_addr env mode s w pitch) cs"
proof -
  have el: "log2_of s \<noteq> UINT32_MAX" using log2_of_less[of s] by simp
  note sz256 = sizes_small[OF dims zero_less_power zero_less_power small_dims(1,2), OF zero_less_numeral zero_less_numeral]
  note sz4k = sizes_small[OF dims zero_less_power zero_less_power small_dims(3,4), OF zero_less_numeral zero_less_numeral]
  note sz64 = sizes_small[OF dims bw64_bounds(1-4)]
  consider "mode = Sw256BS" | "mode \<noteq> Sw256BS" "is_64kb_mode mode" | "mode \<noteq> Sw256BS" "\<not> is_64kb_mode mode" by blast
  then show ?thesis
  proof cases
    case 1
    then have "tiled_surface_bytes w h mode pitch (bytes_of s)
        = ceil_div h (2 ^ by256 s) * ceil_div (padded w pitch) (2 ^ bx256 s) * 256"
      using mode unfolding tiled_surface_bytes_def sw256_tiled_bytes_def sw256_dims_of prod.case Let_def sz256
      using u64_blocks[OF dims, of "2 ^ bx256 s" "2 ^ by256 s" 256] by simp
    moreover have "layout_addr env mode s w pitch = tiled_addr (2 ^ bx256 s) (2 ^ by256 s) 256 (off256 s) (ceil_div (padded w pitch) (2 ^ bx256 s))"
      using 1 by (simp add: layout_addr_def)
    ultimately show ?thesis
      using bw64_bounds[of s] by (simp only:) (rule sw256.addr_ok[OF cs padded_covers[OF dims] order_refl], simp)
  next
    case 2
    then have "tiled_surface_bytes w h mode pitch (bytes_of s)
        = ceil_div h (bh64 s) * ceil_div (padded w pitch) (bw64 s) * 65536"
      using mode el unfolding tiled_surface_bytes_def sw64kb_tiled_bytes_def sw64kb_elem_log2_of case_prod_unfold Let_def sz64
      using u64_blocks[OF dims bw64_bounds(1,2), of 65536] by simp
    moreover have "layout_addr env mode s w pitch = addr64 env mode s w pitch"
      using 2 by (simp add: layout_addr_def)
    ultimately show ?thesis
      using bw64_bounds[of s] by (simp only:) (rule sw64kb.addr_ok[OF cs padded_covers[OF dims] order_refl], simp)
  next
    case 3
    then have "tiled_surface_bytes w h mode pitch (bytes_of s)
        = ceil_div h (2 ^ by4k s) * ceil_div (padded w pitch) (2 ^ bx4k s) * 4096"
      using mode unfolding tiled_surface_bytes_def sw4kb_tiled_bytes_def sw4kb_dims_of prod.case Let_def sz4k
      using u64_blocks[OF dims, of "2 ^ bx4k s" "2 ^ by4k s" 4096] by simp
    moreover have "layout_addr env mode s w pitch = tiled_addr (2 ^ bx4k s) (2 ^ by4k s) 4096 (off4k s) (ceil_div (padded w pitch) (2 ^ bx4k s))"
      using 3 by (simp add: layout_addr_def)
    ultimately show ?thesis
      using bw64_bounds[of s] by (simp only:) (rule sw4kb.addr_ok[OF cs padded_covers[OF dims] order_refl], simp)
  qed
qed

subsection \<open>Surfaces\<close>

lemma detile_surface_copy:
  "tile_mode_is_tiled mode \<Longrightarrow> detile_surface env dst src w h mode pitch bpe
   = surface_copy False env dst src w h mode pitch bpe (tiled_surface_bytes w h mode pitch bpe)"
  by (simp add: detile_surface_def surface_copy_def tiled_surface_bytes_def)

lemma tile_surface_copy:
  "tile_mode_is_tiled mode \<Longrightarrow> tile_surface env dst src w h mode pitch bpe
   = (let tb = tiled_surface_bytes w h mode pitch bpe; zf = zero_from w h mode pitch bpe tb
      in Option.bind (write_at dst zf (replicate (tb - zf) 0))
           (\<lambda>dst0. surface_copy True env dst0 src w h mode pitch bpe tb))"
  by (simp add: tile_surface_def surface_copy_def Let_def)

lemma zero_from_le: "zero_from w h mode pitch bpe tb \<le> tb"
  by (auto simp: zero_from_def Let_def split: prod.split)

lemma tile_surface_cells:
  assumes mode: "tile_mode_is_tiled mode" and dims: "dims_ok w h pitch"
    and src: "length src = w * h * bytes_of s"
    and dst: "length dst = tiled_surface_bytes w h mode pitch (bytes_of s)"
  shows "\<exists>dst0 T. write_at dst (zero_from w h mode pitch (bytes_of s) (length dst))
            (replicate (length dst - zero_from w h mode pitch (bytes_of s) (length dst)) 0) = Some dst0 \<and>
          tile_surface env dst src w h mode pitch (bytes_of s) = Some T \<and> length T = length dst \<and>
          walk True (bytes_of s) (length dst) src (layout_addr env mode s w pitch) (lin2 (bytes_of s) w)
            (layout_coords True env mode s w h) dst0 = Some T \<and>
          cells_written (bytes_of s) (map (\<lambda>c. (layout_addr env mode s w pitch c,
              cell (bytes_of s) src (lin2 (bytes_of s) w c))) (layout_coords True env mode s w h)) dst0 T"
proof -
  let ?zf = "zero_from w h mode pitch (bytes_of s) (length dst)"
  let ?cs = "layout_coords True env mode s w h"
  obtain dst0 where d: "write_at dst ?zf (replicate (length dst - ?zf) 0) = Some dst0"
    using write_at_defined[of ?zf "replicate (length dst - ?zf) 0" dst] zero_from_le[of w h mode pitch "bytes_of s" "length dst"]
    by auto
  have len: "length dst0 = length dst" by (rule write_at_length[OF d])
  have cs: "distinct ?cs" "set ?cs \<subseteq> surface_of w h" by (simp_all add: layout_coords_spec)
  have t: "tiled_ok (bytes_of s) (length dst) (layout_addr env mode s w pitch) ?cs"
    unfolding dst by (rule layout_ok[OF mode dims cs])
  have l: "lin2 (bytes_of s) w c + bytes_of s \<le> length src" if "c \<in> set ?cs" for c
    using tiled_okD[OF lin2_ok[OF cs] that] src by simp
  from walk_tile[OF t, of dst0 "lin2 (bytes_of s) w" src] l len obtain T where
    T: "walk True (bytes_of s) (length dst) src (layout_addr env mode s w pitch) (lin2 (bytes_of s) w) ?cs dst0 = Some T"
    and w: "cells_written (bytes_of s) (map (\<lambda>c. (layout_addr env mode s w pitch c,
              cell (bytes_of s) src (lin2 (bytes_of s) w c))) ?cs) dst0 T" by auto
  have "tile_surface env dst src w h mode pitch (bytes_of s) = Some T"
    unfolding tile_surface_copy[OF mode] Let_def dst[symmetric] d surface_copy_walk[OF mode dims]
    using T by simp
  moreover have "length T = length dst" using w len by (simp add: cells_written_def)
  ultimately show ?thesis using d T w by blast
qed

lemma tile_detile:
  assumes mode: "tile_mode_is_tiled mode" and dims: "dims_ok w h pitch"
    and src: "length src = w * h * bytes_of s" and out: "length out = w * h * bytes_of s"
    and dst: "length dst = tiled_surface_bytes w h mode pitch (bytes_of s)"
  shows "\<exists>T. tile_surface env dst src w h mode pitch (bytes_of s) = Some T \<and> length T = length dst \<and>
             detile_surface env out T w h mode pitch (bytes_of s) = Some src"
proof -
  let ?n = "bytes_of s" and ?t = "layout_addr env mode s w pitch" and ?l = "lin2 (bytes_of s) w"
  let ?cs = "layout_coords True env mode s w h" and ?cs' = "layout_coords False env mode s w h"
  from tile_surface_cells[OF mode dims src dst, of env] obtain dst0 T where
    d: "write_at dst (zero_from w h mode pitch ?n (length dst))
            (replicate (length dst - zero_from w h mode pitch ?n (length dst)) 0) = Some dst0"
    and T: "tile_surface env dst src w h mode pitch ?n = Some T" "length T = length dst"
    and W: "walk True ?n (length dst) src ?t ?l ?cs dst0 = Some T" by blast
  have cs: "distinct ?cs" "set ?cs \<subseteq> surface_of w h" "set ?cs = set ?cs'" "distinct ?cs'" "surface_of w h \<subseteq> set ?cs"
    by (simp_all add: layout_coords_spec)
  have t: "tiled_ok ?n (length dst) ?t ?cs" unfolding dst by (rule layout_ok[OF mode dims cs(1,2)])
  have l: "tiled_ok ?n (w * h * ?n) ?l ?cs" by (rule lin2_ok[OF cs(1,2)]) simp
  have "covers ?n (w * h * ?n) ?l ?cs" by (rule lin2_covers[OF cs(5)]) simp
  from walk_roundtrip[OF t l this src write_at_length[OF d] out] W
  have "walk False ?n (length dst) T ?t ?l ?cs out = Some src" by auto
  moreover have "walk False ?n (length dst) T ?t ?l ?cs out = walk False ?n (length dst) T ?t ?l ?cs' out"
    using t T(2) out by (intro walk_order[OF cs(1,4,3) _ _ l]) (simp_all add: tiled_ok_def)
  moreover have "detile_surface env out T w h mode pitch ?n = walk False ?n (length dst) T ?t ?l ?cs' out"
    unfolding detile_surface_copy[OF mode] surface_copy_walk[OF mode dims] dst[symmetric] ..
  ultimately show ?thesis using T by auto
qed

subsection \<open>Stale bytes never survive tiling\<close>

lemma ceil_div_exact: "0 < d \<Longrightarrow> d dvd n \<Longrightarrow> ceil_div n d = n div d"
proof -
  assume d: "0 < d" and "d dvd n"
  then obtain q where n: "n = d * q" by blast
  have "n + d - 1 = d * q + (d - 1)" using d n by simp
  moreover have "(d * q + (d - 1)) div d = q" using d by (intro div_nat_eqI) simp_all
  ultimately have "(n + d - 1) div d = q" by (simp only:)
  with d n show ?thesis by (simp add: ceil_div_def)
qed

lemma zero_from_covered:
  assumes i: "i < zero_from w h mode pitch (bytes_of s) tb"
  shows "\<exists>c\<in>surface_of w h. layout_addr env mode s w pitch c \<le> i \<and> i < layout_addr env mode s w pitch c + bytes_of s"
proof -
  let ?bw = "bw64 s" and ?bh = "bh64 s" and ?b = "i div 65536"
  have z: "is_64kb_mode mode" "pitch = 0" "w mod ?bw = 0" "i < u64 (h div ?bh * (w div ?bw) * 65536)"
    using i log2_of_less[of s] by (auto simp: zero_from_def Let_def case_prod_unfold split: if_splits)
  have "i < h div ?bh * (w div ?bw) * 65536" using z(4) u64_le less_le_trans by blast
  then have b: "?b < h div ?bh * (w div ?bw)" by (simp add: less_mult_imp_div_less)
  then have pos: "0 < w div ?bw" by (cases "w div ?bw = 0") auto
  have bx: "?b mod (w div ?bw) < w div ?bw" and by': "?b div (w div ?bw) < h div ?bh"
    using b pos by (simp_all add: less_mult_imp_div_less)
  have "i mod 65536 < 65536" by simp
  from sw64kb.off_surj[OF this, where s = s and env = env and mode = mode
      and bx = "?b mod (w div ?bw)" and by' = "?b div (w div ?bw)"]
  obtain x y where xy: "x div ?bw = ?b mod (w div ?bw)" "y div ?bh = ?b div (w div ?bw)"
    and off: "off64 env mode s x y \<le> i mod 65536" "i mod 65536 < off64 env mode s x y + bytes_of s" by blast
  have "w = w div ?bw * ?bw" using z(3) by auto
  moreover have "x < w div ?bw * ?bw" using xy(1) bx bw64_bounds(1)[of s] by (metis div_less_iff_less_mult)
  ultimately have x: "x < w" by simp
  have "y < h div ?bh * ?bh" using xy(2) by' bw64_bounds(2)[of s] by (metis div_less_iff_less_mult)
  then have y: "y < h" using div_times_less_eq_dividend[of h ?bh] by linarith
  have "ceil_div (padded w pitch) ?bw = w div ?bw"
    using z(2,3) bw64_bounds(1)[of s] ceil_div_exact[of ?bw w] by (simp add: dvd_eq_mod_eq_0)
  moreover have "mode \<noteq> Sw256BS" using z(1) by (auto simp: is_64kb_mode_def)
  ultimately have "layout_addr env mode s w pitch (x, y) = i div 65536 * 65536 + off64 env mode s x y"
    using z(1) by (simp only: layout_addr_def tiled_addr_def xy prod.case if_False if_True div_mult_mod_eq)
  moreover have "i = i div 65536 * 65536 + i mod 65536" by simp
  ultimately have "layout_addr env mode s w pitch (x, y) \<le> i \<and> i < layout_addr env mode s w pitch (x, y) + bytes_of s"
    using off by linarith
  with x y show ?thesis by (intro bexI[of _ "(x, y)"]) (simp_all add: surface_of_def)
qed

lemma tile_surface_fresh:
  assumes mode: "tile_mode_is_tiled mode" and dims: "dims_ok w h pitch"
    and src: "length src = w * h * bytes_of s"
    and dst: "length dst = tiled_surface_bytes w h mode pitch (bytes_of s)" and dst': "length dst' = length dst"
  shows "tile_surface env dst src w h mode pitch (bytes_of s) = tile_surface env dst' src w h mode pitch (bytes_of s)"
proof -
  let ?n = "bytes_of s" and ?zf = "zero_from w h mode pitch (bytes_of s) (length dst)"
  let ?ms = "map (\<lambda>c. (layout_addr env mode s w pitch c, cell ?n src (lin2 ?n w c))) (layout_coords True env mode s w h)"
  from tile_surface_cells[OF mode dims src dst, of env] obtain d0 T where
    d0: "write_at dst ?zf (replicate (length dst - ?zf) 0) = Some d0"
    and T: "tile_surface env dst src w h mode pitch ?n = Some T" and w: "cells_written ?n ?ms d0 T" by blast
  from tile_surface_cells[OF mode dims src, of dst' env] dst dst' obtain d0' T' where
    d0': "write_at dst' ?zf (replicate (length dst' - ?zf) 0) = Some d0'"
    and T': "tile_surface env dst' src w h mode pitch ?n = Some T'" and w': "cells_written ?n ?ms d0' T'" by auto
  have len: "length d0 = length dst" "length d0' = length dst"
    using write_at_length[OF d0] write_at_length[OF d0'] dst' by simp_all
  have "T = T'"
  proof (rule nth_equalityI)
    show "length T = length T'" using w w' len by (simp add: cells_written_def)
  next
    fix i assume "i < length T"
    then have i: "i < length dst" using w len by (simp add: cells_written_def)
    show "T ! i = T' ! i"
    proof (cases "\<exists>(d, ys)\<in>set ?ms. d \<le> i \<and> i < d + ?n")
      case True
      then obtain d ys where m: "(d, ys) \<in> set ?ms" and k: "d \<le> i" "i - d < ?n" by force
      have "T ! (d + (i - d)) = ys ! (i - d)" "T' ! (d + (i - d)) = ys ! (i - d)"
        using w w' m k(2) unfolding cells_written_def by blast+
      with k(1) show ?thesis by simp
    next
      case False
      have "\<not> i < ?zf"
      proof
        assume "i < ?zf"
        then obtain c where "c \<in> surface_of w h" and c: "layout_addr env mode s w pitch c \<le> i"
          "i < layout_addr env mode s w pitch c + ?n"
          using zero_from_covered[of i w h mode pitch s "length dst" env] by blast
        then have "c \<in> set (layout_coords True env mode s w h)" by (simp add: layout_coords_spec)
        then have "(layout_addr env mode s w pitch c, cell ?n src (lin2 ?n w c)) \<in> set ?ms" by simp
        with c False show False by blast
      qed
      then have "d0 ! i = d0' ! i"
        using write_at_nth[OF d0, of i] write_at_nth[OF d0', of i] i dst' by simp
      moreover have "T ! i = d0 ! i" "T' ! i = d0' ! i"
        using w w' False i len unfolding cells_written_def by auto
      ultimately show ?thesis by simp
    qed
  qed
  with T T' show ?thesis by simp
qed

subsection \<open>Properties\<close>

lemma elem_size_cases:
  assumes "bpe \<in> {1, 2, 4, 8, 16}"
  obtains s where "bpe = bytes_of s"
  using assms that[of B1] that[of B2] that[of B4] that[of B8] that[of B16] by auto

text \<open>
  C7: for every tiled mode, element size and switch setting, \<open>tile_surface\<close> and
  \<open>detile_surface\<close> access only their buffers and are inverse: detiling what was tiled gives the
  linear surface back, byte for byte.
\<close>

theorem tile_detile_roundtrip:
  assumes "tile_mode_is_tiled mode" and "bpe \<in> {1, 2, 4, 8, 16}" and "dims_ok w h pitch"
    and "length src = w * h * bpe" and "length out = w * h * bpe"
    and "length dst = tiled_surface_bytes w h mode pitch bpe"
  shows "\<exists>T. tile_surface env dst src w h mode pitch bpe = Some T \<and> length T = length dst \<and>
             detile_surface env out T w h mode pitch bpe = Some src"
proof -
  obtain s where s: "bpe = bytes_of s" using assms(2) by (rule elem_size_cases)
  show ?thesis
    unfolding s by (rule tile_detile[OF assms(1,3)]) (use assms(4-6) in \<open>simp_all add: s\<close>)
qed

definition default_env :: tile_env where
  "default_env = \<lparr>rx_pipes_env = None, row_major_detile = False, row_major_tile = False, paired_copy = True\<rparr>"

lemma small_tiled_bytes: "tiled_surface_bytes 2 2 Sw4KbS 0 4 = 4096"
  by (simp add: tiled_surface_bytes_def tile_mode_is_tiled_def is_64kb_mode_def sw4kb_tiled_bytes_def
      sw4kb_dims_def sw4kb_bits.simps u32_def u64_def)

theorem tile_detile_roundtrip_witness:
  "\<exists>T. tile_surface default_env (replicate 4096 7) (map word_of_nat [0..<16]) 2 2 Sw4KbS 0 4 = Some T \<and>
       length T = 4096 \<and>
       detile_surface default_env (replicate 16 0) T 2 2 Sw4KbS 0 4 = Some (map word_of_nat [0..<16])"
  using tile_detile_roundtrip[of Sw4KbS 4 2 2 0 "map word_of_nat [0..<16]" "replicate 16 0" "replicate 4096 7" default_env]
    small_tiled_bytes
  by (simp add: tile_mode_is_tiled_def dims_ok_def)

text \<open>
  C8: the bytes of a tiled surface depend on the linear source alone. \<open>tile_surface\<close> clears only
  the bytes from \<open>zero_from\<close> on; every byte before it is overwritten by the copy, so nothing of
  the old buffer survives, in the padding or elsewhere.
\<close>

theorem tile_surface_ignores_old_bytes:
  assumes "tile_mode_is_tiled mode" and "bpe \<in> {1, 2, 4, 8, 16}" and "dims_ok w h pitch"
    and "length src = w * h * bpe" and "length dst = tiled_surface_bytes w h mode pitch bpe"
    and "length dst' = length dst"
  shows "tile_surface env dst src w h mode pitch bpe = tile_surface env dst' src w h mode pitch bpe"
proof -
  obtain s where s: "bpe = bytes_of s" using assms(2) by (rule elem_size_cases)
  show ?thesis
    unfolding s by (rule tile_surface_fresh[OF assms(1,3)]) (use assms(4-6) in \<open>simp_all add: s\<close>)
qed

theorem tile_surface_ignores_old_bytes_witness:
  "tile_surface default_env (replicate 4096 7) (replicate 16 1) 2 2 Sw4KbS 0 4
   = tile_surface default_env (replicate 4096 0) (replicate 16 1) 2 2 Sw4KbS 0 4"
  by (rule tile_surface_ignores_old_bytes)
     (simp_all add: tile_mode_is_tiled_def dims_ok_def small_tiled_bytes)

text \<open>
  C9: the cache-friendly walk of the 64 KiB copy, block by block and two elements at a time,
  moves the same bytes as the plain row-major walk, in both directions and for every bound
  on the tiled side, also where that bound ends between the two elements of a pair.
\<close>

theorem block_walk_equals_row_walk:
  assumes "bpe \<in> {1, 2, 4, 8, 16}" and "dims_ok w h pitch"
    and "rx_pipes_env env = rx_pipes_env env'"
    and "if to_tiled then tb \<le> length dst \<and> w * h * bpe \<le> length src
         else tb \<le> length src \<and> w * h * bpe \<le> length dst"
  shows "sw64kb_copy to_tiled env dst src w h pitch bpe tb mode
       = sw64kb_copy to_tiled env' dst src w h pitch bpe tb mode"
proof -
  obtain s where s: "bpe = bytes_of s" using assms(1) by (rule elem_size_cases)
  have el: "log2_of s \<noteq> UINT32_MAX" using log2_of_less[of s] by simp
  have pat: "sw64kb_pattern env' mode el = sw64kb_pattern env mode el" for el
    using assms(3) by (simp add: sw64kb_pattern_def sw64kb_rx_pipes_log2_def)
  let ?b = "block_coords (bw64 s) (bh64 s) w h" and ?r = "row_coords w h"
  have cs: "distinct ?b" "distinct ?r" "set ?b = set ?r" "set ?b \<subseteq> surface_of w h"
    using bw64_bounds[of s] row_coords_spec[of w h] by (simp_all add: block_coords_distinct block_coords_set)
  have t: "tiled_ok bpe (ceil_div h (bh64 s) * ceil_div (padded w pitch) (bw64 s) * 65536) (addr64 env mode s w pitch) ?b"
    unfolding s by (rule sw64kb.addr_ok[OF cs(1,4) padded_covers[OF assms(2)] order_refl]) (rule bw64_bounds)
  have "walk to_tiled bpe tb src (addr64 env mode s w pitch) (lin2 bpe w) ?b dst
      = walk to_tiled bpe tb src (addr64 env mode s w pitch) (lin2 bpe w) ?r dst"
    using t assms(4) by (intro walk_order[OF cs(1-3) _ _ lin2_ok[OF cs(1,4)]]) (simp_all add: tiled_ok_def s)
  moreover have "sw64kb_copy to_tiled e dst src w h pitch bpe tb mode
      = (if \<not> to_tiled \<and> \<not> row_major_detile e \<or> to_tiled \<and> \<not> row_major_tile e
         then walk to_tiled bpe tb src (addr64 e mode s w pitch) (lin2 bpe w) ?b dst
         else walk to_tiled bpe tb src (addr64 e mode s w pitch) (lin2 bpe w) ?r dst)" for e
    unfolding s sw64kb_copy_def sw64kb_elem_log2_of Let_def row_major_walk[OF assms(2)] block_major_walk[OF assms(2)]
    by (rule if_not_P[OF el])
  moreover have "addr64 env' mode s w pitch = addr64 env mode s w pitch" by (simp only: pat)
  ultimately show ?thesis by (simp only: if_cancel)
qed

theorem block_walk_equals_row_walk_witness:
  "sw64kb_copy False default_env (replicate 32 0) (replicate 7 3) 4 4 0 2 7 Sw64KbRX
   = sw64kb_copy False (default_env\<lparr>row_major_detile := True\<rparr>) (replicate 32 0) (replicate 7 3) 4 4 0 2 7 Sw64KbRX"
  by (rule block_walk_equals_row_walk) (simp_all add: dims_ok_def default_env_def)

text \<open>
  Each swizzle pattern the code ships (standard, depth and pipe-rotated for every pipe
  count, all element sizes) maps the elements of a 64 KiB block one to one onto its aligned
  byte offsets.
\<close>

lemma shipped_patterns_are_bijective:
  assumes "bpe \<in> {1, 2, 4, 8, 16}" and "b < 65536" and "bpe dvd b"
  shows "\<exists>!c. c \<in> surface_of (fst (sw64kb_dims (sw64kb_elem_log2 bpe))) (snd (sw64kb_dims (sw64kb_elem_log2 bpe))) \<and>
           coord_offset (map fst (sw64kb_pattern env mode (sw64kb_elem_log2 bpe))) (sw64kb_elem_log2 bpe) 16 (fst c) XOR
           coord_offset (map snd (sw64kb_pattern env mode (sw64kb_elem_log2 bpe))) (sw64kb_elem_log2 bpe) 16 (snd c) = b"
proof -
  obtain s where s: "bpe = bytes_of s" using assms(1) by (rule elem_size_cases)
  from sw64kb.off_surj[OF assms(2), where s = s and env = env and mode = mode and bx = 0 and by' = 0]
  obtain x y where xy: "x div bw64 s = 0" "y div bh64 s = 0"
    and b: "off64 env mode s x y \<le> b" "b < off64 env mode s x y + bytes_of s" by blast
  have at_b: "off64 env mode s x y = b"
    using aligned_disjoint[of "bytes_of s" "off64 env mode s x y" b b] b sw64kb.off_dvd[of s env mode x y]
      assms(3) s by simp
  have in_block: "a < bw64 s \<and> c < bh64 s \<longleftrightarrow> a div bw64 s = 0 \<and> c div bh64 s = 0" for a c
    using bw64_bounds(1,2)[of s] by (simp add: div_eq_0_iff)
  show ?thesis
    unfolding s sw64kb_elem_log2_of
  proof (rule ex1I[of _ "(x, y)"])
    show "(x, y) \<in> surface_of (bw64 s) (bh64 s) \<and> off64 env mode s (fst (x, y)) (snd (x, y)) = b"
      using xy at_b in_block[of x y] by (simp add: surface_of_def)
  next
    fix c assume c: "c \<in> surface_of (bw64 s) (bh64 s) \<and> off64 env mode s (fst c) (snd c) = b"
    then have "fst c div bw64 s = x div bw64 s" "snd c div bh64 s = y div bh64 s"
      using in_block[of "fst c" "snd c"] xy by (auto simp: surface_of_def)
    from sw64kb.off_inj[OF this, of env mode] c at_b show "c = (x, y)" by (simp add: prod_eq_iff)
  qed
qed

text \<open>
  \<open>detile_elements\<close> is safe for every length of its source. The element at column \<open>x\<close> and
  row \<open>y\<close> of the result is the one at its tiled address where that lies inside the source,
  and zeros where the source is too short.
\<close>

lemma detile_elements_short_source:
  assumes "tile_mode_is_tiled mode" and "bpe \<in> {1, 2, 4, 8, 16}" and "dims_ok w h 0"
    and "src_bytes \<le> length src" and "length dst = w * h * bpe" and "x < w" and "y < h"
  shows "\<exists>out t. detile_elements env dst src src_bytes w h bpe mode = Some out \<and> length out = w * h * bpe \<and>
     t + bpe \<le> tiled_elements_bytes w h bpe mode \<and>
     cell bpe out ((y * w + x) * bpe) = (if t + bpe \<le> src_bytes then cell bpe src t else replicate bpe 0)"
proof -
  obtain s where s: "bpe = bytes_of s" using assms(2) by (rule elem_size_cases)
  let ?t = "layout_addr env mode s w 0" and ?cs = "layout_coords False env mode s w h"
  have cs: "distinct ?cs" "set ?cs \<subseteq> surface_of w h" by (simp_all add: layout_coords_spec)
  have run: "detile_elements env dst src src_bytes w h bpe mode
      = walk False bpe src_bytes src ?t (lin2 bpe w) ?cs dst"
    using assms(1) surface_copy_walk[OF assms(1,3), of False env dst src s src_bytes, symmetric]
    by (auto simp: detile_elements_def surface_copy_def s is_64kb_mode_def)
  obtain out where out: "walk False bpe src_bytes src ?t (lin2 bpe w) ?cs dst = Some out"
    and w: "cells_written bpe (map (\<lambda>c. (lin2 bpe w c, source_cell bpe src_bytes src (?t c))) ?cs) dst out"
    using walk_detile[of bpe dst "lin2 bpe w" ?cs src_bytes src ?t] lin2_ok[OF cs, of bpe] assms(4,5) s by auto
  have c: "(x, y) \<in> set ?cs" using assms(6,7) by (simp add: layout_coords_spec surface_of_def)
  have t: "?t (x, y) + bpe \<le> tiled_elements_bytes w h bpe mode"
    using tiled_okD[OF layout_ok[OF assms(1,3) cs, of s env] c] assms(1)
    by (simp add: s tiled_elements_bytes_def tiled_surface_bytes_def)
  have fit: "(y * w + x) * bpe + bpe \<le> w * h * bpe"
    by (rule scaled_bound[OF row_major_bound[OF assms(6,7)]])
  have len: "length out = w * h * bpe" using w assms(5) by (simp add: cells_written_def)
  have "cell bpe out ((y * w + x) * bpe) = source_cell bpe src_bytes src (?t (x, y))"
  proof (rule nth_equalityI)
    show "length (cell bpe out ((y * w + x) * bpe)) = length (source_cell bpe src_bytes src (?t (x, y)))"
      using fit len assms(4) by (simp add: length_cell source_cell_def)
  next
    fix k assume "k < length (cell bpe out ((y * w + x) * bpe))"
    then have k: "k < bpe" using fit len by (simp add: length_cell)
    from cells_written_at[OF w c k] show "cell bpe out ((y * w + x) * bpe) ! k
        = source_cell bpe src_bytes src (?t (x, y)) ! k"
      using fit len k by (simp add: nth_cell lin2_def)
  qed
  then have "cell bpe out ((y * w + x) * bpe)
      = (if ?t (x, y) + bpe \<le> src_bytes then cell bpe src (?t (x, y)) else replicate bpe 0)"
    by (simp only: source_cell_def)
  moreover have "detile_elements env dst src src_bytes w h bpe mode = Some out"
    using run out by simp
  ultimately show ?thesis
    using len t by (intro exI[of _ out] exI[of _ "?t (x, y)"] conjI)
qed

end
