(* ===== verification/TileVolume.thy ===== *)
theory TileVolume
  imports TileRoundTrip
begin

text \<open>
  The three-dimensional and multisample layouts of \<open>gpu/texture/tile.cpp\<close>: volumes in the
  pipe-rotated and the two standard 3D swizzles, four-sample depth surfaces, and the round
  trips of both. The locale \<open>volume_swizzle\<close> is the three-coordinate counterpart of
  \<open>block_swizzle\<close>; a multisample surface is a volume whose third coordinate is the sample.
\<close>

unbundle bit_operations_syntax

subsection \<open>Layouts over three coordinates\<close>

definition lin3 :: "nat \<Rightarrow> nat \<Rightarrow> nat \<Rightarrow> nat \<times> nat \<times> nat \<Rightarrow> nat" where
  "lin3 n w h c = (case c of (x, y, z) \<Rightarrow> ((z * h + y) * w + x) * n)"

definition volume_of :: "nat \<Rightarrow> nat \<Rightarrow> nat \<Rightarrow> (nat \<times> nat \<times> nat) set" where
  "volume_of w h d = {(x, y, z). x < w \<and> y < h \<and> z < d}"

definition volume_coords :: "nat \<Rightarrow> nat \<Rightarrow> nat \<Rightarrow> (nat \<times> nat \<times> nat) list" where
  "volume_coords w h d =
     concat (map (\<lambda>z. concat (map (\<lambda>y. map (\<lambda>x. (x, y, z)) [0..<w]) [0..<h])) [0..<d])"

lemma volume_coords_spec:
  "distinct (volume_coords w h d)" "set (volume_coords w h d) = volume_of w h d"
proof -
  show "distinct (volume_coords w h d)"
    unfolding volume_coords_def
    by (intro distinct_concat_map) (auto simp: distinct_map inj_on_def)
  show "set (volume_coords w h d) = volume_of w h d"
    by (auto simp: volume_coords_def volume_of_def image_iff)
qed

lemma lin3_bound:
  fixes x y z w h d :: nat
  assumes "x < w" "y < h" "z < d"
  shows "(z * h + y) * w + x < w * h * d"
proof -
  have "z * h + y < h * d" by (rule row_major_bound[OF assms(2,3)])
  from row_major_bound[OF assms(1) this] show ?thesis by (simp add: mult.assoc)
qed

lemma lin3_ok:
  assumes "distinct cs" and "set cs \<subseteq> volume_of w h d" and n: "0 < n"
  shows "tiled_ok n (w * h * d * n) (lin3 n w h) cs"
  unfolding tiled_ok_def
proof (intro conjI ballI)
  show "inj_on (lin3 n w h) (set cs)"
  proof (rule inj_onI)
    fix c c' assume c: "c \<in> set cs" "c' \<in> set cs" and eq: "lin3 n w h c = lin3 n w h c'"
    obtain x y z where xyz: "c = (x, y, z)" by (cases c) auto
    obtain x' y' z' where xyz': "c' = (x', y', z')" by (cases c') auto
    have b: "x < w" "x' < w" "y < h" "y' < h" using assms(2) c by (auto simp: volume_of_def xyz xyz')
    have "(z * h + y) * w + x = (z' * h + y') * w + x'" using eq n by (simp add: lin3_def xyz xyz')
    with b(1,2) have x: "x = x' \<and> z * h + y = z' * h + y'" by (intro row_major_inj) simp_all
    from row_major_inj[OF b(3,4) conjunct2[OF x]] x show "c = c'" by (simp add: xyz xyz')
  qed
next
  fix c assume "c \<in> set cs"
  with assms(2) obtain x y z where xyz: "c = (x, y, z)" "x < w" "y < h" "z < d" by (auto simp: volume_of_def)
  show "n dvd lin3 n w h c" by (simp add: lin3_def xyz)
  show "lin3 n w h c + n \<le> w * h * d * n"
    unfolding lin3_def xyz prod.case by (rule scaled_bound[OF lin3_bound[OF xyz(2-4)]])
qed (rule assms(1))

lemma lin3_covers:
  assumes "volume_of w h d \<subseteq> set cs" and n: "0 < n"
  shows "covers n (w * h * d * n) (lin3 n w h) cs"
  unfolding covers_def
proof (intro allI impI)
  fix i assume i: "i < w * h * d * n"
  let ?e = "i div n"
  have e: "?e < w * h * d" using i n by (simp add: less_mult_imp_div_less)
  then have w: "0 < w" and h: "0 < h" by (cases w; cases h; simp)+
  have "?e div w < h * d" using e by (simp add: less_mult_imp_div_less mult.commute mult.left_commute)
  then have "?e div w div h < d" by (simp add: less_mult_imp_div_less mult.commute)
  then have "(?e mod w, ?e div w mod h, ?e div w div h) \<in> set cs"
    using w h assms(1) by (auto simp: volume_of_def)
  moreover have "lin3 n w h (?e mod w, ?e div w mod h, ?e div w div h) = ?e * n"
    unfolding lin3_def prod.case by (simp only: div_mult_mod_eq)
  moreover have "?e * n \<le> i" "i < ?e * n + n"
    using dividend_less_div_times[OF n, of i] by simp_all
  ultimately show "\<exists>c\<in>set cs. lin3 n w h c \<le> i \<and> i < lin3 n w h c + n" by force
qed

definition volume_addr ::
    "nat \<Rightarrow> nat \<Rightarrow> nat \<Rightarrow> nat \<Rightarrow> (nat \<Rightarrow> nat \<Rightarrow> nat \<Rightarrow> nat) \<Rightarrow> nat \<Rightarrow> nat \<Rightarrow> nat \<times> nat \<times> nat \<Rightarrow> nat" where
  "volume_addr tw th td block off bpr rows c =
     (case c of (x, y, z) \<Rightarrow> ((z div td * rows + y div th) * bpr + x div tw) * block + off x y z)"

locale volume_swizzle =
  fixes tw th td block n :: nat and off :: "nat \<Rightarrow> nat \<Rightarrow> nat \<Rightarrow> nat"
  assumes pos: "0 < tw" "0 < th" "0 < td" "0 < n"
    and n_dvd: "n dvd block"
    and off_less: "off x y z < block"
    and off_dvd: "n dvd off x y z"
    and off_inj: "x div tw = x' div tw \<Longrightarrow> y div th = y' div th \<Longrightarrow> z div td = z' div td \<Longrightarrow>
                  off x y z = off x' y' z' \<Longrightarrow> x = x' \<and> y = y' \<and> z = z'"
begin

lemma off_end: "off x y z + n \<le> block"
proof -
  obtain p q where "off x y z = n * p" "block = n * q" using off_dvd n_dvd by (metis dvd_def)
  with off_less[of x y z] pos(4) show ?thesis
    by (metis Suc_leI mult_Suc_right mult_le_mono2 mult_less_cancel1 add.commute)
qed

lemma addr_inj:
  assumes b: "x div tw < bpr" "x' div tw < bpr" "y div th < rows" "y' div th < rows"
    and eq: "volume_addr tw th td block off bpr rows (x, y, z) = volume_addr tw th td block off bpr rows (x', y', z')"
  shows "(x, y, z) = (x', y', z')"
proof -
  let ?r = "z div td * rows + y div th" and ?r' = "z' div td * rows + y' div th"
  have "(?r * bpr + x div tw) * block + off x y z = (?r' * bpr + x' div tw) * block + off x' y' z'"
    using eq by (simp add: volume_addr_def)
  with off_less have o: "off x y z = off x' y' z' \<and> ?r * bpr + x div tw = ?r' * bpr + x' div tw"
    by (intro row_major_inj[of _ block]) simp_all
  with b(1,2) have x: "x div tw = x' div tw \<and> ?r = ?r'" by (intro row_major_inj[of _ bpr]) simp_all
  with b(3,4) have "y div th = y' div th \<and> z div td = z' div td" by (intro row_major_inj[of _ rows]) simp_all
  with o x off_inj show ?thesis by blast
qed

lemma addr_ok:
  assumes "distinct cs" and sub: "set cs \<subseteq> volume_of w h d"
    and w: "w \<le> bpr * tw" and h: "h \<le> rows * th"
    and tb: "ceil_div d td * rows * bpr * block \<le> tb"
  shows "tiled_ok n tb (volume_addr tw th td block off bpr rows) cs"
  unfolding tiled_ok_def
proof (intro conjI ballI)
  have b: "x div tw < bpr \<and> y div th < rows \<and> z div td < ceil_div d td" if "(x, y, z) \<in> set cs" for x y z
  proof -
    have "x < w" "y < h" "z < d" using that sub by (auto simp: volume_of_def)
    then have "x < bpr * tw" "y < rows * th" using w h by simp_all
    with \<open>z < d\<close> pos show ?thesis by (simp add: less_mult_imp_div_less div_less_ceil_div)
  qed
  show "inj_on (volume_addr tw th td block off bpr rows) (set cs)"
  proof (rule inj_onI)
    fix c c' assume c: "c \<in> set cs" "c' \<in> set cs"
      and eq: "volume_addr tw th td block off bpr rows c = volume_addr tw th td block off bpr rows c'"
    obtain x y z where xyz: "c = (x, y, z)" by (cases c) auto
    obtain x' y' z' where xyz': "c' = (x', y', z')" by (cases c') auto
    show "c = c'"
      unfolding xyz xyz' by (rule addr_inj[of _ bpr _ _ rows]) (use b c eq xyz xyz' in simp_all)
  qed
  fix c assume c: "c \<in> set cs"
  obtain x y z where xyz: "c = (x, y, z)" by (cases c) auto
  show "n dvd volume_addr tw th td block off bpr rows c"
    using n_dvd off_dvd by (simp add: volume_addr_def xyz)
  have "(z div td * rows + y div th) * bpr + x div tw < bpr * rows * ceil_div d td"
    using b c by (intro lin3_bound) (simp_all add: xyz)
  then have "((z div td * rows + y div th) * bpr + x div tw) * block + block \<le> bpr * rows * ceil_div d td * block"
    by (rule scaled_bound)
  also have "\<dots> \<le> tb" using tb by (simp add: ac_simps)
  finally show "volume_addr tw th td block off bpr rows c + n \<le> tb"
    using off_end[of x y z] by (simp add: volume_addr_def xyz)
qed (rule assms(1))

lemma volume_roundtrip:
  assumes cs: "distinct cs" "set cs = volume_of w h d"
    and "w \<le> bpr * tw" and "h \<le> rows * th" and "ceil_div d td * rows * bpr * block \<le> tb"
    and "length src = w * h * d * n" and "length dst = tb" and "length out0 = w * h * d * n"
  shows "\<exists>T. walk True n tb src (volume_addr tw th td block off bpr rows) (lin3 n w h) cs dst = Some T \<and> length T = tb \<and>
             walk False n tb T (volume_addr tw th td block off bpr rows) (lin3 n w h) cs out0 = Some src"
  using assms pos(4)
  by (intro walk_roundtrip[where len = "w * h * d * n"] addr_ok[where w = w and h = h and d = d] lin3_ok lin3_covers)
     simp_all

end

subsection \<open>Patterns over three coordinates\<close>

abbreviation solid_off :: "nat list \<Rightarrow> nat list \<Rightarrow> nat list \<Rightarrow> nat \<Rightarrow> nat \<Rightarrow> nat \<Rightarrow> nat \<Rightarrow> nat \<Rightarrow> nat" where
  "solid_off mx my mz el bits x y z \<equiv>
     coord_offset mx el bits x XOR coord_offset my el bits y XOR coord_offset mz el bits z"

lemma solid_injective:
  assumes det: "determines a b c (map (\<lambda>i. (mx ! i, my ! i, mz ! i)) [el..<bits])"
    and ab: "a \<le> 32" "b \<le> 32" "c \<le> 32"
    and blocks: "x div 2 ^ a = x' div 2 ^ a" "y div 2 ^ b = y' div 2 ^ b" "z div 2 ^ c = z' div 2 ^ c"
    and eq: "solid_off mx my mz el bits x y z = solid_off mx my mz el bits x' y' z'"
  shows "x = x' \<and> y = y' \<and> z = z'"
proof -
  have small: "x XOR x' < 2 ^ a" "y XOR y' < 2 ^ b" "z XOR z' < 2 ^ c"
    using blocks by (auto intro: xor_same_block)
  have "(x XOR x') = 0 \<and> (y XOR y') = 0 \<and> (z XOR z') = 0"
  proof (rule determines_sound[OF det small ab])
    fix qx qy qz :: nat
    assume "(qx, qy, qz) \<in> set (map (\<lambda>i. (mx ! i, my ! i, mz ! i)) [el..<bits])"
    then obtain i where i: "el \<le> i" "i < bits" "qx = mx ! i" "qy = my ! i" "qz = mz ! i" by auto
    have bitv: "bit (solid_off mx my mz el bits x y z) i \<longleftrightarrow>
        (odd (popcount (x AND qx)) \<noteq> odd (popcount (y AND qy))) \<noteq> odd (popcount (z AND qz))" for x y z
      using i unfolding bit_xor_iff bit_coord_offset by blast
    have "((odd (popcount (x AND qx)) \<noteq> odd (popcount (y AND qy))) \<noteq> odd (popcount (z AND qz)))
        = ((odd (popcount (x' AND qx)) \<noteq> odd (popcount (y' AND qy))) \<noteq> odd (popcount (z' AND qz)))"
      using eq bitv by metis
    then show "even (popcount ((x XOR x') AND qx) + popcount ((y XOR y') AND qy) + popcount ((z XOR z') AND qz))"
      using odd_popcount_xor[of x x' qx] odd_popcount_xor[of y y' qy] odd_popcount_xor[of z z' qz] by auto
  qed
  then show ?thesis by (simp add: xor_eq_0)
qed

lemma solid_swizzle:
  assumes "determines a b c (map (\<lambda>i. (mx ! i, my ! i, mz ! i)) [el..<bits])"
    and "a \<le> 32" "b \<le> 32" "c \<le> 32" and "el \<le> bits"
  shows "volume_swizzle (2 ^ a) (2 ^ b) (2 ^ c) (2 ^ bits) (2 ^ el) (solid_off mx my mz el bits)"
proof
  show "solid_off mx my mz el bits x y z < 2 ^ bits" for x y z
    by (intro xor_less_power2 coord_offset_less)
  show "2 ^ el dvd solid_off mx my mz el bits x y z" for x y z
    by (intro xor_dvd_power2 coord_offset_dvd)
  show "(2::nat) ^ el dvd 2 ^ bits" using assms(5) by (rule le_imp_power_dvd)
  fix x x' y y' z z' :: nat
  assume "x div 2 ^ a = x' div 2 ^ a" "y div 2 ^ b = y' div 2 ^ b" "z div 2 ^ c = z' div 2 ^ c"
    and "solid_off mx my mz el bits x y z = solid_off mx my mz el bits x' y' z'"
  then show "x = x' \<and> y = y' \<and> z = z'" by (rule solid_injective[OF assms(1-4)])
qed simp_all

subsection \<open>Volumes\<close>

text \<open>
  A routine of the C++ code that returns \<open>bool\<close> and writes a buffer returns both here. The
  copies of the pipe-rotated and of the standard volumes are the same loops over their masks
  and block dimensions; the rotated one has blocks of depth 1.
\<close>

definition solid_copy ::
    "bool \<Rightarrow> byte list \<Rightarrow> byte list \<Rightarrow> nat \<Rightarrow> nat \<Rightarrow> nat \<Rightarrow> nat \<Rightarrow> nat \<Rightarrow> nat list \<Rightarrow> nat list \<Rightarrow> nat list
     \<Rightarrow> nat \<Rightarrow> nat \<Rightarrow> nat \<Rightarrow> nat \<Rightarrow> nat \<Rightarrow> byte list option" where
  "solid_copy to_tiled dst src tiled_bytes width height depth bpe mx my mz el bits bw bh bd =
     (let blocks_x = (width + bw - 1) div bw;
          blocks_y = (height + bh - 1) div bh;
          fx = map (coord_offset mx el bits) [0..<width];
          fy = map (coord_offset my el bits) [0..<height];
          fz = map (coord_offset mz el bits) [0..<depth]
      in foldM (\<lambda>z.
           let slab = z div bd * blocks_y * blocks_x in
           foldM (\<lambda>y.
             let row = slab + y div bh * blocks_x in
             foldM (\<lambda>x.
               let block = row + x div bw;
                   tiled = u64 (push_bit bits block) OR (fx ! x XOR fy ! y XOR fz ! z);
                   linear = ((z * height + y) * width + x) * bpe
               in move_elem to_tiled bpe tiled_bytes src tiled linear)
               [0..<width])
             [0..<height])
           [0..<depth] dst)"

definition sw64kb_rx_volume_bytes :: "nat \<Rightarrow> nat \<Rightarrow> nat \<Rightarrow> nat \<Rightarrow> nat" where
  "sw64kb_rx_volume_bytes width height depth bpe =
     (let el = sw64kb_elem_log2 bpe in
      if el = UINT32_MAX then 0
      else let slice = sw64kb_tiled_bytes width height 0 bpe
           in if slice = 0 \<or> depth > UINT64_MAX div slice then 0 else slice * depth)"

definition sw64kb_rx_volume_copy ::
    "bool \<Rightarrow> tile_env \<Rightarrow> byte list \<Rightarrow> byte list \<Rightarrow> nat \<Rightarrow> nat \<Rightarrow> nat \<Rightarrow> nat \<Rightarrow> nat
     \<Rightarrow> (bool \<times> byte list) option" where
  "sw64kb_rx_volume_copy to_tiled env dst src tiled_bytes width height depth bpe =
     (let el = sw64kb_elem_log2 bpe in
      if el = UINT32_MAX \<or> sw64kb_rx_pipes_log2 env \<noteq> 4 then Some (False, dst)
      else case sw64kb_dims el of (bw, bh) \<Rightarrow>
        let pat = kSw64kRX ! 4 ! el
        in map_option (Pair True)
             (solid_copy to_tiled dst src tiled_bytes width height depth bpe
                (map fst pat) (map snd pat) kSw64kbRXVolumeZ el 16 bw bh 1))"

definition s3_volume_bytes :: "nat \<Rightarrow> nat \<Rightarrow> nat \<Rightarrow> nat \<Rightarrow> nat \<Rightarrow> (nat \<times> nat \<times> nat) list \<Rightarrow> nat" where
  "s3_volume_bytes width height depth bpe bits dims =
     (let el = sw64kb_elem_log2 bpe in
      if el = UINT32_MAX \<or> width = 0 \<or> height = 0 \<or> depth = 0 then 0
      else case dims ! el of (dx, dy, dz) \<Rightarrow>
        let block_bytes = 2 ^ bits;
            blocks_x = (width + dx - 1) div dx;
            blocks_y = (height + dy - 1) div dy;
            blocks_z = (depth + dz - 1) div dz
        in if blocks_x > UINT64_MAX div block_bytes \<or>
              blocks_y > UINT64_MAX div (blocks_x * block_bytes) \<or>
              blocks_z > UINT64_MAX div (blocks_x * blocks_y * block_bytes) then 0
           else blocks_x * blocks_y * blocks_z * block_bytes)"

definition s3_volume_copy ::
    "bool \<Rightarrow> byte list \<Rightarrow> byte list \<Rightarrow> nat \<Rightarrow> nat \<Rightarrow> nat \<Rightarrow> nat \<Rightarrow> nat \<Rightarrow> nat \<Rightarrow> (nat \<times> nat \<times> nat) list
     \<Rightarrow> (bool \<times> byte list) option" where
  "s3_volume_copy to_tiled dst src tiled_bytes width height depth bpe bits dims =
     (let el = sw64kb_elem_log2 bpe in
      if el = UINT32_MAX then Some (False, dst)
      else case dims ! el of (bw, bh, bd) \<Rightarrow>
        let pat = kSw64kbS3 ! el
        in map_option (Pair True)
             (solid_copy to_tiled dst src tiled_bytes width height depth bpe
                (map fst pat) (map (\<lambda>p. fst (snd p)) pat) (map (\<lambda>p. snd (snd p)) pat) el bits bw bh bd))"

definition tile_mode_supports_volume :: "tile_env \<Rightarrow> nat \<Rightarrow> bool" where
  "tile_mode_supports_volume env m \<longleftrightarrow>
     m = Linear \<or> m = Sw4KbS \<or> m = Sw64KbS \<or> m = Sw64KbRX \<and> sw64kb_rx_pipes_log2 env = 4"

definition tiled_volume_bytes :: "tile_env \<Rightarrow> nat \<Rightarrow> nat \<Rightarrow> nat \<Rightarrow> nat \<Rightarrow> nat \<Rightarrow> nat" where
  "tiled_volume_bytes env width height depth tile_mode bpe =
     (if width = 0 \<or> height = 0 \<or> depth = 0 \<or> bpe = 0 then 0
      else if tile_mode = Linear
      then let texels = u64 (width * height * depth)
           in if texels > UINT64_MAX div bpe then 0 else texels * bpe
      else if \<not> tile_mode_supports_volume env tile_mode then 0
      else if tile_mode = Sw4KbS then s3_volume_bytes width height depth bpe 12 kSw4kbS3Dims
      else if tile_mode = Sw64KbS then s3_volume_bytes width height depth bpe 16 kSw64kbS3Dims
      else sw64kb_rx_volume_bytes width height depth bpe)"

definition detile_volume ::
    "tile_env \<Rightarrow> byte list \<Rightarrow> byte list \<Rightarrow> nat \<Rightarrow> nat \<Rightarrow> nat \<Rightarrow> nat \<Rightarrow> nat \<Rightarrow> nat \<Rightarrow> (bool \<times> byte list) option" where
  "detile_volume env dst src src_bytes width height depth tile_mode bpe =
     (let linear_bytes = u64 (width * height * depth * bpe) in
      if tile_mode = Linear
      then (if src_bytes < linear_bytes then Some (False, dst)
            else map_option (Pair True) (copy_bytes dst src linear_bytes))
      else if \<not> tile_mode_supports_volume env tile_mode then Some (False, dst)
      else if tile_mode = Sw4KbS
      then s3_volume_copy False dst src src_bytes width height depth bpe 12 kSw4kbS3Dims
      else if tile_mode = Sw64KbS
      then s3_volume_copy False dst src src_bytes width height depth bpe 16 kSw64kbS3Dims
      else sw64kb_rx_volume_copy False env dst src src_bytes width height depth bpe)"

definition tile_volume ::
    "tile_env \<Rightarrow> byte list \<Rightarrow> nat \<Rightarrow> byte list \<Rightarrow> nat \<Rightarrow> nat \<Rightarrow> nat \<Rightarrow> nat \<Rightarrow> nat \<Rightarrow> (bool \<times> byte list) option" where
  "tile_volume env dst dst_bytes src width height depth tile_mode bpe =
     (let need = tiled_volume_bytes env width height depth tile_mode bpe in
      if need = 0 \<or> dst_bytes < need then Some (False, dst)
      else if tile_mode = Linear then map_option (Pair True) (copy_bytes dst src need)
      else Option.bind (write_at dst 0 (replicate need 0)) (\<lambda>dst0.
        if tile_mode = Sw4KbS
        then s3_volume_copy True dst0 src need width height depth bpe 12 kSw4kbS3Dims
        else if tile_mode = Sw64KbS
        then s3_volume_copy True dst0 src need width height depth bpe 16 kSw64kbS3Dims
        else sw64kb_rx_volume_copy True env dst0 src need width height depth bpe))"

subsection \<open>Multisample depth surfaces\<close>

definition msaa_block_bits :: "nat \<Rightarrow> nat \<times> nat" where
  "msaa_block_bits element_log2 =
     (let element_bits = 16 - element_log2 - 2; width_bits = (element_bits + 1) div 2
      in (width_bits, element_bits - width_bits))"

definition tiled_msaa_surface_bytes :: "nat \<Rightarrow> nat \<Rightarrow> nat \<Rightarrow> nat \<Rightarrow> nat \<Rightarrow> nat" where
  "tiled_msaa_surface_bytes width height tile_mode bpe sample_count =
     (if width = 0 \<or> height = 0 \<or> sample_count \<noteq> 4 \<or> tile_mode \<noteq> Sw64KbZX then 0
      else let element_log2 = sw64kb_elem_log2 bpe in
        if element_log2 = UINT32_MAX \<or> element_log2 + 2 \<ge> 16 then 0
        else case msaa_block_bits element_log2 of (wb, hb) \<Rightarrow>
          let blocks_x = (width + 2 ^ wb - 1) div 2 ^ wb;
              blocks_y = (height + 2 ^ hb - 1) div 2 ^ hb
          in if blocks_x \<noteq> 0 \<and> blocks_y > UINT64_MAX div blocks_x div 65536 then 0
             else blocks_x * blocks_y * 65536)"

definition sw64kb_zx_4xaa_copy ::
    "bool \<Rightarrow> byte list \<Rightarrow> nat \<Rightarrow> byte list \<Rightarrow> nat \<Rightarrow> nat \<Rightarrow> nat \<Rightarrow> (bool \<times> byte list) option" where
  "sw64kb_zx_4xaa_copy to_tiled dst tiled_bytes src width height bpe =
     (let element_log2 = sw64kb_elem_log2 bpe in
      if element_log2 = UINT32_MAX then Some (False, dst)
      else case msaa_block_bits element_log2 of (wb, hb) \<Rightarrow>
        let blocks_x = (width + 2 ^ wb - 1) div 2 ^ wb;
            pattern = kSw64kZX4x ! element_log2;
            x_offsets = map (coord_offset (map fst pattern) element_log2 16) [0..<width];
            y_offsets = map (coord_offset (map (\<lambda>p. fst (snd p)) pattern) element_log2 16) [0..<height];
            sample_offsets = map (coord_offset (map (\<lambda>p. snd (snd p)) pattern) element_log2 16) [0..<4];
            plane_texels = width * height
        in map_option (Pair True) (foldM (\<lambda>sample.
             foldM (\<lambda>y.
               let block_row = y div 2 ^ hb * blocks_x in
               foldM (\<lambda>x d.
                 let block = block_row + x div 2 ^ wb;
                     tiled = u64 (push_bit 16 block) OR (x_offsets ! x XOR y_offsets ! y XOR sample_offsets ! sample);
                     linear = (sample * plane_texels + y * width + x) * bpe
                 in if tiled > tiled_bytes \<or> bpe > tiled_bytes - tiled
                    then (if \<not> to_tiled then write_at d linear (replicate bpe 0) else Some d)
                    else if to_tiled then Option.bind (read_at src linear bpe) (write_at d tiled)
                    else Option.bind (read_at src tiled bpe) (write_at d linear))
                 [0..<width])
               [0..<height])
             [0..<4] dst))"

definition detile_msaa_surface ::
    "byte list \<Rightarrow> byte list \<Rightarrow> nat \<Rightarrow> nat \<Rightarrow> nat \<Rightarrow> nat \<Rightarrow> nat \<Rightarrow> nat \<Rightarrow> (bool \<times> byte list) option" where
  "detile_msaa_surface dst src src_bytes width height tile_mode bpe sample_count =
     (let expected = tiled_msaa_surface_bytes width height tile_mode bpe sample_count in
      if expected = 0 \<or> src_bytes < expected then Some (False, dst)
      else sw64kb_zx_4xaa_copy False dst src_bytes src width height bpe)"

definition tile_msaa_surface ::
    "byte list \<Rightarrow> nat \<Rightarrow> byte list \<Rightarrow> nat \<Rightarrow> nat \<Rightarrow> nat \<Rightarrow> nat \<Rightarrow> nat \<Rightarrow> (bool \<times> byte list) option" where
  "tile_msaa_surface dst dst_bytes src width height tile_mode bpe sample_count =
     (let expected = tiled_msaa_surface_bytes width height tile_mode bpe sample_count in
      if expected = 0 \<or> dst_bytes < expected then Some (False, dst)
      else Option.bind (write_at dst 0 (replicate expected 0))
             (\<lambda>dst0. sw64kb_zx_4xaa_copy True dst0 expected src width height bpe))"

subsection \<open>The copies as walks\<close>

definition vol_ok :: "nat \<Rightarrow> nat \<Rightarrow> nat \<Rightarrow> bool" where
  "vol_ok w h d \<longleftrightarrow> w \<le> 16384 \<and> h \<le> 16384 \<and> d \<le> 16384"

lemma ceil_div_eq: "(n + d - 1) div d = ceil_div n d"
  by (simp add: ceil_div_def)

lemma vol_block_small:
  assumes v: "vol_ok w h d" and pos: "0 < bw" "0 < bh" "0 < bd"
    and c: "(x, y, z) \<in> volume_of w h d"
  shows "(z div bd * ceil_div h bh + y div bh) * ceil_div w bw + x div bw < 2 ^ 42"
proof -
  have "x < w" "y < h" "z < d" using c by (auto simp: volume_of_def)
  then have "(z div bd * ceil_div h bh + y div bh) * ceil_div w bw + x div bw
      < ceil_div w bw * ceil_div h bh * ceil_div d bd"
    using pos by (intro lin3_bound div_less_ceil_div)
  also have "\<dots> \<le> 16384 * 16384 * 16384"
    using v order_trans[OF ceil_div_le[OF pos(1)]] order_trans[OF ceil_div_le[OF pos(2)]]
      order_trans[OF ceil_div_le[OF pos(3)]]
    by (intro mult_le_mono) (auto simp: vol_ok_def)
  finally show ?thesis by simp
qed

lemma block_addr_bits:
  assumes "b < 2 ^ 42" and "off < 2 ^ bits" and "bits \<le> 16"
  shows "u64 (push_bit bits b) OR off = b * 2 ^ bits + off"
proof -
  have "b * 2 ^ bits < 2 ^ 42 * 2 ^ 16"
    using assms(1) power_increasing[OF assms(3), of "2::nat"] by (intro mult_less_le_imp_less) simp_all
  then have "u64 (push_bit bits b) = push_bit bits b" by (simp add: push_bit_eq_mult u64_id)
  with or_shift[OF assms(2), of b] show ?thesis by simp
qed

lemma solid_addr:
  assumes v: "vol_ok w h d" and pos: "0 < bw" "0 < bh" "0 < bd" and bits: "bits \<le> 16"
    and c: "(x, y, z) \<in> volume_of w h d"
  shows "u64 (push_bit bits (z div bd * ceil_div h bh * ceil_div w bw + y div bh * ceil_div w bw + x div bw)) OR
      (map (coord_offset mx el bits) [0..<w] ! x XOR map (coord_offset my el bits) [0..<h] ! y XOR
       map (coord_offset mz el bits) [0..<d] ! z)
    = volume_addr bw bh bd (2 ^ bits) (solid_off mx my mz el bits) (ceil_div w bw) (ceil_div h bh) (x, y, z)"
proof -
  let ?b = "(z div bd * ceil_div h bh + y div bh) * ceil_div w bw + x div bw"
  have "z div bd * ceil_div h bh * ceil_div w bw + y div bh * ceil_div w bw + x div bw = ?b"
    by (simp only: add_mult_distrib)
  moreover have "map f [0..<w] ! x = f x" "map f [0..<h] ! y = f y" "map f [0..<d] ! z = f z" for f :: "nat \<Rightarrow> nat"
    using c by (auto simp: volume_of_def)
  moreover have "u64 (push_bit bits ?b) OR solid_off mx my mz el bits x y z = ?b * 2 ^ bits + solid_off mx my mz el bits x y z"
    by (intro block_addr_bits vol_block_small[OF v pos c] xor_less_power2 coord_offset_less bits)
  ultimately show ?thesis by (simp only: volume_addr_def prod.case)
qed

lemma solid_copy_walk:
  assumes v: "vol_ok w h d" and pos: "0 < bw" "0 < bh" "0 < bd" and bits: "bits \<le> 16"
  shows "solid_copy to_tiled dst src tb w h d bpe mx my mz el bits bw bh bd
       = walk to_tiled bpe tb src
           (volume_addr bw bh bd (2 ^ bits) (solid_off mx my mz el bits) (ceil_div w bw) (ceil_div h bh))
           (lin3 bpe w h) (volume_coords w h d) dst"
  unfolding solid_copy_def Let_def ceil_div_eq volume_coords_def
proof (intro walk_nested walk_loop conjI)
  fix z y x assume "z \<in> set [0..<d]" "y \<in> set [0..<h]" "x \<in> set [0..<w]"
  then have "(x, y, z) \<in> volume_of w h d" by (simp add: volume_of_def)
  then show "u64 (push_bit bits (z div bd * ceil_div h bh * ceil_div w bw + y div bh * ceil_div w bw + x div bw)) OR
      (map (coord_offset mx el bits) [0..<w] ! x XOR map (coord_offset my el bits) [0..<h] ! y XOR
       map (coord_offset mz el bits) [0..<d] ! z)
    = volume_addr bw bh bd (2 ^ bits) (solid_off mx my mz el bits) (ceil_div w bw) (ceil_div h bh) (x, y, z)"
    by (rule solid_addr[OF v pos bits])
  show "((z * h + y) * w + x) * bpe = lin3 bpe w h (x, y, z)" by (simp add: lin3_def)
qed

lemma move_elem_bounds:
  "(if tiled > tb \<or> n > tb - tiled
    then (if \<not> to_tiled then write_at d linear (replicate n 0) else Some d)
    else if to_tiled then Option.bind (read_at src linear n) (write_at d tiled)
    else Option.bind (read_at src tiled n) (write_at d linear))
   = move_elem to_tiled n tb src tiled linear d"
proof -
  have "(tiled > tb \<or> n > tb - tiled) \<longleftrightarrow> \<not> tiled + n \<le> tb" by linarith
  then show ?thesis unfolding move_elem_def by simp
qed

abbreviation msaa_wb :: "elem_size \<Rightarrow> nat" where "msaa_wb s \<equiv> (14 - log2_of s + 1) div 2"
abbreviation msaa_hb :: "elem_size \<Rightarrow> nat" where "msaa_hb s \<equiv> (14 - log2_of s) - (14 - log2_of s + 1) div 2"

lemma msaa_block_bits_of: "msaa_block_bits (log2_of s) = (msaa_wb s, msaa_hb s)"
  by (simp add: msaa_block_bits_def Let_def diff_diff_left add.commute)

abbreviation msaa_off :: "elem_size \<Rightarrow> nat \<Rightarrow> nat \<Rightarrow> nat \<Rightarrow> nat" where
  "msaa_off s \<equiv> solid_off (map fst (kSw64kZX4x ! log2_of s)) (map (\<lambda>p. fst (snd p)) (kSw64kZX4x ! log2_of s))
     (map (\<lambda>p. snd (snd p)) (kSw64kZX4x ! log2_of s)) (log2_of s) 16"

abbreviation msaa_addr :: "elem_size \<Rightarrow> nat \<Rightarrow> nat \<Rightarrow> nat \<times> nat \<times> nat \<Rightarrow> nat" where
  "msaa_addr s w h \<equiv> volume_addr (2 ^ msaa_wb s) (2 ^ msaa_hb s) 4 65536 (msaa_off s)
     (ceil_div w (2 ^ msaa_wb s)) (ceil_div h (2 ^ msaa_hb s))"

lemma msaa_copy_walk:
  assumes v: "vol_ok w h 4"
  shows "sw64kb_zx_4xaa_copy to_tiled dst tb src w h (bytes_of s)
       = map_option (Pair True) (walk to_tiled (bytes_of s) tb src (msaa_addr s w h) (lin3 (bytes_of s) w h)
           (volume_coords w h 4) dst)"
proof -
  have el: "log2_of s \<noteq> UINT32_MAX" using log2_of_less[of s] by simp
  show ?thesis
    unfolding sw64kb_zx_4xaa_copy_def Let_def sw64kb_elem_log2_of if_not_P[OF el] msaa_block_bits_of prod.case
      ceil_div_eq move_elem_bounds volume_coords_def
  proof (intro arg_cong[of _ _ "map_option (Pair True)"] walk_nested walk_loop conjI)
    fix z y x assume zyx: "z \<in> set [0..<4]" "y \<in> set [0..<h]" "x \<in> set [0..<w]"
    then have c: "(x, y, z) \<in> volume_of w h 4" by (simp add: volume_of_def)
    have z: "z div 4 = 0" using zyx by simp
    have "u64 (push_bit 16 (z div 4 * ceil_div h (2 ^ msaa_hb s) * ceil_div w (2 ^ msaa_wb s) +
          y div 2 ^ msaa_hb s * ceil_div w (2 ^ msaa_wb s) + x div 2 ^ msaa_wb s)) OR
        (map (coord_offset (map fst (kSw64kZX4x ! log2_of s)) (log2_of s) 16) [0..<w] ! x XOR
         map (coord_offset (map (\<lambda>p. fst (snd p)) (kSw64kZX4x ! log2_of s)) (log2_of s) 16) [0..<h] ! y XOR
         map (coord_offset (map (\<lambda>p. snd (snd p)) (kSw64kZX4x ! log2_of s)) (log2_of s) 16) [0..<4] ! z)
      = volume_addr (2 ^ msaa_wb s) (2 ^ msaa_hb s) 4 (2 ^ 16) (msaa_off s)
          (ceil_div w (2 ^ msaa_wb s)) (ceil_div h (2 ^ msaa_hb s)) (x, y, z)"
      by (rule solid_addr[OF v _ _ _ _ c]) simp_all
    moreover have "(2::nat) ^ 16 = 65536" by simp
    ultimately show "u64 (push_bit 16 (y div 2 ^ msaa_hb s * ceil_div w (2 ^ msaa_wb s) + x div 2 ^ msaa_wb s)) OR
        (map (coord_offset (map fst (kSw64kZX4x ! log2_of s)) (log2_of s) 16) [0..<w] ! x XOR
         map (coord_offset (map (\<lambda>p. fst (snd p)) (kSw64kZX4x ! log2_of s)) (log2_of s) 16) [0..<h] ! y XOR
         map (coord_offset (map (\<lambda>p. snd (snd p)) (kSw64kZX4x ! log2_of s)) (log2_of s) 16) [0..<4] ! z)
      = msaa_addr s w h (x, y, z)"
      by (simp only: z mult_0 add_0)
    show "(z * (w * h) + y * w + x) * bytes_of s = lin3 (bytes_of s) w h (x, y, z)"
      by (simp add: lin3_def algebra_simps)
  qed
qed

subsection \<open>The volume and multisample layouts\<close>

lemma kSw64kbS3_dims: "kSw64kbS3Dims ! log2_of s = (case s3_log2 ! log2_of s of (a, b, c) \<Rightarrow> (2 ^ a, 2 ^ b, 2 ^ c))"
  by (cases s) (simp_all add: kSw64kbS3Dims_def s3_log2_def)

lemma kSw4kbS3_dims: "kSw4kbS3Dims ! log2_of s = (case s3_4k_log2 ! log2_of s of (a, b, c) \<Rightarrow> (2 ^ a, 2 ^ b, 2 ^ c))"
  by (cases s) (simp_all add: kSw4kbS3Dims_def s3_4k_log2_def)

lemma solid_ok_swizzle:
  assumes "solid_ok pat el bits (a, b, c)"
  shows "volume_swizzle (2 ^ a) (2 ^ b) (2 ^ c) (2 ^ bits) (2 ^ el)
    (solid_off (map fst pat) (map (\<lambda>p. fst (snd p)) pat) (map (\<lambda>p. snd (snd p)) pat) el bits)"
proof (rule solid_swizzle)
  have ok: "length pat = 16" "bits \<le> 16" and det: "determines a b c (map (\<lambda>i. pat ! i) [el..<bits])"
    using assms by (simp_all add: solid_ok_def)
  have "map (\<lambda>i. pat ! i) [el..<bits] = map (\<lambda>i. (map fst pat ! i, map (\<lambda>p. fst (snd p)) pat ! i,
      map (\<lambda>p. snd (snd p)) pat ! i)) [el..<bits]"
    using ok by (intro map_cong) simp_all
  with det show "determines a b c (map (\<lambda>i. (map fst pat ! i, map (\<lambda>p. fst (snd p)) pat ! i,
      map (\<lambda>p. snd (snd p)) pat ! i)) [el..<bits])" by simp
qed (use assms in \<open>simp_all add: solid_ok_def\<close>)

abbreviation s3_off :: "elem_size \<Rightarrow> nat \<Rightarrow> nat \<Rightarrow> nat \<Rightarrow> nat \<Rightarrow> nat" where
  "s3_off s bits \<equiv> solid_off (map fst (kSw64kbS3 ! log2_of s)) (map (\<lambda>p. fst (snd p)) (kSw64kbS3 ! log2_of s))
     (map (\<lambda>p. snd (snd p)) (kSw64kbS3 ! log2_of s)) (log2_of s) bits"

abbreviation dim1 :: "(nat \<times> nat \<times> nat) list \<Rightarrow> elem_size \<Rightarrow> nat" where "dim1 ds s \<equiv> fst (ds ! log2_of s)"
abbreviation dim2 :: "(nat \<times> nat \<times> nat) list \<Rightarrow> elem_size \<Rightarrow> nat" where "dim2 ds s \<equiv> fst (snd (ds ! log2_of s))"
abbreviation dim3 :: "(nat \<times> nat \<times> nat) list \<Rightarrow> elem_size \<Rightarrow> nat" where "dim3 ds s \<equiv> snd (snd (ds ! log2_of s))"

interpretation s3_64kb: volume_swizzle "dim1 kSw64kbS3Dims s" "dim2 kSw64kbS3Dims s" "dim3 kSw64kbS3Dims s"
    65536 "bytes_of s" "s3_off s 16" for s
proof -
  obtain a b c where d: "s3_log2 ! log2_of s = (a, b, c)" by (rule prod_cases3)
  have "solid_ok (kSw64kbS3 ! log2_of s) (log2_of s) 16 (a, b, c)"
    using list_all_log2[OF kSw64kbS3_ok, of s] by (simp add: d)
  from solid_ok_swizzle[OF this]
  show "volume_swizzle (dim1 kSw64kbS3Dims s) (dim2 kSw64kbS3Dims s) (dim3 kSw64kbS3Dims s) 65536 (bytes_of s) (s3_off s 16)"
    by (simp add: kSw64kbS3_dims d)
qed

interpretation s3_4kb: volume_swizzle "dim1 kSw4kbS3Dims s" "dim2 kSw4kbS3Dims s" "dim3 kSw4kbS3Dims s"
    4096 "bytes_of s" "s3_off s 12" for s
proof -
  obtain a b c where d: "s3_4k_log2 ! log2_of s = (a, b, c)" by (rule prod_cases3)
  have "solid_ok (kSw64kbS3 ! log2_of s) (log2_of s) 12 (a, b, c)"
    using list_all_log2[OF kSw4kbS3_ok, of s] by (simp add: d)
  from solid_ok_swizzle[OF this]
  show "volume_swizzle (dim1 kSw4kbS3Dims s) (dim2 kSw4kbS3Dims s) (dim3 kSw4kbS3Dims s) 4096 (bytes_of s) (s3_off s 12)"
    by (simp add: kSw4kbS3_dims d)
qed

interpretation msaa: volume_swizzle "2 ^ msaa_wb s" "2 ^ msaa_hb s" 4 65536 "bytes_of s" "msaa_off s" for s
proof -
  have "solid_ok (kSw64kZX4x ! log2_of s) (log2_of s) 16 (msaa_wb s, msaa_hb s, 2)"
    by (rule list_all_log2[OF kSw64kZX4x_ok])
  from solid_ok_swizzle[OF this]
  show "volume_swizzle (2 ^ msaa_wb s) (2 ^ msaa_hb s) 4 65536 (bytes_of s) (msaa_off s)" by simp
qed

text \<open>The rotated volume has blocks one element deep, so the depth bits only permute a block.\<close>

lemma determines_flat:
  "determines a b 0 (map (\<lambda>i. (f i, g i, h i)) xs) = determines a b 0 (map (\<lambda>i. (f i, g i, 0)) xs)"
  by (simp add: determines_def entry_bits_def comp_def)

abbreviation rxv_off :: "elem_size \<Rightarrow> nat \<Rightarrow> nat \<Rightarrow> nat \<Rightarrow> nat" where
  "rxv_off s \<equiv> solid_off (map fst (kSw64kRX ! 4 ! log2_of s)) (map snd (kSw64kRX ! 4 ! log2_of s))
     kSw64kbRXVolumeZ (log2_of s) 16"

interpretation rx_volume: volume_swizzle "bw64 s" "bh64 s" 1 65536 "bytes_of s" "rxv_off s" for s
proof -
  let ?pat = "kSw64kRX ! 4 ! log2_of s"
  let ?a = "fst (dims64_log2 ! log2_of s)" and ?b = "snd (dims64_log2 ! log2_of s)"
  have "plane_ok ?pat (log2_of s) 16 ?a ?b"
    using list_all_log2[OF kSw64kRX_ok, of 4 s] by simp
  then have ok: "length ?pat = 16" "?a \<le> 32" "?b \<le> 32"
    and det: "determines ?a ?b 0 (map (\<lambda>i. (fst (?pat ! i), snd (?pat ! i), 0)) [log2_of s..<16])"
    by (simp_all add: plane_ok_def)
  have "map (\<lambda>i. (fst (?pat ! i), snd (?pat ! i), 0)) [log2_of s..<16]
      = map (\<lambda>i. (map fst ?pat ! i, map snd ?pat ! i, (0::nat))) [log2_of s..<16]"
    using ok(1) by (intro map_cong) simp_all
  then have "determines ?a ?b 0 (map (\<lambda>i. (map fst ?pat ! i, map snd ?pat ! i, kSw64kbRXVolumeZ ! i)) [log2_of s..<16])"
    using det by (subst determines_flat) (simp only:)
  from solid_swizzle[OF this ok(2,3)] log2_of_less[of s]
  show "volume_swizzle (bw64 s) (bh64 s) 1 65536 (bytes_of s) (rxv_off s)"
    by (simp add: sw64kb_dims_power)
qed

subsection \<open>Round trips\<close>

lemma ceil_div_pos: "0 < n \<Longrightarrow> 0 < d \<Longrightarrow> 0 < ceil_div n d"
  using ceil_div_covers[of d n] by (cases "ceil_div n d") auto

lemma vol_product:
  assumes v: "vol_ok w h d" and pos: "0 < bw" "0 < bh" "0 < bd" and b: "block \<le> 65536"
  shows "ceil_div w bw * ceil_div h bh * ceil_div d bd * block \<le> 2 ^ 58"
proof -
  have "ceil_div w bw * ceil_div h bh * ceil_div d bd * block \<le> 16384 * 16384 * 16384 * 65536"
    using v b order_trans[OF ceil_div_le[OF pos(1)]] order_trans[OF ceil_div_le[OF pos(2)]]
      order_trans[OF ceil_div_le[OF pos(3)]]
    by (intro mult_le_mono) (auto simp: vol_ok_def)
  then show ?thesis by simp
qed

lemma no_overflow: "(a::nat) * b \<le> UINT64_MAX \<Longrightarrow> 0 < a \<Longrightarrow> \<not> b > UINT64_MAX div a"
  by (simp add: not_less less_eq_div_iff_mult_less_eq mult.commute)

lemma s3_volume_bytes_exact:
  assumes v: "vol_ok w h d" and wh: "0 < w" "0 < h" "0 < d"
    and dims: "dims ! log2_of s = (dx, dy, dz)" "0 < dx" "0 < dy" "0 < dz" and bits: "bits \<le> 16"
  shows "s3_volume_bytes w h d (bytes_of s) bits dims = ceil_div w dx * ceil_div h dy * ceil_div d dz * 2 ^ bits"
proof -
  let ?x = "ceil_div w dx" and ?y = "ceil_div h dy" and ?z = "ceil_div d dz" and ?b = "(2::nat) ^ bits"
  have el: "log2_of s \<noteq> UINT32_MAX" using log2_of_less[of s] by simp
  have p: "0 < ?x" "0 < ?y" "0 < ?z" using wh dims by (simp_all add: ceil_div_pos)
  have "?b \<le> 2 ^ 16" using bits by (intro power_increasing) simp_all
  then have tot: "?x * ?y * ?z * ?b \<le> UINT64_MAX"
    using vol_product[OF v dims(2-4), of ?b] by simp
  have l1: "?x * ?b \<le> ?x * ?b * ?y" and l2: "?x * ?b * ?y \<le> ?x * ?b * ?y * ?z"
    using p by simp_all
  have tot': "?x * ?b * ?y * ?z \<le> UINT64_MAX" using tot by (simp only: ac_simps)
  have "?b * ?x \<le> UINT64_MAX" using l1 l2 tot' by (metis mult.commute order_trans)
  then have c1: "\<not> ?x > UINT64_MAX div ?b" by (rule no_overflow) simp
  have "?x * ?b * ?y \<le> UINT64_MAX" using l2 tot' by linarith
  then have c2: "\<not> ?y > UINT64_MAX div (?x * ?b)" by (rule no_overflow) (use p in simp)
  have "?x * ?y * ?b * ?z \<le> UINT64_MAX" using tot by (simp only: ac_simps)
  then have c3: "\<not> ?z > UINT64_MAX div (?x * ?y * ?b)" by (rule no_overflow) (use p in simp)
  show ?thesis
    unfolding s3_volume_bytes_def Let_def sw64kb_elem_log2_of dims(1) prod.case ceil_div_eq
    using wh el c1 c2 c3 by simp
qed

lemma s3_dims_pos:
  "0 < dim1 kSw64kbS3Dims s" "0 < dim2 kSw64kbS3Dims s" "0 < dim3 kSw64kbS3Dims s"
  "0 < dim1 kSw4kbS3Dims s" "0 < dim2 kSw4kbS3Dims s" "0 < dim3 kSw4kbS3Dims s"
  using s3_64kb.pos[of s] s3_4kb.pos[of s] by simp_all

lemma rx_volume_bytes_exact:
  assumes v: "vol_ok w h d" and wh: "0 < w" "0 < h"
  shows "sw64kb_rx_volume_bytes w h d (bytes_of s) = ceil_div w (bw64 s) * ceil_div h (bh64 s) * 65536 * d"
proof -
  have el: "log2_of s \<noteq> UINT32_MAX" using log2_of_less[of s] by simp
  have dims: "dims_ok w h 0" using v by (simp add: dims_ok_def vol_ok_def)
  let ?slice = "ceil_div w (bw64 s) * ceil_div h (bh64 s) * 65536"
  have slice: "sw64kb_tiled_bytes w h 0 (bytes_of s) = ?slice"
    using sizes_small[OF dims bw64_bounds(1-4), of s] u64_blocks[OF dims bw64_bounds(1,2), of 65536 s] el
    by (simp add: sw64kb_tiled_bytes_def Let_def case_prod_unfold mult.commute)
  have pos: "0 < ?slice" using wh bw64_bounds[of s] by (simp add: ceil_div_pos)
  have "?slice * d \<le> UINT64_MAX"
    using vol_product[OF v bw64_bounds(1)[of s] bw64_bounds(2)[of s] zero_less_one, of 65536] ceil_div_exact[of 1 d]
    by (simp add: ac_simps)
  from no_overflow[OF this pos] pos el show ?thesis
    unfolding sw64kb_rx_volume_bytes_def Let_def sw64kb_elem_log2_of slice by simp
qed

lemma copy_bytes_all: "length src = n \<Longrightarrow> length dst = n \<Longrightarrow> copy_bytes dst src n = Some src"
  by (simp add: copy_bytes_def read_at_def write_at_def)

text \<open>A tiled volume of either block family, between its two copies.\<close>

lemma solid_roundtrip:
  assumes sw: "volume_swizzle bw bh bd (2 ^ bits) n (solid_off mx my mz el bits)"
    and v: "vol_ok w h d" and bits: "bits \<le> 16"
    and tb: "tb = ceil_div w bw * ceil_div h bh * ceil_div d bd * 2 ^ bits"
    and len: "length src = w * h * d * n" "length out0 = w * h * d * n" "length dst = tb"
  shows "\<exists>T. solid_copy True dst src tb w h d n mx my mz el bits bw bh bd = Some T \<and> length T = tb \<and>
     solid_copy False out0 T tb w h d n mx my mz el bits bw bh bd = Some src"
proof -
  note pos = volume_swizzle.pos[OF sw]
  show ?thesis
    unfolding solid_copy_walk[OF v pos(1-3) bits]
    by (rule volume_swizzle.volume_roundtrip[OF sw volume_coords_spec ceil_div_covers[OF pos(1)] ceil_div_covers[OF pos(2)]])
       (simp_all add: tb len ac_simps)
qed

lemma tile_volume_eq:
  assumes "mode \<noteq> Linear" and "tile_mode_supports_volume env mode" and "need = tiled_volume_bytes env w h d mode bpe"
    and "0 < need" and "length dst = need"
  shows "tile_volume env dst need src w h d mode bpe =
     (let dst0 = replicate need 0 in
      if mode = Sw4KbS then s3_volume_copy True dst0 src need w h d bpe 12 kSw4kbS3Dims
      else if mode = Sw64KbS then s3_volume_copy True dst0 src need w h d bpe 16 kSw64kbS3Dims
      else sw64kb_rx_volume_copy True env dst0 src need w h d bpe)"
  using assms by (simp add: tile_volume_def write_at_def Let_def)

lemma volume_roundtrip_tiled:
  assumes mode: "tile_mode_supports_volume env mode" "mode \<noteq> Linear" and v: "vol_ok w h d"
    and wh: "0 < w" "0 < h" "0 < d"
    and len: "length src = w * h * d * bytes_of s" "length out = w * h * d * bytes_of s"
    and dst: "length dst = tiled_volume_bytes env w h d mode (bytes_of s)"
  shows "\<exists>T. tile_volume env dst (length dst) src w h d mode (bytes_of s) = Some (True, T) \<and> length T = length dst \<and>
     detile_volume env out T (length T) w h d mode (bytes_of s) = Some (True, src)"
proof -
  have el: "log2_of s \<noteq> UINT32_MAX" using log2_of_less[of s] by simp
  have m: "mode = Sw4KbS \<or> mode = Sw64KbS \<or> mode = Sw64KbRX" and pipes: "mode = Sw64KbRX \<Longrightarrow> sw64kb_rx_pipes_log2 env = 4"
    using mode by (auto simp: tile_mode_supports_volume_def)
  let ?tb = "tiled_volume_bytes env w h d mode (bytes_of s)"
  have bytes: "?tb = (if mode = Sw4KbS then s3_volume_bytes w h d (bytes_of s) 12 kSw4kbS3Dims
      else if mode = Sw64KbS then s3_volume_bytes w h d (bytes_of s) 16 kSw64kbS3Dims
      else sw64kb_rx_volume_bytes w h d (bytes_of s))"
    using mode wh by (simp add: tiled_volume_bytes_def)
  note tv = tile_volume_eq[OF mode(2,1) refl _ dst]
  consider "mode = Sw4KbS" | "mode = Sw64KbS" | "mode = Sw64KbRX" using m by blast
  then show ?thesis
  proof cases
    case 1
    let ?D = "kSw4kbS3Dims"
    have tb: "?tb = ceil_div w (dim1 ?D s) * ceil_div h (dim2 ?D s) * ceil_div d (dim3 ?D s) * 2 ^ 12"
      unfolding bytes if_P[OF 1] by (rule s3_volume_bytes_exact[OF v wh _ s3_dims_pos(4-6)]) simp_all
    have pos: "0 < ?tb" unfolding tb using wh s3_dims_pos[of s] by (simp add: ceil_div_pos)
    have sw: "volume_swizzle (dim1 ?D s) (dim2 ?D s) (dim3 ?D s) (2 ^ 12) (bytes_of s) (s3_off s 12)"
      using s3_4kb.volume_swizzle_axioms[of s] by simp
    from solid_roundtrip[OF sw v _ tb len(1,2), of "replicate ?tb 0"] show ?thesis
      unfolding dst tv[OF pos] by (auto simp: 1 detile_volume_def s3_volume_copy_def Let_def el case_prod_unfold
          tile_mode_supports_volume_def)
  next
    case 2
    let ?D = "kSw64kbS3Dims"
    have tb: "?tb = ceil_div w (dim1 ?D s) * ceil_div h (dim2 ?D s) * ceil_div d (dim3 ?D s) * 2 ^ 16"
    proof -
      have "?tb = s3_volume_bytes w h d (bytes_of s) 16 ?D" using bytes 2 by simp
      also have "\<dots> = ceil_div w (dim1 ?D s) * ceil_div h (dim2 ?D s) * ceil_div d (dim3 ?D s) * 2 ^ 16"
        by (rule s3_volume_bytes_exact[OF v wh _ s3_dims_pos(1-3)]) simp_all
      finally show ?thesis .
    qed
    have pos: "0 < ?tb" unfolding tb using wh s3_dims_pos[of s] by (simp add: ceil_div_pos)
    have sw: "volume_swizzle (dim1 ?D s) (dim2 ?D s) (dim3 ?D s) (2 ^ 16) (bytes_of s) (s3_off s 16)"
      using s3_64kb.volume_swizzle_axioms[of s] by simp
    from solid_roundtrip[OF sw v _ tb len(1,2), of "replicate ?tb 0"] show ?thesis
      unfolding dst tv[OF pos] by (auto simp: 2 detile_volume_def s3_volume_copy_def Let_def el case_prod_unfold
          tile_mode_supports_volume_def)
  next
    case 3
    have tb: "?tb = ceil_div w (bw64 s) * ceil_div h (bh64 s) * ceil_div d 1 * 2 ^ 16"
      using bytes 3 rx_volume_bytes_exact[OF v wh(1,2), of s] ceil_div_exact[of 1 d] by simp
    have pos: "0 < ?tb" unfolding tb using wh bw64_bounds[of s] by (simp add: ceil_div_pos)
    have sw: "volume_swizzle (bw64 s) (bh64 s) 1 (2 ^ 16) (bytes_of s) (rxv_off s)"
      using rx_volume.volume_swizzle_axioms[of s] by simp
    from solid_roundtrip[OF sw v _ tb len(1,2), of "replicate ?tb 0"] show ?thesis
      unfolding dst tv[OF pos] by (auto simp: 3 detile_volume_def sw64kb_rx_volume_copy_def Let_def el case_prod_unfold
          tile_mode_supports_volume_def pipes[OF 3])
  qed
qed

lemma msaa_bytes_exact:
  assumes v: "vol_ok w h 4" and wh: "0 < w" "0 < h"
  shows "tiled_msaa_surface_bytes w h Sw64KbZX (bytes_of s) 4
       = ceil_div w (2 ^ msaa_wb s) * ceil_div h (2 ^ msaa_hb s) * 65536"
proof -
  let ?x = "ceil_div w (2 ^ msaa_wb s)" and ?y = "ceil_div h (2 ^ msaa_hb s)"
  have el: "\<not> (log2_of s = UINT32_MAX \<or> log2_of s + 2 \<ge> 16)" using log2_of_less[of s] by simp
  have p: "(0::nat) < 2 ^ msaa_wb s" "(0::nat) < 2 ^ msaa_hb s" by simp_all
  have "?x * ?y * ceil_div 4 4 * 65536 \<le> 2 ^ 58"
    using v by (intro vol_product[OF _ p]) (simp_all add: vol_ok_def)
  then have "?x * ?y * 65536 \<le> UINT64_MAX" by (simp add: ceil_div_def)
  then have "?y \<le> UINT64_MAX div ?x div 65536"
    using ceil_div_pos[OF wh(1) p(1)] by (simp add: less_eq_div_iff_mult_less_eq ac_simps)
  then show ?thesis
    unfolding tiled_msaa_surface_bytes_def Let_def sw64kb_elem_log2_of if_not_P[OF el] msaa_block_bits_of prod.case
      ceil_div_eq
    using wh by simp
qed

lemma msaa_roundtrip_of:
  assumes v: "vol_ok w h 4" and wh: "0 < w" "0 < h"
    and len: "length src = 4 * (w * h * bytes_of s)" "length out = 4 * (w * h * bytes_of s)"
    and dst: "length dst = tiled_msaa_surface_bytes w h Sw64KbZX (bytes_of s) 4"
  shows "\<exists>T. tile_msaa_surface dst (length dst) src w h Sw64KbZX (bytes_of s) 4 = Some (True, T) \<and> length T = length dst \<and>
     detile_msaa_surface out T (length T) w h Sw64KbZX (bytes_of s) 4 = Some (True, src)"
proof -
  let ?tb = "tiled_msaa_surface_bytes w h Sw64KbZX (bytes_of s) 4"
  have p: "(0::nat) < 2 ^ msaa_wb s" "(0::nat) < 2 ^ msaa_hb s" by simp_all
  have tb: "ceil_div 4 4 * ceil_div h (2 ^ msaa_hb s) * ceil_div w (2 ^ msaa_wb s) * 65536 \<le> ?tb"
    unfolding msaa_bytes_exact[OF v wh] by (simp add: ceil_div_def)
  have pos: "0 < ?tb"
    unfolding msaa_bytes_exact[OF v wh] using ceil_div_pos[OF wh(1) p(1)] ceil_div_pos[OF wh(2) p(2)] by simp
  have "length src = w * h * 4 * bytes_of s" "length out = w * h * 4 * bytes_of s" using len by simp_all
  from msaa.volume_roundtrip[OF volume_coords_spec ceil_div_covers[OF p(1)] ceil_div_covers[OF p(2)] tb this(1) length_replicate this(2)]
  obtain T where "walk True (bytes_of s) ?tb src (msaa_addr s w h) (lin3 (bytes_of s) w h) (volume_coords w h 4) (replicate ?tb 0) = Some T"
    and "length T = ?tb"
    and "walk False (bytes_of s) ?tb T (msaa_addr s w h) (lin3 (bytes_of s) w h) (volume_coords w h 4) out = Some src"
    by blast
  moreover have "write_at dst 0 (replicate ?tb 0) = Some (replicate ?tb 0)" using dst by (simp add: write_at_def)
  ultimately show ?thesis
    unfolding tile_msaa_surface_def detile_msaa_surface_def Let_def msaa_copy_walk[OF v] using pos dst by simp
qed

subsection \<open>Properties\<close>

text \<open>A linear volume is copied as it is.\<close>

lemma volume_roundtrip_linear:
  assumes "bpe \<in> {1, 2, 4, 8, 16}" and "vol_ok w h d" and "0 < w" and "0 < h" and "0 < d"
    and "length src = w * h * d * bpe" and "length out = w * h * d * bpe"
    and "length dst = tiled_volume_bytes env w h d Linear bpe"
  shows "tile_volume env dst (length dst) src w h d Linear bpe = Some (True, src) \<and> length src = length dst \<and>
     detile_volume env out src (length src) w h d Linear bpe = Some (True, src)"
proof -
  have "w * h * d \<le> 16384 * 16384 * 16384"
    using assms(2) by (intro mult_le_mono) (auto simp: vol_ok_def)
  then have small: "w * h * d \<le> 4398046511104" by simp
  moreover have "bpe \<le> 16" "0 < bpe" using assms(1) by auto
  ultimately have "w * h * d * bpe \<le> 4398046511104 * 16"
    by (intro mult_le_mono) auto
  then have bytes: "w * h * d * bpe < 2 ^ 64" "w * h * d * bpe \<le> UINT64_MAX" by simp_all
  have "\<not> w * h * d > UINT64_MAX div bpe"
    using bytes(2) \<open>0 < bpe\<close> by (simp add: not_less less_eq_div_iff_mult_less_eq)
  then have need: "tiled_volume_bytes env w h d Linear bpe = w * h * d * bpe"
    using assms(3-5) \<open>0 < bpe\<close> small by (simp add: tiled_volume_bytes_def Let_def u64_id)
  have copy: "copy_bytes to src (w * h * d * bpe) = Some src" if "length to = w * h * d * bpe" for to
    using that assms(6) by (simp add: copy_bytes_def read_at_def write_at_def)
  show ?thesis
    using assms(3-8) \<open>0 < bpe\<close> bytes(1) copy[of dst] copy[of out]
    by (simp add: tile_volume_def detile_volume_def Let_def need u64_id)
qed

text \<open>
  C10: in every volume layout the code supports (linear, 4 KiB and 64 KiB standard 3D,
  pipe-rotated), tiling a volume succeeds within its buffers and detiling gives it back.
\<close>

theorem volume_tile_detile_roundtrip:
  assumes "tile_mode_supports_volume env mode" and "bpe \<in> {1, 2, 4, 8, 16}"
    and "vol_ok w h d" and "0 < w" and "0 < h" and "0 < d"
    and "length src = w * h * d * bpe" and "length out = w * h * d * bpe"
    and "length dst = tiled_volume_bytes env w h d mode bpe"
  shows "\<exists>T. tile_volume env dst (length dst) src w h d mode bpe = Some (True, T) \<and> length T = length dst \<and>
     detile_volume env out T (length T) w h d mode bpe = Some (True, src)"
proof (cases "mode = Linear")
  case True
  with volume_roundtrip_linear[OF assms(2-8)] assms(9) show ?thesis by blast
next
  case False
  obtain s where s: "bpe = bytes_of s" using assms(2) by (rule elem_size_cases)
  show ?thesis
    unfolding s by (rule volume_roundtrip_tiled[OF assms(1) False assms(3-6)]) (use assms(7-9) in \<open>simp_all add: s\<close>)
qed

lemma small_volume_bytes: "tiled_volume_bytes default_env 2 2 2 Sw4KbS 8 = 4096"
  by (simp add: tiled_volume_bytes_def tile_mode_supports_volume_def s3_volume_bytes_def sw64kb_elem_log2_def
      kSw4kbS3Dims_def)

theorem volume_tile_detile_roundtrip_witness:
  "\<exists>T. tile_volume default_env (replicate 4096 9) 4096 (replicate 64 5) 2 2 2 Sw4KbS 8 = Some (True, T) \<and> length T = 4096 \<and>
     detile_volume default_env (replicate 64 0) T (length T) 2 2 2 Sw4KbS 8 = Some (True, replicate 64 5)"
  using volume_tile_detile_roundtrip[of default_env Sw4KbS 8 2 2 2 "replicate 64 5" "replicate 64 0" "replicate 4096 9"]
    small_volume_bytes
  by (simp add: tile_mode_supports_volume_def vol_ok_def)

text \<open>
  C11: a four-sample depth surface survives tiling and detiling: the four sample planes come
  back unchanged, so the pattern keeps the samples of a pixel apart.
\<close>

theorem msaa_tile_detile_roundtrip:
  assumes "bpe \<in> {1, 2, 4, 8, 16}" and "vol_ok w h 4" and "0 < w" and "0 < h"
    and "length src = 4 * (w * h * bpe)" and "length out = 4 * (w * h * bpe)"
    and "length dst = tiled_msaa_surface_bytes w h Sw64KbZX bpe 4"
  shows "\<exists>T. tile_msaa_surface dst (length dst) src w h Sw64KbZX bpe 4 = Some (True, T) \<and> length T = length dst \<and>
     detile_msaa_surface out T (length T) w h Sw64KbZX bpe 4 = Some (True, src)"
proof -
  obtain s where s: "bpe = bytes_of s" using assms(1) by (rule elem_size_cases)
  show ?thesis
    unfolding s by (rule msaa_roundtrip_of[OF assms(2-4)]) (use assms(5-7) in \<open>simp_all add: s\<close>)
qed

lemma small_msaa_bytes: "tiled_msaa_surface_bytes 1 1 Sw64KbZX 4 4 = 65536"
  by (simp add: tiled_msaa_surface_bytes_def sw64kb_elem_log2_def msaa_block_bits_def Let_def)

theorem msaa_tile_detile_roundtrip_witness:
  "\<exists>T. tile_msaa_surface (replicate 65536 1) 65536 (map word_of_nat [0..<16]) 1 1 Sw64KbZX 4 4 = Some (True, T) \<and> length T = 65536 \<and>
     detile_msaa_surface (replicate 16 0) T (length T) 1 1 Sw64KbZX 4 4 = Some (True, map word_of_nat [0..<16])"
proof -
  have "length (replicate 65536 (1 :: byte)) = tiled_msaa_surface_bytes 1 1 Sw64KbZX 4 4"
    by (simp only: length_replicate small_msaa_bytes)
  from msaa_tile_detile_roundtrip[of 4 1 1 "map word_of_nat [0..<16]" "replicate 16 0" "replicate 65536 1", OF _ _ _ _ _ _ this]
  show ?thesis by (simp add: vol_ok_def)
qed

end
