(* ===== verification/TileMeta.thy ===== *)
theory TileMeta
  imports TileVolume
begin

text \<open>
  Compression metadata of \<open>gpu/texture/tile.cpp\<close>: the size and the fast-clear codes of DCC
  planes, and HTILE planes of four-sample depth surfaces, which say whether a depth surface is
  cleared, stored uncompressed, or in a form the code refuses.
\<close>

subsection \<open>DCC\<close>

definition gfx10_dcc_metadata_bytes :: "nat \<Rightarrow> nat \<Rightarrow> nat \<Rightarrow> nat \<Rightarrow> nat \<Rightarrow> nat" where
  "gfx10_dcc_metadata_bytes width height depth tile_mode bytes_per_texel =
     (if tile_mode \<noteq> Sw64KbRX \<or> width = 0 \<or> height = 0 \<or> depth = 0 then 0
      else let elem_log2 = sw64kb_elem_log2 bytes_per_texel in
        if elem_log2 = UINT32_MAX then 0
        else let meta_block_bytes = 4096;
                 meta_bits_log2 = 12 + 8 - elem_log2;
                 meta_width = 2 ^ ((meta_bits_log2 + 1) div 2);
                 meta_height = 2 ^ (meta_bits_log2 div 2);
                 blocks_w = (width + meta_width - 1) div meta_width;
                 blocks_h = (height + meta_height - 1) div meta_height
             in if blocks_w > UINT64_MAX div blocks_h then 0
                else let blocks_per_slice = blocks_w * blocks_h
                     in if blocks_per_slice > UINT64_MAX div depth then 0
                        else let blocks = blocks_per_slice * depth
                             in if blocks > UINT64_MAX div meta_block_bytes then 0
                                else blocks * meta_block_bytes)"

definition dcc_pixel :: "byte \<Rightarrow> nat \<Rightarrow> bool \<Rightarrow> byte list" where
  "dcc_pixel code num_components alpha_is_on_msb =
     (let color = (if code = 0x80 \<or> code = 0xc0 then 255 else 0)
      in if num_components = 4
         then let alpha = (if code = 0x40 \<or> code = 0xc0 then 255 else 0);
                  alpha_component = (if alpha_is_on_msb then 3 else 0)
              in (replicate 4 color)[alpha_component := alpha]
         else [color, color, color, 255])"

text \<open>Returns the clear code with the buffer.\<close>

definition gfx10_dcc_fast_clear_rgba8 ::
    "byte list \<Rightarrow> nat \<Rightarrow> byte list \<Rightarrow> nat \<Rightarrow> bool \<Rightarrow> (byte option \<times> byte list) option" where
  "gfx10_dcc_fast_clear_rgba8 dst texel_count metadata num_components alpha_is_on_msb =
     (if metadata = [] \<or> num_components \<noteq> 3 \<and> num_components \<noteq> 4 then Some (None, dst)
      else let code = hd metadata in
        if code \<noteq> 0x00 \<and> code \<noteq> 0x40 \<and> code \<noteq> 0x80 \<and> code \<noteq> 0xc0 then Some (None, dst)
        else if \<not> list_all (\<lambda>v. v = code) (tl metadata) then Some (None, dst)
        else map_option (Pair (Some code))
               (foldM (\<lambda>i d. write_at d (i * 4) (dcc_pixel code num_components alpha_is_on_msb))
                  [0..<texel_count] dst))"

subsection \<open>HTILE\<close>

definition gfx10_htile_msaa_metadata_bytes :: "nat \<Rightarrow> nat \<Rightarrow> nat \<Rightarrow> nat \<Rightarrow> bool \<Rightarrow> nat" where
  "gfx10_htile_msaa_metadata_bytes width height tile_mode sample_count pipe_aligned =
     (if width = 0 \<or> height = 0 \<or> sample_count \<noteq> 4 \<or> \<not> pipe_aligned \<or> tile_mode \<noteq> Sw64KbZX then 0
      else let blocks_x = (width + 1024 - 1) div 1024; blocks_y = (height + 512 - 1) div 512
           in if blocks_x \<noteq> 0 \<and> blocks_y > UINT64_MAX div blocks_x div 32768 then 0
              else blocks_x * blocks_y * 32768)"

definition dword_at :: "byte list \<Rightarrow> nat \<Rightarrow> nat" where
  "dword_at metadata offset' = le_nat (take 4 (drop offset' metadata))"

text \<open>The optional result \<open>uniform_value\<close> is the value returned.\<close>

definition gfx10_htile_metadata_is_decompressed :: "byte list \<Rightarrow> nat \<Rightarrow> nat option" where
  "gfx10_htile_metadata_is_decompressed metadata expected_bytes =
     (if expected_bytes = 0 \<or> length metadata \<noteq> expected_bytes \<or> length metadata mod 4 \<noteq> 0 then None
      else let first = dword_at metadata 0 in
        if first \<noteq> 0xfffc000f \<and> first \<noteq> 0xfffff3ff then None
        else if list_all (\<lambda>i. dword_at metadata (i * 4) = first) [1..<length metadata div 4]
             then Some first else None)"

datatype htile_source = Unsupported | UncompressedBase | DepthZeroFastClear

definition gfx10_htile_msaa_source ::
    "byte list \<Rightarrow> nat \<Rightarrow> nat \<Rightarrow> nat \<Rightarrow> nat \<Rightarrow> nat \<Rightarrow> bool \<Rightarrow> htile_source" where
  "gfx10_htile_msaa_source metadata width height tile_mode bytes_per_texel sample_count pipe_aligned =
     (if bytes_per_texel \<noteq> 4 then Unsupported
      else let expected = gfx10_htile_msaa_metadata_bytes width height tile_mode sample_count pipe_aligned in
        if expected = 0 \<or> length metadata \<noteq> expected then Unsupported
        else if list_all (\<lambda>v. v = 0) metadata then DepthZeroFastClear
        else if gfx10_htile_metadata_is_decompressed metadata expected \<noteq> None then UncompressedBase
        else Unsupported)"

text \<open>
  \<open>tiled_base = None\<close> is the null pointer. The result holds the flag, the buffer and the
  selected source.
\<close>

definition materialize_gfx10_htile_msaa_surface ::
    "byte list \<Rightarrow> byte list option \<Rightarrow> byte list \<Rightarrow> nat \<Rightarrow> nat \<Rightarrow> nat \<Rightarrow> nat \<Rightarrow> nat \<Rightarrow> bool
     \<Rightarrow> (bool \<times> byte list \<times> htile_source) option" where
  "materialize_gfx10_htile_msaa_surface dst tiled_base metadata width height tile_mode bytes_per_texel
      sample_count pipe_aligned =
     (if width = 0 \<or> height = 0 \<or> sample_count = 0 \<or> bytes_per_texel = 0 then Some (False, dst, Unsupported)
      else if width > UINT64_MAX div height then Some (False, dst, Unsupported)
      else if width * height > UINT64_MAX div sample_count then Some (False, dst, Unsupported)
      else if width * height * sample_count > UINT64_MAX div bytes_per_texel then Some (False, dst, Unsupported)
      else let linear_bytes = width * height * sample_count * bytes_per_texel in
        if length dst < linear_bytes then Some (False, dst, Unsupported)
        else case gfx10_htile_msaa_source metadata width height tile_mode bytes_per_texel sample_count pipe_aligned of
          DepthZeroFastClear \<Rightarrow>
            map_option (\<lambda>d. (True, d, DepthZeroFastClear)) (write_at dst 0 (replicate linear_bytes 0))
        | UncompressedBase \<Rightarrow>
            (let expected_base = tiled_msaa_surface_bytes width height tile_mode bytes_per_texel sample_count in
             case tiled_base of
               None \<Rightarrow> Some (False, dst, Unsupported)
             | Some base \<Rightarrow>
                 if expected_base = 0 \<or> length base < expected_base then Some (False, dst, Unsupported)
                 else map_option (\<lambda>(ok, d). (ok, d, if ok then UncompressedBase else Unsupported))
                        (detile_msaa_surface dst base (length base) width height tile_mode bytes_per_texel sample_count))
        | Unsupported \<Rightarrow> Some (False, dst, Unsupported))"

subsection \<open>Fast clears\<close>

lemma write_at_prefix:
  "length ys = n \<Longrightarrow> length xs = i * n \<Longrightarrow> length rest = k \<Longrightarrow>
   write_at (xs @ replicate n z @ rest) (i * n) ys = Some (xs @ ys @ rest)"
  by (simp add: write_at_def)

lemma fill_loop:
  assumes "length p = 4" and "length dst = 4 * (i + k)"
  shows "foldM (\<lambda>i d. write_at d (i * 4) p) [i..<i + k] dst =
     Some (take (4 * i) dst @ concat (replicate k p))"
  using assms(2)
proof (induction k arbitrary: i dst)
  case 0
  then show ?case by simp
next
  case (Suc k)
  let ?d = "take (i * 4) dst @ p @ drop (i * 4 + 4) dst"
  have w: "write_at dst (i * 4) p = Some ?d"
    using Suc.prems assms(1) by (simp add: write_at_def)
  have r: "[i..<i + Suc k] = i # [Suc i..<Suc i + k]"
    by (simp add: upt_conv_Cons)
  have "foldM (\<lambda>i d. write_at d (i * 4) p) [Suc i..<Suc i + k] ?d =
      Some (take (4 * Suc i) ?d @ concat (replicate k p))"
    using Suc.prems assms(1) by (intro Suc.IH) simp
  moreover have "take (4 * Suc i) ?d = take (4 * i) dst @ p"
    using Suc.prems assms(1) by (simp add: mult.commute)
  ultimately show ?case unfolding r foldM.simps w by simp
qed

lemma length_dcc_pixel [simp]: "length (dcc_pixel code c msb) = 4"
  by (simp add: dcc_pixel_def Let_def)

lemma uniform_replicate: "xs \<noteq> [] \<Longrightarrow> list_all (\<lambda>v. v = hd xs) (tl xs) \<longleftrightarrow> xs = replicate (length xs) (hd xs)"
proof (cases xs)
  case (Cons a as)
  have "as = replicate (length as) a \<longleftrightarrow> list_all (\<lambda>v. v = a) as"
    by (induction as) auto
  then show ?thesis using Cons by simp
qed simp

text \<open>The codes are the bytes whose upper two bits alone may be set.\<close>

lemma clear_code_iff: "code AND 0x3f = 0 \<longleftrightarrow> code \<in> {0x00, 0x40, 0x80, 0xc0 :: byte}"
proof
  assume "code AND 0x3f = 0"
  then have "take_bit 6 code = 0"
    by (simp add: take_bit_eq_mask mask_eq_exp_minus_1)
  then have "take_bit 6 (unat code) = 0"
    by (simp only: unsigned_take_bit_eq[symmetric] unsigned_0)
  then have "unat code mod 64 = 0"
    by (simp add: take_bit_eq_mod)
  moreover have "unat code < 256" using unsigned_less[of code, where ?'a = nat] by simp
  ultimately have "unat code \<in> {0, 64, 128, 192}" by (simp, presburger)
  then show "code \<in> {0x00, 0x40, 0x80, 0xc0}" by (auto simp: word_unat_eq_iff)
qed auto

text \<open>
  What a code means for byte \<open>k\<close> of a pixel: bit 7 is the colour, bit 6 the alpha, all ones or
  all zeros; a format of three components has no alpha and reads as opaque.
\<close>

definition clear_channel :: "byte \<Rightarrow> nat \<Rightarrow> bool \<Rightarrow> nat \<Rightarrow> byte" where
  "clear_channel code comps msb k =
     (let all = (\<lambda>b. if b then 255 else 0); alpha_at = (if comps = 3 \<or> msb then 3 else 0)
      in if k \<noteq> alpha_at then all (bit code 7) else all (comps = 3 \<or> bit code 6))"

lemma dcc_pixel_channels:
  "list_all (\<lambda>code. list_all (\<lambda>comps. list_all (\<lambda>msb.
     dcc_pixel code comps msb = map (clear_channel code comps msb) [0..<4]) [False, True]) [3, 4])
   [0x00, 0x40, 0x80, 0xc0]"
  by code_simp

lemma dcc_pixel_channel:
  assumes "code \<in> {0x00, 0x40, 0x80, 0xc0}" and "comps \<in> {3, 4}" and "k < 4"
  shows "dcc_pixel code comps msb ! k = clear_channel code comps msb k"
proof -
  have "dcc_pixel code comps msb = map (clear_channel code comps msb) [0..<4]"
    using dcc_pixel_channels assms(1,2) by (cases msb) auto
  with assms(3) show ?thesis by simp
qed

lemma nth_concat_replicate:
  "length p = n \<Longrightarrow> t < m \<Longrightarrow> k < n \<Longrightarrow> concat (replicate m p) ! (n * t + k) = p ! k"
proof (induction m arbitrary: t)
  case (Suc m)
  then show ?case by (cases t) (auto simp: nth_append)
qed simp

text \<open>
  C12: a DCC plane expands to a cleared surface exactly when all its bytes are one fast-clear
  code, one whose low six bits are zero, and the format has three or four components. Then every
  byte of every texel is all ones or all zeros as bit 7 (colour) and bit 6 (alpha) of the code
  say, with the alpha in the last byte or the first, and opaque where the format has none.
  Otherwise the destination is left alone.
\<close>

theorem dcc_fast_clear_exact:
  assumes "length dst = 4 * texel_count"
  shows "(if \<exists>code n. metadata = replicate (Suc n) code \<and> code AND 0x3f = 0 \<and> comps \<in> {3, 4}
     then \<exists>q. gfx10_dcc_fast_clear_rgba8 dst texel_count metadata comps msb = Some (Some (hd metadata), q) \<and>
       length q = 4 * texel_count \<and>
       (\<forall>t < texel_count. \<forall>k < 4. q ! (4 * t + k) = clear_channel (hd metadata) comps msb k)
     else gfx10_dcc_fast_clear_rgba8 dst texel_count metadata comps msb = Some (None, dst))"
proof (cases "\<exists>code n. metadata = replicate (Suc n) code \<and> code AND 0x3f = 0 \<and> comps \<in> {3, 4}")
  case True
  then obtain code n where m: "metadata = replicate (Suc n) code" and code: "code \<in> {0x00, 0x40, 0x80, 0xc0}"
    and comps: "comps \<in> {3, 4}" using clear_code_iff by blast
  let ?q = "concat (replicate texel_count (dcc_pixel code comps msb))"
  have "foldM (\<lambda>i d. write_at d (i * 4) (dcc_pixel code comps msb)) [0..<texel_count] dst = Some ?q"
    using fill_loop[of "dcc_pixel code comps msb" dst 0 texel_count] assms by simp
  then have "gfx10_dcc_fast_clear_rgba8 dst texel_count metadata comps msb = Some (Some code, ?q)"
    unfolding gfx10_dcc_fast_clear_rgba8_def Let_def m using code comps by (auto simp: list_all_iff)
  moreover have "length ?q = 4 * texel_count"
    by (simp add: length_concat sum_list_replicate)
  moreover have "?q ! (4 * t + k) = clear_channel code comps msb k" if "t < texel_count" "k < 4" for t k
    using that dcc_pixel_channel[OF code comps that(2)] by (simp add: nth_concat_replicate)
  ultimately show ?thesis using True m by auto
next
  case False
  have "\<not> (metadata \<noteq> [] \<and> comps \<in> {3, 4} \<and> hd metadata \<in> {0x00, 0x40, 0x80, 0xc0} \<and>
      list_all (\<lambda>v. v = hd metadata) (tl metadata))"
  proof
    assume ok: "metadata \<noteq> [] \<and> comps \<in> {3, 4} \<and> hd metadata \<in> {0x00, 0x40, 0x80, 0xc0} \<and>
      list_all (\<lambda>v. v = hd metadata) (tl metadata)"
    then have "metadata = replicate (Suc (length metadata - 1)) (hd metadata)"
      using uniform_replicate[of metadata] by (cases metadata) auto
    with ok False clear_code_iff[of "hd metadata"] show False by blast
  qed
  then have "gfx10_dcc_fast_clear_rgba8 dst texel_count metadata comps msb = Some (None, dst)"
    unfolding gfx10_dcc_fast_clear_rgba8_def Let_def by (auto split: if_splits)
  with False show ?thesis by simp
qed

theorem dcc_fast_clear_exact_witness:
  "\<exists>q. gfx10_dcc_fast_clear_rgba8 (replicate 8 9) 2 [0x80, 0x80, 0x80] 4 True = Some (Some 0x80, q) \<and>
     q ! 2 = 255 \<and> q ! 3 = 0 \<and> q ! 7 = 0"
proof -
  have m: "[0x80, 0x80, 0x80] = replicate (Suc 2) (0x80 :: byte)" by (simp add: numeral_2_eq_2)
  have "\<exists>code n. [0x80, 0x80, 0x80] = replicate (Suc n) (code :: byte) \<and> code AND 0x3f = 0 \<and> (4 :: nat) \<in> {3, 4}"
    by (rule exI[of _ "0x80"], rule exI[of _ 2]) (simp add: m)
  with dcc_fast_clear_exact[of "replicate 8 9" 2 "[0x80, 0x80, 0x80]" 4 True] obtain q
    where q: "gfx10_dcc_fast_clear_rgba8 (replicate 8 9) 2 [0x80, 0x80, 0x80] 4 True = Some (Some 0x80, q)"
      and v: "\<forall>t < 2. \<forall>k < 4. q ! (4 * t + k) = clear_channel 0x80 4 True k" by auto
  from v[rule_format, of 0 2] v[rule_format, of 0 3] v[rule_format, of 1 3]
  have "q ! 2 = 255 \<and> q ! 3 = 0 \<and> q ! 7 = 0" by (simp add: clear_channel_def numeral_2_eq_2)
  with q show ?thesis by blast
qed

subsection \<open>Depth surfaces under HTILE\<close>

lemma le_nat_dword: "le_nat (le_bytes 4 v) = v mod 4294967296"
  unfolding le_nat_le_bytes by simp

lemma dword_at_replicate:
  assumes "i < k"
  shows "dword_at (concat (replicate k (le_bytes 4 v))) (i * 4) = v mod 4294967296"
proof -
  have "concat (replicate k (le_bytes 4 v)) =
      concat (replicate i (le_bytes 4 v)) @ le_bytes 4 v @ concat (replicate (k - i - 1) (le_bytes 4 v))"
    using assms replicate_add[of i "Suc (k - i - 1)" "le_bytes 4 v"] by simp
  moreover have "length (concat (replicate i (le_bytes 4 v))) = i * 4"
    by (simp add: length_concat sum_list_replicate)
  ultimately show ?thesis by (simp add: dword_at_def le_nat_dword)
qed

definition decompressed_plane :: "nat \<Rightarrow> nat \<Rightarrow> byte list" where
  "decompressed_plane bytes v = concat (replicate (bytes div 4) (le_bytes 4 v))"

lemma decompressed_plane_recognised:
  assumes "0 < bytes" and "4 dvd bytes" and "v = 0xfffc000f \<or> v = 0xfffff3ff"
  shows "gfx10_htile_metadata_is_decompressed (decompressed_plane bytes v) bytes = Some v"
    and "\<not> list_all (\<lambda>b. b = 0) (decompressed_plane bytes v)"
    and "length (decompressed_plane bytes v) = bytes"
proof -
  from assms(1,2) obtain k where k: "bytes = 4 * k" and k0: "0 < k" by (auto elim: dvdE)
  have v: "v mod 4294967296 = v" using assms(3) by auto
  have len: "length (concat (replicate k (le_bytes 4 v))) = 4 * k"
    by (simp add: length_concat sum_list_replicate)
  have d: "dword_at (concat (replicate k (le_bytes 4 v))) (i * 4) = v" if "i < k" for i
    using dword_at_replicate[OF that, of v] v by simp
  from d[of 0] k0 have d0: "dword_at (concat (replicate k (le_bytes 4 v))) 0 = v" by simp
  show "length (decompressed_plane bytes v) = bytes"
    by (simp add: decompressed_plane_def k len)
  show "gfx10_htile_metadata_is_decompressed (decompressed_plane bytes v) bytes = Some v"
    unfolding gfx10_htile_metadata_is_decompressed_def decompressed_plane_def k Let_def
    using k0 d assms(3) by (auto simp: len d0 list_all_iff)
  have "word_of_nat v \<in> set (le_bytes (Suc 3) v)"
    by (simp only: le_bytes.simps list.set_intros)
  then have "word_of_nat v \<in> set (decompressed_plane bytes v)"
    using k0 by (auto simp: decompressed_plane_def k)
  moreover have "unat (word_of_nat v :: byte) \<noteq> 0"
    unfolding unat_byte_of_nat using assms(3) by auto
  then have "(word_of_nat v :: byte) \<noteq> 0" by auto
  ultimately show "\<not> list_all (\<lambda>b. b = 0) (decompressed_plane bytes v)"
    by (auto simp: list_all_iff)
qed

lemma htile_bytes_exact:
  assumes "vol_ok w h 4" and "0 < w" and "0 < h"
  shows "gfx10_htile_msaa_metadata_bytes w h Sw64KbZX 4 True = ceil_div w 1024 * ceil_div h 512 * 32768"
    and "0 < gfx10_htile_msaa_metadata_bytes w h Sw64KbZX 4 True"
    and "4 dvd gfx10_htile_msaa_metadata_bytes w h Sw64KbZX 4 True"
proof -
  have w: "ceil_div w 1024 \<le> w" "ceil_div h 512 \<le> h" by (simp_all add: ceil_div_le)
  have p: "0 < ceil_div w 1024" "0 < ceil_div h 512" using assms(2,3) by (simp_all add: ceil_div_pos)
  have b: "w \<le> 16384" "h \<le> 16384" using assms(1) by (simp_all add: vol_ok_def)
  have "ceil_div w 1024 * ceil_div h 512 \<le> 16384 * 16384"
    using w b by (intro mult_le_mono) linarith+
  then have "32768 * ceil_div w 1024 * ceil_div h 512 \<le> UINT64_MAX" by simp
  then have "\<not> ceil_div h 512 > UINT64_MAX div ceil_div w 1024 div 32768"
    unfolding div_mult2_eq[symmetric] using p
    by (simp add: not_less less_eq_div_iff_mult_less_eq ac_simps)
  then show e: "gfx10_htile_msaa_metadata_bytes w h Sw64KbZX 4 True = ceil_div w 1024 * ceil_div h 512 * 32768"
    unfolding gfx10_htile_msaa_metadata_bytes_def Let_def ceil_div_eq using assms(2,3) by simp
  show "0 < gfx10_htile_msaa_metadata_bytes w h Sw64KbZX 4 True" unfolding e using p by simp
  show "4 dvd gfx10_htile_msaa_metadata_bytes w h Sw64KbZX 4 True" unfolding e by (simp add: dvd_mult)
qed

lemma linear_bound:
  assumes "vol_ok w h 4" and "0 < w" and "0 < h"
  shows "\<not> UINT64_MAX div h < w" and "\<not> UINT64_MAX div 4 < w * h" and "\<not> UINT64_MAX div 4 < w * h * 4"
proof -
  have "w * h \<le> 16384 * 16384" using assms(1) by (intro mult_le_mono) (auto simp: vol_ok_def)
  then show "\<not> UINT64_MAX div h < w" and "\<not> UINT64_MAX div 4 < w * h" and "\<not> UINT64_MAX div 4 < w * h * 4"
    using assms(3) by (simp_all add: not_less less_eq_div_iff_mult_less_eq)
qed

text \<open>
  Whatever the base allocation holds (no base at all, a short one, stale bytes), a depth
  surface whose HTILE plane is all zero materialises as zeros in its whole linear extent, and
  nothing outside that extent changes.
\<close>

lemma htile_fast_clear_ignores_base:
  assumes "vol_ok w h 4" and "0 < w" and "0 < h" and "w * h * 4 * 4 \<le> length dst"
    and "metadata = replicate (gfx10_htile_msaa_metadata_bytes w h Sw64KbZX 4 True) 0"
  shows "materialize_gfx10_htile_msaa_surface dst base metadata w h Sw64KbZX 4 4 True =
    Some (True, replicate (w * h * 4 * 4) 0 @ drop (w * h * 4 * 4) dst, DepthZeroFastClear)"
proof -
  note b = htile_bytes_exact[OF assms(1-3)]
  have "gfx10_htile_msaa_source metadata w h Sw64KbZX 4 4 True = DepthZeroFastClear"
    unfolding gfx10_htile_msaa_source_def Let_def assms(5) using b(2) by (simp add: list_all_iff)
  moreover note linear_bound[OF assms(1-3)]
  ultimately show ?thesis
    unfolding materialize_gfx10_htile_msaa_surface_def Let_def using assms(2-4)
    by (simp add: write_at_def)
qed

lemma small_htile_bytes: "gfx10_htile_msaa_metadata_bytes 1 1 Sw64KbZX 4 True = 32768"
  by (simp add: gfx10_htile_msaa_metadata_bytes_def Let_def)

text \<open>
  A depth surface whose HTILE plane says "decompressed" (either of the two encodings, in every
  dword) is read from its base: the samples tiled into that base come back, and a base that is
  missing or shorter than the layout is refused with the destination unchanged.
\<close>

lemma htile_uncompressed_reads_base:
  assumes "vol_ok w h 4" and "0 < w" and "0 < h"
    and "length src = 4 * (w * h * 4)" and "length dst = 4 * (w * h * 4)"
    and "length old = tiled_msaa_surface_bytes w h Sw64KbZX 4 4"
    and "v = 0xfffc000f \<or> v = 0xfffff3ff"
    and "metadata = decompressed_plane (gfx10_htile_msaa_metadata_bytes w h Sw64KbZX 4 True) v"
  shows "(\<exists>T. tile_msaa_surface old (length old) src w h Sw64KbZX 4 4 = Some (True, T) \<and>
        materialize_gfx10_htile_msaa_surface dst (Some T) metadata w h Sw64KbZX 4 4 True =
          Some (True, src, UncompressedBase)) \<and>
      materialize_gfx10_htile_msaa_surface dst None metadata w h Sw64KbZX 4 4 True = Some (False, dst, Unsupported) \<and>
      (length short < length old \<longrightarrow>
        materialize_gfx10_htile_msaa_surface dst (Some short) metadata w h Sw64KbZX 4 4 True =
          Some (False, dst, Unsupported))"
proof -
  note b = htile_bytes_exact[OF assms(1-3)]
  note p = decompressed_plane_recognised[OF b(2,3) assms(7), folded assms(8)]
  have s: "gfx10_htile_msaa_source metadata w h Sw64KbZX 4 4 True = UncompressedBase"
    unfolding gfx10_htile_msaa_source_def Let_def using b(2) p by simp
  note l = linear_bound[OF assms(1-3)]
  obtain T where T: "tile_msaa_surface old (length old) src w h Sw64KbZX 4 4 = Some (True, T)"
      "length T = length old" "detile_msaa_surface dst T (length T) w h Sw64KbZX 4 4 = Some (True, src)"
    using msaa_roundtrip_of[of w h src B4 dst old] assms(1-6) by auto
  have e: "0 < length old" using T(3) unfolding detile_msaa_surface_def Let_def T(2) assms(6)
    by (auto split: if_splits)
  have n: "w \<noteq> 0" "h \<noteq> 0" using assms(2,3) by simp_all
  have len: "\<not> length dst < w * h * 4 * 4" using assms(5) by simp
  note m = materialize_gfx10_htile_msaa_surface_def Let_def s htile_source.case assms(6)[symmetric]
  have "\<exists>T. tile_msaa_surface old (length old) src w h Sw64KbZX 4 4 = Some (True, T) \<and>
      materialize_gfx10_htile_msaa_surface dst (Some T) metadata w h Sw64KbZX 4 4 True =
        Some (True, src, UncompressedBase)"
    unfolding m using T e n len l by (intro exI[of _ T]) simp
  moreover have "length short < length old \<longrightarrow>
      materialize_gfx10_htile_msaa_surface dst (Some short) metadata w h Sw64KbZX 4 4 True = Some (False, dst, Unsupported)"
    unfolding m using n len l by simp
  moreover have "materialize_gfx10_htile_msaa_surface dst None metadata w h Sw64KbZX 4 4 True = Some (False, dst, Unsupported)"
    unfolding m using n len l by simp
  ultimately show ?thesis by blast
qed

end
