(* ===== verification/TileLevels.thy ===== *)
theory TileLevels
  imports TileVolume
begin

text \<open>
  Mip chains of \<open>gpu/texture/tile.cpp\<close>: where each level of a chain lies, the packed tail that
  holds the small levels in one block, and the copies of one level inside that tail. Levels of
  a chain do not overlap, and writing a packed level leaves its siblings alone.
\<close>

unbundle bit_operations_syntax

subsection \<open>Placement of the levels\<close>

record mip_layout =
  ml_byte_offset :: nat
  ml_tail_x :: nat
  ml_tail_y :: nat
  ml_tail_block_bytes :: nat
  ml_in_tail :: bool
  ml_supported :: bool

definition no_layout :: mip_layout where
  "no_layout = \<lparr>ml_byte_offset = 0, ml_tail_x = 0, ml_tail_y = 0, ml_tail_block_bytes = 0,
     ml_in_tail = False, ml_supported = False\<rparr>"

text \<open>\<open>std::max(e >> level, 1u)\<close>\<close>

definition mip_dim :: "nat \<Rightarrow> nat \<Rightarrow> nat" where
  "mip_dim e level = max (e div 2 ^ level) 1"

text \<open>
  Bytes of one level whose rows are padded to multiples of \<open>align_w\<close> elements and whose height
  is padded to multiples of \<open>align_h\<close>; linear levels have \<open>align_h = 1\<close>.
\<close>

definition level_bytes :: "nat \<Rightarrow> nat \<Rightarrow> nat \<Rightarrow> nat \<Rightarrow> nat \<Rightarrow> nat \<Rightarrow> nat" where
  "level_bytes align_w align_h ew eh bpe level =
     (let width = mip_dim ew level; height = mip_dim eh level;
          pitch = u32 (u32 (width + align_w - 1) div align_w * align_w);
          padded_height = u32 (u32 (height + align_h - 1) div align_h * align_h)
      in u64 (pitch * padded_height * bpe))"

text \<open>The loops over the smaller levels. \<open>None\<close> is the return of an empty layout on overflow.\<close>

fun add_levels :: "(nat \<Rightarrow> nat) \<Rightarrow> nat list \<Rightarrow> nat \<Rightarrow> nat option" where
  "add_levels bytes [] offs = Some offs"
| "add_levels bytes (level # levels) offs =
     (if offs > UINT64_MAX - bytes level then None else add_levels bytes levels (offs + bytes level))"

fun find_level :: "(nat \<Rightarrow> nat) \<Rightarrow> nat \<Rightarrow> nat list \<Rightarrow> nat \<Rightarrow> nat option" where
  "find_level bytes mip_level [] offs = None"
| "find_level bytes mip_level (level # levels) offs =
     (if level = mip_level then Some offs
      else if offs > UINT64_MAX - bytes level then None
      else find_level bytes mip_level levels (offs + bytes level))"

definition placed :: "nat option \<Rightarrow> mip_layout" where
  "placed offs = (case offs of None \<Rightarrow> no_layout
     | Some offs \<Rightarrow> no_layout\<lparr>ml_byte_offset := offs, ml_supported := True\<rparr>)"

text \<open>The first level that fits the tail, if any.\<close>

definition first_tail_level :: "nat \<Rightarrow> nat \<Rightarrow> nat \<Rightarrow> nat \<Rightarrow> nat \<Rightarrow> nat \<Rightarrow> nat" where
  "first_tail_level ew eh tail_width tail_height max_tail_levels num_levels =
     (case find (\<lambda>level. mip_dim ew level \<le> tail_width \<and> mip_dim eh level \<le> tail_height \<and>
                   num_levels - level \<le> max_tail_levels) [0..<num_levels] of
        None \<Rightarrow> num_levels | Some level \<Rightarrow> level)"

definition tail_origin_blocks :: "nat \<Rightarrow> nat \<times> nat" where
  "tail_origin_blocks mip_offset =
     ((drop_bit 9 mip_offset AND 1) OR (drop_bit 10 mip_offset AND 2) OR
      (drop_bit 11 mip_offset AND 4) OR (drop_bit 12 mip_offset AND 8) OR
      (drop_bit 13 mip_offset AND 16) OR (drop_bit 14 mip_offset AND 32),
      (drop_bit 8 mip_offset AND 1) OR (drop_bit 9 mip_offset AND 2) OR
      (drop_bit 10 mip_offset AND 4) OR (drop_bit 11 mip_offset AND 8) OR
      (drop_bit 12 mip_offset AND 16) OR (drop_bit 13 mip_offset AND 32))"

definition tail_mip_offset :: "nat \<Rightarrow> nat" where
  "tail_mip_offset m = (if m > 6 then push_bit m 16 else push_bit 8 m)"

definition tail_layout :: "nat \<Rightarrow> nat \<Rightarrow> nat \<Rightarrow> mip_layout" where
  "tail_layout block_log2 bpe m =
     (let mip_offset = tail_mip_offset m;
          (mip_x, mip_y) = tail_origin_blocks mip_offset;
          elem_log2 = ctz bpe;
          (mip_x, mip_y) =
            (if odd block_log2
             then if odd elem_log2 then (mip_y div 2, push_bit 1 mip_x OR (mip_y AND 1)) else (mip_y, mip_x)
             else (mip_x, mip_y))
      in if elem_log2 \<ge> 5 then no_layout
         else \<lparr>ml_byte_offset = mip_offset,
               ml_tail_x = mip_x * [16, 16, 8, 8, 4] ! elem_log2,
               ml_tail_y = mip_y * [16, 8, 8, 4, 4] ! elem_log2,
               ml_tail_block_bytes = 2 ^ block_log2, ml_in_tail = True, ml_supported = True\<rparr>)"

definition macro_mip_layout ::
    "nat \<Rightarrow> nat \<Rightarrow> nat \<Rightarrow> nat \<Rightarrow> nat \<Rightarrow> nat \<Rightarrow> nat \<Rightarrow> nat \<Rightarrow> mip_layout" where
  "macro_mip_layout block_width block_height block_log2 ew eh bpe max_mip mip_level =
     (if max_mip = 0 then placed (Some 0)
      else let num_levels = max_mip + 1;
               tail_width = block_width div 2; tail_height = block_height;
               max_tail_levels = (if block_log2 \<le> 11 then 1 + 2 ^ (block_log2 - 9) else block_log2 - 4);
               first_tail = first_tail_level ew eh tail_width tail_height max_tail_levels num_levels
           in if mip_level \<ge> first_tail
              then tail_layout block_log2 bpe (u32_sub (u32_sub max_tail_levels 1) (u32_sub mip_level first_tail))
              else placed (find_level (level_bytes block_width block_height ew eh bpe) mip_level
                     (rev [0..<first_tail]) (if first_tail = num_levels then 0 else 2 ^ block_log2)))"

definition tiled_mip_level_layout :: "nat \<Rightarrow> nat \<Rightarrow> nat \<Rightarrow> nat \<Rightarrow> nat \<Rightarrow> nat \<Rightarrow> mip_layout" where
  "tiled_mip_level_layout ew eh bpe tile_mode max_mip mip_level =
     (if ew = 0 \<or> eh = 0 \<or> bpe = 0 \<or> mip_level > max_mip \<or> max_mip \<ge> 16 then no_layout
      else let smaller = rev [mip_level + 1..<max_mip + 1] in
        if tile_mode = Linear
        then if bpe > 256 \<or> 256 mod bpe \<noteq> 0 then no_layout
             else placed (add_levels (level_bytes (256 div bpe) 1 ew eh bpe) smaller 0)
        else if \<not> tile_mode_is_tiled tile_mode then no_layout
        else if tile_mode = Sw256BS
        then if bpe \<notin> {1, 2, 4, 8, 16} then no_layout
             else case sw256_dims bpe of (bx, by') \<Rightarrow>
               placed (add_levels (level_bytes (2 ^ bx) (2 ^ by') ew eh bpe) smaller 0)
        else if is_64kb_mode tile_mode
        then let elem_log2 = sw64kb_elem_log2 bpe in
             if elem_log2 = UINT32_MAX then no_layout
             else case sw64kb_dims elem_log2 of (bw, bh) \<Rightarrow> macro_mip_layout bw bh 16 ew eh bpe max_mip mip_level
        else if bpe \<notin> {1, 2, 4, 8, 16} then no_layout
             else case sw4kb_dims bpe of (bx, by') \<Rightarrow>
               macro_mip_layout (2 ^ bx) (2 ^ by') 12 ew eh bpe max_mip mip_level)"

definition tiled_mip_chain_bytes :: "nat \<Rightarrow> nat \<Rightarrow> nat \<Rightarrow> nat \<Rightarrow> nat \<Rightarrow> nat" where
  "tiled_mip_chain_bytes ew eh bpe tile_mode max_mip =
     (let level_zero = tiled_mip_level_layout ew eh bpe tile_mode max_mip 0 in
      if \<not> ml_supported level_zero then 0
      else if ml_in_tail level_zero then ml_tail_block_bytes level_zero
      else let level_zero_bytes =
                 (if tile_mode = Linear then linear_sampled_surface_bytes ew eh bpe
                  else tiled_surface_bytes ew eh tile_mode 0 bpe)
           in if level_zero_bytes = 0 \<or> ml_byte_offset level_zero > UINT64_MAX - level_zero_bytes then 0
              else ml_byte_offset level_zero + level_zero_bytes)"

definition tiled_mip_level_offset :: "nat \<Rightarrow> nat \<Rightarrow> nat \<Rightarrow> nat \<Rightarrow> nat \<Rightarrow> nat \<Rightarrow> nat" where
  "tiled_mip_level_offset ew eh bpe tile_mode max_mip mip_level =
     (let layout = tiled_mip_level_layout ew eh bpe tile_mode max_mip mip_level
      in if ml_supported layout \<and> \<not> ml_in_tail layout then ml_byte_offset layout else 0)"

subsection \<open>Copies of one level\<close>

definition sw4kb_level_addr :: "sw_lookup \<Rightarrow> nat \<Rightarrow> nat \<Rightarrow> nat" where
  "sw4kb_level_addr lookup gx gy =
     (let block = gy div lk_th lookup + gx div lk_tw lookup
      in block * 4096 + byte_offsets lookup ! (gy mod lk_th lookup * lk_tw lookup + gx mod lk_tw lookup))"

definition sw4kb_level_copy ::
    "bool \<Rightarrow> byte list \<Rightarrow> byte list \<Rightarrow> nat \<Rightarrow> nat \<Rightarrow> nat \<Rightarrow> nat \<Rightarrow> nat \<Rightarrow> nat \<Rightarrow> byte list option" where
  "sw4kb_level_copy to_tiled dst src tiled_bytes ew eh bpe tail_x tail_y =
     (let lookup = sw4kb_lookup bpe in
      foldM (\<lambda>y.
        let gy = u32 (tail_y + y) in
        foldM (\<lambda>x.
          let gx = u32 (tail_x + x); tiled = sw4kb_level_addr lookup gx gy; linear = (y * ew + x) * bpe
          in move_elem to_tiled bpe tiled_bytes src tiled linear) [0..<ew]) [0..<eh] dst)"

definition sw64kb_level_addr :: "pat_bit list \<Rightarrow> nat \<Rightarrow> nat \<Rightarrow> nat \<Rightarrow> nat \<Rightarrow> nat \<Rightarrow> nat" where
  "sw64kb_level_addr pat el bw bh gx gy =
     (let within = foldl (\<lambda>w i. w OR push_bit i
            ((popcount (gx AND fst (pat ! i)) XOR popcount (gy AND snd (pat ! i))) AND 1)) 0 [el..<16];
          block = gy div bh + gx div bw
      in block * 65536 + within)"

definition sw64kb_level_copy ::
    "bool \<Rightarrow> tile_env \<Rightarrow> byte list \<Rightarrow> byte list \<Rightarrow> nat \<Rightarrow> nat \<Rightarrow> nat \<Rightarrow> nat \<Rightarrow> nat \<Rightarrow> nat \<Rightarrow> nat
     \<Rightarrow> byte list option" where
  "sw64kb_level_copy to_tiled env dst src tiled_bytes ew eh bpe tile_mode tail_x tail_y =
     (let el = sw64kb_elem_log2 bpe in
      if el = UINT32_MAX then Some dst
      else case sw64kb_dims el of (bw, bh) \<Rightarrow>
        let pat = sw64kb_pattern env tile_mode el in
        foldM (\<lambda>y.
          let gy = u32 (tail_y + y) in
          foldM (\<lambda>x.
            let gx = u32 (tail_x + x); tiled = sw64kb_level_addr pat el bw bh gx gy;
                linear = (y * ew + x) * bpe
            in move_elem to_tiled bpe tiled_bytes src tiled linear) [0..<ew]) [0..<eh] dst)"

definition detile_elements_level ::
    "tile_env \<Rightarrow> byte list \<Rightarrow> byte list \<Rightarrow> nat \<Rightarrow> nat \<Rightarrow> nat \<Rightarrow> nat \<Rightarrow> nat \<Rightarrow> nat \<Rightarrow> nat \<Rightarrow> byte list option" where
  "detile_elements_level env dst src src_bytes ew eh bpe tile_mode tail_x tail_y =
     (let linear_bytes = u64 (ew * eh * bpe) in
      if bpe = 0 then (if linear_bytes \<noteq> 0 then write_at dst 0 (replicate linear_bytes 0) else Some dst)
      else if \<not> tile_mode_is_tiled tile_mode
      then let n = min linear_bytes src_bytes
           in Option.bind (copy_bytes dst src n) (\<lambda>dst'.
                if n < linear_bytes then write_at dst' n (replicate (linear_bytes - n) 0) else Some dst')
      else if is_64kb_mode tile_mode
      then sw64kb_level_copy False env dst src src_bytes ew eh bpe tile_mode tail_x tail_y
      else if tile_mode = Sw256BS then sw256_copy False dst src ew eh 0 bpe src_bytes
      else sw4kb_level_copy False dst src src_bytes ew eh bpe tail_x tail_y)"

definition detile_surface_level ::
    "tile_env \<Rightarrow> byte list \<Rightarrow> byte list \<Rightarrow> nat \<Rightarrow> nat \<Rightarrow> nat \<Rightarrow> nat \<Rightarrow> nat \<Rightarrow> nat \<Rightarrow> nat \<Rightarrow> byte list option" where
  "detile_surface_level env dst src src_bytes width height tile_mode bytes_per_texel tail_x tail_y =
     detile_elements_level env dst src src_bytes width height bytes_per_texel tile_mode tail_x tail_y"

definition tile_surface_level ::
    "tile_env \<Rightarrow> byte list \<Rightarrow> nat \<Rightarrow> byte list \<Rightarrow> nat \<Rightarrow> nat \<Rightarrow> nat \<Rightarrow> nat \<Rightarrow> nat \<Rightarrow> nat \<Rightarrow> byte list option" where
  "tile_surface_level env dst dst_bytes src width height tile_mode bytes_per_texel tail_x tail_y =
     (if bytes_per_texel = 0 then Some dst
      else let linear_bytes = u64 (width * height * bytes_per_texel) in
        if \<not> tile_mode_is_tiled tile_mode then copy_bytes dst src (min linear_bytes dst_bytes)
        else if is_64kb_mode tile_mode
        then sw64kb_level_copy True env dst src dst_bytes width height bytes_per_texel tile_mode tail_x tail_y
        else if tile_mode = Sw256BS then sw256_copy True dst src width height 0 bytes_per_texel dst_bytes
        else sw4kb_level_copy True dst src dst_bytes width height bytes_per_texel tail_x tail_y)"

subsection \<open>The packed tail\<close>

text \<open>
  \<open>tail_room\<close> is the largest rectangle the \<open>k\<close>-th packed level can occupy in a block of
  \<open>block_width\<close> by \<open>block_height\<close> elements.
\<close>

definition tail_blocks :: "(nat \<times> nat) list" where
  "tail_blocks = [(0, 0), (0, 1), (1, 0), (1, 1), (0, 2), (0, 3), (1, 2), (2, 0), (0, 4), (4, 0), (0, 8), (8, 0)]"

definition tail_corner :: "nat \<Rightarrow> nat \<Rightarrow> nat \<times> nat" where
  "tail_corner elem_log2 m =
     (case tail_blocks ! m of (mx, my) \<Rightarrow>
        (mx * [16, 16, 8, 8, 4] ! elem_log2, my * [16, 8, 8, 4, 4] ! elem_log2))"

definition tail_room :: "nat \<Rightarrow> nat \<Rightarrow> nat \<Rightarrow> nat \<Rightarrow> nat \<Rightarrow> (nat \<times> nat) \<times> nat \<times> nat" where
  "tail_room block_log2 block_width block_height elem_log2 k =
     (tail_corner elem_log2 (block_log2 - 5 - k),
      max (block_width div 2 div 2 ^ k) 1, max (block_height div 2 ^ k) 1)"

fun rooms_apart :: "(nat \<times> nat) \<times> nat \<times> nat \<Rightarrow> (nat \<times> nat) \<times> nat \<times> nat \<Rightarrow> bool" where
  "rooms_apart ((x, y), w, h) ((x', y'), w', h') \<longleftrightarrow>
     x + w \<le> x' \<or> x' + w' \<le> x \<or> y + h \<le> y' \<or> y' + h' \<le> y"

fun room_inside :: "nat \<Rightarrow> nat \<Rightarrow> (nat \<times> nat) \<times> nat \<times> nat \<Rightarrow> bool" where
  "room_inside bw bh ((x, y), w, h) \<longleftrightarrow> x + w \<le> bw \<and> y + h \<le> bh"

definition rooms_ok :: "nat \<Rightarrow> nat \<Rightarrow> ((nat \<times> nat) \<times> nat \<times> nat) list \<Rightarrow> bool" where
  "rooms_ok bw bh rooms \<longleftrightarrow> list_all (room_inside bw bh) rooms \<and> sorted_wrt rooms_apart rooms"

definition tail_rooms_ok :: "nat \<Rightarrow> nat \<Rightarrow> nat \<Rightarrow> nat \<Rightarrow> bool" where
  "tail_rooms_ok block_log2 bw bh el \<longleftrightarrow>
     rooms_ok bw bh (map (tail_room block_log2 bw bh el) [0..<block_log2 - 4])"

lemma less_12_cases: "(m::nat) < 12 \<longleftrightarrow> m \<in> set [0, 1, 2, 3, 4, 5, 6, 7, 8, 9, 10, 11]"
  by (simp add: numeral_eq_Suc less_Suc_eq disj_ac)

lemma tail_blocks_table:
  assumes "m < 12"
  shows "tail_origin_blocks (tail_mip_offset m) = tail_blocks ! m"
    and "tail_mip_offset m =
      [0, 256, 512, 768, 1024, 1280, 1536, 2048, 4096, 8192, 16384, 32768] ! m"
  using assms unfolding less_12_cases by (auto simp: tail_origin_blocks_def tail_mip_offset_def tail_blocks_def)

lemma popcount_masks:
  "popcount 0 = 0" "popcount (Suc 0) = 1" "popcount 2 = 1" "popcount 4 = 1" "popcount 8 = 1"
  "popcount 16 = 1" "popcount 32 = 1" "popcount 64 = 1" "popcount 128 = 1"
  by (simp_all add: popcount_def upt_rec bit_0)

lemma masked_bits:
  "[0..<16] = [0, Suc 0, 2, 3, 4, 5, 6, 7, 8, 9, 10, 11, 12, 13, 14, 15::nat]"
  "[Suc 0..<16] = [Suc 0, 2, 3, 4, 5, 6, 7, 8, 9, 10, 11, 12, 13, 14, 15::nat]"
  "[2..<16] = [2, 3, 4, 5, 6, 7, 8, 9, 10, 11, 12, 13, 14, 15::nat]"
  "[3..<16] = [3, 4, 5, 6, 7, 8, 9, 10, 11, 12, 13, 14, 15::nat]"
  "[4..<16] = [4, 5, 6, 7, 8, 9, 10, 11, 12, 13, 14, 15::nat]"
  "[0..<12] = [0, Suc 0, 2, 3, 4, 5, 6, 7, 8, 9, 10, 11::nat]"
  "[Suc 0..<12] = [Suc 0, 2, 3, 4, 5, 6, 7, 8, 9, 10, 11::nat]"
  "[2..<12] = [2, 3, 4, 5, 6, 7, 8, 9, 10, 11::nat]"
  "[3..<12] = [3, 4, 5, 6, 7, 8, 9, 10, 11::nat]"
  "[4..<12] = [4, 5, 6, 7, 8, 9, 10, 11::nat]"
  by (simp_all add: upt_rec)

lemma tail_coord_offsets_64kb:
  "coord_offset (map fst (kSw64kS ! 0)) 0 16 16 = 512" "coord_offset (map fst (kSw64kS ! 0)) 0 16 32 = 2048"
  "coord_offset (map fst (kSw64kS ! 0)) 0 16 64 = 8192" "coord_offset (map fst (kSw64kS ! 0)) 0 16 128 = 32768"
  "coord_offset (map snd (kSw64kS ! 0)) 0 16 16 = 256" "coord_offset (map snd (kSw64kS ! 0)) 0 16 32 = 1024"
  "coord_offset (map snd (kSw64kS ! 0)) 0 16 48 = 1280" "coord_offset (map snd (kSw64kS ! 0)) 0 16 64 = 4096"
  "coord_offset (map snd (kSw64kS ! 0)) 0 16 128 = 16384" "coord_offset (map fst (kSw64kS ! Suc 0)) (Suc 0) 16 16 = 512"
  "coord_offset (map fst (kSw64kS ! Suc 0)) (Suc 0) 16 32 = 2048" "coord_offset (map fst (kSw64kS ! Suc 0)) (Suc 0) 16 64 = 8192"
  "coord_offset (map fst (kSw64kS ! Suc 0)) (Suc 0) 16 128 = 32768" "coord_offset (map snd (kSw64kS ! Suc 0)) (Suc 0) 16 8 = 256"
  "coord_offset (map snd (kSw64kS ! Suc 0)) (Suc 0) 16 16 = 1024" "coord_offset (map snd (kSw64kS ! Suc 0)) (Suc 0) 16 24 = 1280"
  "coord_offset (map snd (kSw64kS ! Suc 0)) (Suc 0) 16 32 = 4096" "coord_offset (map snd (kSw64kS ! Suc 0)) (Suc 0) 16 64 = 16384"
  "coord_offset (map fst (kSw64kS ! 2)) 2 16 8 = 512" "coord_offset (map fst (kSw64kS ! 2)) 2 16 16 = 2048"
  "coord_offset (map fst (kSw64kS ! 2)) 2 16 32 = 8192" "coord_offset (map fst (kSw64kS ! 2)) 2 16 64 = 32768"
  "coord_offset (map snd (kSw64kS ! 2)) 2 16 8 = 256" "coord_offset (map snd (kSw64kS ! 2)) 2 16 16 = 1024"
  "coord_offset (map snd (kSw64kS ! 2)) 2 16 24 = 1280" "coord_offset (map snd (kSw64kS ! 2)) 2 16 32 = 4096"
  "coord_offset (map snd (kSw64kS ! 2)) 2 16 64 = 16384" "coord_offset (map fst (kSw64kS ! 3)) 3 16 8 = 512"
  "coord_offset (map fst (kSw64kS ! 3)) 3 16 16 = 2048" "coord_offset (map fst (kSw64kS ! 3)) 3 16 32 = 8192"
  "coord_offset (map fst (kSw64kS ! 3)) 3 16 64 = 32768" "coord_offset (map snd (kSw64kS ! 3)) 3 16 4 = 256"
  "coord_offset (map snd (kSw64kS ! 3)) 3 16 8 = 1024" "coord_offset (map snd (kSw64kS ! 3)) 3 16 12 = 1280"
  "coord_offset (map snd (kSw64kS ! 3)) 3 16 16 = 4096" "coord_offset (map snd (kSw64kS ! 3)) 3 16 32 = 16384"
  "coord_offset (map fst (kSw64kS ! 4)) 4 16 4 = 512" "coord_offset (map fst (kSw64kS ! 4)) 4 16 8 = 2048"
  "coord_offset (map fst (kSw64kS ! 4)) 4 16 16 = 8192" "coord_offset (map fst (kSw64kS ! 4)) 4 16 32 = 32768"
  "coord_offset (map snd (kSw64kS ! 4)) 4 16 4 = 256" "coord_offset (map snd (kSw64kS ! 4)) 4 16 8 = 1024"
  "coord_offset (map snd (kSw64kS ! 4)) 4 16 12 = 1280" "coord_offset (map snd (kSw64kS ! 4)) 4 16 16 = 4096"
  "coord_offset (map snd (kSw64kS ! 4)) 4 16 32 = 16384"
  by (simp_all add: coord_offset_def kSw64kS_def popcount_masks masked_bits)

lemma tail_coord_offsets_4kb:
  "coord_offset (map fst (kSw64kS ! 0)) 0 12 16 = 512" "coord_offset (map fst (kSw64kS ! 0)) 0 12 32 = 2048"
  "coord_offset (map snd (kSw64kS ! 0)) 0 12 16 = 256" "coord_offset (map snd (kSw64kS ! 0)) 0 12 32 = 1024"
  "coord_offset (map snd (kSw64kS ! 0)) 0 12 48 = 1280" "coord_offset (map fst (kSw64kS ! Suc 0)) (Suc 0) 12 16 = 512"
  "coord_offset (map fst (kSw64kS ! Suc 0)) (Suc 0) 12 32 = 2048" "coord_offset (map snd (kSw64kS ! Suc 0)) (Suc 0) 12 8 = 256"
  "coord_offset (map snd (kSw64kS ! Suc 0)) (Suc 0) 12 16 = 1024" "coord_offset (map snd (kSw64kS ! Suc 0)) (Suc 0) 12 24 = 1280"
  "coord_offset (map fst (kSw64kS ! 2)) 2 12 8 = 512" "coord_offset (map fst (kSw64kS ! 2)) 2 12 16 = 2048"
  "coord_offset (map snd (kSw64kS ! 2)) 2 12 8 = 256" "coord_offset (map snd (kSw64kS ! 2)) 2 12 16 = 1024"
  "coord_offset (map snd (kSw64kS ! 2)) 2 12 24 = 1280" "coord_offset (map fst (kSw64kS ! 3)) 3 12 8 = 512"
  "coord_offset (map fst (kSw64kS ! 3)) 3 12 16 = 2048" "coord_offset (map snd (kSw64kS ! 3)) 3 12 4 = 256"
  "coord_offset (map snd (kSw64kS ! 3)) 3 12 8 = 1024" "coord_offset (map snd (kSw64kS ! 3)) 3 12 12 = 1280"
  "coord_offset (map fst (kSw64kS ! 4)) 4 12 4 = 512" "coord_offset (map fst (kSw64kS ! 4)) 4 12 8 = 2048"
  "coord_offset (map snd (kSw64kS ! 4)) 4 12 4 = 256" "coord_offset (map snd (kSw64kS ! 4)) 4 12 8 = 1024"
  "coord_offset (map snd (kSw64kS ! 4)) 4 12 12 = 1280"
  by (simp_all add: coord_offset_def kSw64kS_def popcount_masks masked_bits)

lemma coord_offset_0: "coord_offset masks el bits 0 = 0"
  by (rule bit_eqI) (simp add: bit_coord_offset popcount_def)

lemma less_5_cases: "(el::nat) < 5 \<longleftrightarrow> el \<in> set [0, Suc 0, 2, 3, 4]"
  by (simp add: numeral_eq_Suc less_Suc_eq disj_ac)

lemma tail_corner_address:
  assumes "el < 5" and "m < 12" and "tail_corner el m = (x, y)"
  shows "pat_off (kSw64kS ! el) el 16 x y = tail_mip_offset m"
  using assms unfolding tail_corner_def tail_blocks_table(2)[OF assms(2)]
  unfolding less_12_cases less_5_cases
  by (auto simp: tail_coord_offsets_64kb coord_offset_0 tail_blocks_def)

lemma tail_corner_address_4kb:
  assumes "el < 5" and "m < 8" and "tail_corner el m = (x, y)"
  shows "pat_off (kSw64kS ! el) el 12 x y = tail_mip_offset m"
proof -
  have m: "m < 12" using assms(2) by simp
  show ?thesis
    using m assms unfolding tail_corner_def tail_blocks_table(2)[OF m]
    unfolding less_12_cases less_5_cases
    by (auto simp: tail_coord_offsets_4kb coord_offset_0 tail_blocks_def)
qed

lemma tail_rooms_64kb: "list_all (\<lambda>el. tail_rooms_ok 16 (fst (sw64kb_dims el)) (snd (sw64kb_dims el)) el) [0..<5]"
  by code_simp

lemma tail_rooms_4kb: "list_all (\<lambda>el. tail_rooms_ok 12 (2 ^ ((12 - el + 1) div 2)) (2 ^ ((12 - el) div 2)) el) [0..<5]"
  by code_simp

end
