(* ===== verification/TileMips.thy ===== *)
theory TileMips
  imports TileLevels
begin

text \<open>
  What the placement of mip levels guarantees: levels of a chain occupy disjoint byte ranges
  inside the chain, the packed tail keeps its levels apart, a packed level survives tiling and
  detiling and leaves its siblings alone, and the two origins reported for a packed level agree
  for the standard swizzles (and need not agree for the pipe-rotated ones).
\<close>

unbundle bit_operations_syntax

subsection \<open>Level addresses\<close>

definition level_addr :: "tile_env \<Rightarrow> nat \<Rightarrow> nat \<Rightarrow> nat \<Rightarrow> nat \<Rightarrow> nat" where
  "level_addr env mode bpe gx gy =
     (if is_64kb_mode mode
      then let el = sw64kb_elem_log2 bpe in
        case sw64kb_dims el of (bw, bh) \<Rightarrow> sw64kb_level_addr (sw64kb_pattern env mode el) el bw bh gx gy
      else sw4kb_level_addr (sw4kb_lookup bpe) gx gy)"

lemma level_within:
  "foldl (\<lambda>w i. w OR push_bit i ((popcount (x AND fst (pat ! i)) XOR popcount (y AND snd (pat ! i))) AND 1)) 0 [el..<16]
   = pat_off pat el 16 x y" if "length pat = 16"
proof (rule bit_eqI)
  fix j
  let ?g = "\<lambda>i. popcount (x AND fst (pat ! i)) XOR popcount (y AND snd (pat ! i))"
  have "bit (foldl (\<lambda>w i. w OR push_bit i (?g i mod 2)) v is) j \<longleftrightarrow> bit v j \<or> j \<in> set is \<and> odd (?g j)" for v "is"
  proof (induction "is" arbitrary: v)
    case (Cons i "is")
    have "bit (v OR push_bit i (?g i mod 2)) j \<longleftrightarrow> bit v j \<or> j = i \<and> odd (?g j)"
      by (auto simp: bit_or_iff bit_push_bit_iff_nat bit_mod_2)
    then show ?case unfolding foldl_Cons Cons.IH by auto
  qed simp
  moreover have "odd (a XOR b) \<longleftrightarrow> odd a \<noteq> odd b" for a b :: nat
    by (simp add: bit_xor_iff flip: bit_0)
  ultimately show "bit (foldl (\<lambda>w i. w OR push_bit i (?g i AND 1)) 0 [el..<16]) j = bit (pat_off pat el 16 x y) j"
    using that by (auto simp: bit_xor_iff bit_coord_offset and_one_eq nth_append)
qed

lemma length_pattern64: "length (sw64kb_pattern env mode (log2_of s)) = 16"
  using pattern64_ok[of env mode s] by (simp add: plane_ok_def)

abbreviation level_bw :: "nat \<Rightarrow> elem_size \<Rightarrow> nat" where
  "level_bw mode s \<equiv> (if is_64kb_mode mode then bw64 s else 2 ^ bx4k s)"

abbreviation level_bh :: "nat \<Rightarrow> elem_size \<Rightarrow> nat" where
  "level_bh mode s \<equiv> (if is_64kb_mode mode then bh64 s else 2 ^ by4k s)"

abbreviation level_block :: "nat \<Rightarrow> nat" where
  "level_block mode \<equiv> (if is_64kb_mode mode then 65536 else 4096)"

abbreviation level_off :: "tile_env \<Rightarrow> nat \<Rightarrow> elem_size \<Rightarrow> nat \<Rightarrow> nat \<Rightarrow> nat" where
  "level_off env mode s \<equiv> (if is_64kb_mode mode then off64 env mode s else off4k s)"

interpretation level: block_swizzle "level_bw mode s" "level_bh mode s" "level_block mode" "bytes_of s" "level_off env mode s"
  for env mode s
  using sw64kb.block_swizzle_axioms[of s env mode] sw4kb.block_swizzle_axioms[of s] by simp

lemma level_addr_inside:
  assumes "gx < level_bw mode s" and "gy < level_bh mode s"
  shows "level_addr env mode (bytes_of s) gx gy = level_off env mode s gx gy"
proof (cases "is_64kb_mode mode")
  case True
  then show ?thesis
    using assms length_pattern64[of env mode s]
    by (simp add: level_addr_def Let_def case_prod_unfold sw64kb_level_addr_def level_within[unfolded and_one_eq])
next
  case False
  have lk: "lk_tw (sw4kb_lookup (bytes_of s)) = 2 ^ bx4k s" "lk_th (sw4kb_lookup (bytes_of s)) = 2 ^ by4k s"
    and off: "byte_offsets (sw4kb_lookup (bytes_of s)) ! (gy * 2 ^ bx4k s + gx) = off4k s gx gy"
    using sw4kb_lookup_ok[of s] assms False by (simp_all add: lookup_ok_def)
  show ?thesis
    using assms False off by (simp add: level_addr_def sw4kb_level_addr_def Let_def lk)
qed

subsection \<open>A packed level as a walk\<close>

definition level_fits :: "nat \<Rightarrow> elem_size \<Rightarrow> nat \<Rightarrow> nat \<Rightarrow> nat \<Rightarrow> nat \<Rightarrow> bool" where
  "level_fits mode s tx ty w h \<longleftrightarrow> tx + w \<le> level_bw mode s \<and> ty + h \<le> level_bh mode s"

abbreviation shifted :: "tile_env \<Rightarrow> nat \<Rightarrow> elem_size \<Rightarrow> nat \<Rightarrow> nat \<Rightarrow> nat \<times> nat \<Rightarrow> nat" where
  "shifted env mode s tx ty \<equiv> (\<lambda>(x, y). level_off env mode s (tx + x) (ty + y))"

lemma level_dims_small: "level_bw mode s \<le> 256" "level_bh mode s \<le> 256"
  by (cases s; simp add: sw64kb_dims_def)+

lemma level_loops:
  assumes fits: "level_fits mode s tx ty w h"
  shows "foldM (\<lambda>y. let gy = u32 (ty + y) in
           foldM (\<lambda>x. let gx = u32 (tx + x); tiled = level_addr env mode (bytes_of s) gx gy; linear = (y * w + x) * bytes_of s
             in move_elem to_tiled (bytes_of s) tb src tiled linear) [0..<w]) [0..<h] dst
       = walk to_tiled (bytes_of s) tb src (shifted env mode s tx ty) (lin2 (bytes_of s) w) (row_coords w h) dst"
  unfolding Let_def row_coords_def
proof (intro walk_nested walk_loop conjI)
  fix y x assume y: "y \<in> set [0..<h]" and x: "x \<in> set [0..<w]"
  have b: "tx + x < level_bw mode s" "ty + y < level_bh mode s"
    using fits x y unfolding level_fits_def by auto
  then have "u32 (tx + x) = tx + x" "u32 (ty + y) = ty + y"
    using level_dims_small[of mode s] by (simp_all add: u32_id)
  then show "level_addr env mode (bytes_of s) (u32 (tx + x)) (u32 (ty + y)) = shifted env mode s tx ty (x, y)"
    using level_addr_inside[OF b] by simp
  show "(y * w + x) * bytes_of s = lin2 (bytes_of s) w (x, y)" by (simp add: lin2_def)
qed

lemma log2_not_max: "log2_of s \<noteq> UINT32_MAX"
  using log2_of_less[of s] by simp

lemma level_copy_walk:
  assumes "tile_mode_is_tiled mode" and "mode \<noteq> Sw256BS" and "level_fits mode s tx ty w h"
  shows "tile_surface_level env dst tb src w h mode (bytes_of s) tx ty
       = walk True (bytes_of s) tb src (shifted env mode s tx ty) (lin2 (bytes_of s) w) (row_coords w h) dst"
    and "detile_surface_level env dst src tb w h mode (bytes_of s) tx ty
       = walk False (bytes_of s) tb src (shifted env mode s tx ty) (lin2 (bytes_of s) w) (row_coords w h) dst"
  using assms(1,2) log2_not_max[of s] unfolding level_loops[OF assms(3), symmetric]
  by (simp_all add: tile_surface_level_def detile_surface_level_def detile_elements_level_def sw64kb_level_copy_def
      sw4kb_level_copy_def level_addr_def Let_def case_prod_unfold)

lemma shifted_ok:
  assumes "level_fits mode s tx ty w h" and "level_block mode \<le> tb"
  shows "tiled_ok (bytes_of s) tb (shifted env mode s tx ty) (row_coords w h)"
  unfolding tiled_ok_def row_coords_spec
proof (intro conjI ballI inj_onI)
  fix c assume "c \<in> surface_of w h"
  show "bytes_of s dvd shifted env mode s tx ty c"
    by (cases c) (simp only: prod.case, rule level.off_dvd)
  show "shifted env mode s tx ty c + bytes_of s \<le> tb"
    by (cases c) (simp only: prod.case, rule order_trans[OF level.off_end assms(2)])
next
  fix c c' assume c: "c \<in> surface_of w h" "c' \<in> surface_of w h" and eq: "shifted env mode s tx ty c = shifted env mode s tx ty c'"
  obtain x y x' y' where xy: "c = (x, y)" "c' = (x', y')" by (meson surj_pair)
  have "tx + x < level_bw mode s" "tx + x' < level_bw mode s" "ty + y < level_bh mode s" "ty + y' < level_bh mode s"
    using c assms(1) unfolding level_fits_def xy surface_of_def by auto
  then have "tx + x = tx + x' \<and> ty + y = ty + y'"
    using eq unfolding xy prod.case by (intro level.off_inj[where env = env and mode = mode and s = s]) simp_all
  then show "c = c'" by (simp add: xy)
qed (rule row_coords_spec)

text \<open>Two rectangles of one block that do not meet own disjoint bytes.\<close>

lemma shifted_disjoint:
  assumes "level_fits mode s tx ty w h" and "level_fits mode s tx' ty' w' h'"
    and "rooms_apart ((tx, ty), w, h) ((tx', ty'), w', h')"
    and "c \<in> set (row_coords w h)" and "c' \<in> set (row_coords w' h')" and "k < bytes_of s"
  shows "\<not> (shifted env mode s tx ty c \<le> shifted env mode s tx' ty' c' + k \<and>
     shifted env mode s tx' ty' c' + k < shifted env mode s tx ty c + bytes_of s)"
proof
  obtain x y x' y' where xy: "c = (x, y)" "c' = (x', y')" by (meson surj_pair)
  assume a: "shifted env mode s tx ty c \<le> shifted env mode s tx' ty' c' + k \<and>
     shifted env mode s tx' ty' c' + k < shifted env mode s tx ty c + bytes_of s"
  have d: "bytes_of s dvd shifted env mode s tx ty c" "bytes_of s dvd shifted env mode s tx' ty' c'"
    unfolding xy prod.case by (rule level.off_dvd)+
  from aligned_disjoint[OF d(2,1), of "shifted env mode s tx' ty' c' + k"] a assms(6)
  have eq: "shifted env mode s tx' ty' c' = shifted env mode s tx ty c" by simp
  have "tx + x < level_bw mode s" "tx' + x' < level_bw mode s" "ty + y < level_bh mode s" "ty' + y' < level_bh mode s"
    using assms(1,2,4,5) unfolding level_fits_def xy row_coords_spec surface_of_def by auto
  then have "tx' + x' = tx + x \<and> ty' + y' = ty + y"
    using eq unfolding xy prod.case by (intro level.off_inj[where env = env and mode = mode and s = s]) simp_all
  with assms(3-5) show False unfolding xy row_coords_spec surface_of_def by auto
qed

subsection \<open>The rooms of the packed levels\<close>

abbreviation level_log2 :: "nat \<Rightarrow> nat" where
  "level_log2 mode \<equiv> (if is_64kb_mode mode then 16 else 12)"

definition tail_start :: "nat \<Rightarrow> elem_size \<Rightarrow> nat \<Rightarrow> nat \<Rightarrow> nat \<Rightarrow> nat" where
  "tail_start mode s ew eh max_mip =
     first_tail_level ew eh (level_bw mode s div 2) (level_bh mode s) (level_log2 mode - 4) (max_mip + 1)"

lemma placed_simps [simp]: "ml_in_tail (placed r) = False" "ml_supported (placed r) \<longleftrightarrow> r \<noteq> None"
  "ml_in_tail no_layout = False" "ml_supported no_layout = False"
  by (simp_all add: placed_def no_layout_def split: option.split)

lemma tail_layout_eq:
  "even b \<Longrightarrow> tail_layout b (bytes_of s) m =
     (case tail_origin_blocks (tail_mip_offset m) of (mx, my) \<Rightarrow>
        \<lparr>ml_byte_offset = tail_mip_offset m, ml_tail_x = mx * [16, 16, 8, 8, 4] ! log2_of s,
         ml_tail_y = my * [16, 8, 8, 4, 4] ! log2_of s, ml_tail_block_bytes = 2 ^ b,
         ml_in_tail = True, ml_supported = True\<rparr>)"
  using log2_of_less[of s] by (simp add: tail_layout_def Let_def case_prod_unfold)

lemma macro_layout_eq:
  assumes "tile_mode_is_tiled mode" and "mode \<noteq> Sw256BS" and "0 < ew" and "0 < eh" and "lvl \<le> max_mip" and "max_mip < 16"
  shows "tiled_mip_level_layout ew eh (bytes_of s) mode max_mip lvl =
     macro_mip_layout (level_bw mode s) (level_bh mode s) (level_log2 mode) ew eh (bytes_of s) max_mip lvl"
proof -
  have m: "mode \<noteq> 0" using assms(1) by (auto simp: tile_mode_is_tiled_def)
  have b: "\<not> (ew = 0 \<or> eh = 0 \<or> bytes_of s = 0 \<or> lvl > max_mip \<or> max_mip \<ge> 16)" using assms by simp
  show ?thesis
    unfolding tiled_mip_level_layout_def Let_def if_not_P[OF b] if_not_P[OF m] sw64kb_elem_log2_of case_prod_unfold
      if_not_P[OF log2_not_max] sw4kb_dims_of
    using assms(1,2) supported_bytes[of s] by simp
qed

lemma first_tail_props:
  assumes "first = first_tail_level ew eh tw th maxt n" and "first \<le> lvl" and "lvl < n"
  shows "n - first \<le> maxt \<and> mip_dim ew first \<le> tw \<and> mip_dim eh first \<le> th"
proof (cases "find (\<lambda>level. mip_dim ew level \<le> tw \<and> mip_dim eh level \<le> th \<and> n - level \<le> maxt) [0..<n]")
  case None
  then show ?thesis using assms by (simp add: first_tail_level_def)
next
  case (Some l)
  then have "first = l" using assms(1) by (simp add: first_tail_level_def)
  with Some show ?thesis by (auto simp: find_Some_iff)
qed

lemma mip_dim_halves: "mip_dim e first \<le> t \<Longrightarrow> mip_dim e (first + k) \<le> max (t div 2 ^ k) 1"
proof -
  assume a: "mip_dim e first \<le> t"
  have "e div 2 ^ (first + k) = e div 2 ^ first div 2 ^ k"
    by (simp add: power_add div_mult2_eq)
  also have "\<dots> \<le> t div 2 ^ k" using a by (intro div_le_mono) (simp add: mip_dim_def)
  finally show ?thesis by (simp add: mip_dim_def)
qed

lemma macro_layout_find:
  assumes "first = first_tail_level ew eh (bw div 2) bh (b - 4) (max_mip + 1)" and "11 < b"
  shows "macro_mip_layout bw bh b ew eh bpe max_mip lvl =
    (if max_mip = 0 then placed (Some 0)
     else if first \<le> lvl then tail_layout b bpe (u32_sub (u32_sub (b - 4) 1) (u32_sub lvl first))
     else placed (find_level (level_bytes bw bh ew eh bpe) lvl (rev [0..<first])
            (if first = max_mip + 1 then 0 else 2 ^ b)))"
  unfolding assms(1) using assms(2) by (simp add: macro_mip_layout_def Let_def)

lemma macro_log2: "11 < level_log2 mode"
  by simp

lemmas macro_layout_start = macro_layout_find[OF tail_start_def macro_log2]

lemma in_tail_room:
  assumes mode: "tile_mode_is_tiled mode" "mode \<noteq> Sw256BS"
    and L: "L = tiled_mip_level_layout ew eh (bytes_of s) mode max_mip lvl" "ml_in_tail L"
  defines "k \<equiv> lvl - tail_start mode s ew eh max_mip"
  shows "tail_start mode s ew eh max_mip \<le> lvl \<and> k < level_log2 mode - 4 \<and>
    (ml_tail_x L, ml_tail_y L) = tail_corner (log2_of s) (level_log2 mode - 5 - k) \<and>
    ml_byte_offset L = tail_mip_offset (level_log2 mode - 5 - k) \<and> ml_tail_block_bytes L = level_block mode \<and>
    mip_dim ew lvl \<le> max (level_bw mode s div 2 div 2 ^ k) 1 \<and> mip_dim eh lvl \<le> max (level_bh mode s div 2 ^ k) 1"
proof -
  let ?f = "tail_start mode s ew eh max_mip"
  have ok: "0 < ew" "0 < eh" "lvl \<le> max_mip" "max_mip < 16"
    using L by (auto simp: tiled_mip_level_layout_def split: if_splits)
  let ?maxt = "level_log2 mode - 4"
  have le: "?f \<le> lvl" and L': "L = tail_layout (level_log2 mode) (bytes_of s) (u32_sub (u32_sub ?maxt 1) (u32_sub lvl ?f))"
    using L unfolding macro_layout_eq[OF mode ok] macro_layout_start
    by (cases "max_mip = 0"; cases "?f \<le> lvl"; simp only: if_True if_False placed_simps)+
  from first_tail_props[OF tail_start_def le] ok(3)
  have f: "max_mip + 1 - ?f \<le> ?maxt" "mip_dim ew ?f \<le> level_bw mode s div 2" "mip_dim eh ?f \<le> level_bh mode s"
    by simp_all
  have k: "k < ?maxt" using f(1) le ok(3) unfolding k_def by linarith
  have u: "u32_sub (u32_sub ?maxt 1) (u32_sub lvl ?f) = level_log2 mode - 5 - k"
    using k le ok(3,4) by (simp add: u32_sub_id k_def split: if_splits)
  have lvl: "lvl = ?f + k" using le by (simp add: k_def)
  have m12: "level_log2 mode - 5 - k < 12" by (rule le_less_trans[OF diff_le_self]) simp
  obtain mx my where t: "tail_blocks ! (level_log2 mode - 5 - k) = (mx, my)" by fastforce
  have e: "even (level_log2 mode)" by simp
  have Leq: "L = \<lparr>ml_byte_offset = tail_mip_offset (level_log2 mode - 5 - k), ml_tail_x = mx * [16, 16, 8, 8, 4] ! log2_of s,
         ml_tail_y = my * [16, 8, 8, 4, 4] ! log2_of s, ml_tail_block_bytes = 2 ^ level_log2 mode,
         ml_in_tail = True, ml_supported = True\<rparr>"
    unfolding L' u tail_layout_eq[OF e] tail_blocks_table(1)[OF m12] t prod.case ..
  have c: "tail_corner (log2_of s) (level_log2 mode - 5 - k) = (mx * [16, 16, 8, 8, 4] ! log2_of s, my * [16, 8, 8, 4, 4] ! log2_of s)"
    unfolding tail_corner_def t prod.case ..
  have "(2 :: nat) ^ level_log2 mode = level_block mode" by simp
  then show ?thesis
    unfolding c Leq mip_layout.simps
    using le k mip_dim_halves[OF f(2), of k, folded lvl] mip_dim_halves[OF f(3), of k, folded lvl] by blast
qed

lemma rooms_ok_nth:
  assumes "rooms_ok bw bh (map f [0..<n])" and "k < n"
  shows "room_inside bw bh (f k)" and "k' < k \<Longrightarrow> rooms_apart (f k') (f k)"
proof -
  have "list_all (room_inside bw bh) (map f [0..<n])" and w: "sorted_wrt rooms_apart (map f [0..<n])"
    using assms(1) by (simp_all add: rooms_ok_def)
  then show "room_inside bw bh (f k)" using assms(2) by (simp add: list_all_iff)
  assume "k' < k"
  with sorted_wrt_nth_less[OF w this] assms(2) show "rooms_apart (f k') (f k)" by simp
qed

abbreviation room_of :: "nat \<Rightarrow> elem_size \<Rightarrow> nat \<Rightarrow> (nat \<times> nat) \<times> nat \<times> nat" where
  "room_of mode s \<equiv> tail_room (level_log2 mode) (level_bw mode s) (level_bh mode s) (log2_of s)"

lemma tail_room_ok: "tail_rooms_ok (level_log2 mode) (level_bw mode s) (level_bh mode s) (log2_of s)"
  using list_all_log2[OF tail_rooms_64kb, of s] list_all_log2[OF tail_rooms_4kb, of s] by simp

lemmas tail_room_of = rooms_ok_nth[OF tail_room_ok[unfolded tail_rooms_ok_def]]

lemma rooms_apart_sym: "rooms_apart r r' = rooms_apart r' r"
  by (cases "(r, r')" rule: rooms_apart.cases) auto

lemma rooms_apart_mono:
  "rooms_apart (c, W, H) (c', W', H') \<Longrightarrow> w \<le> W \<Longrightarrow> h \<le> H \<Longrightarrow> w' \<le> W' \<Longrightarrow> h' \<le> H' \<Longrightarrow>
   rooms_apart (c, w, h) (c', w', h')"
  by (cases c; cases c') auto

text \<open>Packed levels of one chain lie inside the block and apart from each other.\<close>

lemma packed_fits:
  assumes "tile_mode_is_tiled mode" "mode \<noteq> Sw256BS"
    and "L = tiled_mip_level_layout ew eh (bytes_of s) mode max_mip lvl" "ml_in_tail L"
  shows "level_fits mode s (ml_tail_x L) (ml_tail_y L) (mip_dim ew lvl) (mip_dim eh lvl)"
proof -
  let ?k = "lvl - tail_start mode s ew eh max_mip"
  note r = in_tail_room[OF assms]
  obtain x y where c: "tail_corner (log2_of s) (level_log2 mode - 5 - ?k) = (x, y)" by fastforce
  have "room_inside (level_bw mode s) (level_bh mode s) ((x, y), max (level_bw mode s div 2 div 2 ^ ?k) 1, max (level_bh mode s div 2 ^ ?k) 1)"
    using tail_room_of(1)[of ?k mode s] r unfolding tail_room_def c by (simp only:)
  moreover have "(ml_tail_x L, ml_tail_y L) = (x, y)" using r unfolding c by blast
  then have "ml_tail_x L = x" "ml_tail_y L = y" by blast+
  moreover have "mip_dim ew lvl \<le> max (level_bw mode s div 2 div 2 ^ ?k) 1" "mip_dim eh lvl \<le> max (level_bh mode s div 2 ^ ?k) 1"
    using r by blast+
  ultimately show ?thesis unfolding level_fits_def room_inside.simps by linarith
qed

lemma packed_apart:
  assumes mode: "tile_mode_is_tiled mode" "mode \<noteq> Sw256BS"
    and L: "L = tiled_mip_level_layout ew eh (bytes_of s) mode max_mip lvl" "ml_in_tail L"
    and L': "L' = tiled_mip_level_layout ew eh (bytes_of s) mode max_mip lvl'" "ml_in_tail L'" and "lvl \<noteq> lvl'"
  shows "rooms_apart ((ml_tail_x L, ml_tail_y L), mip_dim ew lvl, mip_dim eh lvl)
     ((ml_tail_x L', ml_tail_y L'), mip_dim ew lvl', mip_dim eh lvl')"
proof -
  let ?k = "lvl - tail_start mode s ew eh max_mip" and ?k' = "lvl' - tail_start mode s ew eh max_mip"
  note r = in_tail_room[OF mode L] and r' = in_tail_room[OF mode L']
  let ?room = "tail_room (level_log2 mode) (level_bw mode s) (level_bh mode s) (log2_of s)"
  have "tail_start mode s ew eh max_mip \<le> lvl" "tail_start mode s ew eh max_mip \<le> lvl'"
    using r r' by blast+
  then have "?k \<noteq> ?k'" using assms(7) by linarith
  then consider "?k' < ?k" | "?k < ?k'" by linarith
  then have "rooms_apart (?room ?k) (?room ?k')"
  proof cases
    case 1
    have "?k < level_log2 mode - 4" using r by blast
    from tail_room_of(2)[OF this 1] show ?thesis unfolding rooms_apart_sym[of "?room ?k"] .
  next
    case 2
    have "?k' < level_log2 mode - 4" using r' by blast
    from tail_room_of(2)[OF this 2] show ?thesis .
  qed
  then have "rooms_apart ((ml_tail_x L, ml_tail_y L), max (level_bw mode s div 2 div 2 ^ ?k) 1, max (level_bh mode s div 2 ^ ?k) 1)
      ((ml_tail_x L', ml_tail_y L'), max (level_bw mode s div 2 div 2 ^ ?k') 1, max (level_bh mode s div 2 ^ ?k') 1)"
    unfolding tail_room_def r[THEN conjunct2, THEN conjunct2, THEN conjunct1]
      r'[THEN conjunct2, THEN conjunct2, THEN conjunct1] .
  then show ?thesis by (rule rooms_apart_mono) (use r r' in \<open>blast+\<close>)
qed

lemma mip_dim_pos: "0 < mip_dim e l"
  by (simp add: mip_dim_def)

text \<open>Writing one set of cells leaves walks over disjoint cells as they were.\<close>

lemma walk_siblings:
  assumes t: "tiled_ok n tb t cs" and l: "\<And>c. c \<in> set cs \<Longrightarrow> l c + n \<le> length src" and tb: "length dst = tb"
    and T: "walk True n tb src t l cs dst = Some T" and t': "tiled_ok n tb t' cs'"
    and sep: "\<And>d c k. d \<in> set cs \<Longrightarrow> c \<in> set cs' \<Longrightarrow> k < n \<Longrightarrow> \<not> (t d \<le> t' c + k \<and> t' c + k < t d + n)"
  shows "walk False n tb T t' l' cs' out = walk False n tb dst t' l' cs' out"
proof -
  obtain T' where "walk True n tb src t l cs dst = Some T'"
    and w': "cells_written n (map (\<lambda>c. (t c, cell n src (l c))) cs) dst T'"
    using walk_tile[OF t, of dst l src] l tb by auto
  then have w: "cells_written n (map (\<lambda>c. (t c, cell n src (l c))) cs) dst T" using T by simp
  then have len: "length T = tb" using tb by (simp add: cells_written_def)
  have "source_cell n tb T (t' c) = source_cell n tb dst (t' c)" if c: "c \<in> set cs'" for c
  proof -
    have b: "t' c + n \<le> tb" using tiled_okD[OF t' c] by blast
    have "T ! (t' c + k) = dst ! (t' c + k)" if k: "k < n" for k
      using w sep[OF _ c k] b k tb unfolding cells_written_def by auto
    then have "cell n T (t' c) = cell n dst (t' c)"
      using b len tb by (intro nth_equalityI) (simp_all add: length_cell nth_cell)
    then show ?thesis by (simp add: source_cell_def)
  qed
  then have "map (\<lambda>c. (l' c, source_cell n tb T (t' c))) cs' = map (\<lambda>c. (l' c, source_cell n tb dst (t' c))) cs'"
    by (intro map_cong) simp_all
  moreover have "tb \<le> length T" "tb \<le> length dst" using len tb by simp_all
  ultimately show ?thesis by (simp only: walk_detile_cells)
qed

subsection \<open>Properties of packed levels\<close>

text \<open>
  C14: a level of a packed mip tail survives tiling and detiling, and writing it leaves every other
  level of the same tail as it was, in every macro-tiled mode and for every element size.
\<close>

theorem packed_level_roundtrip:
  assumes "tile_mode_is_tiled mode" and "mode \<noteq> Sw256BS" and "bpe \<in> {1, 2, 4, 8, 16}"
    and "L = tiled_mip_level_layout ew eh bpe mode max_mip i" and "ml_in_tail L"
    and "L' = tiled_mip_level_layout ew eh bpe mode max_mip j" and "ml_in_tail L'" and "i \<noteq> j"
    and "length block = ml_tail_block_bytes L"
    and "length src = mip_dim ew i * mip_dim eh i * bpe" and "length out = length src"
  shows "\<exists>T. tile_surface_level env block (length block) src (mip_dim ew i) (mip_dim eh i) mode bpe (ml_tail_x L) (ml_tail_y L) = Some T \<and>
     length T = length block \<and>
     detile_surface_level env out T (length T) (mip_dim ew i) (mip_dim eh i) mode bpe (ml_tail_x L) (ml_tail_y L) = Some src \<and>
     detile_surface_level env out' T (length T) (mip_dim ew j) (mip_dim eh j) mode bpe (ml_tail_x L') (ml_tail_y L') =
     detile_surface_level env out' block (length T) (mip_dim ew j) (mip_dim eh j) mode bpe (ml_tail_x L') (ml_tail_y L')"
proof -
  obtain s where s: "bpe = bytes_of s" using assms(3) by (rule elem_size_cases)
  note fits = packed_fits[OF assms(1,2,4)[unfolded s] assms(5)]
  note fits' = packed_fits[OF assms(1,2) assms(6)[unfolded s] assms(7)]
  note apart = packed_apart[OF assms(1,2,4)[unfolded s] assms(5) assms(6)[unfolded s] assms(7,8)]
  have block: "length block = level_block mode"
    using in_tail_room[OF assms(1,2,4)[unfolded s] assms(5)] assms(9) by (simp only:)
  let ?n = "bytes_of s" and ?t = "shifted env mode s (ml_tail_x L) (ml_tail_y L)"
  let ?t' = "shifted env mode s (ml_tail_x L') (ml_tail_y L')"
  let ?cs = "row_coords (mip_dim ew i) (mip_dim eh i)" and ?cs' = "row_coords (mip_dim ew j) (mip_dim eh j)"
  have t: "tiled_ok ?n (length block) ?t ?cs" by (rule shifted_ok[OF fits]) (simp only: block order_refl)
  have l: "tiled_ok ?n (length src) (lin2 ?n (mip_dim ew i)) ?cs"
    unfolding assms(10) s by (rule lin2_ok) (simp_all add: row_coords_spec)
  have cov: "covers ?n (length src) (lin2 ?n (mip_dim ew i)) ?cs"
    unfolding assms(10) s by (rule lin2_covers) (simp_all add: row_coords_spec)
  obtain T where T: "walk True ?n (length block) src ?t (lin2 ?n (mip_dim ew i)) ?cs block = Some T" "length T = length block"
    "walk False ?n (length block) T ?t (lin2 ?n (mip_dim ew i)) ?cs out = Some src"
    using walk_roundtrip[OF t l cov refl refl assms(11)] by blast
  have lb: "lin2 ?n (mip_dim ew i) c + ?n \<le> length src" if "c \<in> set ?cs" for c
    using tiled_okD[OF l that] by simp
  have t': "tiled_ok ?n (length block) ?t' ?cs'" by (rule shifted_ok[OF fits']) (simp only: block order_refl)
  have sib: "walk False ?n (length block) T ?t' (lin2 ?n (mip_dim ew j)) ?cs' out' =
      walk False ?n (length block) block ?t' (lin2 ?n (mip_dim ew j)) ?cs' out'"
  proof (rule walk_siblings[where t = ?t and t' = ?t' and tb = "length block" and dst = block and src = src])
    show "walk True ?n (length block) src ?t (lin2 ?n (mip_dim ew i)) ?cs block = Some T" by (rule T(1))
    fix d c k assume "d \<in> set ?cs" "c \<in> set ?cs'" "k < ?n"
    then show "\<not> (?t d \<le> ?t' c + k \<and> ?t' c + k < ?t d + ?n)" by (rule shifted_disjoint[OF fits fits' apart])
  qed (rule t t' refl, (erule lb)?)+
  show ?thesis
    unfolding s level_copy_walk[OF assms(1,2) fits] level_copy_walk[OF assms(1,2) fits']
  proof (intro exI[of _ T] conjI)
    show "length T = length block" by (rule T(2))
  qed (unfold T(2), rule T(1), rule T(3), rule sib)
qed

lemma small_tail:
  "tiled_mip_level_layout 4 4 4 Sw4KbS 1 0 = \<lparr>ml_byte_offset = 2048, ml_tail_x = 16, ml_tail_y = 0,
     ml_tail_block_bytes = 4096, ml_in_tail = True, ml_supported = True\<rparr>"
  "tiled_mip_level_layout 4 4 4 Sw4KbS 1 1 = \<lparr>ml_byte_offset = 1536, ml_tail_x = 8, ml_tail_y = 16,
     ml_tail_block_bytes = 4096, ml_in_tail = True, ml_supported = True\<rparr>"
  by (simp_all add: tiled_mip_level_layout_def tile_mode_is_tiled_def is_64kb_mode_def sw4kb_dims_def sw4kb_bits.simps
      macro_mip_layout_def first_tail_level_def mip_dim_def tail_layout_def ctz.simps u32_sub_def u32_def
      tail_mip_offset_def tail_origin_blocks_def upt_rec)

theorem packed_level_roundtrip_witness:
  "\<exists>T. tile_surface_level default_env (replicate 4096 7) 4096 (replicate 64 5) 4 4 Sw4KbS 4 16 0 = Some T \<and>
     detile_surface_level default_env (replicate 64 0) T 4096 4 4 Sw4KbS 4 16 0 = Some (replicate 64 5)"
proof -
  have "length (replicate 4096 (7 :: byte)) = 4096" by (rule length_replicate)
  moreover have "mip_dim 4 0 = 4" by (simp add: mip_dim_def)
  ultimately show ?thesis
    using packed_level_roundtrip[of Sw4KbS 4 _ 4 4 1 0 _ 1 "replicate 4096 7" "replicate 64 5" "replicate 64 0" default_env,
        OF _ _ _ small_tail(1)[symmetric] _ small_tail(2)[symmetric]]
    unfolding mip_layout.simps tile_mode_is_tiled_def length_replicate by (simp only: ) fastforce
qed

text \<open>
  For the standard swizzles (4 KiB and 64 KiB) the two origins reported for a packed level agree:
  the element at the reported tail coordinates lies exactly at the reported byte offset.
\<close>

lemma tail_origins_agree:
  assumes "mode = Sw4KbS \<or> mode = Sw64KbS" and "bpe \<in> {1, 2, 4, 8, 16}"
    and "L = tiled_mip_level_layout ew eh bpe mode max_mip level" and "ml_in_tail L"
  shows "level_addr env mode bpe (ml_tail_x L) (ml_tail_y L) = ml_byte_offset L"
proof -
  obtain s where s: "bpe = bytes_of s" using assms(2) by (rule elem_size_cases)
  have mode: "tile_mode_is_tiled mode" "mode \<noteq> Sw256BS" using assms(1) by (auto simp: tile_mode_is_tiled_def)
  note r = in_tail_room[OF mode assms(3)[unfolded s] assms(4)]
  let ?m = "level_log2 mode - 5 - (level - tail_start mode s ew eh max_mip)"
  have corner: "tail_corner (log2_of s) ?m = (ml_tail_x L, ml_tail_y L)" and off: "ml_byte_offset L = tail_mip_offset ?m"
    using r by simp_all
  have in': "ml_tail_x L < level_bw mode s" "ml_tail_y L < level_bh mode s"
    using packed_fits[OF mode assms(3)[unfolded s] assms(4)] mip_dim_pos[of ew level] mip_dim_pos[of eh level]
    unfolding level_fits_def by linarith+
  have "?m < (if is_64kb_mode mode then 12 else 8)" by (rule le_less_trans[OF diff_le_self]) simp
  with assms(1) have "level_off env mode s (ml_tail_x L) (ml_tail_y L) = tail_mip_offset ?m"
    using tail_corner_address[OF log2_of_less _ corner] tail_corner_address_4kb[OF log2_of_less _ corner] in'
    by (auto simp: is_64kb_mode_def sw64kb_pattern_def split: if_splits)
  then show ?thesis unfolding s off level_addr_inside[OF in'] .
qed

lemma packed_zx_layout:
  "tiled_mip_level_layout 64 64 4 Sw64KbZX 6 3 = \<lparr>ml_byte_offset = 4096, ml_tail_x = 0, ml_tail_y = 32,
     ml_tail_block_bytes = 65536, ml_in_tail = True, ml_supported = True\<rparr>"
  by (simp add: tiled_mip_level_layout_def tile_mode_is_tiled_def is_64kb_mode_def sw64kb_elem_log2_def sw64kb_dims_def
      macro_mip_layout_def first_tail_level_def mip_dim_def tail_layout_def ctz.simps u32_sub_def u32_def
      tail_mip_offset_def tail_origin_blocks_def upt_rec)

text \<open>
  For the rotated swizzles the two origins differ. In a 64 by 64 chain of 4-byte texels under
  SW_64KB_Z_X, level 3 is reported at byte 4096, but its first texel is addressed at byte 1024 of
  the block.
\<close>

lemma tail_origins_differ_when_rotated:
  "ml_in_tail (tiled_mip_level_layout 64 64 4 Sw64KbZX 6 3) \<and>
   ml_byte_offset (tiled_mip_level_layout 64 64 4 Sw64KbZX 6 3) = 4096 \<and>
   level_addr env Sw64KbZX 4 (ml_tail_x (tiled_mip_level_layout 64 64 4 Sw64KbZX 6 3))
     (ml_tail_y (tiled_mip_level_layout 64 64 4 Sw64KbZX 6 3)) = 1024"
  unfolding packed_zx_layout
  by (simp add: level_addr_def is_64kb_mode_def sw64kb_elem_log2_def sw64kb_dims_def sw64kb_level_addr_def
      sw64kb_pattern_def kSw64kZX_def masked_bits popcount_masks)

end
