(* ===== verification/TileChains.thy ===== *)
theory TileChains
  imports TileMips
begin

text \<open>
  Whole mip chains: the levels of a chain, its packed tail included, occupy disjoint byte ranges,
  and all of them lie inside the size that \<open>tiled_mip_chain_bytes\<close> reports.
\<close>

subsection \<open>Placement of whole chains\<close>

definition level_align :: "nat \<Rightarrow> elem_size \<Rightarrow> nat \<times> nat" where
  "level_align mode s =
     (if mode = Linear then (256 div bytes_of s, 1)
      else if mode = Sw256BS then (2 ^ bx256 s, 2 ^ by256 s) else (level_bw mode s, level_bh mode s))"

abbreviation level_len :: "nat \<Rightarrow> elem_size \<Rightarrow> nat \<Rightarrow> nat \<Rightarrow> nat \<Rightarrow> nat" where
  "level_len mode s ew eh \<equiv> level_bytes (fst (level_align mode s)) (snd (level_align mode s)) ew eh (bytes_of s)"

lemma level_align_bounds:
  "0 < fst (level_align mode s)" "0 < snd (level_align mode s)" "fst (level_align mode s) \<le> 256" "snd (level_align mode s) \<le> 256"
  by (cases s; simp add: level_align_def sw64kb_dims_def)+

lemma level_bytes_exact:
  assumes "mip_dim ew l \<le> 65536" "mip_dim eh l \<le> 65536" "0 < aw" "0 < ah" "aw \<le> 256" "ah \<le> 256" "bpe \<le> 16"
  shows "level_bytes aw ah ew eh bpe l = ceil_div (mip_dim ew l) aw * aw * (ceil_div (mip_dim eh l) ah * ah) * bpe"
    and "level_bytes aw ah ew eh bpe l \<le> 131072 * 131072 * 16"
proof -
  have pad: "ceil_div w a * a \<le> 131072" if "w \<le> 65536" "0 < a" "a \<le> 256" for w a :: nat
  proof -
    have "ceil_div w a * a \<le> w + a - 1" by (simp add: ceil_div_def)
    then show ?thesis using that by linarith
  qed
  have u: "u32 (u32 (w + a - 1) div a * a) = ceil_div w a * a" if "w \<le> 65536" "0 < a" "a \<le> 256" for w a
    using u32_blocks[of w a] pad[OF that] that by (simp add: u32_id)
  have b: "ceil_div (mip_dim ew l) aw * aw * (ceil_div (mip_dim eh l) ah * ah) * bpe \<le> 131072 * 131072 * 16"
    using pad assms by (intro mult_le_mono) simp_all
  then show "level_bytes aw ah ew eh bpe l = ceil_div (mip_dim ew l) aw * aw * (ceil_div (mip_dim eh l) ah * ah) * bpe"
    unfolding level_bytes_def Let_def u[OF assms(1,3,5)] u[OF assms(2,4,6)] by (intro u64_id) simp
  then show "level_bytes aw ah ew eh bpe l \<le> 131072 * 131072 * 16" using b by simp
qed

lemma add_levels_sum:
  "offs + sum_list (map f ls) \<le> UINT64_MAX \<Longrightarrow> add_levels f ls offs = Some (offs + sum_list (map f ls))"
  by (induction ls arbitrary: offs) auto

lemma find_level_sum:
  "m \<notin> set ls \<Longrightarrow> offs + sum_list (map f ls) \<le> UINT64_MAX \<Longrightarrow>
   find_level f m (ls @ m # ls') offs = Some (offs + sum_list (map f ls))"
  by (induction ls arbitrary: offs) auto

lemma sum_rev_upt: "sum_list (map f (rev [a..<b])) = sum f {a..<b}" for f :: "nat \<Rightarrow> nat"
  by (simp add: rev_map[symmetric] sum_list_distinct_conv_sum_set)

text \<open>The bytes before the first non-tail level, and the first level that is not in the tail.\<close>

definition chain_base :: "nat \<Rightarrow> elem_size \<Rightarrow> nat \<Rightarrow> nat \<Rightarrow> nat \<Rightarrow> nat" where
  "chain_base mode s ew eh max_mip =
     (if mode = Linear \<or> mode = Sw256BS \<or> max_mip = 0 \<or> tail_start mode s ew eh max_mip = max_mip + 1 then 0
      else level_block mode)"

definition chain_top :: "nat \<Rightarrow> elem_size \<Rightarrow> nat \<Rightarrow> nat \<Rightarrow> nat \<Rightarrow> nat" where
  "chain_top mode s ew eh max_mip =
     (if mode = Linear \<or> mode = Sw256BS \<or> max_mip = 0 then max_mip + 1 else tail_start mode s ew eh max_mip)"

lemma first_tail_le: "first_tail_level ew eh tw th maxt n \<le> n"
  by (auto simp: first_tail_level_def find_Some_iff split: option.split)

lemma chain_top_le: "chain_top mode s ew eh max_mip \<le> max_mip + 1"
  using first_tail_le by (simp add: chain_top_def tail_start_def)

lemma chain_sum_bound:
  assumes "ew \<le> 65536" and "eh \<le> 65536" and "b \<le> 17"
  shows "65536 + sum (level_len mode s ew eh) {a..<b} \<le> UINT64_MAX"
proof -
  have "sum (level_len mode s ew eh) {a..<b} \<le> card {a..<b} * (131072 * 131072 * 16)"
  proof (rule sum_bounded_above[where 'a = nat, simplified of_nat_id])
    fix l
    have "mip_dim e l \<le> 65536" if "e \<le> 65536" for e
      using order_trans[OF div_le_dividend[of e "2 ^ l"] that] by (simp add: mip_dim_def)
    then have "mip_dim ew l \<le> 65536" "mip_dim eh l \<le> 65536" using assms(1,2) by blast+
    moreover have "bytes_of s \<le> 16" by (cases s) simp_all
    ultimately show "level_len mode s ew eh l \<le> 131072 * 131072 * 16"
      using level_align_bounds[of mode s] by (intro level_bytes_exact(2))
  qed
  also have "\<dots> \<le> 17 * (131072 * 131072 * 16)" using assms(3) by (intro mult_le_mono1) simp
  finally show ?thesis by simp
qed

lemma tail_layout_in_tail: "even b \<Longrightarrow> ml_in_tail (tail_layout b (bytes_of s) m)"
  by (simp add: tail_layout_eq split: prod.split)

lemma level_layout_offset:
  assumes mode: "mode = Linear \<or> tile_mode_is_tiled mode" and small: "ew \<le> 65536" "eh \<le> 65536"
    and L: "L = tiled_mip_level_layout ew eh (bytes_of s) mode max_mip lvl" "ml_supported L" "\<not> ml_in_tail L"
  shows "lvl < chain_top mode s ew eh max_mip \<and>
    ml_byte_offset L = chain_base mode s ew eh max_mip + sum (level_len mode s ew eh) {lvl + 1..<chain_top mode s ew eh max_mip}"
proof -
  have ok: "0 < ew" "0 < eh" "lvl \<le> max_mip" "max_mip < 16"
    using L(1,2) by (auto simp: tiled_mip_level_layout_def no_layout_def split: if_splits)
  have bound: "65536 + sum (level_len mode s ew eh) {a..<b} \<le> UINT64_MAX" if "b \<le> max_mip + 1" for a b
    using that ok(4) by (intro chain_sum_bound small) simp
  have b: "\<not> (ew = 0 \<or> eh = 0 \<or> bytes_of s = 0 \<or> lvl > max_mip \<or> max_mip \<ge> 16)" using ok by simp
  have all: "add_levels (level_len mode s ew eh) (rev [lvl + 1..<max_mip + 1]) 0 =
      Some (sum (level_len mode s ew eh) {lvl + 1..<max_mip + 1})"
    using add_levels_sum[of 0 "level_len mode s ew eh" "rev [lvl + 1..<max_mip + 1]", unfolded sum_rev_upt add_0]
      bound[OF order_refl, of "lvl + 1"] by linarith
  have offs: "ml_byte_offset (placed (Some v)) = v" for v by (simp add: placed_def no_layout_def)
  consider "mode = Linear" | "mode = Sw256BS" | "tile_mode_is_tiled mode" "mode \<noteq> Sw256BS" "mode \<noteq> Linear"
    using mode by (auto simp: tile_mode_is_tiled_def)
  then show ?thesis
  proof cases
    case 1
    have "\<not> (bytes_of s > 256 \<or> 256 mod bytes_of s \<noteq> 0)" by (cases s) simp_all
    then have "L = placed (add_levels (level_len mode s ew eh) (rev [lvl + 1..<max_mip + 1]) 0)"
      unfolding L(1) tiled_mip_level_layout_def if_not_P[OF b] Let_def level_align_def using 1 by simp
    then show ?thesis unfolding all using 1 ok(3) by (simp add: offs chain_top_def chain_base_def)
  next
    case 2
    then have "L = placed (add_levels (level_len mode s ew eh) (rev [lvl + 1..<max_mip + 1]) 0)"
      unfolding L(1) tiled_mip_level_layout_def if_not_P[OF b] Let_def level_align_def sw256_dims_of
      using supported_bytes[of s] by (simp add: tile_mode_is_tiled_def)
    then show ?thesis unfolding all using 2 ok(3) by (simp add: offs chain_top_def chain_base_def)
  next
    case 3
    note eq = L(1)[unfolded macro_layout_eq[OF 3(1,2) ok] macro_layout_start]
    let ?f = "tail_start mode s ew eh max_mip"
    have al: "level_len mode s ew eh = level_bytes (level_bw mode s) (level_bh mode s) ew eh (bytes_of s)"
      using 3 by (simp only: level_align_def if_False fst_conv snd_conv)
    show ?thesis
    proof (cases "max_mip = 0")
      case True
      then show ?thesis using eq 3 ok(3) by (simp add: offs chain_top_def chain_base_def)
    next
      case False
      have lt: "lvl < ?f"
      proof (rule ccontr)
        assume "\<not> lvl < ?f"
        then have "L = tail_layout (level_log2 mode) (bytes_of s) (u32_sub (u32_sub (level_log2 mode - 4) 1) (u32_sub lvl ?f))"
          using eq False by (simp only: if_False not_less if_True)
        moreover have "even (level_log2 mode)" by simp
        ultimately show False using L(3) tail_layout_in_tail by metis
      qed
      have top: "chain_top mode s ew eh max_mip = ?f" using 3 False by (simp add: chain_top_def)
      have base: "chain_base mode s ew eh max_mip = (if ?f = max_mip + 1 then 0 else 2 ^ level_log2 mode)"
        using 3 False by (simp add: chain_base_def)
      have fle: "?f \<le> max_mip + 1" using chain_top_le[of mode s ew eh max_mip] top by simp
      have split: "rev [0..<?f] = rev [lvl + 1..<?f] @ lvl # rev [0..<lvl]"
        using lt upt_add_eq_append[of 0 lvl "?f - lvl"] by (simp add: upt_conv_Cons[of lvl])
      have "chain_base mode s ew eh max_mip \<le> 65536" by (simp add: chain_base_def)
      then have "find_level (level_len mode s ew eh) lvl (rev [0..<?f]) (chain_base mode s ew eh max_mip) =
          Some (chain_base mode s ew eh max_mip + sum (level_len mode s ew eh) {lvl + 1..<?f})"
        using find_level_sum[of lvl "rev [lvl + 1..<?f]" "chain_base mode s ew eh max_mip" "level_len mode s ew eh"
            "rev [0..<lvl]", unfolded sum_rev_upt, folded split] bound[OF fle, of "lvl + 1"] by auto
      then have "L = placed (Some (chain_base mode s ew eh max_mip + sum (level_len mode s ew eh) {lvl + 1..<?f}))"
        using eq False lt unfolding base al by (simp only: if_False not_le[symmetric])
      then show ?thesis unfolding top using lt by (simp only: offs)
    qed
  qed
qed

text \<open>The size of one level on its own, as the surface functions of \<open>Tile\<close> compute it.\<close>

definition level_size :: "nat \<Rightarrow> nat \<Rightarrow> nat \<Rightarrow> nat \<Rightarrow> nat \<Rightarrow> nat" where
  "level_size mode bpe ew eh level =
     (if mode = Linear then linear_sampled_surface_bytes (mip_dim ew level) (mip_dim eh level) bpe
      else tiled_surface_bytes (mip_dim ew level) (mip_dim eh level) mode 0 bpe)"

lemma mip_dim_le: "e \<le> 65536 \<Longrightarrow> mip_dim e l \<le> 65536"
  using order_trans[OF div_le_dividend[of e "2 ^ l"]] by (simp add: mip_dim_def)

lemma ceil_div_scaled: "0 < n \<Longrightarrow> 0 < a \<Longrightarrow> ceil_div w a = (w * n + (a * n - 1)) div (a * n)"
proof -
  assume n: "0 < n" and a: "0 < a"
  have "w * n + (a * n - 1) = (w + a - 1) * n + (n - 1)"
    using n a by (cases a) (simp_all add: algebra_simps)
  then have "(w * n + (a * n - 1)) div n = w + a - 1"
    using n by (simp only: div_mult_self3 div_less[of "n - 1" n] add_0_right)
  then show ?thesis by (simp only: ceil_div_def div_mult2_eq mult.commute[of a])
qed

lemma linear_size:
  assumes "w \<le> 65536" "h \<le> 65536" "0 < w" "0 < h"
  shows "linear_sampled_surface_bytes w h (bytes_of s) = ceil_div w (256 div bytes_of s) * (256 div bytes_of s) * (ceil_div h 1 * 1) * bytes_of s"
proof -
  have b: "bytes_of s \<le> 16" "0 < bytes_of s" by (cases s; simp)+
  have wb: "w * bytes_of s \<le> 65536 * 16" using assms(1) b by (intro mult_le_mono) simp_all
  have al: "(w * bytes_of s + 255) div 256 * 256 = ceil_div w (256 div bytes_of s) * (256 div bytes_of s) * bytes_of s"
  proof -
    have an: "256 div bytes_of s * bytes_of s = 256" "0 < 256 div bytes_of s" by (cases s; simp)+
    then have "ceil_div w (256 div bytes_of s) = (w * bytes_of s + 255) div 256"
      using ceil_div_scaled[OF b(2) an(2), of w] by simp
    then show ?thesis by (simp only: mult.assoc an)
  qed
  have le: "(w * bytes_of s + 255) div 256 * 256 \<le> 2 ^ 21" using wb by simp
  have pos: "0 < (w * bytes_of s + 255) div 256 * 256" using assms(3) b(2) by (simp add: div_greater_zero_iff)
  have row: "linear_sampled_row_pitch w (bytes_of s) = (w * bytes_of s + 255) div 256 * 256"
    using assms(3) b wb le by (simp add: linear_sampled_row_pitch_def Let_def u64_id)
  have "(w * bytes_of s + 255) div 256 * 256 * h \<le> UINT64_MAX"
    using le_trans[OF mult_le_mono[OF le assms(2)], of UINT64_MAX] by simp
  then have "\<not> (w * bytes_of s + 255) div 256 * 256 > UINT64_MAX div h"
    using assms(4) by (simp only: not_less less_eq_div_iff_mult_less_eq)
  then show ?thesis
    unfolding linear_sampled_surface_bytes_def row Let_def using pos assms(4) al
    by (simp add: ceil_div_def)
qed

lemma blocks_product: "tw * th * n = block \<Longrightarrow> b * a * block = a * tw * (b * th) * n" for tw th n block a b :: nat
  by (simp add: mult.assoc mult.left_commute)

lemma tiled_size:
  assumes mode: "tile_mode_is_tiled mode" and dims: "dims_ok w h 0"
  shows "tiled_surface_bytes w h mode 0 (bytes_of s) =
    ceil_div w (fst (level_align mode s)) * fst (level_align mode s) *
    (ceil_div h (snd (level_align mode s)) * snd (level_align mode s)) * bytes_of s"
proof -
  note sz256 = sizes_small[OF dims zero_less_power zero_less_power small_dims(1,2), OF zero_less_numeral zero_less_numeral]
  note sz4k = sizes_small[OF dims zero_less_power zero_less_power small_dims(3,4), OF zero_less_numeral zero_less_numeral]
  note sz64 = sizes_small[OF dims bw64_bounds(1-4)]
  have blocks: "u64 (ceil_div (padded w 0) tw * ceil_div h th * block) = ceil_div w tw * tw * (ceil_div h th * th) * bytes_of s"
    if "0 < tw" "0 < th" "block \<le> 65536" "tw * th * bytes_of s = block" for tw th block
    using u64_blocks[OF dims that(1-3)] blocks_product[OF that(4), of "ceil_div h th" "ceil_div w tw"] by (simp only: simp_thms if_False)
  have mode0: "mode \<noteq> Linear" using mode by (auto simp: tile_mode_is_tiled_def)
  consider "mode = Sw256BS" | "mode \<noteq> Sw256BS" "is_64kb_mode mode" | "mode \<noteq> Sw256BS" "\<not> is_64kb_mode mode" by blast
  then show ?thesis
  proof cases
    case 1
    then have "tiled_surface_bytes w h mode 0 (bytes_of s) = u64 (ceil_div (padded w 0) (2 ^ bx256 s) * ceil_div h (2 ^ by256 s) * 256)"
      using mode unfolding tiled_surface_bytes_def sw256_tiled_bytes_def sw256_dims_of prod.case Let_def sz256 by simp
    also note blocks[OF _ _ _ sw256.full[of s]]
    finally show ?thesis using 1 mode0 by (simp add: level_align_def)
  next
    case 2
    then have "tiled_surface_bytes w h mode 0 (bytes_of s) = u64 (ceil_div (padded w 0) (bw64 s) * ceil_div h (bh64 s) * 65536)"
      using mode log2_not_max[of s] unfolding tiled_surface_bytes_def sw64kb_tiled_bytes_def sw64kb_elem_log2_of case_prod_unfold Let_def sz64 by simp
    also note blocks[OF bw64_bounds(1,2) _ sw64kb.full[of s]]
    finally show ?thesis using 2 mode0 by (simp add: level_align_def)
  next
    case 3
    then have "tiled_surface_bytes w h mode 0 (bytes_of s) = u64 (ceil_div (padded w 0) (2 ^ bx4k s) * ceil_div h (2 ^ by4k s) * 4096)"
      using mode unfolding tiled_surface_bytes_def sw4kb_tiled_bytes_def sw4kb_dims_of prod.case Let_def sz4k by simp
    also note blocks[OF _ _ _ sw4kb.full[of s]]
    finally show ?thesis using 3 mode0 by (simp add: level_align_def)
  qed
qed

lemma level_size_eq:
  assumes mode: "mode = Linear \<or> tile_mode_is_tiled mode" and small: "ew \<le> 65536" "eh \<le> 65536"
  shows "level_size mode (bytes_of s) ew eh l = level_len mode s ew eh l"
proof -
  have b: "mip_dim ew l \<le> 65536" "mip_dim eh l \<le> 65536" "bytes_of s \<le> 16"
    using small by (simp_all add: mip_dim_le) (cases s; simp)
  note e = level_bytes_exact(1)[OF b(1,2) level_align_bounds[of mode s] b(3)]
  have d: "dims_ok (mip_dim ew l) (mip_dim eh l) 0" using b by (simp add: dims_ok_def)
  show ?thesis
  proof (cases "mode = Linear")
    case True
    then show ?thesis
      unfolding level_size_def e linear_size[OF b(1,2) mip_dim_pos mip_dim_pos] by (simp add: level_align_def)
  next
    case False
    with mode have "tile_mode_is_tiled mode" by blast
    with False show ?thesis unfolding level_size_def e by (simp only: if_False tiled_size[OF _ d])
  qed
qed

lemma mip_dim_0: "0 < e \<Longrightarrow> mip_dim e 0 = e"
  by (simp add: mip_dim_def)

lemma layout_zero_supported:
  assumes mode: "mode = Linear \<or> tile_mode_is_tiled mode" and "0 < ew" "0 < eh" "max_mip < 16" "ew \<le> 65536" "eh \<le> 65536"
    and top: "0 < chain_top mode s ew eh max_mip"
  shows "ml_supported (tiled_mip_level_layout ew eh (bytes_of s) mode max_mip 0) \<and>
    \<not> ml_in_tail (tiled_mip_level_layout ew eh (bytes_of s) mode max_mip 0)"
proof -
  have bound: "65536 + sum (level_len mode s ew eh) {a..<b} \<le> UINT64_MAX" if "b \<le> max_mip + 1" for a b
    using that assms(4) by (intro chain_sum_bound assms) simp
  have b: "\<not> (ew = 0 \<or> eh = 0 \<or> bytes_of s = 0 \<or> 0 > max_mip \<or> max_mip \<ge> 16)" using assms(2-4) by simp
  have all: "add_levels (level_len mode s ew eh) (rev [0 + 1..<max_mip + 1]) 0 \<noteq> None"
    using add_levels_sum[of 0 "level_len mode s ew eh" "rev [0 + 1..<max_mip + 1]", unfolded sum_rev_upt add_0]
      bound[OF order_refl, of 1] by simp
  consider "mode = Linear" | "mode = Sw256BS" | "tile_mode_is_tiled mode" "mode \<noteq> Sw256BS" "mode \<noteq> Linear"
    using mode by (auto simp: tile_mode_is_tiled_def)
  then show ?thesis
  proof cases
    case 1
    have "\<not> (bytes_of s > 256 \<or> 256 mod bytes_of s \<noteq> 0)" by (cases s) simp_all
    then have "tiled_mip_level_layout ew eh (bytes_of s) mode max_mip 0 = placed (add_levels (level_len mode s ew eh) (rev [0 + 1..<max_mip + 1]) 0)"
      unfolding tiled_mip_level_layout_def if_not_P[OF b] Let_def level_align_def using 1 by simp
    with all show ?thesis by simp
  next
    case 2
    then have "tiled_mip_level_layout ew eh (bytes_of s) mode max_mip 0 = placed (add_levels (level_len mode s ew eh) (rev [0 + 1..<max_mip + 1]) 0)"
      unfolding tiled_mip_level_layout_def if_not_P[OF b] Let_def level_align_def sw256_dims_of
      using supported_bytes[of s] by (simp add: tile_mode_is_tiled_def)
    with all show ?thesis by simp
  next
    case 3
    let ?f = "tail_start mode s ew eh max_mip"
    have al: "level_len mode s ew eh = level_bytes (level_bw mode s) (level_bh mode s) ew eh (bytes_of s)"
      using 3 by (simp only: level_align_def if_False fst_conv snd_conv)
    show ?thesis
    proof (cases "max_mip = 0")
      case True
      then show ?thesis unfolding macro_layout_eq[OF 3(1,2) assms(2,3) le0 assms(4)] macro_layout_start by simp
    next
      case False
      then have tf: "chain_top mode s ew eh max_mip = ?f" using 3 by (simp add: chain_top_def)
      have fle: "?f \<le> max_mip + 1" using chain_top_le[of mode s ew eh max_mip] tf by simp
      have base: "(if ?f = max_mip + 1 then 0 else 2 ^ level_log2 mode) \<le> (65536 :: nat)" by simp
      have split: "rev [0..<?f] = rev [0 + 1..<?f] @ 0 # []"
        using top tf by (simp add: upt_conv_Cons)
      have "find_level (level_len mode s ew eh) 0 (rev [0..<?f]) (if ?f = max_mip + 1 then 0 else 2 ^ level_log2 mode) \<noteq> None"
        using find_level_sum[of 0 "rev [0 + 1..<?f]" "if ?f = max_mip + 1 then 0 else 2 ^ level_log2 mode" "level_len mode s ew eh"
            "[]", unfolded sum_rev_upt, folded split] bound[OF fle, of "0 + 1"] base by auto
      then show ?thesis
        unfolding macro_layout_eq[OF 3(1,2) assms(2,3) le0 assms(4)] macro_layout_start al[symmetric]
        using False top tf by simp
    qed
  qed
qed

lemma chain_bytes_eq:
  assumes mode: "mode = Linear \<or> tile_mode_is_tiled mode" and pos: "0 < ew" "0 < eh" "max_mip < 16"
    and small: "ew \<le> 65536" "eh \<le> 65536" and top: "0 < chain_top mode s ew eh max_mip"
  shows "tiled_mip_chain_bytes ew eh (bytes_of s) mode max_mip =
     chain_base mode s ew eh max_mip + sum (level_len mode s ew eh) {0..<chain_top mode s ew eh max_mip}"
proof -
  let ?L = "tiled_mip_level_layout ew eh (bytes_of s) mode max_mip 0" and ?t = "chain_top mode s ew eh max_mip"
  note z = layout_zero_supported[OF mode pos small top]
  have o': "ml_byte_offset ?L = chain_base mode s ew eh max_mip + sum (level_len mode s ew eh) {0 + 1..<?t}"
    using level_layout_offset[OF mode small refl] z by blast
  have sz: "level_size mode (bytes_of s) ew eh 0 = level_len mode s ew eh 0" by (rule level_size_eq[OF mode small])
  have all: "sum (level_len mode s ew eh) {0..<?t} = level_len mode s ew eh 0 + sum (level_len mode s ew eh) {0 + 1..<?t}"
    using top by (simp add: sum.atLeast_Suc_lessThan)
  have "chain_base mode s ew eh max_mip \<le> 65536" by (simp add: chain_base_def)
  moreover have "65536 + sum (level_len mode s ew eh) {0..<?t} \<le> UINT64_MAX"
    using chain_top_le[of mode s ew eh max_mip] pos(3) by (intro chain_sum_bound small) simp
  ultimately have le: "ml_byte_offset ?L + level_len mode s ew eh 0 \<le> UINT64_MAX" unfolding o' using all by linarith
  have nz: "level_len mode s ew eh 0 \<noteq> 0"
  proof -
    have "mip_dim ew 0 \<le> 65536" "mip_dim eh 0 \<le> 65536" "bytes_of s \<le> 16"
      using small by (simp_all add: mip_dim_le) (cases s; simp)
    from level_bytes_exact(1)[OF this(1,2) level_align_bounds[of mode s] this(3)] level_align_bounds[of mode s]
    show ?thesis using mip_dim_pos[of ew 0] mip_dim_pos[of eh 0] by (simp add: ceil_div_pos)
  qed
  have "(if mode = Linear then linear_sampled_surface_bytes ew eh (bytes_of s) else tiled_surface_bytes ew eh mode 0 (bytes_of s))
      = level_len mode s ew eh 0"
    using sz by (simp only: level_size_def mip_dim_0[OF pos(1)] mip_dim_0[OF pos(2)])
  then have "tiled_mip_chain_bytes ew eh (bytes_of s) mode max_mip = ml_byte_offset ?L + level_len mode s ew eh 0"
    using z nz le unfolding tiled_mip_chain_bytes_def Let_def by (simp del: One_nat_def)
  then show ?thesis unfolding o' all by simp
qed

lemma in_tail_mode:
  assumes "ml_in_tail (tiled_mip_level_layout ew eh bpe mode max_mip l)"
  shows "tile_mode_is_tiled mode" and "mode \<noteq> Sw256BS"
proof -
  have "\<not> ml_in_tail (tiled_mip_level_layout ew eh bpe mode max_mip l)" if "mode = Linear"
    using that by (simp add: tiled_mip_level_layout_def Let_def)
  moreover have "\<not> ml_in_tail (tiled_mip_level_layout ew eh bpe mode max_mip l)" if "mode \<noteq> Linear" "\<not> tile_mode_is_tiled mode"
    using that by (simp add: tiled_mip_level_layout_def Let_def)
  ultimately show "tile_mode_is_tiled mode" using assms by blast
  have "\<not> ml_in_tail (tiled_mip_level_layout ew eh bpe Sw256BS max_mip l)"
    by (simp add: tiled_mip_level_layout_def Let_def tile_mode_is_tiled_def split: prod.split)
  then show "mode \<noteq> Sw256BS" using assms by blast
qed

text \<open>
  C13: in every mode the levels of a mip chain do not overlap. A smaller level \<open>j\<close>, or the tail block
  that holds it, ends before a larger level \<open>i\<close> begins, and level \<open>i\<close> ends inside the size that
  \<open>tiled_mip_chain_bytes\<close> reports for one slice.
\<close>

theorem mip_chain_levels_disjoint:
  assumes "mode = Linear \<or> tile_mode_is_tiled mode" and "bpe \<in> {1, 2, 4, 8, 16}" and "ew \<le> 65536" "eh \<le> 65536"
    and "L = tiled_mip_level_layout ew eh bpe mode max_mip i" "ml_supported L" "\<not> ml_in_tail L"
    and "L' = tiled_mip_level_layout ew eh bpe mode max_mip j" "ml_supported L'" and "i < j"
  shows "(if ml_in_tail L' then ml_tail_block_bytes L' else ml_byte_offset L' + level_size mode bpe ew eh j) \<le> ml_byte_offset L \<and>
     ml_byte_offset L + level_size mode bpe ew eh i \<le> tiled_mip_chain_bytes ew eh bpe mode max_mip"
proof -
  obtain s where s: "bpe = bytes_of s" using assms(2) by (rule elem_size_cases)
  let ?t = "chain_top mode s ew eh max_mip" and ?b = "chain_base mode s ew eh max_mip"
  let ?f = "level_len mode s ew eh"
  note off = level_layout_offset[OF assms(1,3,4) assms(5)[unfolded s] assms(6,7)]
  note sz = level_size_eq[OF assms(1,3,4), of s]
  have ok: "0 < ew" "0 < eh" "max_mip < 16" "j \<le> max_mip"
    using assms(8,9) by (auto simp: tiled_mip_level_layout_def no_layout_def split: if_splits)
  have top: "0 < ?t" using off by linarith
  have "?f i + sum ?f {i + 1..<?t} \<le> sum ?f {0..<?t}"
    using off sum_mono2[of "{0..<?t}" "{i..<?t}" ?f] by (simp add: sum.atLeast_Suc_lessThan)
  then have inside: "ml_byte_offset L + ?f i \<le> ?b + sum ?f {0..<?t}" using off by linarith
  have "(if ml_in_tail L' then ml_tail_block_bytes L' else ml_byte_offset L' + ?f j) \<le> ml_byte_offset L"
  proof (cases "ml_in_tail L'")
    case False
    note off' = level_layout_offset[OF assms(1,3,4) assms(8)[unfolded s] assms(9) False]
    have "?f j + sum ?f {j + 1..<?t} \<le> sum ?f {i + 1..<?t}"
      using off' assms(10) sum_mono2[of "{i + 1..<?t}" "{j..<?t}" ?f] by (simp add: sum.atLeast_Suc_lessThan)
    then show ?thesis using off off' False by simp
  next
    case True
    then have mode: "tile_mode_is_tiled mode" "mode \<noteq> Sw256BS"
      using in_tail_mode assms(8) by blast+
    note r = in_tail_room[OF mode assms(8)[unfolded s] True]
    have "mode \<noteq> Linear" using mode by (auto simp: tile_mode_is_tiled_def)
    moreover have "max_mip \<noteq> 0" using assms(10) ok(4) by linarith
    moreover have "tail_start mode s ew eh max_mip \<le> j" using r by blast
    then have "tail_start mode s ew eh max_mip \<noteq> max_mip + 1" using ok(4) by linarith
    ultimately have "?b = level_block mode" using mode(2) by (simp only: chain_base_def if_False simp_thms)
    moreover have "ml_tail_block_bytes L' = level_block mode" using r by blast
    ultimately show ?thesis using off True by (simp only: if_True)
  qed
  then show ?thesis unfolding s sz chain_bytes_eq[OF assms(1) ok(1-3) assms(3,4) top] using inside by blast
qed

theorem mip_chain_levels_disjoint_witness:
  "ml_byte_offset (tiled_mip_level_layout 300 2 4 Linear 2 1) = 512 \<and>
   512 + level_size Linear 4 300 2 1 \<le> tiled_mip_chain_bytes 300 2 4 Linear 2"
proof -
  have L: "tiled_mip_level_layout 300 2 4 Linear 2 1 = \<lparr>ml_byte_offset = 512, ml_tail_x = 0, ml_tail_y = 0,
     ml_tail_block_bytes = 0, ml_in_tail = False, ml_supported = True\<rparr>"
    and L': "ml_supported (tiled_mip_level_layout 300 2 4 Linear 2 2)"
    by (simp_all add: tiled_mip_level_layout_def level_bytes_def mip_dim_def placed_def no_layout_def u32_def u64_def Let_def upt_rec)
  show ?thesis
    using mip_chain_levels_disjoint[of Linear 4 300 2 _ 2 1 _ 2, OF _ _ _ _ L[symmetric] _ _ refl L']
    unfolding L mip_layout.simps by simp
qed

end
