(* ===== verification/BcTables.thy ===== *)
theory BcTables
  imports Prelude
begin

text \<open>
  The constant tables of \<open>gpu/texture/bc_decode.cpp\<close>: BC7 partitions and interpolation
  weights, BC6H partitions and field precisions. A partition row lists the sixteen texels of a
  block in row-major order; an entry of 128 or more marks the anchor texel of its subset.
\<close>

definition kBc7ColorBits :: "nat list" where
  "kBc7ColorBits = [4, 6, 5, 7, 5, 7, 7, 5]"

definition kBc7AlphaBits :: "nat list" where
  "kBc7AlphaBits = [0, 0, 0, 0, 6, 8, 7, 5]"

definition kBc7ModeHasEndpointPBits :: nat where
  "kBc7ModeHasEndpointPBits = 0xC9"

definition kWeight2 :: "nat list" where
  "kWeight2 = [0, 21, 43, 64]"

definition kWeight3 :: "nat list" where
  "kWeight3 = [0, 9, 18, 27, 37, 46, 55, 64]"

definition kWeight4 :: "nat list" where
  "kWeight4 = [0, 4, 9, 13, 17, 21, 26, 30, 34, 38, 43, 47, 51, 55, 60, 64]"

definition kBc7Partition2 :: "nat list list" where
  "kBc7Partition2 =
    [[128,   0,   1,   1,     0,   0,   1,   1,     0,   0,   1,   1,     0,   0,   1, 129],
     [128,   0,   0,   1,     0,   0,   0,   1,     0,   0,   0,   1,     0,   0,   0, 129],
     [128,   1,   1,   1,     0,   1,   1,   1,     0,   1,   1,   1,     0,   1,   1, 129],
     [128,   0,   0,   1,     0,   0,   1,   1,     0,   0,   1,   1,     0,   1,   1, 129],
     [128,   0,   0,   0,     0,   0,   0,   1,     0,   0,   0,   1,     0,   0,   1, 129],
     [128,   0,   1,   1,     0,   1,   1,   1,     0,   1,   1,   1,     1,   1,   1, 129],
     [128,   0,   0,   1,     0,   0,   1,   1,     0,   1,   1,   1,     1,   1,   1, 129],
     [128,   0,   0,   0,     0,   0,   0,   1,     0,   0,   1,   1,     0,   1,   1, 129],
     [128,   0,   0,   0,     0,   0,   0,   0,     0,   0,   0,   1,     0,   0,   1, 129],
     [128,   0,   1,   1,     0,   1,   1,   1,     1,   1,   1,   1,     1,   1,   1, 129],
     [128,   0,   0,   0,     0,   0,   0,   1,     0,   1,   1,   1,     1,   1,   1, 129],
     [128,   0,   0,   0,     0,   0,   0,   0,     0,   0,   0,   1,     0,   1,   1, 129],
     [128,   0,   0,   1,     0,   1,   1,   1,     1,   1,   1,   1,     1,   1,   1, 129],
     [128,   0,   0,   0,     0,   0,   0,   0,     1,   1,   1,   1,     1,   1,   1, 129],
     [128,   0,   0,   0,     1,   1,   1,   1,     1,   1,   1,   1,     1,   1,   1, 129],
     [128,   0,   0,   0,     0,   0,   0,   0,     0,   0,   0,   0,     1,   1,   1, 129],
     [128,   0,   0,   0,     1,   0,   0,   0,     1,   1,   1,   0,     1,   1,   1, 129],
     [128,   1, 129,   1,     0,   0,   0,   1,     0,   0,   0,   0,     0,   0,   0,   0],
     [128,   0,   0,   0,     0,   0,   0,   0,   129,   0,   0,   0,     1,   1,   1,   0],
     [128,   1, 129,   1,     0,   0,   1,   1,     0,   0,   0,   1,     0,   0,   0,   0],
     [128,   0, 129,   1,     0,   0,   0,   1,     0,   0,   0,   0,     0,   0,   0,   0],
     [128,   0,   0,   0,     1,   0,   0,   0,   129,   1,   0,   0,     1,   1,   1,   0],
     [128,   0,   0,   0,     0,   0,   0,   0,   129,   0,   0,   0,     1,   1,   0,   0],
     [128,   1,   1,   1,     0,   0,   1,   1,     0,   0,   1,   1,     0,   0,   0, 129],
     [128,   0, 129,   1,     0,   0,   0,   1,     0,   0,   0,   1,     0,   0,   0,   0],
     [128,   0,   0,   0,     1,   0,   0,   0,   129,   0,   0,   0,     1,   1,   0,   0],
     [128,   1, 129,   0,     0,   1,   1,   0,     0,   1,   1,   0,     0,   1,   1,   0],
     [128,   0, 129,   1,     0,   1,   1,   0,     0,   1,   1,   0,     1,   1,   0,   0],
     [128,   0,   0,   1,     0,   1,   1,   1,   129,   1,   1,   0,     1,   0,   0,   0],
     [128,   0,   0,   0,     1,   1,   1,   1,   129,   1,   1,   1,     0,   0,   0,   0],
     [128,   1, 129,   1,     0,   0,   0,   1,     1,   0,   0,   0,     1,   1,   1,   0],
     [128,   0, 129,   1,     1,   0,   0,   1,     1,   0,   0,   1,     1,   1,   0,   0],
     [128,   1,   0,   1,     0,   1,   0,   1,     0,   1,   0,   1,     0,   1,   0, 129],
     [128,   0,   0,   0,     1,   1,   1,   1,     0,   0,   0,   0,     1,   1,   1, 129],
     [128,   1,   0,   1,     1,   0, 129,   0,     0,   1,   0,   1,     1,   0,   1,   0],
     [128,   0,   1,   1,     0,   0,   1,   1,   129,   1,   0,   0,     1,   1,   0,   0],
     [128,   0, 129,   1,     1,   1,   0,   0,     0,   0,   1,   1,     1,   1,   0,   0],
     [128,   1,   0,   1,     0,   1,   0,   1,   129,   0,   1,   0,     1,   0,   1,   0],
     [128,   1,   1,   0,     1,   0,   0,   1,     0,   1,   1,   0,     1,   0,   0, 129],
     [128,   1,   0,   1,     1,   0,   1,   0,     1,   0,   1,   0,     0,   1,   0, 129],
     [128,   1, 129,   1,     0,   0,   1,   1,     1,   1,   0,   0,     1,   1,   1,   0],
     [128,   0,   0,   1,     0,   0,   1,   1,   129,   1,   0,   0,     1,   0,   0,   0],
     [128,   0, 129,   1,     0,   0,   1,   0,     0,   1,   0,   0,     1,   1,   0,   0],
     [128,   0, 129,   1,     1,   0,   1,   1,     1,   1,   0,   1,     1,   1,   0,   0],
     [128,   1, 129,   0,     1,   0,   0,   1,     1,   0,   0,   1,     0,   1,   1,   0],
     [128,   0,   1,   1,     1,   1,   0,   0,     1,   1,   0,   0,     0,   0,   1, 129],
     [128,   1,   1,   0,     0,   1,   1,   0,     1,   0,   0,   1,     1,   0,   0, 129],
     [128,   0,   0,   0,     0,   1, 129,   0,     0,   1,   1,   0,     0,   0,   0,   0],
     [128,   1,   0,   0,     1,   1, 129,   0,     0,   1,   0,   0,     0,   0,   0,   0],
     [128,   0, 129,   0,     0,   1,   1,   1,     0,   0,   1,   0,     0,   0,   0,   0],
     [128,   0,   0,   0,     0,   0, 129,   0,     0,   1,   1,   1,     0,   0,   1,   0],
     [128,   0,   0,   0,     0,   1,   0,   0,   129,   1,   1,   0,     0,   1,   0,   0],
     [128,   1,   1,   0,     1,   1,   0,   0,     1,   0,   0,   1,     0,   0,   1, 129],
     [128,   0,   1,   1,     0,   1,   1,   0,     1,   1,   0,   0,     1,   0,   0, 129],
     [128,   1, 129,   0,     0,   0,   1,   1,     1,   0,   0,   1,     1,   1,   0,   0],
     [128,   0, 129,   1,     1,   0,   0,   1,     1,   1,   0,   0,     0,   1,   1,   0],
     [128,   1,   1,   0,     1,   1,   0,   0,     1,   1,   0,   0,     1,   0,   0, 129],
     [128,   1,   1,   0,     0,   0,   1,   1,     0,   0,   1,   1,     1,   0,   0, 129],
     [128,   1,   1,   1,     1,   1,   1,   0,     1,   0,   0,   0,     0,   0,   0, 129],
     [128,   0,   0,   1,     1,   0,   0,   0,     1,   1,   1,   0,     0,   1,   1, 129],
     [128,   0,   0,   0,     1,   1,   1,   1,     0,   0,   1,   1,     0,   0,   1, 129],
     [128,   0, 129,   1,     0,   0,   1,   1,     1,   1,   1,   1,     0,   0,   0,   0],
     [128,   0, 129,   0,     0,   0,   1,   0,     1,   1,   1,   0,     1,   1,   1,   0],
     [128,   1,   0,   0,     0,   1,   0,   0,     0,   1,   1,   1,     0,   1,   1, 129]]"

definition kBc7Partition3 :: "nat list list" where
  "kBc7Partition3 =
    [[128,   0,   1, 129,     0,   0,   1,   1,     0,   2,   2,   1,     2,   2,   2, 130],
     [128,   0,   0, 129,     0,   0,   1,   1,   130,   2,   1,   1,     2,   2,   2,   1],
     [128,   0,   0,   0,     2,   0,   0,   1,   130,   2,   1,   1,     2,   2,   1, 129],
     [128,   2,   2, 130,     0,   0,   2,   2,     0,   0,   1,   1,     0,   1,   1, 129],
     [128,   0,   0,   0,     0,   0,   0,   0,   129,   1,   2,   2,     1,   1,   2, 130],
     [128,   0,   1, 129,     0,   0,   1,   1,     0,   0,   2,   2,     0,   0,   2, 130],
     [128,   0,   2, 130,     0,   0,   2,   2,     1,   1,   1,   1,     1,   1,   1, 129],
     [128,   0,   1,   1,     0,   0,   1,   1,   130,   2,   1,   1,     2,   2,   1, 129],
     [128,   0,   0,   0,     0,   0,   0,   0,   129,   1,   1,   1,     2,   2,   2, 130],
     [128,   0,   0,   0,     1,   1,   1,   1,   129,   1,   1,   1,     2,   2,   2, 130],
     [128,   0,   0,   0,     1,   1, 129,   1,     2,   2,   2,   2,     2,   2,   2, 130],
     [128,   0,   1,   2,     0,   0, 129,   2,     0,   0,   1,   2,     0,   0,   1, 130],
     [128,   1,   1,   2,     0,   1, 129,   2,     0,   1,   1,   2,     0,   1,   1, 130],
     [128,   1,   2,   2,     0, 129,   2,   2,     0,   1,   2,   2,     0,   1,   2, 130],
     [128,   0,   1, 129,     0,   1,   1,   2,     1,   1,   2,   2,     1,   2,   2, 130],
     [128,   0,   1, 129,     2,   0,   0,   1,   130,   2,   0,   0,     2,   2,   2,   0],
     [128,   0,   0, 129,     0,   0,   1,   1,     0,   1,   1,   2,     1,   1,   2, 130],
     [128,   1,   1, 129,     0,   0,   1,   1,   130,   0,   0,   1,     2,   2,   0,   0],
     [128,   0,   0,   0,     1,   1,   2,   2,   129,   1,   2,   2,     1,   1,   2, 130],
     [128,   0,   2, 130,     0,   0,   2,   2,     0,   0,   2,   2,     1,   1,   1, 129],
     [128,   1,   1, 129,     0,   1,   1,   1,     0,   2,   2,   2,     0,   2,   2, 130],
     [128,   0,   0, 129,     0,   0,   0,   1,   130,   2,   2,   1,     2,   2,   2,   1],
     [128,   0,   0,   0,     0,   0, 129,   1,     0,   1,   2,   2,     0,   1,   2, 130],
     [128,   0,   0,   0,     1,   1,   0,   0,   130,   2, 129,   0,     2,   2,   1,   0],
     [128,   1,   2, 130,     0, 129,   2,   2,     0,   0,   1,   1,     0,   0,   0,   0],
     [128,   0,   1,   2,     0,   0,   1,   2,   129,   1,   2,   2,     2,   2,   2, 130],
     [128,   1,   1,   0,     1,   2, 130,   1,   129,   2,   2,   1,     0,   1,   1,   0],
     [128,   0,   0,   0,     0,   1, 129,   0,     1,   2, 130,   1,     1,   2,   2,   1],
     [128,   0,   2,   2,     1,   1,   0,   2,   129,   1,   0,   2,     0,   0,   2, 130],
     [128,   1,   1,   0,     0, 129,   1,   0,     2,   0,   0,   2,     2,   2,   2, 130],
     [128,   0,   1,   1,     0,   1,   2,   2,     0,   1, 130,   2,     0,   0,   1, 129],
     [128,   0,   0,   0,     2,   0,   0,   0,   130,   2,   1,   1,     2,   2,   2, 129],
     [128,   0,   0,   0,     0,   0,   0,   2,   129,   1,   2,   2,     1,   2,   2, 130],
     [128,   2,   2, 130,     0,   0,   2,   2,     0,   0,   1,   2,     0,   0,   1, 129],
     [128,   0,   1, 129,     0,   0,   1,   2,     0,   0,   2,   2,     0,   2,   2, 130],
     [128,   1,   2,   0,     0, 129,   2,   0,     0,   1, 130,   0,     0,   1,   2,   0],
     [128,   0,   0,   0,     1,   1, 129,   1,     2,   2, 130,   2,     0,   0,   0,   0],
     [128,   1,   2,   0,     1,   2,   0,   1,   130,   0, 129,   2,     0,   1,   2,   0],
     [128,   1,   2,   0,     2,   0,   1,   2,   129, 130,   0,   1,     0,   1,   2,   0],
     [128,   0,   1,   1,     2,   2,   0,   0,     1,   1, 130,   2,     0,   0,   1, 129],
     [128,   0,   1,   1,     1,   1, 130,   2,     2,   2,   0,   0,     0,   0,   1, 129],
     [128,   1,   0, 129,     0,   1,   0,   1,     2,   2,   2,   2,     2,   2,   2, 130],
     [128,   0,   0,   0,     0,   0,   0,   0,   130,   1,   2,   1,     2,   1,   2, 129],
     [128,   0,   2,   2,     1, 129,   2,   2,     0,   0,   2,   2,     1,   1,   2, 130],
     [128,   0,   2, 130,     0,   0,   1,   1,     0,   0,   2,   2,     0,   0,   1, 129],
     [128,   2,   2,   0,     1,   2, 130,   1,     0,   2,   2,   0,     1,   2,   2, 129],
     [128,   1,   0,   1,     2,   2, 130,   2,     2,   2,   2,   2,     0,   1,   0, 129],
     [128,   0,   0,   0,     2,   1,   2,   1,   130,   1,   2,   1,     2,   1,   2, 129],
     [128,   1,   0, 129,     0,   1,   0,   1,     0,   1,   0,   1,     2,   2,   2, 130],
     [128,   2,   2, 130,     0,   1,   1,   1,     0,   2,   2,   2,     0,   1,   1, 129],
     [128,   0,   0,   2,     1, 129,   1,   2,     0,   0,   0,   2,     1,   1,   1, 130],
     [128,   0,   0,   0,     2, 129,   1,   2,     2,   1,   1,   2,     2,   1,   1, 130],
     [128,   2,   2,   2,     0, 129,   1,   1,     0,   1,   1,   1,     0,   2,   2, 130],
     [128,   0,   0,   2,     1,   1,   1,   2,   129,   1,   1,   2,     0,   0,   0, 130],
     [128,   1,   1,   0,     0, 129,   1,   0,     0,   1,   1,   0,     2,   2,   2, 130],
     [128,   0,   0,   0,     0,   0,   0,   0,     2,   1, 129,   2,     2,   1,   1, 130],
     [128,   1,   1,   0,     0, 129,   1,   0,     2,   2,   2,   2,     2,   2,   2, 130],
     [128,   0,   2,   2,     0,   0,   1,   1,     0,   0, 129,   1,     0,   0,   2, 130],
     [128,   0,   2,   2,     1,   1,   2,   2,   129,   1,   2,   2,     0,   0,   2, 130],
     [128,   0,   0,   0,     0,   0,   0,   0,     0,   0,   0,   0,     2, 129,   1, 130],
     [128,   0,   0, 130,     0,   0,   0,   1,     0,   0,   0,   2,     0,   0,   0, 129],
     [128,   2,   2,   2,     1,   2,   2,   2,     0,   2,   2,   2,   129,   2,   2, 130],
     [128,   1,   0, 129,     2,   2,   2,   2,     2,   2,   2,   2,     2,   2,   2, 130],
     [128,   1,   1, 129,     2,   0,   1,   1,   130,   2,   0,   1,     2,   2,   2,   0]]"

definition kBc7PartitionSets :: "nat list list list" where
  "kBc7PartitionSets = [kBc7Partition2, kBc7Partition3]"

definition bc6h_partition_sets :: "nat list list" where
  "bc6h_partition_sets =
    [[128,   0,   1,   1,     0,   0,   1,   1,     0,   0,   1,   1,     0,   0,   1, 129],
     [128,   0,   0,   1,     0,   0,   0,   1,     0,   0,   0,   1,     0,   0,   0, 129],
     [128,   1,   1,   1,     0,   1,   1,   1,     0,   1,   1,   1,     0,   1,   1, 129],
     [128,   0,   0,   1,     0,   0,   1,   1,     0,   0,   1,   1,     0,   1,   1, 129],
     [128,   0,   0,   0,     0,   0,   0,   1,     0,   0,   0,   1,     0,   0,   1, 129],
     [128,   0,   1,   1,     0,   1,   1,   1,     0,   1,   1,   1,     1,   1,   1, 129],
     [128,   0,   0,   1,     0,   0,   1,   1,     0,   1,   1,   1,     1,   1,   1, 129],
     [128,   0,   0,   0,     0,   0,   0,   1,     0,   0,   1,   1,     0,   1,   1, 129],
     [128,   0,   0,   0,     0,   0,   0,   0,     0,   0,   0,   1,     0,   0,   1, 129],
     [128,   0,   1,   1,     0,   1,   1,   1,     1,   1,   1,   1,     1,   1,   1, 129],
     [128,   0,   0,   0,     0,   0,   0,   1,     0,   1,   1,   1,     1,   1,   1, 129],
     [128,   0,   0,   0,     0,   0,   0,   0,     0,   0,   0,   1,     0,   1,   1, 129],
     [128,   0,   0,   1,     0,   1,   1,   1,     1,   1,   1,   1,     1,   1,   1, 129],
     [128,   0,   0,   0,     0,   0,   0,   0,     1,   1,   1,   1,     1,   1,   1, 129],
     [128,   0,   0,   0,     1,   1,   1,   1,     1,   1,   1,   1,     1,   1,   1, 129],
     [128,   0,   0,   0,     0,   0,   0,   0,     0,   0,   0,   0,     1,   1,   1, 129],
     [128,   0,   0,   0,     1,   0,   0,   0,     1,   1,   1,   0,     1,   1,   1, 129],
     [128,   1, 129,   1,     0,   0,   0,   1,     0,   0,   0,   0,     0,   0,   0,   0],
     [128,   0,   0,   0,     0,   0,   0,   0,   129,   0,   0,   0,     1,   1,   1,   0],
     [128,   1, 129,   1,     0,   0,   1,   1,     0,   0,   0,   1,     0,   0,   0,   0],
     [128,   0, 129,   1,     0,   0,   0,   1,     0,   0,   0,   0,     0,   0,   0,   0],
     [128,   0,   0,   0,     1,   0,   0,   0,   129,   1,   0,   0,     1,   1,   1,   0],
     [128,   0,   0,   0,     0,   0,   0,   0,   129,   0,   0,   0,     1,   1,   0,   0],
     [128,   1,   1,   1,     0,   0,   1,   1,     0,   0,   1,   1,     0,   0,   0, 129],
     [128,   0, 129,   1,     0,   0,   0,   1,     0,   0,   0,   1,     0,   0,   0,   0],
     [128,   0,   0,   0,     1,   0,   0,   0,   129,   0,   0,   0,     1,   1,   0,   0],
     [128,   1, 129,   0,     0,   1,   1,   0,     0,   1,   1,   0,     0,   1,   1,   0],
     [128,   0, 129,   1,     0,   1,   1,   0,     0,   1,   1,   0,     1,   1,   0,   0],
     [128,   0,   0,   1,     0,   1,   1,   1,   129,   1,   1,   0,     1,   0,   0,   0],
     [128,   0,   0,   0,     1,   1,   1,   1,   129,   1,   1,   1,     0,   0,   0,   0],
     [128,   1, 129,   1,     0,   0,   0,   1,     1,   0,   0,   0,     1,   1,   1,   0],
     [128,   0, 129,   1,     1,   0,   0,   1,     1,   0,   0,   1,     1,   1,   0,   0]]"

definition bc6h_actual_bits_count :: "nat list list" where
  "bc6h_actual_bits_count =
    [[10, 7, 11, 11, 11, 9, 8, 8, 8, 6, 10, 11, 12, 16],
     [ 5, 6,  5,  4,  4, 5, 6, 5, 5, 6, 10,  9,  8,  4],
     [ 5, 6,  4,  5,  4, 5, 5, 6, 5, 6, 10,  9,  8,  4],
     [ 5, 6,  4,  4,  5, 5, 5, 5, 6, 6, 10,  9,  8,  4]]"

end
