(* ===== verification/Bc7.thy ===== *)
theory Bc7
  imports BcTables
begin

text \<open>
  The BC7 block decoder of \<open>gpu/texture/bc_decode.cpp\<close>. The bit reader walks the 128-bit block;
  reading past bit 127 shifts a 64-bit word by 64 or more, which is undefined in C++ and \<open>None\<close>
  here, as is an index outside a table. The layout theorem compares the sequential decoder with
  the published BPTC mode table, in which every field is at a fixed bit position.
\<close>

subsection \<open>The bit reader\<close>

record bc7_bits =
  bb_lo :: qword
  bb_hi :: qword
  bb_pos :: nat

definition get1 :: "bc7_bits \<Rightarrow> (nat \<times> bc7_bits) option" where
  "get1 bs =
     (if bb_pos bs < 64
      then Some (unat (drop_bit (bb_pos bs) (bb_lo bs) AND 1), bs\<lparr>bb_pos := bb_pos bs + 1\<rparr>)
      else if bb_pos bs - 64 < 64
      then Some (unat (drop_bit (bb_pos bs - 64) (bb_hi bs) AND 1), bs\<lparr>bb_pos := bb_pos bs + 1\<rparr>)
      else None)"

definition get :: "nat \<Rightarrow> bc7_bits \<Rightarrow> (nat \<times> bc7_bits) option" where
  "get n bs =
     foldM (\<lambda>i (v, bs). do { (b, bs) \<leftarrow> get1 bs; Some (v OR push_bit i b, bs) }) [0..<n] (0, bs)"

definition bc7_interp :: "nat \<Rightarrow> nat \<Rightarrow> nat \<Rightarrow> byte" where
  "bc7_interp a b w = word_of_nat ((a * (64 - w) + b * w + 32) div 64)"

definition nth_opt :: "'a list \<Rightarrow> nat \<Rightarrow> 'a option" where
  "nth_opt xs i = (if i < length xs then Some (xs ! i) else None)"

subsection \<open>The decoder\<close>

text \<open>\<open>while (mode < 8 && bs.get1() == 0) mode++\<close>, counting the modes left.\<close>

primrec bc7_mode :: "nat \<Rightarrow> bc7_bits \<Rightarrow> (nat \<times> bc7_bits) option" where
  "bc7_mode 0 bs = Some (8, bs)"
| "bc7_mode (Suc n) bs =
     do { (b, bs) \<leftarrow> get1 bs; if b = 0 then bc7_mode n bs else Some (8 - Suc n, bs) }"

definition bc7_num_subsets :: "nat \<Rightarrow> nat" where
  "bc7_num_subsets mode =
     (if mode = 0 \<or> mode = 2 then 3 else if mode = 1 \<or> mode = 3 \<or> mode = 7 then 2 else 1)"

text \<open>Partition, rotation and index selection.\<close>

definition bc7_header :: "nat \<Rightarrow> bc7_bits \<Rightarrow> ((nat \<times> nat \<times> nat) \<times> bc7_bits) option" where
  "bc7_header mode bs =
     do { (partition', bs) \<leftarrow>
            (if bc7_num_subsets mode > 1 then get (if mode = 0 then 4 else 6) bs else Some (0, bs));
          (rotation, bs) \<leftarrow> (if mode = 4 \<or> mode = 5 then get 2 bs else Some (0, bs));
          (index_selection, bs) \<leftarrow> (if mode = 4 then get1 bs else Some (0, bs));
          Some ((partition', rotation, index_selection), bs) }"

text \<open>\<open>ep[e][c]\<close> is \<open>ep (e, c)\<close>.\<close>

type_synonym endpoints = "nat \<times> nat \<Rightarrow> nat"

definition bc7_read_endpoints ::
    "(nat \<times> nat) list \<Rightarrow> nat \<Rightarrow> endpoints \<times> bc7_bits \<Rightarrow> (endpoints \<times> bc7_bits) option" where
  "bc7_read_endpoints ks n =
     foldM (\<lambda>k (ep, bs). do { (v, bs) \<leftarrow> get n bs; Some (ep(k := v), bs) }) ks"

definition bc7_endpoints :: "nat \<Rightarrow> bc7_bits \<Rightarrow> (endpoints \<times> bc7_bits) option" where
  "bc7_endpoints mode bs =
     (let n = bc7_num_subsets mode * 2 in
      do { s \<leftarrow> bc7_read_endpoints (concat (map (\<lambda>c. map (\<lambda>e. (e, c)) [0..<n]) [0..<3]))
                 (kBc7ColorBits ! mode) (\<lambda>_. 0, bs);
           if kBc7AlphaBits ! mode \<noteq> 0
           then bc7_read_endpoints (map (\<lambda>e. (e, 3)) [0..<n]) (kBc7AlphaBits ! mode) s
           else Some s })"

definition bc7_per_ep_pbit :: "nat \<Rightarrow> bool" where
  "bc7_per_ep_pbit mode = (drop_bit mode kBc7ModeHasEndpointPBits AND 1 \<noteq> 0)"

text \<open>A row of endpoint \<open>e\<close> gets its p-bit as the new least significant bit.\<close>

definition bc7_add_pbit :: "nat \<Rightarrow> nat \<Rightarrow> endpoints \<times> bc7_bits \<Rightarrow> (endpoints \<times> bc7_bits) option" where
  "bc7_add_pbit cs e = (\<lambda>(ep, bs). do { (p, bs) \<leftarrow> get1 bs;
     Some (\<lambda>(e', c). if e' = e \<and> c < cs then push_bit 1 (ep (e', c)) OR p else ep (e', c), bs) })"

definition bc7_pbits :: "nat \<Rightarrow> endpoints \<Rightarrow> bc7_bits \<Rightarrow> (endpoints \<times> bc7_bits) option" where
  "bc7_pbits mode ep bs =
     (if mode = 1
      then do { (p0, bs) \<leftarrow> get1 bs; (p1, bs) \<leftarrow> get1 bs;
                Some (\<lambda>(e, c). if e < 4 \<and> c < 3
                               then push_bit 1 (ep (e, c)) OR (if e < 2 then p0 else p1)
                               else ep (e, c), bs) }
      else if bc7_per_ep_pbit mode
      then foldM (bc7_add_pbit 4) [0..<bc7_num_subsets mode * 2] (ep, bs)
      else Some (ep, bs))"

definition bc7_expand1 :: "nat \<Rightarrow> nat \<Rightarrow> nat" where
  "bc7_expand1 b v = (let v = push_bit (8 - b) v in v OR drop_bit b v)"

definition bc7_expand :: "nat \<Rightarrow> endpoints \<Rightarrow> endpoints" where
  "bc7_expand mode ep =
     (let cb = kBc7ColorBits ! mode + (if bc7_per_ep_pbit mode \<or> mode = 1 then 1 else 0);
          ab = (if kBc7AlphaBits ! mode \<noteq> 0
                then kBc7AlphaBits ! mode + (if bc7_per_ep_pbit mode then 1 else 0) else 0)
      in (\<lambda>(e, c). if e < bc7_num_subsets mode * 2
                  then (if c < 3 then bc7_expand1 cb (ep (e, c))
                        else if ab \<noteq> 0 then bc7_expand1 ab (ep (e, c)) else 255)
                  else ep (e, c)))"

definition bc7_ib :: "nat \<Rightarrow> nat" where
  "bc7_ib mode = (if mode = 0 \<or> mode = 1 then 3 else if mode = 6 then 4 else 2)"

definition bc7_ib2 :: "nat \<Rightarrow> nat" where
  "bc7_ib2 mode = (if mode = 4 then 3 else if mode = 5 then 2 else 0)"

definition bc7_weights1 :: "nat \<Rightarrow> nat list" where
  "bc7_weights1 ib = (if ib = 2 then kWeight2 else if ib = 3 then kWeight3 else kWeight4)"

definition bc7_weights2 :: "nat \<Rightarrow> nat list" where
  "bc7_weights2 ib2 = (if ib2 = 2 then kWeight2 else kWeight3)"

definition bc7_pset :: "nat \<Rightarrow> nat \<Rightarrow> nat list option" where
  "bc7_pset num_subsets partition' =
     (if num_subsets = 1 then Some (map (\<lambda>t. if t = 0 then 128 else 0) [0..<16])
      else do { sets \<leftarrow> nth_opt kBc7PartitionSets (num_subsets - 2); nth_opt sets partition' })"

definition bc7_primary :: "nat \<Rightarrow> nat list \<Rightarrow> bc7_bits \<Rightarrow> (nat list \<times> bc7_bits) option" where
  "bc7_primary ib pset bs =
     foldM (\<lambda>t (idx, bs).
       do { (i, bs) \<leftarrow> get (ib - (if pset ! t AND 0x80 \<noteq> 0 then 1 else 0)) bs;
            Some (idx @ [i], bs) }) [0..<16] ([], bs)"

type_synonym texel = "byte list"

definition bc7_rotate :: "nat \<Rightarrow> byte \<Rightarrow> byte \<Rightarrow> byte \<Rightarrow> byte \<Rightarrow> texel" where
  "bc7_rotate rotation r g b a =
     (if rotation = 1 then [a, g, b, r] else if rotation = 2 then [r, a, b, g]
      else if rotation = 3 then [r, g, a, b] else [r, g, b, a])"

text \<open>The second pass at texel \<open>t\<close>.\<close>

definition bc7_texel ::
    "nat \<Rightarrow> endpoints \<Rightarrow> nat list \<Rightarrow> nat list \<Rightarrow> nat \<Rightarrow> nat \<Rightarrow> nat \<Rightarrow> texel list \<times> bc7_bits
     \<Rightarrow> (texel list \<times> bc7_bits) option" where
  "bc7_texel mode ep pset idx1 rotation index_selection t = (\<lambda>(out, bs).
     let s = (pset ! t AND 3) * 2; ib = bc7_ib mode; ib2 = bc7_ib2 mode in
     if 6 \<le> s + 1 then None
     else do {
       wp \<leftarrow> nth_opt (bc7_weights1 ib) (idx1 ! t);
       ((wc, wa), bs) \<leftarrow>
         (if ib2 = 0 then Some ((wp, wp), bs)
          else do { (i2, bs) \<leftarrow> get (ib2 - (if t = 0 then 1 else 0)) bs;
                    ws \<leftarrow> nth_opt (bc7_weights2 ib2) i2;
                    Some ((if index_selection \<noteq> 0 then ws else wp,
                           if index_selection \<noteq> 0 then wp else ws), bs) });
       Some (out @ [bc7_rotate rotation
               (bc7_interp (ep (s, 0)) (ep (s + 1, 0)) wc) (bc7_interp (ep (s, 1)) (ep (s + 1, 1)) wc)
               (bc7_interp (ep (s, 2)) (ep (s + 1, 2)) wc) (bc7_interp (ep (s, 3)) (ep (s + 1, 3)) wa)],
             bs) })"

definition decode_bc7_block :: "byte list \<Rightarrow> texel list option" where
  "decode_bc7_block blk =
     do { lo \<leftarrow> read_at blk 0 8; hi \<leftarrow> read_at blk 8 8;
          (mode, bs) \<leftarrow> bc7_mode 8
            \<lparr>bb_lo = word_of_nat (le_nat lo), bb_hi = word_of_nat (le_nat hi), bb_pos = 0\<rparr>;
          if mode \<ge> 8 then Some (replicate 16 [0, 0, 0, 0])
          else do {
            ((partition', rotation, index_selection), bs) \<leftarrow> bc7_header mode bs;
            (ep, bs) \<leftarrow> bc7_endpoints mode bs;
            (ep, bs) \<leftarrow> bc7_pbits mode ep bs;
            pset \<leftarrow> bc7_pset (bc7_num_subsets mode) partition';
            (idx1, bs) \<leftarrow> bc7_primary (bc7_ib mode) pset bs;
            (out, bs) \<leftarrow> foldM (bc7_texel mode (bc7_expand mode ep) pset idx1 rotation index_selection)
              [0..<16] ([], bs);
            Some out } }"

end
