(* ===== verification/BitFields.thy ===== *)
theory BitFields
  imports Prelude
begin

text \<open>
  Bit fields of a natural number, the reference the sequential bit readers are compared with:
  \<open>fld B p n\<close> is the field of \<open>n\<close> bits at bit \<open>p\<close> of \<open>B\<close>.
\<close>

definition fld :: "nat \<Rightarrow> nat \<Rightarrow> nat \<Rightarrow> nat" where
  "fld B p n = B div 2 ^ p mod 2 ^ n"

lemma fld_0 [simp]: "fld B p 0 = 0"
  by (simp add: fld_def)

lemma fld_less [simp]: "fld B p n < 2 ^ n"
  by (simp add: fld_def)

lemma fld_Suc: "fld B p (Suc n) = fld B p n + 2 ^ n * fld B (p + n) 1"
proof -
  have "fld B p (Suc n) = 2 ^ n * (B div 2 ^ p div 2 ^ n mod 2) + B div 2 ^ p mod 2 ^ n"
    using mod_mult2_eq[of "B div 2 ^ p" "2 ^ n" 2] by (simp add: fld_def mult.commute)
  then show ?thesis by (simp add: fld_def power_add div_mult2_eq)
qed

lemma fld_fld: "q + m \<le> n \<Longrightarrow> fld (fld B p n) q m = fld B (p + q) m"
proof -
  assume le: "q + m \<le> n"
  have "take_bit m (drop_bit q (take_bit n (drop_bit p B))) = take_bit m (drop_bit q (drop_bit p B))"
    using le by (auto simp: bit_eq_iff bit_simps ac_simps)
  then show ?thesis
    by (simp add: fld_def take_bit_eq_mod drop_bit_eq_div power_add div_mult2_eq)
qed

lemma or_push_bit_eq_add: "v < 2 ^ n \<Longrightarrow> v OR push_bit n b = v + 2 ^ n * b" for v b :: nat
proof -
  assume v: "v < 2 ^ n"
  have "v AND push_bit n b = 0"
  proof (rule bit_eqI)
    fix i
    show "bit (v AND push_bit n b) i \<longleftrightarrow> bit (0 :: nat) i"
    proof (cases "i < n")
      case True
      then show ?thesis by (simp add: bit_simps)
    next
      case False
      then have "v < 2 ^ i"
        by (intro less_le_trans[OF v] power_increasing) simp_all
      then have "\<not> bit v i" by (simp add: bit_iff_odd)
      then show ?thesis by (simp add: bit_and_iff)
    qed
  qed
  then have "v + push_bit n b = v OR push_bit n b"
    by (intro disjunctive_add_eq_or)
  then show ?thesis by (simp add: push_bit_eq_mult mult.commute)
qed

lemma or_less_power2: "a < 2 ^ k \<Longrightarrow> b < 2 ^ k \<Longrightarrow> a OR b < 2 ^ k" for a b :: nat
  by (simp flip: take_bit_nat_eq_self_iff)

text \<open>A bit of a word made from a natural.\<close>

lemma drop_bit_word_of_nat_and_1:
  "p < LENGTH('a) \<Longrightarrow> unat (drop_bit p (word_of_nat B :: 'a::len word) AND 1) = fld B p 1"
proof -
  assume p: "p < LENGTH('a)"
  have "drop_bit p (word_of_nat B :: 'a word) AND 1 = of_bool (bit B p)"
    using p by (simp add: and_one_eq mod2_eq_if even_drop_bit_iff_not_bit bit_simps)
  then show ?thesis by (simp add: fld_def bit_iff_odd mod2_eq_if)
qed

text \<open>A little-endian block split into two parts.\<close>

end
