(* ===== verification/Bc7Layout.thy ===== *)
theory Bc7Layout
  imports Bc7 BitFields
begin

text \<open>
  The published layout of BC7 (BPTC) blocks and the proof that the decoder implements it. The
  reference gives, per mode, the number and width of the fields; a field is at a fixed bit
  position, and a texel is computed from the whole block at once, with no reader state.
\<close>

subsection \<open>The reference\<close>

record bptc_mode =
  bm_NS :: nat   \<comment> \<open>subsets\<close>
  bm_PB :: nat   \<comment> \<open>partition bits\<close>
  bm_RB :: nat   \<comment> \<open>rotation bits\<close>
  bm_ISB :: nat  \<comment> \<open>index selection bits\<close>
  bm_CB :: nat   \<comment> \<open>color bits\<close>
  bm_AB :: nat   \<comment> \<open>alpha bits\<close>
  bm_EPB :: nat  \<comment> \<open>p-bits per endpoint\<close>
  bm_SPB :: nat  \<comment> \<open>p-bits per subset\<close>
  bm_IB :: nat   \<comment> \<open>index bits\<close>
  bm_IB2 :: nat  \<comment> \<open>secondary index bits\<close>

definition bptc_row :: "nat \<Rightarrow> nat \<Rightarrow> nat \<Rightarrow> nat \<Rightarrow> nat \<Rightarrow> nat \<Rightarrow> nat \<Rightarrow> nat \<Rightarrow> nat \<Rightarrow> nat \<Rightarrow> bptc_mode" where
  "bptc_row ns pb rb isb cb ab epb spb ib ib2 =
     \<lparr>bm_NS = ns, bm_PB = pb, bm_RB = rb, bm_ISB = isb, bm_CB = cb, bm_AB = ab,
      bm_EPB = epb, bm_SPB = spb, bm_IB = ib, bm_IB2 = ib2\<rparr>"

definition bptc :: "nat \<Rightarrow> bptc_mode" where
  "bptc m = [bptc_row 3 4 0 0 4 0 1 0 3 0,
             bptc_row 2 6 0 0 6 0 0 1 3 0,
             bptc_row 3 6 0 0 5 0 0 0 2 0,
             bptc_row 2 6 0 0 7 0 1 0 2 0,
             bptc_row 1 0 2 1 5 6 0 0 2 3,
             bptc_row 1 0 2 0 7 8 0 0 2 2,
             bptc_row 1 0 0 0 7 7 1 0 4 0,
             bptc_row 2 6 0 0 5 5 1 0 2 0] ! m"

definition rotation_at :: "nat \<Rightarrow> nat" where
  "rotation_at m = m + 1 + bm_PB (bptc m)"

definition selector_at :: "nat \<Rightarrow> nat" where
  "selector_at m = rotation_at m + bm_RB (bptc m)"

definition color_at :: "nat \<Rightarrow> nat" where
  "color_at m = selector_at m + bm_ISB (bptc m)"

definition alpha_at :: "nat \<Rightarrow> nat" where
  "alpha_at m = color_at m + 6 * bm_NS (bptc m) * bm_CB (bptc m)"

definition pbit_at :: "nat \<Rightarrow> nat" where
  "pbit_at m = alpha_at m + 2 * bm_NS (bptc m) * bm_AB (bptc m)"

definition index_at :: "nat \<Rightarrow> nat" where
  "index_at m = pbit_at m + 2 * bm_NS (bptc m) * bm_EPB (bptc m) + bm_NS (bptc m) * bm_SPB (bptc m)"

definition index2_at :: "nat \<Rightarrow> nat" where
  "index2_at m = index_at m + 16 * bm_IB (bptc m) - bm_NS (bptc m)"

definition block_end :: "nat \<Rightarrow> nat" where
  "block_end m = index2_at m + (if bm_IB2 (bptc m) = 0 then 0 else 16 * bm_IB2 (bptc m) - 1)"

definition bptc_partition :: "nat \<Rightarrow> nat \<Rightarrow> nat list" where
  "bptc_partition m B =
     (if bm_NS (bptc m) = 1 then 128 # replicate 15 0
      else kBc7PartitionSets ! (bm_NS (bptc m) - 2) ! fld B (m + 1) (bm_PB (bptc m)))"

definition bptc_raw :: "nat \<Rightarrow> nat \<Rightarrow> nat \<Rightarrow> nat \<Rightarrow> nat" where
  "bptc_raw m B e c =
     (if c < 3
      then fld B (color_at m + (c * (2 * bm_NS (bptc m)) + e) * bm_CB (bptc m)) (bm_CB (bptc m))
      else fld B (alpha_at m + e * bm_AB (bptc m)) (bm_AB (bptc m)))"

definition replicate_to_8 :: "nat \<Rightarrow> nat \<Rightarrow> nat" where
  "replicate_to_8 w v = v * 2 ^ (8 - w) + v div 2 ^ (2 * w - 8)"

definition bptc_endpoint :: "nat \<Rightarrow> nat \<Rightarrow> nat \<Rightarrow> nat \<Rightarrow> nat" where
  "bptc_endpoint m B e c =
     (let w = (if c < 3 then bm_CB (bptc m) else bm_AB (bptc m)) in
      if c = 3 \<and> bm_AB (bptc m) = 0 then 255
      else if bm_EPB (bptc m) = 1
      then replicate_to_8 (w + 1) (2 * bptc_raw m B e c + fld B (pbit_at m + e) 1)
      else if bm_SPB (bptc m) = 1
      then replicate_to_8 (w + 1) (2 * bptc_raw m B e c + fld B (pbit_at m + e div 2) 1)
      else replicate_to_8 w (bptc_raw m B e c))"

definition index_width :: "nat \<Rightarrow> nat \<Rightarrow> nat \<Rightarrow> nat" where
  "index_width m B t = bm_IB (bptc m) - of_bool (128 \<le> bptc_partition m B ! t)"

definition bptc_index :: "nat \<Rightarrow> nat \<Rightarrow> nat \<Rightarrow> nat" where
  "bptc_index m B t = fld B (index_at m + (\<Sum>u<t. index_width m B u)) (index_width m B t)"

definition index2_width :: "nat \<Rightarrow> nat \<Rightarrow> nat" where
  "index2_width m t = bm_IB2 (bptc m) - of_bool (t = 0)"

definition bptc_index2 :: "nat \<Rightarrow> nat \<Rightarrow> nat \<Rightarrow> nat" where
  "bptc_index2 m B t = fld B (index2_at m + (\<Sum>u<t. index2_width m u)) (index2_width m t)"

definition bptc_weights :: "nat \<Rightarrow> nat list" where
  "bptc_weights n = (if n = 2 then kWeight2 else if n = 3 then kWeight3 else kWeight4)"

definition bptc_mix :: "nat \<Rightarrow> nat \<Rightarrow> nat \<Rightarrow> byte" where
  "bptc_mix a b w = word_of_nat (((64 - w) * a + w * b + 32) div 64)"

text \<open>
  Modes 4 and 5 carry a second set of indices for alpha; mode 4's selection bit exchanges the
  two sets, and the rotation exchanges alpha with a color channel.
\<close>

definition bptc_texel :: "nat \<Rightarrow> nat \<Rightarrow> nat \<Rightarrow> texel" where
  "bptc_texel m B t =
     (let s = bptc_partition m B ! t mod 4 * 2;
          w1 = bptc_weights (bm_IB (bptc m)) ! bptc_index m B t;
          w2 = (if bm_IB2 (bptc m) = 0 then w1
                else bptc_weights (bm_IB2 (bptc m)) ! bptc_index2 m B t);
          sel = fld B (selector_at m) (bm_ISB (bptc m));
          rot = fld B (rotation_at m) (bm_RB (bptc m));
          color = (\<lambda>c. bptc_mix (bptc_endpoint m B s c) (bptc_endpoint m B (s + 1) c)
                           (if sel = 0 then w1 else w2));
          alpha = bptc_mix (bptc_endpoint m B s 3) (bptc_endpoint m B (s + 1) 3)
                           (if sel = 0 then w2 else w1);
          plain = [color 0, color 1, color 2, alpha]
      in if rot = 0 then plain else plain[rot - 1 := alpha, 3 := color (rot - 1)])"

subsection \<open>The modes\<close>

lemma mode_cases:
  "m < 8 \<Longrightarrow> m = 0 \<or> m = 1 \<or> m = 2 \<or> m = 3 \<or> m = 4 \<or> m = 5 \<or> m = 6 \<or> m = (7 :: nat)"
  by arith

lemmas position_defs = rotation_at_def selector_at_def color_at_def alpha_at_def pbit_at_def
  index_at_def index2_at_def block_end_def bptc_def bptc_row_def

text \<open>Every mode fills the block exactly.\<close>

lemma block_end_128: "m < 8 \<Longrightarrow> block_end m = 128"
  by (drule mode_cases) (auto simp: position_defs)

lemma positions_ordered:
  "m < 8 \<Longrightarrow> m + 1 \<le> rotation_at m \<and> rotation_at m \<le> selector_at m \<and> selector_at m \<le> color_at m
     \<and> color_at m \<le> alpha_at m \<and> alpha_at m \<le> pbit_at m \<and> pbit_at m \<le> index_at m
     \<and> index_at m \<le> index2_at m \<and> index2_at m \<le> 128"
  by (drule mode_cases) (auto simp: position_defs)

lemma mode_fields:
  assumes "m < 8"
  shows "bc7_num_subsets m = bm_NS (bptc m)" and "kBc7ColorBits ! m = bm_CB (bptc m)"
    and "kBc7AlphaBits ! m = bm_AB (bptc m)" and "bc7_per_ep_pbit m \<longleftrightarrow> bm_EPB (bptc m) = 1"
    and "m = 1 \<longleftrightarrow> bm_SPB (bptc m) = 1" and "bc7_ib m = bm_IB (bptc m)" and "bc7_ib2 m = bm_IB2 (bptc m)"
    and "bm_NS (bptc m) \<in> {1, 2, 3}" and "bm_EPB (bptc m) \<le> 1" and "bm_SPB (bptc m) \<le> 1"
  using mode_cases[OF assms]
  by (auto simp: bptc_def bptc_row_def bc7_num_subsets_def kBc7ColorBits_def kBc7AlphaBits_def
      bc7_per_ep_pbit_def kBc7ModeHasEndpointPBits_def bc7_ib_def bc7_ib2_def drop_bit_eq_div)

subsection \<open>The reader at a bit position\<close>

definition at_pos :: "nat \<Rightarrow> nat \<Rightarrow> bc7_bits" where
  "at_pos B p = \<lparr>bb_lo = word_of_nat B, bb_hi = word_of_nat (B div 2 ^ 64), bb_pos = p\<rparr>"

lemma get1_at: "p < 128 \<Longrightarrow> get1 (at_pos B p) = Some (fld B p 1, at_pos B (p + 1))"
proof -
  assume p: "p < 128"
  show ?thesis
  proof (cases "p < 64")
    case True
    then have "get1 (at_pos B p) = Some (unat (drop_bit p (word_of_nat B :: qword) AND 1), at_pos B (p + 1))"
      by (simp add: get1_def at_pos_def)
    with True show ?thesis by (simp add: drop_bit_word_of_nat_and_1)
  next
    case False
    with p have "get1 (at_pos B p)
      = Some (unat (drop_bit (p - 64) (word_of_nat (B div 2 ^ 64) :: qword) AND 1), at_pos B (p + 1))"
      by (simp add: get1_def at_pos_def)
    moreover have "fld (B div 2 ^ 64) (p - 64) 1 = fld B p 1"
      using False by (simp add: fld_def flip: div_mult2_eq power_add del: power_numeral)
    ultimately show ?thesis using p False by (simp add: drop_bit_word_of_nat_and_1)
  qed
qed

lemma get_at: "p + n \<le> 128 \<Longrightarrow> get n (at_pos B p) = Some (fld B p n, at_pos B (p + n))"
proof -
  assume "p + n \<le> 128"
  then have "foldM (\<lambda>i (v, bs). do { (b, bs) \<leftarrow> get1 bs; Some (v OR push_bit i b, bs) }) [0..<n]
      (0, at_pos B p) = Some (fld B p n, at_pos B (p + n))"
  proof (induction n)
    case 0
    then show ?case by simp
  next
    case (Suc n)
    then show ?case
      by (simp add: foldM_append get1_at or_push_bit_eq_add fld_Suc[of B p n])
  qed
  then show ?thesis by (simp add: get_def)
qed

lemma read_endpoints_at:
  assumes "distinct ks" and "p + n * length ks \<le> 128"
  shows "\<exists>ep'. bc7_read_endpoints ks n (ep, at_pos B p) = Some (ep', at_pos B (p + n * length ks))
    \<and> (\<forall>i<length ks. ep' (ks ! i) = fld B (p + i * n) n) \<and> (\<forall>k. k \<notin> set ks \<longrightarrow> ep' k = ep k)"
  using assms
proof (induction ks arbitrary: ep p)
  case Nil
  then show ?case by (simp add: bc7_read_endpoints_def)
next
  case (Cons k ks)
  let ?ep = "ep(k := fld B p n)"
  from Cons.prems have "distinct ks" "p + n + n * length ks \<le> 128" by simp_all
  from Cons.IH[OF this, of ?ep] obtain ep' where
    r: "bc7_read_endpoints ks n (?ep, at_pos B (p + n)) = Some (ep', at_pos B (p + n + n * length ks))"
    and i: "\<forall>i<length ks. ep' (ks ! i) = fld B (p + n + i * n) n"
    and o: "\<forall>k'. k' \<notin> set ks \<longrightarrow> ep' k' = ?ep k'" by blast
  have "bc7_read_endpoints (k # ks) n (ep, at_pos B p) = Some (ep', at_pos B (p + n * length (k # ks)))"
    using r Cons.prems by (simp add: bc7_read_endpoints_def get_at ac_simps)
  moreover have "\<forall>i<length (k # ks). ep' ((k # ks) ! i) = fld B (p + i * n) n"
  proof (intro allI impI)
    fix j
    assume j: "j < length (k # ks)"
    show "ep' ((k # ks) ! j) = fld B (p + j * n) n"
    proof (cases j)
      case 0
      then show ?thesis using o[rule_format, of k] Cons.prems(1) by simp
    next
      case (Suc j')
      then show ?thesis using i j by (simp add: ac_simps)
    qed
  qed
  moreover have "\<forall>k'. k' \<notin> set (k # ks) \<longrightarrow> ep' k' = ep k'"
    using o by auto
  ultimately show ?case by blast
qed

lemma add_pbit_at:
  assumes "p + n \<le> 128"
  shows "foldM (bc7_add_pbit cs) [0..<n] (ep, at_pos B p)
    = Some (\<lambda>(e, c). if e < n \<and> c < cs then 2 * ep (e, c) + fld B (p + e) 1 else ep (e, c), at_pos B (p + n))"
  using assms
proof (induction n)
  case 0
  then show ?case by simp
next
  case (Suc n)
  have add: "push_bit 1 v OR fld B q 1 = 2 * v + fld B q 1" for v q
    using or_push_bit_eq_add[of "fld B q 1" 1 v] fld_less[of B q 1]
    by (simp only: or.commute add.commute power_one_right)
  have suc: "q + 1 = Suc q" for q :: nat by simp
  show ?case
    using Suc by (auto simp: suc foldM_append bc7_add_pbit_def get1_at add less_Suc_eq fun_eq_iff
        simp del: push_bit_eq_mult One_nat_def)
qed

subsection \<open>The stages of the decoder\<close>

lemma bc7_mode_at:
  "m < 8 \<Longrightarrow> fld B 0 (m + 1) = 2 ^ m \<Longrightarrow> bc7_mode 8 (at_pos B 0) = Some (m, at_pos B (m + 1))"
  and bc7_mode_reserved: "fld B 0 8 = 0 \<Longrightarrow> bc7_mode 8 (at_pos B 0) = Some (8, at_pos B 8)"
proof -
  have step: "bc7_mode (Suc n) (at_pos B p) =
      (if fld B p 1 = 0 then bc7_mode n (at_pos B (p + 1)) else Some (8 - Suc n, at_pos B (p + 1)))"
    if "p < 8" for n p
    using that by (simp add: get1_at)
  have zero: "bc7_mode 8 (at_pos B 0) = bc7_mode (8 - k) (at_pos B k)" if "k \<le> 8" "fld B 0 k = 0" for k
    using that
  proof (induction k)
    case 0
    then show ?case by simp
  next
    case (Suc k)
    then have "fld B 0 k = 0" "fld B k 1 = 0" using fld_Suc[of B 0 k] by simp_all
    moreover have "8 - k = Suc (8 - Suc k)" using Suc.prems by simp
    ultimately show ?case using Suc step[of k "8 - Suc k"] by simp
  qed
  show "bc7_mode 8 (at_pos B 0) = Some (8, at_pos B 8)" if "fld B 0 8 = 0"
    using zero[of 8] that by simp
  show "bc7_mode 8 (at_pos B 0) = Some (m, at_pos B (m + 1))" if "m < 8" "fld B 0 (m + 1) = 2 ^ m"
  proof -
    have s: "fld B 0 m + 2 ^ m * fld B m 1 = 2 ^ m"
      using that(2) fld_Suc[of B 0 m] by simp
    have "fld B m 1 = 1"
    proof (rule ccontr)
      assume "fld B m 1 \<noteq> 1"
      then have "fld B m 1 = 0" using fld_less[of B m 1] by simp
      then show False using s fld_less[of B 0 m] by simp
    qed
    moreover from this s have "fld B 0 m = 0" by simp
    moreover have "8 - m = Suc (7 - m)" using that(1) by simp
    ultimately show ?thesis using zero[of m] step[of m "7 - m"] that(1) by simp
  qed
qed

lemma bc7_header_at:
  assumes "m < 8"
  shows "bc7_header m (at_pos B (m + 1)) =
    Some ((fld B (m + 1) (bm_PB (bptc m)), fld B (rotation_at m) (bm_RB (bptc m)),
           fld B (selector_at m) (bm_ISB (bptc m))), at_pos B (color_at m))"
  using mode_cases[OF assms]
  by (elim disjE) (simp_all add: bc7_header_def bc7_num_subsets_def position_defs get_at get1_at)

lemma bc7_color_keys:
  assumes "e < n" and "c < 3"
  shows "concat (map (\<lambda>c. map (\<lambda>e. (e, c)) [0..<n]) [0..<3]) ! (c * n + e) = (e, c)"
    and "c * n + e < length (concat (map (\<lambda>c. map (\<lambda>e. (e, c)) [0..<n]) [0..<3]))"
proof -
  have three: "[0..<3] = [0, 1, 2 :: nat]" by (simp add: upt_rec)
  have "c = 0 \<or> c = 1 \<or> c = 2" using assms(2) by arith
  then show "concat (map (\<lambda>c. map (\<lambda>e. (e, c)) [0..<n]) [0..<3]) ! (c * n + e) = (e, c)"
    unfolding three using assms(1) by (elim disjE) (simp_all add: nth_append)
  show "c * n + e < length (concat (map (\<lambda>c. map (\<lambda>e. (e, c)) [0..<n]) [0..<3]))"
    unfolding three using assms(1) \<open>c = 0 \<or> c = 1 \<or> c = 2\<close> by (elim disjE) simp_all
qed

lemma bc7_endpoints_at:
  assumes "m < 8"
  shows "\<exists>ep. bc7_endpoints m (at_pos B (color_at m)) = Some (ep, at_pos B (pbit_at m))
    \<and> (\<forall>e < 2 * bm_NS (bptc m). \<forall>c < 4. c < 3 \<or> bm_AB (bptc m) \<noteq> 0 \<longrightarrow> ep (e, c) = bptc_raw m B e c)"
proof -
  let ?M = "bptc m" let ?n = "bc7_num_subsets m * 2"
  let ?ks = "concat (map (\<lambda>c. map (\<lambda>e. (e, c)) [0..<?n]) [0..<3])"
  let ?as = "map (\<lambda>e. (e, 3 :: nat)) [0..<?n]"
  have n: "?n = 2 * bm_NS ?M" using mode_fields(1)[OF assms] by simp
  have three: "[0..<3] = [0, 1, 2 :: nat]" by (simp add: upt_rec)
  have len: "length ?ks = 3 * ?n" and dist: "distinct ?ks" and last: "\<And>e. (e, 3) \<notin> set ?ks"
    unfolding three by (auto simp: distinct_map inj_on_def)
  have a: "alpha_at m = color_at m + bm_CB ?M * length ?ks"
    and p: "pbit_at m = alpha_at m + bm_AB ?M * length ?as"
    unfolding len by (simp_all add: alpha_at_def pbit_at_def n mode_fields(1)[OF assms] ac_simps)
  note ord = positions_ordered[OF assms]
  obtain ep where ep: "bc7_read_endpoints ?ks (bm_CB ?M) (\<lambda>_. 0, at_pos B (color_at m)) = Some (ep, at_pos B (alpha_at m))"
    and epi: "\<forall>i<length ?ks. ep (?ks ! i) = fld B (color_at m + i * bm_CB ?M) (bm_CB ?M)"
    using read_endpoints_at[OF dist, of "color_at m" "bm_CB ?M" "\<lambda>_. 0" B] ord a by fastforce
  have color: "ep (e, c) = bptc_raw m B e c" if "e < 2 * bm_NS ?M" "c < 3" for e c
  proof -
    have en: "e < ?n" using that n by simp
    have "ep (?ks ! (c * ?n + e)) = fld B (color_at m + (c * ?n + e) * bm_CB ?M) (bm_CB ?M)"
      by (rule epi[rule_format, OF bc7_color_keys(2)[OF en that(2)]])
    then have "ep (e, c) = fld B (color_at m + (c * ?n + e) * bm_CB ?M) (bm_CB ?M)"
      unfolding bc7_color_keys(1)[OF en that(2)] .
    then show ?thesis unfolding n by (simp add: bptc_raw_def that(2))
  qed
  show ?thesis
  proof (cases "bm_AB ?M = 0")
    case True
    then have "bc7_endpoints m (at_pos B (color_at m)) = Some (ep, at_pos B (pbit_at m))"
      using ep p by (simp add: bc7_endpoints_def Let_def mode_fields[OF assms])
    with True color show ?thesis by auto
  next
    case False
    have "distinct ?as" by (simp add: distinct_map inj_on_def)
    from read_endpoints_at[OF this, of "alpha_at m" "bm_AB ?M" ep B] obtain ep' where
      r: "bc7_read_endpoints ?as (bm_AB ?M) (ep, at_pos B (alpha_at m)) = Some (ep', at_pos B (pbit_at m))"
      and i: "\<forall>i<length ?as. ep' (?as ! i) = fld B (alpha_at m + i * bm_AB ?M) (bm_AB ?M)"
      and o: "\<forall>k. k \<notin> set ?as \<longrightarrow> ep' k = ep k"
      using ord p by auto
    have "ep' (e, c) = bptc_raw m B e c" if "e < 2 * bm_NS ?M" "c < 4" for e c
    proof (cases "c < 3")
      case True
      then show ?thesis using o[rule_format, of "(e, c)"] color[of e c] that by auto
    next
      case False
      then have "c = 3" using that by simp
      then show ?thesis using i[rule_format, of e] that n by (simp add: bptc_raw_def)
    qed
    moreover have "bc7_endpoints m (at_pos B (color_at m)) = Some (ep', at_pos B (pbit_at m))"
      using ep r False by (simp add: bc7_endpoints_def Let_def mode_fields[OF assms])
    ultimately show ?thesis by blast
  qed
qed

lemma replicate_to_8_expand:
  "4 \<le> w \<Longrightarrow> w \<le> 8 \<Longrightarrow> v < 2 ^ w \<Longrightarrow> bc7_expand1 w v = replicate_to_8 w v"
proof -
  assume w: "4 \<le> w" "w \<le> 8" and v: "v < 2 ^ w"
  have "v * 2 ^ (8 - w) div 2 ^ w = v div 2 ^ (2 * w - 8)"
  proof -
    have "(2 :: nat) ^ w = 2 ^ (2 * w - 8) * 2 ^ (8 - w)" using w by (simp flip: power_add)
    then show ?thesis by simp
  qed
  moreover have "v div 2 ^ (2 * w - 8) < 2 ^ (8 - w)"
    using w v by (intro less_mult_imp_div_less) (simp flip: power_add)
  ultimately show ?thesis
    using or_push_bit_eq_add[of "v div 2 ^ (2 * w - 8)" "8 - w" v]
    by (simp add: bc7_expand1_def Let_def replicate_to_8_def push_bit_eq_mult drop_bit_eq_div
        or.commute ac_simps)
qed

lemma bptc_raw_less:
  "bptc_raw m B e c < 2 ^ (if c < 3 then bm_CB (bptc m) else bm_AB (bptc m))"
  by (simp add: bptc_raw_def)

lemma bc7_pbits_at:
  assumes "m < 8"
  shows "\<exists>ep'. bc7_pbits m ep (at_pos B (pbit_at m)) = Some (ep', at_pos B (index_at m))
    \<and> (\<forall>e < 2 * bm_NS (bptc m). \<forall>c < 4. ep' (e, c) =
         (if bm_EPB (bptc m) = 1 then 2 * ep (e, c) + fld B (pbit_at m + e) 1
          else if bm_SPB (bptc m) = 1 \<and> c < 3 then 2 * ep (e, c) + fld B (pbit_at m + e div 2) 1
          else ep (e, c)))"
proof -
  let ?M = "bptc m"
  note ord = positions_ordered[OF assms] and f = mode_fields[OF assms]
  have add: "push_bit 1 v OR fld B q 1 = 2 * v + fld B q 1" for v q
    using or_push_bit_eq_add[of "fld B q 1" 1 v] fld_less[of B q 1]
    by (simp only: or.commute add.commute power_one_right)
  consider "m = 1" | "m \<noteq> 1" "bm_EPB ?M = 1" | "m \<noteq> 1" "bm_EPB ?M \<noteq> 1" by blast
  then show ?thesis
  proof cases
    case 1
    have "bm_NS ?M = 2" "bm_EPB ?M = 0" "bm_SPB ?M = 1" and i: "index_at m = pbit_at m + 2"
      unfolding 1 by (simp_all add: position_defs)
    moreover have "pbit_at m + 2 \<le> 128" using ord i by simp
    moreover have "e < 4 \<Longrightarrow> e div 2 = (if e < 2 then 0 else 1)" for e :: nat by auto
    moreover have suc: "q + 1 = Suc q" for q :: nat by simp
    ultimately show ?thesis
      by (auto simp: suc bc7_pbits_def 1 get1_at add simp del: push_bit_eq_mult One_nat_def)
  next
    case 2
    have i: "index_at m = pbit_at m + 2 * bm_NS ?M" using 2 f(5,9,10) by (simp add: index_at_def)
    then have "pbit_at m + 2 * bm_NS ?M \<le> 128" using ord by simp
    from add_pbit_at[OF this, of 4 ep] 2 f(1,4) i show ?thesis
      by (auto simp: bc7_pbits_def mult.commute)
  next
    case 3
    then have "index_at m = pbit_at m" "bm_EPB ?M = 0" "bm_SPB ?M = 0"
      using f(5,9,10) by (simp_all add: index_at_def)
    with 3 f(4) show ?thesis by (auto simp: bc7_pbits_def)
  qed
qed

lemma bc7_expand_at:
  assumes m: "m < 8" and e: "e < 2 * bm_NS (bptc m)" and c: "c < 4"
    and raw: "c < 3 \<or> bm_AB (bptc m) \<noteq> 0 \<Longrightarrow> ep (e, c) = bptc_raw m B e c"
    and pb: "ep' (e, c) =
         (if bm_EPB (bptc m) = 1 then 2 * ep (e, c) + fld B (pbit_at m + e) 1
          else if bm_SPB (bptc m) = 1 \<and> c < 3 then 2 * ep (e, c) + fld B (pbit_at m + e div 2) 1
          else ep (e, c))"
  shows "bc7_expand m ep' (e, c) = bptc_endpoint m B e c"
proof -
  let ?M = "bptc m"
  have w: "4 \<le> bm_CB ?M" "bm_CB ?M + bm_EPB ?M + bm_SPB ?M \<le> 8" "bm_AB ?M = 0 \<or> 4 \<le> bm_AB ?M"
    "bm_AB ?M + bm_EPB ?M \<le> 8" "bm_AB ?M \<noteq> 0 \<Longrightarrow> bm_SPB ?M = 0" "bm_EPB ?M = 1 \<Longrightarrow> bm_SPB ?M = 0"
    using mode_cases[OF m] by (elim disjE; simp add: bptc_def bptc_row_def)+
  have x: "bc7_expand1 (Suc k) (2 * v + fld B q 1) = replicate_to_8 (Suc k) (2 * v + fld B q 1)"
    if "4 \<le> k" "k < 8" "v < 2 ^ k" for k v q
    using that fld_less[of B q 1] by (intro replicate_to_8_expand) simp_all
  note f = mode_fields[OF m]
  consider "c < 3" | "c = 3" "bm_AB ?M = 0" | "c = 3" "bm_AB ?M \<noteq> 0" using c by linarith
  then show ?thesis
  proof cases
    case 1
    have r: "bptc_raw m B e c < 2 ^ bm_CB ?M" using bptc_raw_less[of m B e c] 1 by simp
    consider "bm_EPB ?M = 1" | "bm_EPB ?M = 0" "bm_SPB ?M = 1" | "bm_EPB ?M = 0" "bm_SPB ?M = 0"
      using f(9,10) by linarith
    then show ?thesis
    proof cases
      case a: 1
      have "bm_CB ?M < 8" using w(2) a by simp
      from x[OF w(1) this r] 1 a raw pb show ?thesis
        using f e by (simp add: bc7_expand_def Let_def bptc_endpoint_def)
    next
      case b: 2
      have "bm_CB ?M < 8" using w(2) b by simp
      from x[OF w(1) this r] 1 b raw pb show ?thesis
        using f e by (simp add: bc7_expand_def Let_def bptc_endpoint_def)
    next
      case d: 3
      have "bm_CB ?M \<le> 8" using w(2) by simp
      from replicate_to_8_expand[OF w(1) this r] 1 d raw pb show ?thesis
        using f e by (simp add: bc7_expand_def Let_def bptc_endpoint_def)
    qed
  next
    case 2
    then show ?thesis
      using f e by (simp add: bc7_expand_def Let_def bptc_endpoint_def)
  next
    case 3
    have r: "bptc_raw m B e c < 2 ^ bm_AB ?M" using bptc_raw_less[of m B e c] 3 by simp
    have w4: "4 \<le> bm_AB ?M" and s0: "bm_SPB ?M = 0" using w(3,5) 3 by auto
    consider "bm_EPB ?M = 1" | "bm_EPB ?M = 0" using f(9) by linarith
    then show ?thesis
    proof cases
      case a: 1
      have "bm_AB ?M < 8" using w(4) a by simp
      from x[OF w4 this r] 3 a raw pb s0 show ?thesis
        using f e by (simp add: bc7_expand_def Let_def bptc_endpoint_def)
    next
      case b: 2
      have "bm_AB ?M \<le> 8" using w(4) by simp
      from replicate_to_8_expand[OF w4 this r] 3 b raw pb s0 show ?thesis
        using f e by (simp add: bc7_expand_def Let_def bptc_endpoint_def)
    qed
  qed
qed

subsection \<open>Partitions and indices\<close>

text \<open>
  A partition row names an existing subset for each of the sixteen texels and has one anchor
  per subset, the first texel among them.
\<close>

definition partition_entry :: "nat \<Rightarrow> nat \<Rightarrow> bool" where
  "partition_entry ns e \<longleftrightarrow> e mod 4 < ns \<and> e \<in> {0, 1, 2, 128, 129, 130}"

definition partition_row :: "nat \<Rightarrow> nat list \<Rightarrow> bool" where
  "partition_row ns row \<longleftrightarrow> length row = 16 \<and> list_all (partition_entry ns) row
     \<and> sum_list (map (\<lambda>e. if 128 \<le> e then 1 else 0) row) = ns \<and> hd row = 128"

lemma partition2_rows: "list_all (partition_row 2) kBc7Partition2"
  by (simp add: kBc7Partition2_def partition_row_def partition_entry_def)

lemma partition3_rows: "list_all (partition_row 3) kBc7Partition3"
  by (simp add: kBc7Partition3_def partition_row_def partition_entry_def)

lemma partition_lengths: "length kBc7Partition2 = 64" "length kBc7Partition3 = 64"
  by (simp_all add: kBc7Partition2_def kBc7Partition3_def)

lemma partition_entry_bits:
  "partition_entry ns e \<Longrightarrow> e AND 3 = e mod 4 \<and> (e AND 0x80 \<noteq> 0 \<longleftrightarrow> 128 \<le> e)"
  by (auto simp: partition_entry_def)

lemma bc7_pset_at:
  assumes "m < 8"
  shows "bc7_pset (bc7_num_subsets m) (fld B (m + 1) (bm_PB (bptc m))) = Some (bptc_partition m B)"
    and "partition_row (bm_NS (bptc m)) (bptc_partition m B)"
proof -
  let ?M = "bptc m" let ?p = "fld B (m + 1) (bm_PB ?M)"
  have "bm_PB ?M \<le> 6" using mode_cases[OF assms] by (elim disjE) (simp_all add: bptc_def bptc_row_def)
  then have "(2 :: nat) ^ bm_PB ?M \<le> 2 ^ 6" by (rule power_increasing) simp
  with fld_less[of B "m + 1" "bm_PB ?M"] have "?p < 2 ^ 6" by (rule less_le_trans)
  then have p: "?p < 64" by simp
  have one: "[0..<16] = [0, 1, 2, 3, 4, 5, 6, 7, 8, 9, 10, 11, 12, 13, 14, 15 :: nat]"
    by (simp add: upt_rec)
  have rep: "replicate 15 (0 :: nat) = [0, 0, 0, 0, 0, 0, 0, 0, 0, 0, 0, 0, 0, 0, 0]"
    by (simp add: numeral_eq_Suc)
  have ns: "bm_NS ?M = 1 \<or> bm_NS ?M = 2 \<or> bm_NS ?M = 3" using mode_fields(8)[OF assms] by simp
  then show "bc7_pset (bc7_num_subsets m) ?p = Some (bptc_partition m B)"
    unfolding mode_fields(1)[OF assms] using p
    by (elim disjE) (simp_all add: bc7_pset_def bptc_partition_def nth_opt_def kBc7PartitionSets_def
        partition_lengths one rep)
  show "partition_row (bm_NS ?M) (bptc_partition m B)"
    using ns
  proof (elim disjE)
    assume "bm_NS ?M = 1"
    then show ?thesis by (simp add: bptc_partition_def partition_row_def partition_entry_def rep)
  next
    assume "bm_NS ?M = 2"
    then show ?thesis using p partition2_rows
      by (simp add: bptc_partition_def kBc7PartitionSets_def list_all_length partition_lengths)
  next
    assume "bm_NS ?M = 3"
    then show ?thesis using p partition3_rows
      by (simp add: bptc_partition_def kBc7PartitionSets_def list_all_length partition_lengths)
  qed
qed

lemma partition_row_facts:
  assumes "partition_row ns row" and "t < 16"
  shows "row ! t AND 3 = row ! t mod 4" and "row ! t AND 0x80 \<noteq> 0 \<longleftrightarrow> 128 \<le> row ! t"
    and "row ! t mod 4 < ns"
proof -
  have "partition_entry ns (row ! t)"
    using assms by (simp add: partition_row_def list_all_length)
  then show "row ! t AND 3 = row ! t mod 4" "row ! t AND 0x80 \<noteq> 0 \<longleftrightarrow> 128 \<le> row ! t" "row ! t mod 4 < ns"
    using partition_entry_bits by (auto simp: partition_entry_def)
qed

lemma index_width_sum:
  assumes "m < 8"
  shows "(\<Sum>u<16. index_width m B u) = 16 * bm_IB (bptc m) - bm_NS (bptc m)"
proof -
  let ?row = "bptc_partition m B"
  have row: "partition_row (bm_NS (bptc m)) ?row" by (rule bc7_pset_at(2)[OF assms])
  have ib: "1 \<le> bm_IB (bptc m)"
    using mode_cases[OF assms] by (elim disjE) (simp_all add: bptc_def bptc_row_def)
  have "(\<Sum>u<16. if 128 \<le> ?row ! u then 1 else 0) = bm_NS (bptc m)"
    using row by (auto simp: partition_row_def sum_list_sum_nth atLeast0LessThan)
  then have anchors: "(\<Sum>u<16. of_bool (128 \<le> ?row ! u)) = bm_NS (bptc m)"
    by (simp add: of_bool_def)
  have "(\<Sum>u<16. index_width m B u) + (\<Sum>u<16. of_bool (128 \<le> ?row ! u))
      = (\<Sum>u<(16::nat). bm_IB (bptc m))"
    unfolding sum.distrib[symmetric] using ib by (intro sum.cong) (auto simp: index_width_def)
  then show ?thesis unfolding anchors by simp
qed

lemma index2_width_sum:
  "m < 8 \<Longrightarrow> bm_IB2 (bptc m) \<noteq> 0 \<Longrightarrow> (\<Sum>u<16. index2_width m u) = 16 * bm_IB2 (bptc m) - 1"
  by (simp add: index2_width_def numeral_eq_Suc)

lemma prefix_sum_le: "t \<le> n \<Longrightarrow> sum f {..<t} \<le> sum f {..<n}" for f :: "nat \<Rightarrow> nat"
  by (intro sum_mono2) auto

lemma bc7_primary_at:
  assumes m: "m < 8"
  shows "bc7_primary (bm_IB (bptc m)) (bptc_partition m B) (at_pos B (index_at m))
    = Some (map (bptc_index m B) [0..<16], at_pos B (index2_at m))"
proof -
  let ?row = "bptc_partition m B"
  have row: "partition_row (bm_NS (bptc m)) ?row" by (rule bc7_pset_at(2)[OF m])
  have w: "bm_IB (bptc m) - (if ?row ! t AND 0x80 \<noteq> 0 then 1 else 0) = index_width m B t" if "t < 16" for t
    using partition_row_facts(2)[OF row that] by (simp add: index_width_def)
  have ib: "bm_NS (bptc m) \<le> 16 * bm_IB (bptc m)"
    using mode_cases[OF m] by (elim disjE) (simp_all add: bptc_def bptc_row_def)
  have end': "index_at m + (\<Sum>u<16. index_width m B u) = index2_at m"
    unfolding index_width_sum[OF m] index2_at_def using ib by simp
  have "foldM (\<lambda>t (idx, bs).
       do { (i, bs) \<leftarrow> get (bm_IB (bptc m) - (if ?row ! t AND 0x80 \<noteq> 0 then 1 else 0)) bs;
            Some (idx @ [i], bs) }) [0..<n] ([], at_pos B (index_at m))
    = Some (map (bptc_index m B) [0..<n], at_pos B (index_at m + (\<Sum>u<n. index_width m B u)))"
    if "n \<le> 16" for n
    using that
  proof (induction n)
    case 0
    then show ?case by simp
  next
    case (Suc n)
    have "index_at m + (\<Sum>u<Suc n. index_width m B u) \<le> 128"
      using prefix_sum_le[OF Suc.prems, of "index_width m B"] end' positions_ordered[OF m] by linarith
    then have "get (index_width m B n) (at_pos B (index_at m + (\<Sum>u<n. index_width m B u)))
      = Some (bptc_index m B n, at_pos B (index_at m + (\<Sum>u<Suc n. index_width m B u)))"
      by (simp add: get_at bptc_index_def ac_simps)
    then show ?case
      using Suc w[of n] by (simp add: foldM_append)
  qed
  from this[of 16] show ?thesis
    unfolding end' by (simp add: bc7_primary_def)
qed

subsection \<open>The decoder implements the layout\<close>

lemma bc7_interp_mix: "bc7_interp a b w = bptc_mix a b w"
  by (simp add: bc7_interp_def bptc_mix_def ac_simps)

lemma fld_less_le: "n \<le> k \<Longrightarrow> fld B p n < 2 ^ k"
  by (rule less_le_trans[OF fld_less power_increasing]) simp_all

lemma bptc_index_bounds:
  assumes "m < 8"
  shows "bptc_index m B t < length (bptc_weights (bm_IB (bptc m)))"
    and "bm_IB2 (bptc m) \<noteq> 0 \<Longrightarrow> bptc_index2 m B t < length (bptc_weights (bm_IB2 (bptc m)))"
proof -
  have "bptc_index m B t < 2 ^ bm_IB (bptc m)" "bptc_index2 m B t < 2 ^ bm_IB2 (bptc m)"
    by (simp_all add: bptc_index_def bptc_index2_def fld_less_le index_width_def index2_width_def)
  then show "bptc_index m B t < length (bptc_weights (bm_IB (bptc m)))"
    "bm_IB2 (bptc m) \<noteq> 0 \<Longrightarrow> bptc_index2 m B t < length (bptc_weights (bm_IB2 (bptc m)))"
    using mode_cases[OF assms]
    by (auto simp: bptc_def bptc_row_def bptc_weights_def kWeight2_def kWeight3_def kWeight4_def)
qed

lemma weights_agree:
  "m < 8 \<Longrightarrow> bc7_weights1 (bm_IB (bptc m)) = bptc_weights (bm_IB (bptc m))"
  "m < 8 \<Longrightarrow> bm_IB2 (bptc m) \<noteq> 0 \<Longrightarrow> bc7_weights2 (bm_IB2 (bptc m)) = bptc_weights (bm_IB2 (bptc m))"
  by (drule mode_cases; auto simp: bptc_def bptc_row_def bptc_weights_def bc7_weights1_def bc7_weights2_def)+

lemma rotate_plain:
  "rot < 4 \<Longrightarrow>
     (if rot = 0 then [r, g, b, a] else [r, g, b, a][rot - 1 := a, 3 := [r, g, b] ! (rot - 1)])
     = bc7_rotate rot r g b a"
  by (subgoal_tac "rot = 0 \<or> rot = 1 \<or> rot = 2 \<or> rot = 3")
    (auto simp: bc7_rotate_def numeral_eq_Suc)

text \<open>The reference texel in the order of the code.\<close>

lemma bptc_texel_rotate:
  assumes rot: "fld B (rotation_at m) (bm_RB (bptc m)) < 4"
    and s: "s = bptc_partition m B ! t mod 4 * 2"
    and wc: "wc = (if fld B (selector_at m) (bm_ISB (bptc m)) = 0 then w1 else w2)"
    and wa: "wa = (if fld B (selector_at m) (bm_ISB (bptc m)) = 0 then w2 else w1)"
    and w1: "w1 = bptc_weights (bm_IB (bptc m)) ! bptc_index m B t"
    and w2: "w2 = (if bm_IB2 (bptc m) = 0 then w1
                   else bptc_weights (bm_IB2 (bptc m)) ! bptc_index2 m B t)"
  shows "bptc_texel m B t = bc7_rotate (fld B (rotation_at m) (bm_RB (bptc m)))
     (bc7_interp (bptc_endpoint m B s 0) (bptc_endpoint m B (s + 1) 0) wc)
     (bc7_interp (bptc_endpoint m B s 1) (bptc_endpoint m B (s + 1) 1) wc)
     (bc7_interp (bptc_endpoint m B s 2) (bptc_endpoint m B (s + 1) 2) wc)
     (bc7_interp (bptc_endpoint m B s 3) (bptc_endpoint m B (s + 1) 3) wa)"
proof -
  define color where "color c = bptc_mix (bptc_endpoint m B s c) (bptc_endpoint m B (s + 1) c) wc" for c
  define alpha where "alpha = bptc_mix (bptc_endpoint m B s 3) (bptc_endpoint m B (s + 1) 3) wa"
  let ?rot = "fld B (rotation_at m) (bm_RB (bptc m))"
  have "bptc_texel m B t = (if ?rot = 0 then [color 0, color 1, color 2, alpha]
      else [color 0, color 1, color 2, alpha][?rot - 1 := alpha, 3 := color (?rot - 1)])"
    unfolding bptc_texel_def Let_def color_def alpha_def s wc wa w2 w1 by (rule refl)
  also have "\<dots> = (if ?rot = 0 then [color 0, color 1, color 2, alpha]
      else [color 0, color 1, color 2, alpha][?rot - 1 := alpha, 3 := [color 0, color 1, color 2] ! (?rot - 1)])"
  proof (cases "?rot = 0")
    case False
    then have "?rot - 1 = 0 \<or> ?rot - 1 = 1 \<or> ?rot - 1 = 2" using rot by linarith
    then have "color (?rot - 1) = [color 0, color 1, color 2] ! (?rot - 1)"
      by (elim disjE) (simp_all only: nth_Cons_0, simp_all)
    then show ?thesis by simp
  qed simp
  also have "\<dots> = bc7_rotate ?rot (color 0) (color 1) (color 2) alpha"
    by (rule rotate_plain[OF rot])
  finally show ?thesis
    unfolding color_def alpha_def bc7_interp_mix .
qed

lemma rotation_less: "m < 8 \<Longrightarrow> fld B (rotation_at m) (bm_RB (bptc m)) < 4"
  using fld_less_le[of "bm_RB (bptc m)" 2 B "rotation_at m"]
  by (drule_tac mode_cases) (auto simp: bptc_def bptc_row_def)

definition index2_pos :: "nat \<Rightarrow> nat \<Rightarrow> nat" where
  "index2_pos m t = (if bm_IB2 (bptc m) = 0 then index2_at m
                     else index2_at m + (\<Sum>u<t. index2_width m u))"

lemma bc7_texel_at:
  assumes m: "m < 8" and t: "t < 16"
    and ep: "\<And>e c. e < 2 * bm_NS (bptc m) \<Longrightarrow> c < 4 \<Longrightarrow> ep (e, c) = bptc_endpoint m B e c"
  shows "bc7_texel m ep (bptc_partition m B) (map (bptc_index m B) [0..<16])
      (fld B (rotation_at m) (bm_RB (bptc m))) (fld B (selector_at m) (bm_ISB (bptc m))) t
      (out, at_pos B (index2_pos m t))
    = Some (out @ [bptc_texel m B t], at_pos B (index2_pos m (Suc t)))"
proof -
  let ?M = "bptc m" let ?row = "bptc_partition m B"
  let ?s = "?row ! t mod 4 * 2"
  note f = mode_fields[OF m]
  have row: "partition_row (bm_NS ?M) ?row" by (rule bc7_pset_at(2)[OF m])
  note rf = partition_row_facts[OF row t]
  have s: "?s < 2 * bm_NS ?M" "?s + 1 < 2 * bm_NS ?M" "?s + 1 < 6"
    using rf(3) f(8) by auto
  have e: "ep (?s, c) = bptc_endpoint m B ?s c" "ep (?s + 1, c) = bptc_endpoint m B (?s + 1) c"
    if "c < 4" for c using ep s that by simp_all
  have i1: "nth_opt (bc7_weights1 (bm_IB ?M)) (map (bptc_index m B) [0..<16] ! t)
      = Some (bptc_weights (bm_IB ?M) ! bptc_index m B t)"
    using t bptc_index_bounds(1)[OF m] by (simp add: weights_agree[OF m] nth_opt_def)
  let ?w1 = "bptc_weights (bm_IB ?M) ! bptc_index m B t"
  let ?rot = "fld B (rotation_at m) (bm_RB ?M)" let ?sel = "fld B (selector_at m) (bm_ISB ?M)"
  note tex = bptc_texel_rotate[OF rotation_less[OF m] refl refl refl refl refl]
  show ?thesis
  proof (cases "bm_IB2 ?M = 0")
    case True
    then have "index2_pos m t = index2_pos m (Suc t)" by (simp add: index2_pos_def)
    then show ?thesis
      unfolding tex using True i1 s(3) e
      by (simp add: bc7_texel_def f rf(1) Let_def cong: if_cong)
  next
    case False
    have "index2_at m + (\<Sum>u<Suc t. index2_width m u) \<le> 128"
      using prefix_sum_le[of "Suc t" 16 "index2_width m"] t index2_width_sum[OF m False]
        block_end_128[OF m] False by (simp add: block_end_def)
    moreover have w: "bm_IB2 ?M - (if t = 0 then 1 else 0) = index2_width m t"
      by (simp add: index2_width_def)
    ultimately have g: "get (bm_IB2 ?M - (if t = 0 then 1 else 0)) (at_pos B (index2_pos m t))
        = Some (bptc_index2 m B t, at_pos B (index2_pos m (Suc t)))"
      unfolding w using False by (simp add: index2_pos_def get_at bptc_index2_def ac_simps)
    have i2: "nth_opt (bc7_weights2 (bm_IB2 ?M)) (bptc_index2 m B t)
      = Some (bptc_weights (bm_IB2 ?M) ! bptc_index2 m B t)"
      using bptc_index_bounds(2)[OF m False] by (simp add: weights_agree(2)[OF m False] nth_opt_def)
    show ?thesis
      unfolding tex using False i1 i2 g s(3) e
      by (simp add: bc7_texel_def f rf(1) Let_def cong: if_cong)
  qed
qed

lemma bc7_texels_at:
  assumes m: "m < 8"
    and ep: "\<And>e c. e < 2 * bm_NS (bptc m) \<Longrightarrow> c < 4 \<Longrightarrow> ep (e, c) = bptc_endpoint m B e c"
  shows "foldM (bc7_texel m ep (bptc_partition m B) (map (bptc_index m B) [0..<16])
      (fld B (rotation_at m) (bm_RB (bptc m))) (fld B (selector_at m) (bm_ISB (bptc m)))) [0..<16]
      ([], at_pos B (index2_at m))
    = Some (map (bptc_texel m B) [0..<16], at_pos B (index2_pos m 16))"
proof -
  have "foldM (bc7_texel m ep (bptc_partition m B) (map (bptc_index m B) [0..<16])
      (fld B (rotation_at m) (bm_RB (bptc m))) (fld B (selector_at m) (bm_ISB (bptc m)))) [0..<n]
      ([], at_pos B (index2_at m))
    = Some (map (bptc_texel m B) [0..<n], at_pos B (index2_pos m n))" if "n \<le> 16" for n
    using that
  proof (induction n)
    case 0
    then show ?case by (simp add: index2_pos_def)
  next
    case (Suc n)
    then show ?case using bc7_texel_at[OF m _ ep, of n "map (bptc_texel m B) [0..<n]"]
      by (simp add: foldM_append)
  qed
  from this[of 16] show ?thesis by simp
qed

lemma bc7_block_words:
  assumes "length blk = 16"
  shows "\<exists>lo hi. read_at blk 0 8 = Some lo \<and> read_at blk 8 8 = Some hi
    \<and> \<lparr>bb_lo = word_of_nat (le_nat lo), bb_hi = word_of_nat (le_nat hi), bb_pos = 0\<rparr> = at_pos (le_nat blk) 0"
proof -
  let ?lo = "take 8 blk" let ?hi = "drop 8 blk"
  have B: "le_nat blk = le_nat ?lo + 2 ^ 64 * le_nat ?hi"
    using le_nat_append[of ?lo ?hi] assms by simp
  have lo: "le_nat ?lo < 2 ^ 64"
    using le_nat_bound[of ?lo] assms by simp
  have "(word_of_nat (le_nat blk) :: qword) = word_of_nat (le_nat ?lo)"
    unfolding B word_of_nat_eq_iff take_bit_eq_mod using lo by simp
  moreover have "le_nat blk div 2 ^ 64 = le_nat ?hi" unfolding B using lo by simp
  ultimately show ?thesis
    using assms by (auto simp: read_at_def at_pos_def)
qed

text \<open>
  A valid block decodes to the texels of the layout, a reserved one to transparent black.
\<close>

lemma bc7_block_layout:
  assumes "length blk = 16" and "m < 8" and "fld (le_nat blk) 0 (m + 1) = 2 ^ m"
  shows "decode_bc7_block blk = Some (map (bptc_texel m (le_nat blk)) [0..<16])"
proof -
  let ?B = "le_nat blk" let ?M = "bptc m"
  obtain lo hi where rd: "read_at blk 0 8 = Some lo" "read_at blk 8 8 = Some hi"
    and bits: "\<lparr>bb_lo = word_of_nat (le_nat lo), bb_hi = word_of_nat (le_nat hi), bb_pos = 0\<rparr> = at_pos ?B 0"
    using bc7_block_words[OF assms(1)] by blast
  obtain ep where ep: "bc7_endpoints m (at_pos ?B (color_at m)) = Some (ep, at_pos ?B (pbit_at m))"
    and raw: "\<forall>e < 2 * bm_NS ?M. \<forall>c < 4. c < 3 \<or> bm_AB ?M \<noteq> 0 \<longrightarrow> ep (e, c) = bptc_raw m ?B e c"
    using bc7_endpoints_at[OF assms(2)] by blast
  obtain ep' where ep': "bc7_pbits m ep (at_pos ?B (pbit_at m)) = Some (ep', at_pos ?B (index_at m))"
    and pb: "\<forall>e < 2 * bm_NS ?M. \<forall>c < 4. ep' (e, c) =
         (if bm_EPB ?M = 1 then 2 * ep (e, c) + fld ?B (pbit_at m + e) 1
          else if bm_SPB ?M = 1 \<and> c < 3 then 2 * ep (e, c) + fld ?B (pbit_at m + e div 2) 1
          else ep (e, c))"
    using bc7_pbits_at[OF assms(2)] by blast
  have "bc7_expand m ep' (e, c) = bptc_endpoint m ?B e c" if "e < 2 * bm_NS ?M" "c < 4" for e c
    by (rule bc7_expand_at[OF assms(2) that, of ep ?B ep']) (use raw pb that in blast)+
  note texels = bc7_texels_at[OF assms(2), of "bc7_expand m ep'" ?B, OF this]
  show ?thesis
    using assms(2) ep ep' texels bc7_pset_at(1)[OF assms(2), of ?B] bc7_header_at[OF assms(2), of ?B]
      bc7_mode_at[OF assms(2,3)] bc7_primary_at[OF assms(2), of ?B]
    by (simp add: decode_bc7_block_def rd bits mode_fields(6))
qed

lemma bc7_reserved_block:
  assumes "length blk = 16" and "hd blk = 0"
  shows "decode_bc7_block blk = Some (replicate 16 [0, 0, 0, 0])"
proof -
  obtain lo hi where rd: "read_at blk 0 8 = Some lo" "read_at blk 8 8 = Some hi"
    and bits: "\<lparr>bb_lo = word_of_nat (le_nat lo), bb_hi = word_of_nat (le_nat hi), bb_pos = 0\<rparr> = at_pos (le_nat blk) 0"
    using bc7_block_words[OF assms(1)] by blast
  have "fld (le_nat blk) 0 8 = 0"
    using assms by (cases blk) (auto simp: fld_def)
  then show ?thesis by (simp add: decode_bc7_block_def rd bits bc7_mode_reserved)
qed

lemma bc7_valid_mode:
  assumes "length blk = 16" and "hd blk \<noteq> 0"
  shows "\<exists>m < 8. fld (le_nat blk) 0 (m + 1) = 2 ^ m"
proof -
  let ?B = "le_nat blk"
  have "unat (hd blk) < 256" using unsigned_less[of "hd blk"] by simp
  moreover have "0 < unat (hd blk)" using assms(2) by (simp add: unat_gt_0)
  ultimately have "fld ?B 0 (7 + 1) \<noteq> 0"
    using assms by (cases blk) (auto simp: fld_def)
  then obtain m where m: "m = (LEAST m. fld ?B 0 (m + 1) \<noteq> 0)" "m \<le> 7" "fld ?B 0 (m + 1) \<noteq> 0"
    using Least_le[of "\<lambda>m. fld ?B 0 (m + 1) \<noteq> 0" 7] LeastI[of "\<lambda>m. fld ?B 0 (m + 1) \<noteq> 0" 7] by blast
  have "fld ?B 0 m = 0"
  proof (cases m)
    case (Suc k)
    then have "k < (LEAST m. fld ?B 0 (m + 1) \<noteq> 0)" using m(1) by simp
    then show ?thesis using not_less_Least Suc by fastforce
  qed simp
  then have "fld ?B 0 (m + 1) = 2 ^ m * fld ?B m 1" using fld_Suc[of ?B 0 m] by simp
  moreover have "fld ?B m 1 = 0 \<or> fld ?B m 1 = 1" using fld_less[of ?B m 1] by fastforce
  ultimately have "fld ?B 0 (m + 1) = 2 ^ m" using m(3) by auto
  then show ?thesis using m(2) by (intro exI[of _ m]) simp
qed

text \<open>
  C16: every 16-byte BC7 block decodes: a block of a valid mode to the texels of the published
  layout (the sequential reader, the p-bit and precision expansion, the partitions with their
  shortened anchor indices, the second index set and the rotation all agree with it, and no read
  leaves the block), a block whose mode byte is zero to transparent black.
\<close>

theorem bc7_decodes_layout:
  assumes "length blk = 16"
  shows "if hd blk = 0 then decode_bc7_block blk = Some (replicate 16 [0, 0, 0, 0])
    else \<exists>m < 8. fld (le_nat blk) 0 (m + 1) = 2 ^ m
           \<and> decode_bc7_block blk = Some (map (bptc_texel m (le_nat blk)) [0..<16])"
  using bc7_reserved_block[OF assms] bc7_valid_mode[OF assms] bc7_block_layout[OF assms] by auto

theorem bc7_decodes_layout_witness:
  "\<exists>m < 8. decode_bc7_block [0x40, 0x91, 0x3C, 7, 0xFF, 0, 0x5A, 0xE8, 1, 2, 3, 4, 5, 6, 7, 8]
   = Some (map (bptc_texel m (le_nat [0x40, 0x91, 0x3C, 7, 0xFF, 0, 0x5A, 0xE8, 1, 2, 3, 4, 5, 6, 7, 8])) [0..<16])"
  using bc7_decodes_layout[of "[0x40, 0x91, 0x3C, 7, 0xFF, 0, 0x5A, 0xE8, 1, 2, 3, 4, 5, 6, 7, 8]"] by auto

end
