(* ===== verification/Bc6h.thy ===== *)
theory Bc6h
  imports BcTables BitFields
begin

text \<open>
  The BC6H block decoder of \<open>gpu/texture/bc_decode.cpp\<close>: the 128-bit stream, the fourteen
  scrambled endpoint layouts, delta and sign handling, unquantization, interpolation, and the
  conversion of the half-float result to eight bits. Each layout lists the reads of one \<open>case\<close>
  of the code in order.
\<close>

subsection \<open>The bit stream\<close>

record bc6h_bits =
  b6_low :: qword
  b6_high :: qword

text \<open>
  \<open>1 << numBits\<close> and the shifts of 64-bit words by \<open>64 - numBits\<close> are defined in C++ for
  widths from 1 to 30.
\<close>

definition bc6h_read_bits :: "nat \<Rightarrow> bc6h_bits \<Rightarrow> (int \<times> bc6h_bits) option" where
  "bc6h_read_bits n bs =
     (if n = 0 \<or> 30 < n then None
      else let m = mask n
           in Some (uint (b6_low bs AND m),
                    \<lparr>b6_low = drop_bit n (b6_low bs) OR push_bit (64 - n) (b6_high bs AND m),
                     b6_high = drop_bit n (b6_high bs)\<rparr>))"

primrec bc6h_reverse :: "nat \<Rightarrow> int \<Rightarrow> int \<Rightarrow> int" where
  "bc6h_reverse 0 bits result = result"
| "bc6h_reverse (Suc n) bits result =
     bc6h_reverse n (drop_bit 1 bits) (push_bit 1 result OR (bits AND 1))"

definition bc6h_read_bits_r :: "nat \<Rightarrow> bc6h_bits \<Rightarrow> (int \<times> bc6h_bits) option" where
  "bc6h_read_bits_r n bs = do { (bits, bs) \<leftarrow> bc6h_read_bits n bs; Some (bc6h_reverse n bits 0, bs) }"

subsection \<open>Endpoint layouts\<close>

datatype channel = Red | Green | Blue

text \<open>
  \<open>Field c i n s reversed\<close> reads \<open>n\<close> bits, reversed if \<open>reversed\<close>, and ORs them shifted by \<open>s\<close> into
  component \<open>i\<close> of channel \<open>c\<close>: \<open>r[i] |= read(n) << s\<close>.
\<close>

datatype bc6h_field = Field channel nat nat nat bool

definition bit1 :: "channel \<Rightarrow> nat \<Rightarrow> nat \<Rightarrow> bc6h_field" where
  "bit1 c i s = Field c i 1 s False"

definition bitsn :: "channel \<Rightarrow> nat \<Rightarrow> nat \<Rightarrow> bc6h_field" where
  "bitsn c i n = Field c i n 0 False"

definition bits_r :: "channel \<Rightarrow> nat \<Rightarrow> nat \<Rightarrow> nat \<Rightarrow> bc6h_field" where
  "bits_r c i n s = Field c i n s True"

type_synonym components = "channel \<times> nat \<Rightarrow> int"

fun bc6h_read_field :: "bc6h_field \<Rightarrow> components \<times> bc6h_bits \<Rightarrow> (components \<times> bc6h_bits) option" where
  "bc6h_read_field (Field c i n s reversed) (v, bs) =
     do { (x, bs) \<leftarrow> (if reversed then bc6h_read_bits_r n bs else bc6h_read_bits n bs);
          Some (v((c, i) := v (c, i) OR push_bit s x), bs) }"

definition bc6h_mode_00 :: "bc6h_field list" where
  "bc6h_mode_00 =
    [bit1 Green 2 4, bit1 Blue 2 4, bit1 Blue 3 4,
     bitsn Red 0 10, bitsn Green 0 10, bitsn Blue 0 10,
     bitsn Red 1 5, bit1 Green 3 4, bitsn Green 2 4,
     bitsn Green 1 5, bit1 Blue 3 0, bitsn Green 3 4,
     bitsn Blue 1 5, bit1 Blue 3 1, bitsn Blue 2 4,
     bitsn Red 2 5, bit1 Blue 3 2, bitsn Red 3 5,
     bit1 Blue 3 3]"

definition bc6h_mode_01 :: "bc6h_field list" where
  "bc6h_mode_01 =
    [bit1 Green 2 5, bit1 Green 3 4, bit1 Green 3 5,
     bitsn Red 0 7, bit1 Blue 3 0, bit1 Blue 3 1,
     bit1 Blue 2 4, bitsn Green 0 7, bit1 Blue 2 5,
     bit1 Blue 3 2, bit1 Green 2 4, bitsn Blue 0 7,
     bit1 Blue 3 3, bit1 Blue 3 5, bit1 Blue 3 4,
     bitsn Red 1 6, bitsn Green 2 4, bitsn Green 1 6,
     bitsn Green 3 4, bitsn Blue 1 6, bitsn Blue 2 4,
     bitsn Red 2 6, bitsn Red 3 6]"

definition bc6h_mode_00010 :: "bc6h_field list" where
  "bc6h_mode_00010 =
    [bitsn Red 0 10, bitsn Green 0 10, bitsn Blue 0 10,
     bitsn Red 1 5, bit1 Red 0 10, bitsn Green 2 4,
     bitsn Green 1 4, bit1 Green 0 10, bit1 Blue 3 0,
     bitsn Green 3 4, bitsn Blue 1 4, bit1 Blue 0 10,
     bit1 Blue 3 1, bitsn Blue 2 4, bitsn Red 2 5,
     bit1 Blue 3 2, bitsn Red 3 5, bit1 Blue 3 3]"

definition bc6h_mode_00110 :: "bc6h_field list" where
  "bc6h_mode_00110 =
    [bitsn Red 0 10, bitsn Green 0 10, bitsn Blue 0 10,
     bitsn Red 1 4, bit1 Red 0 10, bit1 Green 3 4,
     bitsn Green 2 4, bitsn Green 1 5, bit1 Green 0 10,
     bitsn Green 3 4, bitsn Blue 1 4, bit1 Blue 0 10,
     bit1 Blue 3 1, bitsn Blue 2 4, bitsn Red 2 4,
     bit1 Blue 3 0, bit1 Blue 3 2, bitsn Red 3 4,
     bit1 Green 2 4, bit1 Blue 3 3]"

definition bc6h_mode_01010 :: "bc6h_field list" where
  "bc6h_mode_01010 =
    [bitsn Red 0 10, bitsn Green 0 10, bitsn Blue 0 10,
     bitsn Red 1 4, bit1 Red 0 10, bit1 Blue 2 4,
     bitsn Green 2 4, bitsn Green 1 4, bit1 Green 0 10,
     bit1 Blue 3 0, bitsn Green 3 4, bitsn Blue 1 5,
     bit1 Blue 0 10, bitsn Blue 2 4, bitsn Red 2 4,
     bit1 Blue 3 1, bit1 Blue 3 2, bitsn Red 3 4,
     bit1 Blue 3 4, bit1 Blue 3 3]"

definition bc6h_mode_01110 :: "bc6h_field list" where
  "bc6h_mode_01110 =
    [bitsn Red 0 9, bit1 Blue 2 4, bitsn Green 0 9,
     bit1 Green 2 4, bitsn Blue 0 9, bit1 Blue 3 4,
     bitsn Red 1 5, bit1 Green 3 4, bitsn Green 2 4,
     bitsn Green 1 5, bit1 Blue 3 0, bitsn Green 3 4,
     bitsn Blue 1 5, bit1 Blue 3 1, bitsn Blue 2 4,
     bitsn Red 2 5, bit1 Blue 3 2, bitsn Red 3 5,
     bit1 Blue 3 3]"

definition bc6h_mode_10010 :: "bc6h_field list" where
  "bc6h_mode_10010 =
    [bitsn Red 0 8, bit1 Green 3 4, bit1 Blue 2 4,
     bitsn Green 0 8, bit1 Blue 3 2, bit1 Green 2 4,
     bitsn Blue 0 8, bit1 Blue 3 3, bit1 Blue 3 4,
     bitsn Red 1 6, bitsn Green 2 4, bitsn Green 1 5,
     bit1 Blue 3 0, bitsn Green 3 4, bitsn Blue 1 5,
     bit1 Blue 3 1, bitsn Blue 2 4, bitsn Red 2 6,
     bitsn Red 3 6]"

definition bc6h_mode_10110 :: "bc6h_field list" where
  "bc6h_mode_10110 =
    [bitsn Red 0 8, bit1 Blue 3 0, bit1 Blue 2 4,
     bitsn Green 0 8, bit1 Green 2 5, bit1 Green 2 4,
     bitsn Blue 0 8, bit1 Green 3 5, bit1 Blue 3 4,
     bitsn Red 1 5, bit1 Green 3 4, bitsn Green 2 4,
     bitsn Green 1 6, bitsn Green 3 4, bitsn Blue 1 5,
     bit1 Blue 3 1, bitsn Blue 2 4, bitsn Red 2 5,
     bit1 Blue 3 2, bitsn Red 3 5, bit1 Blue 3 3]"

definition bc6h_mode_11010 :: "bc6h_field list" where
  "bc6h_mode_11010 =
    [bitsn Red 0 8, bit1 Blue 3 1, bit1 Blue 2 4,
     bitsn Green 0 8, bit1 Blue 2 5, bit1 Green 2 4,
     bitsn Blue 0 8, bit1 Blue 3 5, bit1 Blue 3 4,
     bitsn Red 1 5, bit1 Green 3 4, bitsn Green 2 4,
     bitsn Green 1 5, bit1 Blue 3 0, bitsn Green 3 4,
     bitsn Blue 1 6, bitsn Blue 2 4, bitsn Red 2 5,
     bit1 Blue 3 2, bitsn Red 3 5, bit1 Blue 3 3]"

definition bc6h_mode_11110 :: "bc6h_field list" where
  "bc6h_mode_11110 =
    [bitsn Red 0 6, bit1 Green 3 4, bit1 Blue 3 0,
     bit1 Blue 3 1, bit1 Blue 2 4, bitsn Green 0 6,
     bit1 Green 2 5, bit1 Blue 2 5, bit1 Blue 3 2,
     bit1 Green 2 4, bitsn Blue 0 6, bit1 Green 3 5,
     bit1 Blue 3 3, bit1 Blue 3 5, bit1 Blue 3 4,
     bitsn Red 1 6, bitsn Green 2 4, bitsn Green 1 6,
     bitsn Green 3 4, bitsn Blue 1 6, bitsn Blue 2 4,
     bitsn Red 2 6, bitsn Red 3 6]"

definition bc6h_mode_00011 :: "bc6h_field list" where
  "bc6h_mode_00011 =
    [bitsn Red 0 10, bitsn Green 0 10, bitsn Blue 0 10,
     bitsn Red 1 10, bitsn Green 1 10, bitsn Blue 1 10]"

definition bc6h_mode_00111 :: "bc6h_field list" where
  "bc6h_mode_00111 =
    [bitsn Red 0 10, bitsn Green 0 10, bitsn Blue 0 10,
     bitsn Red 1 9, bit1 Red 0 10, bitsn Green 1 9,
     bit1 Green 0 10, bitsn Blue 1 9, bit1 Blue 0 10]"

definition bc6h_mode_01011 :: "bc6h_field list" where
  "bc6h_mode_01011 =
    [bitsn Red 0 10, bitsn Green 0 10, bitsn Blue 0 10,
     bitsn Red 1 8, bits_r Red 0 2 10, bitsn Green 1 8,
     bits_r Green 0 2 10, bitsn Blue 1 8, bits_r Blue 0 2 10]"

definition bc6h_mode_01111 :: "bc6h_field list" where
  "bc6h_mode_01111 =
    [bitsn Red 0 10, bitsn Green 0 10, bitsn Blue 0 10,
     bitsn Red 1 4, bits_r Red 0 6 10, bitsn Green 1 4,
     bits_r Green 0 6 10, bitsn Blue 1 4, bits_r Blue 0 6 10]"

text \<open>Mode code to mode number, endpoint fields, and whether a partition follows.\<close>

definition bc6h_layout :: "nat \<Rightarrow> (nat \<times> bc6h_field list \<times> bool) option" where
  "bc6h_layout code =
     (if code = 0 then Some (0, bc6h_mode_00, True)
      else if code = 1 then Some (1, bc6h_mode_01, True)
      else if code = 2 then Some (2, bc6h_mode_00010, True)
      else if code = 6 then Some (3, bc6h_mode_00110, True)
      else if code = 10 then Some (4, bc6h_mode_01010, True)
      else if code = 14 then Some (5, bc6h_mode_01110, True)
      else if code = 18 then Some (6, bc6h_mode_10010, True)
      else if code = 22 then Some (7, bc6h_mode_10110, True)
      else if code = 26 then Some (8, bc6h_mode_11010, True)
      else if code = 30 then Some (9, bc6h_mode_11110, True)
      else if code = 3 then Some (10, bc6h_mode_00011, False)
      else if code = 7 then Some (11, bc6h_mode_00111, False)
      else if code = 11 then Some (12, bc6h_mode_01011, False)
      else if code = 15 then Some (13, bc6h_mode_01111, False)
      else None)"

subsection \<open>Endpoint arithmetic\<close>

definition bc6h_extend_sign :: "int \<Rightarrow> nat \<Rightarrow> int" where
  "bc6h_extend_sign val bits = (if val AND 2 ^ (bits - 1) \<noteq> 0 then val - 2 ^ bits else val)"

definition bc6h_transform_inverse :: "int \<Rightarrow> int \<Rightarrow> nat \<Rightarrow> bool \<Rightarrow> int" where
  "bc6h_transform_inverse val a0 bits isSigned =
     (let val = (val + a0) AND (2 ^ bits - 1)
      in if isSigned then bc6h_extend_sign val bits else val)"

definition bc6h_unquantize :: "int \<Rightarrow> nat \<Rightarrow> bool \<Rightarrow> int" where
  "bc6h_unquantize val bits isSigned =
     (if \<not> isSigned
      then if bits \<ge> 15 then val
           else if val = 0 then 0
           else if val = 2 ^ bits - 1 then 0xFFFF
           else drop_bit bits (push_bit 16 val + 0x8000)
      else if bits \<ge> 16 then val
      else let s = val < 0; val = (if s then - val else val);
               unq = (if val = 0 then 0
                      else if val \<ge> 2 ^ (bits - 1) - 1 then 0x7FFF
                      else drop_bit (bits - 1) (push_bit 15 val + 0x4000))
           in if s then - unq else unq)"

definition bc6h_interpolate :: "int \<Rightarrow> int \<Rightarrow> nat list \<Rightarrow> nat \<Rightarrow> int option" where
  "bc6h_interpolate a b weights index =
     map_option (\<lambda>w. drop_bit 6 (a * (64 - int w) + b * int w + 32))
       (if index < length weights then Some (weights ! index) else None)"

definition bc6h_finish_unquantize :: "int \<Rightarrow> bool \<Rightarrow> 16 word" where
  "bc6h_finish_unquantize val isSigned =
     (if \<not> isSigned then word_of_int (drop_bit 6 (val * 31))
      else let val = (if val < 0 then - drop_bit 5 ((- val) * 31) else drop_bit 5 (val * 31));
               s = (if val < 0 then 0x8000 else 0); val = (if val < 0 then - val else val)
           in word_of_int (s OR val))"

subsection \<open>The block\<close>

text \<open>\<open>for (i = 1; i < n; ++i)\<close> over the components of all three channels.\<close>

definition each_delta :: "nat \<Rightarrow> (channel \<Rightarrow> int \<Rightarrow> int) \<Rightarrow> components \<Rightarrow> components" where
  "each_delta n f v = (\<lambda>(c, i). if 1 \<le> i \<and> i < n then f c (v (c, i)) else v (c, i))"

definition bc6h_delta_bits :: "nat \<Rightarrow> channel \<Rightarrow> nat" where
  "bc6h_delta_bits mode c = bc6h_actual_bits_count !
     (case c of Red \<Rightarrow> 1 | Green \<Rightarrow> 2 | Blue \<Rightarrow> 3) ! mode"

definition bc6h_endpoints :: "nat \<Rightarrow> bool \<Rightarrow> components \<Rightarrow> components" where
  "bc6h_endpoints mode isSigned v =
     (let n = ((if mode \<ge> 10 then 0 else 1) + 1) * 2; w = bc6h_actual_bits_count ! 0 ! mode;
          v = (if isSigned then (\<lambda>(c, i). if i = 0 then bc6h_extend_sign (v (c, i)) w else v (c, i)) else v);
          v = (if mode \<noteq> 9 \<and> mode \<noteq> 10 \<or> isSigned
               then each_delta n (\<lambda>c x. bc6h_extend_sign x (bc6h_delta_bits mode c)) v else v);
          v = (if mode \<noteq> 9 \<and> mode \<noteq> 10
               then each_delta n (\<lambda>c x. bc6h_transform_inverse x (v (c, 0)) w isSigned) v else v)
      in (\<lambda>(c, i). if i < n then bc6h_unquantize (v (c, i)) w isSigned else v (c, i)))"

definition bc6h_texel ::
    "nat \<Rightarrow> bool \<Rightarrow> nat \<Rightarrow> components \<Rightarrow> nat \<Rightarrow> 16 word list \<times> bc6h_bits
     \<Rightarrow> (16 word list \<times> bc6h_bits) option" where
  "bc6h_texel mode isSigned partition' v t = (\<lambda>(out, bs). do {
     set \<leftarrow> (if mode \<ge> 10 then Some (if t \<noteq> 0 then 0 else 128)
             else if partition' < length bc6h_partition_sets
             then Some (bc6h_partition_sets ! partition' ! t) else None);
     (index, bs) \<leftarrow> bc6h_read_bits ((if mode \<ge> 10 then 4 else 3) - (if set AND 0x80 \<noteq> 0 then 1 else 0)) bs;
     let ep = (set AND 1) * 2;
     let weights = (if mode \<ge> 10 then kWeight4 else kWeight3);
     let half = (\<lambda>c. map_option (\<lambda>x. bc6h_finish_unquantize x isSigned)
               (bc6h_interpolate (v (c, ep)) (v (c, ep + 1)) weights (nat index)));
     r \<leftarrow> half Red; g \<leftarrow> half Green; b \<leftarrow> half Blue;
     Some (out @ [r, g, b], bs) })"

text \<open>The sixteen texels of three halves, rows contiguous (\<open>destinationPitch\<close> is 12).\<close>

definition bc6h_decode_block_half :: "byte list \<Rightarrow> bool \<Rightarrow> 16 word list option" where
  "bc6h_decode_block_half blk isSigned =
     do { lo \<leftarrow> read_at blk 0 8; hi \<leftarrow> read_at blk 8 8;
          (m2, bs) \<leftarrow> bc6h_read_bits 2 \<lparr>b6_low = word_of_nat (le_nat lo), b6_high = word_of_nat (le_nat hi)\<rparr>;
          (code, bs) \<leftarrow> (if m2 > 1 then do { (m3, bs) \<leftarrow> bc6h_read_bits 3 bs; Some (m2 OR push_bit 2 m3, bs) }
                          else Some (m2, bs));
          case bc6h_layout (nat code) of
            None \<Rightarrow> Some (replicate 48 0)
          | Some (mode, fs, partitioned) \<Rightarrow>
              do { (v, bs) \<leftarrow> foldM bc6h_read_field fs (\<lambda>_. 0, bs);
                   (partition', bs) \<leftarrow> (if partitioned then bc6h_read_bits 5 bs else Some (0, bs));
                   (out, bs) \<leftarrow> foldM (bc6h_texel mode isSigned (nat partition') (bc6h_endpoints mode isSigned v))
                     [0..<16] ([], bs);
                   Some out } }"

end
