(* ===== verification/Bc6hFacts.thy ===== *)
theory Bc6hFacts
  imports Bc6h
begin

text \<open>
  Properties of the BC6H decoder: the fourteen layouts assign every endpoint bit once and fill
  the block, the stream is a window sliding over the 128 bits, and every unsigned block decodes
  to finite half-floats.
\<close>

subsection \<open>The layouts\<close>

fun field_bits :: "bc6h_field \<Rightarrow> (channel \<times> nat \<times> nat) list" where
  "field_bits (Field c i n s reversed) = map (\<lambda>k. (c, i, k)) [s..<s + n]"

fun field_width :: "bc6h_field \<Rightarrow> nat" where
  "field_width (Field c i n s reversed) = n"

definition component_bits :: "bc6h_field list \<Rightarrow> channel \<Rightarrow> nat \<Rightarrow> nat list" where
  "component_bits fs c i = map (\<lambda>(_, _, k). k) (filter (\<lambda>(c', i', _). c' = c \<and> i' = i) (concat (map field_bits fs)))"

definition component_width :: "nat \<Rightarrow> channel \<Rightarrow> nat \<Rightarrow> nat" where
  "component_width mode c i =
     (if i = 0 then bc6h_actual_bits_count ! 0 ! mode else bc6h_delta_bits mode c)"

definition layout_ok :: "nat \<Rightarrow> nat \<Rightarrow> bc6h_field list \<Rightarrow> bool \<Rightarrow> bool" where
  "layout_ok code mode fs partitioned \<longleftrightarrow>
     list_all (\<lambda>c. list_all (\<lambda>i. sort (component_bits fs c i) = [0..<component_width mode c i])
         [0..<if mode \<ge> 10 then 2 else 4]) [Red, Green, Blue]
     \<and> (if code < 2 then 2 else 5) + sum_list (map field_width fs) + (if partitioned then 5 + 46 else 63) = 128
     \<and> (partitioned \<longleftrightarrow> mode < 10) \<and> mode < 14
     \<and> list_all (\<lambda>f. case f of Field c i n s reversed \<Rightarrow>
         1 \<le> n \<and> n \<le> 30 \<and> i < (if mode \<ge> 10 then 2 else 4) \<and> s + n \<le> component_width mode c i) fs"

lemma modes_ok:
  "layout_ok 0 0 bc6h_mode_00 True"
  "layout_ok 1 1 bc6h_mode_01 True"
  "layout_ok 2 2 bc6h_mode_00010 True"
  "layout_ok 6 3 bc6h_mode_00110 True"
  "layout_ok 10 4 bc6h_mode_01010 True"
  "layout_ok 14 5 bc6h_mode_01110 True"
  "layout_ok 18 6 bc6h_mode_10010 True"
  "layout_ok 22 7 bc6h_mode_10110 True"
  "layout_ok 26 8 bc6h_mode_11010 True"
  "layout_ok 30 9 bc6h_mode_11110 True"
  "layout_ok 3 10 bc6h_mode_00011 False"
  "layout_ok 7 11 bc6h_mode_00111 False"
  "layout_ok 11 12 bc6h_mode_01011 False"
  "layout_ok 15 13 bc6h_mode_01111 False"
  by code_simp+

lemma bc6h_layout_ok:
  "bc6h_layout code = Some (mode, fs, partitioned) \<Longrightarrow> layout_ok code mode fs partitioned"
  by (auto simp: bc6h_layout_def modes_ok simp del: One_nat_def split: if_splits)

text \<open>
  In each of the fourteen modes the scrambled reads put every bit of every endpoint
  component, at the mode's declared precision, exactly once, and mode bits, fields, partition
  and indices together take exactly the 128 bits of the block.
\<close>

lemma bc6h_layouts_fill_block:
  assumes "bc6h_layout code = Some (mode, fs, partitioned)"
  shows "(\<forall>c i. i < (if mode \<ge> 10 then 2 else 4) \<longrightarrow>
             sort (component_bits fs c i) = [0..<component_width mode c i])
    \<and> (if code < 2 then 2 else 5) + sum_list (map field_width fs) + (if partitioned then 5 + 46 else 63) = 128"
proof -
  note ok = bc6h_layout_ok[OF assms]
  have "sort (component_bits fs c i) = [0..<component_width mode c i]"
    if "i < (if mode \<ge> 10 then 2 else 4)" for c i
    using ok that unfolding layout_ok_def list_all_iff by (cases c) simp_all
  with ok show ?thesis unfolding layout_ok_def by blast
qed

subsection \<open>The stream\<close>

definition at6 :: "nat \<Rightarrow> nat \<Rightarrow> bc6h_bits" where
  "at6 B p = \<lparr>b6_low = word_of_nat (drop_bit p B), b6_high = word_of_nat (drop_bit (p + 64) B)\<rparr>"

lemma fld_take_drop: "fld B p n = take_bit n (drop_bit p B)"
  by (simp add: fld_def take_bit_eq_mod drop_bit_eq_div)

lemma read_at6:
  assumes "B < 2 ^ 128" and "1 \<le> n" and "n \<le> 30"
  shows "bc6h_read_bits n (at6 B p) = Some (int (fld B p n), at6 B (p + n))"
proof -
  have v: "uint (word_of_nat (drop_bit p B) AND mask n :: qword) = int (fld B p n)"
  proof -
    have "uint (word_of_nat (drop_bit p B) AND mask n :: qword)
        = take_bit n (take_bit 64 (int (drop_bit p B)))"
      unfolding take_bit_eq_mask[symmetric] unsigned_take_bit_eq unsigned_of_nat of_nat_take_bit by simp
    then show ?thesis using assms(3) by (simp add: fld_take_drop of_nat_take_bit min_def)
  qed
  have lo: "drop_bit n (word_of_nat (drop_bit p B) :: qword)
      OR push_bit (64 - n) (word_of_nat (drop_bit (p + 64) B) AND mask n)
    = word_of_nat (drop_bit (p + n) B)"
    using assms(3) by (intro bit_word_eqI) (auto simp: bit_simps ac_simps)
  have top: "unat (word_of_nat (drop_bit (q + 64) B) :: qword) = drop_bit (q + 64) B" for q
  proof -
    have "drop_bit (q + 64) B \<le> drop_bit 64 B"
      by (simp add: drop_bit_eq_div power_add div_mult2_eq mult.commute[of "2 ^ q"] div_le_dividend)
    also have "drop_bit 64 B < 2 ^ 64"
      using assms(1) by (simp add: drop_bit_eq_div less_mult_imp_div_less)
    finally show ?thesis by (simp add: unat_of_nat)
  qed
  have hi: "drop_bit n (word_of_nat (drop_bit (p + 64) B) :: qword) = word_of_nat (drop_bit (p + n + 64) B)"
    unfolding word_unat_eq_iff unat_drop_bit_eq top
    by (simp add: ac_simps)
  show ?thesis
    using assms(2,3) v lo hi by (simp add: bc6h_read_bits_def at6_def Let_def)
qed

lemma reverse_bound:
  "0 \<le> result \<Longrightarrow> result < 2 ^ k \<Longrightarrow> 0 \<le> bc6h_reverse n bits result \<and> bc6h_reverse n bits result < 2 ^ (k + n)"
proof (induction n arbitrary: bits result k)
  case 0
  then show ?case by simp
next
  case (Suc n)
  have "push_bit 1 result OR (bits AND 1) < 2 ^ Suc k"
    using Suc.prems by (intro OR_upper) (auto simp: push_bit_eq_mult and_one_eq intro: less_le_trans)
  moreover have "0 \<le> push_bit 1 result OR (bits AND 1)"
    using Suc.prems by (simp add: push_bit_eq_mult)
  ultimately show ?case using Suc.IH[of "push_bit 1 result OR (bits AND 1)" "Suc k"] by simp
qed

definition field_ok :: "(channel \<times> nat \<Rightarrow> nat) \<Rightarrow> bc6h_field \<Rightarrow> bool" where
  "field_ok W f = (case f of Field c i n s reversed \<Rightarrow> 1 \<le> n \<and> n \<le> 30 \<and> s + n \<le> W (c, i))"

definition within :: "(channel \<times> nat \<Rightarrow> nat) \<Rightarrow> components \<Rightarrow> bool" where
  "within W v \<longleftrightarrow> (\<forall>k. 0 \<le> v k \<and> v k < 2 ^ W k)"

lemma read_field_at6:
  assumes "B < 2 ^ 128" and "field_ok W f" and "within W v"
  shows "\<exists>v'. bc6h_read_field f (v, at6 B p) = Some (v', at6 B (p + field_width f)) \<and> within W v'"
proof -
  obtain c i n s r where f: "f = Field c i n s r" by (cases f)
  with assms(2) have n: "1 \<le> n" "n \<le> 30" "s + n \<le> W (c, i)" by (simp_all add: field_ok_def)
  define x where "x = (if r then bc6h_reverse n (int (fld B p n)) 0 else int (fld B p n))"
  have "int (fld B p n) < 2 ^ n" using fld_less[of B p n] by (metis of_nat_less_iff of_nat_numeral of_nat_power)
  then have x: "0 \<le> x" "x < 2 ^ n" using reverse_bound[of 0 0 n "int (fld B p n)"] by (simp_all add: x_def)
  have "push_bit s x < 2 ^ (s + n)"
    using x(2) by (simp add: push_bit_eq_mult power_add mult.commute)
  then have "push_bit s x < 2 ^ W (c, i)"
    using n(3) by (rule less_le_trans[OF _ power_increasing]) simp
  then have "v (c, i) OR push_bit s x < 2 ^ W (c, i)" "0 \<le> v (c, i) OR push_bit s x"
    using assms(3) x(1) by (auto simp: within_def push_bit_eq_mult intro!: OR_upper)
  then have "within W (v((c, i) := v (c, i) OR push_bit s x))"
    using assms(3) by (simp add: within_def)
  moreover have "bc6h_read_field f (v, at6 B p) =
      Some (v((c, i) := v (c, i) OR push_bit s x), at6 B (p + field_width f))"
    using read_at6[OF assms(1) n(1,2)] by (simp add: f bc6h_read_bits_r_def x_def)
  ultimately show ?thesis by blast
qed

lemma read_fields_at6:
  assumes "B < 2 ^ 128" and "list_all (field_ok W) fs" and "within W v"
  shows "\<exists>v'. foldM bc6h_read_field fs (v, at6 B p) = Some (v', at6 B (p + sum_list (map field_width fs))) \<and> within W v'"
  using assms(2,3)
proof (induction fs arbitrary: v p)
  case Nil
  then show ?case by simp
next
  case (Cons f fs)
  then obtain v1 where "bc6h_read_field f (v, at6 B p) = Some (v1, at6 B (p + field_width f))" "within W v1"
    using read_field_at6[OF assms(1), of W f v p] by auto
  with Cons.IH[of v1 "p + field_width f"] Cons.prems(1) show ?case by (auto simp: ac_simps)
qed

subsection \<open>Endpoints and texels\<close>

definition mode_width :: "nat \<Rightarrow> channel \<times> nat \<Rightarrow> nat" where
  "mode_width mode k = (if snd k = 0 \<or> mode = 9 \<or> mode = 10 then bc6h_actual_bits_count ! 0 ! mode else 16)"

lemma layout_fields_ok: "layout_ok code mode fs partitioned \<Longrightarrow> list_all (field_ok (mode_width mode)) fs"
proof -
  assume ok: "layout_ok code mode fs partitioned"
  have w: "component_width mode c i \<le> mode_width mode (c, i)" for c i
  proof -
    have "mode < 14" using ok by (simp add: layout_ok_def)
    then have "mode = 0 \<or> mode = 1 \<or> mode = 2 \<or> mode = 3 \<or> mode = 4 \<or> mode = 5 \<or> mode = 6
        \<or> mode = 7 \<or> mode = 8 \<or> mode = 9 \<or> mode = 10 \<or> mode = 11 \<or> mode = 12 \<or> mode = 13" by arith
    then show ?thesis
      by (cases c; elim disjE) (simp_all add: component_width_def mode_width_def bc6h_delta_bits_def
          bc6h_actual_bits_count_def)
  qed
  from ok have "list_all (\<lambda>f. case f of Field c i n s reversed \<Rightarrow>
         1 \<le> n \<and> n \<le> 30 \<and> i < (if mode \<ge> 10 then 2 else 4) \<and> s + n \<le> component_width mode c i) fs"
    by (simp add: layout_ok_def)
  then show ?thesis
    by (rule list.pred_mono_strong) (auto simp: field_ok_def split: bc6h_field.splits intro: order_trans[OF _ w])
qed

lemma and_mask_bound: "0 \<le> (x :: int) AND (2 ^ n - 1) \<and> x AND (2 ^ n - 1) < 2 ^ n"
  using take_bit_nonnegative[of n x] take_bit_int_less_exp[of n x]
  by (simp add: take_bit_eq_mask mask_eq_exp_minus_1)

lemma unquantize_bound:
  assumes "0 \<le> val" and "val < 2 ^ b" and "b \<le> 16"
  shows "0 \<le> bc6h_unquantize val b False \<and> bc6h_unquantize val b False \<le> 0xFFFF"
proof -
  have le: "(2 :: int) ^ b \<le> 2 ^ 16" using assms(3) by (intro power_increasing) simp_all
  have "(val * 65536 + 32768) div 2 ^ b \<le> 65535" if "val < 2 ^ b - 1"
  proof -
    have "val * 65536 + 32768 < 65536 * 2 ^ b" using that by linarith
    then have "(val * 65536 + 32768) div 2 ^ b \<le> (65536 * 2 ^ b - 1) div 2 ^ b"
      by (intro zdiv_mono1) simp_all
    also have "\<dots> = 65535" by (intro int_div_pos_eq[where r = "2 ^ b - 1"]) simp_all
    finally show ?thesis .
  qed
  with assms le show ?thesis
    by (auto simp: bc6h_unquantize_def push_bit_eq_mult drop_bit_eq_div pos_imp_zdiv_nonneg_iff)
qed

lemma interpolate_bound:
  assumes "0 \<le> a" and "a \<le> 0xFFFF" and "0 \<le> b" and "b \<le> 0xFFFF"
    and "index < length weights" and "list_all (\<lambda>w. w \<le> 64) weights"
  shows "\<exists>x. bc6h_interpolate a b weights index = Some x \<and> 0 \<le> x \<and> x \<le> 0xFFFF"
proof -
  let ?w = "int (weights ! index)"
  have w: "0 \<le> ?w" "?w \<le> 64" using assms(5,6) by (auto simp: list_all_length)
  have "a * (64 - ?w) \<le> 0xFFFF * (64 - ?w)" by (rule mult_right_mono) (use assms(2) w in simp_all)
  moreover have "b * ?w \<le> 0xFFFF * ?w" by (rule mult_right_mono) (use assms(4) w in simp_all)
  ultimately have "a * (64 - ?w) + b * ?w + 32 \<le> 0xFFFF * 64 + 32" by (simp add: algebra_simps)
  moreover have "0 \<le> a * (64 - ?w)" "0 \<le> b * ?w" using assms w by simp_all
  ultimately show ?thesis using assms(5)
    by (simp add: bc6h_interpolate_def drop_bit_eq_div pos_imp_zdiv_nonneg_iff)
qed

lemma finish_bound:
  "0 \<le> x \<Longrightarrow> x \<le> 0xFFFF \<Longrightarrow> unat (bc6h_finish_unquantize x False) \<le> 0x7BFF"
proof -
  assume x: "0 \<le> x" "x \<le> 0xFFFF"
  define y where "y = x * 31 div 64"
  have y: "0 \<le> y" "y \<le> 0x7BFF" unfolding y_def using x by auto
  then have "unat (word_of_int y :: 16 word) = nat y"
    unfolding unat_eq_nat_uint by (simp add: unsigned_of_int take_bit_int_eq_self)
  then show ?thesis using y
    by (simp add: bc6h_finish_unquantize_def drop_bit_eq_div flip: y_def)
qed

lemma endpoints_bound:
  assumes "mode < 14" and "within (mode_width mode) v" and "i < (if mode \<ge> 10 then 2 else 4)"
  shows "0 \<le> bc6h_endpoints mode False v (c, i) \<and> bc6h_endpoints mode False v (c, i) \<le> 0xFFFF"
proof -
  let ?b = "bc6h_actual_bits_count ! 0 ! mode"
  have b: "?b \<le> 16"
  proof -
    have "list_all (\<lambda>x. x \<le> 16) (bc6h_actual_bits_count ! 0)" "length (bc6h_actual_bits_count ! 0) = 14"
      by (simp_all add: bc6h_actual_bits_count_def)
    then show ?thesis using assms(1) by (simp add: list_all_length)
  qed
  define n where "n = ((if mode \<ge> 10 then 0 else 1) + 1) * (2 :: nat)"
  have n: "i < n" using assms(3) by (auto simp: n_def split: if_splits)
  have "\<exists>x. bc6h_endpoints mode False v (c, i) = bc6h_unquantize x ?b False \<and> 0 \<le> x \<and> x < 2 ^ ?b"
  proof (cases "i = 0 \<or> mode = 9 \<or> mode = 10")
    case True
    then have "bc6h_endpoints mode False v (c, i) = bc6h_unquantize (v (c, i)) ?b False"
      using n by (auto simp: bc6h_endpoints_def Let_def each_delta_def n_def)
    moreover have "mode_width mode (c, i) = ?b" using True by (auto simp: mode_width_def)
    ultimately show ?thesis using assms(2) by (metis within_def)
  next
    case False
    then have "bc6h_endpoints mode False v (c, i) = bc6h_unquantize (bc6h_transform_inverse
        (bc6h_extend_sign (v (c, i)) (bc6h_delta_bits mode c)) (v (c, 0)) ?b False) ?b False"
      using n by (simp add: bc6h_endpoints_def Let_def each_delta_def n_def)
    then show ?thesis using and_mask_bound by (auto simp: bc6h_transform_inverse_def Let_def)
  qed
  then show ?thesis using unquantize_bound[OF _ _ b] by auto
qed

lemma partition_set_entries: "list_all (\<lambda>row. length row = 16 \<and> list_all (\<lambda>e. e \<in> {0, 1, 128, 129}) row) bc6h_partition_sets"
  and partition_set_length: "length bc6h_partition_sets = 32"
  by (simp_all add: bc6h_partition_sets_def)

lemma weights_ok: "list_all (\<lambda>w. w \<le> 64) kWeight3" "list_all (\<lambda>w. w \<le> 64) kWeight4"
  "length kWeight3 = 8" "length kWeight4 = 16"
  by (simp_all add: kWeight3_def kWeight4_def)

definition finite_halves :: "nat \<Rightarrow> 16 word list \<Rightarrow> bool" where
  "finite_halves n hs \<longleftrightarrow> length hs = 3 * n \<and> list_all (\<lambda>h. unat h \<le> 0x7BFF) hs"

lemma texel_at6:
  assumes "B < 2 ^ 128" and "t < 16" and p: "p < 32"
    and v: "\<And>c i. i < (if mode \<ge> 10 then 2 else 4) \<Longrightarrow> 0 \<le> v (c, i) \<and> v (c, i) \<le> 0xFFFF"
    and out: "finite_halves n out"
  shows "\<exists>out' q'. bc6h_texel mode False p v t (out, at6 B q) = Some (out', at6 B q') \<and> finite_halves (Suc n) out'"
proof -
  define set' where "set' = (if mode \<ge> 10 then if t \<noteq> 0 then 0 else 128 else bc6h_partition_sets ! p ! t)"
  have "set' \<in> {0, 1, 128, 129} \<and> (mode \<ge> 10 \<longrightarrow> set' \<in> {0, 128})"
  proof (cases "mode \<ge> 10")
    case False
    have "length (bc6h_partition_sets ! p) = 16 \<and> list_all (\<lambda>e. e \<in> {0, 1, 128, 129}) (bc6h_partition_sets ! p)"
      using partition_set_entries p unfolding list_all_length partition_set_length by blast
    then have "bc6h_partition_sets ! p ! t \<in> {0, 1, 128, 129}"
      using assms(2) by (simp add: list_all_length)
    with False show ?thesis by (simp add: set'_def)
  qed (simp add: set'_def)
  then have ep: "(set' AND 1) * 2 + 1 < (if mode \<ge> 10 then 2 else 4)"
    by auto
  define weights where "weights = (if mode \<ge> 10 then kWeight4 else kWeight3)"
  define w where "w = (if mode \<ge> 10 then 4 else 3 :: nat) - (if set' AND 0x80 \<noteq> 0 then 1 else 0)"
  have w: "1 \<le> w" "w \<le> 30" "2 ^ w \<le> length weights"
    by (auto simp: w_def weights_def weights_ok)
  have idx: "nat (int (fld B q w)) < length weights"
    using less_le_trans[OF fld_less[of B q w] w(3)] by simp
  have wl: "list_all (\<lambda>w. w \<le> 64) weights" by (simp add: weights_def weights_ok)
  have half: "\<exists>h. map_option (\<lambda>x. bc6h_finish_unquantize x False)
      (bc6h_interpolate (v (c, (set' AND 1) * 2)) (v (c, (set' AND 1) * 2 + 1)) weights (nat (int (fld B q w)))) = Some h
      \<and> unat h \<le> 0x7BFF" for c
  proof -
    have "(set' AND 1) * 2 < (if mode \<ge> 10 then 2 else 4)" using ep by linarith
    from interpolate_bound[OF _ _ _ _ idx wl] v[OF this] v[OF ep]
    obtain x where "bc6h_interpolate (v (c, (set' AND 1) * 2)) (v (c, (set' AND 1) * 2 + 1)) weights
        (nat (int (fld B q w))) = Some x" "0 \<le> x" "x \<le> 0xFFFF" by metis
    then show ?thesis using finish_bound by simp
  qed
  obtain r g b where rgb: "\<And>c. map_option (\<lambda>x. bc6h_finish_unquantize x False)
      (bc6h_interpolate (v (c, (set' AND 1) * 2)) (v (c, (set' AND 1) * 2 + 1)) weights (nat (int (fld B q w))))
      = Some (case c of Red \<Rightarrow> r | Green \<Rightarrow> g | Blue \<Rightarrow> b)"
    and le: "unat r \<le> 0x7BFF" "unat g \<le> 0x7BFF" "unat b \<le> 0x7BFF"
  proof -
    obtain h where h: "\<And>c. map_option (\<lambda>x. bc6h_finish_unquantize x False)
      (bc6h_interpolate (v (c, (set' AND 1) * 2)) (v (c, (set' AND 1) * 2 + 1)) weights (nat (int (fld B q w))))
      = Some (h c)" "\<And>c. unat (h c) \<le> 0x7BFF" using half by metis
    show thesis
    proof (rule that[of "h Red" "h Green" "h Blue"])
      fix c
      show "map_option (\<lambda>x. bc6h_finish_unquantize x False)
        (bc6h_interpolate (v (c, (set' AND 1) * 2)) (v (c, (set' AND 1) * 2 + 1)) weights (nat (int (fld B q w))))
        = Some (case c of Red \<Rightarrow> h Red | Green \<Rightarrow> h Green | Blue \<Rightarrow> h Blue)"
        using h(1)[of c] by (cases c) simp_all
    qed (use h(2) in auto)
  qed
  have set: "(if mode \<ge> 10 then Some (if t \<noteq> 0 then 0 else 128)
             else if p < length bc6h_partition_sets
             then Some (bc6h_partition_sets ! p ! t) else None) = Some set'"
    using p by (simp add: set'_def partition_set_length)
  have "bc6h_texel mode False p v t (out, at6 B q) = Some (out @ [r, g, b], at6 B (q + w))"
    unfolding bc6h_texel_def prod.case set Option.bind.bind_lunit Let_def
      w_def[symmetric] weights_def[symmetric] read_at6[OF assms(1) w(1,2)] rgb channel.case
    by (rule refl)
  moreover have "finite_halves (Suc n) (out @ [r, g, b])"
    using out le by (simp add: finite_halves_def)
  ultimately show ?thesis by blast
qed

lemma texels_at6:
  assumes "B < 2 ^ 128" and p: "p < 32"
    and v: "\<And>c i. i < (if mode \<ge> 10 then 2 else 4) \<Longrightarrow> 0 \<le> v (c, i) \<and> v (c, i) \<le> 0xFFFF"
  shows "n \<le> 16 \<Longrightarrow> \<exists>out q'. foldM (bc6h_texel mode False p v) [0..<n] ([], at6 B q) = Some (out, at6 B q')
           \<and> finite_halves n out"
proof (induction n)
  case 0
  then show ?case by (auto simp: finite_halves_def)
next
  case (Suc n)
  then obtain out q' where "foldM (bc6h_texel mode False p v) [0..<n] ([], at6 B q) = Some (out, at6 B q')"
    "finite_halves n out" by auto
  moreover have "n < 16" using Suc.prems by simp
  then obtain out' q'' where "bc6h_texel mode False p v n (out, at6 B q') = Some (out', at6 B q'')"
    "finite_halves (Suc n) out'"
    using texel_at6[where mode = mode and v = v and q = q', OF assms(1) _ p v \<open>finite_halves n out\<close>] by blast
  ultimately show ?case by (auto simp: foldM_append)
qed

lemma bc6h_block_words:
  assumes "length blk = 16"
  shows "\<exists>lo hi. read_at blk 0 8 = Some lo \<and> read_at blk 8 8 = Some hi
    \<and> \<lparr>b6_low = word_of_nat (le_nat lo), b6_high = word_of_nat (le_nat hi)\<rparr> = at6 (le_nat blk) 0"
proof -
  let ?lo = "take 8 blk" let ?hi = "drop 8 blk"
  have B: "le_nat blk = le_nat ?lo + 2 ^ 64 * le_nat ?hi"
    using le_nat_append[of ?lo ?hi] assms by simp
  have lo: "le_nat ?lo < 2 ^ 64"
    using le_nat_bound[of ?lo] assms by simp
  have "(word_of_nat (le_nat blk) :: qword) = word_of_nat (le_nat ?lo)"
    unfolding B word_of_nat_eq_iff take_bit_eq_mod using lo by simp
  moreover have "drop_bit 64 (le_nat blk) = le_nat ?hi" unfolding B drop_bit_eq_div using lo by simp
  ultimately show ?thesis
    using assms by (auto simp: read_at_def at6_def)
qed

lemma bc6h_block_halves:
  assumes "length blk = 16"
  shows "\<exists>hs. bc6h_decode_block_half blk False = Some hs \<and> length hs = 48 \<and> (\<forall>h \<in> set hs. unat h \<le> 0x7BFF)"
proof -
  let ?B = "le_nat blk"
  have B: "?B < 2 ^ 128" using le_nat_bound[of blk] assms by simp
  obtain lo hi where rd: "read_at blk 0 8 = Some lo" "read_at blk 8 8 = Some hi"
    and bits: "\<lparr>b6_low = word_of_nat (le_nat lo), b6_high = word_of_nat (le_nat hi)\<rparr> = at6 ?B 0"
    using bc6h_block_words[OF assms] by blast
  define m2 where "m2 = fld ?B 0 2"
  have r2: "bc6h_read_bits 2 (at6 ?B 0) = Some (int m2, at6 ?B 2)"
    using read_at6[OF B, of 2 0] unfolding m2_def by (simp add: numeral_2_eq_2)
  obtain code q where code: "(if int m2 > 1 then do { (m3, bs) \<leftarrow> bc6h_read_bits 3 (at6 ?B 2);
      Some (int m2 OR push_bit 2 m3, bs) } else Some (int m2, at6 ?B 2)) = Some (code, at6 ?B q)"
    using read_at6[OF B, of 3 2] by (cases "int m2 > 1") auto
  show ?thesis
  proof (cases "bc6h_layout (nat code)")
    case None
    have "bc6h_decode_block_half blk False = Some (replicate 48 0)"
      unfolding bc6h_decode_block_half_def rd bits Option.bind.bind_lunit r2 prod.case code None option.case ..
    then show ?thesis by simp
  next
    case (Some l)
    obtain mode fs part where l: "l = (mode, fs, part)" by (cases l) auto
    have ok: "layout_ok (nat code) mode fs part"
      using bc6h_layout_ok Some l by simp
    then have mode: "mode < 14" by (simp add: layout_ok_def)
    have "within (mode_width mode) (\<lambda>_. 0)" by (simp add: within_def)
    from read_fields_at6[OF B layout_fields_ok[OF ok] this] obtain v q1 where
      v: "foldM bc6h_read_field fs (\<lambda>_. 0, at6 ?B q) = Some (v, at6 ?B q1)" and w: "within (mode_width mode) v"
      by blast
    obtain p q2 where p: "(if part then bc6h_read_bits 5 (at6 ?B q1) else Some (0, at6 ?B q1)) = Some (p, at6 ?B q2)"
      and p32: "nat p < 32"
    proof (cases part)
      case True
      then show ?thesis
        using that[of "int (fld ?B q1 5)" "q1 + 5"] read_at6[OF B, of 5 q1] fld_less[of ?B q1 5] by simp
    qed (use that[of 0 q1] in simp)
    from texels_at6[where mode = mode and v = "bc6h_endpoints mode False v" and n = 16 and q = q2,
        OF B p32 endpoints_bound[OF mode w]] obtain out q3 where
      out: "foldM (bc6h_texel mode False (nat p) (bc6h_endpoints mode False v)) [0..<16] ([], at6 ?B q2) = Some (out, at6 ?B q3)"
      and fin: "finite_halves 16 out" by auto
    have "bc6h_decode_block_half blk False = Some out"
      unfolding bc6h_decode_block_half_def rd bits Option.bind.bind_lunit r2 prod.case code Some l option.case v p out ..
    then show ?thesis using fin by (simp add: finite_halves_def list_all_iff)
  qed
qed

text \<open>
  Every 16-byte block decodes, reserved modes included, to sixteen texels of three finite
  non-negative half-floats: no infinity, no NaN, no sign bit, and no read outside a table.
\<close>

lemma bc6h_unsigned_halves_finite:
  assumes "length blk = 16"
  shows "\<exists>hs. bc6h_decode_block_half blk False = Some hs \<and> length hs = 48 \<and> (\<forall>h \<in> set hs. unat h \<le> 0x7BFF)"
  by (rule bc6h_block_halves[OF assms])

end
