(* ===== verification/BcHalf.thy ===== *)
theory BcHalf
  imports Bc6hFacts
begin

text \<open>
  The conversion of BC6H half-floats to eight bits in \<open>gpu/texture/bc_decode.cpp\<close>. Binary32
  numbers are their bit patterns; \<open>f32_value\<close> reads a finite magnitude in units of the smallest
  subnormal, \<open>2^-149\<close>, so sums, differences and products with integers are exact naturals, and
  \<open>round_f32\<close> is IEEE 754 rounding to nearest, ties to even. The properties show that no step
  rounds: the byte is the exact half-float value times 255, rounded half up once.
\<close>

subsection \<open>Binary32 arithmetic\<close>

fun bit_length :: "nat \<Rightarrow> nat" where
  "bit_length n = (if n = 0 then 0 else Suc (bit_length (n div 2)))"

declare bit_length.simps [simp del]

definition round_f32 :: "nat \<Rightarrow> nat" where
  "round_f32 n =
     (let k = bit_length n - 24; q = n div 2 ^ k; r = n mod 2 ^ k
      in if 2 ^ k < 2 * r \<or> 2 * r = 2 ^ k \<and> odd q then (q + 1) * 2 ^ k else q * 2 ^ k)"

definition f32_value :: "nat \<Rightarrow> nat" where
  "f32_value b =
     (let e = b div 2 ^ 23 mod 2 ^ 8; m = b mod 2 ^ 23
      in if e = 0 then m else (2 ^ 23 + m) * 2 ^ (e - 1))"

definition f32_bits :: "nat \<Rightarrow> nat" where
  "f32_bits n =
     (if n < 2 ^ 23 then n
      else let k = bit_length n - 24 in (k + 1) * 2 ^ 23 + (n div 2 ^ k - 2 ^ 23))"

text \<open>The difference of two non-negative numbers, the first the larger.\<close>

definition f32_sub :: "nat \<Rightarrow> nat \<Rightarrow> nat" where
  "f32_sub a b = f32_bits (round_f32 (f32_value a - f32_value b))"

subsection \<open>The code\<close>

definition bc6h_half_to_float_quick :: "16 word \<Rightarrow> nat" where
  "bc6h_half_to_float_quick half =
     (let shifted_exp = push_bit 13 0x7c00; magic = push_bit 23 113;
          bits0 = push_bit 13 (unat half AND 0x7fff);
          exp = shifted_exp AND bits0;
          bits1 = bits0 + push_bit 23 (127 - 15);
          bits2 = (if exp = shifted_exp then bits1 + push_bit 23 (128 - 16)
                   else if exp = 0 then f32_sub (bits1 + push_bit 23 1) magic
                   else bits1)
      in bits2 OR push_bit 16 (unat half AND 0x8000))"

text \<open>\<open>(f != f || f <= 0.f) ? 0 : (f >= 1.f ? 255 : (uint8_t)(f * 255.f + 0.5f))\<close>\<close>

definition f32_to_unorm8 :: "nat \<Rightarrow> byte" where
  "f32_to_unorm8 f =
     (let sign = 2 ^ 31 \<le> f; mag = f mod 2 ^ 31; nan = 255 * 2 ^ 23 < mag
      in if nan \<or> sign \<or> mag = 0 then 0
         else if 2 ^ 149 \<le> f32_value mag then 255
         else word_of_nat (round_f32 (round_f32 (f32_value mag * 255) + 2 ^ 148) div 2 ^ 149))"

definition decode_bc6h_block :: "byte list \<Rightarrow> byte list list option" where
  "decode_bc6h_block blk =
     map_option (\<lambda>halfs. map (\<lambda>t. map (\<lambda>c. f32_to_unorm8 (bc6h_half_to_float_quick (halfs ! (t * 3 + c)))) [0..<3] @ [255])
         [0..<16]) (bc6h_decode_block_half blk False)"

subsection \<open>Exact results are not rounded\<close>

lemma bit_length_bounds: "0 < n \<Longrightarrow> 2 ^ (bit_length n - 1) \<le> n \<and> n < 2 ^ bit_length n \<and> 0 < bit_length n"
proof (induction n rule: bit_length.induct)
  case (1 n)
  show ?case
  proof (cases "n div 2 = 0")
    case True
    then have "n = 1" using 1(2) by (cases n) auto
    then show ?thesis by (simp add: bit_length.simps)
  next
    case False
    then have IH: "2 ^ (bit_length (n div 2) - 1) \<le> n div 2" "n div 2 < 2 ^ bit_length (n div 2)"
      "0 < bit_length (n div 2)" using 1 by auto
    have b: "bit_length n = Suc (bit_length (n div 2))" using 1(2) by (subst bit_length.simps) simp
    have "2 * 2 ^ (bit_length (n div 2) - 1) = (2 :: nat) ^ bit_length (n div 2)"
      using IH(3) by (cases "bit_length (n div 2)") simp_all
    moreover have "2 * (n div 2) \<le> n" "n < 2 * (n div 2) + 2" by simp_all
    moreover have "(2 :: nat) ^ Suc (bit_length (n div 2)) = 2 * 2 ^ bit_length (n div 2)" by simp
    ultimately show ?thesis using IH unfolding b diff_Suc_1 by linarith
  qed
qed

lemma bit_length_le: "n < 2 ^ k \<Longrightarrow> bit_length n \<le> k"
proof (rule ccontr)
  assume n: "n < 2 ^ k" and "\<not> bit_length n \<le> k"
  then have k: "k \<le> bit_length n - 1" "0 < n" by (auto simp: bit_length.simps intro: gr0I)
  then have "2 ^ k \<le> n"
    using bit_length_bounds[OF k(2)] power_increasing[OF k(1), of "2 :: nat"] by linarith
  with n show False by simp
qed

text \<open>A number with at most 24 significant bits keeps its value.\<close>

lemma representable_dvd:
  assumes "q < 2 ^ 24"
  shows "2 ^ (bit_length (q * 2 ^ j) - 24) dvd q * 2 ^ j"
proof -
  have "q * 2 ^ j < 2 ^ (24 + j)" using assms by (simp add: power_add)
  then have "bit_length (q * 2 ^ j) - 24 \<le> j" using bit_length_le by fastforce
  then show ?thesis by (intro dvd_mult le_imp_power_dvd)
qed

lemma round_f32_exact: "q < 2 ^ 24 \<Longrightarrow> round_f32 (q * 2 ^ j) = q * 2 ^ j"
proof -
  assume "q < 2 ^ 24"
  from representable_dvd[OF this, of j] show ?thesis
    unfolding round_f32_def Let_def by (simp add: mod_eq_0_iff_dvd)
qed

lemma f32_bits_exact:
  assumes q: "q < 2 ^ 24" and n: "n = q * 2 ^ j" "n < 2 ^ 277"
  shows "f32_value (f32_bits n) = n \<and> f32_bits n < 255 * 2 ^ 23"
proof (cases "n < 2 ^ 23")
  case True
  then show ?thesis by (simp add: f32_value_def f32_bits_def)
next
  case False
  define k where "k = bit_length n - 24"
  have "0 < n" using False by (auto intro: gr0I)
  note b = bit_length_bounds[OF this]
  have "24 \<le> bit_length n"
  proof (rule ccontr)
    assume "\<not> 24 \<le> bit_length n"
    then have "(2 :: nat) ^ bit_length n \<le> 2 ^ 23" by (intro power_increasing) auto
    with b False show False by linarith
  qed
  then have bl: "bit_length n = k + 24" by (simp add: k_def)
  have k: "k \<le> 253" using bit_length_le[OF n(2)] bl by simp
  define h where "h = n div 2 ^ k"
  have nh: "n = h * 2 ^ k" using representable_dvd[OF q, of j] by (simp add: h_def k_def n(1))
  have e: "bit_length n - 1 = 23 + k" and e': "bit_length n = 24 + k" using bl by simp_all
  have "2 ^ 23 * 2 ^ k \<le> h * 2 ^ k" using b unfolding e nh[symmetric] by (simp only: power_add)
  then have h1: "2 ^ 23 \<le> h" by (rule mult_right_le_imp_le) simp
  have "h * 2 ^ k < 2 ^ 24 * 2 ^ k" using b unfolding e' nh[symmetric] by (simp only: power_add)
  then have h2: "h < 2 ^ 24" by (rule mult_right_less_imp_less) simp
  have bits: "f32_bits n = (k + 1) * 2 ^ 23 + (h - 2 ^ 23)"
    using False by (simp add: f32_bits_def k_def h_def Let_def)
  have d: "f32_bits n div 2 ^ 23 = k + 1" "f32_bits n mod 2 ^ 23 = h - 2 ^ 23"
    unfolding bits using h1 h2 by (simp_all add: le_mod_geq)
  have "f32_value (f32_bits n) = (2 ^ 23 + (h - 2 ^ 23)) * 2 ^ k"
    unfolding f32_value_def d Let_def using k by simp
  also have "\<dots> = n" using h1 nh by simp
  finally show ?thesis using k h1 h2 unfolding bits by simp
qed

subsection \<open>The half-float\<close>

text \<open>The value of the half-float bit pattern without its sign, in units of \<open>2^-149\<close>.\<close>

definition half_value :: "nat \<Rightarrow> nat" where
  "half_value h =
     (let e = h div 2 ^ 10; m = h mod 2 ^ 10
      in if e = 0 then m * 2 ^ 125 else (2 ^ 10 + m) * 2 ^ (e + 124))"

lemma div_mod_add: "x < c \<Longrightarrow> (k * c + x) div c = k" "x < c \<Longrightarrow> (k * c + x) mod c = x" for x :: nat
  by simp_all

lemma and_push_mask: "push_bit a (mask k) AND x = push_bit a (take_bit k (drop_bit a x))" for x :: nat
  by (rule bit_eqI) (auto simp: bit_and_iff bit_push_bit_iff bit_mask_iff bit_take_bit_iff bit_drop_bit_eq)

lemma and_shifted_exp:
  assumes "x < 2 ^ 28"
  shows "push_bit 13 (0x7c00 :: nat) AND x = x div 2 ^ 23 * 2 ^ 23"
proof -
  have "push_bit 13 (0x7c00 :: nat) = push_bit 23 (mask 5 :: nat)"
    by (simp add: push_bit_eq_mult mask_eq_exp_minus_1)
  then have "push_bit 13 (0x7c00 :: nat) AND x = push_bit 23 (take_bit 5 (drop_bit 23 x))"
    by (simp only: and_push_mask)
  moreover have "take_bit 5 (drop_bit 23 x) = drop_bit 23 x"
    using assms by (intro take_bit_nat_eq_self) (simp add: drop_bit_eq_div less_mult_imp_div_less)
  ultimately show ?thesis by (simp add: push_bit_eq_mult drop_bit_eq_div)
qed

lemma half_bits0:
  fixes half :: "16 word"
  defines "h \<equiv> unat half mod 2 ^ 15"
  shows "push_bit 13 (unat half AND 0x7fff) = h div 2 ^ 10 * 2 ^ 23 + h mod 2 ^ 10 * 2 ^ 13"
    and "push_bit 16 (unat half AND 0x8000) = (if 2 ^ 15 \<le> unat half then 2 ^ 31 else 0)"
proof -
  have "(0x7fff :: nat) = mask 15" by (simp add: mask_eq_exp_minus_1)
  then have "unat half AND 0x7fff = h"
    by (simp only: take_bit_eq_mask[symmetric] h_def take_bit_eq_mod)
  moreover define a r where "a = h div 2 ^ 10" and "r = h mod 2 ^ 10"
  then have "h = a * 2 ^ 10 + r" by simp
  then have "h * 2 ^ 13 = a * 2 ^ 23 + r * 2 ^ 13" by simp
  ultimately show "push_bit 13 (unat half AND 0x7fff) = h div 2 ^ 10 * 2 ^ 23 + h mod 2 ^ 10 * 2 ^ 13"
    unfolding push_bit_eq_mult a_def r_def by simp
  have "unat half < 2 ^ 16" using unsigned_less[of half] by simp
  then have d: "unat half div 2 ^ 15 < 2" by (intro less_mult_imp_div_less) simp
  have "(0x8000 :: nat) = push_bit 15 (mask 1)" by (simp add: push_bit_eq_mult mask_eq_exp_minus_1)
  then have "unat half AND 0x8000 = push_bit 15 (take_bit 1 (drop_bit 15 (unat half)))"
    by (simp only: and.commute[of "unat half"] and_push_mask)
  also have "\<dots> = unat half div 2 ^ 15 * 2 ^ 15"
    using d by (simp add: push_bit_eq_mult take_bit_eq_mod drop_bit_eq_div)
  finally show "push_bit 16 (unat half AND 0x8000) = (if 2 ^ 15 \<le> unat half then 2 ^ 31 else 0)"
    using d by (cases "2 ^ 15 \<le> unat half") (simp_all add: push_bit_eq_mult le_div_geq)
qed

lemma half_magnitude:
  fixes half :: "16 word"
  defines "h \<equiv> unat half mod 2 ^ 15"
  assumes fin: "h < 0x7c00"
  shows "\<exists>b. bc6h_half_to_float_quick half = b + (if 2 ^ 15 \<le> unat half then 2 ^ 31 else 0)
    \<and> b < 255 * 2 ^ 23 \<and> f32_value b = half_value h"
proof -
  define e where "e = h div 2 ^ 10" define m where "m = h mod 2 ^ 10"
  have e: "e < 31" using fin by (simp add: e_def less_mult_imp_div_less)
  have m: "m < 2 ^ 10" by (simp add: m_def)
  let ?bits0 = "push_bit 13 (unat half AND 0x7fff)"
  have b0: "?bits0 = e * 2 ^ 23 + m * 2 ^ 13"
    using half_bits0(1)[of half] by (simp only: e_def m_def h_def)
  have "e * 2 ^ 23 \<le> 30 * 2 ^ 23" using e by (intro mult_le_mono1) simp
  moreover have m13: "m * 2 ^ 13 < 2 ^ 23" using m by simp
  ultimately have b0l: "?bits0 < 2 ^ 28" unfolding b0 by simp
  have exp: "push_bit 13 0x7c00 AND ?bits0 = e * 2 ^ 23"
    unfolding and_shifted_exp[OF b0l] unfolding b0 using m13 by simp
  have ne: "e * 2 ^ 23 \<noteq> push_bit 13 (0x7c00 :: nat)" using e by (simp add: push_bit_eq_mult)
  define b where "b = (if e = 0 then f32_sub (?bits0 + push_bit 23 (127 - 15) + push_bit 23 1) (push_bit 23 113)
                       else ?bits0 + push_bit 23 (127 - 15))"
  have val: "f32_value b = half_value h \<and> b < 255 * 2 ^ 23"
  proof (cases "e = 0")
    case True
    have v1: "f32_value (?bits0 + push_bit 23 (127 - 15) + push_bit 23 1) = (2 ^ 23 + m * 2 ^ 13) * 2 ^ 112"
    proof -
      have "?bits0 + push_bit 23 (127 - 15) + push_bit 23 1 = 113 * 2 ^ 23 + m * 2 ^ 13"
        unfolding b0 using True by (simp add: push_bit_eq_mult)
      moreover note div_mod_add[OF m13, of 113]
      ultimately show ?thesis unfolding f32_value_def Let_def by simp
    qed
    have v2: "f32_value (push_bit 23 113) = 2 ^ 23 * 2 ^ 112"
      by (simp add: f32_value_def push_bit_eq_mult)
    have d: "(2 ^ 23 + m * 2 ^ 13) * 2 ^ 112 - 2 ^ 23 * 2 ^ 112 = m * 2 ^ 125"
      by (simp add: algebra_simps)
    have q: "m < 2 ^ 24" using m by simp
    have "m * 2 ^ 125 < 2 ^ 10 * 2 ^ 125" using m by (intro mult_strict_right_mono) simp_all
    also have "(2 :: nat) ^ 10 * 2 ^ 125 = 2 ^ 135" by (simp only: power_add[symmetric]) simp
    also have "(2 :: nat) ^ 135 \<le> 2 ^ 277" by (rule power_increasing) simp_all
    finally have "m * 2 ^ 125 < 2 ^ 277" .
    then show ?thesis
      using f32_bits_exact[OF q refl, of 125] True
      by (simp only: b_def if_True f32_sub_def v1 v2 d round_f32_exact[OF q] half_value_def Let_def e_def[symmetric] m_def[symmetric]
          simp_thms)
  next
    case False
    have b: "b = (e + 112) * 2 ^ 23 + m * 2 ^ 13"
      unfolding b_def b0 using False by (simp add: push_bit_eq_mult)
    have "b div 2 ^ 23 = e + 112" "b mod 2 ^ 23 = m * 2 ^ 13"
      unfolding b by (rule div_mod_add[OF m13])+
    then have "f32_value b = (2 ^ 23 + m * 2 ^ 13) * 2 ^ (e + 111)"
      using e by (simp add: f32_value_def)
    also have "\<dots> = (2 ^ 10 + m) * 2 ^ (e + 124)"
      by (simp add: power_add algebra_simps)
    finally have "f32_value b = half_value h"
      using False by (simp add: half_value_def e_def m_def)
    moreover have "b < 255 * 2 ^ 23" unfolding b using e m13 by simp
    ultimately show ?thesis by simp
  qed
  have or: "b OR (if 2 ^ 15 \<le> unat half then 2 ^ 31 else 0) = b + (if 2 ^ 15 \<le> unat half then 2 ^ 31 else 0)"
    using or_push_bit_eq_add[of b 31 1] val by (simp add: push_bit_eq_mult)
  have "bc6h_half_to_float_quick half = b OR (if 2 ^ 15 \<le> unat half then 2 ^ 31 else 0)"
    unfolding bc6h_half_to_float_quick_def Let_def exp half_bits0(2) b_def using ne by simp
  then show ?thesis using val unfolding or by blast
qed

text \<open>
  C17: the float conversion is exact on every finite half-float, denormals included: the
  magnitude bits hold the half's value, and the sign bit is carried over.
\<close>

theorem half_to_float_exact:
  assumes "unat half mod 2 ^ 15 < 0x7c00"
  shows "f32_value (bc6h_half_to_float_quick half mod 2 ^ 31) = half_value (unat half mod 2 ^ 15)
    \<and> (2 ^ 31 \<le> bc6h_half_to_float_quick half \<longleftrightarrow> 2 ^ 15 \<le> unat half)"
proof -
  from half_magnitude[OF assms] obtain b where
    b: "bc6h_half_to_float_quick half = b + (if 2 ^ 15 \<le> unat half then 2 ^ 31 else 0)"
    and lt: "b < 255 * 2 ^ 23" and v: "f32_value b = half_value (unat half mod 2 ^ 15)" by blast
  have b31: "b < 2 ^ 31" using lt by simp
  then have "bc6h_half_to_float_quick half mod 2 ^ 31 = b" unfolding b by simp
  with v b b31 show ?thesis by simp
qed

theorem half_to_float_exact_witness:
  "f32_value (bc6h_half_to_float_quick 0xBC01 mod 2 ^ 31) = half_value (0xBC01 mod 2 ^ 15)"
  using half_to_float_exact[where half = "0xBC01"] by simp

text \<open>
  C18: the byte of a channel is the exact value, clamped to 1, times 255 and rounded half up:
  the two binary32 operations on the way never round.
\<close>

theorem bc6h_channel_exact:
  assumes "unat half \<le> 0x7BFF"
  shows "unat (f32_to_unorm8 (bc6h_half_to_float_quick half))
    = (2 * 255 * min (half_value (unat half)) (2 ^ 149) + 2 ^ 149) div 2 ^ 150"
proof -
  let ?h = "unat half" let ?v = "half_value ?h" let ?f = "bc6h_half_to_float_quick half"
  have h: "?h mod 2 ^ 15 = ?h" "?h mod 2 ^ 15 < 0x7c00" using assms by simp_all
  have lt: "?f < 255 * 2 ^ 23" and fv: "f32_value ?f = ?v" and ns: "\<not> 2 ^ 31 \<le> ?f"
    using half_magnitude[OF h(2)] assms unfolding h(1) by auto
  have m: "?f mod 2 ^ 31 = ?f" using ns by simp
  have z: "f32_value 0 = 0" by (simp add: f32_value_def)
  define e where "e = ?h div 2 ^ 10"
  obtain q j where q: "q < 2 ^ 11" and j: "125 \<le> j" and v: "?v = q * 2 ^ j"
  proof (cases "e = 0")
    case True
    show thesis by (rule that[of "?h mod 2 ^ 10" 125]) (use True in \<open>simp_all add: half_value_def e_def less_imp_le\<close>)
  next
    case False
    then have "?v = (2 ^ 10 + ?h mod 2 ^ 10) * 2 ^ (e + 124)" by (simp add: half_value_def e_def Let_def)
    then show thesis by (rule that[rotated 2]) (use False in simp_all)
  qed
  show ?thesis
  proof (cases "2 ^ 149 \<le> ?v")
    case True
    then have "?f \<noteq> 0" using fv z by (intro notI) simp
    with True lt ns have "f32_to_unorm8 ?f = 255"
      unfolding f32_to_unorm8_def Let_def m fv by simp
    moreover have "(2 * 255 * 2 ^ 149 + 2 ^ 149) div 2 ^ 150 = (255 :: nat)" by simp
    ultimately show ?thesis using True by (simp add: min_def)
  next
    case False
    have j2: "q = 0 \<or> j < 149"
    proof (rule ccontr)
      assume "\<not> (q = 0 \<or> j < 149)"
      then have "149 \<le> j" "1 \<le> q" by auto
      then have "2 ^ 149 \<le> (2 :: nat) ^ j" "1 \<le> q" by (auto intro: power_increasing simp del: power_numeral)
      then have "1 * 2 ^ 149 \<le> q * 2 ^ j" by (rule mult_le_mono[rotated])
      with False v show False by simp
    qed
    define r where "r = round_f32 (round_f32 (?v * 255) + 2 ^ 148)"
    have r: "r = ?v * 255 + 2 ^ 148"
    proof -
      have "?v * 255 = (q * 255) * 2 ^ j" by (simp add: v)
      moreover have q255: "q * 255 < 2 ^ 24" using q by simp
      ultimately have r1: "round_f32 (?v * 255) = ?v * 255" by (simp only: round_f32_exact)
      show ?thesis
      proof (cases "q = 0")
        case True
        then show ?thesis unfolding r_def r1 using round_f32_exact[of 1 148] v by simp
      next
        case q0: False
        with j2 have j3: "j \<le> 148" by simp
        have "?v * 255 + 2 ^ 148 = (q * 255 + 2 ^ (148 - j)) * 2 ^ j"
          using j3 by (simp add: v algebra_simps flip: power_add)
        moreover have "(2 :: nat) ^ (148 - j) \<le> 2 ^ 23" using j by (intro power_increasing) simp_all
        then have "q * 255 + 2 ^ (148 - j) < 2 ^ 24" using q by simp
        ultimately show ?thesis unfolding r_def r1 by (simp only: round_f32_exact)
      qed
    qed
    have rd: "r div 2 ^ 149 = (2 * 255 * ?v + 2 ^ 149) div 2 ^ 150"
    proof -
      have "(2 * (?v * 255 + 2 ^ 148)) div (2 * 2 ^ 149) = (?v * 255 + 2 ^ 148) div 2 ^ 149"
        by (rule div_mult_mult1) simp
      then show ?thesis unfolding r by (simp add: algebra_simps)
    qed
    have "r < 256 * 2 ^ 149" unfolding r using False by simp
    then have r255: "r div 2 ^ 149 < 256" by (rule less_mult_imp_div_less)
    have "unat (f32_to_unorm8 ?f) = r div 2 ^ 149"
    proof (cases "?f = 0")
      case True
      then have "?v = 0" using fv z by simp
      then show ?thesis using True by (simp add: r f32_to_unorm8_def)
    next
      case f0: False
      then have "f32_to_unorm8 ?f = word_of_nat (r div 2 ^ 149)"
        using lt ns False unfolding f32_to_unorm8_def Let_def m fv r_def by simp
      then show ?thesis using r255 by (simp add: unat_of_nat)
    qed
    then show ?thesis unfolding rd using False by (simp add: min_def)
  qed
qed

theorem bc6h_channel_exact_witness:
  "unat (f32_to_unorm8 (bc6h_half_to_float_quick 0x3801))
    = (2 * 255 * min (half_value 0x3801) (2 ^ 149) + 2 ^ 149) div 2 ^ 150"
  using bc6h_channel_exact[where half = "0x3801"] by simp

end
