(* ===== verification/BcSurface.thy ===== *)
theory BcSurface
  imports Bc7Layout BcHalf
begin

text \<open>
  Block-compressed surfaces (\<open>gpu/texture/bc_decode.cpp\<close>): the BC1 to BC5 block decoders and
  \<open>bc_decode_surface\<close>, which decodes a grid of blocks into linear RGBA8 and crops the blocks of
  the right and lower edge. The source buffer may end early.
\<close>

subsection \<open>Formats\<close>

datatype data_format =
    Unknown | Float32 | Uint32 | Sint32 | Float16 | Unorm16 | Snorm16 | Uint16 | Sint16
  | Unorm8 | Snorm8 | Uint8 | Sint8 | Bc1 | Bc2 | Bc3 | Bc4 | Bc5 | Bc6 | Bc7
  | Float10_11_11 | Unorm2_10_10_10 | Snorm2_10_10_10 | Uint2_10_10_10 | Sint2_10_10_10
  | Uscaled8 | Sscaled8 | Uscaled16 | Sscaled16

definition bc_block_bytes :: "data_format \<Rightarrow> nat" where
  "bc_block_bytes f =
     (if f \<in> {Bc1, Bc4} then 8 else if f \<in> {Bc2, Bc3, Bc5, Bc6, Bc7} then 16 else 0)"

definition guest_texture_is_uploaded_array :: "nat \<Rightarrow> nat \<Rightarrow> data_format \<Rightarrow> bool" where
  "guest_texture_is_uploaded_array img_dim depth format \<longleftrightarrow>
     img_dim = 5 \<and> depth > 1 \<and> bc_block_bytes format \<noteq> 0"

subsection \<open>BC1 to BC5\<close>

text \<open>A conversion of a computed value to \<open>uint8_t\<close>.\<close>

abbreviation to_u8 :: "nat \<Rightarrow> byte" where
  "to_u8 n \<equiv> word_of_nat n"

definition rd16 :: "byte list \<Rightarrow> nat" where
  "rd16 p = unat (p ! 0) OR push_bit 8 (unat (p ! 1))"

definition unpack565 :: "nat \<Rightarrow> byte \<times> byte \<times> byte" where
  "unpack565 c =
     (let r5 = drop_bit 11 c AND 0x1F; g6 = drop_bit 5 c AND 0x3F; b5 = c AND 0x1F
      in (to_u8 (push_bit 3 r5 OR drop_bit 2 r5), to_u8 (push_bit 2 g6 OR drop_bit 4 g6),
          to_u8 (push_bit 3 b5 OR drop_bit 2 b5)))"

definition decode_color_block :: "byte list \<Rightarrow> bool \<Rightarrow> texel list" where
  "decode_color_block blk dxt1_alpha =
     (let c0 = rd16 blk; c1 = rd16 (drop 2 blk);
          (r0, g0, b0) = unpack565 c0; (r1, g1, b1) = unpack565 c1;
          third = (\<lambda>p q. to_u8 ((2 * unat p + unat q) div 3));
          half = (\<lambda>p q. to_u8 ((unat p + unat q) div 2));
          table = (if c0 > c1 \<or> \<not> dxt1_alpha
                   then [[r0, g0, b0, 255], [r1, g1, b1, 255],
                         [third r0 r1, third g0 g1, third b0 b1, 255],
                         [third r1 r0, third g1 g0, third b1 b0, 255]]
                   else [[r0, g0, b0, 255], [r1, g1, b1, 255],
                         [half r0 r1, half g0 g1, half b0 b1, 255], [0, 0, 0, 0]]);
          idx = le_nat (take 4 (drop 4 blk))
      in map (\<lambda>t. table ! (drop_bit (t * 2) idx AND 3)) [0..<16])"

text \<open>The eight-entry ramp of a BC3 alpha or BC4 channel block.\<close>

definition bc_ramp :: "byte \<Rightarrow> byte \<Rightarrow> byte list" where
  "bc_ramp a0 a1 =
     (if a0 > a1
      then [a0, a1] @ map (\<lambda>i. to_u8 (((7 - i) * unat a0 + i * unat a1) div 7)) [1..<7]
      else [a0, a1] @ map (\<lambda>i. to_u8 (((5 - i) * unat a0 + i * unat a1) div 5)) [1..<5] @ [0, 255])"

definition decode_bc4_channel :: "byte list \<Rightarrow> byte list" where
  "decode_bc4_channel blk =
     (let bits = le_nat (take 6 (drop 2 blk))
      in map (\<lambda>t. bc_ramp (blk ! 0) (blk ! 1) ! (drop_bit (t * 3) bits AND 7)) [0..<16])"

definition decode_bc3_alpha :: "byte list \<Rightarrow> texel list \<Rightarrow> texel list" where
  "decode_bc3_alpha blk out =
     (let bits = le_nat (take 6 (drop 2 blk))
      in map (\<lambda>t. (out ! t)[3 := bc_ramp (blk ! 0) (blk ! 1) ! (drop_bit (t * 3) bits AND 7)]) [0..<16])"

definition decode_bc2_alpha :: "byte list \<Rightarrow> texel list \<Rightarrow> texel list" where
  "decode_bc2_alpha blk out =
     map (\<lambda>t. let nib = drop_bit ((t AND 1) * 4) (unat (blk ! (t div 2))) AND 0xF
              in (out ! t)[3 := to_u8 (push_bit 4 nib OR nib)]) [0..<16]"

subsection \<open>One block\<close>

definition decode_block :: "data_format \<Rightarrow> byte list \<Rightarrow> texel list option" where
  "decode_block fmt blk =
     (if fmt = Bc1 then Some (decode_color_block blk True)
      else if fmt = Bc4
      then let v = decode_bc4_channel blk in Some (map (\<lambda>t. [v ! t, 0, 0, 255]) [0..<16])
      else if fmt = Bc5
      then let r = decode_bc4_channel blk; g = decode_bc4_channel (drop 8 blk)
           in Some (map (\<lambda>t. [r ! t, g ! t, 0, 255]) [0..<16])
      else if fmt = Bc7 then decode_bc7_block blk
      else if fmt = Bc6 then decode_bc6h_block blk
      else let texels = decode_color_block (drop 8 blk) False
           in Some (if fmt = Bc3 then decode_bc3_alpha blk texels else decode_bc2_alpha blk texels))"

subsection \<open>The surface\<close>

text \<open>The crop loops of one block: a row or column outside the surface ends its loop.\<close>

definition store_block :: "nat \<Rightarrow> nat \<Rightarrow> nat \<Rightarrow> nat \<Rightarrow> texel list \<Rightarrow> byte list \<Rightarrow> byte list option" where
  "store_block width height bx by' texels =
     foldM (\<lambda>ty. foldM (\<lambda>tx d. write_at d (u64 (u64 (u32 (by' * 4 + ty) * width + u32 (bx * 4 + tx)) * 4))
                                     (texels ! (ty * 4 + tx)))
                       (takeWhile (\<lambda>tx. u32 (bx * 4 + tx) < width) [0..<4]))
           (takeWhile (\<lambda>ty. u32 (by' * 4 + ty) < height) [0..<4])"

definition bc_decode_surface ::
    "byte list \<Rightarrow> byte list \<Rightarrow> nat \<Rightarrow> nat \<Rightarrow> nat \<Rightarrow> data_format \<Rightarrow> (bool \<times> byte list) option" where
  "bc_decode_surface dst src src_bytes width height fmt =
     (let bb = bc_block_bytes fmt in
      if fmt \<notin> {Bc1, Bc2, Bc3, Bc4, Bc5, Bc6, Bc7} then Some (False, dst)
      else let bw = u32 (width + 3) div 4; bh = u32 (height + 3) div 4 in
        do { d \<leftarrow> write_at dst 0 (replicate (u64 (width * height * 4)) 0);
             d \<leftarrow> foldM (\<lambda>by'. foldM (\<lambda>bx d.
                    let boff = u64 (u64 (by' * bw + bx) * bb) in
                    if u64 (boff + bb) > src_bytes then Some d
                    else do { blk \<leftarrow> read_at src boff bb;
                              texels \<leftarrow> decode_block fmt blk;
                              store_block width height bx by' texels d })
                  [0..<bw]) [0..<bh] d;
             Some (True, d) })"

subsection \<open>Blocks\<close>

definition texel_grid :: "texel list \<Rightarrow> bool" where
  "texel_grid ts \<longleftrightarrow> length ts = 16 \<and> list_all (\<lambda>t. length t = 4) ts"

lemma texel_grid_map: "(\<And>t. length (f t) = 4) \<Longrightarrow> texel_grid (map f [0..<16])"
  by (simp add: texel_grid_def list_all_iff)

lemma texel_grid_nth: "texel_grid ts \<Longrightarrow> i < 16 \<Longrightarrow> length (ts ! i) = 4"
  by (simp add: texel_grid_def list_all_length)

lemma and_3_less: "x AND 3 < (4 :: nat)"
proof -
  have "x AND 3 = take_bit 2 x" by (simp add: take_bit_eq_mask mask_eq_exp_minus_1)
  then show ?thesis by (simp add: take_bit_eq_mod)
qed

lemma decode_color_block_grid: "texel_grid (decode_color_block blk a)"
proof -
  have "\<forall>row \<in> set table. length row = 4 \<Longrightarrow> length table = 4 \<Longrightarrow> length (table ! (x AND 3)) = 4" for table :: "texel list" and x
    using and_3_less[of x] by simp
  then show ?thesis
    by (auto simp: decode_color_block_def Let_def texel_grid_def list_all_iff split: prod.split)
qed

text \<open>Every block of the format's size decodes to sixteen RGBA texels.\<close>

lemma decode_block_total:
  assumes "length blk = bc_block_bytes fmt" and "bc_block_bytes fmt \<noteq> 0"
  shows "\<exists>ts. decode_block fmt blk = Some ts \<and> texel_grid ts"
proof -
  consider "fmt = Bc7" | "fmt = Bc6" | "fmt \<noteq> Bc7" "fmt \<noteq> Bc6" by blast
  then show ?thesis
  proof cases
    case 1
    then have len: "length blk = 16" using assms by (simp add: bc_block_bytes_def)
    let ?B = "le_nat blk"
    show ?thesis
    proof (cases "hd blk = 0")
      case True
      from bc7_block_words[OF len] have "decode_bc7_block blk = Some (replicate 16 [0, 0, 0, 0])"
        using bc7_reserved_block[OF len True] by simp
      with 1 show ?thesis by (simp add: decode_block_def texel_grid_def list_all_iff)
    next
      case False
      from bc7_valid_mode[OF len False] obtain m where "m < 8" "fld ?B 0 (m + 1) = 2 ^ m" by blast
      from bc7_block_layout[OF len this] have "decode_bc7_block blk = Some (map (bptc_texel m ?B) [0..<16])" .
      moreover have "texel_grid (map (bptc_texel m ?B) [0..<16])"
        by (rule texel_grid_map) (simp only: bptc_texel_def Let_def length_list_update if_distrib[of length]
            list.size, simp)
      ultimately show ?thesis using 1 by (simp add: decode_block_def)
    qed
  next
    case 2
    then have "length blk = 16" using assms by (simp add: bc_block_bytes_def)
    from bc6h_block_halves[OF this] 2 show ?thesis
      by (auto simp: decode_block_def decode_bc6h_block_def intro!: texel_grid_map)
  next
    case 3
    let ?c = "decode_color_block (drop 8 blk) False"
    have c: "texel_grid ?c" by (rule decode_color_block_grid)
    have "texel_grid (decode_bc3_alpha blk ?c)" "texel_grid (decode_bc2_alpha blk ?c)"
      using texel_grid_nth[OF c] unfolding decode_bc3_alpha_def decode_bc2_alpha_def Let_def
      by (simp_all add: texel_grid_def list_all_iff)
    moreover have "texel_grid (map (\<lambda>t. [f t, g t, 0, 255]) [0..<16])" for f g :: "nat \<Rightarrow> byte"
      by (rule texel_grid_map) simp
    ultimately show ?thesis
      using 3 decode_color_block_grid[of blk True]
      by (cases "fmt = Bc1"; cases "fmt = Bc4"; cases "fmt = Bc5") (simp_all only: decode_block_def Let_def
          if_True if_False simp_thms option.inject, auto)
  qed
qed

subsection \<open>Writing cells\<close>

definition cell :: "byte list \<Rightarrow> nat \<Rightarrow> byte list" where
  "cell d k = take 4 (drop (k * 4) d)"

lemma write_cell:
  assumes "length v = 4" and "(k + 1) * 4 \<le> length d"
  shows "\<exists>d'. write_at d (k * 4) v = Some d' \<and> length d' = length d
    \<and> (\<forall>k'. (k' + 1) * 4 \<le> length d \<longrightarrow> cell d' k' = (if k' = k then v else cell d k'))
    \<and> (\<forall>i. (k + 1) * 4 \<le> i \<longrightarrow> i < length d \<longrightarrow> d' ! i = d ! i)"
proof -
  obtain d' where w: "write_at d (k * 4) v = Some d'"
    using write_at_defined[of "k * 4" v d] assms by auto
  note len = write_at_length[OF w] and nth = write_at_nth[OF w]
  have "cell d' k' = (if k' = k then v else cell d k')" if k': "(k' + 1) * 4 \<le> length d" for k'
  proof (rule nth_equalityI)
    show "length (cell d' k') = length (if k' = k then v else cell d k')"
      using k' assms by (simp add: cell_def len)
    fix i
    assume "i < length (cell d' k')"
    then have i: "i < 4" by (simp add: cell_def)
    have c: "cell d' k' ! i = d' ! (k' * 4 + i)" "cell d k' ! i = d ! (k' * 4 + i)"
      using i k' by (simp_all add: cell_def len)
    have "k' * 4 + i < length d" using i k' by simp
    note n = nth[OF this]
    show "cell d' k' ! i = (if k' = k then v else cell d k') ! i"
    proof (cases "k' = k")
      case True
      then show ?thesis unfolding c n using i assms(1) by (simp add: c(1) n)
    next
      case False
      then have "\<not> (k * 4 \<le> k' * 4 + i \<and> k' * 4 + i < k * 4 + length v)"
        using i assms(1) by auto
      then have "d' ! (k' * 4 + i) = d ! (k' * 4 + i)" unfolding n by (rule if_not_P)
      then show ?thesis using False by (simp add: c)
    qed
  qed
  moreover have "d' ! i = d ! i" if "(k + 1) * 4 \<le> i" "i < length d" for i
    using nth[OF that(2)] that(1) assms(1) by simp
  ultimately show ?thesis using w len by blast
qed

text \<open>Cells written in any order, the value determined by the cell.\<close>

lemma write_cells:
  assumes "\<And>k. k \<in> set ks \<Longrightarrow> length (f k) = 4 \<and> k < n" and "n * 4 \<le> length d"
  shows "\<exists>d'. foldM (\<lambda>k d. write_at d (k * 4) (f k)) ks d = Some d' \<and> length d' = length d
    \<and> (\<forall>k < n. cell d' k = (if k \<in> set ks then f k else cell d k))
    \<and> (\<forall>i. n * 4 \<le> i \<longrightarrow> i < length d \<longrightarrow> d' ! i = d ! i)"
  using assms
proof (induction ks arbitrary: d)
  case Nil
  then show ?case by simp
next
  case (Cons k ks)
  have k: "length (f k) = 4" "k < n" using Cons.prems(1) by auto
  then have le: "(k + 1) * 4 \<le> length d" using Cons.prems(2) by simp
  obtain d1 where d1: "write_at d (k * 4) (f k) = Some d1" "length d1 = length d"
    and c1: "\<forall>k'. (k' + 1) * 4 \<le> length d \<longrightarrow> cell d1 k' = (if k' = k then f k else cell d k')"
    and r1: "\<forall>i. (k + 1) * 4 \<le> i \<longrightarrow> i < length d \<longrightarrow> d1 ! i = d ! i"
    using write_cell[OF k(1) le] by blast
  have "\<And>k. k \<in> set ks \<Longrightarrow> length (f k) = 4 \<and> k < n" using Cons.prems(1) by simp
  from Cons.IH[OF this, of d1] Cons.prems(2) d1(2) obtain d2 where
    d2: "foldM (\<lambda>k d. write_at d (k * 4) (f k)) ks d1 = Some d2" "length d2 = length d"
    and c2: "\<forall>k < n. cell d2 k = (if k \<in> set ks then f k else cell d1 k)"
    and r2: "\<forall>i. n * 4 \<le> i \<longrightarrow> i < length d \<longrightarrow> d2 ! i = d1 ! i" by auto
  have "cell d2 k' = (if k' \<in> set (k # ks) then f k' else cell d k')" if "k' < n" for k'
  proof -
    have "(k' + 1) * 4 \<le> length d" using that Cons.prems(2) by simp
    then show ?thesis using c1 c2 that by auto
  qed
  moreover have "d2 ! i = d ! i" if "n * 4 \<le> i" "i < length d" for i
  proof -
    have "(k + 1) * 4 \<le> i" using k(2) that(1) by simp
    then show ?thesis using r1 r2 that by simp
  qed
  ultimately show ?case using d1(1) d2 by auto
qed

lemma set_takeWhile_upt:
  "set (takeWhile (\<lambda>t. a + t < w) [0..<n]) = {t. t < n \<and> a + t < (w :: nat)}"
proof (induction n)
  case 0
  then show ?case by simp
next
  case (Suc n)
  show ?case
  proof (cases "\<forall>t < n. a + t < w")
    case True
    then have "takeWhile (\<lambda>t. a + t < w) ([0..<n] @ [n]) = [0..<n] @ takeWhile (\<lambda>t. a + t < w) [n]"
      by (intro takeWhile_append2) simp
    then show ?thesis using True by (auto simp: less_Suc_eq)
  next
    case False
    then obtain t where t: "t \<in> set [0..<n]" "\<not> a + t < w" by auto
    have "takeWhile (\<lambda>t. a + t < w) ([0..<n] @ [n]) = takeWhile (\<lambda>t. a + t < w) [0..<n]"
      by (rule takeWhile_append1) (use t in auto)
    moreover have "\<not> a + n < w" using t by simp
    ultimately show ?thesis using Suc by (auto simp: less_Suc_eq)
  qed
qed

subsection \<open>Pixels\<close>

text \<open>
  The pixel of the specification: from the block that covers it, transparent black if the
  source ends before the end of that block.
\<close>

definition bc_pixel :: "byte list \<Rightarrow> nat \<Rightarrow> nat \<Rightarrow> data_format \<Rightarrow> nat \<Rightarrow> nat \<Rightarrow> byte list" where
  "bc_pixel src src_bytes width fmt x y =
     (let bb = bc_block_bytes fmt; k = y div 4 * ((width + 3) div 4) + x div 4
      in if k * bb + bb > src_bytes then [0, 0, 0, 0]
         else case decode_block fmt (take bb (drop (k * bb) src)) of
           Some texels \<Rightarrow> texels ! (y mod 4 * 4 + x mod 4) | None \<Rightarrow> [])"

definition block_keys :: "nat \<Rightarrow> nat \<Rightarrow> nat \<Rightarrow> nat \<Rightarrow> nat list" where
  "block_keys width height bx by' =
     concat (map (\<lambda>ty. map (\<lambda>tx. (by' * 4 + ty) * width + (bx * 4 + tx))
         (takeWhile (\<lambda>tx. bx * 4 + tx < width) [0..<4]))
       (takeWhile (\<lambda>ty. by' * 4 + ty < height) [0..<4]))"

lemma block_keys_mem:
  "k \<in> set (block_keys width height bx by') \<longleftrightarrow>
     (\<exists>x y. k = y * width + x \<and> x < width \<and> y < height \<and> x div 4 = bx \<and> y div 4 = by')"
proof
  assume "k \<in> set (block_keys width height bx by')"
  then obtain tx ty where t: "tx < 4" "ty < 4" "bx * 4 + tx < width" "by' * 4 + ty < height"
    "k = (by' * 4 + ty) * width + (bx * 4 + tx)"
    by (auto simp: block_keys_def set_takeWhile_upt)
  then show "\<exists>x y. k = y * width + x \<and> x < width \<and> y < height \<and> x div 4 = bx \<and> y div 4 = by'"
    by (intro exI[of _ "bx * 4 + tx"] exI[of _ "by' * 4 + ty"]) simp
next
  assume "\<exists>x y. k = y * width + x \<and> x < width \<and> y < height \<and> x div 4 = bx \<and> y div 4 = by'"
  then obtain x y where k: "k = y * width + x" "x < width" "y < height" "x div 4 = bx" "y div 4 = by'" by blast
  have "bx * 4 + x mod 4 = x" "by' * 4 + y mod 4 = y" using k(4,5) by auto
  have "set (block_keys width height bx by') = (\<Union>ty \<in> {t. t < 4 \<and> by' * 4 + t < height}.
      (\<lambda>tx. (by' * 4 + ty) * width + (bx * 4 + tx)) ` {t. t < 4 \<and> bx * 4 + t < width})"
    by (simp add: block_keys_def set_takeWhile_upt)
  moreover have "y mod 4 \<in> {t. t < 4 \<and> by' * 4 + t < height}" "x mod 4 \<in> {t. t < 4 \<and> bx * 4 + t < width}"
    "k = (by' * 4 + y mod 4) * width + (bx * 4 + x mod 4)"
    using k \<open>bx * 4 + x mod 4 = x\<close> \<open>by' * 4 + y mod 4 = y\<close> by simp_all
  ultimately show "k \<in> set (block_keys width height bx by')" by blast
qed

lemma pixel_index_small: "x < width \<Longrightarrow> y < height \<Longrightarrow> y * width + x < width * height"
  for x y width height :: nat
proof -
  assume "x < width" "y < height"
  then have "y * width + x < Suc y * width" "Suc y * width \<le> height * width"
    by (simp, intro mult_le_mono1) simp
  then show ?thesis by (simp only: mult.commute less_le_trans)
qed

lemma store_block_keys:
  assumes dims: "width < 2 ^ 32 - 3" "height < 2 ^ 32 - 3" "width * height < 2 ^ 61"
    and bx: "bx * 4 < width" and by': "by' * 4 < height"
  shows "store_block width height bx by' texels d
    = foldM (\<lambda>k d. write_at d (k * 4) (texels ! (k div width mod 4 * 4 + k mod width mod 4)))
        (block_keys width height bx by') d"
proof -
  have tx: "takeWhile (\<lambda>tx. u32 (bx * 4 + tx) < width) [0..<4] = takeWhile (\<lambda>tx. bx * 4 + tx < width) [0..<4]"
    using bx dims by (intro takeWhile_cong) (auto simp: u32_id)
  have ty: "takeWhile (\<lambda>ty. u32 (by' * 4 + ty) < height) [0..<4] = takeWhile (\<lambda>ty. by' * 4 + ty < height) [0..<4]"
    using by' dims by (intro takeWhile_cong) (auto simp: u32_id)
  have step: "write_at d (u64 (u64 (u32 (by' * 4 + ty) * width + u32 (bx * 4 + tx)) * 4)) (texels ! (ty * 4 + tx))
    = (let k = (by' * 4 + ty) * width + (bx * 4 + tx)
       in write_at d (k * 4) (texels ! (k div width mod 4 * 4 + k mod width mod 4)))"
    if "tx \<in> set (takeWhile (\<lambda>tx. bx * 4 + tx < width) [0..<4])"
      "ty \<in> set (takeWhile (\<lambda>ty. by' * 4 + ty < height) [0..<4])" for tx ty d
  proof -
    have t: "tx < 4" "ty < 4" "bx * 4 + tx < width" "by' * 4 + ty < height"
      using that by (simp_all add: set_takeWhile_upt)
    then have u: "u32 (bx * 4 + tx) = bx * 4 + tx" "u32 (by' * 4 + ty) = by' * 4 + ty"
      using dims by (simp_all add: u32_id)
    have s: "(by' * 4 + ty) * width + (bx * 4 + tx) < 2 ^ 61"
      using pixel_index_small[OF t(3,4)] dims(3) by linarith
    have d: "((by' * 4 + ty) * width + (bx * 4 + tx)) div width = by' * 4 + ty"
      "((by' * 4 + ty) * width + (bx * 4 + tx)) mod width = bx * 4 + tx"
      using t(3) by simp_all
    show ?thesis unfolding u d Let_def using s t(1,2) by (simp add: u64_id)
  qed
  show ?thesis
    unfolding store_block_def tx ty block_keys_def foldM_concat foldM_map
    using step by (intro foldM_cong refl) (simp add: Let_def)
qed

lemma block_in_grid: "bx < (width + 3) div 4 \<Longrightarrow> bx * 4 < width" for bx width :: nat
  by linarith

lemma grid_small:
  assumes "width < 2 ^ 32 - 3" "height < 2 ^ 32 - 3" "width * height < 2 ^ 61"
  shows "(height + 3) div 4 * ((width + 3) div 4) * 16 < (2 :: nat) ^ 62"
proof -
  have "((height + 3) div 4 * 4) * ((width + 3) div 4 * 4) \<le> (height + 3) * (width + 3)"
    by (intro mult_le_mono) simp_all
  also have "\<dots> = width * height + 3 * height + 3 * width + 9" by (simp add: algebra_simps)
  also have "\<dots> < 2 ^ 62" using assms by simp
  finally show ?thesis by (simp add: ac_simps)
qed

lemma store_block_pixels:
  assumes dims: "width < 2 ^ 32 - 3" "height < 2 ^ 32 - 3" "width * height < 2 ^ 61"
    and fmt: "bc_block_bytes fmt \<noteq> 0" and src: "src_bytes \<le> length src"
    and b: "bx < (width + 3) div 4" "by' < (height + 3) div 4"
    and bb: "bb = bc_block_bytes fmt" and boff: "boff = (by' * ((width + 3) div 4) + bx) * bb"
    and fit: "\<not> boff + bb > src_bytes"
  shows "Option.bind (read_at src boff bb) (\<lambda>blk. Option.bind (decode_block fmt blk)
           (\<lambda>texels. store_block width height bx by' texels d))
    = foldM (\<lambda>k d. write_at d (k * 4) (bc_pixel src src_bytes width fmt (k mod width) (k div width)))
        (block_keys width height bx by') d"
proof -
  have r: "read_at src boff bb = Some (take bb (drop boff src))"
    using fit src by (simp add: read_at_def)
  have "length (take bb (drop boff src)) = bc_block_bytes fmt" using fit src bb by simp
  from decode_block_total[OF this fmt] obtain ts where
    ts: "decode_block fmt (take bb (drop boff src)) = Some ts" by blast
  have "bc_pixel src src_bytes width fmt (k mod width) (k div width) = ts ! (k div width mod 4 * 4 + k mod width mod 4)"
    if "k \<in> set (block_keys width height bx by')" for k
  proof -
    from that obtain x y where k: "k = y * width + x" "x < width" "x div 4 = bx" "y div 4 = by'"
      unfolding block_keys_mem by blast
    then have "k div width = y" "k mod width = x" by simp_all
    with k fit ts show ?thesis unfolding bc_pixel_def Let_def by (simp add: bb[symmetric] boff[symmetric])
  qed
  then show ?thesis
    unfolding r ts Option.bind.bind_lunit
      store_block_keys[OF dims block_in_grid[OF b(1)] block_in_grid[OF b(2)]]
    by (intro foldM_cong refl) simp
qed

lemma pixel_length:
  assumes "bc_block_bytes fmt \<noteq> 0" and "src_bytes \<le> length src"
  shows "length (bc_pixel src src_bytes width fmt x y) = 4"
proof -
  define bb where "bb = bc_block_bytes fmt"
  define k where "k = y div 4 * ((width + 3) div 4) + x div 4"
  show ?thesis
  proof (cases "k * bb + bb > src_bytes")
    case True
    then show ?thesis by (simp add: bc_pixel_def Let_def k_def bb_def)
  next
    case False
    then have "length (take bb (drop (k * bb) src)) = bc_block_bytes fmt" using assms(2) by (simp add: bb_def)
    from decode_block_total[OF this assms(1)] obtain ts where
      ts: "decode_block fmt (take bb (drop (k * bb) src)) = Some ts" "texel_grid ts" by blast
    have "y mod 4 * 4 + x mod 4 < 16" using mod_less_divisor[of 4 x] mod_less_divisor[of 4 y] by linarith
    from texel_grid_nth[OF ts(2) this] show ?thesis using False ts(1)
      by (simp add: bc_pixel_def Let_def k_def bb_def)
  qed
qed

text \<open>
  C15: a supported format decodes without an access outside source or destination, even when the
  source is short: every pixel of the surface is the texel of the block that covers it, and
  transparent black where the source ends before that block does; bytes behind the surface are
  unchanged.
\<close>

theorem bc_surface_pixels:
  assumes fmt: "bc_block_bytes fmt \<noteq> 0" and src: "src_bytes \<le> length src" "length src < 2 ^ 63"
    and dims: "width < 2 ^ 32 - 3" "height < 2 ^ 32 - 3" "width * height < 2 ^ 61"
    and dst: "width * height * 4 \<le> length dst"
  shows "\<exists>d. bc_decode_surface dst src src_bytes width height fmt = Some (True, d) \<and> length d = length dst
    \<and> (\<forall>x < width. \<forall>y < height. cell d (y * width + x) = bc_pixel src src_bytes width fmt x y)
    \<and> (\<forall>i. width * height * 4 \<le> i \<longrightarrow> i < length dst \<longrightarrow> d ! i = dst ! i)"
proof -
  let ?bb = "bc_block_bytes fmt" let ?bw = "(width + 3) div 4" let ?bh = "(height + 3) div 4"
  let ?n = "width * height"
  define short where "short bx by' = ((by' * ?bw + bx) * ?bb + ?bb > src_bytes)" for bx by'
  define f where "f k = bc_pixel src src_bytes width fmt (k mod width) (k div width)" for k
  define ks where "ks = concat (map (\<lambda>by'. concat (map (\<lambda>bx.
      if short bx by' then [] else block_keys width height bx by') [0..<?bw])) [0..<?bh])"
  have bb: "?bb \<le> 16" by (simp add: bc_block_bytes_def)
  have gs: "?bh * ?bw * 16 < 2 ^ 64"
    using grid_small[OF dims] by (rule less_trans) simp
  have body: "(let boff = u64 (u64 (by' * ?bw + bx) * ?bb) in
        if u64 (boff + ?bb) > src_bytes then Some d
        else do { blk \<leftarrow> read_at src boff ?bb; texels \<leftarrow> decode_block fmt blk;
                  store_block width height bx by' texels d })
      = foldM (\<lambda>k d. write_at d (k * 4) (f k)) (if short bx by' then [] else block_keys width height bx by') d"
    if b: "bx < ?bw" "by' < ?bh" for bx by' d
  proof -
    have "by' * ?bw + bx < ?bw * ?bh" by (rule pixel_index_small[OF b])
    then have idx: "(by' * ?bw + bx + 1) * 16 \<le> ?bh * ?bw * 16" by (simp add: mult.commute)
    have "(by' * ?bw + bx) * ?bb + ?bb \<le> (by' * ?bw + bx + 1) * 16"
      using mult_le_mono2[OF bb, of "by' * ?bw + bx + 1"] by (simp add: algebra_simps)
    then have le: "(by' * ?bw + bx) * ?bb + ?bb < 2 ^ 64"
      using idx gs by (blast intro: le_less_trans order_trans)
    have "by' * ?bw + bx \<le> (by' * ?bw + bx + 1) * 16" by simp
    then have "by' * ?bw + bx < 2 ^ 64" using idx gs by (blast intro: le_less_trans order_trans)
    then have u: "u64 (u64 (by' * ?bw + bx) * ?bb) = (by' * ?bw + bx) * ?bb"
      using le by (simp add: u64_id)
    show ?thesis
      unfolding Let_def u u64_id[OF le]
      using store_block_pixels[OF dims fmt src(1) b refl refl]
      by (cases "short bx by'") (simp_all only: short_def f_def if_True if_False foldM.simps
          not_False_eq_True simp_thms)
  qed
  have loop: "foldM (\<lambda>by'. foldM (\<lambda>bx d.
        let boff = u64 (u64 (by' * ?bw + bx) * ?bb) in
        if u64 (boff + ?bb) > src_bytes then Some d
        else do { blk \<leftarrow> read_at src boff ?bb; texels \<leftarrow> decode_block fmt blk;
                  store_block width height bx by' texels d }) [0..<?bw]) [0..<?bh] d
      = foldM (\<lambda>k d. write_at d (k * 4) (f k)) ks d" for d
    unfolding ks_def foldM_concat foldM_map using body by (intro foldM_cong refl) simp
  have mem: "k \<in> set ks \<longleftrightarrow> (\<exists>x y. k = y * width + x \<and> x < width \<and> y < height \<and> \<not> short (x div 4) (y div 4))" for k
  proof -
    have g: "x < width \<Longrightarrow> x div 4 < ?bw" "y < height \<Longrightarrow> y div 4 < ?bh" for x y by linarith+
    have "k \<in> set ks \<longleftrightarrow> (\<exists>by' < ?bh. \<exists>bx < ?bw. \<not> short bx by' \<and> k \<in> set (block_keys width height bx by'))"
    proof
      assume "k \<in> set ks"
      then show "\<exists>by' < ?bh. \<exists>bx < ?bw. \<not> short bx by' \<and> k \<in> set (block_keys width height bx by')"
        by (auto simp: ks_def split: if_splits) blast
    next
      assume "\<exists>by' < ?bh. \<exists>bx < ?bw. \<not> short bx by' \<and> k \<in> set (block_keys width height bx by')"
      then show "k \<in> set ks" unfolding ks_def by fastforce
    qed
    then show ?thesis unfolding block_keys_mem using g by blast
  qed
  have small: "?n * 4 < 2 ^ 64"
  proof -
    have "?n * 4 < 2 ^ 61 * 4" using dims(3) by (rule mult_strict_right_mono) simp
    then show ?thesis by (rule less_trans) simp
  qed
  define d0 where "d0 = replicate (?n * 4) 0 @ drop (?n * 4) dst"
  have w0: "write_at dst 0 (replicate (u64 (?n * 4)) 0) = Some d0"
    using dst by (simp add: write_at_def u64_id[OF small] d0_def)
  have len0: "length d0 = length dst" using dst by (simp add: d0_def)
  have c0: "cell d0 k = [0, 0, 0, 0]" if "k < ?n" for k
  proof -
    have "?n * 4 = k * 4 + 4 + (?n - k - 1) * 4" using that by simp
    then have "d0 = replicate (k * 4) 0 @ replicate 4 0 @ replicate ((?n - k - 1) * 4) 0 @ drop (?n * 4) dst"
      unfolding d0_def by (metis append.assoc replicate_add)
    then have "cell d0 k = replicate 4 0" by (simp add: cell_def)
    then show ?thesis by (simp add: numeral_eq_Suc)
  qed
  have "\<And>k. k \<in> set ks \<Longrightarrow> length (f k) = 4 \<and> k < ?n"
    using mem pixel_index_small pixel_length[OF fmt src(1)] by (auto simp: f_def)
  from write_cells[where d = d0 and n = ?n and f = f and ks = ks, OF this] dst len0 obtain d where
    d: "foldM (\<lambda>k d. write_at d (k * 4) (f k)) ks d0 = Some d" "length d = length dst"
    and cells: "\<forall>k < ?n. cell d k = (if k \<in> set ks then f k else cell d0 k)"
    and rest: "\<forall>i. ?n * 4 \<le> i \<longrightarrow> i < length dst \<longrightarrow> d ! i = d0 ! i" by auto
  have ub: "u32 (width + 3) = width + 3" "u32 (height + 3) = height + 3"
    using dims by (simp_all add: u32_id)
  have "fmt \<in> {Bc1, Bc2, Bc3, Bc4, Bc5, Bc6, Bc7}"
    using fmt by (auto simp: bc_block_bytes_def split: if_splits)
  then have "bc_decode_surface dst src src_bytes width height fmt = Some (True, d)"
    using d(1) loop w0 by (simp add: bc_decode_surface_def Let_def ub)
  moreover have "cell d (y * width + x) = bc_pixel src src_bytes width fmt x y" if "x < width" "y < height" for x y
  proof -
    have k: "(y * width + x) div width = y" "(y * width + x) mod width = x" using that by simp_all
    show ?thesis
    proof (cases "short (x div 4) (y div 4)")
      case False
      then have "y * width + x \<in> set ks" unfolding mem using that by blast
      then show ?thesis using cells pixel_index_small[OF that] k by (simp add: f_def)
    next
      case True
      have "y * width + x \<notin> set ks"
      proof
        assume "y * width + x \<in> set ks"
        then obtain x' y' where e: "y * width + x = y' * width + x'" "x' < width" "\<not> short (x' div 4) (y' div 4)"
          unfolding mem by blast
        then have "y' = (y * width + x) div width" "x' = (y * width + x) mod width" by simp_all
        with e(3) True k show False by simp
      qed
      then show ?thesis using True cells c0 pixel_index_small[OF that]
        by (simp add: bc_pixel_def Let_def short_def)
    qed
  qed
  moreover have "d ! i = dst ! i" if "?n * 4 \<le> i" "i < length dst" for i
    using rest that by (simp add: d0_def nth_append)
  ultimately show ?thesis using d(2) by blast
qed

theorem bc_surface_pixels_witness:
  "\<exists>d. bc_decode_surface (replicate 100 7) (replicate 8 0) 8 5 5 Bc1 = Some (True, d) \<and> length d = 100"
  using bc_surface_pixels[of Bc1 8 "replicate 8 0" 5 5 "replicate 100 7"]
  by (fastforce simp: bc_block_bytes_def)

text \<open>
  The interpolated entries of a BC3 alpha or BC4 channel ramp lie between its two
  endpoints, in both orders of the endpoints; the six-entry order adds exactly 0 and 255.
\<close>

lemma bc_ramp_between:
  assumes "i < 8" and "a0 > a1 \<or> i < 6"
  shows "min a0 a1 \<le> bc_ramp a0 a1 ! i \<and> bc_ramp a0 a1 ! i \<le> max a0 a1
    \<and> (a0 \<le> a1 \<longrightarrow> bc_ramp a0 a1 ! 6 = 0 \<and> bc_ramp a0 a1 ! 7 = 255)"
proof -
  define a b where "a = unat a0" and "b = unat a1"
  have lt: "a < 256" "b < 256" using unsigned_less[of a0] unsigned_less[of a1] by (simp_all add: a_def b_def)
  have mix: "min a b \<le> ((n - j) * a + j * b) div n \<and> ((n - j) * a + j * b) div n \<le> max a b"
    if "j \<le> n" "0 < n" for n j
  proof -
    have s: "(n - j) * c + j * c = c * n" for c
      unfolding add_mult_distrib[symmetric] le_add_diff_inverse2[OF that(1)] by (rule mult.commute)
    have "min a b * n \<le> (n - j) * a + j * b"
      unfolding s[symmetric] by (intro add_mono mult_le_mono2) simp_all
    then have lo: "min a b \<le> ((n - j) * a + j * b) div n" using that(2) by (simp add: less_eq_div_iff_mult_less_eq)
    have "(n - j) * a + j * b \<le> max a b * n"
      unfolding s[symmetric] by (intro add_mono mult_le_mono2) simp_all
    then have "((n - j) * a + j * b) div n \<le> max a b * n div n" by (rule div_le_mono)
    with lo that(2) show ?thesis by simp
  qed
  have conv: "min a0 a1 \<le> to_u8 v \<and> to_u8 v \<le> max a0 a1" if "min a b \<le> v \<and> v \<le> max a b" for v
  proof -
    have "v < 256" using that lt by (auto simp: max_def split: if_splits)
    then have "unat (to_u8 v) = v" by (simp add: unat_of_nat)
    moreover have "unat (min a0 a1) = min a b" "unat (max a0 a1) = max a b"
      by (simp_all add: a_def b_def min_def max_def word_le_nat_alt)
    ultimately show ?thesis using that by (simp add: word_le_nat_alt)
  qed
  have ends: "min a0 a1 \<le> a0 \<and> a0 \<le> max a0 a1" "min a0 a1 \<le> a1 \<and> a1 \<le> max a0 a1" by simp_all
  have i: "i = 0 \<or> i = 1 \<or> 2 \<le> i" by arith
  show ?thesis
  proof (cases "a0 > a1")
    case True
    then have r: "bc_ramp a0 a1 = [a0, a1] @ map (\<lambda>i. to_u8 (((7 - i) * a + i * b) div 7)) [1..<7]"
      by (simp add: bc_ramp_def a_def b_def)
    have "bc_ramp a0 a1 ! i = to_u8 (((7 - (i - 1)) * a + (i - 1) * b) div 7)" if i2: "2 \<le> i"
    proof -
      obtain k where k: "i = Suc (Suc k)" using i2 by (cases i; cases "i - 1") auto
      then have "1 + k < 7" using assms(1) by simp
      then show ?thesis unfolding r k by (simp add: nth_append)
    qed
    then have "min a0 a1 \<le> bc_ramp a0 a1 ! i \<and> bc_ramp a0 a1 ! i \<le> max a0 a1"
      using i ends conv[OF mix[of "i - 1" 7]] assms(1) by (elim disjE) (simp_all add: r)
    then show ?thesis using True by (simp add: not_le[symmetric])
  next
    case False
    have i6: "i < 6" using assms(2) False by simp
    have r: "bc_ramp a0 a1 = [a0, a1] @ map (\<lambda>i. to_u8 (((5 - i) * a + i * b) div 5)) [1..<5] @ [0, 255]"
      using False by (simp add: bc_ramp_def a_def b_def)
    have "bc_ramp a0 a1 ! i = to_u8 (((5 - (i - 1)) * a + (i - 1) * b) div 5)" if i2: "2 \<le> i"
    proof -
      obtain k where k: "i = Suc (Suc k)" using i2 by (cases i; cases "i - 1") auto
      then have "1 + k < 5" using i6 by simp
      then show ?thesis unfolding r k by (simp add: nth_append)
    qed
    then have "min a0 a1 \<le> bc_ramp a0 a1 ! i \<and> bc_ramp a0 a1 ! i \<le> max a0 a1"
      using i ends conv[OF mix[of "i - 1" 5]] i6 by (elim disjE) (simp_all add: r)
    moreover have "bc_ramp a0 a1 ! 6 = 0 \<and> bc_ramp a0 a1 ! 7 = 255"
      unfolding r by (simp add: nth_append)
    ultimately show ?thesis by blast
  qed
qed

end
