(* ===== verification/SelfModule.thy ===== *)
theory SelfModule
  imports Prelude
begin

text \<open>
  Parsing of SELF and ELF modules (\<open>self/module.hpp\<close>, \<open>self/module.cpp\<close>): program headers,
  the dynamic section, symbols, imports and relocations. The file is untrusted, so offsets are
  64-bit words that wrap as in the code. The result of \<^term>\<open>load\<close> is \<^term>\<open>None\<close> where the C++
  code has undefined behaviour, \<open>Inl\<close> a refusal and \<open>Inr\<close> a module.
\<close>

subsection \<open>Guarded reads\<close>

type_synonym half = "16 word"
type_synonym cstr = "byte list"

definition self_read_ok :: "qword \<Rightarrow> qword \<Rightarrow> qword \<Rightarrow> bool" where
  "self_read_ok off need size' \<longleftrightarrow> need \<le> size' \<and> off \<le> size' - need"

definition clamp_table_bytes :: "qword \<Rightarrow> qword \<Rightarrow> qword \<Rightarrow> qword" where
  "clamp_table_bytes table_file_off declared_bytes file_size =
     (if table_file_off \<ge> file_size then 0
      else let avail = file_size - table_file_off
           in if declared_bytes < avail then declared_bytes else avail)"

abbreviation size_of :: "byte list \<Rightarrow> qword" where
  "size_of b \<equiv> word_of_nat (length b)"

text \<open>\<open>rd\<close> of a structure of \<open>n\<close> bytes: zero-initialised when the bytes are not in the file.\<close>

definition rd :: "nat \<Rightarrow> byte list \<Rightarrow> qword \<Rightarrow> byte list" where
  "rd n b off = (if self_read_ok off (word_of_nat n) (size_of b) then take n (drop (unat off) b)
                 else replicate n 0)"

text \<open>The field of \<open>n\<close> bytes at byte \<open>k\<close> of a packed little-endian structure.\<close>

definition field :: "byte list \<Rightarrow> nat \<Rightarrow> nat \<Rightarrow> 'w::len word" where
  "field s k n = word_of_nat (le_nat (take n (drop k s)))"

definition self_segment_key :: "qword \<Rightarrow> qword" where
  "self_segment_key flags = drop_bit 20 flags AND 0xFFF"

text \<open>
  The position of a character in the alphabet; \<open>strchr\<close> also finds the terminator. \<open>b64val\<close>
  accumulates in an \<open>int\<close>, whose overflow is undefined.
\<close>

definition b64_index :: "byte \<Rightarrow> int option" where
  "b64_index c =
     (let n = uint c in
      if 65 \<le> n \<and> n \<le> 90 then Some (n - 65) else if 97 \<le> n \<and> n \<le> 122 then Some (n - 71)
      else if 48 \<le> n \<and> n \<le> 57 then Some (n + 4) else if n = 43 then Some 62
      else if n = 45 then Some 63 else if n = 0 then Some 64 else None)"

fun b64_loop :: "byte list \<Rightarrow> int \<Rightarrow> int option" where
  "b64_loop [] v = Some v"
| "b64_loop (c # s) v =
     (case b64_index c of None \<Rightarrow> Some (- 1)
      | Some i \<Rightarrow> if v * 64 + i < 2 ^ 31 then b64_loop s (v * 64 + i) else None)"

definition b64val :: "byte list \<Rightarrow> int option" where
  "b64val s = (if s = [] then Some (- 1) else b64_loop s 0)"

subsection \<open>The module\<close>

definition PT_LOAD :: dword where "PT_LOAD = 1"
definition PT_DYNAMIC :: dword where "PT_DYNAMIC = 2"
definition PT_TLS :: dword where "PT_TLS = 7"
definition PT_SCE_PROCPARAM :: dword where "PT_SCE_PROCPARAM = 0x61000001"

record segment =
  seg_type :: dword
  seg_flags :: dword
  seg_vaddr :: qword
  seg_memsz :: qword
  seg_filesz :: qword
  seg_file_off :: qword

record reloc =
  rel_offset :: qword
  rel_type :: dword
  rel_sym :: dword
  rel_addend :: qword
  rel_is_plt :: bool

record symbol =
  sym_raw :: cstr
  sym_nid :: cstr
  sym_lib_id :: int
  sym_shndx :: half
  sym_value :: qword
  sym_is_import :: bool
  sym_lib_name :: cstr

record import_record =
  imp_nid :: cstr
  imp_lib_name :: cstr
  imp_sym_index :: dword

record modul =
  m_path :: cstr
  m_file :: "byte list"
  m_elf_base :: qword
  m_type :: half
  m_machine :: half
  m_entry :: qword
  m_init_va :: qword
  m_init_array_va :: qword
  m_init_array_sz :: qword
  m_tls_vaddr :: qword
  m_tls_filesz :: qword
  m_tls_memsz :: qword
  m_tls_align :: qword
  m_segments :: "segment list"
  m_loads :: "segment list"
  m_strtab_va :: qword
  m_strsz :: qword
  m_symtab_va :: qword
  m_symtabsz :: qword
  m_syment :: qword
  m_rela_va :: qword
  m_rela_sz :: qword
  m_jmprel_va :: qword
  m_jmprel_sz :: qword
  m_pltgot_va :: qword
  m_import_libs :: "int \<Rightarrow> cstr option"
  m_needed_mods :: "int \<Rightarrow> cstr option"
  m_needed_files :: "cstr list"
  m_symbols :: "symbol list"
  m_relocs :: "reloc list"
  m_imports :: "import_record list"

definition empty_module :: modul where
  "empty_module =
     \<lparr>m_path = [], m_file = [], m_elf_base = 0, m_type = 0, m_machine = 0, m_entry = 0,
      m_init_va = 0, m_init_array_va = 0, m_init_array_sz = 0,
      m_tls_vaddr = 0, m_tls_filesz = 0, m_tls_memsz = 0, m_tls_align = 0,
      m_segments = [], m_loads = [],
      m_strtab_va = 0, m_strsz = 0, m_symtab_va = 0, m_symtabsz = 0, m_syment = 24,
      m_rela_va = 0, m_rela_sz = 0, m_jmprel_va = 0, m_jmprel_sz = 0, m_pltgot_va = 0,
      m_import_libs = Map.empty, m_needed_mods = Map.empty, m_needed_files = [],
      m_symbols = [], m_relocs = [], m_imports = []\<rparr>"

text \<open>The result is an \<open>int64_t\<close>, \<open>-1\<close> if no segment maps the address.\<close>

definition is_neg :: "qword \<Rightarrow> bool" where
  "is_neg w \<longleftrightarrow> bit w 63"

definition va_in :: "segment \<Rightarrow> qword \<Rightarrow> bool" where
  "va_in L va \<longleftrightarrow> va \<ge> seg_vaddr L \<and> va < seg_vaddr L + seg_filesz L"

definition va2foff :: "segment list \<Rightarrow> qword \<Rightarrow> qword" where
  "va2foff loads va =
     (case find (\<lambda>L. seg_type L = PT_LOAD \<and> va_in L va) loads of
        Some L \<Rightarrow> seg_file_off L + (va - seg_vaddr L)
      | None \<Rightarrow> case find (\<lambda>L. seg_type L \<noteq> PT_LOAD \<and> va_in L va) loads of
          Some L \<Rightarrow> seg_file_off L + (va - seg_vaddr L)
        | None \<Rightarrow> - 1)"

text \<open>The C string at an offset of the string table, empty where it is not in the file.\<close>

definition str_at :: "modul \<Rightarrow> qword \<Rightarrow> cstr" where
  "str_at m off =
     (let uf = va2foff (m_loads m) (m_strtab_va m) in
      if is_neg uf then []
      else if off > size_of (m_file m) \<or> uf > size_of (m_file m) then []
      else let absolute = uf + off in
        if absolute \<ge> size_of (m_file m) then []
        else let rest = drop (unat absolute) (m_file m)
             in if 0 \<in> set rest then takeWhile (\<lambda>c. c \<noteq> 0) rest else [])"

subsection \<open>SELF container and program headers\<close>

definition elf_magic :: "byte list" where
  "elf_magic = [0x7f, 0x45, 0x4c, 0x46]"

text \<open>The data segments of a SELF container, keyed by the program header they hold.\<close>

definition self_data_seg :: "byte list \<Rightarrow> nat \<Rightarrow> qword \<Rightarrow> byte list option" where
  "self_data_seg file num =
     foldl (\<lambda>seg i. let s = rd 32 file (0x20 + word_of_nat i * 32); flags = field s 0 8
                    in if flags AND 0x800 \<noteq> 0 then seg(self_segment_key flags \<mapsto> s) else seg)
       Map.empty [0..<num]"

definition self_header :: "byte list \<Rightarrow> (qword \<Rightarrow> byte list option) \<times> qword" where
  "self_header file =
     (let sh = rd 32 file 0; magic = (field sh 0 4 :: dword); num = unat (field sh 24 2 :: half)
      in if magic = 0x1D3D154F \<or> magic = 0xEEF51454
         then (self_data_seg file num, 0x20 + word_of_nat num * 32)
         else (Map.empty, 0))"

text \<open>The inner ELF header, searched for when it is not behind the SELF header.\<close>

definition find_elf :: "byte list \<Rightarrow> qword \<Rightarrow> qword option" where
  "find_elf file elf_base =
     (if take 4 (rd 64 file elf_base) = elf_magic then Some elf_base
      else map_option word_of_nat
             (find (\<lambda>i. take 4 (drop i file) = elf_magic) [0..<length file - 4]))"

definition read_segment :: "byte list \<Rightarrow> (qword \<Rightarrow> byte list option) \<Rightarrow> qword \<Rightarrow> qword \<Rightarrow> nat \<Rightarrow> segment" where
  "read_segment file data_seg elf_base e_phoff i =
     (let p = rd 56 file (elf_base + e_phoff + word_of_nat i * 56)
      in \<lparr>seg_type = field p 0 4, seg_flags = field p 4 4, seg_vaddr = field p 16 8,
          seg_memsz = field p 40 8, seg_filesz = field p 32 8,
          seg_file_off = (case data_seg (word_of_nat i) of Some s \<Rightarrow> field s 8 8
                          | None \<Rightarrow> elf_base + field p 8 8)\<rparr>)"

definition is_load :: "segment \<Rightarrow> bool" where
  "is_load s \<longleftrightarrow> seg_filesz s > 0 \<and> (seg_type s = PT_LOAD \<or> seg_type s = PT_DYNAMIC
     \<or> seg_type s = PT_SCE_PROCPARAM \<or> seg_type s = PT_TLS)"

text \<open>One program header; the last \<open>PT_TLS\<close> wins.\<close>

definition add_header ::
    "(qword \<Rightarrow> byte list option) \<Rightarrow> qword \<Rightarrow> modul \<Rightarrow> nat \<Rightarrow> modul" where
  "add_header data_seg e_phoff m i =
     (let s = read_segment (m_file m) data_seg (m_elf_base m) e_phoff i;
          p = rd 56 (m_file m) (m_elf_base m + e_phoff + word_of_nat i * 56);
          m = m\<lparr>m_segments := m_segments m @ [s]\<rparr>;
          m = (if is_load s then m\<lparr>m_loads := m_loads m @ [s]\<rparr> else m)
      in if seg_type s = PT_TLS
         then m\<lparr>m_tls_vaddr := seg_vaddr s, m_tls_filesz := seg_filesz s,
                m_tls_memsz := seg_memsz s, m_tls_align := field p 48 8\<rparr>
         else m)"

subsection \<open>The dynamic section\<close>

definition tag_ok :: "qword \<Rightarrow> bool" where
  "tag_ok t \<longleftrightarrow> t = 0 \<or> t < 0x100 \<or> t \<ge> 0x61000000 \<and> t \<le> 0x610000ff \<or> t = 0x6ffffff9 \<or> t = 0x6ffffffb"

definition dyn_run_ok :: "byte list \<Rightarrow> qword \<Rightarrow> bool" where
  "dyn_run_ok file off \<longleftrightarrow>
     \<not> is_neg off \<and> \<not> off + 128 > size_of file
     \<and> (let tags = map (\<lambda>i. field (rd 16 file (off + word_of_nat i * 16)) 0 8 :: qword) [0..<8]
        in list_all tag_ok tags \<and> list_ex (\<lambda>t. t \<ge> 0x61000000 \<and> t \<le> 0x610000ff) tags)"

text \<open>Where the dynamic section is, re-derived from a containing LOAD when it does not read as one.\<close>

definition dyn_offset :: "byte list \<Rightarrow> segment list \<Rightarrow> segment \<Rightarrow> qword" where
  "dyn_offset file loads dynseg =
     (let foff = va2foff loads (seg_vaddr dynseg);
          dyn_foff = (if is_neg foff then seg_file_off dynseg else foff)
      in if dyn_run_ok file dyn_foff then dyn_foff
         else case find (\<lambda>L. seg_type L = PT_LOAD \<and> va_in L (seg_vaddr dynseg)
                 \<and> dyn_run_ok file (seg_file_off L + (seg_vaddr dynseg - seg_vaddr L))) loads of
                Some L \<Rightarrow> seg_file_off L + (seg_vaddr dynseg - seg_vaddr L)
              | None \<Rightarrow> dyn_foff)"

record dyn =
  d_tag :: qword
  d_val :: qword

text \<open>
  The loop over the entries stops at the declared size or at a zero tag. The size is untrusted,
  so the recursion is a partial function; \<^term>\<open>None\<close> would be an endless loop.
\<close>

partial_function (option) dyn_entries :: "byte list \<Rightarrow> qword \<Rightarrow> qword \<Rightarrow> qword \<Rightarrow> dyn list option" where
  "dyn_entries file dyn_foff filesz p =
     (if p + 16 \<le> filesz
      then let b = rd 16 file (dyn_foff + p); d = \<lparr>d_tag = field b 0 8, d_val = field b 8 8\<rparr>
           in if d_tag d = 0 then Some [d]
              else do { ds \<leftarrow> dyn_entries file dyn_foff filesz (p + 16); Some (d # ds) }
      else Some [])"

definition dyn_tag :: "modul \<Rightarrow> dyn \<Rightarrow> modul" where
  "dyn_tag m d =
     (let t = d_tag d; v = d_val d in
      if t = 5 then m\<lparr>m_strtab_va := v\<rparr>
      else if t = 0xa then m\<lparr>m_strsz := v\<rparr>
      else if t = 6 then m\<lparr>m_symtab_va := v\<rparr>
      else if t = 0xb then m\<lparr>m_syment := if v \<noteq> 0 then v else 24\<rparr>
      else if t = 7 then m\<lparr>m_rela_va := v\<rparr>
      else if t = 8 then m\<lparr>m_rela_sz := v\<rparr>
      else if t = 0x17 then m\<lparr>m_jmprel_va := v\<rparr>
      else if t = 2 then m\<lparr>m_jmprel_sz := v\<rparr>
      else if t = 3 then m\<lparr>m_pltgot_va := v\<rparr>
      else if t = 0xc then m\<lparr>m_init_va := v\<rparr>
      else if t = 0x19 then m\<lparr>m_init_array_va := v\<rparr>
      else if t = 0x1b then m\<lparr>m_init_array_sz := v\<rparr>
      else if t = 0x6100003f then m\<lparr>m_symtabsz := v\<rparr>
      else if t = 0x61000035 then if m_strtab_va m = 0 then m\<lparr>m_strtab_va := v\<rparr> else m
      else if t = 0x61000039 then if m_symtab_va m = 0 then m\<lparr>m_symtab_va := v\<rparr> else m
      else m)"

text \<open>Module and library records, read once the string table is known.\<close>

definition dyn_record :: "modul \<Rightarrow> dyn \<Rightarrow> modul" where
  "dyn_record m d =
     (let name_off = d_val d AND 0xffffffff; ident = uint (drop_bit 48 (d_val d) AND 0xffff) in
      if d_tag d = 1 then m\<lparr>m_needed_files := m_needed_files m @ [str_at m name_off]\<rparr>
      else if d_tag d = 0x61000045 then m\<lparr>m_needed_mods := (m_needed_mods m)(ident \<mapsto> str_at m name_off)\<rparr>
      else if d_tag d = 0x61000049 then m\<lparr>m_import_libs := (m_import_libs m)(ident \<mapsto> str_at m name_off)\<rparr>
      else m)"

subsection \<open>Symbols and relocations\<close>

fun decimal :: "nat \<Rightarrow> byte list" where
  "decimal n = (if n < 10 then [word_of_nat (48 + n)] else decimal (n div 10) @ [word_of_nat (48 + n mod 10)])"

declare decimal.simps [simp del]

definition hash :: byte where "hash = 35"

text \<open>\<open>NID#libId#modId\<close> or a plain name.\<close>

definition split_name :: "cstr \<Rightarrow> (cstr \<times> int) option" where
  "split_name raw =
     (if hash \<in> set raw
      then let rest = tl (dropWhile (\<lambda>c. c \<noteq> hash) raw);
               lib = (if hash \<in> set rest then takeWhile (\<lambda>c. c \<noteq> hash) rest else [])
           in map_option (Pair (takeWhile (\<lambda>c. c \<noteq> hash) raw)) (b64val lib)
      else Some (raw, - 1))"

definition symbol_count :: "modul \<Rightarrow> nat" where
  "symbol_count m =
     (let sym_foff = va2foff (m_loads m) (m_symtab_va m);
          nsym = (if m_syment m \<noteq> 0 then m_symtabsz m div m_syment m else 0);
          nsym = (if nsym = 0 \<and> \<not> is_neg sym_foff \<and> m_strtab_va m > m_symtab_va m
                  then (m_strtab_va m - m_symtab_va m) div m_syment m else nsym);
          nsym = (if \<not> is_neg sym_foff \<and> m_syment m \<noteq> 0
                  then clamp_table_bytes sym_foff (nsym * m_syment m) (size_of (m_file m)) div m_syment m
                  else nsym)
      in if is_neg sym_foff then 0 else unat nsym)"

definition read_symbol :: "modul \<Rightarrow> nat \<Rightarrow> symbol option" where
  "read_symbol m i =
     (let sym_foff = va2foff (m_loads m) (m_symtab_va m);
          s = rd 24 (m_file m) (sym_foff + word_of_nat i * m_syment m);
          raw = str_at m (field s 0 4); shndx = field s 6 2; value = field s 8 8
      in map_option (\<lambda>(nid, lib_id).
           \<lparr>sym_raw = raw, sym_nid = nid, sym_lib_id = lib_id, sym_shndx = shndx, sym_value = value,
            sym_is_import = (shndx = 0 \<and> value = 0 \<and> hash \<in> set raw),
            sym_lib_name = (case m_import_libs m lib_id of Some n \<Rightarrow> n
              | None \<Rightarrow> if lib_id \<ge> 0 then [108, 105, 98, 35] @ decimal (nat lib_id) else [])\<rparr>)
         (split_name raw))"

definition add_symbol :: "nat \<Rightarrow> modul \<Rightarrow> modul option" where
  "add_symbol i m =
     map_option (\<lambda>sym.
       let m = m\<lparr>m_symbols := m_symbols m @ [sym]\<rparr>
       in if sym_is_import sym
          then m\<lparr>m_imports := m_imports m @ [\<lparr>imp_nid = sym_nid sym, imp_lib_name = sym_lib_name sym,
                                              imp_sym_index = word_of_nat i\<rparr>]\<rparr>
          else m)
     (read_symbol m i)"

definition read_reloc :: "byte list \<Rightarrow> qword \<Rightarrow> bool \<Rightarrow> nat \<Rightarrow> reloc" where
  "read_reloc file fo plt i =
     (let r = rd 24 file (fo + word_of_nat i * 24); info = (field r 8 8 :: qword)
      in \<lparr>rel_offset = field r 0 8, rel_type = ucast (info AND 0xffffffff),
          rel_sym = ucast (drop_bit 32 info), rel_addend = field r 16 8, rel_is_plt = plt\<rparr>)"

text \<open>The loop \<open>for (o = 0; o + 24 <= sz; o += 24)\<close> runs \<open>sz / 24\<close> times.\<close>

definition read_relocs :: "qword \<Rightarrow> qword \<Rightarrow> bool \<Rightarrow> modul \<Rightarrow> modul" where
  "read_relocs va sz plt m =
     (let fo = va2foff (m_loads m) va in
      if is_neg fo then m
      else let sz = clamp_table_bytes fo sz (size_of (m_file m))
           in m\<lparr>m_relocs := m_relocs m @ map (read_reloc (m_file m) fo plt) [0..<unat sz div 24]\<rparr>)"

subsection \<open>Loading\<close>

datatype load_error = Cannot_open | Short_read | No_elf_header | Not_x86_64 | No_dynamic

text \<open>\<open>Module::load\<close> on the bytes of the file.\<close>

definition load :: "cstr \<Rightarrow> byte list \<Rightarrow> (load_error + modul) option" where
  "load path file =
     (let (data_seg, elf_base) = self_header file in
      case find_elf file elf_base of
        None \<Rightarrow> Some (Inl No_elf_header)
      | Some elf_base \<Rightarrow>
          (let eh = rd 64 file elf_base;
               m = empty_module\<lparr>m_path := path, m_file := file, m_elf_base := elf_base,
                     m_type := field eh 16 2, m_machine := field eh 18 2, m_entry := field eh 24 8\<rparr>
           in if m_machine m \<noteq> 0x3e then Some (Inl Not_x86_64)
              else let m = foldl (add_header data_seg (field eh 32 8)) m [0..<unat (field eh 56 2 :: half)]
                   in case filter (\<lambda>s. seg_type s = PT_DYNAMIC) (m_segments m) of
                        [] \<Rightarrow> Some (Inl No_dynamic)
                      | ds \<Rightarrow> do {
                          dyns \<leftarrow> dyn_entries file (dyn_offset file (m_loads m) (last ds)) (seg_filesz (last ds)) 0;
                          let m = foldl dyn_tag m dyns;
                          let m = foldl dyn_record m dyns;
                          m \<leftarrow> foldM add_symbol [0..<symbol_count m] m;
                          let m = read_relocs (m_rela_va m) (m_rela_sz m) False m;
                          Some (Inr (read_relocs (m_jmprel_va m) (m_jmprel_sz m) True m)) }))"

end
