(* ===== verification/SelfImage.thy ===== *)
theory SelfImage
  imports SelfModule
begin

text \<open>
  The loaded image of a module (\<open>self/module.cpp\<close>): sizing and filling it from the file's
  segments, the address window, import stubs, and the relocations. Memory is a byte list behind
  checked accesses; \<^term>\<open>None\<close> is an access outside it. Diagnostic output is not modelled.
\<close>

record prot =
  prot_vaddr :: qword
  prot_size :: qword
  prot_r :: bool
  prot_w :: bool
  prot_x :: bool

record image =
  img_base :: qword
  img_min :: qword
  img_max :: qword
  img_mem :: "byte list"
  img_prot :: "prot list"
  img_entry :: qword
  img_tls_modid :: dword
  img_import_addr :: "dword \<Rightarrow> qword option"

subsection \<open>Building\<close>

definition kMaxLoadedImageBytes :: qword where
  "kMaxLoadedImageBytes = push_bit 30 1"

text \<open>Which refusal: the index is the program header's.\<close>

datatype image_error =
    Extent_overflows | Extent_exceeds_limit | Cannot_allocate
  | Segment_outside nat | File_truncated nat

definition align_dn :: "qword \<Rightarrow> qword \<Rightarrow> qword" where
  "align_dn v a = v AND NOT (a - 1)"

definition align_up :: "qword \<Rightarrow> qword \<Rightarrow> qword" where
  "align_up v a = (v + a - 1) AND NOT (a - 1)"

text \<open>The lowest and highest address of the \<open>PT_LOAD\<close> segments whose end does not wrap.\<close>

definition extent :: "segment list \<Rightarrow> qword \<times> qword" where
  "extent segs =
     foldl (\<lambda>(lo, hi) s. if seg_type s = PT_LOAD \<and> seg_memsz s \<le> - 1 - seg_vaddr s
                         then (min lo (seg_vaddr s), max hi (seg_vaddr s + seg_memsz s)) else (lo, hi))
       (- 1, 0) segs"

definition window :: "segment list \<Rightarrow> qword \<times> qword" where
  "window segs =
     (let (lo, hi) = extent segs; lo = (if lo = - 1 then 0 else lo)
      in (align_dn lo 0x4000, align_up hi 0x4000))"

text \<open>One program header of the copy loop.\<close>

definition copy_segment ::
    "byte list \<Rightarrow> qword \<Rightarrow> qword \<Rightarrow> nat \<Rightarrow> segment \<Rightarrow> byte list \<times> prot list
     \<Rightarrow> (image_error + byte list \<times> prot list) option" where
  "copy_segment file min_vaddr image_size i s = (\<lambda>(mem, prots).
     if seg_type s \<noteq> PT_LOAD then Some (Inr (mem, prots))
     else let dst = seg_vaddr s - min_vaddr in
       if seg_vaddr s < min_vaddr \<or> \<not> self_read_ok dst (seg_memsz s) image_size
          \<or> \<not> self_read_ok dst (seg_filesz s) image_size
       then Some (Inl (Segment_outside i))
       else if seg_filesz s \<noteq> 0 \<and> \<not> self_read_ok (seg_file_off s) (seg_filesz s) (size_of file)
       then Some (Inl (File_truncated i))
       else do {
         mem \<leftarrow> (if seg_filesz s \<noteq> 0
                 then do { bytes \<leftarrow> read_at file (unat (seg_file_off s)) (unat (seg_filesz s));
                           write_at mem (unat dst) bytes }
                 else Some mem);
         Some (Inr (mem, prots @ [\<lparr>prot_vaddr = seg_vaddr s, prot_size = seg_memsz s,
           prot_r = (seg_flags s AND 4 \<noteq> 0), prot_w = (seg_flags s AND 2 \<noteq> 0),
           prot_x = (seg_flags s AND 1 \<noteq> 0)\<rparr>])) })"

primrec copy_segments ::
    "byte list \<Rightarrow> qword \<Rightarrow> qword \<Rightarrow> nat \<Rightarrow> segment list \<Rightarrow> byte list \<times> prot list
     \<Rightarrow> (image_error + byte list \<times> prot list) option" where
  "copy_segments file mn size' i [] st = Some (Inr st)"
| "copy_segments file mn size' i (s # ss) st =
     do { r \<leftarrow> copy_segment file mn size' i s st;
          case r of Inl e \<Rightarrow> Some (Inl e) | Inr st \<Rightarrow> copy_segments file mn size' (i + 1) ss st }"

text \<open>
  \<open>can_alloc\<close> says whether the host can allocate that many bytes; the refusals for the vector's
  maximal length and for a failed allocation are one.
\<close>

definition build_image :: "(nat \<Rightarrow> bool) \<Rightarrow> modul \<Rightarrow> qword \<Rightarrow> (image_error + image) option" where
  "build_image can_alloc m base =
     (let (mn, mx) = window (m_segments m) in
      if mx < mn then Some (Inl Extent_overflows)
      else let image_size = mx - mn in
        if image_size > kMaxLoadedImageBytes then Some (Inl Extent_exceeds_limit)
        else if \<not> can_alloc (unat image_size) then Some (Inl Cannot_allocate)
        else do {
          r \<leftarrow> copy_segments (m_file m) mn image_size 0 (m_segments m) (replicate (unat image_size) 0, []);
          Some (case r of Inl e \<Rightarrow> Inl e
            | Inr (mem, prots) \<Rightarrow> Inr \<lparr>img_base = base, img_min = mn, img_max = mx, img_mem = mem,
                img_prot = prots, img_entry = base + m_entry m, img_tls_modid = 0,
                img_import_addr = Map.empty\<rparr>) })"

definition bind_imports_to_stubs :: "modul \<Rightarrow> image \<Rightarrow> qword \<Rightarrow> qword \<Rightarrow> image" where
  "bind_imports_to_stubs m img stub_base stub_size =
     foldl (\<lambda>img i. img\<lparr>img_import_addr := (img_import_addr img)
              (imp_sym_index (m_imports m ! i) \<mapsto> stub_base + word_of_nat i * stub_size)\<rparr>)
       img [0..<length (m_imports m)]"

subsection \<open>Addresses\<close>

text \<open>\<open>LoadedImage::at\<close>: the offset in the image's memory.\<close>

definition img_at :: "image \<Rightarrow> qword \<Rightarrow> nat option" where
  "img_at img va =
     (if va < img_base img + img_min img \<or> va \<ge> img_base img + img_max img then None
      else Some (unat (va - img_base img - img_min img)))"

definition write64 :: "image \<Rightarrow> qword \<Rightarrow> qword \<Rightarrow> (bool \<times> image) option" where
  "write64 img va val =
     (case img_at img va of
        None \<Rightarrow> Some (False, img)
      | Some p \<Rightarrow> if p + 8 > length (img_mem img) then Some (False, img)
                  else map_option (\<lambda>mem. (True, img\<lparr>img_mem := mem\<rparr>))
                         (write_at (img_mem img) p (le_bytes 8 (unat val))))"

subsection \<open>Relocations\<close>

definition R_X86_64_64 :: dword where "R_X86_64_64 = 1"
definition R_X86_64_GLOB_DAT :: dword where "R_X86_64_GLOB_DAT = 6"
definition R_X86_64_JUMP_SLOT :: dword where "R_X86_64_JUMP_SLOT = 7"
definition R_X86_64_RELATIVE :: dword where "R_X86_64_RELATIVE = 8"
definition R_X86_64_DTPMOD64 :: dword where "R_X86_64_DTPMOD64 = 16"
definition R_X86_64_DTPOFF64 :: dword where "R_X86_64_DTPOFF64 = 17"
definition R_X86_64_TPOFF64 :: dword where "R_X86_64_TPOFF64 = 18"

lemmas reloc_types = R_X86_64_64_def R_X86_64_GLOB_DAT_def R_X86_64_JUMP_SLOT_def
  R_X86_64_RELATIVE_def R_X86_64_DTPMOD64_def R_X86_64_DTPOFF64_def R_X86_64_TPOFF64_def

record tls_location =
  tls_modid :: dword
  tls_offset :: qword

type_synonym tls_map = "cstr \<Rightarrow> tls_location option"

definition symbol_at :: "modul \<Rightarrow> dword \<Rightarrow> symbol option" where
  "symbol_at m i = (if unat i < length (m_symbols m) then Some (m_symbols m ! unat i) else None)"

text \<open>An import's stub or export, or an address in this module.\<close>

definition sym_addr :: "modul \<Rightarrow> image \<Rightarrow> dword \<Rightarrow> qword" where
  "sym_addr m img i =
     (case img_import_addr img i of Some a \<Rightarrow> a
      | None \<Rightarrow> case symbol_at m i of Some s \<Rightarrow> img_base img + sym_value s | None \<Rightarrow> 0)"

text \<open>Symbol 0 is none: \<open>r.sym && r.sym < m.symbols.size()\<close>.\<close>

definition tls_symbol :: "modul \<Rightarrow> dword \<Rightarrow> symbol option" where
  "tls_symbol m i = (if i \<noteq> 0 then symbol_at m i else None)"

definition dtpmod64 :: "modul \<Rightarrow> image \<Rightarrow> tls_map \<Rightarrow> reloc \<Rightarrow> qword" where
  "dtpmod64 m img tls r =
     ucast (case tls_symbol m (rel_sym r) of
        Some s \<Rightarrow> if sym_is_import s then (case tls (sym_nid s) of Some l \<Rightarrow> tls_modid l | None \<Rightarrow> img_tls_modid img)
                  else img_tls_modid img
      | None \<Rightarrow> img_tls_modid img)"

definition dtpoff64 :: "modul \<Rightarrow> tls_map \<Rightarrow> reloc \<Rightarrow> qword" where
  "dtpoff64 m tls r =
     (case tls_symbol m (rel_sym r) of
        Some s \<Rightarrow> if sym_is_import s then (case tls (sym_nid s) of Some l \<Rightarrow> tls_offset l | None \<Rightarrow> sym_value s)
                  else sym_value s
      | None \<Rightarrow> 0) + rel_addend r"

text \<open>A null \<open>tls_module_below\<close> is the empty list.\<close>

definition tpoff64 :: "modul \<Rightarrow> image \<Rightarrow> tls_map \<Rightarrow> qword list \<Rightarrow> reloc \<Rightarrow> qword option" where
  "tpoff64 m img tls below r =
     (let loc = (case tls_symbol m (rel_sym r) of
                   None \<Rightarrow> None
                 | Some s \<Rightarrow> if sym_is_import s
                             then map_option (\<lambda>l. (tls_modid l, tls_offset l)) (tls (sym_nid s))
                             else Some (img_tls_modid img, sym_value s))
      in case loc of
           None \<Rightarrow> None
         | Some (modid, sv) \<Rightarrow>
             if modid \<noteq> 0 \<and> unat modid < length below \<and> below ! unat modid \<noteq> 0
             then Some (sv + rel_addend r - below ! unat modid) else None)"

text \<open>The value a relocation stores, if it is applied at all.\<close>

definition reloc_value :: "modul \<Rightarrow> image \<Rightarrow> tls_map \<Rightarrow> qword list \<Rightarrow> reloc \<Rightarrow> qword option" where
  "reloc_value m img tls below r =
     (let t = rel_type r in
      if t = R_X86_64_RELATIVE then Some (img_base img + rel_addend r)
      else if t = R_X86_64_64 then Some (sym_addr m img (rel_sym r) + rel_addend r)
      else if t = R_X86_64_GLOB_DAT \<or> t = R_X86_64_JUMP_SLOT then Some (sym_addr m img (rel_sym r))
      else if t = R_X86_64_DTPMOD64 then Some (dtpmod64 m img tls r)
      else if t = R_X86_64_DTPOFF64 then Some (dtpoff64 m tls r)
      else if t = R_X86_64_TPOFF64 then tpoff64 m img tls below r
      else None)"

definition apply_relocation ::
    "modul \<Rightarrow> tls_map \<Rightarrow> qword list \<Rightarrow> reloc \<Rightarrow> nat \<times> image \<Rightarrow> (nat \<times> image) option" where
  "apply_relocation m tls below r = (\<lambda>(applied, img).
     case reloc_value m img tls below r of
       None \<Rightarrow> Some (applied, img)
     | Some v \<Rightarrow> map_option (\<lambda>(ok, img). (if ok then applied + 1 else applied, img))
                   (write64 img (img_base img + rel_offset r) v))"

definition apply_relocations :: "modul \<Rightarrow> image \<Rightarrow> tls_map \<Rightarrow> qword list \<Rightarrow> (nat \<times> image) option" where
  "apply_relocations m img tls below = foldM (apply_relocation m tls below) (m_relocs m) (0, img)"

end
