(* ===== verification/TlsLayout.thy ===== *)
theory TlsLayout
  imports Prelude
begin

text \<open>
  The static TLS layout (\<open>loader/tls_layout.hpp\<close>) that the linker and the thread allocator
  share: modules are packed below the thread pointer in the order of their ids.
\<close>

record tls_desc =
  td_init_va :: qword
  td_filesz :: qword
  td_memsz :: qword
  td_align :: qword

record tls_layout =
  module_below :: "qword list"
  total_below :: qword

definition static_tls_align_up :: "qword \<Rightarrow> qword \<Rightarrow> qword" where
  "static_tls_align_up v align = (if align \<noteq> 0 then (v + align - 1) AND NOT (align - 1) else v)"

definition tls_alignment :: "tls_desc \<Rightarrow> qword" where
  "tls_alignment d = (if td_align d \<noteq> 0 then td_align d else 16)"

text \<open>One turn of the loop; a descriptor past the end of the array is not read.\<close>

definition place_module ::
    "tls_desc list \<Rightarrow> nat \<Rightarrow> qword \<times> qword \<times> qword list \<Rightarrow> (qword \<times> qword \<times> qword list) option" where
  "place_module descs i = (\<lambda>(offset, max_align, below).
     if i < length descs
     then let align = tls_alignment (descs ! i);
              offset = static_tls_align_up (offset + td_memsz (descs ! i)) align
          in Some (offset, max align max_align, below[i := offset])
     else None)"

text \<open>The descriptors are a pointer that may be null and a count.\<close>

definition make_static_tls_layout :: "tls_desc list option \<Rightarrow> nat \<Rightarrow> tls_layout option" where
  "make_static_tls_layout descs count =
     (case descs of
        None \<Rightarrow> Some \<lparr>module_below = replicate count 0, total_below = 0\<rparr>
      | Some ds \<Rightarrow>
          if count = 0 then Some \<lparr>module_below = [], total_below = 0\<rparr>
          else do {
            (offset, max_align, below) \<leftarrow> foldM (place_module ds) [1..<count] (0, 16, replicate count 0);
            Some \<lparr>module_below = below,
                  total_below = static_tls_align_up offset (if max_align < 64 then 64 else max_align)\<rparr> })"

subsection \<open>Rounding up\<close>

text \<open>An alignment is a power of two, as ELF requires.\<close>

definition pow2 :: "qword \<Rightarrow> bool" where
  "pow2 a \<longleftrightarrow> (\<exists>k < 64. a = 2 ^ k)"

lemma pow2_pos: "pow2 a \<Longrightarrow> 0 < unat a"
  by (auto simp: pow2_def unat_gt_0)

lemma unat_pow2:
  assumes "k < 64"
  shows "unat (2 ^ k :: qword) = 2 ^ k"
proof -
  have "(2 :: nat) ^ k < 2 ^ 64" using assms by (rule power_strict_increasing) simp
  then show ?thesis using unat_of_nat[of "2 ^ k", where 'a = 64] by simp
qed

lemma and_not_mask:
  fixes x :: qword
  assumes "k < 64"
  shows "unat (x AND NOT (2 ^ k - 1)) = unat x div 2 ^ k * 2 ^ k"
proof -
  have "x AND NOT (2 ^ k - 1) = push_bit k (drop_bit k x)"
    by (rule bit_eqI) (auto simp: bit_simps simp flip: mask_eq_exp_minus_1)
  also have "unat \<dots> = unat x div 2 ^ k * 2 ^ k"
  proof -
    have "unat x div 2 ^ k * 2 ^ k < 2 ^ 64"
      using le_less_trans[OF div_times_less_eq_dividend[of "unat x" "2 ^ k"] unsigned_less[of x]] by simp
    then show ?thesis
      by (simp only: unsigned_push_bit_eq unsigned_drop_bit_eq push_bit_eq_mult[of k "_ :: nat"] drop_bit_eq_div[of k "_ :: nat"]
          take_bit_nat_eq_self) (use unsigned_less[of x, where 'a = nat] in \<open>simp add: take_bit_nat_def\<close>)
  qed
  finally show ?thesis .
qed

lemma align_up_pow2:
  assumes "pow2 a" and "unat v + unat a \<le> 2 ^ 64"
  shows "unat (static_tls_align_up v a) = (unat v + unat a - 1) div unat a * unat a"
proof -
  obtain k where k: "k < 64" "a = 2 ^ k" using assms(1) by (auto simp: pow2_def)
  have "unat (v + (a - 1)) = unat v + (unat a - 1)"
  proof -
    have 1: "unat (a - 1) = unat a - 1"
      using pow2_pos[OF assms(1)] by (simp add: unat_minus_one unat_gt_0)
    show ?thesis using assms(2) pow2_pos[OF assms(1)]
      by (subst unat_add_lem[THEN iffD1]) (auto simp: 1)
  qed
  then have "unat (v + a - 1) = unat v + unat a - 1"
    using pow2_pos[OF assms(1)] by (simp add: algebra_simps)
  moreover have "a \<noteq> 0" using pow2_pos[OF assms(1)] by auto
  ultimately show ?thesis
    using and_not_mask[OF k(1), of "v + a - 1"] unat_pow2[OF k(1)]
    by (simp add: static_tls_align_up_def k(2))
qed

lemma align_up_bounds:
  assumes "pow2 a" and "unat v + unat a \<le> 2 ^ 64"
  shows "unat a dvd unat (static_tls_align_up v a)"
    and "unat v \<le> unat (static_tls_align_up v a)"
    and "unat (static_tls_align_up v a) < unat v + unat a"
proof -
  note e = align_up_pow2[OF assms] and p = pow2_pos[OF assms(1)]
  show "unat a dvd unat (static_tls_align_up v a)" by (simp add: e)
  show "unat v \<le> unat (static_tls_align_up v a)"
    using ceil_div_covers[OF p, of "unat v"] by (simp add: e ceil_div_def)
  have "(unat v + unat a - 1) div unat a * unat a \<le> unat v + unat a - 1" by simp
  then show "unat (static_tls_align_up v a) < unat v + unat a"
    using p unfolding e by linarith
qed

subsection \<open>The layout\<close>

text \<open>
  Bytes that bound the layout: every module's size and at most its alignment, which the rounding of
  the total may need once more.
\<close>

definition tls_budget :: "tls_desc list \<Rightarrow> nat" where
  "tls_budget ds = (\<Sum>d \<leftarrow> ds. unat (td_memsz d) + 2 * unat (tls_alignment d))"

lemma tls_budget_snoc: "tls_budget (ds @ [d]) = tls_budget ds + unat (td_memsz d) + 2 * unat (tls_alignment d)"
  by (simp add: tls_budget_def)

text \<open>The modules \<open>1..<n\<close> are placed: \<open>offset\<close> is the lowest byte used, \<open>ma\<close> the largest alignment.\<close>

definition placed :: "tls_desc list \<Rightarrow> nat \<Rightarrow> qword \<times> qword \<times> qword list \<Rightarrow> bool" where
  "placed ds n = (\<lambda>(offset, ma, below).
     length below = length ds \<and> pow2 ma \<and> 16 \<le> ma
     \<and> unat offset + unat ma \<le> tls_budget (take (n - 1) (tl ds)) + 16
     \<and> (\<forall>i. 0 < i \<and> i < n \<longrightarrow> unat (tls_alignment (ds ! i)) dvd unat (below ! i)
          \<and> tls_alignment (ds ! i) \<le> ma
          \<and> below ! i \<le> offset \<and> unat (td_memsz (ds ! i)) \<le> unat (below ! i))
     \<and> (\<forall>i j. 0 < i \<and> i < j \<and> j < n \<longrightarrow> unat (below ! i) + unat (td_memsz (ds ! j)) \<le> unat (below ! j)))"

lemma place_module_placed:
  assumes "placed ds n st" and "0 < n" and "n < length ds"
    and a: "pow2 (tls_alignment (ds ! n))"
    and b: "tls_budget (take n (tl ds)) + 64 \<le> 2 ^ 64"
  shows "\<exists>st'. place_module ds n st = Some st' \<and> placed ds (Suc n) st'"
proof -
  obtain offset ma below where st: "st = (offset, ma, below)" by (cases st) auto
  note inv = assms(1)[unfolded st placed_def, simplified]
  define d where "d = ds ! n"
  define off' where "off' = static_tls_align_up (offset + td_memsz d) (tls_alignment d)"
  have tk: "take n (tl ds) = take (n - 1) (tl ds) @ [d]"
    using assms(2,3) by (cases n) (auto simp: d_def take_Suc_conv_app_nth nth_tl)
  have bud: "tls_budget (take n (tl ds)) = tls_budget (take (n - 1) (tl ds)) + unat (td_memsz d) + 2 * unat (tls_alignment d)"
    unfolding tk by (rule tls_budget_snoc)
  have o: "unat (offset + td_memsz d) = unat offset + unat (td_memsz d)"
    using inv b bud by (intro unat_add_lem[THEN iffD1]) auto
  have ob: "unat offset + unat ma \<le> tls_budget (take (n - 1) (tl ds)) + 16" using inv by simp
  have ab: "unat (offset + td_memsz d) + unat (tls_alignment d) \<le> 2 ^ 64"
    using ob b bud o by linarith
  note up = align_up_bounds[OF a[folded d_def] ab, folded off'_def, unfolded o]
  have le: "offset \<le> off'" using up(2) by (simp add: word_le_nat_alt)
  have pm: "place_module ds n st = Some (off', max (tls_alignment d) ma, below[n := off'])"
    using assms(3) by (simp add: st place_module_def Let_def d_def off'_def)
  have mx: "unat (max (tls_alignment d) ma) \<le> unat (tls_alignment d) + unat ma"
    by (simp add: max_def)
  have "unat off' + unat (max (tls_alignment d) ma) \<le> tls_budget (take n (tl ds)) + 16"
    using up(3) ob bud mx by linarith
  moreover have "pow2 (max (tls_alignment d) ma)" "16 \<le> max (tls_alignment d) ma"
    using a inv by (auto simp: max_def d_def)
  moreover have "unat (tls_alignment (ds ! i)) dvd unat (below[n := off'] ! i)
      \<and> tls_alignment (ds ! i) \<le> max (tls_alignment d) ma
      \<and> below[n := off'] ! i \<le> off' \<and> unat (td_memsz (ds ! i)) \<le> unat (below[n := off'] ! i)"
    if "0 < i" "i < Suc n" for i
  proof (cases "i = n")
    case True
    then show ?thesis using up inv assms(3) by (auto simp: d_def)
  next
    case False
    then have "i < n" using that by simp
    then show ?thesis using inv that(1) le by (auto simp: le_max_iff_disj intro: order_trans)
  qed
  moreover have "unat (below[n := off'] ! i) + unat (td_memsz (ds ! j)) \<le> unat (below[n := off'] ! j)"
    if "0 < i" "i < j" "j < Suc n" for i j
  proof (cases "j = n")
    case True
    have "unat (below ! i) \<le> unat offset" using inv that True by (auto simp flip: word_le_nat_alt)
    then show ?thesis using True that inv assms(3) up(2) by (auto simp: d_def)
  next
    case False
    then show ?thesis using inv that by auto
  qed
  ultimately show ?thesis unfolding pm using inv by (auto simp: placed_def)
qed

lemma place_modules_placed:
  assumes "\<forall>d \<in> set (tl ds). pow2 (tls_alignment d)"
    and "tls_budget (tl ds) + 64 \<le> 2 ^ 64"
    and "0 < n" and "n \<le> length ds"
  shows "\<exists>st. foldM (place_module ds) [1..<n] (0, 16, replicate (length ds) 0) = Some st \<and> placed ds n st"
  using assms(3,4)
proof (induction n)
  case 0
  then show ?case by simp
next
  case (Suc n)
  show ?case
  proof (cases "n = 0")
    case True
    have "pow2 16" unfolding pow2_def by (rule exI[of _ 4]) simp
    then show ?thesis using True by (simp add: placed_def tls_budget_def)
  next
    case False
    then obtain st where st: "foldM (place_module ds) [1..<n] (0, 16, replicate (length ds) 0) = Some st"
      "placed ds n st" using Suc.IH Suc.prems(2) by (metis Suc_leD gr0I)
    have "tls_budget (take n (tl ds)) \<le> tls_budget (take n (tl ds)) + tls_budget (drop n (tl ds))" by simp
    also have "\<dots> = tls_budget (tl ds)"
      unfolding tls_budget_def sum_list_append[symmetric] map_append[symmetric] append_take_drop_id by (rule refl)
    finally have "tls_budget (take n (tl ds)) + 64 \<le> 2 ^ 64" using assms(2) by simp
    moreover have "ds ! n \<in> set (tl ds)"
    proof -
      have "n - 1 < length (tl ds)" using False Suc.prems(2) by simp
      from nth_mem[OF this] nth_tl[OF this] show ?thesis using False by simp
    qed
    ultimately obtain st' where st': "place_module ds n st = Some st'" "placed ds (Suc n) st'"
      using place_module_placed[OF st(2)] False Suc.prems(2) assms(1) Suc_le_lessD gr0I by metis
    have "[1..<Suc n] = [1..<n] @ [n]" using False by simp
    then have "foldM (place_module ds) [1..<Suc n] (0, 16, replicate (length ds) 0) = Some st'"
      by (simp only: foldM_append st(1) st'(1) foldM.simps Option.bind.bind_lunit)
    then show ?thesis using st'(2) by blast
  qed
qed

text \<open>
  C27: the static TLS blocks of the modules are pairwise disjoint below the thread pointer, each
  holds its module, starts at its alignment and lies within the total, which is aligned to 64
  bytes and to every module. The alignments are powers of two and the sizes do not exhaust the
  address space.
\<close>

theorem static_tls_blocks_disjoint:
  assumes "\<forall>d \<in> set (tl ds). pow2 (tls_alignment d)"
    and "tls_budget (tl ds) + 64 \<le> 2 ^ 64" and "ds \<noteq> []"
  shows "\<exists>l. make_static_tls_layout (Some ds) (length ds) = Some l
    \<and> length (module_below l) = length ds
    \<and> 64 dvd unat (total_below l)
    \<and> (\<forall>i. 0 < i \<and> i < length ds \<longrightarrow>
         unat (tls_alignment (ds ! i)) dvd unat (module_below l ! i)
         \<and> unat (tls_alignment (ds ! i)) dvd unat (total_below l)
         \<and> unat (td_memsz (ds ! i)) \<le> unat (module_below l ! i)
         \<and> module_below l ! i \<le> total_below l)
    \<and> (\<forall>i j. 0 < i \<and> i < j \<and> j < length ds \<longrightarrow>
         unat (module_below l ! i) + unat (td_memsz (ds ! j)) \<le> unat (module_below l ! j))"
proof -
  obtain offset ma below where fold:
      "foldM (place_module ds) [1..<length ds] (0, 16, replicate (length ds) 0) = Some (offset, ma, below)"
    and inv: "placed ds (length ds) (offset, ma, below)"
    using place_modules_placed[OF assms(1,2), of "length ds"] assms(3) by auto
  note inv = inv[unfolded placed_def, simplified]
  define al where "al = (if ma < 64 then 64 else ma)"
  have al: "pow2 al" "ma \<le> al" "unat al \<le> unat ma + 48" "64 \<le> al"
  proof -
    have "pow2 64" unfolding pow2_def by (rule exI[of _ 6]) simp
    moreover have "16 \<le> unat ma" using inv by (simp add: word_le_nat_alt)
    ultimately show "pow2 al" "ma \<le> al" "unat al \<le> unat ma + 48" "64 \<le> al" using inv by (auto simp: al_def)
  qed
  have "tls_budget (take (length ds - 1) (tl ds)) = tls_budget (tl ds)" by simp
  then have "unat offset + unat al \<le> 2 ^ 64" using inv assms(2) al(3) by simp
  note up = align_up_bounds[OF al(1) this]
  have dv: "unat a dvd unat al" if a: "pow2 a" and "a \<le> al" for a
  proof -
    obtain k k' where "k < 64" "a = 2 ^ k" "k' < 64" "al = 2 ^ k'" using a al(1) by (auto simp: pow2_def)
    then show ?thesis using \<open>a \<le> al\<close>
      by (auto simp: word_le_nat_alt unat_pow2 intro!: le_imp_power_dvd power_le_imp_le_exp[of 2])
  qed
  have "pow2 64" unfolding pow2_def by (rule exI[of _ 6]) simp
  from dv[OF this al(4)] have "64 dvd unat (static_tls_align_up offset al)"
    using up(1) dvd_trans by force
  moreover have "unat (tls_alignment (ds ! i)) dvd unat (static_tls_align_up offset al)"
      "below ! i \<le> static_tls_align_up offset al" if "0 < i" "i < length ds" for i
  proof -
    have "ds ! i \<in> set (tl ds)" using that by (cases ds; cases i) auto
    then have "pow2 (tls_alignment (ds ! i))" using assms(1) by auto
    moreover have "tls_alignment (ds ! i) \<le> al" using inv that al(2) by force
    ultimately show "unat (tls_alignment (ds ! i)) dvd unat (static_tls_align_up offset al)"
      using dv up(1) dvd_trans by blast
    have "below ! i \<le> offset" using inv that by blast
    then show "below ! i \<le> static_tls_align_up offset al"
      using up(2) unfolding word_le_nat_alt by linarith
  qed
  moreover have "make_static_tls_layout (Some ds) (length ds)
      = Some \<lparr>module_below = below, total_below = static_tls_align_up offset al\<rparr>"
    using assms(3) fold by (simp add: make_static_tls_layout_def al_def)
  ultimately show ?thesis using inv by auto
qed

lemma unat_numeral_32: "unat (32 :: qword) = 32"
  by simp

theorem static_tls_blocks_disjoint_witness:
  "\<exists>l. make_static_tls_layout (Some [\<lparr>td_init_va = 0, td_filesz = 0, td_memsz = 0, td_align = 0\<rparr>,
      \<lparr>td_init_va = 0, td_filesz = 0, td_memsz = 40, td_align = 32\<rparr>]) 2 = Some l
    \<and> length (module_below l) = 2 \<and> 64 dvd unat (total_below l) \<and> 32 dvd unat (module_below l ! 1)"
proof -
  let ?ds = "[\<lparr>td_init_va = 0, td_filesz = 0, td_memsz = 0, td_align = 0\<rparr>,
      \<lparr>td_init_va = 0, td_filesz = 0, td_memsz = 40, td_align = 32\<rparr>] :: tls_desc list"
  have "pow2 32" unfolding pow2_def by (rule exI[of _ 5]) simp
  then have 1: "\<forall>d \<in> set (tl ?ds). pow2 (tls_alignment d)" by (simp add: tls_alignment_def)
  have 2: "tls_budget (tl ?ds) + 64 \<le> 2 ^ 64" by (simp add: tls_budget_def tls_alignment_def)
  from static_tls_blocks_disjoint[OF 1 2] obtain l where
    "make_static_tls_layout (Some ?ds) (length ?ds) = Some l" "length (module_below l) = length ?ds"
    "64 dvd unat (total_below l)"
    "\<forall>i. 0 < i \<and> i < length ?ds \<longrightarrow> unat (tls_alignment (?ds ! i)) dvd unat (module_below l ! i)"
    by blast
  moreover have "tls_alignment (?ds ! 1) = 32" and "length ?ds = 2" by (simp_all add: tls_alignment_def)
  ultimately show ?thesis by (metis unat_numeral_32 zero_less_one one_less_numeral_iff semiring_norm(76))
qed

end
