(* ===== verification/Linker.thy ===== *)
theory Linker
  imports SelfImage TlsLayout
begin

text \<open>
  The multi-module linker (\<open>loader/linker.cpp\<close>): loading the inputs, TLS ids, the global export
  table, import resolution, relocation and the initialisers. \<open>files\<close> gives the bytes of a path or
  the reason it cannot be read, \<open>can_alloc\<close> says which image sizes the host can allocate. Hash maps
  are functions to options; \<open>size_t\<close> counters are 64-bit words. Error texts are constructors; the
  opt-in log is not modelled.
\<close>

subsection \<open>The program\<close>

record link_input =
  li_path :: cstr
  li_base :: qword
  li_skip_on_export_collision :: bool
  li_only_if_imported :: bool

record import_slot =
  sl_lib :: cstr
  sl_nid :: cstr

record module_exports =
  me_path :: cstr
  me_nids :: "cstr \<Rightarrow> qword option"

record skipped_module =
  sk_path :: cstr
  sk_nid :: cstr
  sk_owner :: cstr

record aliased_export =
  al_nid :: cstr
  al_winner_path :: cstr
  al_loser_path :: cstr
  al_winner :: qword
  al_loser :: qword

record program =
  p_mods :: "modul list"
  p_imgs :: "image list"
  p_slots :: "import_slot list"
  p_init_fns :: "qword list"
  p_tls_templates :: "tls_desc list"
  p_entry :: qword
  p_stub_base :: qword
  p_stub_size :: qword
  p_exports :: "cstr \<Rightarrow> qword option"
  p_mod_exports :: "module_exports list"
  p_skipped :: "skipped_module list"
  p_aliased :: "aliased_export list"
  p_total_imports :: qword
  p_resolved_cross_module :: qword
  p_stubbed :: qword

definition empty_program :: program where
  "empty_program =
     \<lparr>p_mods = [], p_imgs = [], p_slots = [], p_init_fns = [], p_tls_templates = [], p_entry = 0,
      p_stub_base = 0, p_stub_size = 96, p_exports = Map.empty, p_mod_exports = [], p_skipped = [],
      p_aliased = [], p_total_imports = 0, p_resolved_cross_module = 0, p_stubbed = 0\<rparr>"

datatype link_error =
    No_modules | Load_failed cstr load_error | Image_failed cstr image_error | All_skipped

text \<open>\<open>emplace\<close> does nothing when the key is present.\<close>

definition emplace :: "('k \<Rightarrow> 'v option) \<Rightarrow> 'k \<Rightarrow> 'v \<Rightarrow> ('k \<Rightarrow> 'v option)" where
  "emplace m k v = (case m k of None \<Rightarrow> m(k \<mapsto> v) | Some w \<Rightarrow> m)"

subsection \<open>Exports of a module\<close>

definition is_exported_symbol :: "symbol \<Rightarrow> bool" where
  "is_exported_symbol s \<longleftrightarrow> \<not> sym_is_import s \<and> sym_nid s \<noteq> [] \<and> sym_value s \<noteq> 0"

definition module_export_nids :: "modul \<Rightarrow> cstr list" where
  "module_export_nids m = map sym_nid (filter is_exported_symbol (m_symbols m))"

definition find_export_collision :: "modul \<Rightarrow> (cstr \<Rightarrow> cstr option) \<Rightarrow> cstr \<times> cstr" where
  "find_export_collision m claimed =
     (case find (\<lambda>s. is_exported_symbol s \<and> claimed (sym_nid s) \<noteq> None) (m_symbols m) of
        Some s \<Rightarrow> (sym_nid s, the (claimed (sym_nid s)))
      | None \<Rightarrow> ([], []))"

subsection \<open>Pass 1: loading\<close>

text \<open>\<open>Module::load\<close>.\<close>

definition load_path :: "(cstr \<Rightarrow> load_error + byte list) \<Rightarrow> cstr \<Rightarrow> (load_error + modul) option" where
  "load_path files path = (case files path of Inl e \<Rightarrow> Some (Inl e) | Inr bytes \<Rightarrow> load path bytes)"

definition claim_exports :: "modul \<Rightarrow> cstr \<Rightarrow> (cstr \<Rightarrow> cstr option) \<Rightarrow> cstr \<Rightarrow> cstr option" where
  "claim_exports m path nid_owner =
     foldl (\<lambda>o' s. if is_exported_symbol s then emplace o' (sym_nid s) path else o') nid_owner (m_symbols m)"

text \<open>A failing input leaves the program as far as it got.\<close>

primrec load_inputs ::
    "(cstr \<Rightarrow> load_error + byte list) \<Rightarrow> (nat \<Rightarrow> bool) \<Rightarrow> link_input list \<Rightarrow> (cstr \<Rightarrow> cstr option)
     \<Rightarrow> program \<Rightarrow> (program \<times> link_error option) option" where
  "load_inputs files can_alloc [] nid_owner out = Some (out, None)"
| "load_inputs files can_alloc (inp # inps) nid_owner out =
     do { mo \<leftarrow> load_path files (li_path inp);
          case mo of
            Inl e \<Rightarrow> Some (out, Some (Load_failed (li_path inp) e))
          | Inr m \<Rightarrow>
              let hit = (if li_skip_on_export_collision inp then find_export_collision m nid_owner else ([], []))
              in if fst hit \<noteq> []
                 then load_inputs files can_alloc inps nid_owner
                        (out\<lparr>p_skipped := p_skipped out @
                           [\<lparr>sk_path = li_path inp, sk_nid = fst hit, sk_owner = snd hit\<rparr>]\<rparr>)
                 else do {
                   r \<leftarrow> build_image can_alloc m (li_base inp);
                   case r of
                     Inl e \<Rightarrow> Some (out, Some (Image_failed (li_path inp) e))
                   | Inr img \<Rightarrow> load_inputs files can_alloc inps (claim_exports m (li_path inp) nid_owner)
                       (out\<lparr>p_mods := p_mods out @ [m], p_imgs := p_imgs out @ [img]\<rparr>) } }"

subsection \<open>TLS ids and exports\<close>

definition assign_tls_id :: "program \<Rightarrow> nat \<Rightarrow> program" where
  "assign_tls_id out i =
     (let m = p_mods out ! i; img = p_imgs out ! i in
      if m_tls_memsz m = 0 then out
      else out\<lparr>p_imgs := (p_imgs out)[i := img\<lparr>img_tls_modid := word_of_nat (length (p_tls_templates out))\<rparr>],
               p_tls_templates := p_tls_templates out @
                 [\<lparr>td_init_va = img_base img + m_tls_vaddr m, td_filesz = m_tls_filesz m,
                   td_memsz = m_tls_memsz m, td_align = m_tls_align m\<rparr>]\<rparr>)"

definition assign_tls :: "program \<Rightarrow> program" where
  "assign_tls out =
     foldl assign_tls_id
       (out\<lparr>p_tls_templates := p_tls_templates out @ [\<lparr>td_init_va = 0, td_filesz = 0, td_memsz = 0, td_align = 0\<rparr>]\<rparr>)
       [0..<length (p_mods out)]"

text \<open>The path the diagnostic of an aliased export names: \<open>?\<close> when no earlier module has it.\<close>

definition winner_path :: "module_exports list \<Rightarrow> cstr \<Rightarrow> qword \<Rightarrow> cstr" where
  "winner_path priors nid addr =
     (case find (\<lambda>me. me_nids me nid = Some addr) priors of Some me \<Rightarrow> me_path me | None \<Rightarrow> [63])"

definition export_symbol :: "cstr \<Rightarrow> qword \<Rightarrow> program \<times> module_exports \<Rightarrow> symbol \<Rightarrow> program \<times> module_exports" where
  "export_symbol path base = (\<lambda>(out, me) s.
     if \<not> sym_is_import s \<and> sym_nid s \<noteq> [] \<and> sym_value s \<noteq> 0
     then let addr = base + sym_value s; nid = sym_nid s;
              out1 = out\<lparr>p_exports := emplace (p_exports out) nid addr\<rparr>
          in ((case p_exports out nid of
                 None \<Rightarrow> out1
               | Some w \<Rightarrow>
                   if w \<noteq> addr
                   then out1\<lparr>p_aliased := p_aliased out1 @
                          [\<lparr>al_nid = nid, al_winner_path = winner_path (p_mod_exports out) nid w,
                            al_loser_path = path, al_winner = w, al_loser = addr\<rparr>]\<rparr>
                   else out1),
              me\<lparr>me_nids := emplace (me_nids me) nid addr\<rparr>)
     else (out, me))"

definition export_module :: "program \<Rightarrow> nat \<Rightarrow> program" where
  "export_module out i =
     (let m = p_mods out ! i;
          (out, me) = foldl (export_symbol (m_path m) (img_base (p_imgs out ! i)))
                        (out, \<lparr>me_path = m_path m, me_nids = Map.empty\<rparr>) (m_symbols m)
      in out\<lparr>p_mod_exports := p_mod_exports out @ [me]\<rparr>)"

subsection \<open>Pass 2: imports\<close>

text \<open>\<open>slot_of\<close> is the map from NIDs to stub slots.\<close>

definition resolve_import ::
    "nat \<Rightarrow> program \<times> (cstr \<Rightarrow> dword option) \<Rightarrow> import_record \<Rightarrow> program \<times> (cstr \<Rightarrow> dword option)" where
  "resolve_import i = (\<lambda>(out, slot_of) imp.
     let out = out\<lparr>p_total_imports := p_total_imports out + 1\<rparr>; img = p_imgs out ! i
     in case p_exports out (imp_nid imp) of
          Some a \<Rightarrow>
            (out\<lparr>p_imgs := (p_imgs out)[i := img\<lparr>img_import_addr := (img_import_addr img)(imp_sym_index imp \<mapsto> a)\<rparr>],
                 p_resolved_cross_module := p_resolved_cross_module out + 1\<rparr>, slot_of)
        | None \<Rightarrow>
            let (s, out, slot_of) =
                  (case slot_of (imp_nid imp) of
                     Some s \<Rightarrow> (s, out, slot_of)
                   | None \<Rightarrow> let s = word_of_nat (length (p_slots out))
                             in (s, out\<lparr>p_slots := p_slots out @ [\<lparr>sl_lib = imp_lib_name imp, sl_nid = imp_nid imp\<rparr>]\<rparr>,
                                 emplace slot_of (imp_nid imp) s))
            in (out\<lparr>p_imgs := (p_imgs out)[i := img\<lparr>img_import_addr := (img_import_addr img)
                      (imp_sym_index imp \<mapsto> p_stub_base out + ucast s * p_stub_size out)\<rparr>],
                    p_stubbed := p_stubbed out + 1\<rparr>, slot_of))"

definition resolve_module :: "program \<times> (cstr \<Rightarrow> dword option) \<Rightarrow> nat \<Rightarrow> program \<times> (cstr \<Rightarrow> dword option)" where
  "resolve_module st i = foldl (resolve_import i) st (m_imports (p_mods (fst st) ! i))"

subsection \<open>TLS symbols, relocation and initialisers\<close>

definition tls_symbols :: "program \<Rightarrow> tls_map" where
  "tls_symbols out =
     foldl (\<lambda>tls i. let mid = img_tls_modid (p_imgs out ! i) in
              if mid = 0 then tls
              else foldl (\<lambda>tls s. if \<not> sym_is_import s \<and> sym_nid s \<noteq> []
                                  then emplace tls (sym_nid s) \<lparr>tls_modid = mid, tls_offset = sym_value s\<rparr>
                                  else tls)
                     tls (m_symbols (p_mods out ! i)))
       Map.empty [0..<length (p_mods out)]"

definition relocate_module :: "tls_map \<Rightarrow> qword list \<Rightarrow> nat \<Rightarrow> program \<Rightarrow> program option" where
  "relocate_module tls below i out =
     map_option (\<lambda>(applied, img). out\<lparr>p_imgs := (p_imgs out)[i := img]\<rparr>)
       (apply_relocations (p_mods out ! i) (p_imgs out ! i) tls below)"

text \<open>
  The non-null entries of a module's init array. The loop is left at the first entry that is not
  in the image; \<^term>\<open>None\<close> is a read outside it or an endless loop.
\<close>

partial_function (option) init_entries :: "image \<Rightarrow> qword \<Rightarrow> qword \<Rightarrow> qword \<Rightarrow> qword list option" where
  "init_entries img va sz off =
     (if off + 8 \<le> sz
      then case img_at img (img_base img + va + off) of
             None \<Rightarrow> Some []
           | Some p \<Rightarrow>
               if p + 8 > length (img_mem img) then Some []
               else do { bytes \<leftarrow> read_at (img_mem img) p 8;
                         rest \<leftarrow> init_entries img va sz (off + 8);
                         Some (if le_nat bytes \<noteq> 0 then word_of_nat (le_nat bytes) # rest else rest) }
      else Some [])"

definition init_module :: "nat \<Rightarrow> program \<Rightarrow> program option" where
  "init_module i out =
     (let m = p_mods out ! i; img = p_imgs out ! i;
          fns = p_init_fns out @ (if m_init_va m \<noteq> 0 then [img_base img + m_init_va m] else [])
      in do { entries \<leftarrow> init_entries img (m_init_array_va m) (m_init_array_sz m) 0;
              Some (out\<lparr>p_init_fns := fns @ entries\<rparr>) })"

subsection \<open>Linking\<close>

text \<open>Everything after the modules are loaded.\<close>

definition link_loaded :: "program \<Rightarrow> program option" where
  "link_loaded out =
     (let out = out\<lparr>p_entry := img_entry (p_imgs out ! 0)\<rparr>;
          out = assign_tls out;
          idx = [0..<length (p_mods out)];
          out = foldl export_module out idx;
          out = fst (foldl resolve_module (out, Map.empty) idx)
      in do {
        l \<leftarrow> make_static_tls_layout (Some (p_tls_templates out)) (length (p_tls_templates out));
        out \<leftarrow> foldM (relocate_module (tls_symbols out) (module_below l)) idx out;
        foldM init_module (rev [1..<length (p_mods out)]) out })"

definition link_program ::
    "(cstr \<Rightarrow> load_error + byte list) \<Rightarrow> (nat \<Rightarrow> bool) \<Rightarrow> link_input list \<Rightarrow> qword \<Rightarrow> program
     \<Rightarrow> (program \<times> link_error option) option" where
  "link_program files can_alloc inputs stub_base out =
     (if inputs = [] then Some (out, Some No_modules)
      else do {
        (out, e) \<leftarrow> load_inputs files can_alloc inputs Map.empty (out\<lparr>p_stub_base := stub_base\<rparr>);
        case e of
          Some e \<Rightarrow> Some (out, Some e)
        | None \<Rightarrow> if p_imgs out = [] then Some (out, Some All_skipped)
                  else do { out \<leftarrow> link_loaded out; Some (out, None) } })"

end
