(* ===== verification/SelfModuleFacts.thy ===== *)
theory SelfModuleFacts
  imports SelfModule
begin

text \<open>
  Properties of the module parser on untrusted files: the dynamic section ends, table sizes are
  bounded by the file, imports refer to symbols, and where the library id overflows.
\<close>

subsection \<open>Reads\<close>

lemma size_of_unat: "length b < 2 ^ 64 \<Longrightarrow> unat (size_of b) = length b"
  by (simp add: unat_of_nat)

lemma unat_below_64: "unat w < 2 ^ 64" for w :: qword
proof -
  have "unat w < 2 ^ LENGTH(64)" by (rule unsigned_less)
  then show ?thesis by simp
qed

lemma unat_of_small: "n < 2 ^ 64 \<Longrightarrow> unat (word_of_nat n :: qword) = n"
  by (simp add: unat_of_nat)

lemma rd_outside:
  assumes "length b < 2 ^ 64" and "n < 2 ^ 64" and "length b < unat off + n"
  shows "rd n b off = replicate n 0"
proof -
  have "\<not> self_read_ok off (word_of_nat n) (size_of b)"
  proof
    assume ok: "self_read_ok off (word_of_nat n) (size_of b)"
    have u: "unat (word_of_nat n :: qword) = n" "unat (size_of b) = length b"
      using assms by (simp_all add: unat_of_nat)
    have le: "(word_of_nat n :: qword) \<le> size_of b" "off \<le> size_of b - word_of_nat n"
      using ok by (simp_all add: self_read_ok_def)
    then have "unat (size_of b - word_of_nat n) = length b - n" "n \<le> length b"
      using u by (simp_all add: unat_sub word_le_nat_alt)
    then show False using le(2) assms(3) by (simp add: word_le_nat_alt)
  qed
  then show ?thesis by (simp add: rd_def)
qed

lemma self_read_ok_iff:
  assumes "length b < 2 ^ 63" and "n < 2 ^ 63"
  shows "self_read_ok off (word_of_nat n) (size_of b) \<longleftrightarrow> unat off + n \<le> length b"
proof -
  have u: "unat (word_of_nat n :: qword) = n" "unat (size_of b) = length b"
    using assms by (simp_all add: unat_of_nat)
  show ?thesis
  proof (cases "n \<le> length b")
    case True
    then have le: "(word_of_nat n :: qword) \<le> size_of b" using u by (simp add: word_le_nat_alt)
    then have "unat (size_of b - word_of_nat n) = length b - n" using u by (simp add: unat_sub)
    with le True show ?thesis by (auto simp: self_read_ok_def word_le_nat_alt)
  next
    case False
    then show ?thesis using u by (simp add: self_read_ok_def word_le_nat_alt)
  qed
qed

text \<open>A little-endian value of a file, and a field of a table entry of 24 bytes, zero where the entry is cut off.\<close>

definition bytes_at :: "byte list \<Rightarrow> nat \<Rightarrow> nat \<Rightarrow> 'w::len word" where
  "bytes_at file p n = word_of_nat (le_nat (take n (drop p file)))"

definition entry_at :: "byte list \<Rightarrow> nat \<Rightarrow> nat \<Rightarrow> nat \<Rightarrow> 'w::len word" where
  "entry_at file p k n = (if p + 24 \<le> length file then bytes_at file (p + k) n else 0)"

lemma le_nat_zeros: "le_nat (replicate n 0) = 0"
  by (induction n) simp_all

lemma field_zeros: "field (replicate n 0) k w = 0"
  by (simp add: field_def le_nat_zeros)

lemma field_rd_24:
  assumes "length file < 2 ^ 63" and "k + n \<le> 24"
  shows "field (rd 24 file off) k n = entry_at file (unat off) k n"
proof -
  have "take n (drop k (take 24 (drop (unat off) file))) = take n (drop (unat off + k) file)"
    using assms(2) by (simp add: drop_take min_absorb1 add.commute)
  moreover have "self_read_ok off (word_of_nat 24) (size_of file) \<longleftrightarrow> unat off + 24 \<le> length file"
    using assms(1) by (rule self_read_ok_iff) simp
  ultimately show ?thesis
    using field_zeros[of 24 k n] by (auto simp: rd_def entry_at_def field_def bytes_at_def)
qed

subsection \<open>The dynamic section ends\<close>

text \<open>At most one entry per sixteen bytes of the file behind the current position, and the stop entry.\<close>

lemma dyn_entries_step:
  assumes size: "length file < 2 ^ 63"
  shows "length file < unat (off + p) + 16 * k + 16 \<Longrightarrow>
    \<exists>ds. dyn_entries file off filesz p = Some ds \<and> length ds \<le> k + 1"
proof (induction k arbitrary: p)
  case 0
  then have "rd 16 file (off + p) = replicate 16 0" using size by (intro rd_outside) simp_all
  then show ?case
    by (subst dyn_entries.simps) (simp add: Let_def field_zeros)
next
  case (Suc k)
  show ?case
  proof (cases "length file < unat (off + p) + 16")
    case True
    then have "rd 16 file (off + p) = replicate 16 0" using size by (intro rd_outside) simp_all
    then show ?thesis by (subst dyn_entries.simps) (simp add: Let_def field_zeros)
  next
    case False
    have "unat (off + (p + 16)) = unat (off + p) + 16"
      using False size unat_add_lem[of "off + p" 16] by (simp add: add.assoc)
    then have "length file < unat (off + (p + 16)) + 16 * k + 16" using Suc.prems by simp
    from Suc.IH[OF this] obtain ds where
      "dyn_entries file off filesz (p + 16) = Some ds" "length ds \<le> k + 1" by blast
    then show ?thesis
      by (subst dyn_entries.simps) (auto simp: Let_def)
  qed
qed

text \<open>
  The loop over the dynamic section returns for every file, offset and declared section
  size, after at most one entry per sixteen bytes of the file and one stop entry; a section size
  near \<open>2^64\<close> cannot make the parser spin.
\<close>

lemma dyn_entries_terminates:
  assumes "length file < 2 ^ 63"
  shows "\<exists>ds. dyn_entries file off filesz 0 = Some ds \<and> length ds \<le> length file div 16 + 1"
proof (rule dyn_entries_step[OF assms])
  show "length file < unat (off + 0) + 16 * (length file div 16) + 16"
    using mod_less_divisor[of 16 "length file"] by simp
qed

subsection \<open>Library ids\<close>

lemma b64_index_bound: "b64_index c = Some i \<Longrightarrow> 0 \<le> i \<and> i \<le> 64"
  by (auto simp: b64_index_def Let_def split: if_splits)

lemma b64_loop_bound:
  "0 \<le> v \<Longrightarrow> v < 65 ^ k \<Longrightarrow> length s + k \<le> 5 \<Longrightarrow>
   \<exists>w. b64_loop s v = Some w \<and> - 1 \<le> w \<and> w < 65 ^ 5"
proof (induction s arbitrary: v k)
  case Nil
  have "(65 :: int) ^ k \<le> 65 ^ 5" using Nil by (intro power_increasing) simp_all
  with Nil show ?case by simp
next
  case (Cons c s)
  show ?case
  proof (cases "b64_index c")
    case None
    then show ?thesis by simp
  next
    case (Some i)
    note i = b64_index_bound[OF Some]
    have "v + 1 \<le> 65 ^ k" using Cons.prems(2) by simp
    then have "(v + 1) * 65 \<le> 65 ^ Suc k" by simp
    then have n: "0 \<le> v * 64 + i" "v * 64 + i < 65 ^ Suc k" using i Cons.prems(1) by simp_all
    have "(65 :: int) ^ Suc k \<le> 65 ^ 5" using Cons.prems(3) by (intro power_increasing) simp_all
    then have "v * 64 + i < 2 ^ 31" using n(2) by (simp add: order.strict_trans2)
    with Cons.IH[OF n] Cons.prems(3) Some show ?thesis by simp
  qed
qed

text \<open>
  C23: a library id of at most five characters is decoded without overflow; six characters can
  overflow the \<open>int\<close> accumulator, which is undefined behaviour.
\<close>

theorem b64val_overflow:
  "(length s \<le> 5 \<longrightarrow> (\<exists>v. b64val s = Some v \<and> - 1 \<le> v \<and> v < 65 ^ 5))
   \<and> b64val [0x39, 0x39, 0x39, 0x39, 0x39, 0x39] = None"
proof
  show "length s \<le> 5 \<longrightarrow> (\<exists>v. b64val s = Some v \<and> - 1 \<le> v \<and> v < 65 ^ 5)"
    using b64_loop_bound[of 0 0 s] by (auto simp: b64val_def)
  show "b64val [0x39, 0x39, 0x39, 0x39, 0x39, 0x39] = None"
    by (simp add: b64val_def b64_index_def)
qed

theorem b64val_overflow_witness: "\<exists>v. b64val [0x42, 0x41] = Some v \<and> - 1 \<le> v \<and> v < 65 ^ 5"
  using b64val_overflow[of "[0x42, 0x41]"] by simp

subsection \<open>Parsed modules\<close>

definition parsed :: "byte list \<Rightarrow> modul \<Rightarrow> bool" where
  "parsed file m \<longleftrightarrow> m_file m = file \<and> m_machine m = 0x3e \<and> m_syment m \<noteq> 0
     \<and> m_loads m = filter is_load (m_segments m)"

definition no_tables :: "modul \<Rightarrow> bool" where
  "no_tables m \<longleftrightarrow> m_symbols m = [] \<and> m_imports m = [] \<and> m_relocs m = []"

lemma foldl_keeps: "P s \<Longrightarrow> (\<And>s x. P s \<Longrightarrow> P (f s x)) \<Longrightarrow> P (foldl f s xs)"
  by (induction xs arbitrary: s) simp_all

lemma if_keeps: "P a \<Longrightarrow> P b \<Longrightarrow> P (if c then a else b)"
  by simp

lemma parsed_add_header:
  "parsed file m \<and> no_tables m \<Longrightarrow> parsed file (add_header d o' m i) \<and> no_tables (add_header d o' m i)"
  by (simp add: parsed_def no_tables_def add_header_def Let_def)

lemma parsed_dyn_tag:
  "parsed file m \<and> no_tables m \<Longrightarrow> parsed file (dyn_tag m d) \<and> no_tables (dyn_tag m d)"
  unfolding dyn_tag_def Let_def
  by (intro if_keeps[where P = "\<lambda>m. parsed file m \<and> no_tables m"])
    (simp_all add: parsed_def no_tables_def)

lemma parsed_dyn_record:
  "parsed file m \<and> no_tables m \<Longrightarrow> parsed file (dyn_record m d) \<and> no_tables (dyn_record m d)"
  unfolding dyn_record_def Let_def
  by (intro if_keeps[where P = "\<lambda>m. parsed file m \<and> no_tables m"])
    (simp_all add: parsed_def no_tables_def)

lemma clamp_le: "clamp_table_bytes o' d s \<le> s"
  by (auto simp: clamp_table_bytes_def Let_def not_le word_le_nat_alt word_less_nat_alt unat_sub)

lemma symbol_count_le:
  assumes "length (m_file m) < 2 ^ 63" and "m_syment m \<noteq> 0"
  shows "symbol_count m * unat (m_syment m) \<le> length (m_file m)"
proof -
  have "unat (clamp_table_bytes o' d (size_of (m_file m)) div m_syment m) * unat (m_syment m) \<le> length (m_file m)"
    for o' d
  proof -
    have "unat (clamp_table_bytes o' d (size_of (m_file m)) div m_syment m) * unat (m_syment m)
        \<le> unat (clamp_table_bytes o' d (size_of (m_file m)))"
      by (simp add: unat_div)
    also have "\<dots> \<le> unat (size_of (m_file m))"
      using clamp_le[of o' d "size_of (m_file m)"] by (simp add: word_le_nat_alt)
    finally show ?thesis using assms(1) by (simp add: size_of_unat)
  qed
  then show ?thesis using assms(2) by (simp add: symbol_count_def Let_def)
qed

definition import_of :: "symbol list \<Rightarrow> nat \<Rightarrow> import_record" where
  "import_of syms i = \<lparr>imp_nid = sym_nid (syms ! i), imp_lib_name = sym_lib_name (syms ! i),
                       imp_sym_index = word_of_nat i\<rparr>"

definition import_symbol_ok :: "symbol \<Rightarrow> bool" where
  "import_symbol_ok s \<longleftrightarrow> (sym_is_import s \<longrightarrow> sym_shndx s = 0 \<and> sym_value s = 0 \<and> hash \<in> set (sym_raw s))"

lemma read_symbol_ok: "read_symbol m i = Some s \<Longrightarrow> import_symbol_ok s"
  by (auto simp: read_symbol_def import_symbol_ok_def Let_def)

lemma symbols_loop:
  assumes "no_tables m" and "foldM add_symbol [0..<n] m = Some m'"
  shows "length (m_symbols m') = n \<and> list_all import_symbol_ok (m_symbols m')
    \<and> m_imports m' = map (import_of (m_symbols m')) (filter (\<lambda>i. sym_is_import (m_symbols m' ! i)) [0..<n])
    \<and> m_relocs m' = [] \<and> (\<forall>fl. parsed fl m \<longrightarrow> parsed fl m')"
  using assms(2)
proof (induction n arbitrary: m')
  case 0
  then show ?case using assms(1) by (simp add: no_tables_def)
next
  case (Suc n)
  then obtain m1 where m1: "foldM add_symbol [0..<n] m = Some m1" "add_symbol n m1 = Some m'"
    by (auto simp: foldM_append split: Option.bind_splits)
  note IH = Suc.IH[OF m1(1)]
  from m1(2) obtain s where s: "read_symbol m1 n = Some s"
    and m': "m' = (let m = m1\<lparr>m_symbols := m_symbols m1 @ [s]\<rparr> in
       if sym_is_import s
       then m\<lparr>m_imports := m_imports m @ [\<lparr>imp_nid = sym_nid s, imp_lib_name = sym_lib_name s,
                                           imp_sym_index = word_of_nat n\<rparr>]\<rparr> else m)"
    by (auto simp: add_symbol_def)
  have syms: "m_symbols m' = m_symbols m1 @ [s]" unfolding m' by (simp add: Let_def)
  have old: "(m_symbols m1 @ [s]) ! i = m_symbols m1 ! i" if "i < n" for i
    using IH that by (simp add: nth_append)
  have new: "(m_symbols m1 @ [s]) ! n = s" using IH by (simp add: nth_append)
  have "filter (\<lambda>i. sym_is_import ((m_symbols m1 @ [s]) ! i)) [0..<n] = filter (\<lambda>i. sym_is_import (m_symbols m1 ! i)) [0..<n]"
    using old by (intro filter_cong) simp_all
  moreover have "map (import_of (m_symbols m1 @ [s])) (filter (\<lambda>i. sym_is_import (m_symbols m1 ! i)) [0..<n])
      = m_imports m1"
    using IH old by (auto simp: import_of_def intro!: map_cong)
  moreover have "m_imports m' = (if sym_is_import s then m_imports m1 @ [import_of (m_symbols m1 @ [s]) n] else m_imports m1)"
    unfolding m' by (simp add: Let_def import_of_def new)
  ultimately have "m_imports m' = map (import_of (m_symbols m')) (filter (\<lambda>i. sym_is_import (m_symbols m' ! i)) [0..<Suc n])"
    unfolding syms using new by simp
  moreover have "m_relocs m' = m_relocs m1" "parsed fl m1 \<Longrightarrow> parsed fl m'" for fl
    unfolding m' by (simp_all add: Let_def parsed_def)
  ultimately show ?case using IH read_symbol_ok[OF s] syms by simp
qed

lemma read_relocs_keeps:
  "parsed file m \<Longrightarrow> parsed file (read_relocs va sz plt m)"
  "m_symbols (read_relocs va sz plt m) = m_symbols m" "m_imports (read_relocs va sz plt m) = m_imports m"
  by (simp_all add: read_relocs_def Let_def parsed_def)

lemma read_relocs_length:
  assumes "length (m_file m) < 2 ^ 63"
  shows "length (m_relocs (read_relocs va sz plt m)) \<le> length (m_relocs m) + length (m_file m) div 24"
proof -
  have "unat (clamp_table_bytes o' d (size_of (m_file m))) div 24 \<le> length (m_file m) div 24" for o' d
    using clamp_le[of o' d "size_of (m_file m)"] assms
    by (intro div_le_mono) (simp add: word_le_nat_alt size_of_unat)
  then show ?thesis by (simp add: read_relocs_def Let_def)
qed

text \<open>Everything but the three tables, which is settled before the first symbol is read.\<close>

definition core :: "modul \<Rightarrow> modul" where
  "core m = m\<lparr>m_symbols := [], m_imports := [], m_relocs := []\<rparr>"

lemma core_fields:
  "m_file (core m) = m_file m" "m_loads (core m) = m_loads m" "m_syment (core m) = m_syment m"
  "m_symtab_va (core m) = m_symtab_va m" "m_strtab_va (core m) = m_strtab_va m" "m_symtabsz (core m) = m_symtabsz m"
  "m_rela_va (core m) = m_rela_va m" "m_rela_sz (core m) = m_rela_sz m" "m_jmprel_va (core m) = m_jmprel_va m"
  "m_jmprel_sz (core m) = m_jmprel_sz m" "m_import_libs (core m) = m_import_libs m"
  by (simp_all add: core_def)

lemma core_eqD:
  assumes "core m = core m'"
  shows "m_file m = m_file m'" "m_loads m = m_loads m'" "m_syment m = m_syment m'"
    "m_symtab_va m = m_symtab_va m'" "m_strtab_va m = m_strtab_va m'" "m_symtabsz m = m_symtabsz m'"
    "m_rela_va m = m_rela_va m'" "m_rela_sz m = m_rela_sz m'" "m_jmprel_va m = m_jmprel_va m'"
    "m_jmprel_sz m = m_jmprel_sz m'" "m_import_libs m = m_import_libs m'"
  using core_fields[of m] core_fields[of m'] by (simp_all add: assms)

lemma core_reads:
  assumes "core m = core m'"
  shows "read_symbol m i = read_symbol m' i" and "symbol_count m = symbol_count m'"
  unfolding read_symbol_def str_at_def symbol_count_def core_eqD[OF assms] by (rule refl)+

lemma core_updates:
  "core (m\<lparr>m_symbols := ss\<rparr>) = core m" "core (m\<lparr>m_imports := is\<rparr>) = core m" "core (m\<lparr>m_relocs := rs\<rparr>) = core m"
  by (simp_all add: core_def)

lemma core_read_relocs: "core (read_relocs va sz plt m) = core m"
  by (simp add: read_relocs_def core_updates Let_def)

lemma symbols_loop_entries:
  assumes "no_tables m" and "foldM add_symbol [0..<n] m = Some m'"
  shows "core m' = core m \<and> (\<forall>i<n. read_symbol m i = Some (m_symbols m' ! i))"
  using assms(2)
proof (induction n arbitrary: m')
  case 0
  then show ?case by simp
next
  case (Suc n)
  then obtain m1 where m1: "foldM add_symbol [0..<n] m = Some m1" "add_symbol n m1 = Some m'"
    by (auto simp: foldM_append split: Option.bind_splits)
  note IH = Suc.IH[OF m1(1)]
  from m1(2) obtain s where s: "read_symbol m1 n = Some s"
    and m': "m' = (let m = m1\<lparr>m_symbols := m_symbols m1 @ [s]\<rparr> in
       if sym_is_import s
       then m\<lparr>m_imports := m_imports m @ [\<lparr>imp_nid = sym_nid s, imp_lib_name = sym_lib_name s,
                                           imp_sym_index = word_of_nat n\<rparr>]\<rparr> else m)"
    by (auto simp: add_symbol_def)
  have c: "core m' = core m1" "m_symbols m' = m_symbols m1 @ [s]"
    unfolding m' by (simp_all add: Let_def core_updates)
  have "length (m_symbols m1) = n" using symbols_loop[OF assms(1) m1(1)] by simp
  with IH s c core_reads(1)[of m1 m] show ?case
    by (auto simp: nth_append less_Suc_eq)
qed

lemma load_stages:
  assumes "load path file = Some (Inr m)"
  obtains m3 m4 where "parsed file m3" and "no_tables m3"
    and "foldM add_symbol [0..<symbol_count m3] m3 = Some m4"
    and "m = read_relocs (m_jmprel_va m4) (m_jmprel_sz m4) True (read_relocs (m_rela_va m4) (m_rela_sz m4) False m4)"
proof -
  from assms(1) obtain data_seg elf0 base where b: "self_header file = (data_seg, elf0)" "find_elf file elf0 = Some base"
    by (auto simp: load_def split: prod.splits option.splits)
  define eh where "eh = rd 64 file base"
  define m0 where "m0 = empty_module\<lparr>m_path := path, m_file := file, m_elf_base := base,
                     m_type := field eh 16 2, m_machine := field eh 18 2, m_entry := field eh 24 8\<rparr>"
  define m1 where "m1 = foldl (add_header data_seg (field eh 32 8)) m0 [0..<unat (field eh 56 2 :: half)]"
  have mach: "m_machine m0 = 0x3e"
    using assms(1) b by (auto simp: load_def Let_def m0_def eh_def split: if_splits)
  have p0: "parsed file m0 \<and> no_tables m0"
    using mach by (simp add: parsed_def no_tables_def m0_def empty_module_def)
  have p1: "parsed file m1 \<and> no_tables m1"
    unfolding m1_def
    by (rule foldl_keeps[where P = "\<lambda>m. parsed file m \<and> no_tables m", OF p0 parsed_add_header])
  have eq: "load path file = (case filter (\<lambda>s. seg_type s = PT_DYNAMIC) (m_segments m1) of
        [] \<Rightarrow> Some (Inl No_dynamic)
      | ds \<Rightarrow> do {
          dyns \<leftarrow> dyn_entries file (dyn_offset file (m_loads m1) (last ds)) (seg_filesz (last ds)) 0;
          let m = foldl dyn_tag m1 dyns;
          let m = foldl dyn_record m dyns;
          m \<leftarrow> foldM add_symbol [0..<symbol_count m] m;
          let m = read_relocs (m_rela_va m) (m_rela_sz m) False m;
          Some (Inr (read_relocs (m_jmprel_va m) (m_jmprel_sz m) True m)) })"
    using mach unfolding load_def b Let_def prod.case option.case m1_def m0_def eh_def by simp
  from assms(1) obtain dyns m4 where
    m4: "foldM add_symbol [0..<symbol_count (foldl dyn_record (foldl dyn_tag m1 dyns) dyns)]
        (foldl dyn_record (foldl dyn_tag m1 dyns) dyns) = Some m4"
    and m: "m = (let m = read_relocs (m_rela_va m4) (m_rela_sz m4) False m4 in
        read_relocs (m_jmprel_va m) (m_jmprel_sz m) True m)"
    unfolding eq by (auto simp: Let_def split: list.splits Option.bind_splits)
  have p3: "parsed file (foldl dyn_record (foldl dyn_tag m1 dyns) dyns)
      \<and> no_tables (foldl dyn_record (foldl dyn_tag m1 dyns) dyns)"
    by (rule foldl_keeps[where P = "\<lambda>m. parsed file m \<and> no_tables m", OF _ parsed_dyn_record])
      (rule foldl_keeps[where P = "\<lambda>m. parsed file m \<and> no_tables m", OF p1 parsed_dyn_tag])
  have "m = read_relocs (m_jmprel_va m4) (m_jmprel_sz m4) True (read_relocs (m_rela_va m4) (m_rela_sz m4) False m4)"
    unfolding m Let_def
    using core_eqD(9,10)[OF core_read_relocs, of "m_rela_va m4" "m_rela_sz m4" False m4] by simp
  with p3 m4 that show ?thesis by blast
qed

lemma load_ok:
  assumes "load path file = Some (Inr m)" and size: "length file < 2 ^ 63"
  shows "m_file m = file \<and> m_machine m = 0x3e \<and> m_loads m = filter is_load (m_segments m)
    \<and> length (m_symbols m) \<le> length file \<and> length (m_relocs m) \<le> 2 * (length file div 24)
    \<and> m_imports m = map (import_of (m_symbols m)) (filter (\<lambda>i. sym_is_import (m_symbols m ! i)) [0..<length (m_symbols m)])
    \<and> (\<forall>s \<in> set (m_symbols m). sym_is_import s \<longrightarrow> sym_shndx s = 0 \<and> sym_value s = 0 \<and> hash \<in> set (sym_raw s))"
proof -
  obtain m3 m4 where p3: "parsed file m3" "no_tables m3"
    and m4: "foldM add_symbol [0..<symbol_count m3] m3 = Some m4"
    and m: "m = read_relocs (m_jmprel_va m4) (m_jmprel_sz m4) True (read_relocs (m_rela_va m4) (m_rela_sz m4) False m4)"
    by (rule load_stages[OF assms(1)])
  note loop = symbols_loop[OF p3(2) m4]
  have p4: "parsed file m4" and file4: "m_file m4 = file" using loop p3 by (auto simp: parsed_def)
  have "symbol_count m3 * 1 \<le> symbol_count m3 * unat (m_syment m3)"
    using p3 by (intro mult_le_mono2) (simp add: parsed_def Suc_le_eq unat_gt_0)
  also have "\<dots> \<le> length file"
    using symbol_count_le[of m3] p3 size by (simp add: parsed_def)
  finally have n: "symbol_count m3 \<le> length file" by simp
  define m5 where "m5 = read_relocs (m_rela_va m4) (m_rela_sz m4) False m4"
  have m': "m = read_relocs (m_jmprel_va m4) (m_jmprel_sz m4) True m5" using m by (simp add: m5_def)
  have p5: "parsed file m5" unfolding m5_def by (rule read_relocs_keeps(1)[OF p4])
  have "parsed file m" unfolding m' by (rule read_relocs_keeps(1)[OF p5])
  moreover have s: "m_symbols m = m_symbols m4" "m_imports m = m_imports m4"
    unfolding m' m5_def by (simp_all add: read_relocs_keeps)
  moreover have "length (m_relocs m5) \<le> length file div 24"
    using read_relocs_length[of m4 "m_rela_va m4" "m_rela_sz m4" False] loop size file4 by (simp add: m5_def)
  then have "length (m_relocs m) \<le> 2 * (length file div 24)"
    using read_relocs_length[of m5 "m_jmprel_va m4" "m_jmprel_sz m4" True] size p5 unfolding m'
    by (simp add: parsed_def)
  ultimately show ?thesis
    using loop n by (auto simp: parsed_def list_all_iff import_symbol_ok_def)
qed

subsection \<open>The tables and the file\<close>

text \<open>The name at a position of the file: what is before the next zero byte, empty where there is none.\<close>

definition name_at :: "byte list \<Rightarrow> nat \<Rightarrow> cstr" where
  "name_at file p = (if 0 \<in> set (drop p file) then takeWhile (\<lambda>c. c \<noteq> 0) (drop p file) else [])"

definition string_at :: "modul \<Rightarrow> nat \<Rightarrow> cstr" where
  "string_at m k =
     (let uf = va2foff (m_loads m) (m_strtab_va m) in if is_neg uf then [] else name_at (m_file m) (unat uf + k))"

lemma str_at_string:
  assumes "length (m_file m) < 2 ^ 63"
  shows "str_at m off = string_at m (unat off)"
proof -
  define uf where "uf = va2foff (m_loads m) (m_strtab_va m)"
  have u: "unat (size_of (m_file m)) = length (m_file m)" using assms by (simp add: size_of_unat)
  show ?thesis
  proof (cases "unat off \<le> length (m_file m) \<and> unat uf \<le> length (m_file m)")
    case True
    then have "unat (uf + off) = unat uf + unat off"
      using assms by (subst unat_add_lem[THEN iffD1]) simp_all
    with True u show ?thesis
      by (auto simp: str_at_def string_at_def name_at_def Let_def word_le_nat_alt word_less_nat_alt simp flip: uf_def)
  next
    case False
    then have "length (m_file m) < unat uf + unat off" by auto
    with False u show ?thesis
      by (auto simp: str_at_def string_at_def name_at_def Let_def word_le_nat_alt word_less_nat_alt simp flip: uf_def)
  qed
qed

lemma clamp_unat:
  "unat (clamp_table_bytes off d s) = min (unat d) (unat s - unat off)"
proof (cases "off \<ge> s")
  case True
  then show ?thesis by (simp add: clamp_table_bytes_def word_le_nat_alt)
next
  case False
  then have "unat (s - off) = unat s - unat off" by (intro unat_sub) simp
  with False show ?thesis
    by (auto simp: clamp_table_bytes_def Let_def min_def word_le_nat_alt word_less_nat_alt)
qed

text \<open>
  How many symbols the dynamic section declares: the size of the symbol table, or the distance to
  the string table behind it, in entries; and how many of them the file holds.
\<close>

definition symbols_declared :: "modul \<Rightarrow> nat" where
  "symbols_declared m =
     (let d = unat (m_symtabsz m) div unat (m_syment m)
      in if d = 0 \<and> m_symtab_va m < m_strtab_va m
         then unat (m_strtab_va m - m_symtab_va m) div unat (m_syment m) else d)"

definition symbols_held :: "modul \<Rightarrow> nat" where
  "symbols_held m =
     (let fo = va2foff (m_loads m) (m_symtab_va m)
      in if is_neg fo then 0
         else min (symbols_declared m) ((length (m_file m) - unat fo) div unat (m_syment m)))"

lemma min_mult_div: "0 < s \<Longrightarrow> min (N * s) R div s = min N (R div s)" for N s R :: nat
  by (cases "N * s \<le> R") (auto simp: min_def less_eq_div_iff_mult_less_eq not_le
      div_le_mono[of R "N * s" s, simplified] antisym)

lemma symbol_count_held:
  assumes "length (m_file m) < 2 ^ 63" and "m_syment m \<noteq> 0"
  shows "symbol_count m = symbols_held m"
proof -
  define fo where "fo = va2foff (m_loads m) (m_symtab_va m)"
  define n0 where "n0 = m_symtabsz m div m_syment m"
  define n1 where "n1 = (if n0 = 0 \<and> \<not> is_neg fo \<and> m_strtab_va m > m_symtab_va m
                  then (m_strtab_va m - m_symtab_va m) div m_syment m else n0)"
  have s: "0 < unat (m_syment m)" using assms(2) by (simp add: unat_gt_0)
  have mult: "unat (a div m_syment m * m_syment m) = unat (a div m_syment m) * unat (m_syment m)" for a
  proof -
    have "unat (a div m_syment m) * unat (m_syment m) < 2 ^ 64"
      using div_times_less_eq_dividend[of "unat a" "unat (m_syment m)"] unat_below_64[of a]
      by (simp only: unat_div)
    then show ?thesis using unat_mult_lem[of "a div m_syment m" "m_syment m"] by simp
  qed
  have nm: "unat (n1 * m_syment m) = unat n1 * unat (m_syment m)" by (simp add: n1_def n0_def mult)
  have n: "unat n1 = symbols_declared m" if "\<not> is_neg fo"
    using that unat_eq_0[of n0] by (simp add: n1_def n0_def symbols_declared_def Let_def unat_div)
  have "symbol_count m = (if is_neg fo then 0
      else unat (clamp_table_bytes fo (n1 * m_syment m) (size_of (m_file m)) div m_syment m))"
    using assms(2) by (simp add: symbol_count_def Let_def n1_def n0_def flip: fo_def)
  also have "\<dots> = symbols_held m"
    using n assms(1) s
    by (simp add: symbols_held_def Let_def unat_div clamp_unat nm size_of_unat min_mult_div flip: fo_def)
  finally show ?thesis .
qed

lemma entry_position:
  assumes "length (m_file m) < 2 ^ 63" and "i < symbols_held m"
  shows "unat (va2foff (m_loads m) (m_symtab_va m) + word_of_nat i * m_syment m)
       = unat (va2foff (m_loads m) (m_symtab_va m)) + i * unat (m_syment m)"
proof -
  define fo where "fo = va2foff (m_loads m) (m_symtab_va m)"
  have i: "i < (length (m_file m) - unat fo) div unat (m_syment m)"
    using assms(2) by (simp add: symbols_held_def Let_def fo_def split: if_splits)
  then have "i * unat (m_syment m) \<le> length (m_file m) - unat fo"
    by (meson div_times_less_eq_dividend le_trans less_imp_le mult_le_mono1)
  moreover have "0 < length (m_file m) - unat fo" using i by (cases "length (m_file m) - unat fo") auto
  ultimately have "unat fo + i * unat (m_syment m) < 2 ^ 64" using assms(1) by simp
  moreover have "fo + word_of_nat i * m_syment m = word_of_nat (unat fo + i * unat (m_syment m))" by simp
  ultimately have "unat (fo + word_of_nat i * m_syment m) = unat fo + i * unat (m_syment m)"
    by (metis unat_of_small)
  then show ?thesis by (simp add: fo_def)
qed

text \<open>
  The symbol at index \<open>i\<close>: the fields of entry \<open>i\<close> of the symbol table, at its place in the file. It
  is an import exactly when the entry has no section, no value and a name with a library id.
\<close>

definition symbol_from_file :: "modul \<Rightarrow> nat \<Rightarrow> symbol \<Rightarrow> bool" where
  "symbol_from_file m i s \<longleftrightarrow>
     (let p = unat (va2foff (m_loads m) (m_symtab_va m)) + i * unat (m_syment m); file = m_file m
      in sym_raw s = string_at m (unat (entry_at file p 0 4 :: dword))
         \<and> split_name (sym_raw s) = Some (sym_nid s, sym_lib_id s)
         \<and> sym_shndx s = entry_at file p 6 2 \<and> sym_value s = entry_at file p 8 8
         \<and> sym_is_import s = (sym_shndx s = 0 \<and> sym_value s = 0 \<and> hash \<in> set (sym_raw s))
         \<and> sym_lib_name s = (case m_import_libs m (sym_lib_id s) of Some n \<Rightarrow> n
              | None \<Rightarrow> if sym_lib_id s \<ge> 0 then [108, 105, 98, 35] @ decimal (nat (sym_lib_id s)) else []))"

lemma field_narrow:
  assumes "length file < 2 ^ 63"
  shows "unat (field (rd 24 file off) 0 4 :: qword) = unat (entry_at file (unat off) 0 4 :: dword)"
proof -
  have small: "le_nat (take 4 (drop q file)) < 256 ^ 4" for q
    using le_nat_bound[of "take 4 (drop q file)"]
    by (rule order_less_le_trans) (intro power_increasing, simp_all)
  have "le_nat (take 4 (drop q file)) mod 2 ^ 64 = le_nat (take 4 (drop q file))"
    "le_nat (take 4 (drop q file)) mod 2 ^ 32 = le_nat (take 4 (drop q file))" for q
    by (rule mod_less, rule order_less_le_trans[OF small], simp)+
  then show ?thesis
    using assms by (simp add: field_rd_24 entry_at_def bytes_at_def unat_of_nat)
qed

lemma read_symbol_from_file:
  assumes "length (m_file m) < 2 ^ 63" and "i < symbols_held m" and "read_symbol m i = Some s"
  shows "symbol_from_file m i s"
proof -
  define off where "off = va2foff (m_loads m) (m_symtab_va m) + word_of_nat i * m_syment m"
  note pos = entry_position[OF assms(1,2), folded off_def]
  have raw: "str_at m (field (rd 24 (m_file m) off) 0 4)
      = string_at m (unat (entry_at (m_file m) (unat off) 0 4 :: dword))"
    using assms(1) by (simp add: str_at_string field_narrow)
  have fields: "(field (rd 24 (m_file m) off) 6 2 :: half) = entry_at (m_file m) (unat off) 6 2"
    "(field (rd 24 (m_file m) off) 8 8 :: qword) = entry_at (m_file m) (unat off) 8 8"
    using assms(1) by (simp_all add: field_rd_24)
  from assms(3) show ?thesis
    unfolding read_symbol_def Let_def off_def[symmetric] raw fields symbol_from_file_def pos[symmetric]
    by (auto split: option.split)
qed

text \<open>
  One relocation table: as many entries as its declared size has and the file holds, each with the
  fields of its 24 bytes.
\<close>

definition reloc_table :: "modul \<Rightarrow> qword \<Rightarrow> qword \<Rightarrow> bool \<Rightarrow> reloc list" where
  "reloc_table m va declared plt =
     (let fo = va2foff (m_loads m) va; file = m_file m
      in if is_neg fo then []
         else map (\<lambda>i. let p = unat fo + 24 * i
                       in \<lparr>rel_offset = bytes_at file p 8, rel_type = bytes_at file (p + 8) 4,
                           rel_sym = bytes_at file (p + 12) 4, rel_addend = bytes_at file (p + 16) 8,
                           rel_is_plt = plt\<rparr>)
                [0..<min (unat declared) (length file - unat fo) div 24])"

lemma info_parts:
  assumes "p + 8 \<le> length file"
  shows "ucast ((bytes_at file p 8 :: qword) AND 0xffffffff) = (bytes_at file p 4 :: dword)"
    and "ucast (drop_bit 32 (bytes_at file p 8 :: qword)) = (bytes_at file (p + 4) 4 :: dword)"
proof -
  define x y where "x = le_nat (take 4 (drop p file))" and "y = le_nat (take 4 (drop (p + 4) file))"
  have "take 8 (drop p file) = take 4 (drop p file) @ take 4 (drop (p + 4) file)"
    using take_add[of 4 4 "drop p file"] by (simp add: add.commute)
  then have b: "(bytes_at file p 8 :: qword) = word_of_nat (x + 2 ^ 32 * y)"
    using assms by (simp add: bytes_at_def le_nat_append x_def y_def)
  have xy: "x < 2 ^ 32" "y < 2 ^ 32"
    using le_nat_bound[of "take 4 (drop p file)"] le_nat_bound[of "take 4 (drop (p + 4) file)"] assms
    by (simp_all add: x_def y_def)
  then have u: "unat (word_of_nat (x + 2 ^ 32 * y) :: qword) = x + 2 ^ 32 * y" by (intro unat_of_small) simp
  have m: "(0xffffffff :: qword) = mask 32" by (simp add: mask_eq_exp_minus_1)
  show "ucast ((bytes_at file p 8 :: qword) AND 0xffffffff) = (bytes_at file p 4 :: dword)"
  proof -
    have "(ucast (w AND mask 32) :: dword) = ucast w" for w :: qword
      by (rule bit_word_eqI) (simp add: bit_simps)
    then show ?thesis
      unfolding b m using xy u
      by (intro word_unat_eq_iff[THEN iffD2])
        (simp add: bytes_at_def unsigned_ucast_eq take_bit_eq_mod x_def[symmetric] unat_of_nat)
  qed
  show "ucast (drop_bit 32 (bytes_at file p 8 :: qword)) = (bytes_at file (p + 4) 4 :: dword)"
  proof -
    have "unat (drop_bit 32 w) = unat w div 2 ^ 32" for w :: qword
      by (simp only: unat_drop_bit_eq) (rule drop_bit_eq_div)
    then show ?thesis
      unfolding b using xy u
      by (intro word_unat_eq_iff[THEN iffD2])
        (simp add: bytes_at_def unsigned_ucast_eq take_bit_eq_mod y_def[symmetric] unat_of_nat)
  qed
qed

lemma read_relocs_table:
  assumes size: "length (m_file m) < 2 ^ 63"
  shows "m_relocs (read_relocs va sz plt m) = m_relocs m @ reloc_table m va sz plt"
proof -
  define fo where "fo = va2foff (m_loads m) va"
  define R where "R = min (unat sz) (length (m_file m) - unat fo)"
  have entry: "read_reloc (m_file m) fo plt i = (let p = unat fo + 24 * i
      in \<lparr>rel_offset = bytes_at (m_file m) p 8, rel_type = bytes_at (m_file m) (p + 8) 4,
          rel_sym = bytes_at (m_file m) (p + 12) 4, rel_addend = bytes_at (m_file m) (p + 16) 8, rel_is_plt = plt\<rparr>)"
    if "i < R div 24" for i
  proof -
    have "24 * Suc i \<le> R" using that by (simp add: less_eq_div_iff_mult_less_eq flip: Suc_le_eq)
    then have "24 * Suc i \<le> length (m_file m) - unat fo" by (simp add: R_def)
    then have e: "unat fo + 24 * i + 24 \<le> length (m_file m)" by arith
    then have "unat (word_of_nat (unat fo + 24 * i) :: qword) = unat fo + 24 * i"
      using size by (intro unat_of_small) simp
    then have p: "unat (fo + word_of_nat i * 24) = unat fo + 24 * i" by (simp add: mult.commute)
    have f: "field (rd 24 (m_file m) (fo + word_of_nat i * 24)) k n = bytes_at (m_file m) (unat fo + 24 * i + k) n"
      if "k + n \<le> 24" for k n
      using that e by (simp add: field_rd_24[OF size] p entry_at_def)
    have w: "unat fo + 24 * i + 8 + 8 \<le> length (m_file m)" using e by simp
    have "unat fo + 24 * i + 8 + 4 = unat fo + 24 * i + 12" by simp
    with info_parts[OF w] show ?thesis by (simp add: read_reloc_def Let_def f)
  qed
  have "unat (clamp_table_bytes fo sz (size_of (m_file m))) = R"
    using size by (simp add: clamp_unat R_def size_of_unat)
  then have "read_relocs va sz plt m = (if is_neg fo then m
      else m\<lparr>m_relocs := m_relocs m @ map (read_reloc (m_file m) fo plt) [0..<R div 24]\<rparr>)"
    by (simp add: read_relocs_def Let_def fo_def)
  moreover have "reloc_table m va sz plt = (if is_neg fo then [] else map (read_reloc (m_file m) fo plt) [0..<R div 24])"
    using entry by (simp add: reloc_table_def Let_def fo_def[symmetric] R_def[symmetric])
  ultimately show ?thesis by simp
qed

lemma load_tables:
  assumes "load path file = Some (Inr m)" and size: "length file < 2 ^ 63"
  shows "length (m_symbols m) = symbols_held m"
    and "i < length (m_symbols m) \<Longrightarrow> symbol_from_file m i (m_symbols m ! i)"
    and "m_relocs m = reloc_table m (m_rela_va m) (m_rela_sz m) False @ reloc_table m (m_jmprel_va m) (m_jmprel_sz m) True"
proof -
  obtain m3 m4 where p3: "parsed file m3" "no_tables m3"
    and m4: "foldM add_symbol [0..<symbol_count m3] m3 = Some m4"
    and m: "m = read_relocs (m_jmprel_va m4) (m_jmprel_sz m4) True (read_relocs (m_rela_va m4) (m_rela_sz m4) False m4)"
    by (rule load_stages[OF assms(1)])
  note loop = symbols_loop[OF p3(2) m4] and entries = symbols_loop_entries[OF p3(2) m4]
  have c4: "core m = core m4" and s: "m_symbols m = m_symbols m4"
    unfolding m by (simp_all add: core_read_relocs read_relocs_keeps)
  have c3: "core m = core m3" using c4 entries by simp
  have fl: "m_file m = file" "m_syment m \<noteq> 0" using p3(1) core_eqD(1,3)[OF c3] by (simp_all add: parsed_def)
  have count: "symbol_count m3 = symbols_held m"
    using symbol_count_held[of m] fl size core_reads(2)[OF c3] by simp
  show len: "length (m_symbols m) = symbols_held m" using loop count s by simp
  show "symbol_from_file m i (m_symbols m ! i)" if "i < length (m_symbols m)"
  proof (rule read_symbol_from_file)
    show "read_symbol m i = Some (m_symbols m ! i)"
      using entries that len count s core_reads(1)[OF c3] by simp
  qed (use that len fl size in simp_all)
  have same: "reloc_table m' va sz plt = reloc_table m va sz plt" if "core m' = core m" for m' va sz plt
    unfolding reloc_table_def core_eqD[OF that] ..
  define m5 where "m5 = read_relocs (m_rela_va m4) (m_rela_sz m4) False m4"
  have c5: "core m5 = core m" using c4 by (simp add: m5_def core_read_relocs)
  have f4: "length (m_file m4) < 2 ^ 63" and f5: "length (m_file m5) < 2 ^ 63"
    using fl size core_eqD(1)[OF c4] core_eqD(1)[OF c5] by simp_all
  have "m_relocs m = m_relocs m5 @ reloc_table m (m_jmprel_va m) (m_jmprel_sz m) True"
    by (subst m, fold m5_def) (simp only: read_relocs_table[OF f5] same[OF c5] core_eqD(9,10)[OF c4])
  also have "m_relocs m5 = reloc_table m (m_rela_va m) (m_rela_sz m) False"
    unfolding m5_def read_relocs_table[OF f4] same[OF c4[symmetric]] core_eqD(7,8)[OF c4] using loop by simp
  finally show "m_relocs m = reloc_table m (m_rela_va m) (m_rela_sz m) False @ reloc_table m (m_jmprel_va m) (m_jmprel_sz m) True" .
qed

text \<open>
  C21: A module that loads is an x86-64 module whose load list is the file-backed headers. Its
  symbol table has as many symbols as are declared and the file holds, each with the fields of its
  entry in the file; a symbol is an import exactly when it is undefined and has a library id, and
  the import list names exactly these symbols, in order, each by its index. Its relocations are the
  entries of the two relocation tables of the file, as many as are declared and the file holds.
\<close>

theorem load_well_formed:
  assumes "load path file = Some (Inr m)" and "length file < 2 ^ 63"
  shows "m_file m = file \<and> m_machine m = 0x3e \<and> m_loads m = filter is_load (m_segments m)
    \<and> length (m_symbols m) = symbols_held m \<and> length (m_symbols m) \<le> length file
    \<and> (\<forall>i < length (m_symbols m). symbol_from_file m i (m_symbols m ! i))
    \<and> m_imports m = map (import_of (m_symbols m)) (filter (\<lambda>i. sym_is_import (m_symbols m ! i)) [0..<length (m_symbols m)])
    \<and> m_relocs m = reloc_table m (m_rela_va m) (m_rela_sz m) False @ reloc_table m (m_jmprel_va m) (m_jmprel_sz m) True
    \<and> length (m_relocs m) \<le> 2 * (length file div 24)"
  using load_ok[OF assms] load_tables[OF assms] by blast

subsection \<open>Loading returns\<close>

text \<open>
  A condition on the bytes alone under which loading is defined: no zero-terminated string of the
  file has a library id that overflows.
\<close>

definition lib_ids_fit :: "byte list \<Rightarrow> bool" where
  "lib_ids_fit file \<longleftrightarrow> (\<forall>p < length file. split_name (name_at file p) \<noteq> None)"

lemma lib_ids_fit_string:
  assumes "lib_ids_fit (m_file m)"
  shows "split_name (string_at m k) \<noteq> None"
proof -
  have "split_name (name_at (m_file m) p) \<noteq> None" for p
    using assms by (cases "p < length (m_file m)") (simp_all add: lib_ids_fit_def name_at_def split_name_def)
  moreover have "split_name [] \<noteq> None" by (simp add: split_name_def)
  ultimately show ?thesis by (simp add: string_at_def Let_def del: not_None_eq)
qed

text \<open>It holds of every file whose strings have at most seven characters, which a single pass decides.\<close>

fun short_strings :: "nat \<Rightarrow> byte list \<Rightarrow> bool" where
  "short_strings k [] \<longleftrightarrow> True"
| "short_strings k (c # cs) \<longleftrightarrow> (if c = 0 then short_strings 7 cs else 0 < k \<and> short_strings (k - 1) cs)"

lemma short_strings_mono: "short_strings k bs \<Longrightarrow> k \<le> l \<Longrightarrow> short_strings l bs"
  by (induction k bs arbitrary: l rule: short_strings.induct) (auto split: if_splits)

lemma short_strings_drop: "short_strings 7 bs \<Longrightarrow> short_strings 7 (drop p bs)"
proof (induction bs arbitrary: p)
  case Nil
  then show ?case by simp
next
  case (Cons c cs)
  have "short_strings 7 cs" using Cons.prems by (auto split: if_splits intro: short_strings_mono)
  with Cons show ?case by (cases p) simp_all
qed

lemma short_strings_take: "short_strings k bs \<Longrightarrow> length (takeWhile (\<lambda>c. c \<noteq> 0) bs) \<le> k"
  by (induction k bs rule: short_strings.induct) (auto split: if_splits)

lemma split_name_short:
  assumes "length raw \<le> 7"
  shows "split_name raw \<noteq> None"
proof (cases "hash \<in> set raw")
  case True
  define rest where "rest = tl (dropWhile (\<lambda>c. c \<noteq> hash) raw)"
  have "dropWhile (\<lambda>c. c \<noteq> hash) raw \<noteq> []" using True by (simp add: dropWhile_eq_Nil_conv)
  moreover have "length (dropWhile (\<lambda>c. c \<noteq> hash) raw) \<le> length raw" by (rule length_dropWhile_le)
  ultimately have "length rest \<le> 6" using assms by (simp add: rest_def)
  moreover have "length (takeWhile (\<lambda>c. c \<noteq> hash) rest) < length rest" if "hash \<in> set rest"
  proof -
    have "length rest = length (takeWhile (\<lambda>c. c \<noteq> hash) rest) + length (dropWhile (\<lambda>c. c \<noteq> hash) rest)"
      by (metis length_append takeWhile_dropWhile_id)
    moreover have "dropWhile (\<lambda>c. c \<noteq> hash) rest \<noteq> []" using that by (simp add: dropWhile_eq_Nil_conv)
    ultimately show ?thesis by simp
  qed
  ultimately have "length (if hash \<in> set rest then takeWhile (\<lambda>c. c \<noteq> hash) rest else []) \<le> 5" by auto
  moreover have "b64val lib \<noteq> None" if "length lib \<le> 5" for lib
    using b64_loop_bound[of 0 0 lib] that by (auto simp: b64val_def)
  ultimately have "b64val (if hash \<in> set rest then takeWhile (\<lambda>c. c \<noteq> hash) rest else []) \<noteq> None" by blast
  with True show ?thesis by (simp add: split_name_def Let_def flip: rest_def)
qed (simp add: split_name_def)

lemma short_strings_fit: "short_strings 7 file \<Longrightarrow> lib_ids_fit file"
  unfolding lib_ids_fit_def name_at_def
  by (auto intro!: split_name_short intro: short_strings_take[OF short_strings_drop] simp del: not_None_eq)

lemma add_symbol_returns:
  assumes "length file < 2 ^ 63" and "lib_ids_fit file" and "m_file m = file"
  shows "\<exists>m'. add_symbol i m = Some m' \<and> m_file m' = file"
proof -
  have "split_name (str_at m off) \<noteq> None" for off
    using lib_ids_fit_string[of m] assms by (simp add: str_at_string)
  then obtain nid lib where n: "split_name (str_at m (field (rd 24 (m_file m)
      (va2foff (m_loads m) (m_symtab_va m) + word_of_nat i * m_syment m)) 0 4)) = Some (nid, lib)" by fastforce
  then obtain s where "read_symbol m i = Some s" by (simp add: read_symbol_def Let_def)
  then show ?thesis using assms(3) by (simp add: add_symbol_def Let_def)
qed

text \<open>
  Loading always returns then: the loop over the dynamic section ends by itself, and the library
  ids are the only undefined behaviour.
\<close>

lemma load_returns:
  assumes size: "length file < 2 ^ 63" and "lib_ids_fit file"
  shows "load path file \<noteq> None"
proof -
  have symbols: "\<exists>m'. foldM add_symbol is m = Some m' \<and> m_file m' = file" if "m_file m = file" for "is" m
    by (rule foldM_defined) (use that add_symbol_returns[OF assms] in auto)
  have "m_file (add_header d o' m i) = m_file m" for d o' m i
    by (simp add: add_header_def Let_def)
  then have header: "m_file (foldl (add_header d o') m xs) = m_file m" for d o' m xs
    by (induction xs arbitrary: m) simp_all
  have "m_file (dyn_tag m t) = m_file m" "m_file (dyn_record m t) = m_file m" for m t
    by (simp_all add: dyn_tag_def dyn_record_def Let_def)
  then have dynamic: "m_file (foldl dyn_tag m ts) = m_file m" "m_file (foldl dyn_record m ts) = m_file m" for m ts
    by (induction ts arbitrary: m) simp_all
  obtain data_seg elf0 where h: "self_header file = (data_seg, elf0)" by fastforce
  show ?thesis
  proof (cases "find_elf file elf0")
    case None
    then show ?thesis by (simp add: load_def h)
  next
    case (Some base)
    define eh where "eh = rd 64 file base"
    define m0 where "m0 = empty_module\<lparr>m_path := path, m_file := file, m_elf_base := base,
                     m_type := field eh 16 2, m_machine := field eh 18 2, m_entry := field eh 24 8\<rparr>"
    define m1 where "m1 = foldl (add_header data_seg (field eh 32 8)) m0 [0..<unat (field eh 56 2 :: half)]"
    have m1: "m_file m1 = file" by (simp add: m1_def header m0_def)
    have body: "do {
        dyns \<leftarrow> dyn_entries file off sz 0;
        let m = foldl dyn_tag m1 dyns;
        let m = foldl dyn_record m dyns;
        m \<leftarrow> foldM add_symbol [0..<symbol_count m] m;
        let m = read_relocs (m_rela_va m) (m_rela_sz m) False m;
        Some (Inr (read_relocs (m_jmprel_va m) (m_jmprel_sz m) True m) :: load_error + modul) } \<noteq> None" for off sz
    proof -
      obtain dyns where d: "dyn_entries file off sz 0 = Some dyns"
        using dyn_entries_terminates[OF size] by blast
      define m3 where "m3 = foldl dyn_record (foldl dyn_tag m1 dyns) dyns"
      have "m_file m3 = file" by (simp add: m3_def dynamic m1)
      then obtain m4 where "foldM add_symbol [0..<symbol_count m3] m3 = Some m4" using symbols by blast
      with d show ?thesis by (simp add: Let_def flip: m3_def)
    qed
    have "load path file = (if m_machine m0 \<noteq> 0x3e then Some (Inl Not_x86_64)
       else case filter (\<lambda>s. seg_type s = PT_DYNAMIC) (m_segments m1) of
          [] \<Rightarrow> Some (Inl No_dynamic)
        | ds \<Rightarrow> do {
            dyns \<leftarrow> dyn_entries file (dyn_offset file (m_loads m1) (last ds)) (seg_filesz (last ds)) 0;
            let m = foldl dyn_tag m1 dyns;
            let m = foldl dyn_record m dyns;
            m \<leftarrow> foldM add_symbol [0..<symbol_count m] m;
            let m = read_relocs (m_rela_va m) (m_rela_sz m) False m;
            Some (Inr (read_relocs (m_jmprel_va m) (m_jmprel_sz m) True m)) })"
      unfolding load_def h prod.case Some option.case Let_def eh_def m0_def m1_def by (rule refl)
    then show ?thesis using body by (simp split: list.split)
  qed
qed

text \<open>A minimal module: an ELF header, one \<open>PT_DYNAMIC\<close> header and an empty dynamic section.\<close>

definition tiny_elf :: "byte list" where
  "tiny_elf = [0x7f, 0x45, 0x4c, 0x46, 0, 0, 0, 0, 0, 0, 0, 0, 0, 0, 0, 0, 0, 0, 0x3e, 0,
    0, 0, 0, 0, 0, 0, 0, 0, 0, 0, 0, 0, 64, 0, 0, 0, 0, 0, 0, 0, 0, 0, 0, 0, 0, 0, 0, 0, 0, 0, 0, 0, 0, 0, 0, 0, 1,
    0, 0, 0, 0, 0, 0, 0, 2, 0, 0, 0, 0, 0, 0, 0, 120, 0, 0, 0, 0, 0, 0, 0, 0, 0, 0, 0, 0, 0, 0, 0, 0, 0, 0, 0, 0, 0, 0, 0,
    16, 0, 0, 0, 0, 0, 0, 0, 16, 0, 0, 0, 0, 0, 0, 0, 0, 0, 0, 0, 0, 0, 0, 0, 0, 0, 0, 0, 0, 0, 0, 0, 0, 0, 0, 0, 0, 0, 0, 0]"

lemma tiny_length: "length tiny_elf = 136"
  by (simp add: tiny_elf_def)

lemma tiny_rd:
  "rd 32 tiny_elf 0 = take 32 tiny_elf" "rd 64 tiny_elf 0 = take 64 tiny_elf"
  "rd 56 tiny_elf 64 = take 56 (drop 64 tiny_elf)" "rd 16 tiny_elf 120 = drop 120 tiny_elf"
  by (simp_all add: rd_def tiny_length self_read_ok_def)

lemma tiny_header: "self_header tiny_elf = (Map.empty, 0)"
  unfolding self_header_def tiny_rd by (simp add: tiny_elf_def field_def)

lemma tiny_find: "find_elf tiny_elf 0 = Some 0"
  unfolding find_elf_def tiny_rd by (simp add: tiny_elf_def elf_magic_def)

lemma tiny_ehdr:
  "field (rd 64 tiny_elf 0) 18 2 = (0x3e :: half)" "field (rd 64 tiny_elf 0) 32 8 = (64 :: qword)"
  "field (rd 64 tiny_elf 0) 56 2 = (1 :: half)"
  unfolding tiny_rd by (simp_all add: tiny_elf_def field_def)

lemma tiny_phdr:
  "field (rd 56 tiny_elf 64) 0 4 = (2 :: dword)" "field (rd 56 tiny_elf 64) 4 4 = (0 :: dword)"
  "field (rd 56 tiny_elf 64) 8 8 = (120 :: qword)" "field (rd 56 tiny_elf 64) 16 8 = (0 :: qword)"
  "field (rd 56 tiny_elf 64) 32 8 = (16 :: qword)" "field (rd 56 tiny_elf 64) 40 8 = (16 :: qword)"
  unfolding tiny_rd by (simp_all add: tiny_elf_def field_def)

lemma tiny_segment: "read_segment tiny_elf Map.empty 0 64 0 =
    \<lparr>seg_type = 2, seg_flags = 0, seg_vaddr = 0, seg_memsz = 16, seg_filesz = 16, seg_file_off = 120\<rparr>"
  by (simp add: read_segment_def Let_def tiny_phdr)

lemma tiny_dyn: "dyn_entries tiny_elf off 16 0 = Some [\<lparr>d_tag = field (rd 16 tiny_elf off) 0 8, d_val = field (rd 16 tiny_elf off) 8 8\<rparr>]"
  by (subst dyn_entries.simps, subst dyn_entries.simps) (simp add: Let_def)

lemma tiny_field: "field (rd 16 tiny_elf 120) 0 8 = (0 :: qword)" "field (rd 16 tiny_elf 120) 8 8 = (0 :: qword)"
  unfolding tiny_rd by (simp_all add: tiny_elf_def field_def)

lemma tiny_entry: "dyn_offset tiny_elf [\<lparr>seg_type = 2, seg_flags = 0, seg_vaddr = 0, seg_memsz = 16, seg_filesz = 16, seg_file_off = 120\<rparr>]
    \<lparr>seg_type = 2, seg_flags = 0, seg_vaddr = 0, seg_memsz = 16, seg_filesz = 16, seg_file_off = 120\<rparr> = 120"
  by (simp add: dyn_offset_def va2foff_def va_in_def PT_LOAD_def is_neg_def bit_iff_odd Let_def)

lemma tiny_elf_loads: "\<exists>m. load [] tiny_elf = Some (Inr m)"
  by (simp add: load_def tiny_header tiny_find Let_def tiny_ehdr add_header_def empty_module_def tiny_segment
      is_load_def PT_LOAD_def PT_DYNAMIC_def PT_TLS_def tiny_entry tiny_dyn tiny_field dyn_tag_def dyn_record_def
      symbol_count_def va2foff_def va_in_def clamp_table_bytes_def tiny_length)

theorem load_well_formed_witness:
  "\<exists>m. load [] tiny_elf = Some (Inr m) \<and> m_file m = tiny_elf \<and> m_machine m = 0x3e"
proof -
  obtain m where m: "load [] tiny_elf = Some (Inr m)" using tiny_elf_loads by blast
  have "length tiny_elf < 2 ^ 63" by (simp add: tiny_length)
  from load_well_formed[OF m this] m show ?thesis by blast
qed

end
