(* ===== verification/SelfImageFacts.thy ===== *)
theory SelfImageFacts
  imports SelfImage SelfModuleFacts
begin

text \<open>
  Properties of image building and relocation: an image that builds holds every segment's bytes
  and nothing else, relocations store exactly their values and stay inside the image, and the
  three TLS relocations of a symbol name one location.
\<close>

subsection \<open>The image holds the segments\<close>

lemma self_read_ok_unat: "self_read_ok off need sz \<longleftrightarrow> unat off + unat need \<le> unat sz"
proof
  assume ok: "self_read_ok off need sz"
  then have le: "need \<le> sz" "off \<le> sz - need" by (simp_all add: self_read_ok_def)
  then have "unat (sz - need) = unat sz - unat need" "unat need \<le> unat sz"
    by (simp_all add: unat_sub word_le_nat_alt)
  then show "unat off + unat need \<le> unat sz" using le(2) by (simp add: word_le_nat_alt)
next
  assume le: "unat off + unat need \<le> unat sz"
  then have n: "need \<le> sz" by (simp add: word_le_nat_alt)
  then have "unat (sz - need) = unat sz - unat need" by (rule unat_sub)
  then show "self_read_ok off need sz" using le n by (simp add: self_read_ok_def word_le_nat_alt)
qed

definition covers :: "qword \<Rightarrow> nat \<Rightarrow> segment \<Rightarrow> bool" where
  "covers mn k s \<longleftrightarrow> seg_type s = PT_LOAD \<and> unat (seg_vaddr s - mn) \<le> k
     \<and> k < unat (seg_vaddr s - mn) + unat (seg_filesz s)"

text \<open>The byte at offset \<open>k\<close>: from the last segment whose file bytes cover it, zero without one.\<close>

definition image_byte :: "byte list \<Rightarrow> segment list \<Rightarrow> qword \<Rightarrow> nat \<Rightarrow> byte" where
  "image_byte fl segs mn k =
     (case find (covers mn k) (rev segs) of
        Some s \<Rightarrow> fl ! (unat (seg_file_off s) + (k - unat (seg_vaddr s - mn)))
      | None \<Rightarrow> 0)"

definition segment_fits :: "byte list \<Rightarrow> qword \<Rightarrow> nat \<Rightarrow> segment \<Rightarrow> bool" where
  "segment_fits fl mn n s \<longleftrightarrow>
     (seg_type s = PT_LOAD \<longrightarrow> mn \<le> seg_vaddr s \<and> unat (seg_vaddr s - mn) + unat (seg_memsz s) \<le> n
        \<and> (seg_filesz s \<noteq> 0 \<longrightarrow> unat (seg_file_off s) + unat (seg_filesz s) \<le> length fl))"

lemma find_append: "find P (xs @ ys) = (case find P xs of Some x \<Rightarrow> Some x | None \<Rightarrow> find P ys)"
  by (induction xs) simp_all

lemma copy_segment_ok:
  assumes size: "length fl < 2 ^ 63" and n: "length mem = unat n"
    and mem: "\<forall>k < length mem. mem ! k = image_byte fl ss mn k"
  shows "\<exists>r. copy_segment fl mn n i s (mem, ps) = Some r
    \<and> (\<forall>mem' ps'. r = Inr (mem', ps') \<longrightarrow> length mem' = length mem \<and> segment_fits fl mn (length mem) s
         \<and> (\<forall>k < length mem. mem' ! k = image_byte fl (ss @ [s]) mn k))"
proof (cases "seg_type s = PT_LOAD")
  case False
  then have "image_byte fl (ss @ [s]) mn k = image_byte fl ss mn k" for k
    by (simp add: image_byte_def covers_def)
  with False mem show ?thesis by (simp add: copy_segment_def segment_fits_def)
next
  case True
  let ?dst = "seg_vaddr s - mn"
  have sz: "unat (size_of fl) = length fl" using size by (simp add: size_of_unat)
  consider "seg_vaddr s < mn \<or> \<not> self_read_ok ?dst (seg_memsz s) n \<or> \<not> self_read_ok ?dst (seg_filesz s) n"
    | "\<not> (seg_vaddr s < mn \<or> \<not> self_read_ok ?dst (seg_memsz s) n \<or> \<not> self_read_ok ?dst (seg_filesz s) n)"
      "seg_filesz s \<noteq> 0 \<and> \<not> self_read_ok (seg_file_off s) (seg_filesz s) (size_of fl)"
    | "\<not> (seg_vaddr s < mn \<or> \<not> self_read_ok ?dst (seg_memsz s) n \<or> \<not> self_read_ok ?dst (seg_filesz s) n)"
      "seg_filesz s = 0 \<or> self_read_ok (seg_file_off s) (seg_filesz s) (size_of fl)" by blast
  then show ?thesis
  proof cases
    case 1
    then have "copy_segment fl mn n i s (mem, ps) = Some (Inl (Segment_outside i))"
      using True by (simp only: copy_segment_def prod.case Let_def if_False if_True simp_thms)
    then show ?thesis by simp
  next
    case 2
    then have "copy_segment fl mn n i s (mem, ps) = Some (Inl (File_truncated i))"
      using True by (simp only: copy_segment_def prod.case Let_def if_False if_True simp_thms)
    then show ?thesis by simp
  next
    case 3
    then have fits: "segment_fits fl mn (length mem) s"
      using n sz by (auto simp: segment_fits_def self_read_ok_unat)
    have dst: "unat ?dst + unat (seg_filesz s) \<le> length mem" using 3(1) n by (simp add: self_read_ok_unat)
    obtain mem' where w: "(if seg_filesz s \<noteq> 0
                 then do { bytes \<leftarrow> read_at fl (unat (seg_file_off s)) (unat (seg_filesz s));
                           write_at mem (unat ?dst) bytes }
                 else Some mem) = Some mem'"
      and len: "length mem' = length mem"
      and bytes: "\<forall>k < length mem. mem' ! k = image_byte fl (ss @ [s]) mn k"
    proof (cases "seg_filesz s = 0")
      case True
      then have "\<not> covers mn k s" for k by (auto simp: covers_def)
      then have "image_byte fl (ss @ [s]) mn k = image_byte fl ss mn k" for k
        by (simp add: image_byte_def)
      with True mem that show ?thesis by simp
    next
      case False
      then have "unat (seg_file_off s) + unat (seg_filesz s) \<le> length fl"
        using 3(2) sz by (simp add: self_read_ok_unat)
      then obtain bytes where r: "read_at fl (unat (seg_file_off s)) (unat (seg_filesz s)) = Some bytes"
        using read_at_defined by blast
      have lb: "length bytes = unat (seg_filesz s)" by (rule read_at_Some_length[OF r])
      then obtain mem' where w: "write_at mem (unat ?dst) bytes = Some mem'"
        using write_at_defined dst by metis
      have "mem' ! k = image_byte fl (ss @ [s]) mn k" if "k < length mem" for k
        using write_at_nth[OF w that] mem that lb True read_at_nth[OF r, of "k - unat ?dst"]
        by (auto simp: image_byte_def find_append covers_def)
      with False r w write_at_length[OF w] that show ?thesis by simp
    qed
    have "copy_segment fl mn n i s (mem, ps) = Some (Inr (mem', ps @ [\<lparr>prot_vaddr = seg_vaddr s, prot_size = seg_memsz s,
           prot_r = (seg_flags s AND 4 \<noteq> 0), prot_w = (seg_flags s AND 2 \<noteq> 0),
           prot_x = (seg_flags s AND 1 \<noteq> 0)\<rparr>]))"
    proof -
      have "\<not> (seg_filesz s \<noteq> 0 \<and> \<not> self_read_ok (seg_file_off s) (seg_filesz s) (size_of fl))" using 3(2) by blast
      with 3(1) True w show ?thesis
        by (simp only: copy_segment_def prod.case Let_def if_False simp_thms Option.bind.bind_lunit)
    qed
    with len bytes fits show ?thesis by simp
  qed
qed

lemma copy_segments_ok:
  assumes size: "length fl < 2 ^ 63"
  shows "length mem = unat n \<Longrightarrow> \<forall>k < length mem. mem ! k = image_byte fl done' mn k \<Longrightarrow>
    \<exists>r. copy_segments fl mn n i ss (mem, ps) = Some r
    \<and> (\<forall>mem' ps'. r = Inr (mem', ps') \<longrightarrow> length mem' = length mem \<and> list_all (segment_fits fl mn (length mem)) ss
         \<and> (\<forall>k < length mem. mem' ! k = image_byte fl (done' @ ss) mn k))"
proof (induction ss arbitrary: mem ps i done')
  case Nil
  then show ?case by simp
next
  case (Cons s ss)
  obtain r where r: "copy_segment fl mn n i s (mem, ps) = Some r"
    and ok: "\<And>mem' ps'. r = Inr (mem', ps') \<Longrightarrow> length mem' = length mem \<and> segment_fits fl mn (length mem) s
         \<and> (\<forall>k < length mem. mem' ! k = image_byte fl (done' @ [s]) mn k)"
    using copy_segment_ok[OF size Cons.prems, of i s ps] by blast
  show ?case
  proof (cases r)
    case (Inl e)
    then show ?thesis using r by simp
  next
    case (Inr st)
    obtain mem1 ps1 where st: "r = Inr (mem1, ps1)" using Inr by (cases st) simp
    note ok1 = ok[OF st]
    have "length mem1 = unat n" "\<forall>k < length mem1. mem1 ! k = image_byte fl (done' @ [s]) mn k"
      using ok1 Cons.prems(1) by simp_all
    from Cons.IH[OF this, of "i + 1" ps1] ok1 show ?thesis
      unfolding copy_segments.simps r Option.bind.bind_lunit st sum.case by auto
  qed
qed

lemma build_image_ok:
  assumes "length (m_file m) < 2 ^ 63"
  shows "case build_image can_alloc m base of
      None \<Rightarrow> False
    | Some (Inl e) \<Rightarrow> True
    | Some (Inr img) \<Rightarrow> length (img_mem img) = unat (img_max img - img_min img) \<and> length (img_mem img) \<le> 2 ^ 30
        \<and> img_entry img = base + m_entry m
        \<and> (\<forall>s \<in> set (m_segments m). segment_fits (m_file m) (img_min img) (length (img_mem img)) s)
        \<and> (\<forall>k < length (img_mem img). img_mem img ! k = image_byte (m_file m) (m_segments m) (img_min img) k)"
proof -
  obtain mn mx where win: "window (m_segments m) = (mn, mx)" by fastforce
  let ?n = "mx - mn"
  have zero: "\<forall>k < length (replicate (unat ?n) 0). replicate (unat ?n) 0 ! k = image_byte (m_file m) [] mn k"
    by (simp add: image_byte_def)
  obtain r where r: "copy_segments (m_file m) mn ?n 0 (m_segments m) (replicate (unat ?n) 0, []) = Some r"
    and ok: "\<And>mem' ps'. r = Inr (mem', ps') \<Longrightarrow> length mem' = unat ?n
         \<and> list_all (segment_fits (m_file m) mn (unat ?n)) (m_segments m)
         \<and> (\<forall>k < unat ?n. mem' ! k = image_byte (m_file m) (m_segments m) mn k)"
    using copy_segments_ok[OF assms _ zero, of ?n 0 "m_segments m" "[]"] by auto
  have lim: "unat ?n \<le> 2 ^ 30" if "\<not> ?n > kMaxLoadedImageBytes"
    using that by (simp add: kMaxLoadedImageBytes_def word_less_nat_alt)
  show ?thesis
  proof (cases r)
    case (Inl e)
    then show ?thesis by (simp add: build_image_def win Let_def r)
  next
    case (Inr st)
    obtain mem ps where st: "st = (mem, ps)" by (cases st) auto
    show ?thesis
      using ok[OF Inr[unfolded st]] lim Inr by (auto simp: build_image_def win Let_def r st list_all_iff)
  qed
qed

text \<open>
  C19: building an image never accesses file or image out of bounds, and an image that builds is
  complete: it is at most 1 GiB, every \<open>PT_LOAD\<close> segment lies in it with all its bytes in the
  file, and every byte of it comes from the last segment covering it, or is zero.
\<close>

theorem build_image_complete:
  assumes "length (m_file m) < 2 ^ 63"
  shows "case build_image can_alloc m base of
      None \<Rightarrow> False
    | Some (Inl e) \<Rightarrow> True
    | Some (Inr img) \<Rightarrow> length (img_mem img) = unat (img_max img - img_min img) \<and> length (img_mem img) \<le> 2 ^ 30
        \<and> img_entry img = base + m_entry m
        \<and> (\<forall>s \<in> set (m_segments m). segment_fits (m_file m) (img_min img) (length (img_mem img)) s)
        \<and> (\<forall>k < length (img_mem img). img_mem img ! k = image_byte (m_file m) (m_segments m) (img_min img) k)"
  using assms by (rule build_image_ok)

definition one_load :: modul where
  "one_load = empty_module\<lparr>m_file := [1, 2, 3, 4], m_segments :=
     [\<lparr>seg_type = 1, seg_flags = 5, seg_vaddr = 0x4010, seg_memsz = 8, seg_filesz = 4, seg_file_off = 0\<rparr>]\<rparr>"

lemma one_load_builds: "\<exists>img. build_image (\<lambda>_. True) one_load 0 = Some (Inr img) \<and> img_min img = 0x4000 \<and> img_max img = 0x8000"
  by (simp add: build_image_def one_load_def empty_module_def window_def extent_def PT_LOAD_def align_dn_def
      align_up_def Let_def kMaxLoadedImageBytes_def copy_segment_def self_read_ok_def read_at_def write_at_def
      min_def max_def word_le_nat_alt unsigned_minus_1_eq_mask mask_eq_exp_minus_1)

theorem build_image_complete_witness:
  "\<exists>img. build_image (\<lambda>_. True) one_load 0 = Some (Inr img) \<and> length (img_mem img) = 0x4000 \<and> img_mem img ! 0x12 = 3"
proof -
  obtain img where img: "build_image (\<lambda>_. True) one_load 0 = Some (Inr img)" "img_min img = 0x4000" "img_max img = 0x8000"
    using one_load_builds by blast
  have "length (m_file one_load) < 2 ^ 63" by (simp add: one_load_def empty_module_def)
  from build_image_complete[where can_alloc = "\<lambda>_. True" and base = 0, OF this] img
  have "length (img_mem img) = 0x4000" "img_mem img ! 0x12 = image_byte (m_file one_load) (m_segments one_load) 0x4000 0x12"
    by simp_all
  then show ?thesis
    using img(1) by (simp add: image_byte_def covers_def one_load_def empty_module_def PT_LOAD_def)
qed

subsection \<open>Relocations store exactly their values\<close>

text \<open>Where a relocation stores what, if it is applied and its eight bytes are in the image.\<close>

definition slot :: "modul \<Rightarrow> image \<Rightarrow> tls_map \<Rightarrow> qword list \<Rightarrow> reloc \<Rightarrow> (nat \<times> qword) option" where
  "slot m img tls below r =
     do { v \<leftarrow> reloc_value m img tls below r;
          p \<leftarrow> img_at img (img_base img + rel_offset r);
          if p + 8 \<le> length (img_mem img) then Some (p, v) else None }"

definition slots :: "modul \<Rightarrow> image \<Rightarrow> tls_map \<Rightarrow> qword list \<Rightarrow> reloc list \<Rightarrow> (nat \<times> qword) list" where
  "slots m img tls below rs = List.map_filter (slot m img tls below) rs"

text \<open>A byte after the stores: from the last store covering it, the old byte without one.\<close>

definition patched :: "byte list \<Rightarrow> (nat \<times> qword) list \<Rightarrow> nat \<Rightarrow> byte" where
  "patched mem ss k =
     (case find (\<lambda>(p, v). p \<le> k \<and> k < p + 8) (rev ss) of
        Some (p, v) \<Rightarrow> le_bytes 8 (unat v) ! (k - p)
      | None \<Rightarrow> mem ! k)"

lemma reloc_value_mem: "reloc_value m (img\<lparr>img_mem := mem\<rparr>) = reloc_value m img"
  unfolding reloc_value_def sym_addr_def dtpmod64_def tpoff64_def
  by (cases img) (simp only: image.update_convs image.select_convs)

lemma img_at_mem: "img_at (img\<lparr>img_mem := mem\<rparr>) va = img_at img va"
  by (simp add: img_at_def)

lemma apply_relocation_slot:
  assumes "length mem = length (img_mem img)"
  shows "apply_relocation m tls below r (n, img\<lparr>img_mem := mem\<rparr>) =
    (case slot m img tls below r of
       None \<Rightarrow> Some (n, img\<lparr>img_mem := mem\<rparr>)
     | Some (p, v) \<Rightarrow> map_option (\<lambda>mem. (n + 1, img\<lparr>img_mem := mem\<rparr>)) (write_at mem p (le_bytes 8 (unat v))))"
  using assms
  by (auto simp: apply_relocation_def slot_def reloc_value_mem write64_def img_at_mem option.map_comp comp_def
      not_le split: option.splits)

lemma apply_relocations_loop:
  assumes "length mem = length (img_mem img)"
    and "\<forall>k < length mem. mem ! k = patched (img_mem img) done' k"
  shows "\<exists>mem'. foldM (apply_relocation m tls below) rs (n, img\<lparr>img_mem := mem\<rparr>)
      = Some (n + length (slots m img tls below rs), img\<lparr>img_mem := mem'\<rparr>)
    \<and> length mem' = length (img_mem img)
    \<and> (\<forall>k < length mem'. mem' ! k = patched (img_mem img) (done' @ slots m img tls below rs) k)"
  using assms
proof (induction rs arbitrary: mem n done')
  case Nil
  then show ?case by (auto simp: slots_def map_filter_simps)
next
  case (Cons r rs)
  note step = apply_relocation_slot[OF Cons.prems(1), of m tls below r n]
  show ?case
  proof (cases "slot m img tls below r")
    case None
    have s: "slots m img tls below (r # rs) = slots m img tls below rs"
      by (simp add: slots_def map_filter_simps None)
    show ?thesis unfolding s foldM.simps step None option.case Option.bind.bind_lunit
      by (rule Cons.IH[OF Cons.prems])
  next
    case (Some pv)
    obtain p v where pv: "pv = (p, v)" by (cases pv) auto
    have p8: "p + 8 \<le> length (img_mem img)"
      using Some by (auto simp: slot_def pv split: Option.bind_splits if_splits)
    then obtain mem1 where w: "write_at mem p (le_bytes 8 (unat v)) = Some mem1"
      using write_at_defined[of p "le_bytes 8 (unat v)" mem] Cons.prems(1) by auto
    have l1: "length mem1 = length (img_mem img)" using write_at_length[OF w] Cons.prems(1) by simp
    have "mem1 ! k = patched (img_mem img) (done' @ [(p, v)]) k" if "k < length mem1" for k
      using write_at_nth[OF w] Cons.prems l1 that by (auto simp: patched_def)
    then obtain mem' where
      "foldM (apply_relocation m tls below) rs (n + 1, img\<lparr>img_mem := mem1\<rparr>)
        = Some (n + 1 + length (slots m img tls below rs), img\<lparr>img_mem := mem'\<rparr>)"
      "length mem' = length (img_mem img)"
      "\<forall>k < length mem'. mem' ! k = patched (img_mem img) ((done' @ [(p, v)]) @ slots m img tls below rs) k"
      using Cons.IH[OF l1, of "done' @ [(p, v)]" "n + 1"] by blast
    moreover have "slots m img tls below (r # rs) = (p, v) # slots m img tls below rs"
      by (simp add: slots_def map_filter_simps Some pv)
    ultimately show ?thesis by (intro exI[of _ mem']) (simp add: step Some pv w)
  qed
qed

lemma apply_relocations_ok:
  "\<exists>mem'. apply_relocations m img tls below
      = Some (length (slots m img tls below (m_relocs m)), img\<lparr>img_mem := mem'\<rparr>)
    \<and> length mem' = length (img_mem img)
    \<and> (\<forall>k < length (img_mem img). mem' ! k = patched (img_mem img) (slots m img tls below (m_relocs m)) k)"
  using apply_relocations_loop[of "img_mem img" img "[]" m tls below "m_relocs m" 0]
  by (auto simp: apply_relocations_def patched_def)

text \<open>
  C20: applying relocations never leaves the image, counts exactly the relocations it stores, and
  changes memory only at them: every byte afterwards comes from the last relocation stored over
  it, or is the old byte.
\<close>

theorem apply_relocations_exact:
  "\<exists>mem'. apply_relocations m img tls below
      = Some (length (slots m img tls below (m_relocs m)), img\<lparr>img_mem := mem'\<rparr>)
    \<and> length mem' = length (img_mem img)
    \<and> (\<forall>k < length (img_mem img). mem' ! k = patched (img_mem img) (slots m img tls below (m_relocs m)) k)"
  by (rule apply_relocations_ok)

text \<open>One relative relocation at offset 4 of a small image.\<close>

definition reloc_example :: modul where
  "reloc_example = empty_module\<lparr>m_relocs :=
     [\<lparr>rel_offset = 4, rel_type = 8, rel_sym = 0, rel_addend = 7, rel_is_plt = False\<rparr>]\<rparr>"

definition reloc_example_image :: image where
  "reloc_example_image = \<lparr>img_base = 0x100, img_min = 0, img_max = 16, img_mem = replicate 16 0, img_prot = [],
     img_entry = 0, img_tls_modid = 0, img_import_addr = Map.empty\<rparr>"

theorem apply_relocations_exact_witness:
  "\<exists>mem'. apply_relocations reloc_example reloc_example_image Map.empty [] = Some (1, reloc_example_image\<lparr>img_mem := mem'\<rparr>)
     \<and> mem' ! 4 = 7 \<and> mem' ! 5 = 1 \<and> mem' ! 12 = 0"
proof -
  have s: "slots reloc_example reloc_example_image Map.empty [] (m_relocs reloc_example) = [(4, 0x107)]"
    by (simp add: slots_def slot_def reloc_example_def reloc_example_image_def empty_module_def reloc_value_def
        reloc_types img_at_def map_filter_simps)
  obtain mem' where "apply_relocations reloc_example reloc_example_image Map.empty []
        = Some (1, reloc_example_image\<lparr>img_mem := mem'\<rparr>)"
      and m: "\<forall>k < 16. mem' ! k = patched (replicate 16 0) [(4, 0x107)] k"
    using apply_relocations_exact[of reloc_example reloc_example_image Map.empty "[]"]
    unfolding s by (auto simp: reloc_example_image_def)
  moreover have "mem' ! 4 = 7" "mem' ! 5 = 1" "mem' ! 12 = 0"
  proof -
    have eight: "(8 :: nat) = Suc (Suc (Suc (Suc (Suc (Suc (Suc (Suc 0)))))))" by simp
    have "le_bytes 8 263 = [7, 1, 0, 0, 0, 0, 0, 0]" unfolding eight le_bytes.simps by simp
    then show "mem' ! 4 = 7" "mem' ! 5 = 1" "mem' ! 12 = 0"
      using m[rule_format, of 4] m[rule_format, of 5] m[rule_format, of 12] by (simp_all add: patched_def)
  qed
  ultimately show ?thesis by blast
qed

subsection \<open>TLS relocations\<close>

text \<open>
  C22: when a static TLS offset is resolved, it is the in-block offset of the general-dynamic pair
  of the same symbol and addend, moved by the distance of that pair's module, for local symbols
  and for symbols of another module alike.
\<close>

theorem tls_relocations_agree:
  assumes "tpoff64 m img tls below r = Some v"
    and "rel_sym r1 = rel_sym r" and "rel_sym r2 = rel_sym r" and "rel_addend r2 = rel_addend r"
  shows "v = dtpoff64 m tls r2 - below ! unat (dtpmod64 m img tls r1)
    \<and> dtpmod64 m img tls r1 \<noteq> 0 \<and> unat (dtpmod64 m img tls r1) < length below"
proof -
  have u: "unat (ucast w :: qword) = unat w" for w :: dword
    by (rule unsigned_ucast_eq[THEN trans]) (simp add: take_bit_nat_eq_self_iff order.strict_trans1[OF less_imp_le[OF unsigned_less]])
  have z: "(ucast w :: qword) = 0 \<longleftrightarrow> w = 0" for w :: dword
    using u[of w] by (metis unat_eq_zero)
  obtain s where s: "tls_symbol m (rel_sym r) = Some s"
    using assms(1) by (cases "tls_symbol m (rel_sym r)") (auto simp: tpoff64_def Let_def)
  show ?thesis
  proof (cases "sym_is_import s")
    case True
    then obtain l where "tls (sym_nid s) = Some l"
      using assms(1) s by (cases "tls (sym_nid s)") (auto simp: tpoff64_def Let_def)
    then show ?thesis
      using assms s True by (auto simp: tpoff64_def dtpmod64_def dtpoff64_def Let_def u z split: if_splits)
  next
    case False
    then show ?thesis
      using assms s by (auto simp: tpoff64_def dtpmod64_def dtpoff64_def Let_def u z split: if_splits)
  qed
qed

text \<open>A concrete module: both its symbols are the import named \<open>A\<close>; the map places that in module 2.\<close>

definition tls_example :: modul where
  "tls_example = empty_module\<lparr>m_symbols := replicate 2 \<lparr>sym_raw = [], sym_nid = [65], sym_lib_id = 0,
     sym_shndx = 0, sym_value = 0, sym_is_import = True, sym_lib_name = []\<rparr>\<rparr>"

definition tls_example_image :: image where
  "tls_example_image = \<lparr>img_base = 0, img_min = 0, img_max = 0, img_mem = [], img_prot = [], img_entry = 0,
     img_tls_modid = 1, img_import_addr = Map.empty\<rparr>"

definition tls_example_reloc :: reloc where
  "tls_example_reloc = \<lparr>rel_offset = 0, rel_type = 17, rel_sym = 1, rel_addend = 8, rel_is_plt = False\<rparr>"

theorem tls_relocations_agree_witness:
  "dtpoff64 tls_example [[65] \<mapsto> \<lparr>tls_modid = 2, tls_offset = 24\<rparr>] tls_example_reloc - [0, 16, 64] ! 2
     = 32 - 64"
proof -
  let ?tls = "[[65] \<mapsto> \<lparr>tls_modid = 2, tls_offset = 24\<rparr>] :: tls_map"
  have "tpoff64 tls_example tls_example_image ?tls [0, 16, 64] tls_example_reloc = Some (32 - 64)"
    and "dtpmod64 tls_example tls_example_image ?tls tls_example_reloc = 2"
    by (simp_all add: tpoff64_def dtpmod64_def tls_symbol_def symbol_at_def tls_example_def empty_module_def
        tls_example_reloc_def)
  from tls_relocations_agree[OF this(1) refl refl refl] this(2) show ?thesis
    by simp
qed

end
