(* ===== verification/LinkerFacts.thy ===== *)
theory LinkerFacts
  imports Linker SelfImageFacts "HOL-Library.Sublist"
begin

text \<open>
  Properties of the linker: it always returns, imports are resolved to the first definition of
  their NID or to the stub slot of that NID alone, and optional modules never alias an export.
\<close>

subsection \<open>First definition wins\<close>

text \<open>
  The interface of the linker's loops over definitions: a step adds its definitions to a table
  that keeps what it has. Then the whole loop is a first-match lookup.
\<close>

locale definitions =
  fixes ok :: "'s \<Rightarrow> bool"
    and step :: "'s \<Rightarrow> 'x \<Rightarrow> 's"
    and look :: "'s \<Rightarrow> 'k \<Rightarrow> 'v option"
    and defs :: "'x \<Rightarrow> ('k \<times> 'v) list"
  assumes ok_step: "ok s \<Longrightarrow> ok (step s x)"
    and look_step: "ok s \<Longrightarrow> look (step s x) = map_of (defs x) ++ look s"
begin

lemma ok_loop: "ok s \<Longrightarrow> ok (foldl step s xs)"
  by (induction xs arbitrary: s) (auto intro: ok_step)

lemma look_loop: "ok s \<Longrightarrow> look (foldl step s xs) = map_of (concat (map defs xs)) ++ look s"
  by (induction xs arbitrary: s) (simp_all add: ok_step look_step)

lemma first_wins: "ok s \<Longrightarrow> look s k = Some v \<Longrightarrow> look (foldl step s xs) k = Some v"
  by (simp add: look_loop map_add_Some_iff)

end

lemma emplace_add: "emplace m k v = map_of [(k, v)] ++ m"
  by (auto simp: emplace_def map_add_def fun_eq_iff split: option.splits)

definition exports_of :: "modul \<Rightarrow> qword \<Rightarrow> (cstr \<times> qword) list" where
  "exports_of m base = map (\<lambda>s. (sym_nid s, base + sym_value s)) (filter is_exported_symbol (m_symbols m))"

lemma concat_if: "concat (map (\<lambda>s. if P s then [f s] else []) xs) = map f (filter P xs)"
  by (induction xs) simp_all

interpretation claims: definitions "\<lambda>_. True"
    "\<lambda>o' s. if is_exported_symbol s then emplace o' (sym_nid s) path else o'" "\<lambda>o'. o'"
    "\<lambda>s. if is_exported_symbol s then [(sym_nid s, path)] else []" for path
  by unfold_locales (simp_all add: emplace_add)

lemma export_symbol_exports:
  "p_exports (fst (export_symbol path base st s))
   = map_of (if is_exported_symbol s then [(sym_nid s, base + sym_value s)] else []) ++ p_exports (fst st)"
  by (cases st)
    (auto simp: export_symbol_def is_exported_symbol_def emplace_add Let_def simp del: map_of_Cons_code split: option.splits)

lemma export_symbol_own:
  "me_nids (snd (export_symbol path base st s))
   = map_of (if is_exported_symbol s then [(sym_nid s, base + sym_value s)] else []) ++ me_nids (snd st)"
  by (cases st) (auto simp: export_symbol_def is_exported_symbol_def emplace_add Let_def split: option.splits)

interpretation export: definitions "\<lambda>_. True" "export_symbol path base" "\<lambda>st. p_exports (fst st)"
    "\<lambda>s. if is_exported_symbol s then [(sym_nid s, base + sym_value s)] else []" for path base
  by unfold_locales (simp_all only: export_symbol_exports)

interpretation own: definitions "\<lambda>_. True" "export_symbol path base" "\<lambda>st. me_nids (snd st)"
    "\<lambda>s. if is_exported_symbol s then [(sym_nid s, base + sym_value s)] else []" for path base
  by unfold_locales (simp_all only: export_symbol_own)

subsection \<open>The export table\<close>

text \<open>What the export pass does not touch.\<close>

definition exports_only :: "program \<Rightarrow> program \<Rightarrow> bool" where
  "exports_only out out' \<longleftrightarrow> p_mods out' = p_mods out \<and> p_imgs out' = p_imgs out \<and> p_slots out' = p_slots out
     \<and> p_tls_templates out' = p_tls_templates out \<and> p_stub_base out' = p_stub_base out
     \<and> p_stub_size out' = p_stub_size out \<and> p_entry out' = p_entry out \<and> p_skipped out' = p_skipped out
     \<and> p_init_fns out' = p_init_fns out"

lemma export_symbol_frame: "exports_only out (fst st) \<Longrightarrow> exports_only out (fst (export_symbol path base st s))"
  by (cases st) (simp add: exports_only_def export_symbol_def Let_def split: option.splits)

lemma export_module_eq:
  "export_module out i =
    (let st = foldl (export_symbol (m_path (p_mods out ! i)) (img_base (p_imgs out ! i)))
                (out, \<lparr>me_path = m_path (p_mods out ! i), me_nids = Map.empty\<rparr>) (m_symbols (p_mods out ! i))
     in (fst st)\<lparr>p_mod_exports := p_mod_exports (fst st) @ [snd st]\<rparr>)"
  by (simp add: export_module_def Let_def split_beta)

lemma exports_only_refl: "exports_only out out"
  by (simp add: exports_only_def)

lemma export_module_frame: "exports_only out0 out \<Longrightarrow> exports_only out0 (export_module out i)"
proof -
  assume out: "exports_only out0 out"
  have "exports_only out0 (fst (foldl (export_symbol path base) (out, me) ss))" for path base me ss
    by (rule foldl_keeps[where P = "\<lambda>st. exports_only out0 (fst st)"]) (simp_all add: out export_symbol_frame)
  then show ?thesis by (simp add: export_module_eq Let_def) (simp add: exports_only_def)
qed

lemma export_module_exports:
  "p_exports (export_module out i)
   = map_of (exports_of (p_mods out ! i) (img_base (p_imgs out ! i))) ++ p_exports out"
  by (simp add: export_module_eq Let_def export.look_loop concat_if exports_of_def)

interpretation modules: definitions "\<lambda>out. exports_only out0 out" export_module p_exports
    "\<lambda>i. exports_of (p_mods out0 ! i) (img_base (p_imgs out0 ! i))" for out0
  by unfold_locales (simp add: export_module_frame, simp add: export_module_exports exports_only_def)

text \<open>The global table: the exports of the modules in order, the first of a NID wins.\<close>

definition global_exports :: "modul list \<Rightarrow> qword list \<Rightarrow> (cstr \<times> qword) list" where
  "global_exports ms bases = concat (map (\<lambda>(m, b). exports_of m b) (zip ms bases))"

lemma global_exports_nth:
  assumes "length (p_imgs out) = length (p_mods out)"
  shows "concat (map (\<lambda>i. exports_of (p_mods out ! i) (img_base (p_imgs out ! i))) [0..<length (p_mods out)])
     = global_exports (p_mods out) (map img_base (p_imgs out))"
proof -
  have "map (\<lambda>i. exports_of (p_mods out ! i) (img_base (p_imgs out ! i))) [0..<length (p_mods out)]
      = map (\<lambda>(m, b). exports_of m b) (zip (p_mods out) (map img_base (p_imgs out)))"
    using assms by (intro nth_equalityI) simp_all
  then show ?thesis by (simp only: global_exports_def)
qed

lemma export_modules:
  assumes "length (p_imgs out) = length (p_mods out)"
  shows "p_exports (foldl export_module out [0..<length (p_mods out)])
      = map_of (global_exports (p_mods out) (map img_base (p_imgs out))) ++ p_exports out"
    and "exports_only out (foldl export_module out [0..<length (p_mods out)])"
  using modules.look_loop[OF exports_only_refl] modules.ok_loop[OF exports_only_refl] global_exports_nth[OF assms]
  by simp_all

subsection \<open>Import resolution\<close>

text \<open>The stub slots: the \<open>k\<close>-th slot's NID is numbered \<open>k\<close>, no NID has two slots.\<close>

definition slots_ok :: "program \<Rightarrow> (cstr \<Rightarrow> dword option) \<Rightarrow> bool" where
  "slots_ok out slot_of \<longleftrightarrow> distinct (map sl_nid (p_slots out))
     \<and> (\<forall>nid s. slot_of nid = Some s \<longleftrightarrow>
           (\<exists>k < length (p_slots out). sl_nid (p_slots out ! k) = nid \<and> s = word_of_nat k))"

text \<open>The address an import's NID must get.\<close>

definition target :: "program \<Rightarrow> cstr \<Rightarrow> qword \<Rightarrow> bool" where
  "target out nid a \<longleftrightarrow>
     (case p_exports out nid of
        Some b \<Rightarrow> a = b
      | None \<Rightarrow> \<exists>k < length (p_slots out). sl_nid (p_slots out ! k) = nid
                 \<and> a = p_stub_base out + ucast (word_of_nat k :: dword) * p_stub_size out)"

text \<open>What import resolution keeps, and the slots it has made after the imports \<open>ps\<close>.\<close>

definition slot_state :: "program \<Rightarrow> (nat \<times> import_record) list \<Rightarrow> program \<times> (cstr \<Rightarrow> dword option) \<Rightarrow> bool" where
  "slot_state out0 ps = (\<lambda>(out, slot_of).
     slots_ok out slot_of \<and> length (p_slots out) \<le> length ps
     \<and> p_mods out = p_mods out0 \<and> p_exports out = p_exports out0 \<and> p_stub_base out = p_stub_base out0
     \<and> p_stub_size out = p_stub_size out0 \<and> p_tls_templates out = p_tls_templates out0
     \<and> p_skipped out = p_skipped out0 \<and> p_mod_exports out = p_mod_exports out0
     \<and> p_entry out = p_entry out0 \<and> p_init_fns out = p_init_fns out0
     \<and> map (\<lambda>img. img\<lparr>img_import_addr := Map.empty\<rparr>) (p_imgs out)
         = map (\<lambda>img. img\<lparr>img_import_addr := Map.empty\<rparr>) (p_imgs out0)
     \<and> sl_nid ` set (p_slots out) = imp_nid ` {imp \<in> snd ` set ps. p_exports out0 (imp_nid imp) = None})"

text \<open>
  Every import of \<open>ps\<close>, given with its module's number, has an address: the target of an import of
  that module with the same symbol index.
\<close>

definition stored :: "(nat \<times> import_record) list \<Rightarrow> program \<Rightarrow> bool" where
  "stored ps out \<longleftrightarrow> (\<forall>(i, imp) \<in> set ps. \<exists>a imp'.
     img_import_addr (p_imgs out ! i) (imp_sym_index imp) = Some a
     \<and> (i, imp') \<in> set ps \<and> imp_sym_index imp' = imp_sym_index imp \<and> target out (imp_nid imp') a)"

lemma target_cong:
  "p_exports out' = p_exports out \<Longrightarrow> p_slots out' = p_slots out @ new \<Longrightarrow> p_stub_base out' = p_stub_base out \<Longrightarrow>
   p_stub_size out' = p_stub_size out \<Longrightarrow> target out nid a \<Longrightarrow> target out' nid a"
  by (auto simp: target_def nth_append intro: trans_less_add1 split: option.splits)

lemma stored_store:
  assumes "stored ps out" and "i < length (p_imgs out)" and "target out' (imp_nid imp) a"
    and "p_imgs out' = (p_imgs out)[i := img\<lparr>img_import_addr := (img_import_addr (p_imgs out ! i))(imp_sym_index imp \<mapsto> a)\<rparr>]"
    and "p_exports out' = p_exports out" "p_slots out' = p_slots out @ new"
      "p_stub_base out' = p_stub_base out" "p_stub_size out' = p_stub_size out"
  shows "stored (ps @ [(i, imp)]) out'"
  unfolding stored_def
proof (clarify)
  fix j x assume j: "(j, x) \<in> set (ps @ [(i, imp)])"
  let ?Q = "\<lambda>a' x'. img_import_addr (p_imgs out' ! j) (imp_sym_index x) = Some a' \<and> (j, x') \<in> set (ps @ [(i, imp)])
    \<and> imp_sym_index x' = imp_sym_index x \<and> target out' (imp_nid x') a'"
  show "\<exists>a' x'. ?Q a' x'"
  proof (cases "j = i \<and> imp_sym_index x = imp_sym_index imp")
    case True
    then have "?Q a imp" using assms(2,3,4) by simp
    then show ?thesis by blast
  next
    case False
    then have "(j, x) \<in> set ps" using j by auto
    then obtain a' x' where a': "img_import_addr (p_imgs out ! j) (imp_sym_index x) = Some a'" "(j, x') \<in> set ps"
        "imp_sym_index x' = imp_sym_index x" "target out (imp_nid x') a'"
      using assms(1) unfolding stored_def by fastforce
    then have "?Q a' x'"
      using False assms(2,4) target_cong[OF assms(5-8) a'(4)] by (auto simp: nth_list_update)
    then show ?thesis by blast
  qed
qed

lemma slots_ok_snoc:
  assumes "slots_ok out slot_of" and "slot_of nid = None" and "sl_nid new = nid"
  shows "slots_ok (out\<lparr>p_slots := p_slots out @ [new]\<rparr>) (emplace slot_of nid (word_of_nat (length (p_slots out))))"
proof -
  have new: "sl_nid (p_slots out ! k) \<noteq> nid" if "k < length (p_slots out)" for k
    using assms(1,2) that unfolding slots_ok_def by (metis option.distinct(1))
  then have "nid \<notin> set (map sl_nid (p_slots out))"
    by (metis in_set_conv_nth length_map nth_map)
  moreover have "(emplace slot_of nid (word_of_nat (length (p_slots out)))) n = Some s \<longleftrightarrow>
      (\<exists>k < Suc (length (p_slots out)). sl_nid ((p_slots out @ [new]) ! k) = n \<and> s = word_of_nat k)" for n s
  proof (cases "n = nid")
    case True
    then show ?thesis using new assms(2,3) by (auto simp: emplace_def nth_append less_Suc_eq)
  next
    case False
    then show ?thesis using assms by (auto simp: emplace_def nth_append less_Suc_eq slots_ok_def)
  qed
  ultimately show ?thesis using assms(1,3) by (simp add: slots_ok_def)
qed

text \<open>One import.\<close>

lemma resolve_import_ok:
  assumes "slot_state out0 ps (out, slot_of)" and "stored ps out" and "i < length (p_imgs out)"
    and "resolve_import i (out, slot_of) imp = (out', slot_of')"
  shows "slot_state out0 (ps @ [(i, imp)]) (out', slot_of') \<and> stored (ps @ [(i, imp)]) out'"
proof -
  let ?new = "\<lparr>sl_lib = imp_lib_name imp, sl_nid = imp_nid imp\<rparr>"
  let ?store = "\<lambda>a. (p_imgs out)[i := (p_imgs out ! i)\<lparr>img_import_addr :=
      (img_import_addr (p_imgs out ! i))(imp_sym_index imp \<mapsto> a)\<rparr>]"
  note st = assms(1)[unfolded slot_state_def prod.case]
  have imgs: "map (\<lambda>img. img\<lparr>img_import_addr := Map.empty\<rparr>) (?store a)
      = map (\<lambda>img. img\<lparr>img_import_addr := Map.empty\<rparr>) (p_imgs out)" for a
    using assms(3) by (simp add: map_update list_update_same_conv)
  consider (exported) a where "p_exports out (imp_nid imp) = Some a"
    | (slot) s where "p_exports out (imp_nid imp) = None" "slot_of (imp_nid imp) = Some s"
    | (new) "p_exports out (imp_nid imp) = None" "slot_of (imp_nid imp) = None" by fastforce
  then show ?thesis
  proof cases
    case exported
    then have out': "out' = out\<lparr>p_total_imports := p_total_imports out + 1, p_imgs := ?store a,
        p_resolved_cross_module := p_resolved_cross_module out + 1\<rparr>" "slot_of' = slot_of"
      using assms(4) by (simp_all add: resolve_import_def Let_def)
    have "target out' (imp_nid imp) a" using exported by (simp add: out' target_def)
    from stored_store[OF assms(2,3) this, of "p_imgs out ! i" "[]"] have "stored (ps @ [(i, imp)]) out'"
      by (simp add: out')
    moreover have "slot_state out0 (ps @ [(i, imp)]) (out', slot_of')"
      using st imgs exported by (auto simp: slot_state_def out' slots_ok_def)
    ultimately show ?thesis by blast
  next
    case slot
    then have out': "out' = out\<lparr>p_total_imports := p_total_imports out + 1,
        p_imgs := ?store (p_stub_base out + ucast s * p_stub_size out), p_stubbed := p_stubbed out + 1\<rparr>" "slot_of' = slot_of"
      using assms(4) by (simp_all add: resolve_import_def Let_def)
    have k: "\<exists>k < length (p_slots out). sl_nid (p_slots out ! k) = imp_nid imp \<and> s = word_of_nat k"
      using st slot(2) by (auto simp: slots_ok_def)
    then have "target out' (imp_nid imp) (p_stub_base out + ucast s * p_stub_size out)"
      using slot(1) by (auto simp: out' target_def)
    from stored_store[OF assms(2,3) this, of "p_imgs out ! i" "[]"] have "stored (ps @ [(i, imp)]) out'"
      by (simp add: out')
    moreover have "imp_nid imp \<in> sl_nid ` set (p_slots out)" using k by (metis imageI nth_mem)
    then have "slot_state out0 (ps @ [(i, imp)]) (out', slot_of')"
      using st imgs slot by (auto simp: slot_state_def out' slots_ok_def)
    ultimately show ?thesis by blast
  next
    case new
    let ?s = "word_of_nat (length (p_slots out)) :: dword"
    have out': "out' = out\<lparr>p_total_imports := p_total_imports out + 1, p_slots := p_slots out @ [?new],
        p_imgs := ?store (p_stub_base out + ucast ?s * p_stub_size out), p_stubbed := p_stubbed out + 1\<rparr>"
      and so: "slot_of' = emplace slot_of (imp_nid imp) ?s"
      using assms(4) new by (simp_all add: resolve_import_def Let_def)
    have "target out' (imp_nid imp) (p_stub_base out + ucast ?s * p_stub_size out)"
      using new(1) by (auto simp: out' target_def nth_append intro!: exI[of _ "length (p_slots out)"])
    from stored_store[OF assms(2,3) this, of "p_imgs out ! i" "[?new]"] have "stored (ps @ [(i, imp)]) out'"
      by (simp add: out')
    moreover have "slots_ok out' slot_of'"
      using slots_ok_snoc[OF conjunct1[OF st] new(2), of ?new] by (simp add: so out' slots_ok_def)
    then have "slot_state out0 (ps @ [(i, imp)]) (out', slot_of')"
      using st imgs new by (auto simp: slot_state_def out')
    ultimately show ?thesis by blast
  qed
qed

definition import_events :: "modul list \<Rightarrow> nat \<Rightarrow> (nat \<times> import_record) list" where
  "import_events ms n = concat (map (\<lambda>i. map (Pair i) (m_imports (ms ! i))) [0..<n])"

lemma slot_state_length: "slot_state out0 ps (out, so) \<Longrightarrow> length (p_imgs out) = length (p_imgs out0)"
  by (auto simp: slot_state_def dest: map_eq_imp_length_eq)

lemma resolve_imports_ok:
  assumes "slot_state out0 ps st" and "stored ps (fst st)" and "i < length (p_imgs out0)"
  shows "slot_state out0 (ps @ map (Pair i) imps) (foldl (resolve_import i) st imps)
    \<and> stored (ps @ map (Pair i) imps) (fst (foldl (resolve_import i) st imps))"
  using assms(1,2)
proof (induction imps arbitrary: ps st)
  case Nil
  then show ?case by simp
next
  case (Cons imp imps)
  obtain out so where st: "st = (out, so)" by (cases st) auto
  obtain out' so' where st': "resolve_import i (out, so) imp = (out', so')" by fastforce
  have "i < length (p_imgs out)" using assms(3) slot_state_length[OF Cons.prems(1)[unfolded st]] by simp
  from resolve_import_ok[OF Cons.prems(1)[unfolded st] _ this st'] Cons.prems(2) st
  have "slot_state out0 (ps @ [(i, imp)]) (out', so')" "stored (ps @ [(i, imp)]) (fst (out', so'))" by simp_all
  from Cons.IH[OF this] show ?case by (simp add: st st')
qed

lemma resolve_modules_ok:
  assumes "slots_ok out (Map.empty)" and "p_slots out = []" and "n \<le> length (p_imgs out)"
  shows "slot_state out (import_events (p_mods out) n) (foldl resolve_module (out, Map.empty) [0..<n])
    \<and> stored (import_events (p_mods out) n) (fst (foldl resolve_module (out, Map.empty) [0..<n]))"
  using assms(3)
proof (induction n)
  case 0
  then show ?case using assms(1,2) by (simp add: slot_state_def stored_def import_events_def)
next
  case (Suc n)
  define st where "st = foldl resolve_module (out, Map.empty) [0..<n]"
  have IH: "slot_state out (import_events (p_mods out) n) st" "stored (import_events (p_mods out) n) (fst st)"
    using Suc by (simp_all add: st_def)
  have "p_mods (fst st) = p_mods out" using IH(1) by (cases st) (simp add: slot_state_def)
  then have "foldl resolve_module (out, Map.empty) [0..<Suc n]
      = foldl (resolve_import n) st (m_imports (p_mods out ! n))"
    by (simp add: resolve_module_def st_def)
  moreover have "import_events (p_mods out) (Suc n) = import_events (p_mods out) n @ map (Pair n) (m_imports (p_mods out ! n))"
    by (simp add: import_events_def)
  ultimately show ?case using resolve_imports_ok[OF IH, of n "m_imports (p_mods out ! n)"] Suc.prems by simp
qed

text \<open>Where a module's imports have distinct symbol indices, each has its own target.\<close>

lemma stored_target:
  assumes "stored (import_events ms n) out" and "i < n" and "imp \<in> set (m_imports (ms ! i))"
    and "distinct (map imp_sym_index (m_imports (ms ! i)))"
  shows "\<exists>a. img_import_addr (p_imgs out ! i) (imp_sym_index imp) = Some a \<and> target out (imp_nid imp) a"
proof -
  have ev: "(j, x) \<in> set (import_events ms n) \<longleftrightarrow> j < n \<and> x \<in> set (m_imports (ms ! j))" for j x
    by (auto simp: import_events_def)
  have "(i, imp) \<in> set (import_events ms n)" using assms(2,3) by (simp add: ev)
  from bspec[OF assms(1)[unfolded stored_def] this, unfolded prod.case ev]
  obtain a imp' where a: "img_import_addr (p_imgs out ! i) (imp_sym_index imp) = Some a"
      "imp' \<in> set (m_imports (ms ! i))" "imp_sym_index imp' = imp_sym_index imp" "target out (imp_nid imp') a"
    by blast
  then have "imp' = imp" using assms(3,4) by (simp add: distinct_map inj_on_def)
  with a show ?thesis by blast
qed

subsection \<open>The accepted modules\<close>

lemma claim_exports_eq:
  "claim_exports m path o' = map_of (map (\<lambda>nid. (nid, path)) (module_export_nids m)) ++ o'"
  by (simp add: claim_exports_def claims.look_loop concat_if module_export_nids_def comp_def)

lemma claim_exports_None: "claim_exports m path o' nid = None \<longleftrightarrow> nid \<notin> set (module_export_nids m) \<and> o' nid = None"
  by (auto simp: claim_exports_eq map_add_None map_of_eq_None_iff image_image)

lemma claim_exports_Some:
  "claim_exports m path o' nid = Some p \<Longrightarrow> o' nid = Some p \<or> p = path \<and> nid \<in> set (module_export_nids m)"
  by (auto simp: claim_exports_eq map_add_Some_iff dest!: map_of_SomeD)

lemma export_nid_nonempty: "nid \<in> set (module_export_nids m) \<Longrightarrow> nid \<noteq> []"
  by (auto simp: module_export_nids_def is_exported_symbol_def)

text \<open>The collision search finds an export that is claimed, or there is none.\<close>

lemma find_export_collision_ok:
  "(\<exists>nid p. find_export_collision m o' = (nid, p) \<and> nid \<in> set (module_export_nids m) \<and> o' nid = Some p \<and> nid \<noteq> [])
   \<or> find_export_collision m o' = ([], []) \<and> (\<forall>nid \<in> set (module_export_nids m). o' nid = None)"
proof (cases "find (\<lambda>s. is_exported_symbol s \<and> o' (sym_nid s) \<noteq> None) (m_symbols m)")
  case None
  then have "\<forall>nid \<in> set (module_export_nids m). o' nid = None"
    by (auto simp: find_None_iff module_export_nids_def)
  with None show ?thesis by (simp add: find_export_collision_def)
next
  case (Some s)
  then have s: "s \<in> set (m_symbols m)" "is_exported_symbol s" "o' (sym_nid s) \<noteq> None"
    by (auto simp: find_Some_iff)
  then have "sym_nid s \<in> set (module_export_nids m)" by (auto simp: module_export_nids_def)
  with s Some show ?thesis
    by (auto simp: find_export_collision_def dest: export_nid_nonempty)
qed

text \<open>A later module, when it is optional, exports nothing an earlier one does.\<close>

definition no_alias :: "link_input \<times> modul \<Rightarrow> link_input \<times> modul \<Rightarrow> bool" where
  "no_alias x y \<longleftrightarrow> (li_skip_on_export_collision (fst y) \<longrightarrow>
     set (module_export_nids (snd x)) \<inter> set (module_export_nids (snd y)) = {})"

definition owned :: "(cstr \<Rightarrow> cstr option) \<Rightarrow> (link_input \<times> modul) list \<Rightarrow> skipped_module \<Rightarrow> bool" where
  "owned o' acc sk \<longleftrightarrow> o' (sk_nid sk) = Some (sk_owner sk)
     \<or> (\<exists>x \<in> set acc. li_path (fst x) = sk_owner sk \<and> sk_nid sk \<in> set (module_export_nids (snd x)))"

text \<open>
  What loading adds to the program: the accepted inputs with their modules in order, their images,
  and a record for each skipped input.
\<close>

definition loaded ::
    "(cstr \<Rightarrow> load_error + byte list) \<Rightarrow> (nat \<Rightarrow> bool) \<Rightarrow> link_input list \<Rightarrow> (cstr \<Rightarrow> cstr option)
     \<Rightarrow> program \<Rightarrow> program \<Rightarrow> (link_input \<times> modul) list \<Rightarrow> image list \<Rightarrow> skipped_module list \<Rightarrow> bool" where
  "loaded files can_alloc inps o' out out' acc imgs sk \<longleftrightarrow>
     out' = out\<lparr>p_mods := p_mods out @ map snd acc, p_imgs := p_imgs out @ imgs, p_skipped := p_skipped out @ sk\<rparr>
     \<and> subseq (map fst acc) inps
     \<and> list_all2 (\<lambda>x img. load_path files (li_path (fst x)) = Some (Inr (snd x))
          \<and> build_image can_alloc (snd x) (li_base (fst x)) = Some (Inr img)) acc imgs
     \<and> (\<forall>inp \<in> set inps. inp \<in> fst ` set acc
          \<or> li_skip_on_export_collision inp \<and> (\<exists>r \<in> set sk. sk_path r = li_path inp))
     \<and> list_all (owned o' acc) sk
     \<and> sorted_wrt no_alias acc
     \<and> (\<forall>x \<in> set acc. li_skip_on_export_collision (fst x) \<longrightarrow> (\<forall>nid \<in> set (module_export_nids (snd x)). o' nid = None))"

lemma loaded_skip:
  assumes "loaded files can_alloc inps o' (out\<lparr>p_skipped := p_skipped out @ [r]\<rparr>) out' acc imgs sk"
    and "li_skip_on_export_collision inp" "sk_path r = li_path inp" "o' (sk_nid r) = Some (sk_owner r)"
  shows "loaded files can_alloc (inp # inps) o' out out' acc imgs (r # sk)"
  using assms by (auto simp: loaded_def owned_def)

lemma loaded_accept:
  assumes "loaded files can_alloc inps (claim_exports m (li_path inp) o')
      (out\<lparr>p_mods := p_mods out @ [m], p_imgs := p_imgs out @ [img]\<rparr>) out' acc imgs sk"
    and "load_path files (li_path inp) = Some (Inr m)" "build_image can_alloc m (li_base inp) = Some (Inr img)"
    and "li_skip_on_export_collision inp \<longrightarrow> (\<forall>nid \<in> set (module_export_nids m). o' nid = None)"
  shows "loaded files can_alloc (inp # inps) o' out out' ((inp, m) # acc) (img # imgs) sk"
proof -
  have "owned o' ((inp, m) # acc) r" if "owned (claim_exports m (li_path inp) o') acc r" for r
    using that claim_exports_Some[of m "li_path inp" o' "sk_nid r" "sk_owner r"] by (auto simp: owned_def)
  moreover have "no_alias (inp, m) x" "li_skip_on_export_collision (fst x) \<longrightarrow> (\<forall>nid \<in> set (module_export_nids (snd x)). o' nid = None)"
    if "x \<in> set acc" for x
    using assms(1) that by (auto simp: loaded_def no_alias_def claim_exports_None)
  ultimately show ?thesis
    using assms by (auto simp: loaded_def list_all_iff)
qed

lemma load_inputs_loaded:
  "load_inputs files can_alloc inps o' out = Some (out', None) \<Longrightarrow>
   \<exists>acc imgs sk. loaded files can_alloc inps o' out out' acc imgs sk"
proof (induction inps arbitrary: o' out)
  case Nil
  then have "loaded files can_alloc [] o' out out' [] [] []" by (simp add: loaded_def)
  then show ?case by blast
next
  case (Cons inp inps)
  obtain m where m: "load_path files (li_path inp) = Some (Inr m)"
    using Cons.prems by (auto split: Option.bind_splits sum.splits)
  define hit where "hit = (if li_skip_on_export_collision inp then find_export_collision m o' else ([], []))"
  show ?case
  proof (cases "fst hit = []")
    case True
    have free: "li_skip_on_export_collision inp \<longrightarrow> (\<forall>nid \<in> set (module_export_nids m). o' nid = None)"
      using True find_export_collision_ok[of m o'] by (auto simp: hit_def split: if_splits)
    from Cons.prems True obtain img where img: "build_image can_alloc m (li_base inp) = Some (Inr img)"
      and rest: "load_inputs files can_alloc inps (claim_exports m (li_path inp) o')
         (out\<lparr>p_mods := p_mods out @ [m], p_imgs := p_imgs out @ [img]\<rparr>) = Some (out', None)"
      by (auto simp: m hit_def[symmetric] Let_def split: Option.bind_splits sum.splits)
    from Cons.IH[OF rest] loaded_accept[OF _ m img free] show ?thesis by blast
  next
    case False
    then have skip: "li_skip_on_export_collision inp" and own: "o' (fst hit) = Some (snd hit)"
      using find_export_collision_ok[of m o'] by (auto simp: hit_def split: if_splits)
    have "load_inputs files can_alloc inps o'
        (out\<lparr>p_skipped := p_skipped out @ [\<lparr>sk_path = li_path inp, sk_nid = fst hit, sk_owner = snd hit\<rparr>]\<rparr>) = Some (out', None)"
      using Cons.prems False by (simp add: m hit_def[symmetric] Let_def)
    from Cons.IH[OF this] loaded_skip[OF _ skip] own show ?thesis by fastforce
  qed
qed

subsection \<open>The linker returns\<close>

lemma img_at_next:
  assumes "img_at img va = Some p" and "p + 8 \<le> length (img_mem img)" and "length (img_mem img) < 2 ^ 64"
    and "img_at img (va + 8) = Some q"
  shows "q = p + 8"
proof -
  define d where "d = va - img_base img - img_min img"
  have p: "p = unat d" and q: "q = unat (d + 8)"
    using assms(1,4) by (auto simp: img_at_def d_def algebra_simps split: if_splits)
  have "unat d + unat (8 :: qword) < 2 ^ 64" using assms(2,3) p by simp
  then have "unat (d + 8) = unat d + unat (8 :: qword)" by (subst unat_add_lem[symmetric]) simp
  then show ?thesis using p q by simp
qed

text \<open>The loop over an init array ends, whatever size the module declares, and reads inside the image.\<close>

lemma init_entries_from:
  assumes "length (img_mem img) < 2 ^ 64"
  shows "\<forall>p. img_at img (img_base img + va + off) = Some p \<longrightarrow> length (img_mem img) < p + n \<Longrightarrow>
    \<exists>fns. init_entries img va sz off = Some fns"
proof (induction n arbitrary: off)
  case 0
  then show ?case by (subst init_entries.simps) (auto split: option.splits)
next
  case (Suc n)
  show ?case
  proof (cases "off + 8 \<le> sz \<and> (\<exists>p. img_at img (img_base img + va + off) = Some p \<and> p + 8 \<le> length (img_mem img))")
    case False
    then show ?thesis by (subst init_entries.simps) (auto split: option.splits)
  next
    case True
    then obtain p where p: "off + 8 \<le> sz" "img_at img (img_base img + va + off) = Some p" "p + 8 \<le> length (img_mem img)"
      by blast
    obtain bytes where r: "read_at (img_mem img) p 8 = Some bytes" using read_at_defined[OF p(3)] by blast
    have "\<forall>q. img_at img (img_base img + va + (off + 8)) = Some q \<longrightarrow> length (img_mem img) < q + n"
    proof (intro allI impI)
      fix q assume q: "img_at img (img_base img + va + (off + 8)) = Some q"
      have "q = p + 8"
        using img_at_next[OF p(2,3) assms, of q] q by (simp add: add.assoc)
      moreover have "length (img_mem img) < p + Suc n" using Suc.prems p(2) by blast
      ultimately show "length (img_mem img) < q + n" by simp
    qed
    from Suc.IH[OF this] obtain fns where "init_entries img va sz (off + 8) = Some fns" by blast
    with p r show ?thesis by (subst init_entries.simps) auto
  qed
qed

lemma init_entries_returns:
  assumes "length (img_mem img) < 2 ^ 64"
  shows "\<exists>fns. init_entries img va sz off = Some fns"
  by (rule init_entries_from[OF assms, of va off "Suc (length (img_mem img))"]) simp

lemma load_inputs_returns:
  assumes "\<forall>inp \<in> set inps. case files (li_path inp) of Inl e \<Rightarrow> True | Inr b \<Rightarrow> length b < 2 ^ 63 \<and> load (li_path inp) b \<noteq> None"
  shows "load_inputs files can_alloc inps o' out \<noteq> None"
  using assms
proof (induction inps arbitrary: o' out)
  case Nil
  then show ?case by simp
next
  case (Cons inp inps)
  note IH = Cons.IH[OF list.set_intros(2)[THEN bspec[OF Cons.prems], THEN ballI]]
  show ?case
  proof (cases "files (li_path inp)")
    case (Inl e)
    then show ?thesis by (simp add: load_path_def)
  next
    case (Inr b)
    then obtain mo where mo: "load (li_path inp) b = Some mo" and b: "length b < 2 ^ 63" using Cons.prems by auto
    show ?thesis
    proof (cases mo)
      case (Inl e)
      then show ?thesis using Inr mo by (simp add: load_path_def)
    next
      case m: (Inr m)
      have "length (m_file m) < 2 ^ 63" using load_ok[OF mo[unfolded m] b] b by simp
      from build_image_ok[OF this, where can_alloc = can_alloc and base = "li_base inp"]
      obtain r where r: "build_image can_alloc m (li_base inp) = Some r" by (auto split: option.splits)
      show ?thesis using IH Inr mo m r by (auto simp: load_path_def Let_def split: sum.splits)
    qed
  qed
qed

lemma make_static_tls_layout_returns: "\<exists>l. make_static_tls_layout (Some ds) (length ds) = Some l"
proof -
  have "\<exists>st. foldM (place_module ds) [1..<length ds] st0 = Some st \<and> True" for st0
    by (rule foldM_defined) (auto simp: place_module_def Let_def)
  then obtain st where "foldM (place_module ds) [1..<length ds] (0, 16, replicate (length ds) 0) = Some st" by blast
  then show ?thesis by (cases st) (simp add: make_static_tls_layout_def)
qed

text \<open>Relocation and initialisers keep everything of a program but memory and the initialisers.\<close>

definition image_frame :: "image \<Rightarrow> nat \<times> image" where
  "image_frame img = (length (img_mem img), img\<lparr>img_mem := []\<rparr>)"

definition only_memory :: "program \<Rightarrow> program \<Rightarrow> bool" where
  "only_memory out0 out \<longleftrightarrow> (\<exists>imgs fns. out = out0\<lparr>p_imgs := imgs, p_init_fns := fns\<rparr>
     \<and> map image_frame imgs = map image_frame (p_imgs out0))"

lemma only_memory_frame:
  "map image_frame imgs = map image_frame (p_imgs out0) \<Longrightarrow> only_memory out0 (out0\<lparr>p_imgs := imgs, p_init_fns := fns\<rparr>)"
  by (auto simp: only_memory_def)

lemma relocate_module_ok:
  assumes "only_memory out0 out"
  shows "\<exists>out'. relocate_module tls below i out = Some out' \<and> only_memory out0 out'"
proof -
  obtain imgs fns where out: "out = out0\<lparr>p_imgs := imgs, p_init_fns := fns\<rparr>"
    and fr: "map image_frame imgs = map image_frame (p_imgs out0)"
    using assms by (auto simp: only_memory_def)
  obtain n mem where mem: "apply_relocations (p_mods out ! i) (p_imgs out ! i) tls below
      = Some (n, (p_imgs out ! i)\<lparr>img_mem := mem\<rparr>)" "length mem = length (img_mem (p_imgs out ! i))"
    using apply_relocations_ok by blast
  have "map image_frame (imgs[i := (imgs ! i)\<lparr>img_mem := mem\<rparr>]) = map image_frame imgs"
    using mem(2) by (cases "i < length imgs") (simp_all add: map_update image_frame_def out list_update_same_conv list_update_beyond not_less)
  with fr have "only_memory out0 (out0\<lparr>p_imgs := imgs[i := (imgs ! i)\<lparr>img_mem := mem\<rparr>], p_init_fns := fns\<rparr>)"
    by (intro only_memory_frame) simp
  moreover have "out\<lparr>p_imgs := imgs'\<rparr> = out0\<lparr>p_imgs := imgs', p_init_fns := fns\<rparr>" for imgs'
    by (cases out0) (simp add: out)
  ultimately show ?thesis using mem(1) by (simp add: relocate_module_def) (simp add: out)
qed

lemma init_module_ok:
  assumes "only_memory out0 out" and "i < length (p_imgs out0)" and "\<forall>img \<in> set (p_imgs out0). length (img_mem img) < 2 ^ 64"
  shows "\<exists>out'. init_module i out = Some out' \<and> only_memory out0 out'"
proof -
  obtain imgs fns where out: "out = out0\<lparr>p_imgs := imgs, p_init_fns := fns\<rparr>"
    and fr: "map image_frame imgs = map image_frame (p_imgs out0)"
    using assms by (auto simp: only_memory_def)
  have "image_frame (imgs ! i) = image_frame (p_imgs out0 ! i)"
    using arg_cong[OF fr, of "\<lambda>xs. xs ! i"] map_eq_imp_length_eq[OF fr] assms(2) by simp
  then have "length (img_mem (imgs ! i)) < 2 ^ 64" using assms(2,3) by (simp add: image_frame_def)
  from init_entries_returns[OF this] obtain es where
    es: "init_entries (imgs ! i) (m_init_array_va (p_mods out ! i)) (m_init_array_sz (p_mods out ! i)) 0 = Some es" by blast
  have "only_memory out0 (out0\<lparr>p_imgs := imgs, p_init_fns := g\<rparr>)" for g by (rule only_memory_frame[OF fr])
  then show ?thesis using es by (simp add: init_module_def Let_def out)
qed

definition image_key :: "image \<Rightarrow> qword \<times> nat" where
  "image_key img = (img_base img, length (img_mem img))"

lemma assign_tls_frame:
  "\<exists>imgs ts. assign_tls out = out\<lparr>p_imgs := imgs, p_tls_templates := ts\<rparr>
     \<and> map image_key imgs = map image_key (p_imgs out)"
proof -
  let ?P = "\<lambda>o'. \<exists>imgs ts. o' = out\<lparr>p_imgs := imgs, p_tls_templates := ts\<rparr> \<and> map image_key imgs = map image_key (p_imgs out)"
  have step: "?P (assign_tls_id o' i)" if "?P o'" for o' i
  proof -
    from that obtain imgs ts where o': "o' = out\<lparr>p_imgs := imgs, p_tls_templates := ts\<rparr>"
      and k: "map image_key imgs = map image_key (p_imgs out)" by blast
    have "map image_key (imgs[i := (imgs ! i)\<lparr>img_tls_modid := t\<rparr>]) = map image_key imgs" for t
      by (cases "i < length imgs") (simp_all add: map_update image_key_def list_update_same_conv list_update_beyond not_less)
    then show ?thesis
    proof (cases "m_tls_memsz (p_mods out ! i) = 0")
      case True
      then show ?thesis using o' k by (simp add: assign_tls_id_def Let_def) blast
    next
      case False
      let ?t = "word_of_nat (length ts) :: dword"
      have "assign_tls_id o' i = out\<lparr>p_imgs := imgs[i := (imgs ! i)\<lparr>img_tls_modid := ?t\<rparr>], p_tls_templates := ts @
          [\<lparr>td_init_va = img_base (imgs ! i) + m_tls_vaddr (p_mods out ! i), td_filesz = m_tls_filesz (p_mods out ! i),
            td_memsz = m_tls_memsz (p_mods out ! i), td_align = m_tls_align (p_mods out ! i)\<rparr>]\<rparr>"
        using False by (simp add: assign_tls_id_def Let_def o')
      moreover have "map image_key (imgs[i := (imgs ! i)\<lparr>img_tls_modid := ?t\<rparr>]) = map image_key (p_imgs out)"
        using k \<open>\<And>t. map image_key (imgs[i := (imgs ! i)\<lparr>img_tls_modid := t\<rparr>]) = map image_key imgs\<close> by simp
      ultimately show ?thesis by blast
    qed
  qed
  have "?P (out\<lparr>p_tls_templates := ts\<rparr>)" for ts
    by (intro exI[of _ "p_imgs out"] exI[of _ ts]) simp
  then show ?thesis unfolding assign_tls_def by (rule foldl_keeps[where P = ?P]) (rule step)
qed

lemma foldM_keeps:
  assumes "P s" and "\<And>x s. x \<in> set xs \<Longrightarrow> P s \<Longrightarrow> \<exists>s'. f x s = Some s' \<and> P s'"
  shows "\<exists>s'. foldM f xs s = Some s' \<and> P s'"
  using foldM_defined[of P s xs f] assms by blast

text \<open>The program once its modules are loaded.\<close>

definition fresh :: "program \<Rightarrow> bool" where
  "fresh out \<longleftrightarrow> length (p_imgs out) = length (p_mods out) \<and> p_slots out = [] \<and> p_exports out = Map.empty"

text \<open>Every import of module \<open>i\<close> has its target in the image.\<close>

definition imports_bound :: "program \<Rightarrow> nat \<Rightarrow> bool" where
  "imports_bound out i \<longleftrightarrow> (\<forall>imp \<in> set (m_imports (p_mods out ! i)).
     \<exists>a. img_import_addr (p_imgs out ! i) (imp_sym_index imp) = Some a \<and> target out (imp_nid imp) a)"

lemma map_determines: "map f xs = map f ys \<Longrightarrow> (\<And>x y. f x = f y \<Longrightarrow> g x = g y) \<Longrightarrow> map g xs = map g ys"
proof (induction xs arbitrary: ys)
  case Nil
  from Nil.prems(1) show ?case by simp
next
  case (Cons x xs)
  from Cons.prems(1) obtain y ys' where y: "ys = y # ys'" "f x = f y" "map f xs = map f ys'" by (cases ys) auto
  from Cons.IH[OF y(3) Cons.prems(2)] Cons.prems(2)[OF y(2)] show ?case by (simp add: y(1))
qed

lemma image_frame_imports:
  assumes "map image_frame imgs = map image_frame imgs'"
  shows "map img_import_addr imgs = map img_import_addr imgs'" and "map image_key imgs = map image_key imgs'"
proof -
  have "img_import_addr x = img_import_addr y \<and> image_key x = image_key y" if "image_frame x = image_frame y" for x y
    using that by (cases x; cases y) (auto simp: image_frame_def image_key_def)
  then show "map img_import_addr imgs = map img_import_addr imgs'" "map image_key imgs = map image_key imgs'"
    using map_determines[OF assms] by blast+
qed

lemma image_addr_key:
  assumes "map (\<lambda>img. img\<lparr>img_import_addr := Map.empty\<rparr>) imgs = map (\<lambda>img. img\<lparr>img_import_addr := Map.empty\<rparr>) imgs'"
  shows "map image_key imgs = map image_key imgs'"
proof -
  have "image_key x = image_key y" if "x\<lparr>img_import_addr := Map.empty\<rparr> = y\<lparr>img_import_addr := Map.empty\<rparr>" for x y
    using that by (cases x; cases y) (auto simp: image_key_def)
  then show ?thesis using map_determines[OF assms] by blast
qed

text \<open>What linking makes of a loaded program.\<close>

lemma link_loaded_ok:
  assumes fr: "fresh out" and mem: "\<forall>img \<in> set (p_imgs out). length (img_mem img) < 2 ^ 64"
  shows "\<exists>out'. link_loaded out = Some out' \<and> p_mods out' = p_mods out \<and> p_skipped out' = p_skipped out
    \<and> p_stub_base out' = p_stub_base out \<and> p_stub_size out' = p_stub_size out
    \<and> p_exports out' = map_of (global_exports (p_mods out) (map img_base (p_imgs out)))
    \<and> map image_key (p_imgs out') = map image_key (p_imgs out)
    \<and> distinct (map sl_nid (p_slots out'))
    \<and> length (p_slots out') \<le> length (import_events (p_mods out) (length (p_mods out)))
    \<and> (\<forall>i < length (p_mods out). distinct (map imp_sym_index (m_imports (p_mods out ! i))) \<longrightarrow> imports_bound out' i)"
proof -
  let ?n = "length (p_mods out)"
  let ?out0 = "out\<lparr>p_entry := img_entry (p_imgs out ! 0)\<rparr>"
  obtain imgs ts where a: "assign_tls ?out0 = ?out0\<lparr>p_imgs := imgs, p_tls_templates := ts\<rparr>"
    and ka: "map image_key imgs = map image_key (p_imgs out)"
    using assign_tls_frame[of ?out0] by auto
  define out1 where "out1 = ?out0\<lparr>p_imgs := imgs, p_tls_templates := ts\<rparr>"
  have n1: "length (p_imgs out1) = length (p_mods out1)"
    using fr map_eq_imp_length_eq[OF ka] by (simp add: out1_def fresh_def)
  define out2 where "out2 = foldl export_module out1 [0..<?n]"
  have e2: "p_exports out2 = map_of (global_exports (p_mods out1) (map img_base (p_imgs out1))) ++ p_exports out1"
    and f2: "exports_only out1 out2"
    using export_modules[OF n1] by (simp_all add: out2_def out1_def)
  define st3 where "st3 = foldl resolve_module (out2, Map.empty) [0..<?n]"
  have f2': "p_mods out2 = p_mods out" "p_imgs out2 = imgs" "p_slots out2 = []"
    using f2 fr by (simp_all add: exports_only_def out1_def fresh_def)
  have s3: "slot_state out2 (import_events (p_mods out2) ?n) st3" "stored (import_events (p_mods out2) ?n) (fst st3)"
    using resolve_modules_ok[of out2 ?n] n1 f2' by (simp_all add: slots_ok_def out1_def st3_def)
  obtain out3 so where st3: "st3 = (out3, so)" by (cases st3) auto
  note s3' = s3(1)[unfolded st3 slot_state_def prod.case]
  obtain l where l: "make_static_tls_layout (Some (p_tls_templates out3)) (length (p_tls_templates out3)) = Some l"
    using make_static_tls_layout_returns by blast
  have "\<exists>out4. foldM (relocate_module (tls_symbols out3) (module_below l)) [0..<?n] out3 = Some out4 \<and> only_memory out3 out4"
    by (rule foldM_keeps[OF only_memory_frame[of "p_imgs out3" out3 "p_init_fns out3", simplified] relocate_module_ok])
  then obtain out4 where r4: "foldM (relocate_module (tls_symbols out3) (module_below l)) [0..<?n] out3 = Some out4"
    and m4: "only_memory out3 out4" by blast
  have k3: "map image_key (p_imgs out3) = map image_key (p_imgs out)"
    using image_addr_key[of "p_imgs out3" "p_imgs out2"] s3' ka f2'(2) by simp
  have mem3: "\<forall>img \<in> set (p_imgs out3). length (img_mem img) < 2 ^ 64"
  proof
    fix img assume "img \<in> set (p_imgs out3)"
    then have "image_key img \<in> set (map image_key (p_imgs out))" unfolding k3[symmetric] by simp
    then show "length (img_mem img) < 2 ^ 64" using mem by (auto simp: image_key_def)
  qed
  have mods4: "p_mods out4 = p_mods out" using m4 s3' f2'(1) by (auto simp: only_memory_def)
  have len3: "length (p_imgs out3) = ?n"
    using map_eq_imp_length_eq[OF k3] fr by (simp add: fresh_def)
  have "\<exists>out5. foldM init_module (rev [1..<?n]) out4 = Some out5 \<and> only_memory out3 out5"
    by (rule foldM_keeps[OF m4 init_module_ok[OF _ _ mem3]]) (simp_all add: len3)
  then obtain out5 where r5: "foldM init_module (rev [1..<?n]) out4 = Some out5" and m5: "only_memory out3 out5" by blast
  have eq: "link_loaded out = Some out5"
    unfolding link_loaded_def Let_def a out1_def[symmetric]
    using l r4 r5 mods4 st3 by (simp add: out1_def[THEN arg_cong, of p_mods] out2_def[symmetric] st3_def[symmetric])
  obtain imgs5 fns where out5: "out5 = out3\<lparr>p_imgs := imgs5, p_init_fns := fns\<rparr>"
    and fr5: "map image_frame imgs5 = map image_frame (p_imgs out3)" using m5 by (auto simp: only_memory_def)
  have bound: "imports_bound out5 i" if "i < ?n" "distinct (map imp_sym_index (m_imports (p_mods out ! i)))" for i
  proof -
    have "img_import_addr (imgs5 ! i) = img_import_addr (p_imgs out3 ! i)"
      using arg_cong[OF image_frame_imports(1)[OF fr5], of "\<lambda>xs. xs ! i"] map_eq_imp_length_eq[OF fr5] that(1) len3 by simp
    moreover have "target out5 nid x = target out3 nid x" for nid x by (simp add: target_def out5 cong: option.case_cong)
    ultimately show ?thesis
      using stored_target[OF s3(2)[unfolded st3 fst_conv] that(1)] that(2) s3' f2'(1) by (simp add: imports_bound_def out5)
  qed
  have bases: "map img_base imgs = map img_base (p_imgs out)"
    using arg_cong[OF ka, of "map fst"] by (simp add: image_key_def comp_def)
  show ?thesis
    using eq bound s3' f2 f2' e2 k3 bases image_frame_imports(2)[OF fr5] fr
    by (intro exI[of _ out5]) (simp add: out5 slots_ok_def exports_only_def out1_def fresh_def)
qed

end
