(* ===== verification/LinkerExample.thy ===== *)
theory LinkerExample
  imports SelfModuleFacts
begin

text \<open>
  A concrete module of 328 bytes, on which the linker's theorems are applied: one \<open>PT_LOAD\<close> of the
  whole file and a dynamic section naming three symbols: none, the import \<open>I\<close>, the export \<open>E\<close>.
\<close>

definition example_ehdr :: "byte list" where
  "example_ehdr =
    [127, 69, 76, 70, 0, 0, 0, 0, 0, 0, 0, 0, 0, 0, 0, 0, 24, 254, 62, 0, 1, 0, 0, 0, 16, 0, 0, 0,
    0, 0, 0, 0, 64, 0, 0, 0, 0, 0, 0, 0, 0, 0, 0, 0, 0, 0, 0, 0, 0, 0, 0, 0, 64, 0, 56, 0, 2, 0,
    0, 0, 0, 0, 0, 0]"

definition example_phdr0 :: "byte list" where
  "example_phdr0 =
    [1, 0, 0, 0, 5, 0, 0, 0, 0, 0, 0, 0, 0, 0, 0, 0, 0, 0, 0, 0, 0, 0, 0, 0, 0, 0, 0, 0, 0, 0, 0, 0,
    72, 1, 0, 0, 0, 0, 0, 0, 72, 1, 0, 0, 0, 0, 0, 0, 0, 0, 0, 0, 0, 0, 0, 0]"

definition example_phdr1 :: "byte list" where
  "example_phdr1 =
    [2, 0, 0, 0, 0, 0, 0, 0, 8, 1, 0, 0, 0, 0, 0, 0, 8, 1, 0, 0, 0, 0, 0, 0, 0, 0, 0, 0, 0, 0, 0, 0,
    64, 0, 0, 0, 0, 0, 0, 0, 64, 0, 0, 0, 0, 0, 0, 0, 0, 0, 0, 0, 0, 0, 0, 0]"

definition example_strtab :: "byte list" where
  "example_strtab =
    [0, 73, 35, 65, 35, 65, 0, 69, 35, 65, 35, 65, 0, 0, 0, 0]"

definition example_sym0 :: "byte list" where
  "example_sym0 =
    [0, 0, 0, 0, 0, 0, 0, 0, 0, 0, 0, 0, 0, 0, 0, 0, 0, 0, 0, 0, 0, 0, 0, 0]"

definition example_sym1 :: "byte list" where
  "example_sym1 =
    [1, 0, 0, 0, 0, 0, 0, 0, 0, 0, 0, 0, 0, 0, 0, 0, 0, 0, 0, 0, 0, 0, 0, 0]"

definition example_sym2 :: "byte list" where
  "example_sym2 =
    [7, 0, 0, 0, 0, 0, 1, 0, 16, 0, 0, 0, 0, 0, 0, 0, 0, 0, 0, 0, 0, 0, 0, 0]"

definition example_dyn0 :: "byte list" where
  "example_dyn0 =
    [5, 0, 0, 0, 0, 0, 0, 0, 176, 0, 0, 0, 0, 0, 0, 0]"

definition example_dyn1 :: "byte list" where
  "example_dyn1 =
    [6, 0, 0, 0, 0, 0, 0, 0, 192, 0, 0, 0, 0, 0, 0, 0]"

definition example_dyn2 :: "byte list" where
  "example_dyn2 =
    [63, 0, 0, 97, 0, 0, 0, 0, 72, 0, 0, 0, 0, 0, 0, 0]"

definition example_dyn3 :: "byte list" where
  "example_dyn3 =
    [0, 0, 0, 0, 0, 0, 0, 0, 0, 0, 0, 0, 0, 0, 0, 0]"

definition example_parts :: "byte list list" where
  "example_parts = [example_ehdr, example_phdr0, example_phdr1, example_strtab, example_sym0, example_sym1, example_sym2, example_dyn0, example_dyn1, example_dyn2, example_dyn3]"

definition example_elf :: "byte list" where
  "example_elf = concat example_parts"

lemma example_part_lengths:
  "length example_ehdr = 64" "length example_phdr0 = 56" "length example_phdr1 = 56" "length example_strtab = 16"
  "length example_sym0 = 24" "length example_sym1 = 24" "length example_sym2 = 24" "length example_dyn0 = 16"
  "length example_dyn1 = 16" "length example_dyn2 = 16" "length example_dyn3 = 16"
  by (simp_all add: example_ehdr_def example_phdr0_def example_phdr1_def example_strtab_def example_sym0_def
      example_sym1_def example_sym2_def example_dyn0_def example_dyn1_def example_dyn2_def example_dyn3_def)

lemma example_length: "length example_elf = 328"
  by (simp add: example_elf_def example_parts_def example_part_lengths)

lemma example_rd:
  "rd 64 example_elf 0 = example_ehdr" "rd 56 example_elf 64 = example_phdr0" "rd 56 example_elf 120 = example_phdr1"
  "rd 24 example_elf 192 = example_sym0" "rd 24 example_elf 216 = example_sym1" "rd 24 example_elf 240 = example_sym2"
  "rd 16 example_elf 264 = example_dyn0" "rd 16 example_elf 280 = example_dyn1" "rd 16 example_elf 296 = example_dyn2"
  "rd 16 example_elf 312 = example_dyn3"
  by (simp_all add: rd_def self_read_ok_def example_length)
    (simp_all add: example_elf_def example_parts_def example_part_lengths)

lemma example_header: "self_header example_elf = (Map.empty, 0)"
proof -
  have "rd 32 example_elf 0 = take 32 example_ehdr"
    by (simp add: rd_def self_read_ok_def example_length)
      (simp add: example_elf_def example_parts_def example_part_lengths)
  then show ?thesis by (simp add: self_header_def Let_def example_ehdr_def field_def)
qed

lemma example_find: "find_elf example_elf 0 = Some 0"
  by (simp add: find_elf_def example_rd) (simp add: example_ehdr_def elf_magic_def)

lemma example_ehdr_fields:
  "field example_ehdr 18 2 = (0x3e :: half)" "field example_ehdr 32 8 = (64 :: qword)"
  "field example_ehdr 56 2 = (2 :: half)" "field example_ehdr 24 8 = (16 :: qword)"
  by (simp_all add: example_ehdr_def field_def)

definition example_load :: segment where
  "example_load = \<lparr>seg_type = 1, seg_flags = 5, seg_vaddr = 0, seg_memsz = 328, seg_filesz = 328, seg_file_off = 0\<rparr>"

definition example_dynamic :: segment where
  "example_dynamic = \<lparr>seg_type = 2, seg_flags = 0, seg_vaddr = 264, seg_memsz = 64, seg_filesz = 64, seg_file_off = 264\<rparr>"

lemma example_segments:
  "read_segment example_elf Map.empty 0 64 0 = example_load"
  "read_segment example_elf Map.empty 0 64 (Suc 0) = example_dynamic"
  by (simp_all add: read_segment_def Let_def example_rd example_load_def example_dynamic_def)
    (simp_all add: example_phdr0_def example_phdr1_def field_def)

lemma example_va2foff: "va < 328 \<Longrightarrow> va2foff [example_load, example_dynamic] va = va"
  by (simp add: va2foff_def va_in_def example_load_def PT_LOAD_def)

lemma example_dyn_run: "dyn_run_ok example_elf 264 = False"
  by (simp add: dyn_run_ok_def example_length)

lemma example_dyn_offset: "dyn_offset example_elf [example_load, example_dynamic] example_dynamic = 264"
proof -
  have v: "seg_vaddr example_dynamic = 264" by (simp add: example_dynamic_def)
  have n: "\<not> is_neg (264 :: qword)" by (simp add: is_neg_def bit_iff_odd)
  show ?thesis
    unfolding dyn_offset_def Let_def v example_va2foff[of 264, simplified] if_not_P[OF n] example_dyn_run if_False
    by (simp add: example_load_def example_dynamic_def PT_LOAD_def example_dyn_run)
qed

lemma example_dyn_fields:
  "field example_dyn0 0 8 = (5 :: qword)" "field example_dyn0 8 8 = (176 :: qword)"
  "field example_dyn1 0 8 = (6 :: qword)" "field example_dyn1 8 8 = (192 :: qword)"
  "field example_dyn2 0 8 = (0x6100003f :: qword)" "field example_dyn2 8 8 = (72 :: qword)"
  "field example_dyn3 0 8 = (0 :: qword)" "field example_dyn3 8 8 = (0 :: qword)"
  by (simp_all add: example_dyn0_def example_dyn1_def example_dyn2_def example_dyn3_def field_def)

lemma example_dyns: "dyn_entries example_elf 264 64 0 =
    Some [\<lparr>d_tag = 5, d_val = 176\<rparr>, \<lparr>d_tag = 6, d_val = 192\<rparr>, \<lparr>d_tag = 0x6100003f, d_val = 72\<rparr>, \<lparr>d_tag = 0, d_val = 0\<rparr>]"
  by (subst dyn_entries.simps, simp add: example_rd example_dyn_fields Let_def)+

text \<open>The module before its symbols are read.\<close>

definition example_headers :: "cstr \<Rightarrow> modul" where
  "example_headers path = empty_module\<lparr>m_path := path, m_file := example_elf, m_type := 0xfe18, m_machine := 0x3e,
     m_entry := 16, m_segments := [example_load, example_dynamic], m_loads := [example_load, example_dynamic],
     m_strtab_va := 176, m_symtab_va := 192, m_symtabsz := 72\<rparr>"

lemma example_strings:
  assumes "m_file m = example_elf" "m_loads m = [example_load, example_dynamic]" "m_strtab_va m = 176"
  shows "str_at m 0 = []" "str_at m 1 = [73, 35, 65, 35, 65]" "str_at m 7 = [69, 35, 65, 35, 65]"
proof -
  have n: "\<not> is_neg (176 :: qword)" by (simp add: is_neg_def bit_iff_odd)
  have d: "drop 176 example_elf = example_strtab @ drop 192 example_elf"
    "drop 177 example_elf = drop 1 example_strtab @ drop 192 example_elf"
    "drop 183 example_elf = drop 7 example_strtab @ drop 192 example_elf"
    by (simp_all add: example_elf_def example_parts_def example_part_lengths)
  show "str_at m 0 = []" "str_at m 1 = [73, 35, 65, 35, 65]" "str_at m 7 = [69, 35, 65, 35, 65]"
    unfolding str_at_def assms example_va2foff[of 176, simplified]
    by (simp_all add: n example_length d) (simp_all add: example_strtab_def)
qed

lemma example_sym_fields:
  "field example_sym0 0 4 = (0 :: qword)" "field example_sym0 6 2 = (0 :: half)" "field example_sym0 8 8 = (0 :: qword)"
  "field example_sym1 0 4 = (1 :: qword)" "field example_sym1 6 2 = (0 :: half)" "field example_sym1 8 8 = (0 :: qword)"
  "field example_sym2 0 4 = (7 :: qword)" "field example_sym2 6 2 = (1 :: half)" "field example_sym2 8 8 = (16 :: qword)"
  by (simp_all add: example_sym0_def example_sym1_def example_sym2_def field_def)

lemma example_names:
  "split_name [] = Some ([], - 1)" "split_name [73, 35, 65, 35, 65] = Some ([73], 0)"
  "split_name [69, 35, 65, 35, 65] = Some ([69], 0)"
  by (simp_all add: split_name_def hash_def b64val_def b64_index_def)

definition example_symbols :: "symbol list" where
  "example_symbols =
     [\<lparr>sym_raw = [], sym_nid = [], sym_lib_id = - 1, sym_shndx = 0, sym_value = 0, sym_is_import = False,
       sym_lib_name = []\<rparr>,
      \<lparr>sym_raw = [73, 35, 65, 35, 65], sym_nid = [73], sym_lib_id = 0, sym_shndx = 0, sym_value = 0,
       sym_is_import = True, sym_lib_name = [108, 105, 98, 35, 48]\<rparr>,
      \<lparr>sym_raw = [69, 35, 65, 35, 65], sym_nid = [69], sym_lib_id = 0, sym_shndx = 1, sym_value = 16,
       sym_is_import = False, sym_lib_name = [108, 105, 98, 35, 48]\<rparr>]"

lemma example_read_symbols:
  assumes "m_file m = example_elf" "m_loads m = [example_load, example_dynamic]" "m_strtab_va m = 176"
    "m_symtab_va m = 192" "m_syment m = 24" "m_import_libs m = Map.empty"
  shows "read_symbol m 0 = Some (example_symbols ! 0)" "read_symbol m 1 = Some (example_symbols ! 1)"
    "read_symbol m 2 = Some (example_symbols ! 2)"
proof -
  have dec: "decimal 0 = [48]" by (simp add: decimal.simps)
  show "read_symbol m 0 = Some (example_symbols ! 0)" "read_symbol m 1 = Some (example_symbols ! 1)"
    "read_symbol m 2 = Some (example_symbols ! 2)"
    unfolding read_symbol_def assms example_va2foff[of 192, simplified] Let_def
    by (simp_all add: example_rd example_sym_fields example_strings[OF assms(1-3)] example_names assms(6) dec
        example_symbols_def) (simp_all add: hash_def)
qed

definition example_module :: "cstr \<Rightarrow> modul" where
  "example_module path = (example_headers path)\<lparr>m_symbols := example_symbols,
     m_imports := [\<lparr>imp_nid = [73], imp_lib_name = [108, 105, 98, 35, 48], imp_sym_index = 1\<rparr>]\<rparr>"

lemma example_add_symbols:
  "foldM add_symbol [0..<3] (example_headers path) = Some (example_module path)"
proof -
  have s: "[0..<3] = [0, 1, 2 :: nat]" by (simp add: upt_rec)
  show ?thesis
    unfolding s by (simp add: add_symbol_def example_read_symbols example_read_symbols(2)[unfolded One_nat_def] example_headers_def empty_module_def Let_def
        example_module_def example_symbols_def)
qed

lemma example_symbol_count: "symbol_count (example_headers path) = 3"
proof -
  have n: "\<not> is_neg (192 :: qword)" by (simp add: is_neg_def bit_iff_odd)
  show ?thesis
    by (simp add: symbol_count_def example_headers_def empty_module_def example_va2foff n clamp_table_bytes_def
        example_length Let_def)
qed

lemma example_loads: "load path example_elf = Some (Inr (example_module path))"
proof -
  define m0 where "m0 = empty_module\<lparr>m_path := path, m_file := example_elf, m_elf_base := 0,
      m_type := field example_ehdr 16 2, m_machine := field example_ehdr 18 2, m_entry := field example_ehdr 24 8\<rparr>"
  define m1 where "m1 = m0\<lparr>m_segments := [example_load, example_dynamic], m_loads := [example_load, example_dynamic]\<rparr>"
  have h: "foldl (add_header Map.empty 64) m0 [0..<2] = m1"
  proof -
    have ss: "seg_type example_load = 1" "seg_filesz example_load = 328" "seg_type example_dynamic = 2"
      "seg_filesz example_dynamic = 64" by (simp_all add: example_load_def example_dynamic_def)
    have two: "[0..<2] = [0, Suc 0]" by (simp add: upt_rec)
    have f: "m_file m0 = example_elf" "m_elf_base m0 = 0" "m_segments m0 = []" "m_loads m0 = []"
      by (simp_all add: m0_def empty_module_def)
    show ?thesis unfolding two
      by (simp add: add_header_def f example_segments is_load_def ss PT_LOAD_def PT_DYNAMIC_def PT_TLS_def m1_def Let_def)
  qed
  have t: "foldl dyn_record (foldl dyn_tag m1 ds) ds = example_headers path"
    if "ds = [\<lparr>d_tag = 5, d_val = 176\<rparr>, \<lparr>d_tag = 6, d_val = 192\<rparr>, \<lparr>d_tag = 0x6100003f, d_val = 72\<rparr>, \<lparr>d_tag = 0, d_val = 0\<rparr>]" for ds
    unfolding that by (simp add: dyn_tag_def dyn_record_def Let_def m1_def m0_def empty_module_def example_headers_def
        example_ehdr_fields) (simp add: example_ehdr_def field_def)
  have f: "filter (\<lambda>s. seg_type s = PT_DYNAMIC) (m_segments m1) = [example_dynamic]" "m_loads m1 = [example_load, example_dynamic]"
    "seg_filesz example_dynamic = 64" "m_machine m0 = 0x3e"
    by (simp_all add: m1_def m0_def example_load_def example_dynamic_def PT_DYNAMIC_def example_ehdr_fields)
  have r: "read_relocs va 0 plt m = m" if "m_file m = example_elf" for va plt m
  proof -
    have "clamp_table_bytes o' 0 s = 0" for o' s by (auto simp: clamp_table_bytes_def Let_def word_greater_zero_iff)
    then show ?thesis by (simp add: read_relocs_def Let_def)
  qed
  have z: "m_rela_sz (example_module path) = 0" "m_jmprel_sz (example_module path) = 0" "m_file (example_module path) = example_elf"
    by (simp_all add: example_module_def example_headers_def empty_module_def)
  show ?thesis
    unfolding load_def example_header prod.case Let_def example_find option.case example_rd(1) m0_def[symmetric]
    by (simp add: example_ehdr_fields h f example_dyn_offset example_dyns t[OF refl, unfolded foldl.simps] example_symbol_count example_add_symbols r z)
qed

lemma example_ids_fit: "lib_ids_fit example_elf"
  by (rule short_strings_fit)
    (simp add: example_elf_def example_parts_def example_ehdr_def example_phdr0_def example_phdr1_def example_strtab_def
      example_sym0_def example_sym1_def example_sym2_def example_dyn0_def example_dyn1_def example_dyn2_def example_dyn3_def)

end
