(* ===== verification/LinkerTheorems.thy ===== *)
theory LinkerTheorems
  imports LinkerFacts LinkerExample
begin

text \<open>
  What the linker promises as a whole: it returns, optional modules never alias an export, and
  imports are bound to the first definition of their NID. The example module of LinkerExample
  is the concrete instance.
\<close>

subsection \<open>The whole linker\<close>

text \<open>A successful link is a load of some accepted inputs and the link of what it loaded.\<close>

lemma link_program_success:
  assumes "link_program files can_alloc inputs sb empty_program = Some (out, None)"
  shows "\<exists>acc imgs sk out1. loaded files can_alloc inputs Map.empty (empty_program\<lparr>p_stub_base := sb\<rparr>) out1 acc imgs sk
    \<and> link_loaded out1 = Some out"
proof -
  obtain out1 where l: "load_inputs files can_alloc inputs Map.empty (empty_program\<lparr>p_stub_base := sb\<rparr>) = Some (out1, None)"
    and k: "link_loaded out1 = Some out"
    using assms by (auto simp: link_program_def split: if_splits Option.bind_splits option.splits)
  from load_inputs_loaded[OF l] k show ?thesis by blast
qed

lemma loaded_fresh:
  assumes "loaded files can_alloc inps o' (empty_program\<lparr>p_stub_base := sb\<rparr>) out acc imgs sk"
  shows "fresh out" "p_mods out = map snd acc" "p_imgs out = imgs" "p_skipped out = sk" "p_stub_base out = sb"
    "p_stub_size out = 96" "length imgs = length acc"
  using assms by (auto simp: loaded_def fresh_def empty_program_def dest: list_all2_lengthD)

lemma build_image_limit:
  assumes "build_image can_alloc m base = Some (Inr img)" and "length (m_file m) < 2 ^ 63"
  shows "length (img_mem img) < 2 ^ 64"
  using build_image_ok[OF assms(2), where can_alloc = can_alloc and base = base] assms(1) by auto

lemma loaded_loads:
  assumes "loaded files can_alloc inps o' out0 out acc imgs sk" and "x \<in> set acc"
  shows "load_path files (li_path (fst x)) = Some (Inr (snd x))" and "fst x \<in> set inps"
proof -
  have l: "list_all2 (\<lambda>x img. load_path files (li_path (fst x)) = Some (Inr (snd x))
      \<and> build_image can_alloc (snd x) (li_base (fst x)) = Some (Inr img)) acc imgs"
    and sub: "subseq (map fst acc) inps"
    using assms(1) by (simp_all add: loaded_def)
  obtain k where "k < length acc" "x = acc ! k" using assms(2) by (auto simp: in_set_conv_nth)
  with list_all2_nthD[OF l] show "load_path files (li_path (fst x)) = Some (Inr (snd x))" by blast
  have "fst x \<in> set (map fst acc)" using assms(2) by simp
  from list_emb_set[OF sub this] show "fst x \<in> set inps" by metis
qed

lemma loaded_images:
  assumes "loaded files can_alloc inps o' out0 out acc imgs sk" and "img \<in> set imgs"
    and "\<forall>inp \<in> set inps. case files (li_path inp) of Inl e \<Rightarrow> True | Inr b \<Rightarrow> length b < 2 ^ 63"
  shows "length (img_mem img) < 2 ^ 64"
proof -
  obtain k where k: "k < length imgs" "img = imgs ! k" using assms(2) by (auto simp: in_set_conv_nth)
  have "list_all2 (\<lambda>x img. load_path files (li_path (fst x)) = Some (Inr (snd x))
      \<and> build_image can_alloc (snd x) (li_base (fst x)) = Some (Inr img)) acc imgs"
    using assms(1) by (simp add: loaded_def)
  from list_all2_nthD2[OF this k(1)] list_all2_lengthD[OF this] k
  obtain x where x: "x \<in> set acc" "load_path files (li_path (fst x)) = Some (Inr (snd x))"
      "build_image can_alloc (snd x) (li_base (fst x)) = Some (Inr img)" by (metis nth_mem)
  have "fst x \<in> set inps" by (rule loaded_loads(2)[OF assms(1) x(1)])
  then obtain b where "load (li_path (fst x)) b = Some (Inr (snd x))" "length b < 2 ^ 63"
    using assms(3) x(2) by (auto simp: load_path_def split: sum.splits)
  from load_ok[OF this] this(2) show ?thesis using build_image_limit[OF x(3)] by simp
qed

text \<open>
  C25: the linker returns, whatever its files contain, as long as no zero-terminated string in a
  file has a library id that overflows the \<open>int\<close> it is decoded into: it reports an error or a
  linked program, its loops over dynamic sections and init arrays end, whatever sizes the files
  declare, and no access leaves a file or an image.
\<close>

theorem link_program_returns:
  assumes "\<forall>inp \<in> set inputs. case files (li_path inp) of
      Inl e \<Rightarrow> True | Inr b \<Rightarrow> length b < 2 ^ 63 \<and> lib_ids_fit b"
  shows "link_program files can_alloc inputs sb empty_program \<noteq> None"
proof -
  have loads: "\<forall>inp \<in> set inputs. case files (li_path inp) of
      Inl e \<Rightarrow> True | Inr b \<Rightarrow> length b < 2 ^ 63 \<and> load (li_path inp) b \<noteq> None"
    using assms load_returns by (auto split: sum.splits)
  obtain out e where l: "load_inputs files can_alloc inputs Map.empty (empty_program\<lparr>p_stub_base := sb\<rparr>) = Some (out, e)"
    using load_inputs_returns[OF loads, of can_alloc Map.empty "empty_program\<lparr>p_stub_base := sb\<rparr>"] by auto
  show ?thesis
  proof (cases e)
    case (Some e)
    then show ?thesis by (simp add: link_program_def l)
  next
    case None
    from load_inputs_loaded[OF l[unfolded None]] obtain acc imgs sk where
      ld: "loaded files can_alloc inputs Map.empty (empty_program\<lparr>p_stub_base := sb\<rparr>) out acc imgs sk" by blast
    have "\<forall>inp \<in> set inputs. case files (li_path inp) of Inl e \<Rightarrow> True | Inr b \<Rightarrow> length b < 2 ^ 63"
      using assms by (auto split: sum.splits)
    then have "\<forall>img \<in> set (p_imgs out). length (img_mem img) < 2 ^ 64"
      using loaded_images[OF ld] loaded_fresh(3)[OF ld] by blast
    from link_loaded_ok[OF loaded_fresh(1)[OF ld] this] obtain out' where "link_loaded out = Some out'" by blast
    then show ?thesis by (simp add: link_program_def l None)
  qed
qed

subsection \<open>Which inputs are skipped\<close>

text \<open>
  What a module exports, and a decision for each input: its module and whether it is accepted. A
  prefix of the decisions says who exports a NID, in order.
\<close>

type_synonym decision = "link_input \<times> modul \<times> bool"

definition accepted :: "decision \<Rightarrow> bool" where
  "accepted d \<longleftrightarrow> snd (snd d)"

definition defined_nids :: "modul \<Rightarrow> cstr list" where
  "defined_nids m =
     map sym_nid (filter (\<lambda>s. \<not> sym_is_import s \<and> sym_nid s \<noteq> [] \<and> sym_value s \<noteq> 0) (m_symbols m))"

definition exporter_paths :: "decision list \<Rightarrow> cstr \<Rightarrow> cstr list" where
  "exporter_paths ds nid = map (\<lambda>(inp, m, a). li_path inp) (filter (\<lambda>(inp, m, a). a \<and> nid \<in> set (defined_nids m)) ds)"

text \<open>The exports of a module that the accepted modules among \<open>ds\<close> already have.\<close>

definition collisions :: "decision list \<Rightarrow> modul \<Rightarrow> cstr list" where
  "collisions ds m = filter (\<lambda>nid. exporter_paths ds nid \<noteq> []) (defined_nids m)"

definition decided :: "decision list \<Rightarrow> nat \<Rightarrow> bool" where
  "decided ds k \<longleftrightarrow>
     (case ds ! k of (inp, m, a) \<Rightarrow> a = (\<not> (li_skip_on_export_collision inp \<and> collisions (take k ds) m \<noteq> [])))"

definition skip_record :: "decision list \<Rightarrow> nat \<Rightarrow> skipped_module" where
  "skip_record ds k =
     (case ds ! k of (inp, m, a) \<Rightarrow>
        let nid = hd (collisions (take k ds) m)
        in \<lparr>sk_path = li_path inp, sk_nid = nid, sk_owner = hd (exporter_paths (take k ds) nid)\<rparr>)"

definition first_exporter :: "decision list \<Rightarrow> cstr \<Rightarrow> cstr option" where
  "first_exporter ds nid = (case exporter_paths ds nid of [] \<Rightarrow> None | p # _ \<Rightarrow> Some p)"

lemma defined_nids_exports: "module_export_nids m = defined_nids m"
  by (simp add: module_export_nids_def defined_nids_def is_exported_symbol_def[abs_def])

lemma first_exporter_None: "first_exporter ds nid = None \<longleftrightarrow> exporter_paths ds nid = []"
  by (simp add: first_exporter_def split: list.split)

lemma first_exporter_hd: "exporter_paths ds nid \<noteq> [] \<Longrightarrow> first_exporter ds nid = Some (hd (exporter_paths ds nid))"
  by (simp add: first_exporter_def split: list.split)

lemma exporter_paths_snoc:
  "exporter_paths (ds @ [(inp, m, a)]) nid =
     exporter_paths ds nid @ (if a \<and> nid \<in> set (defined_nids m) then [li_path inp] else [])"
  by (simp add: exporter_paths_def)

lemma first_exporter_snoc:
  "first_exporter (ds @ [(inp, m, True)]) = claim_exports m (li_path inp) (first_exporter ds)"
  "first_exporter (ds @ [(inp, m, False)]) = first_exporter ds"
proof -
  show "first_exporter (ds @ [(inp, m, False)]) = first_exporter ds"
    by (simp add: fun_eq_iff first_exporter_def exporter_paths_snoc)
  have own: "map_of (map (\<lambda>nid. (nid, p)) ns) nid = (if nid \<in> set ns then Some p else None)" for p ns and nid :: cstr
    by (induction ns) auto
  have "first_exporter (ds @ [(inp, m, True)]) nid = claim_exports m (li_path inp) (first_exporter ds) nid" for nid
    by (simp add: claim_exports_eq map_add_def own defined_nids_exports first_exporter_def exporter_paths_snoc split: list.split)
  then show "first_exporter (ds @ [(inp, m, True)]) = claim_exports m (li_path inp) (first_exporter ds)" by blast
qed

lemma find_filter: "find P xs = (case filter P xs of [] \<Rightarrow> None | x # _ \<Rightarrow> Some x)"
  by (induction xs) auto

lemma find_export_collision_first:
  "find_export_collision m (first_exporter ds) =
     (case collisions ds m of [] \<Rightarrow> ([], []) | nid # _ \<Rightarrow> (nid, hd (exporter_paths ds nid)))"
proof -
  define Q where "Q s \<longleftrightarrow> is_exported_symbol s \<and> first_exporter ds (sym_nid s) \<noteq> None" for s
  have "collisions ds m = map sym_nid (filter Q (m_symbols m))"
    by (simp add: collisions_def Q_def[abs_def] del: not_None_eq flip: defined_nids_exports)
      (simp add: module_export_nids_def filter_map comp_def first_exporter_None conj_commute
        del: not_None_eq)
  moreover have "first_exporter ds (sym_nid s) = Some (hd (exporter_paths ds (sym_nid s)))"
    if "filter Q (m_symbols m) = s # ss" for s ss
  proof -
    have "s \<in> set (filter Q (m_symbols m))" using that by simp
    then show ?thesis by (intro first_exporter_hd) (simp add: Q_def first_exporter_None del: not_None_eq)
  qed
  ultimately show ?thesis
    unfolding find_export_collision_def find_filter Q_def[symmetric]
    by (auto split: list.split)
qed

text \<open>Loading the rest of the inputs after the decisions \<open>ds\<close>: one input, then all of them.\<close>

lemma load_inputs_step:
  assumes "load_inputs files can_alloc (inp # inps) (first_exporter ds) out = Some (out', None)"
    and m: "load_path files (li_path inp) = Some (Inr m)"
  obtains out2 where
      "load_inputs files can_alloc inps (first_exporter (ds @ [(inp, m,
         \<not> (li_skip_on_export_collision inp \<and> collisions ds m \<noteq> []))])) out2 = Some (out', None)"
    and "p_mods out2 = p_mods out @ (if li_skip_on_export_collision inp \<and> collisions ds m \<noteq> [] then [] else [m])"
    and "p_skipped out2 = p_skipped out @ (if li_skip_on_export_collision inp \<and> collisions ds m \<noteq> []
      then [\<lparr>sk_path = li_path inp, sk_nid = hd (collisions ds m),
             sk_owner = hd (exporter_paths ds (hd (collisions ds m)))\<rparr>] else [])"
proof -
  define hit where "hit = (if li_skip_on_export_collision inp then find_export_collision m (first_exporter ds) else ([], []))"
  have "nid \<noteq> []" if "nid \<in> set (collisions ds m)" for nid
    using that by (auto simp: collisions_def defined_nids_def)
  then have hit: "hit = (if li_skip_on_export_collision inp \<and> collisions ds m \<noteq> []
      then (hd (collisions ds m), hd (exporter_paths ds (hd (collisions ds m)))) else ([], []))"
    "fst hit \<noteq> [] \<longleftrightarrow> li_skip_on_export_collision inp \<and> collisions ds m \<noteq> []"
    by (auto simp: hit_def find_export_collision_first split: list.split)
  have eq: "load_inputs files can_alloc (inp # inps) (first_exporter ds) out =
      (if fst hit \<noteq> []
       then load_inputs files can_alloc inps (first_exporter ds)
              (out\<lparr>p_skipped := p_skipped out @ [\<lparr>sk_path = li_path inp, sk_nid = fst hit, sk_owner = snd hit\<rparr>]\<rparr>)
       else do {
         r \<leftarrow> build_image can_alloc m (li_base inp);
         case r of
           Inl e \<Rightarrow> Some (out, Some (Image_failed (li_path inp) e))
         | Inr img \<Rightarrow> load_inputs files can_alloc inps (claim_exports m (li_path inp) (first_exporter ds))
             (out\<lparr>p_mods := p_mods out @ [m], p_imgs := p_imgs out @ [img]\<rparr>) })"
    unfolding load_inputs.simps m Let_def hit_def by simp
  show ?thesis
  proof (cases "li_skip_on_export_collision inp \<and> collisions ds m \<noteq> []")
    case True
    with assms(1) eq have "load_inputs files can_alloc inps (first_exporter ds)
        (out\<lparr>p_skipped := p_skipped out @ [\<lparr>sk_path = li_path inp, sk_nid = fst hit, sk_owner = snd hit\<rparr>]\<rparr>) = Some (out', None)"
      using hit(2) by simp
    from that[of "out\<lparr>p_skipped := p_skipped out @ [\<lparr>sk_path = li_path inp, sk_nid = fst hit, sk_owner = snd hit\<rparr>]\<rparr>"]
      this hit(1) True show ?thesis by (simp add: first_exporter_snoc)
  next
    case False
    with assms(1) eq hit(2) obtain img where "load_inputs files can_alloc inps (claim_exports m (li_path inp) (first_exporter ds))
         (out\<lparr>p_mods := p_mods out @ [m], p_imgs := p_imgs out @ [img]\<rparr>) = Some (out', None)"
      by (auto split: Option.bind_splits sum.splits)
    from that[of "out\<lparr>p_mods := p_mods out @ [m], p_imgs := p_imgs out @ [img]\<rparr>"] this False show ?thesis
      by (auto simp: first_exporter_snoc)
  qed
qed

lemma load_inputs_decisions:
  "load_inputs files can_alloc inps (first_exporter ds) out = Some (out', None) \<Longrightarrow>
   \<exists>es. map fst es = inps \<and> (\<forall>(inp, m, a) \<in> set es. load_path files (li_path inp) = Some (Inr m))
     \<and> (\<forall>k \<in> {length ds..<length (ds @ es)}. decided (ds @ es) k)
     \<and> p_mods out' = p_mods out @ map (fst \<circ> snd) (filter accepted es)
     \<and> p_skipped out' = p_skipped out @
         map (skip_record (ds @ es)) (filter (\<lambda>k. \<not> accepted ((ds @ es) ! k)) [length ds..<length (ds @ es)])"
proof (induction inps arbitrary: ds out)
  case Nil
  then show ?case by (intro exI[of _ "[]"]) simp
next
  case (Cons inp inps)
  obtain m where m: "load_path files (li_path inp) = Some (Inr m)"
    using Cons.prems by (auto split: Option.bind_splits sum.splits)
  define skip where "skip \<longleftrightarrow> li_skip_on_export_collision inp \<and> collisions ds m \<noteq> []"
  define d where "d = (inp, m, \<not> skip)"
  define r where "r = \<lparr>sk_path = li_path inp, sk_nid = hd (collisions ds m),
      sk_owner = hd (exporter_paths ds (hd (collisions ds m)))\<rparr>"
  have new: "ds @ d # es = (ds @ [d]) @ es" "(ds @ d # es) ! length ds = d" "take (length ds) (ds @ d # es) = ds" for es
    by simp_all
  have dd: "decided (ds @ d # es) (length ds)" "accepted d = (\<not> skip)" "skip_record (ds @ d # es) (length ds) = r" for es
    unfolding decided_def skip_record_def new(2,3) by (auto simp: d_def skip_def accepted_def r_def Let_def)
  obtain out2 where rest: "load_inputs files can_alloc inps (first_exporter (ds @ [d])) out2 = Some (out', None)"
    and mods: "p_mods out2 = p_mods out @ (if skip then [] else [m])"
    and skipped: "p_skipped out2 = p_skipped out @ (if skip then [r] else [])"
    by (rule load_inputs_step[OF Cons.prems m]) (simp add: d_def r_def skip_def)
  from Cons.IH[OF rest] obtain es where es: "map fst es = inps"
    "\<forall>(inp, m, a) \<in> set es. load_path files (li_path inp) = Some (Inr m)"
    "\<forall>k \<in> {length (ds @ [d])..<length ((ds @ [d]) @ es)}. decided ((ds @ [d]) @ es) k"
    "p_mods out' = p_mods out2 @ map (fst \<circ> snd) (filter accepted es)"
    "p_skipped out' = p_skipped out2 @ map (skip_record ((ds @ [d]) @ es))
       (filter (\<lambda>k. \<not> accepted (((ds @ [d]) @ es) ! k)) [length (ds @ [d])..<length ((ds @ [d]) @ es)])"
    by blast
  define W where "W = ds @ d # es"
  have W: "(ds @ [d]) @ es = W" by (simp add: W_def)
  note es = es[unfolded W] and dd = dd(1)[of es, folded W_def] dd(2) dd(3)[of es, folded W_def]
  have Wd: "W ! length ds = d" by (simp add: W_def)
  have split: "[length ds..<length W] = length ds # [length (ds @ [d])..<length W]"
    using upt_conv_Cons[of "length ds" "length W"] by (simp add: W_def)
  have decs: "\<forall>k \<in> {length ds..<length W}. decided W k"
  proof
    fix k assume "k \<in> {length ds..<length W}"
    then have "k = length ds \<or> k \<in> {length (ds @ [d])..<length W}" by auto
    then show "decided W k" using es(3) dd(1) by blast
  qed
  have sk: "p_skipped out' = p_skipped out @ map (skip_record W) (filter (\<lambda>k. \<not> accepted (W ! k)) [length ds..<length W])"
    unfolding split filter.simps Wd dd(2) es(5) skipped by (cases skip) (simp_all add: dd(3))
  have md: "p_mods out' = p_mods out @ map (fst \<circ> snd) (filter accepted (d # es))"
    using es(4) mods dd(2) by (simp add: d_def)
  have "map fst (d # es) = inp # inps" "\<forall>(inp, m, a) \<in> set (d # es). load_path files (li_path inp) = Some (Inr m)"
    using es(1,2) m by (simp_all add: d_def)
  with decs md sk show ?case unfolding W_def by (intro exI[of _ "d # es"] conjI)
qed

text \<open>
  C26: when linking succeeds, every input was loaded and decided in order: it is skipped exactly
  when it is optional and one of its exports is exported by a module accepted before it. The
  program's modules are those of the accepted inputs in order, so no optional module aliases an
  export of an earlier one. The skips are recorded in order, each with its path, the first of its
  exports that collides and the path of the first accepted input with that export.
\<close>

theorem optional_modules_never_alias:
  assumes "link_program files can_alloc inputs sb empty_program = Some (out, None)"
    and "\<forall>inp \<in> set inputs. case files (li_path inp) of Inl e \<Rightarrow> True | Inr b \<Rightarrow> length b < 2 ^ 63"
  shows "\<exists>ds. map fst ds = inputs \<and> (\<forall>(inp, m, a) \<in> set ds. load_path files (li_path inp) = Some (Inr m))
    \<and> (\<forall>k < length ds. decided ds k)
    \<and> p_mods out = map (fst \<circ> snd) (filter accepted ds)
    \<and> p_skipped out = map (skip_record ds) (filter (\<lambda>k. \<not> accepted (ds ! k)) [0..<length ds])"
proof -
  obtain out1 where li: "load_inputs files can_alloc inputs Map.empty (empty_program\<lparr>p_stub_base := sb\<rparr>) = Some (out1, None)"
    and l: "link_loaded out1 = Some out"
    using assms(1) by (auto simp: link_program_def split: if_splits Option.bind_splits option.splits)
  obtain acc imgs sk where
    ld: "loaded files can_alloc inputs Map.empty (empty_program\<lparr>p_stub_base := sb\<rparr>) out1 acc imgs sk"
    using load_inputs_loaded[OF li] by blast
  note f = loaded_fresh[OF ld]
  have "\<forall>img \<in> set (p_imgs out1). length (img_mem img) < 2 ^ 64"
    using loaded_images[OF ld _ assms(2)] f(3) by blast
  from link_loaded_ok[OF f(1) this] l have "p_mods out = p_mods out1" "p_skipped out = p_skipped out1" by auto
  moreover have "first_exporter [] = Map.empty" by (simp add: fun_eq_iff first_exporter_def exporter_paths_def)
  ultimately show ?thesis
    using load_inputs_decisions[of files can_alloc inputs "[]"] li by (fastforce simp: empty_program_def)
qed

subsection \<open>Where imports go\<close>

definition file_bytes :: "(cstr \<Rightarrow> load_error + byte list) \<Rightarrow> link_input \<Rightarrow> nat" where
  "file_bytes files inp = (case files (li_path inp) of Inl e \<Rightarrow> 0 | Inr b \<Rightarrow> length b)"

lemma subseq_sum: "subseq xs ys \<Longrightarrow> (\<Sum>x \<leftarrow> xs. f x) \<le> (\<Sum>y \<leftarrow> ys. f y :: nat)"
  by (induction rule: list_emb.induct) auto

lemma member_sum: "x \<in> set xs \<Longrightarrow> f x \<le> (\<Sum>x \<leftarrow> xs. f x :: nat)"
  by (induction xs) auto

lemma sum_list_le: "(\<And>x. x \<in> set xs \<Longrightarrow> f x \<le> g x) \<Longrightarrow> (\<Sum>x \<leftarrow> xs. f x) \<le> (\<Sum>x \<leftarrow> xs. g x :: nat)"
  by (induction xs) (auto intro: add_mono)

lemma import_events_length: "length (import_events ms (length ms)) = (\<Sum>m \<leftarrow> ms. length (m_imports m))"
proof -
  have "length (import_events ms (length ms)) = sum_list (map (\<lambda>i. length (m_imports (ms ! i))) [0..<length ms])"
    by (simp add: import_events_def length_concat comp_def)
  also have "map (\<lambda>i. length (m_imports (ms ! i))) [0..<length ms] = map (\<lambda>m. length (m_imports m)) ms"
    by (intro nth_equalityI) simp_all
  finally show ?thesis .
qed

text \<open>A loaded module has no more imports than bytes, and each names another symbol.\<close>

lemma load_imports:
  assumes "load path b = Some (Inr m)" and "length b < 2 ^ 32"
  shows "length (m_imports m) \<le> length b" and "distinct (map imp_sym_index (m_imports m))"
proof -
  have b: "length b < 2 ^ 63" using assms(2) by simp
  note ok = load_ok[OF assms(1) b]
  have "length (filter P [0..<n]) \<le> n" for P n using length_filter_le[of P "[0..<n]"] by simp
  then show "length (m_imports m) \<le> length b" using ok by (metis le_trans length_map)
  have inj: "inj_on (word_of_nat :: nat \<Rightarrow> dword) {0..<length (m_symbols m)}"
    using ok assms(2) by (intro inj_onI) (simp add: word_of_nat_eq_iff take_bit_nat_eq_self_iff take_bit_nat_eq_self)
  have "map imp_sym_index (m_imports m)
      = map word_of_nat (filter (\<lambda>i. sym_is_import (m_symbols m ! i)) [0..<length (m_symbols m)])"
    using ok by (simp add: import_of_def comp_def)
  moreover have "distinct \<dots>"
    unfolding distinct_map by (rule conjI) (auto intro: inj_on_subset[OF inj])
  ultimately show "distinct (map imp_sym_index (m_imports m))" by simp
qed

lemma loaded_imports:
  assumes "loaded files can_alloc inps o' out0 out acc imgs sk" and "(\<Sum>inp \<leftarrow> inps. file_bytes files inp) < 2 ^ 32"
  shows "(\<Sum>m \<leftarrow> map snd acc. length (m_imports m)) < 2 ^ 32"
    and "x \<in> set acc \<Longrightarrow> distinct (map imp_sym_index (m_imports (snd x)))"
proof -
  have each: "length (m_imports (snd x)) \<le> file_bytes files (fst x) \<and> distinct (map imp_sym_index (m_imports (snd x)))"
    if "x \<in> set acc" for x
  proof -
    note l = loaded_loads[OF assms(1) that]
    from l(1) obtain b where b: "files (li_path (fst x)) = Inr b" "load (li_path (fst x)) b = Some (Inr (snd x))"
      by (auto simp: load_path_def split: sum.splits)
    have "file_bytes files (fst x) \<le> (\<Sum>inp \<leftarrow> inps. file_bytes files inp)"
      using l(2) by (rule member_sum)
    then have "length b < 2 ^ 32" using assms(2) b(1) by (simp add: file_bytes_def)
    from load_imports[OF b(2) this] b(1) show ?thesis by (simp add: file_bytes_def)
  qed
  then show "x \<in> set acc \<Longrightarrow> distinct (map imp_sym_index (m_imports (snd x)))" by blast
  have "(\<Sum>m \<leftarrow> map snd acc. length (m_imports m)) \<le> (\<Sum>x \<leftarrow> acc. file_bytes files (fst x))"
    using sum_list_le[of acc "\<lambda>x. length (m_imports (snd x))"] each by (simp add: comp_def)
  also have "\<dots> \<le> (\<Sum>inp \<leftarrow> inps. file_bytes files inp)"
    using subseq_sum[of "map fst acc" inps] assms(1) by (simp add: loaded_def comp_def)
  finally show "(\<Sum>m \<leftarrow> map snd acc. length (m_imports m)) < 2 ^ 32" using assms(2) by simp
qed

text \<open>
  C24: when linking succeeds, the export table maps a NID to its first definition in module order,
  and every import of every module is bound in its image to that definition, or, when no module
  exports its NID, to the stub of the one slot that holds the NID.
\<close>

theorem imports_bound_to_first_definition:
  assumes "link_program files can_alloc inputs sb empty_program = Some (out, None)"
    and "(\<Sum>inp \<leftarrow> inputs. file_bytes files inp) < 2 ^ 32"
  shows "p_exports out = map_of (global_exports (p_mods out) (map img_base (p_imgs out)))
    \<and> distinct (map sl_nid (p_slots out)) \<and> length (p_slots out) < 2 ^ 32
    \<and> (\<forall>i < length (p_mods out). \<forall>imp \<in> set (m_imports (p_mods out ! i)).
         \<exists>a. img_import_addr (p_imgs out ! i) (imp_sym_index imp) = Some a
           \<and> (case p_exports out (imp_nid imp) of
                Some b \<Rightarrow> a = b
              | None \<Rightarrow> \<exists>k < length (p_slots out). sl_nid (p_slots out ! k) = imp_nid imp
                         \<and> a = sb + word_of_nat k * 96))"
proof -
  from link_program_success[OF assms(1)] obtain acc imgs sk out1 where
    ld: "loaded files can_alloc inputs Map.empty (empty_program\<lparr>p_stub_base := sb\<rparr>) out1 acc imgs sk"
    and l: "link_loaded out1 = Some out" by blast
  note f = loaded_fresh[OF ld] and imps = loaded_imports[OF ld assms(2)]
  have "case files (li_path inp) of Inl e \<Rightarrow> True | Inr b \<Rightarrow> length b < 2 ^ 63" if "inp \<in> set inputs" for inp
  proof -
    have "file_bytes files inp \<le> (\<Sum>inp \<leftarrow> inputs. file_bytes files inp)"
      using that by (rule member_sum)
    then show ?thesis using assms(2) by (auto simp: file_bytes_def split: sum.splits)
  qed
  then have "\<forall>img \<in> set (p_imgs out1). length (img_mem img) < 2 ^ 64"
    using loaded_images[OF ld] f(3) by blast
  note k = link_loaded_ok[OF f(1) this, unfolded l, simplified]
  have bases: "map img_base (p_imgs out) = map img_base (p_imgs out1)"
    using arg_cong[of _ _ "map fst", OF conjunct1[OF conjunct2[OF conjunct2[OF conjunct2[OF conjunct2[OF conjunct2[OF k]]]]]]]
    by (simp add: image_key_def comp_def)
  have n: "length (p_slots out) < 2 ^ 32"
    using k imps(1) f(2) import_events_length[of "p_mods out1"] by simp
  have "imports_bound out i" if "i < length (p_mods out)" for i
  proof -
    have i: "i < length acc" using that k f(2) by simp
    then have "distinct (map imp_sym_index (m_imports (p_mods out1 ! i)))"
      using imps(2)[OF nth_mem[OF i]] f(2) by simp
    with k i f(2) show ?thesis by simp
  qed
  moreover have "ucast (word_of_nat j :: dword) = (word_of_nat j :: qword)" if "j < length (p_slots out)" for j
    using that n by (simp add: unsigned_of_nat take_bit_nat_eq_self)
  moreover have "p_stub_base out = sb" "p_stub_size out = 96" using k f by simp_all
  ultimately show ?thesis
    using k n bases by (fastforce simp: imports_bound_def target_def split: option.splits)
qed

subsection \<open>A concrete link\<close>

text \<open>The example twice, the second time optional: it is skipped for the export \<open>E\<close>; \<open>I\<close> has no definition.\<close>

definition example_files :: "cstr \<Rightarrow> load_error + byte list" where
  "example_files path = Inr example_elf"

definition example_inputs :: "link_input list" where
  "example_inputs =
     [\<lparr>li_path = [97], li_base = 0x800000000, li_skip_on_export_collision = False, li_only_if_imported = False\<rparr>,
      \<lparr>li_path = [98], li_base = 0x900000000, li_skip_on_export_collision = True, li_only_if_imported = False\<rparr>]"

lemma example_builds: "\<exists>img. build_image (\<lambda>_. True) (example_module path) base = Some (Inr img) \<and> img_base img = base"
proof -
  let ?m = "example_module path"
  have f: "m_segments ?m = [example_load, example_dynamic]" "m_file ?m = example_elf"
    by (simp_all add: example_module_def example_headers_def empty_module_def)
  have w: "window [example_load, example_dynamic] = (0, 0x4000)"
    by (simp add: window_def extent_def example_load_def example_dynamic_def PT_LOAD_def align_dn_def align_up_def Let_def
        unsigned_minus_1_eq_mask mask_eq_exp_minus_1 word_le_nat_alt min_def max_def)
  have c: "\<exists>mem ps. copy_segments example_elf 0 0x4000 0 [example_load, example_dynamic] (replicate 0x4000 0, []) = Some (Inr (mem, ps))"
    by (simp add: copy_segment_def example_load_def example_dynamic_def PT_LOAD_def self_read_ok_def example_length
        read_at_def write_at_def)
  then show ?thesis
    by (auto simp: build_image_def f w kMaxLoadedImageBytes_def Let_def simp del: copy_segments.simps)
qed

lemma example_exports: "module_export_nids (example_module path) = [[69]]"
  by (simp add: module_export_nids_def is_exported_symbol_def example_module_def example_headers_def example_symbols_def)

lemma example_links: "\<exists>out. link_program example_files (\<lambda>_. True) example_inputs 0x700000000 empty_program = Some (out, None)
    \<and> p_mods out = [example_module [97]]"
proof -
  obtain img where img: "build_image (\<lambda>_. True) (example_module [97]) 0x800000000 = Some (Inr img)"
    using example_builds by blast
  have l: "load_path example_files path = Some (Inr (example_module path))" for path
    by (simp add: load_path_def example_files_def example_loads)
  have own: "claim_exports (example_module [97]) [97] Map.empty = [[69] \<mapsto> [97]]"
    by (simp add: claim_exports_eq example_exports)
  have hit: "find_export_collision (example_module path) [[69] \<mapsto> p] = ([69], p)" for path p
    by (simp add: find_export_collision_def is_exported_symbol_def example_module_def example_headers_def example_symbols_def)
  let ?out = "empty_program\<lparr>p_stub_base := 0x700000000, p_mods := [example_module [97]], p_imgs := [img],
      p_skipped := [\<lparr>sk_path = [98], sk_nid = [69], sk_owner = [97]\<rparr>]\<rparr>"
  have li: "load_inputs example_files (\<lambda>_. True) example_inputs Map.empty (empty_program\<lparr>p_stub_base := 0x700000000\<rparr>)
      = Some (?out, None)"
    by (simp add: example_inputs_def l img own hit) (simp add: empty_program_def)
  have "length (m_file (example_module [97])) < 2 ^ 63"
    by (simp add: example_module_def example_headers_def example_length)
  from build_image_limit[OF img this] have "\<forall>img \<in> set (p_imgs ?out). length (img_mem img) < 2 ^ 64" by simp
  moreover have "fresh ?out" by (simp add: fresh_def empty_program_def)
  ultimately obtain out where "link_loaded ?out = Some out" "p_mods out = [example_module [97]]"
    using link_loaded_ok[of ?out] by auto
  then show ?thesis using li by (simp add: link_program_def example_inputs_def)
qed

theorem link_program_returns_witness:
  "link_program example_files (\<lambda>_. True) example_inputs 0x700000000 empty_program \<noteq> None"
  by (rule link_program_returns) (simp add: example_files_def example_length example_ids_fit)

theorem optional_modules_never_alias_witness:
  "\<exists>out. link_program example_files (\<lambda>_. True) example_inputs 0x700000000 empty_program = Some (out, None)
     \<and> p_mods out = [example_module [97]]
     \<and> p_skipped out = [\<lparr>sk_path = [98], sk_nid = [69], sk_owner = [97]\<rparr>]"
proof -
  obtain out where out: "link_program example_files (\<lambda>_. True) example_inputs 0x700000000 empty_program = Some (out, None)"
    "p_mods out = [example_module [97]]" using example_links by blast
  have "\<forall>inp \<in> set example_inputs. case example_files (li_path inp) of Inl e \<Rightarrow> True | Inr b \<Rightarrow> length b < 2 ^ 63"
    by (simp add: example_files_def example_length)
  from optional_modules_never_alias[OF out(1) this] obtain ds where ds: "map fst ds = example_inputs"
    "\<forall>(inp, m, a) \<in> set ds. load_path example_files (li_path inp) = Some (Inr m)" "\<forall>k < length ds. decided ds k"
    "p_skipped out = map (skip_record ds) (filter (\<lambda>k. \<not> accepted (ds ! k)) [0..<length ds])" by blast
  have load: "load_path example_files path = Some (Inr (example_module path))" for path
    by (simp add: load_path_def example_files_def example_loads)
  from ds(1,2) obtain a b where two: "ds = [(example_inputs ! 0, example_module [97], a), (example_inputs ! 1, example_module [98], b)]"
    by (auto simp: example_inputs_def load map_eq_Cons_conv)
  have nids: "defined_nids (example_module path) = [[69]]" for path
    using example_exports[of path] by (simp add: defined_nids_exports)
  have "decided ds 0" "decided ds 1" using ds(3) two by simp_all
  then have "a" "\<not> b"
    by (simp_all add: two decided_def example_inputs_def collisions_def exporter_paths_def nids)
  then have "p_skipped out = [\<lparr>sk_path = [98], sk_nid = [69], sk_owner = [97]\<rparr>]"
    unfolding ds(4) by (simp add: two accepted_def skip_record_def example_inputs_def collisions_def exporter_paths_def nids)
  with out show ?thesis by blast
qed

theorem imports_bound_to_first_definition_witness:
  "\<exists>out k. link_program example_files (\<lambda>_. True) example_inputs 0x700000000 empty_program = Some (out, None)
     \<and> sl_nid (p_slots out ! k) = [73] \<and> img_import_addr (p_imgs out ! 0) 1 = Some (0x700000000 + word_of_nat k * 96)"
proof -
  obtain out where out: "link_program example_files (\<lambda>_. True) example_inputs 0x700000000 empty_program = Some (out, None)"
    "p_mods out = [example_module [97]]" using example_links by blast
  have "(\<Sum>inp \<leftarrow> example_inputs. file_bytes example_files inp) < 2 ^ 32"
    by (simp add: example_inputs_def file_bytes_def example_files_def example_length)
  note t = imports_bound_to_first_definition[OF out(1) this]
  let ?imp = "\<lparr>imp_nid = [73], imp_lib_name = [108, 105, 98, 35, 48], imp_sym_index = 1\<rparr>"
  have "?imp \<in> set (m_imports (p_mods out ! 0))" "0 < length (p_mods out)"
    by (simp_all add: out(2) example_module_def)
  with t obtain a where a: "img_import_addr (p_imgs out ! 0) (imp_sym_index ?imp) = Some a"
    "case p_exports out (imp_nid ?imp) of Some b \<Rightarrow> a = b
      | None \<Rightarrow> \<exists>k < length (p_slots out). sl_nid (p_slots out ! k) = imp_nid ?imp \<and> a = 0x700000000 + word_of_nat k * 96"
    by blast
  have "exports_of (example_module [97]) b = [([69], b + 16)]" for b
    by (simp add: exports_of_def is_exported_symbol_def example_module_def example_headers_def example_symbols_def)
  then have "map_of (global_exports [example_module [97]] bs) [73] = None" for bs
    by (cases bs) (simp_all add: global_exports_def)
  then have "p_exports out [73] = None" using t out(2) by simp
  with a out(1) show ?thesis by auto
qed

end
