(* ===== verification/Pm4Decode.thy ===== *)
theory Pm4Decode
  imports Prelude
begin

text \<open>
  The decoder of command buffers (\<open>gpu/pm4/pm4_decode.cpp\<close>): a stream of PM4 type-3 packets
  becomes a list of commands. Pointers into the stream are dword indices; a read outside the
  buffer is \<^term>\<open>None\<close>. The two reporters of unknown packets are not modelled.
\<close>

subsection \<open>Opcodes\<close>

definition IT_NOP :: dword where "IT_NOP = 0x10"
definition IT_INDEX_TYPE :: dword where "IT_INDEX_TYPE = 0x2a"
definition IT_NUM_INSTANCES :: dword where "IT_NUM_INSTANCES = 0x2f"
definition IT_EVENT_WRITE :: dword where "IT_EVENT_WRITE = 0x46"
definition IT_SET_CONTEXT_REG :: dword where "IT_SET_CONTEXT_REG = 0x69"
definition IT_SET_SH_REG :: dword where "IT_SET_SH_REG = 0x76"
definition IT_SET_UCONFIG_REG :: dword where "IT_SET_UCONFIG_REG = 0x79"

definition R_DRAW_INDEX :: dword where "R_DRAW_INDEX = 0x3"
definition R_DRAW_INDEX_AUTO :: dword where "R_DRAW_INDEX_AUTO = 0x4"
definition R_DRAW_RESET :: dword where "R_DRAW_RESET = 0x5"
definition R_WAIT_FLIP_DONE :: dword where "R_WAIT_FLIP_DONE = 0x6"
definition R_PUSH_MARKER :: dword where "R_PUSH_MARKER = 0xb"
definition R_POP_MARKER :: dword where "R_POP_MARKER = 0xc"
definition R_SH_REGS_INDIRECT :: dword where "R_SH_REGS_INDIRECT = 0x11"
definition R_CX_REGS_INDIRECT :: dword where "R_CX_REGS_INDIRECT = 0x12"
definition R_UC_REGS_INDIRECT :: dword where "R_UC_REGS_INDIRECT = 0x13"
definition R_ACQUIRE_MEM :: dword where "R_ACQUIRE_MEM = 0x14"
definition R_WRITE_DATA :: dword where "R_WRITE_DATA = 0x15"
definition R_WAIT_MEM_64 :: dword where "R_WAIT_MEM_64 = 0x16"
definition R_FLIP :: dword where "R_FLIP = 0x17"
definition R_RELEASE_MEM :: dword where "R_RELEASE_MEM = 0x18"
definition R_DMA_DATA :: dword where "R_DMA_DATA = 0x19"
definition R_DISPATCH_DIRECT :: dword where "R_DISPATCH_DIRECT = 0x1a"
definition R_INDEX_BASE :: dword where "R_INDEX_BASE = 0x1b"
definition R_INDEX_COUNT :: dword where "R_INDEX_COUNT = 0x1c"
definition R_DRAW_INDEX_OFFSET :: dword where "R_DRAW_INDEX_OFFSET = 0x1d"
definition R_JUMP :: dword where "R_JUMP = 0x1e"
definition R_SET_PRED :: dword where "R_SET_PRED = 0x1f"
definition R_SET_BASE_INDIRECT_ARGS :: dword where "R_SET_BASE_INDIRECT_ARGS = 0x20"
definition R_STALL_COMMAND_BUFFER_PARSER :: dword where "R_STALL_COMMAND_BUFFER_PARSER = 0x21"
definition R_DRAW_INDEX_INDIRECT :: dword where "R_DRAW_INDEX_INDIRECT = 0x22"
definition R_DISPATCH_INDIRECT :: dword where "R_DISPATCH_INDIRECT = 0x23"
definition R_DISPATCH_INDIRECT_ADDR :: dword where "R_DISPATCH_INDIRECT_ADDR = 0x24"

lemmas it_opcodes =
  IT_NOP_def IT_INDEX_TYPE_def IT_NUM_INSTANCES_def IT_EVENT_WRITE_def IT_SET_CONTEXT_REG_def IT_SET_SH_REG_def IT_SET_UCONFIG_REG_def

lemmas r_opcodes =
  R_DRAW_INDEX_def R_DRAW_INDEX_AUTO_def R_DRAW_RESET_def R_WAIT_FLIP_DONE_def R_PUSH_MARKER_def
  R_POP_MARKER_def R_SH_REGS_INDIRECT_def R_CX_REGS_INDIRECT_def R_UC_REGS_INDIRECT_def
  R_ACQUIRE_MEM_def R_WRITE_DATA_def R_WAIT_MEM_64_def R_FLIP_def R_RELEASE_MEM_def R_DMA_DATA_def
  R_DISPATCH_DIRECT_def R_INDEX_BASE_def R_INDEX_COUNT_def R_DRAW_INDEX_OFFSET_def R_JUMP_def
  R_SET_PRED_def R_SET_BASE_INDIRECT_ARGS_def R_STALL_COMMAND_BUFFER_PARSER_def
  R_DRAW_INDEX_INDIRECT_def R_DISPATCH_INDIRECT_def R_DISPATCH_INDIRECT_ADDR_def

definition R_NUM :: dword where "R_NUM = 0x40"
definition kDmaDataAddressSource :: dword where "kDmaDataAddressSource = push_bit 16 1"

subsection \<open>Commands\<close>

datatype reg_class = Cx | Sh | Uc

datatype pm4_kind =
    DrawReset | WaitFlipDone | PushMarker | PopMarker | SetRegDirect | SetRegsIndirect | SetIndexType
  | SetNumInstances
  | DrawIndex | DrawIndexAuto | EventWrite | AcquireMem | WriteData | WaitRegMem | Flip | ReleaseMem
  | DispatchDirect | SetIndexBase | SetIndexCount | DrawIndexOffset | Jump | SetPredication
  | SetBaseIndirectArgs | StallCommandBufferParser | DrawIndexIndirect | DispatchIndirect
  | DmaData | Unknown

text \<open>A label is null, the empty literal, or text in the packet.\<close>

datatype marker = NullLabel | EmptyLabel | LabelAt nat

record pm4_command =
  kind :: pm4_kind
  stream_order :: qword
  queue_origin :: byte
  header :: dword
  op :: dword
  sub_op :: dword
  len :: dword
  payload :: "nat option"
  marker_label :: marker
  reg_class :: reg_class
  num_regs :: dword
  regs_vaddr :: qword
  index_count :: dword
  index_size :: dword
  instance_count :: dword
  threads_x :: dword
  threads_y :: dword
  threads_z :: dword
  dispatch_modifier :: qword
  indirect_shader_type :: dword
  indirect_base :: qword
  indirect_offset :: dword
  indirect_address :: qword
  indirect_address_absolute :: bool
  di_index_addr :: qword
  di_modifier :: qword
  di_valid :: bool
  ib_addr :: qword
  index_offset :: dword
  event_type :: dword
  event_addr :: qword
  reg_offset :: dword
  reg_value :: dword
  reg_count :: dword
  reg_data :: "nat option"
  rel_addr :: qword
  rel_data_sel :: dword
  rel_value :: qword
  rel_value_valid :: bool
  rel_build_pre :: qword
  rel_build_pre_valid :: bool
  wm_addr :: qword
  wm_mask :: qword
  wm_ref :: qword
  wm_func :: dword
  wm_valid :: bool
  wd_addr :: qword
  wd_declared_num :: dword
  wd_num :: dword
  wd_data :: "nat option"
  wd_valid :: bool
  jump_addr :: qword
  jump_dwords :: dword
  jump_pred :: dword
  jump_valid :: bool
  pred_addr :: qword
  pred_op :: dword
  pred_valid :: bool
  dd_dst :: qword
  dd_src :: qword
  dd_bytes :: dword
  dd_sels :: dword
  dd_valid :: bool
  dd_build_pre :: qword
  dd_build_pre_valid :: bool
  flip_handle :: dword
  flip_bufidx :: int
  flip_mode :: dword
  flip_arg :: int
  flip_valid :: bool

definition new_command :: pm4_command where
  "new_command =
     \<lparr>kind = Unknown, stream_order = 0, queue_origin = 0, header = 0, op = 0, sub_op = 0, len = 0,
      payload = None, marker_label = NullLabel, reg_class = Cx, num_regs = 0, regs_vaddr = 0,
      index_count = 0, index_size = 0, instance_count = 1, threads_x = 0, threads_y = 0,
      threads_z = 0, dispatch_modifier = 0, indirect_shader_type = 0, indirect_base = 0,
      indirect_offset = 0, indirect_address = 0, indirect_address_absolute = False,
      di_index_addr = 0, di_modifier = 0, di_valid = False, ib_addr = 0, index_offset = 0,
      event_type = 0, event_addr = 0, reg_offset = 0, reg_value = 0, reg_count = 0, reg_data = None,
      rel_addr = 0, rel_data_sel = 0, rel_value = 0, rel_value_valid = False, rel_build_pre = 0,
      rel_build_pre_valid = False, wm_addr = 0, wm_mask = 0, wm_ref = 0, wm_func = 0,
      wm_valid = False, wd_addr = 0, wd_declared_num = 0, wd_num = 0, wd_data = None,
      wd_valid = False, jump_addr = 0, jump_dwords = 0, jump_pred = 0, jump_valid = False,
      pred_addr = 0, pred_op = 0, pred_valid = False, dd_dst = 0, dd_src = 0, dd_bytes = 0,
      dd_sels = 0, dd_valid = False, dd_build_pre = 0, dd_build_pre_valid = False, flip_handle = 0,
      flip_bufidx = - 1, flip_mode = 0, flip_arg = 0, flip_valid = False\<rparr>"

subsection \<open>Headers\<close>

definition is_type3 :: "dword \<Rightarrow> bool" where
  "is_type3 h \<longleftrightarrow> h AND 0xC0000000 = 0xC0000000"

definition hdr_len :: "dword \<Rightarrow> dword" where
  "hdr_len h = (drop_bit 16 h AND 0x3fff) + 2"

definition hdr_op :: "dword \<Rightarrow> dword" where
  "hdr_op h = drop_bit 8 h AND 0xff"

definition hdr_r :: "dword \<Rightarrow> dword" where
  "hdr_r h = drop_bit 2 h AND 0x3f"

subsection \<open>Payloads\<close>

definition dw :: "dword list \<Rightarrow> nat \<Rightarrow> dword option" where
  "dw buf k = (if k < length buf then Some (buf ! k) else None)"

definition lo_hi :: "dword list \<Rightarrow> nat \<Rightarrow> qword option" where
  "lo_hi buf k = do { lo \<leftarrow> dw buf k; hi \<leftarrow> dw buf (k + 1); Some (ucast lo OR push_bit 32 (ucast hi)) }"

text \<open>\<open>if (b) c = f(c);\<close>\<close>

definition on :: "bool \<Rightarrow> ('c \<Rightarrow> 'c option) \<Rightarrow> 'c \<Rightarrow> 'c option" where
  "on b f c = (if b then f c else Some c)"

text \<open>Register ranges: the start offset, then the values.\<close>

definition decode_set_reg :: "dword list \<Rightarrow> nat \<Rightarrow> nat \<Rightarrow> pm4_command \<Rightarrow> pm4_command option" where
  "decode_set_reg buf p npl c =
     on (npl \<ge> 2) (\<lambda>c. do { a \<leftarrow> dw buf p; v \<leftarrow> dw buf (p + 1);
         Some (c\<lparr>reg_offset := a, reg_value := v, reg_count := word_of_nat (npl - 1), reg_data := Some (p + 1)\<rparr>) })
       (c\<lparr>kind := SetRegDirect,
          reg_class := (if op c = IT_SET_CONTEXT_REG then Cx else if op c = IT_SET_SH_REG then Sh else Uc)\<rparr>)"

definition decode_write_data :: "dword list \<Rightarrow> nat \<Rightarrow> nat \<Rightarrow> pm4_command \<Rightarrow> pm4_command option" where
  "decode_write_data buf p npl c =
     do { c \<leftarrow> on (npl \<ge> 3) (\<lambda>c. do { a \<leftarrow> lo_hi buf (p + 1); Some (c\<lparr>wd_addr := a\<rparr>) }) (c\<lparr>kind := WriteData\<rparr>);
          on (npl \<ge> 4) (\<lambda>c. do { declared \<leftarrow> dw buf (p + 3);
            let avail = word_of_nat (if npl > 4 then npl - 4 else 0);
            let num = min declared avail;
            Some (c\<lparr>wd_declared_num := declared, wd_num := num,
                    wd_data := (if num > 0 then Some (p + 4) else None), wd_valid := (declared \<le> avail)\<rparr>) }) c }"

definition decode_release_mem :: "dword list \<Rightarrow> nat \<Rightarrow> nat \<Rightarrow> pm4_command \<Rightarrow> pm4_command option" where
  "decode_release_mem buf p npl c =
     do { c \<leftarrow> on (npl \<ge> 2) (\<lambda>c. do { a \<leftarrow> lo_hi buf p; Some (c\<lparr>rel_addr := a\<rparr>) }) (c\<lparr>kind := ReleaseMem\<rparr>);
          c \<leftarrow> on (npl \<ge> 3) (\<lambda>c. do { s \<leftarrow> dw buf (p + 2); Some (c\<lparr>rel_data_sel := s\<rparr>) }) c;
          c \<leftarrow> on (npl \<ge> 5) (\<lambda>c. do { v \<leftarrow> lo_hi buf (p + 3);
                                    Some (c\<lparr>rel_value := v, rel_value_valid := True\<rparr>) }) c;
          if npl \<ge> 8
          then do { v \<leftarrow> lo_hi buf (p + 6); Some (c\<lparr>rel_build_pre := v, rel_build_pre_valid := True\<rparr>) }
          else on (npl \<ge> 7) (\<lambda>c. do { v \<leftarrow> dw buf (p + 6);
                 Some (c\<lparr>rel_build_pre := push_bit 32 (ucast v), rel_build_pre_valid := True\<rparr>) }) c }"

definition decode_wait_reg_mem :: "dword list \<Rightarrow> nat \<Rightarrow> nat \<Rightarrow> pm4_command \<Rightarrow> pm4_command option" where
  "decode_wait_reg_mem buf p npl c =
     on (npl \<ge> 7) (\<lambda>c. do { a \<leftarrow> lo_hi buf p; m \<leftarrow> lo_hi buf (p + 2); r \<leftarrow> lo_hi buf (p + 4); f \<leftarrow> dw buf (p + 6);
         Some (c\<lparr>wm_addr := a, wm_mask := m, wm_ref := r, wm_func := f, wm_valid := True\<rparr>) })
       (c\<lparr>kind := WaitRegMem\<rparr>)"

definition decode_flip :: "dword list \<Rightarrow> nat \<Rightarrow> nat \<Rightarrow> pm4_command \<Rightarrow> pm4_command option" where
  "decode_flip buf p npl c =
     on (npl \<ge> 5) (\<lambda>c. do { h \<leftarrow> dw buf p; b \<leftarrow> dw buf (p + 1); m \<leftarrow> dw buf (p + 2); a \<leftarrow> lo_hi buf (p + 3);
         Some (c\<lparr>flip_handle := h, flip_bufidx := sint b, flip_mode := m, flip_arg := sint a, flip_valid := True\<rparr>) })
       (c\<lparr>kind := Flip\<rparr>)"

definition decode_draw_index :: "dword list \<Rightarrow> nat \<Rightarrow> nat \<Rightarrow> pm4_command \<Rightarrow> pm4_command option" where
  "decode_draw_index buf p npl c =
     do { c \<leftarrow> on (npl \<ge> 1) (\<lambda>c. do { n \<leftarrow> dw buf p; Some (c\<lparr>index_count := n\<rparr>) }) (c\<lparr>kind := DrawIndex\<rparr>);
          c \<leftarrow> on (npl \<ge> 3) (\<lambda>c. do { a \<leftarrow> lo_hi buf (p + 1); Some (c\<lparr>di_index_addr := a\<rparr>) }) c;
          on (npl \<ge> 5) (\<lambda>c. do { m \<leftarrow> lo_hi buf (p + 3); Some (c\<lparr>di_modifier := m, di_valid := True\<rparr>) }) c }"

definition decode_dispatch_direct :: "dword list \<Rightarrow> nat \<Rightarrow> nat \<Rightarrow> pm4_command \<Rightarrow> pm4_command option" where
  "decode_dispatch_direct buf p npl c =
     do { c \<leftarrow> on (npl \<ge> 3) (\<lambda>c. do { x \<leftarrow> dw buf p; y \<leftarrow> dw buf (p + 1); z \<leftarrow> dw buf (p + 2);
                 Some (c\<lparr>threads_x := x, threads_y := y, threads_z := z\<rparr>) }) (c\<lparr>kind := DispatchDirect\<rparr>);
          on (npl \<ge> 5) (\<lambda>c. do { m \<leftarrow> lo_hi buf (p + 3); Some (c\<lparr>dispatch_modifier := m\<rparr>) }) c }"

definition decode_dma_data :: "dword list \<Rightarrow> nat \<Rightarrow> nat \<Rightarrow> pm4_command \<Rightarrow> pm4_command option" where
  "decode_dma_data buf p npl c =
     do { c \<leftarrow> on (npl \<ge> 6) (\<lambda>c. do { d \<leftarrow> lo_hi buf p; s \<leftarrow> lo_hi buf (p + 2); n \<leftarrow> dw buf (p + 4); sel \<leftarrow> dw buf (p + 5);
                 Some (c\<lparr>dd_dst := d, dd_src := s, dd_bytes := n, dd_sels := sel, dd_valid := True\<rparr>) })
               (c\<lparr>kind := DmaData\<rparr>);
          on (npl \<ge> 8) (\<lambda>c. do { v \<leftarrow> lo_hi buf (p + 6);
                             Some (c\<lparr>dd_build_pre := v, dd_build_pre_valid := True\<rparr>) }) c }"

definition decode_jump :: "dword list \<Rightarrow> nat \<Rightarrow> nat \<Rightarrow> pm4_command \<Rightarrow> pm4_command option" where
  "decode_jump buf p npl c =
     on (npl \<ge> 4) (\<lambda>c. do { a \<leftarrow> lo_hi buf p; n \<leftarrow> dw buf (p + 2); q \<leftarrow> dw buf (p + 3);
         Some (c\<lparr>jump_addr := a, jump_dwords := n, jump_pred := q, jump_valid := True\<rparr>) })
       (c\<lparr>kind := Jump\<rparr>)"

definition decode_set_pred :: "dword list \<Rightarrow> nat \<Rightarrow> nat \<Rightarrow> pm4_command \<Rightarrow> pm4_command option" where
  "decode_set_pred buf p npl c =
     on (npl \<ge> 3) (\<lambda>c. do { a \<leftarrow> lo_hi buf p; q \<leftarrow> dw buf (p + 2);
         Some (c\<lparr>pred_addr := a, pred_op := q, pred_valid := True\<rparr>) })
       (c\<lparr>kind := SetPredication\<rparr>)"

definition decode_regs_indirect :: "dword list \<Rightarrow> nat \<Rightarrow> nat \<Rightarrow> pm4_command \<Rightarrow> pm4_command option" where
  "decode_regs_indirect buf p npl c =
     do { c \<leftarrow> on (npl \<ge> 1) (\<lambda>c. do { n \<leftarrow> dw buf p; Some (c\<lparr>num_regs := n\<rparr>) })
            (c\<lparr>kind := SetRegsIndirect,
               reg_class := (if sub_op c = R_CX_REGS_INDIRECT then Cx
                             else if sub_op c = R_SH_REGS_INDIRECT then Sh else Uc)\<rparr>);
          on (npl \<ge> 3) (\<lambda>c. do { a \<leftarrow> lo_hi buf (p + 1); Some (c\<lparr>regs_vaddr := a\<rparr>) }) c }"

text \<open>A dword and, in longer packets, a 64-bit modifier.\<close>

definition decode_indirect_work ::
    "(pm4_command \<Rightarrow> dword \<Rightarrow> pm4_command) \<Rightarrow> (pm4_command \<Rightarrow> qword \<Rightarrow> pm4_command)
     \<Rightarrow> dword list \<Rightarrow> nat \<Rightarrow> nat \<Rightarrow> pm4_command \<Rightarrow> pm4_command option" where
  "decode_indirect_work set_first set_modifier buf p npl c =
     do { c \<leftarrow> on (npl \<ge> 1) (\<lambda>c. do { n \<leftarrow> dw buf p; Some (set_first c n) }) c;
          on (npl \<ge> 3) (\<lambda>c. do { m \<leftarrow> lo_hi buf (p + 1); Some (set_modifier c m) }) c }"

definition decode_dispatch_addr :: "dword list \<Rightarrow> nat \<Rightarrow> nat \<Rightarrow> pm4_command \<Rightarrow> pm4_command option" where
  "decode_dispatch_addr buf p npl c =
     do { c \<leftarrow> on (npl \<ge> 2) (\<lambda>c. do { a \<leftarrow> lo_hi buf p;
                 Some (c\<lparr>indirect_address := a, indirect_address_absolute := True\<rparr>) }) (c\<lparr>kind := DispatchIndirect\<rparr>);
          on (npl \<ge> 4) (\<lambda>c. do { m \<leftarrow> lo_hi buf (p + 2); Some (c\<lparr>dispatch_modifier := m\<rparr>) }) c }"

subsection \<open>Packets\<close>

text \<open>The sub-operation of an \<open>IT_NOP\<close> packet; \<open>p\<close> is the payload's index, \<open>npl\<close> its length.\<close>

definition decode_nop :: "dword list \<Rightarrow> nat \<Rightarrow> nat \<Rightarrow> pm4_command \<Rightarrow> pm4_command option" where
  "decode_nop buf p npl c =
     (let r = sub_op c in
      if r = R_DRAW_RESET then Some (c\<lparr>kind := DrawReset\<rparr>)
      else if r = R_WAIT_FLIP_DONE then Some (c\<lparr>kind := WaitFlipDone\<rparr>)
      else if r = R_PUSH_MARKER
      then Some (c\<lparr>kind := PushMarker, marker_label := (if npl \<noteq> 0 then LabelAt p else EmptyLabel)\<rparr>)
      else if r = R_POP_MARKER then Some (c\<lparr>kind := PopMarker\<rparr>)
      else if r = R_ACQUIRE_MEM then Some (c\<lparr>kind := AcquireMem\<rparr>)
      else if r = R_WRITE_DATA then decode_write_data buf p npl c
      else if r = R_WAIT_MEM_64 then decode_wait_reg_mem buf p npl c
      else if r = R_RELEASE_MEM then decode_release_mem buf p npl c
      else if r = R_FLIP then decode_flip buf p npl c
      else if r = R_DRAW_INDEX then decode_draw_index buf p npl c
      else if r = R_DRAW_INDEX_AUTO
      then decode_indirect_work (\<lambda>c n. c\<lparr>index_count := n\<rparr>) (\<lambda>c m. c\<lparr>di_modifier := m\<rparr>) buf p npl
             (c\<lparr>kind := DrawIndexAuto\<rparr>)
      else if r = R_DISPATCH_DIRECT then decode_dispatch_direct buf p npl c
      else if r = R_SET_BASE_INDIRECT_ARGS
      then on (npl \<ge> 3) (\<lambda>c. do { t \<leftarrow> dw buf p; b \<leftarrow> lo_hi buf (p + 1);
             Some (c\<lparr>indirect_shader_type := t, indirect_base := b\<rparr>) }) (c\<lparr>kind := SetBaseIndirectArgs\<rparr>)
      else if r = R_STALL_COMMAND_BUFFER_PARSER then Some (c\<lparr>kind := StallCommandBufferParser\<rparr>)
      else if r = R_DRAW_INDEX_INDIRECT
      then decode_indirect_work (\<lambda>c n. c\<lparr>indirect_offset := n\<rparr>) (\<lambda>c m. c\<lparr>di_modifier := m\<rparr>) buf p npl
             (c\<lparr>kind := DrawIndexIndirect\<rparr>)
      else if r = R_DISPATCH_INDIRECT
      then decode_indirect_work (\<lambda>c n. c\<lparr>indirect_offset := n\<rparr>) (\<lambda>c m. c\<lparr>dispatch_modifier := m\<rparr>) buf p npl
             (c\<lparr>kind := DispatchIndirect\<rparr>)
      else if r = R_DISPATCH_INDIRECT_ADDR then decode_dispatch_addr buf p npl c
      else if r = R_INDEX_BASE
      then on (npl \<ge> 2) (\<lambda>c. do { a \<leftarrow> lo_hi buf p; Some (c\<lparr>ib_addr := a\<rparr>) }) (c\<lparr>kind := SetIndexBase\<rparr>)
      else if r = R_INDEX_COUNT
      then on (npl \<ge> 1) (\<lambda>c. do { n \<leftarrow> dw buf p; Some (c\<lparr>index_count := n\<rparr>) }) (c\<lparr>kind := SetIndexCount\<rparr>)
      else if r = R_DRAW_INDEX_OFFSET
      then do { c \<leftarrow> on (npl \<ge> 1) (\<lambda>c. do { n \<leftarrow> dw buf p; Some (c\<lparr>index_offset := n\<rparr>) })
                        (c\<lparr>kind := DrawIndexOffset\<rparr>);
                on (npl \<ge> 2) (\<lambda>c. do { n \<leftarrow> dw buf (p + 1); Some (c\<lparr>index_count := n\<rparr>) }) c }
      else if r = R_JUMP then decode_jump buf p npl c
      else if r = R_DMA_DATA then decode_dma_data buf p npl c
      else if r = R_SET_PRED then decode_set_pred buf p npl c
      else if r = R_CX_REGS_INDIRECT \<or> r = R_SH_REGS_INDIRECT \<or> r = R_UC_REGS_INDIRECT
      then decode_regs_indirect buf p npl c
      else Some (c\<lparr>kind := Unknown\<rparr>))"

definition decode_op :: "dword list \<Rightarrow> nat \<Rightarrow> nat \<Rightarrow> pm4_command \<Rightarrow> pm4_command option" where
  "decode_op buf p npl c =
     (if op c = IT_INDEX_TYPE
      then on (npl \<ge> 1) (\<lambda>c. do { n \<leftarrow> dw buf p; Some (c\<lparr>index_size := n\<rparr>) }) (c\<lparr>kind := SetIndexType\<rparr>)
      else if op c = IT_NUM_INSTANCES
      then on (npl \<ge> 1) (\<lambda>c. do { n \<leftarrow> dw buf p; Some (c\<lparr>instance_count := n\<rparr>) }) (c\<lparr>kind := SetNumInstances\<rparr>)
      else if op c = IT_EVENT_WRITE
      then do { c \<leftarrow> on (npl \<ge> 1) (\<lambda>c. do { e \<leftarrow> dw buf p; Some (c\<lparr>event_type := e AND 0xff\<rparr>) })
                        (c\<lparr>kind := EventWrite\<rparr>);
                on (npl \<ge> 3) (\<lambda>c. do { a \<leftarrow> lo_hi buf (p + 1); Some (c\<lparr>event_addr := a\<rparr>) }) c }
      else if op c = IT_SET_CONTEXT_REG \<or> op c = IT_SET_SH_REG \<or> op c = IT_SET_UCONFIG_REG
      then decode_set_reg buf p npl c
      else if op c = IT_NOP then decode_nop buf p npl c
      else Some (c\<lparr>kind := Unknown\<rparr>))"

text \<open>The packet whose header \<open>h\<close> is at \<open>i\<close>.\<close>

definition decode_packet :: "dword list \<Rightarrow> nat \<Rightarrow> dword \<Rightarrow> pm4_command option" where
  "decode_packet buf i h =
     (let l = hdr_len h
      in decode_op buf (i + 1) (unat l - 1)
           (new_command\<lparr>header := h, op := hdr_op h, sub_op := hdr_r h, len := l,
                        payload := (if l > 1 then Some (i + 1) else None)\<rparr>))"

text \<open>The walk from dword \<open>i\<close>: the commands and the number of dwords consumed.\<close>

function decode_from :: "dword list \<Rightarrow> nat \<Rightarrow> nat \<Rightarrow> (pm4_command list \<times> nat) option" where
  "decode_from buf dwords i =
     (if i < dwords
      then do {
        h \<leftarrow> dw buf i;
        if \<not> is_type3 h
        then if h AND 0xC0000000 = 0x80000000 then decode_from buf dwords (i + 1) else Some ([], i)
        else let l = unat (hdr_len h)
             in if l = 0 \<or> i + l > dwords then Some ([], i)
                else do { c \<leftarrow> decode_packet buf i h;
                          (cs, n) \<leftarrow> decode_from buf dwords (i + l);
                          Some (c # cs, n) } }
      else Some ([], i))"
  by pat_completeness auto
termination
  by (relation "measure (\<lambda>(buf, dwords, i). dwords - i)") auto

declare decode_from.simps [simp del]

definition decode_pm4 :: "dword list \<Rightarrow> nat \<Rightarrow> pm4_command list \<Rightarrow> (pm4_command list \<times> nat) option" where
  "decode_pm4 buf dwords out = map_option (\<lambda>(cs, n). (out @ cs, n)) (decode_from buf dwords 0)"

end
