(* ===== verification/Pm4Build.thy ===== *)
theory Pm4Build
  imports Pm4Decode
begin

text \<open>
  The builders that append packets to a guest's draw command buffer (\<open>hle/graphics/hle_agc.cpp\<close>).
  The buffer is the guest's: a ring of dwords from \<open>bottom\<close> with a write cursor, a reserve limit
  and a callback for a full buffer, a parameter. Cursors are dword indices. A store outside the
  ring is \<^term>\<open>None\<close>; a builder's result is the buffer and the index of its packet, if it built
  one. Logging, label histories and the register of rings are not modelled, null buffers neither.
\<close>

subsection \<open>Sizes\<close>

definition kDwDrawIndex :: nat where "kDwDrawIndex = 7"
definition kDwDrawIndexAuto :: nat where "kDwDrawIndexAuto = 7"
definition kDwDrawIndexOffset :: nat where "kDwDrawIndexOffset = 3"
definition kDwDrawIndexIndirect :: nat where "kDwDrawIndexIndirect = 4"
definition kDwDispatch :: nat where "kDwDispatch = 6"
definition kDwDispatchIndirect :: nat where "kDwDispatchIndirect = 4"
definition kDwAcbDispatchIndirect :: nat where "kDwAcbDispatchIndirect = 5"
definition kDwDmaData :: nat where "kDwDmaData = 7"
definition kDwEventWrite :: nat where "kDwEventWrite = 4"
definition kDwSetIndexBuffer :: nat where "kDwSetIndexBuffer = 3"
definition kDwSetIndexCount :: nat where "kDwSetIndexCount = 2"
definition kDwSetIndexSize :: nat where "kDwSetIndexSize = 2"
definition kDwSetNumInstances :: nat where "kDwSetNumInstances = 2"
definition kDwStallCbParser :: nat where "kDwStallCbParser = 2"
definition kDwSetRegisterDirect :: nat where "kDwSetRegisterDirect = 3"
definition kDwSetRegsIndirect :: nat where "kDwSetRegsIndirect = 4"
definition kDwAcquireMem :: nat where "kDwAcquireMem = 8"
definition kDwReleaseMem :: nat where "kDwReleaseMem = 8"
definition kDwJump :: nat where "kDwJump = 5"

lemmas packet_sizes = kDwDrawIndex_def kDwDrawIndexAuto_def kDwDrawIndexOffset_def kDwDrawIndexIndirect_def
  kDwDispatch_def kDwDispatchIndirect_def kDwAcbDispatchIndirect_def kDwDmaData_def kDwEventWrite_def
  kDwSetIndexBuffer_def kDwSetIndexCount_def kDwSetIndexSize_def kDwSetNumInstances_def kDwStallCbParser_def
  kDwSetRegisterDirect_def kDwSetRegsIndirect_def kDwAcquireMem_def kDwReleaseMem_def kDwJump_def

definition PM4 :: "dword \<Rightarrow> dword \<Rightarrow> dword \<Rightarrow> dword" where
  "PM4 n opc r = 0xC0000000 OR push_bit 16 ((n - 2) AND 0x3fff) OR push_bit 8 (opc AND 0xff)
     OR push_bit 2 (r AND (R_NUM - 1))"

subsection \<open>The buffer\<close>

record dcb =
  dcb_mem :: "dword list"
  cursor_up :: nat
  cursor_down :: nat
  reserved_dw :: nat

type_synonym full_callback = "dcb \<Rightarrow> nat \<Rightarrow> bool \<times> dcb"

definition available_dw :: "dcb \<Rightarrow> nat" where
  "available_dw d =
     (let avail = u32_sub (cursor_down d) (cursor_up d)
      in if avail > reserved_dw d then avail - reserved_dw d else 0)"

definition allocate_dw :: "full_callback option \<Rightarrow> nat \<Rightarrow> dcb \<Rightarrow> dcb \<times> nat option" where
  "allocate_dw full n d =
     (let take_dw = (\<lambda>d. (d\<lparr>cursor_up := cursor_up d + n\<rparr>, Some (cursor_up d)))
      in if n = 0 then (d, None)
         else if n > available_dw d
         then case full of
                None \<Rightarrow> (d, None)
              | Some f \<Rightarrow> (let (ok, d) = f d (u32 (n + reserved_dw d))
                          in if \<not> ok \<or> available_dw d < n then (d, None) else take_dw d)
         else take_dw d)"

type_synonym built = "(dcb \<times> nat option) option"

definition begin_packet :: "full_callback option \<Rightarrow> dcb \<Rightarrow> nat \<Rightarrow> dword \<Rightarrow> dword \<Rightarrow> built" where
  "begin_packet full d n opc r =
     (if n < 2 \<or> n > 0x4001 then Some (d, None)
      else let (d, cmd) = allocate_dw full n d
           in case cmd of
                None \<Rightarrow> Some (d, None)
              | Some c \<Rightarrow> do { mem \<leftarrow> write_at (dcb_mem d) c [PM4 (word_of_nat n) opc r];
                              Some (d\<lparr>dcb_mem := mem\<rparr>, Some c) })"

text \<open>
  The stores \<open>cmd[1] = \<dots>\<close> of a builder after \<open>begin_packet\<close>. The words are an option where they come
  from an array that may be too short.
\<close>

definition packet_from :: "full_callback option \<Rightarrow> dcb \<Rightarrow> nat \<Rightarrow> dword \<Rightarrow> dword \<Rightarrow> dword list option \<Rightarrow> built" where
  "packet_from full d n opc r words =
     do { (d, cmd) \<leftarrow> begin_packet full d n opc r;
          case cmd of
            None \<Rightarrow> Some (d, None)
          | Some c \<Rightarrow> do { body \<leftarrow> words; mem \<leftarrow> write_at (dcb_mem d) (c + 1) body;
                          Some (d\<lparr>dcb_mem := mem\<rparr>, Some c) } }"

abbreviation packet :: "full_callback option \<Rightarrow> dcb \<Rightarrow> nat \<Rightarrow> dword \<Rightarrow> dword \<Rightarrow> dword list \<Rightarrow> built" where
  "packet full d n opc r body \<equiv> packet_from full d n opc r (Some body)"

abbreviation lo32 :: "qword \<Rightarrow> dword" where
  "lo32 a \<equiv> ucast a"

abbreviation hi32 :: "qword \<Rightarrow> dword" where
  "hi32 a \<equiv> ucast (drop_bit 32 a)"

subsection \<open>Queue, markers and padding\<close>

definition agc_dcb_reset_queue :: "full_callback option \<Rightarrow> dcb \<Rightarrow> built" where
  "agc_dcb_reset_queue full d = packet full d 2 IT_NOP R_DRAW_RESET [0]"

text \<open>Bytes as little-endian dwords, the last one padded with zeros.\<close>

function pack_dwords :: "byte list \<Rightarrow> dword list" where
  "pack_dwords bs = (if bs = [] then [] else word_of_nat (le_nat (take 4 bs)) # pack_dwords (drop 4 bs))"
  by pat_completeness auto
termination
  by (relation "measure length") auto

declare pack_dwords.simps [simp del]

text \<open>The marker is a C string without its terminator, \<^term>\<open>None\<close> a null pointer.\<close>

definition agc_dcb_push_marker :: "full_callback option \<Rightarrow> dcb \<Rightarrow> byte list option \<Rightarrow> built" where
  "agc_dcb_push_marker full d marker =
     (case marker of
        None \<Rightarrow> Some (d, None)
      | Some text \<Rightarrow>
          if length text \<ge> 0x4000 * 4 then Some (d, None)
          else let bytes = length text + 1
               in packet full d (1 + (bytes + 3) div 4) IT_NOP R_PUSH_MARKER (pack_dwords (text @ [0])))"

definition agc_dcb_pop_marker :: "full_callback option \<Rightarrow> dcb \<Rightarrow> built" where
  "agc_dcb_pop_marker full d = packet full d 2 IT_NOP R_POP_MARKER [0]"

definition agc_dcb_type2_nop :: "full_callback option \<Rightarrow> dcb \<Rightarrow> built" where
  "agc_dcb_type2_nop full d =
     (let (d, cmd) = allocate_dw full 1 d
      in case cmd of
           None \<Rightarrow> Some (d, None)
         | Some c \<Rightarrow> do { mem \<leftarrow> write_at (dcb_mem d) c [0x80000000]; Some (d\<lparr>dcb_mem := mem\<rparr>, Some c) })"

definition agc_cb_nop :: "full_callback option \<Rightarrow> dcb \<Rightarrow> qword \<Rightarrow> built" where
  "agc_cb_nop full d a1 =
     (let num = unat (lo32 a1)
      in if num = 0 then Some (d, None)
         else if num = 1 then agc_dcb_type2_nop full d
         else packet full d num IT_NOP 0 (replicate (num - 1) 0))"

subsection \<open>Draws and dispatches\<close>

definition agc_dcb_set_num_instances :: "full_callback option \<Rightarrow> dcb \<Rightarrow> qword \<Rightarrow> built" where
  "agc_dcb_set_num_instances full d a1 = packet full d kDwSetNumInstances IT_NUM_INSTANCES 0 [lo32 a1]"

definition agc_dcb_set_index_size :: "full_callback option \<Rightarrow> dcb \<Rightarrow> qword \<Rightarrow> built" where
  "agc_dcb_set_index_size full d a1 = packet full d kDwSetIndexSize IT_INDEX_TYPE 0 [lo32 a1]"

definition agc_dcb_draw_index_auto :: "full_callback option \<Rightarrow> dcb \<Rightarrow> qword \<Rightarrow> qword \<Rightarrow> built" where
  "agc_dcb_draw_index_auto full d a1 a2 =
     packet full d kDwDrawIndexAuto IT_NOP R_DRAW_INDEX_AUTO [lo32 a1, lo32 a2, hi32 a2, 0, 0, 0]"

definition agc_dcb_draw_index :: "full_callback option \<Rightarrow> dcb \<Rightarrow> qword \<Rightarrow> qword \<Rightarrow> qword \<Rightarrow> built" where
  "agc_dcb_draw_index full d a1 a2 a3 =
     packet full d kDwDrawIndex IT_NOP R_DRAW_INDEX [lo32 a1, lo32 a2, hi32 a2, lo32 a3, hi32 a3, 0]"

definition agc_dcb_set_index_buffer :: "full_callback option \<Rightarrow> dcb \<Rightarrow> qword \<Rightarrow> built" where
  "agc_dcb_set_index_buffer full d a1 = packet full d kDwSetIndexBuffer IT_NOP R_INDEX_BASE [lo32 a1, hi32 a1]"

definition agc_dcb_set_index_count :: "full_callback option \<Rightarrow> dcb \<Rightarrow> qword \<Rightarrow> built" where
  "agc_dcb_set_index_count full d a1 = packet full d kDwSetIndexCount IT_NOP R_INDEX_COUNT [lo32 a1]"

definition agc_dcb_draw_index_offset :: "full_callback option \<Rightarrow> dcb \<Rightarrow> qword \<Rightarrow> qword \<Rightarrow> built" where
  "agc_dcb_draw_index_offset full d a1 a2 =
     packet full d kDwDrawIndexOffset IT_NOP R_DRAW_INDEX_OFFSET [lo32 a1, lo32 a2]"

definition agc_cb_dispatch ::
    "full_callback option \<Rightarrow> dcb \<Rightarrow> qword \<Rightarrow> qword \<Rightarrow> qword \<Rightarrow> qword \<Rightarrow> built" where
  "agc_cb_dispatch full d a1 a2 a3 a4 =
     packet full d kDwDispatch IT_NOP R_DISPATCH_DIRECT [lo32 a1, lo32 a2, lo32 a3, lo32 a4, hi32 a4]"

definition agc_dcb_set_base_indirect_args :: "full_callback option \<Rightarrow> dcb \<Rightarrow> qword \<Rightarrow> qword \<Rightarrow> built" where
  "agc_dcb_set_base_indirect_args full d a1 a2 =
     (if a1 > 1 then Some (d, None)
      else packet full d 4 IT_NOP R_SET_BASE_INDIRECT_ARGS [lo32 a1, lo32 a2, hi32 a2])"

definition agc_dcb_stall_command_buffer_parser :: "full_callback option \<Rightarrow> dcb \<Rightarrow> built" where
  "agc_dcb_stall_command_buffer_parser full d =
     packet full d kDwStallCbParser IT_NOP R_STALL_COMMAND_BUFFER_PARSER [0]"

definition agc_dcb_draw_index_indirect :: "full_callback option \<Rightarrow> dcb \<Rightarrow> qword \<Rightarrow> qword \<Rightarrow> built" where
  "agc_dcb_draw_index_indirect full d a1 a2 =
     packet full d kDwDrawIndexIndirect IT_NOP R_DRAW_INDEX_INDIRECT [lo32 a1, lo32 a2, hi32 a2]"

definition agc_dcb_dispatch_indirect :: "full_callback option \<Rightarrow> dcb \<Rightarrow> qword \<Rightarrow> qword \<Rightarrow> built" where
  "agc_dcb_dispatch_indirect full d a1 a2 =
     packet full d kDwDispatchIndirect IT_NOP R_DISPATCH_INDIRECT [lo32 a1, lo32 a2, hi32 a2]"

definition agc_acb_dispatch_indirect :: "full_callback option \<Rightarrow> dcb \<Rightarrow> qword \<Rightarrow> qword \<Rightarrow> built" where
  "agc_acb_dispatch_indirect full d a1 a2 =
     packet full d kDwAcbDispatchIndirect IT_NOP R_DISPATCH_INDIRECT_ADDR [lo32 a1, hi32 a1, lo32 a2, hi32 a2]"

subsection \<open>Registers\<close>

definition set_register_direct :: "full_callback option \<Rightarrow> dcb \<Rightarrow> qword \<Rightarrow> dword \<Rightarrow> built" where
  "set_register_direct full d packed_reg opc = packet full d kDwSetRegisterDirect opc 0 [lo32 packed_reg, hi32 packed_reg]"

definition set_regs_indirect :: "full_callback option \<Rightarrow> dcb \<Rightarrow> qword \<Rightarrow> qword \<Rightarrow> dword \<Rightarrow> built" where
  "set_regs_indirect full d regs n r =
     packet full d kDwSetRegsIndirect IT_NOP r [lo32 n, lo32 regs, hi32 regs]"

text \<open>The marker before the range is appended even if the range is not.\<close>

definition agc_cb_set_sh_register_range_direct ::
    "full_callback option \<Rightarrow> dcb \<Rightarrow> qword \<Rightarrow> dword list option \<Rightarrow> qword \<Rightarrow> built" where
  "agc_cb_set_sh_register_range_direct full d a1 values a3 =
     (let num = unat (lo32 a3)
      in if num = 0 then Some (d, None)
         else do {
           (d, marker) \<leftarrow> packet full d 2 IT_NOP 0 [0x6875000d];
           packet_from full d (unat (word_of_nat num + 2 :: dword)) IT_SET_SH_REG 0
             (map_option (Cons (lo32 a1))
               (case values of Some vs \<Rightarrow> read_at vs 0 num | None \<Rightarrow> Some (replicate num 0))) })"

text \<open>The registers are offset and value; one packet per run of consecutive offsets.\<close>

fun run_length :: "(dword \<times> dword) list \<Rightarrow> nat" where
  "run_length [] = 0"
| "run_length [r] = 1"
| "run_length (r # s # rs) = (if fst s = fst r + 1 then run_length (s # rs) + 1 else 1)"

lemma run_length_pos: "rs \<noteq> [] \<Longrightarrow> 0 < run_length rs"
  by (cases rs rule: run_length.cases) auto

function set_sh_runs :: "full_callback option \<Rightarrow> dcb \<Rightarrow> (dword \<times> dword) list \<Rightarrow> nat option \<Rightarrow> built" where
  "set_sh_runs full d regs first =
     (if regs = [] then Some (d, first)
      else let run = take (run_length regs) regs in do {
        (d, cmd) \<leftarrow> packet full d (length run + 2) IT_SET_SH_REG 0 (fst (hd regs) # map snd run);
        case cmd of
          None \<Rightarrow> Some (d, None)
        | Some c \<Rightarrow> set_sh_runs full d (drop (run_length regs) regs)
                     (case first of None \<Rightarrow> Some c | Some f \<Rightarrow> Some f) })"
  by pat_completeness auto
termination
  by (relation "measure (\<lambda>(full, d, regs, first). length regs)") (auto simp: run_length_pos)

declare set_sh_runs.simps [simp del]

definition agc_cb_set_sh_registers_direct ::
    "full_callback option \<Rightarrow> dcb \<Rightarrow> (dword \<times> dword) list option \<Rightarrow> qword \<Rightarrow> built" where
  "agc_cb_set_sh_registers_direct full d regs a2 =
     (let count = unat (lo32 a2)
      in case regs of
           None \<Rightarrow> Some (d, None)
         | Some rs \<Rightarrow> if count = 0 \<or> count > 4096 then Some (d, None)
                      else do { rs \<leftarrow> read_at rs 0 count; set_sh_runs full d rs None })"

subsection \<open>Synchronisation and memory\<close>

definition agc_dcb_wait_safe_for_rendering :: "full_callback option \<Rightarrow> dcb \<Rightarrow> qword \<Rightarrow> qword \<Rightarrow> built" where
  "agc_dcb_wait_safe_for_rendering full d a1 a2 =
     packet full d 7 IT_NOP R_WAIT_FLIP_DONE [lo32 a1, lo32 a2, 0, 0, 0, 0]"

definition agc_dcb_jump :: "full_callback option \<Rightarrow> dcb \<Rightarrow> qword \<Rightarrow> qword \<Rightarrow> built" where
  "agc_dcb_jump full d a3 a4 = packet full d kDwJump IT_NOP R_JUMP [lo32 a3, hi32 a3, lo32 a4, 0]"

definition agc_dcb_set_predication :: "full_callback option \<Rightarrow> dcb \<Rightarrow> qword \<Rightarrow> qword \<Rightarrow> built" where
  "agc_dcb_set_predication full d a2 a4 = packet full d 4 IT_NOP R_SET_PRED [lo32 a4, hi32 a4, lo32 a2]"

definition agc_dcb_dma_data ::
    "full_callback option \<Rightarrow> dcb \<Rightarrow> qword \<Rightarrow> qword \<Rightarrow> qword \<Rightarrow> qword \<Rightarrow> qword \<Rightarrow> qword \<Rightarrow> qword \<Rightarrow> built" where
  "agc_dcb_dma_data full d a1 a2 a3 a4 a6 a7 a8 =
     (let num_bytes = (if a8 \<le> 0x10000000 then a8 else 0);
          address_source = (a6 = 2);
          src_or_imm = (if address_source then a7 else a1)
      in packet full d kDwDmaData IT_NOP R_DMA_DATA
           [lo32 a4, hi32 a4, lo32 src_or_imm, hi32 src_or_imm, lo32 num_bytes,
            lo32 ((a2 AND 0xff) OR push_bit 8 (a3 AND 0xff)) OR (if address_source then kDmaDataAddressSource else 0)])"

definition agc_acb_dma_data ::
    "full_callback option \<Rightarrow> dcb \<Rightarrow> qword \<Rightarrow> qword \<Rightarrow> qword \<Rightarrow> qword \<Rightarrow> qword \<Rightarrow> built" where
  "agc_acb_dma_data full d a1 a2 a3 a6 a7 =
     (let num_bytes = (if a7 > 0x10000000 then 0 else a7)
      in packet full d kDwDmaData IT_NOP R_DMA_DATA
           [lo32 a3, hi32 a3, lo32 a6, hi32 a6, lo32 num_bytes, lo32 ((a1 AND 0xff) OR push_bit 8 (a2 AND 0xff))])"

definition agc_dcb_event_write :: "full_callback option \<Rightarrow> dcb \<Rightarrow> qword \<Rightarrow> qword \<Rightarrow> built" where
  "agc_dcb_event_write full d a1 a2 = packet full d kDwEventWrite IT_EVENT_WRITE 0 [lo32 (a1 AND 0xff), lo32 a2, hi32 a2]"

definition agc_dcb_acquire_mem :: "full_callback option \<Rightarrow> dcb \<Rightarrow> qword \<Rightarrow> qword \<Rightarrow> built" where
  "agc_dcb_acquire_mem full d a2 a3 =
     packet full d kDwAcquireMem IT_NOP R_ACQUIRE_MEM [lo32 a2, 0, 0, 0, 0, 0, lo32 a3]"

text \<open>\<open>guest\<close> reads a qword of guest memory where its eight bytes are readable.\<close>

definition label_build_pre :: "(qword \<Rightarrow> qword option) \<Rightarrow> qword \<Rightarrow> qword \<Rightarrow> qword" where
  "label_build_pre guest dst num_bytes =
     (if num_bytes \<le> 8 \<and> dst \<ge> 0x10000 \<and> dst AND 3 = 0
      then case guest dst of Some v \<Rightarrow> v | None \<Rightarrow> 0 else 0)"

definition agc_cb_release_mem ::
    "full_callback option \<Rightarrow> (qword \<Rightarrow> qword option) \<Rightarrow> dcb \<Rightarrow> qword \<Rightarrow> qword \<Rightarrow> qword \<Rightarrow> qword \<Rightarrow> built" where
  "agc_cb_release_mem full guest d a1 a5 a6 a7 =
     packet full d kDwReleaseMem IT_NOP R_RELEASE_MEM
       [lo32 a5, hi32 a5, lo32 a6, lo32 a7, hi32 a7, lo32 a1,
        hi32 (label_build_pre guest a5 (if a6 = 1 then 4 else 8))]"

definition agc_dcb_write_data ::
    "full_callback option \<Rightarrow> dcb \<Rightarrow> qword \<Rightarrow> qword \<Rightarrow> dword list option \<Rightarrow> qword \<Rightarrow> built" where
  "agc_dcb_write_data full d a1 a3 src a5 =
     (let num = lo32 a5
      in if num > 0x3FFC then Some (d, None)
         else packet_from full d (5 + unat num) IT_NOP R_WRITE_DATA
                (map_option (append [lo32 a1, lo32 a3, hi32 a3, num])
                  (case src of Some s \<Rightarrow> read_at s 0 (unat num) | None \<Rightarrow> Some (replicate (unat num) 0))))"

definition agc_dcb_wait_reg_mem ::
    "full_callback option \<Rightarrow> dcb \<Rightarrow> qword \<Rightarrow> qword \<Rightarrow> qword \<Rightarrow> qword \<Rightarrow> qword \<Rightarrow> built" where
  "agc_dcb_wait_reg_mem full d a2 a5 a6 a7 a8 =
     packet full d 9 IT_NOP R_WAIT_MEM_64
       [lo32 a5, hi32 a5, lo32 a7, hi32 a7, lo32 a6, hi32 a6, lo32 a2, lo32 a8]"

definition agc_dcb_set_flip :: "full_callback option \<Rightarrow> dcb \<Rightarrow> qword \<Rightarrow> qword \<Rightarrow> qword \<Rightarrow> qword \<Rightarrow> built" where
  "agc_dcb_set_flip full d a1 a2 a3 a4 =
     packet full d 6 IT_NOP R_FLIP [lo32 a1, lo32 a2, lo32 a3, lo32 a4, hi32 a4]"

subsection \<open>Sizes the guest asks for\<close>

definition agc_dcb_jump_get_size :: nat where "agc_dcb_jump_get_size = kDwJump * 4"
definition agc_dcb_acquire_mem_get_size :: nat where "agc_dcb_acquire_mem_get_size = kDwAcquireMem * 4"
definition agc_dcb_rewind_get_size :: nat where "agc_dcb_rewind_get_size = 2 * 4"
definition agc_cb_eop_action_get_size :: nat where "agc_cb_eop_action_get_size = kDwReleaseMem * 4"
definition agc_draw_index_get_size :: nat where "agc_draw_index_get_size = kDwDrawIndex * 4"
definition agc_draw_index_auto_get_size :: nat where "agc_draw_index_auto_get_size = kDwDrawIndexAuto * 4"
definition agc_draw_index_offset_get_size :: nat where "agc_draw_index_offset_get_size = kDwDrawIndexOffset * 4"
definition agc_draw_index_indirect_get_size :: nat where "agc_draw_index_indirect_get_size = kDwDrawIndexIndirect * 4"
definition agc_dispatch_get_size :: nat where "agc_dispatch_get_size = kDwDispatch * 4"
definition agc_dispatch_indirect_get_size :: nat where "agc_dispatch_indirect_get_size = kDwDispatchIndirect * 4"
definition agc_acb_dispatch_indirect_get_size :: nat where "agc_acb_dispatch_indirect_get_size = kDwAcbDispatchIndirect * 4"
definition agc_dma_data_get_size :: nat where "agc_dma_data_get_size = kDwDmaData * 4"
definition agc_event_write_get_size :: nat where "agc_event_write_get_size = kDwEventWrite * 4"
definition agc_set_index_buffer_get_size :: nat where "agc_set_index_buffer_get_size = kDwSetIndexBuffer * 4"
definition agc_set_index_count_get_size :: nat where "agc_set_index_count_get_size = kDwSetIndexCount * 4"
definition agc_set_index_size_get_size :: nat where "agc_set_index_size_get_size = kDwSetIndexSize * 4"
definition agc_set_num_instances_get_size :: nat where "agc_set_num_instances_get_size = kDwSetNumInstances * 4"
definition agc_stall_cb_parser_get_size :: nat where "agc_stall_cb_parser_get_size = kDwStallCbParser * 4"
definition agc_set_register_direct_get_size :: nat where "agc_set_register_direct_get_size = kDwSetRegisterDirect * 4"
definition agc_set_regs_indirect_get_size :: nat where "agc_set_regs_indirect_get_size = kDwSetRegsIndirect * 4"

definition agc_cb_nop_get_size :: "qword \<Rightarrow> nat" where
  "agc_cb_nop_get_size a0 = (let n = unat (lo32 a0) in (if n = 0 then 1 else n) * 4)"

lemmas get_size_defs = agc_dcb_jump_get_size_def agc_dcb_acquire_mem_get_size_def agc_dcb_rewind_get_size_def
  agc_cb_eop_action_get_size_def agc_draw_index_get_size_def agc_draw_index_auto_get_size_def
  agc_draw_index_offset_get_size_def agc_draw_index_indirect_get_size_def agc_dispatch_get_size_def
  agc_dispatch_indirect_get_size_def agc_acb_dispatch_indirect_get_size_def agc_dma_data_get_size_def
  agc_event_write_get_size_def agc_set_index_buffer_get_size_def agc_set_index_count_get_size_def
  agc_set_index_size_get_size_def agc_set_num_instances_get_size_def agc_stall_cb_parser_get_size_def
  agc_set_register_direct_get_size_def agc_set_regs_indirect_get_size_def agc_cb_nop_get_size_def

end
