(* ===== verification/Pm4Stream.thy ===== *)
theory Pm4Stream
  imports Pm4Build
begin

text \<open>
  The builders and the decoder of command buffers against each other: what a sequence of builder
  calls appends to a ring is what the decoder reads back, operand by operand.
\<close>

subsection \<open>Headers\<close>

lemma word_of_nat_diff_2: "2 \<le> n \<Longrightarrow> word_of_nat n - 2 = (word_of_nat (n - 2) :: 'a::len word)"
  using of_nat_diff[of 2 n, where ?'a = "'a word"] by simp

lemma length_field: "2 \<le> n \<Longrightarrow> n \<le> 0x4001 \<Longrightarrow> (word_of_nat n - 2) AND mask 14 = (word_of_nat n - 2 :: dword)"
proof -
  assume n: "2 \<le> n" "n \<le> 0x4001"
  have "take_bit 14 (word_of_nat (n - 2) :: dword) = word_of_nat (take_bit 14 (n - 2))"
    by (rule take_bit_of_nat)
  also have "\<dots> = word_of_nat (n - 2)"
    using n by (subst take_bit_nat_eq_self) simp_all
  finally show ?thesis
    by (simp only: take_bit_eq_mask word_of_nat_diff_2[OF n(1)])
qed

text \<open>The header with its masks as such, for reasoning on bits.\<close>

definition type3 :: dword where
  "type3 = 0xC0000000"

lemma bit_type3: "bit type3 k \<longleftrightarrow> k = 30 \<or> k = 31"
proof -
  have eq: "type3 = push_bit 30 (mask 2)" by (simp add: type3_def mask_eq_exp_minus_1)
  show ?thesis unfolding eq by (auto simp: bit_simps)
qed

lemma PM4_masks:
  "PM4 n opc r = type3 OR push_bit 16 ((n - 2) AND mask 14) OR push_bit 8 (opc AND mask 8)
     OR push_bit 2 (r AND mask 6)"
  by (simp add: PM4_def R_NUM_def type3_def mask_eq_exp_minus_1)

lemma is_type3_PM4: "is_type3 (PM4 n opc r)"
proof -
  have "PM4 n opc r AND type3 = type3"
    unfolding PM4_masks by (rule bit_word_eqI) (auto simp: bit_simps bit_type3)
  then show ?thesis by (simp add: is_type3_def type3_def)
qed

lemma hdr_len_PM4: "2 \<le> n \<Longrightarrow> n \<le> 0x4001 \<Longrightarrow> hdr_len (PM4 (word_of_nat n) opc r) = word_of_nat n"
proof -
  assume n: "2 \<le> n" "n \<le> 0x4001"
  have "drop_bit 16 (PM4 (word_of_nat n) opc r) AND mask 14 = (word_of_nat n - 2) AND mask 14"
    unfolding PM4_masks by (rule bit_word_eqI) (auto simp: bit_simps bit_type3)
  then have "drop_bit 16 (PM4 (word_of_nat n) opc r) AND 0x3fff = word_of_nat n - 2"
    unfolding length_field[OF n] by (simp add: mask_eq_exp_minus_1)
  then show ?thesis by (simp add: hdr_len_def)
qed

lemma hdr_op_PM4: "hdr_op (PM4 n opc r) = opc AND 0xff"
proof -
  have "drop_bit 8 (PM4 n opc r) AND mask 8 = opc AND mask 8"
    unfolding PM4_masks by (rule bit_word_eqI) (auto simp: bit_simps bit_type3)
  then show ?thesis by (simp add: hdr_op_def mask_eq_exp_minus_1)
qed

lemma hdr_r_PM4: "hdr_r (PM4 n opc r) = r AND 0x3f"
proof -
  have "drop_bit 2 (PM4 n opc r) AND mask 6 = r AND mask 6"
    unfolding PM4_masks by (rule bit_word_eqI) (auto simp: bit_simps bit_type3)
  then show ?thesis by (simp add: hdr_r_def mask_eq_exp_minus_1)
qed

lemmas header_fields = is_type3_PM4 hdr_len_PM4 hdr_op_PM4 hdr_r_PM4

subsection \<open>Reading a packet back\<close>

lemma read_at_Cons [simp]:
  "read_at buf i (Suc n) = Some (w # ws) \<longleftrightarrow> dw buf i = Some w \<and> read_at buf (Suc i) n = Some ws"
  by (cases "i < length buf") (auto simp: read_at_def dw_def take_Suc_conv_app_nth Cons_nth_drop_Suc[symmetric])

lemma dw_defined: "k < length buf \<Longrightarrow> dw buf k = Some (buf ! k)"
  by (simp add: dw_def)

lemma lo_hi_join: "dw buf k = Some (lo32 a) \<Longrightarrow> dw buf (Suc k) = Some (hi32 a) \<Longrightarrow> lo_hi buf k = Some a"
proof -
  assume "dw buf k = Some (lo32 a)" "dw buf (Suc k) = Some (hi32 a)"
  moreover have "ucast (lo32 a) OR push_bit 32 (ucast (hi32 a)) = a"
    by (rule bit_word_eqI) (auto simp: bit_simps)
  ultimately show ?thesis by (simp add: lo_hi_def)
qed

text \<open>Decoding a packet that lies in the buffer.\<close>

lemma lo_hi_defined: "Suc k < length buf \<Longrightarrow> \<exists>v. lo_hi buf k = Some v"
  by (simp add: lo_hi_def dw_def)

lemma decoders_defined:
  assumes "p + npl \<le> length buf"
  shows "\<exists>c'. decode_set_reg buf p npl c = Some c'" "\<exists>c'. decode_write_data buf p npl c = Some c'"
    "\<exists>c'. decode_release_mem buf p npl c = Some c'" "\<exists>c'. decode_wait_reg_mem buf p npl c = Some c'"
    "\<exists>c'. decode_flip buf p npl c = Some c'" "\<exists>c'. decode_draw_index buf p npl c = Some c'"
    "\<exists>c'. decode_dispatch_direct buf p npl c = Some c'" "\<exists>c'. decode_dma_data buf p npl c = Some c'"
    "\<exists>c'. decode_jump buf p npl c = Some c'" "\<exists>c'. decode_set_pred buf p npl c = Some c'"
    "\<exists>c'. decode_regs_indirect buf p npl c = Some c'" "\<exists>c'. decode_dispatch_addr buf p npl c = Some c'"
    "\<exists>c'. decode_indirect_work f h buf p npl c = Some c'"
  unfolding decode_set_reg_def decode_write_data_def decode_release_mem_def decode_wait_reg_mem_def
    decode_flip_def decode_draw_index_def decode_dispatch_direct_def decode_dma_data_def decode_jump_def
    decode_set_pred_def decode_regs_indirect_def decode_dispatch_addr_def decode_indirect_work_def
  using assms by (auto simp: on_def lo_hi_def dw_defined Let_def)

lemma decode_nop_defined: "p + npl \<le> length buf \<Longrightarrow> \<exists>c'. decode_nop buf p npl c = Some c'"
  by (auto simp: decode_nop_def decoders_defined on_def lo_hi_def dw_defined Let_def)

lemma decode_op_defined: "p + npl \<le> length buf \<Longrightarrow> \<exists>c'. decode_op buf p npl c = Some c'"
  by (auto simp: decode_op_def decode_nop_def decoders_defined on_def lo_hi_def dw_defined Let_def)

text \<open>
  What a command tells its consumer: its operands, without the framing, and the words it points to.
\<close>

definition words_at :: "dword list \<Rightarrow> nat option \<Rightarrow> nat \<Rightarrow> dword list" where
  "words_at buf p n = (case p of None \<Rightarrow> [] | Some i \<Rightarrow> the (read_at buf i n))"

definition operands :: "dword list \<Rightarrow> pm4_command \<Rightarrow> pm4_command \<times> dword list" where
  "operands buf c =
     (c\<lparr>header := 0, op := 0, sub_op := 0, len := 0, payload := None, marker_label := NullLabel,
        reg_data := None, wd_data := None\<rparr>,
      if kind c = PushMarker then words_at buf (payload c) (unat (len c) - 1)
      else if kind c = SetRegDirect then words_at buf (reg_data c) (unat (reg_count c))
      else if kind c = WriteData then words_at buf (wd_data c) (unat (wd_num c))
      else [])"

definition packet_command :: "nat \<Rightarrow> dword \<Rightarrow> dword \<Rightarrow> nat \<Rightarrow> pm4_command" where
  "packet_command n opc r p =
     new_command\<lparr>header := PM4 (word_of_nat n) opc r, op := opc, sub_op := r, len := word_of_nat n,
                 payload := Some p\<rparr>"

type_synonym meaning = "(pm4_command \<times> dword list) option"

text \<open>\<open>packet_decodes ws v\<close>: wherever the words \<open>ws\<close> stand in a stream, the decoder reads \<open>v\<close> from them.\<close>

definition packet_decodes :: "dword list \<Rightarrow> meaning \<Rightarrow> bool" where
  "packet_decodes ws v \<longleftrightarrow>
     (\<forall>buf dwords i. read_at buf i (length ws) = Some ws \<and> i + length ws \<le> dwords \<longrightarrow>
        (case v of
           None \<Rightarrow> decode_from buf dwords i = decode_from buf dwords (i + length ws)
         | Some m \<Rightarrow> \<exists>c. operands buf c = m \<and>
             decode_from buf dwords i = map_option (\<lambda>(cs, n). (c # cs, n)) (decode_from buf dwords (i + length ws))))"

lemma filler_decodes: "packet_decodes [0x80000000] None"
  unfolding packet_decodes_def by (auto simp: decode_from.simps[where i = i for i] is_type3_def)

lemma packet_decodesI:
  assumes n: "1 \<le> length body" "length body \<le> 0x4000" and opc: "opc AND 0xff = opc" "r AND 0x3f = r"
    and body: "\<And>buf p. read_at buf p (length body) = Some body \<Longrightarrow>
      \<exists>c. decode_op buf p (length body) (packet_command (Suc (length body)) opc r p) = Some c \<and> operands buf c = m"
  shows "packet_decodes (PM4 (word_of_nat (Suc (length body))) opc r # body) (Some m)"
  unfolding packet_decodes_def
proof (intro allI impI, elim conjE)
  fix buf dwords i
  let ?h = "PM4 (word_of_nat (Suc (length body))) opc r"
  assume at: "read_at buf i (length (?h # body)) = Some (?h # body)" and le: "i + length (?h # body) \<le> dwords"
  from at have h: "dw buf i = Some ?h" and rest: "read_at buf (Suc i) (length body) = Some body"
    by simp_all
  from body[OF rest] obtain c where c:
    "decode_op buf (Suc i) (length body) (packet_command (Suc (length body)) opc r (Suc i)) = Some c"
    "operands buf c = m"
    by blast
  have l: "hdr_len ?h = word_of_nat (Suc (length body))"
    using n by (intro hdr_len_PM4) simp_all
  have u: "unat (word_of_nat (Suc (length body)) :: dword) = Suc (length body)"
    using n by (simp add: unat_of_nat del: of_nat_Suc)
  have "decode_packet buf i ?h = Some c"
    using c(1) n u
    by (simp add: decode_packet_def Let_def l hdr_op_PM4 hdr_r_PM4 opc packet_command_def word_less_nat_alt del: of_nat_Suc)
      (use n in auto)
  then have "decode_from buf dwords i
      = map_option (\<lambda>(cs, n). (c # cs, n)) (decode_from buf dwords (i + length (?h # body)))"
    using le h
    by (simp add: decode_from.simps[of buf dwords i] is_type3_PM4 l u map_option_case split_beta
          del: of_nat_Suc split: option.split)
  then show "case Some m of
       None \<Rightarrow> decode_from buf dwords i = decode_from buf dwords (i + length (?h # body))
     | Some m \<Rightarrow> \<exists>c. operands buf c = m \<and>
         decode_from buf dwords i
         = map_option (\<lambda>(cs, n). (c # cs, n)) (decode_from buf dwords (i + length (?h # body)))"
    using c(2) by auto
qed

end
