(* ===== verification/Pm4Calls.thy ===== *)
theory Pm4Calls
  imports Pm4Stream
begin

text \<open>
  The builders as one type of calls, and the specification of what each call tells the consumer of
  the stream.
\<close>

subsection \<open>Calls and what they mean\<close>

datatype agc_call =
    ResetQueueCall | PushMarkerCall "byte list option" | PopMarkerCall | Type2NopCall | NopCall qword
  | SetNumInstancesCall qword | SetIndexSizeCall qword | DrawIndexAutoCall qword qword
  | DrawIndexCall qword qword qword | SetIndexBufferCall qword | SetIndexCountCall qword
  | DrawIndexOffsetCall qword qword | DispatchCall qword qword qword qword
  | SetBaseIndirectArgsCall qword qword | StallCall | DrawIndexIndirectCall qword qword
  | DispatchIndirectCall qword qword | AcbDispatchIndirectCall qword qword
  | SetRegisterCall reg_class qword | SetRegsIndirectCall reg_class qword qword
  | SetShRangeCall qword "dword list option" qword | SetShRegistersCall "(dword \<times> dword) list option" qword
  | WaitSafeCall qword qword | JumpCall qword qword | SetPredicationCall qword qword
  | DmaDataCall qword qword qword qword qword qword qword | AcbDmaDataCall qword qword qword qword qword
  | EventWriteCall qword qword | AcquireMemCall qword qword | ReleaseMemCall qword qword qword qword
  | WriteDataCall qword qword "dword list option" qword
  | WaitRegMemCall qword qword qword qword qword | SetFlipCall qword qword qword qword

fun agc_build :: "full_callback option \<Rightarrow> (qword \<Rightarrow> qword option) \<Rightarrow> dcb \<Rightarrow> agc_call \<Rightarrow> built" where
  "agc_build full g d ResetQueueCall = agc_dcb_reset_queue full d"
| "agc_build full g d (PushMarkerCall t) = agc_dcb_push_marker full d t"
| "agc_build full g d PopMarkerCall = agc_dcb_pop_marker full d"
| "agc_build full g d Type2NopCall = agc_dcb_type2_nop full d"
| "agc_build full g d (NopCall n) = agc_cb_nop full d n"
| "agc_build full g d (SetNumInstancesCall n) = agc_dcb_set_num_instances full d n"
| "agc_build full g d (SetIndexSizeCall n) = agc_dcb_set_index_size full d n"
| "agc_build full g d (DrawIndexAutoCall n m) = agc_dcb_draw_index_auto full d n m"
| "agc_build full g d (DrawIndexCall n a m) = agc_dcb_draw_index full d n a m"
| "agc_build full g d (SetIndexBufferCall a) = agc_dcb_set_index_buffer full d a"
| "agc_build full g d (SetIndexCountCall n) = agc_dcb_set_index_count full d n"
| "agc_build full g d (DrawIndexOffsetCall s n) = agc_dcb_draw_index_offset full d s n"
| "agc_build full g d (DispatchCall x y z m) = agc_cb_dispatch full d x y z m"
| "agc_build full g d (SetBaseIndirectArgsCall t a) = agc_dcb_set_base_indirect_args full d t a"
| "agc_build full g d StallCall = agc_dcb_stall_command_buffer_parser full d"
| "agc_build full g d (DrawIndexIndirectCall n m) = agc_dcb_draw_index_indirect full d n m"
| "agc_build full g d (DispatchIndirectCall n m) = agc_dcb_dispatch_indirect full d n m"
| "agc_build full g d (AcbDispatchIndirectCall a m) = agc_acb_dispatch_indirect full d a m"
| "agc_build full g d (SetRegisterCall cls reg) =
     set_register_direct full d reg
       (case cls of Cx \<Rightarrow> IT_SET_CONTEXT_REG | Sh \<Rightarrow> IT_SET_SH_REG | Uc \<Rightarrow> IT_SET_UCONFIG_REG)"
| "agc_build full g d (SetRegsIndirectCall cls regs n) =
     set_regs_indirect full d regs n
       (case cls of Cx \<Rightarrow> R_CX_REGS_INDIRECT | Sh \<Rightarrow> R_SH_REGS_INDIRECT | Uc \<Rightarrow> R_UC_REGS_INDIRECT)"
| "agc_build full g d (SetShRangeCall off vs n) = agc_cb_set_sh_register_range_direct full d off vs n"
| "agc_build full g d (SetShRegistersCall rs n) = agc_cb_set_sh_registers_direct full d rs n"
| "agc_build full g d (WaitSafeCall h b) = agc_dcb_wait_safe_for_rendering full d h b"
| "agc_build full g d (JumpCall a n) = agc_dcb_jump full d a n"
| "agc_build full g d (SetPredicationCall opn a) = agc_dcb_set_predication full d opn a"
| "agc_build full g d (DmaDataCall a1 a2 a3 a4 a6 a7 a8) = agc_dcb_dma_data full d a1 a2 a3 a4 a6 a7 a8"
| "agc_build full g d (AcbDmaDataCall a1 a2 a3 a6 a7) = agc_acb_dma_data full d a1 a2 a3 a6 a7"
| "agc_build full g d (EventWriteCall e a) = agc_dcb_event_write full d e a"
| "agc_build full g d (AcquireMemCall a b) = agc_dcb_acquire_mem full d a b"
| "agc_build full g d (ReleaseMemCall a1 a5 a6 a7) = agc_cb_release_mem full g d a1 a5 a6 a7"
| "agc_build full g d (WriteDataCall a1 a3 src n) = agc_dcb_write_data full d a1 a3 src n"
| "agc_build full g d (WaitRegMemCall a2 a5 a6 a7 a8) = agc_dcb_wait_reg_mem full d a2 a5 a6 a7 a8"
| "agc_build full g d (SetFlipCall h b m a) = agc_dcb_set_flip full d h b m a"

text \<open>
  The specification: the packets of a call, each with its size in dwords and what a consumer is to
  learn from it, \<^term>\<open>None\<close> for padding. It says nothing of headers, payload layouts or positions.
\<close>

function sh_runs :: "(dword \<times> dword) list \<Rightarrow> (dword \<times> dword) list list" where
  "sh_runs rs = (if rs = [] then [] else take (run_length rs) rs # sh_runs (drop (run_length rs) rs))"
  by pat_completeness auto
termination
  by (relation "measure length") (auto simp: run_length_pos)

declare sh_runs.simps [simp del]

definition says :: "nat \<Rightarrow> pm4_command \<Rightarrow> nat \<times> meaning" where
  "says n c = (n, Some (c, []))"

definition sets_registers :: "reg_class \<Rightarrow> dword \<Rightarrow> dword list \<Rightarrow> nat \<times> meaning" where
  "sets_registers cls off vs =
     (length vs + 2,
      Some (new_command\<lparr>kind := SetRegDirect, reg_class := cls, reg_offset := off, reg_value := hd vs,
                        reg_count := word_of_nat (length vs)\<rparr>, vs))"

definition array_or_zeros :: "'a::zero list option \<Rightarrow> nat \<Rightarrow> 'a list" where
  "array_or_zeros src n = (case src of Some xs \<Rightarrow> take n xs | None \<Rightarrow> replicate n 0)"

fun call_meaning :: "(qword \<Rightarrow> qword option) \<Rightarrow> agc_call \<Rightarrow> (nat \<times> meaning) list" where
  "call_meaning g ResetQueueCall = [says 2 (new_command\<lparr>kind := DrawReset\<rparr>)]"
| "call_meaning g (PushMarkerCall t) =
     (case t of
        None \<Rightarrow> []
      | Some s \<Rightarrow> if length s < 0x10000
                  then [(length s div 4 + 2, Some (new_command\<lparr>kind := PushMarker\<rparr>, pack_dwords (s @ [0])))] else [])"
| "call_meaning g PopMarkerCall = [says 2 (new_command\<lparr>kind := PopMarker\<rparr>)]"
| "call_meaning g Type2NopCall = [(1, None)]"
| "call_meaning g (NopCall n) =
     (let k = unat (lo32 n)
      in if k = 1 then [(1, None)] else if 2 \<le> k \<and> k \<le> 0x4001 then [says k new_command] else [])"
| "call_meaning g (SetNumInstancesCall n) =
     [says 2 (new_command\<lparr>kind := SetNumInstances, instance_count := lo32 n\<rparr>)]"
| "call_meaning g (SetIndexSizeCall n) = [says 2 (new_command\<lparr>kind := SetIndexType, index_size := lo32 n\<rparr>)]"
| "call_meaning g (DrawIndexAutoCall n m) =
     [says 7 (new_command\<lparr>kind := DrawIndexAuto, index_count := lo32 n, di_modifier := m\<rparr>)]"
| "call_meaning g (DrawIndexCall n a m) =
     [says 7 (new_command\<lparr>kind := DrawIndex, index_count := lo32 n, di_index_addr := a, di_modifier := m,
                          di_valid := True\<rparr>)]"
| "call_meaning g (SetIndexBufferCall a) = [says 3 (new_command\<lparr>kind := SetIndexBase, ib_addr := a\<rparr>)]"
| "call_meaning g (SetIndexCountCall n) = [says 2 (new_command\<lparr>kind := SetIndexCount, index_count := lo32 n\<rparr>)]"
| "call_meaning g (DrawIndexOffsetCall s n) =
     [says 3 (new_command\<lparr>kind := DrawIndexOffset, index_offset := lo32 s, index_count := lo32 n\<rparr>)]"
| "call_meaning g (DispatchCall x y z m) =
     [says 6 (new_command\<lparr>kind := DispatchDirect, threads_x := lo32 x, threads_y := lo32 y,
                          threads_z := lo32 z, dispatch_modifier := m\<rparr>)]"
| "call_meaning g (SetBaseIndirectArgsCall t a) =
     (if t \<le> 1
      then [says 4 (new_command\<lparr>kind := SetBaseIndirectArgs, indirect_shader_type := lo32 t, indirect_base := a\<rparr>)]
      else [])"
| "call_meaning g StallCall = [says 2 (new_command\<lparr>kind := StallCommandBufferParser\<rparr>)]"
| "call_meaning g (DrawIndexIndirectCall n m) =
     [says 4 (new_command\<lparr>kind := DrawIndexIndirect, indirect_offset := lo32 n, di_modifier := m\<rparr>)]"
| "call_meaning g (DispatchIndirectCall n m) =
     [says 4 (new_command\<lparr>kind := DispatchIndirect, indirect_offset := lo32 n, dispatch_modifier := m\<rparr>)]"
| "call_meaning g (AcbDispatchIndirectCall a m) =
     [says 5 (new_command\<lparr>kind := DispatchIndirect, indirect_address := a, indirect_address_absolute := True,
                          dispatch_modifier := m\<rparr>)]"
| "call_meaning g (SetRegisterCall cls reg) = [sets_registers cls (lo32 reg) [hi32 reg]]"
| "call_meaning g (SetRegsIndirectCall cls regs n) =
     [says 4 (new_command\<lparr>kind := SetRegsIndirect, reg_class := cls, num_regs := lo32 n, regs_vaddr := regs\<rparr>)]"
| "call_meaning g (SetShRangeCall off vs n) =
     (let k = unat (lo32 n)
      in if k = 0 then []
         else says 2 new_command
              # (if k \<le> 0x3FFF then [sets_registers Sh (lo32 off) (array_or_zeros vs k)] else []))"
| "call_meaning g (SetShRegistersCall rs n) =
     (case rs of
        None \<Rightarrow> []
      | Some rs \<Rightarrow> if unat (lo32 n) \<le> 4096
                   then map (\<lambda>run. sets_registers Sh (fst (hd run)) (map snd run)) (sh_runs (take (unat (lo32 n)) rs))
                   else [])"
| "call_meaning g (WaitSafeCall h b) = [says 7 (new_command\<lparr>kind := WaitFlipDone\<rparr>)]"
| "call_meaning g (JumpCall a n) =
     [says 5 (new_command\<lparr>kind := Jump, jump_addr := a, jump_dwords := lo32 n, jump_valid := True\<rparr>)]"
| "call_meaning g (SetPredicationCall opn a) =
     [says 4 (new_command\<lparr>kind := SetPredication, pred_addr := a, pred_op := lo32 opn, pred_valid := True\<rparr>)]"
| "call_meaning g (DmaDataCall a1 a2 a3 a4 a6 a7 a8) =
     [says 7 (new_command\<lparr>kind := DmaData, dd_dst := a4, dd_src := (if a6 = 2 then a7 else a1),
                dd_bytes := (if a8 \<le> 0x10000000 then lo32 a8 else 0),
                dd_sels := lo32 ((a2 AND 0xff) OR push_bit 8 (a3 AND 0xff))
                           OR (if a6 = 2 then kDmaDataAddressSource else 0), dd_valid := True\<rparr>)]"
| "call_meaning g (AcbDmaDataCall a1 a2 a3 a6 a7) =
     [says 7 (new_command\<lparr>kind := DmaData, dd_dst := a3, dd_src := a6,
                dd_bytes := (if a7 > 0x10000000 then 0 else lo32 a7),
                dd_sels := lo32 ((a1 AND 0xff) OR push_bit 8 (a2 AND 0xff)), dd_valid := True\<rparr>)]"
| "call_meaning g (EventWriteCall e a) =
     [says 4 (new_command\<lparr>kind := EventWrite, event_type := lo32 e AND 0xff, event_addr := a\<rparr>)]"
| "call_meaning g (AcquireMemCall a b) = [says 8 (new_command\<lparr>kind := AcquireMem\<rparr>)]"
| "call_meaning g (ReleaseMemCall a1 a5 a6 a7) =
     [says 8 (new_command\<lparr>kind := ReleaseMem, rel_addr := a5, rel_data_sel := lo32 a6, rel_value := a7,
                rel_value_valid := True,
                rel_build_pre := push_bit 32 (drop_bit 32 (label_build_pre g a5 (if a6 = 1 then 4 else 8))),
                rel_build_pre_valid := True\<rparr>)]"
| "call_meaning g (WriteDataCall a1 a3 src n) =
     (if lo32 n \<le> 0x3FFC
      then [(unat (lo32 n) + 5,
             Some (new_command\<lparr>kind := WriteData, wd_addr := a3, wd_declared_num := lo32 n, wd_num := lo32 n,
                               wd_valid := True\<rparr>, array_or_zeros src (unat (lo32 n))))]
      else [])"
| "call_meaning g (WaitRegMemCall a2 a5 a6 a7 a8) =
     [says 9 (new_command\<lparr>kind := WaitRegMem, wm_addr := a5, wm_mask := a7, wm_ref := a6, wm_func := lo32 a2,
                          wm_valid := True\<rparr>)]"
| "call_meaning g (SetFlipCall h b m a) =
     [says 6 (new_command\<lparr>kind := Flip, flip_handle := lo32 h, flip_bufidx := sint (lo32 b), flip_mode := lo32 m,
                          flip_arg := sint a, flip_valid := True\<rparr>)]"

text \<open>The size handler that is registered for a builder, in bytes.\<close>

fun get_size :: "agc_call \<Rightarrow> nat option" where
  "get_size (JumpCall a n) = Some agc_dcb_jump_get_size"
| "get_size (AcquireMemCall a b) = Some agc_dcb_acquire_mem_get_size"
| "get_size (ReleaseMemCall a1 a5 a6 a7) = Some agc_cb_eop_action_get_size"
| "get_size (DrawIndexCall n a m) = Some agc_draw_index_get_size"
| "get_size (DrawIndexAutoCall n m) = Some agc_draw_index_auto_get_size"
| "get_size (DrawIndexOffsetCall s n) = Some agc_draw_index_offset_get_size"
| "get_size (DrawIndexIndirectCall n m) = Some agc_draw_index_indirect_get_size"
| "get_size (DispatchCall x y z m) = Some agc_dispatch_get_size"
| "get_size (DispatchIndirectCall n m) = Some agc_dispatch_indirect_get_size"
| "get_size (AcbDispatchIndirectCall a m) = Some agc_acb_dispatch_indirect_get_size"
| "get_size (DmaDataCall a1 a2 a3 a4 a6 a7 a8) = Some agc_dma_data_get_size"
| "get_size (AcbDmaDataCall a1 a2 a3 a6 a7) = Some agc_dma_data_get_size"
| "get_size (EventWriteCall e a) = Some agc_event_write_get_size"
| "get_size (SetIndexBufferCall a) = Some agc_set_index_buffer_get_size"
| "get_size (SetIndexCountCall n) = Some agc_set_index_count_get_size"
| "get_size (SetIndexSizeCall n) = Some agc_set_index_size_get_size"
| "get_size (SetNumInstancesCall n) = Some agc_set_num_instances_get_size"
| "get_size StallCall = Some agc_stall_cb_parser_get_size"
| "get_size (SetRegisterCall cls reg) = Some agc_set_register_direct_get_size"
| "get_size (SetRegsIndirectCall cls regs n) = Some agc_set_regs_indirect_get_size"
| "get_size (NopCall n) = Some (agc_cb_nop_get_size n)"
| "get_size _ = None"

end
