(* ===== verification/Pm4RoundTrip.thy ===== *)
theory Pm4RoundTrip
  imports Pm4Calls
begin

text \<open>
  Command buffers round trip: the ring as the words appended to it, each builder as an appender of
  packets that mean what its call means, and the theorem on sequences of calls.
\<close>

subsection \<open>The ring\<close>

text \<open>A ring with its cursors in order; \<open>room\<close> is what may still be allocated.\<close>

definition ring_ok :: "dcb \<Rightarrow> bool" where
  "ring_ok d \<longleftrightarrow> cursor_up d \<le> cursor_down d \<and> cursor_down d \<le> length (dcb_mem d) \<and> cursor_down d < 2 ^ 32"

definition written :: "dcb \<Rightarrow> dword list" where
  "written d = take (cursor_up d) (dcb_mem d)"

definition append_words :: "dcb \<Rightarrow> dword list \<Rightarrow> dcb" where
  "append_words d ws =
     d\<lparr>dcb_mem := take (cursor_up d) (dcb_mem d) @ ws @ drop (cursor_up d + length ws) (dcb_mem d),
       cursor_up := cursor_up d + length ws\<rparr>"

lemma available_dw: "ring_ok d \<Longrightarrow> available_dw d = cursor_down d - cursor_up d - reserved_dw d"
  by (simp add: available_dw_def ring_ok_def u32_sub_id Let_def)

lemma append_words_Nil [simp]: "append_words d [] = d"
  by (simp add: append_words_def)

lemma append_words_append:
  "ring_ok d \<Longrightarrow> length us \<le> available_dw d \<Longrightarrow> append_words (append_words d us) ws = append_words d (us @ ws)"
  by (auto simp: append_words_def available_dw ring_ok_def ac_simps)

lemma ring_ok_append: "ring_ok d \<Longrightarrow> length ws \<le> available_dw d \<Longrightarrow> ring_ok (append_words d ws)"
  by (auto simp: available_dw) (auto simp: append_words_def ring_ok_def)

lemma available_append:
  "ring_ok d \<Longrightarrow> length ws \<le> available_dw d \<Longrightarrow> available_dw (append_words d ws) = available_dw d - length ws"
  using ring_ok_append[of d ws] by (simp add: available_dw) (simp add: append_words_def)

lemma written_append:
  "ring_ok d \<Longrightarrow> written (append_words d ws) = written d @ ws"
  by (simp add: written_def append_words_def ring_ok_def)

lemma cursor_append [simp]: "cursor_up (append_words d ws) = cursor_up d + length ws"
  by (simp add: append_words_def)

text \<open>What a packet does to a ring without a callback.\<close>

definition appended :: "dcb \<Rightarrow> dword list \<Rightarrow> dcb \<times> nat option" where
  "appended d ws =
     (if length ws \<le> available_dw d then (append_words d ws, Some (cursor_up d)) else (d, None))"

lemma allocate_none:
  "0 < n \<Longrightarrow> allocate_dw None n d
   = (if n \<le> available_dw d then (d\<lparr>cursor_up := cursor_up d + n\<rparr>, Some (cursor_up d)) else (d, None))"
  by (simp add: allocate_dw_def)

lemma packet_appends:
  assumes d: "ring_ok d" and n: "2 \<le> n" "n \<le> 0x4001" "n = Suc (length body)"
    and ws: "ws = Some body \<or> available_dw d < n"
  shows "packet_from None d n opc r ws = Some (appended d (PM4 (word_of_nat n) opc r # body))"
proof (cases "n \<le> available_dw d")
  case True
  then have "cursor_up d + n \<le> length (dcb_mem d)"
    using d n by (auto simp: available_dw ring_ok_def)
  then show ?thesis
    using True d n ws
    by (cases d) (auto simp: ac_simps packet_from_def begin_packet_def allocate_none appended_def append_words_def write_at_def
        min_def)
next
  case False
  then show ?thesis
    using n by (simp add: packet_from_def begin_packet_def allocate_none appended_def)
qed

lemma packet_rejected: "n < 2 \<or> 0x4001 < n \<Longrightarrow> packet_from full d n opc r ws = Some (d, None)"
  by (simp add: packet_from_def begin_packet_def)

subsection \<open>Builders as appenders\<close>

text \<open>The packets of a call that fit: a builder stops at the first that does not.\<close>

fun fitting :: "nat \<Rightarrow> (nat \<times> 'm) list \<Rightarrow> (nat \<times> 'm) list" where
  "fitting room [] = []"
| "fitting room (p # ps) = (if fst p \<le> room then p # fitting (room - fst p) ps else [])"

definition packet_for :: "dword list \<Rightarrow> nat \<times> meaning \<Rightarrow> bool" where
  "packet_for ws p \<longleftrightarrow> length ws = fst p \<and> packet_decodes ws (snd p)"

definition emits :: "dcb \<Rightarrow> built \<Rightarrow> (nat \<times> meaning) list \<Rightarrow> bool" where
  "emits d r ps \<longleftrightarrow>
     (\<exists>wss c. r = Some (append_words d (concat wss), c) \<and> length (concat wss) \<le> available_dw d
        \<and> list_all2 packet_for wss (fitting (available_dw d) ps))"

lemma emits_nothing: "emits d (Some (d, c)) []"
  unfolding emits_def by (rule exI[of _ "[]"]) simp

lemma emits_appended: "packet_for ws p \<Longrightarrow> emits d (Some (appended d ws)) [p]"
  unfolding emits_def
  by (rule exI[of _ "if length ws \<le> available_dw d then [ws] else []"]) (auto simp: appended_def packet_for_def)

lemma emits_packet:
  assumes d: "ring_ok d" and n: "n = Suc (length body)" "1 \<le> length body" "length body \<le> 0x4000"
    and opc: "opc AND 0xff = opc" "r AND 0x3f = r" and ws: "ws = Some body \<or> available_dw d < n"
    and body: "\<And>buf p. read_at buf p (length body) = Some body \<Longrightarrow>
      \<exists>c. decode_op buf p (length body) (packet_command (Suc (length body)) opc r p) = Some c \<and> operands buf c = m"
  shows "emits d (packet_from None d n opc r ws) [(n, Some m)]"
proof -
  have "packet_decodes (PM4 (word_of_nat n) opc r # body) (Some m)"
    unfolding n(1) by (rule packet_decodesI[OF n(2,3) opc body])
  then have "packet_for (PM4 (word_of_nat n) opc r # body) (n, Some m)"
    by (simp add: packet_for_def n(1))
  moreover have "packet_from None d n opc r ws = Some (appended d (PM4 (word_of_nat n) opc r # body))"
    using n by (intro packet_appends[OF d _ _ _ ws]) auto
  ultimately show ?thesis by (simp add: emits_appended)
qed

lemma emits_words:
  assumes "ring_ok d" "n = Suc (length body)" "n' = n" "1 \<le> length body" "length body \<le> 0x4000"
    "opc AND 0xff = opc" "r AND 0x3f = r"
    "\<And>buf p. read_at buf p (length body) = Some body \<Longrightarrow>
      \<exists>c. decode_op buf p (length body) (packet_command (Suc (length body)) opc r p) = Some c \<and> operands buf c = m"
  shows "emits d (packet None d n opc r body) [(n', Some m)]"
  unfolding assms(3) by (rule emits_packet[OF assms(1,2,4-7) disjI1[OF refl] assms(8)])

lemmas builder_defs =
  agc_dcb_reset_queue_def agc_dcb_pop_marker_def agc_dcb_set_num_instances_def agc_dcb_set_index_size_def
  agc_dcb_draw_index_auto_def agc_dcb_draw_index_def agc_dcb_set_index_buffer_def
  agc_dcb_set_index_count_def agc_dcb_draw_index_offset_def agc_cb_dispatch_def
  agc_dcb_set_base_indirect_args_def agc_dcb_stall_command_buffer_parser_def
  agc_dcb_draw_index_indirect_def agc_dcb_dispatch_indirect_def agc_acb_dispatch_indirect_def
  set_register_direct_def set_regs_indirect_def agc_dcb_wait_safe_for_rendering_def agc_dcb_jump_def
  agc_dcb_set_predication_def agc_dcb_dma_data_def agc_acb_dma_data_def agc_dcb_event_write_def
  agc_dcb_acquire_mem_def agc_cb_release_mem_def agc_dcb_wait_reg_mem_def agc_dcb_set_flip_def

text \<open>The decoder of each opcode, and of each sub-operation of \<open>IT_NOP\<close>.\<close>

lemma op_packet_command [simp]:
  "op (packet_command n opc r p) = opc" "sub_op (packet_command n opc r p) = r"
  by (simp_all add: packet_command_def)

lemma decode_op_simps:
  "op c = IT_INDEX_TYPE \<Longrightarrow> decode_op buf p npl c =
     on (npl \<ge> 1) (\<lambda>c. do { n \<leftarrow> dw buf p; Some (c\<lparr>index_size := n\<rparr>) }) (c\<lparr>kind := SetIndexType\<rparr>)"
  "op c = IT_NUM_INSTANCES \<Longrightarrow> decode_op buf p npl c =
     on (npl \<ge> 1) (\<lambda>c. do { n \<leftarrow> dw buf p; Some (c\<lparr>instance_count := n\<rparr>) }) (c\<lparr>kind := SetNumInstances\<rparr>)"
  "op c = IT_EVENT_WRITE \<Longrightarrow> decode_op buf p npl c =
     do { c \<leftarrow> on (npl \<ge> 1) (\<lambda>c. do { e \<leftarrow> dw buf p; Some (c\<lparr>event_type := e AND 0xff\<rparr>) }) (c\<lparr>kind := EventWrite\<rparr>);
          on (npl \<ge> 3) (\<lambda>c. do { a \<leftarrow> lo_hi buf (p + 1); Some (c\<lparr>event_addr := a\<rparr>) }) c }"
  "op c = IT_SET_CONTEXT_REG \<Longrightarrow> decode_op buf p npl c = decode_set_reg buf p npl c"
  "op c = IT_SET_SH_REG \<Longrightarrow> decode_op buf p npl c = decode_set_reg buf p npl c"
  "op c = IT_SET_UCONFIG_REG \<Longrightarrow> decode_op buf p npl c = decode_set_reg buf p npl c"
  "op c = IT_NOP \<Longrightarrow> decode_op buf p npl c = decode_nop buf p npl c"
  by (simp_all add: decode_op_def it_opcodes)

lemma decode_nop_simps:
  "sub_op c = 0 \<Longrightarrow> decode_nop buf p npl c = Some (c\<lparr>kind := Unknown\<rparr>)"
  "sub_op c = R_DRAW_RESET \<Longrightarrow> decode_nop buf p npl c = Some (c\<lparr>kind := DrawReset\<rparr>)"
  "sub_op c = R_WAIT_FLIP_DONE \<Longrightarrow> decode_nop buf p npl c = Some (c\<lparr>kind := WaitFlipDone\<rparr>)"
  "sub_op c = R_PUSH_MARKER \<Longrightarrow> decode_nop buf p npl c =
     Some (c\<lparr>kind := PushMarker, marker_label := (if npl \<noteq> 0 then LabelAt p else EmptyLabel)\<rparr>)"
  "sub_op c = R_POP_MARKER \<Longrightarrow> decode_nop buf p npl c = Some (c\<lparr>kind := PopMarker\<rparr>)"
  "sub_op c = R_ACQUIRE_MEM \<Longrightarrow> decode_nop buf p npl c = Some (c\<lparr>kind := AcquireMem\<rparr>)"
  "sub_op c = R_WRITE_DATA \<Longrightarrow> decode_nop buf p npl c = decode_write_data buf p npl c"
  "sub_op c = R_WAIT_MEM_64 \<Longrightarrow> decode_nop buf p npl c = decode_wait_reg_mem buf p npl c"
  "sub_op c = R_RELEASE_MEM \<Longrightarrow> decode_nop buf p npl c = decode_release_mem buf p npl c"
  "sub_op c = R_FLIP \<Longrightarrow> decode_nop buf p npl c = decode_flip buf p npl c"
  "sub_op c = R_DRAW_INDEX \<Longrightarrow> decode_nop buf p npl c = decode_draw_index buf p npl c"
  "sub_op c = R_DRAW_INDEX_AUTO \<Longrightarrow> decode_nop buf p npl c =
     decode_indirect_work (\<lambda>c n. c\<lparr>index_count := n\<rparr>) (\<lambda>c m. c\<lparr>di_modifier := m\<rparr>) buf p npl (c\<lparr>kind := DrawIndexAuto\<rparr>)"
  "sub_op c = R_DISPATCH_DIRECT \<Longrightarrow> decode_nop buf p npl c = decode_dispatch_direct buf p npl c"
  "sub_op c = R_SET_BASE_INDIRECT_ARGS \<Longrightarrow> decode_nop buf p npl c =
     on (npl \<ge> 3) (\<lambda>c. do { t \<leftarrow> dw buf p; b \<leftarrow> lo_hi buf (p + 1);
       Some (c\<lparr>indirect_shader_type := t, indirect_base := b\<rparr>) }) (c\<lparr>kind := SetBaseIndirectArgs\<rparr>)"
  "sub_op c = R_STALL_COMMAND_BUFFER_PARSER \<Longrightarrow>
     decode_nop buf p npl c = Some (c\<lparr>kind := StallCommandBufferParser\<rparr>)"
  "sub_op c = R_DRAW_INDEX_INDIRECT \<Longrightarrow> decode_nop buf p npl c =
     decode_indirect_work (\<lambda>c n. c\<lparr>indirect_offset := n\<rparr>) (\<lambda>c m. c\<lparr>di_modifier := m\<rparr>) buf p npl (c\<lparr>kind := DrawIndexIndirect\<rparr>)"
  "sub_op c = R_DISPATCH_INDIRECT \<Longrightarrow> decode_nop buf p npl c =
     decode_indirect_work (\<lambda>c n. c\<lparr>indirect_offset := n\<rparr>) (\<lambda>c m. c\<lparr>dispatch_modifier := m\<rparr>) buf p npl (c\<lparr>kind := DispatchIndirect\<rparr>)"
  "sub_op c = R_DISPATCH_INDIRECT_ADDR \<Longrightarrow> decode_nop buf p npl c = decode_dispatch_addr buf p npl c"
  "sub_op c = R_INDEX_BASE \<Longrightarrow> decode_nop buf p npl c =
     on (npl \<ge> 2) (\<lambda>c. do { a \<leftarrow> lo_hi buf p; Some (c\<lparr>ib_addr := a\<rparr>) }) (c\<lparr>kind := SetIndexBase\<rparr>)"
  "sub_op c = R_INDEX_COUNT \<Longrightarrow> decode_nop buf p npl c =
     on (npl \<ge> 1) (\<lambda>c. do { n \<leftarrow> dw buf p; Some (c\<lparr>index_count := n\<rparr>) }) (c\<lparr>kind := SetIndexCount\<rparr>)"
  "sub_op c = R_DRAW_INDEX_OFFSET \<Longrightarrow> decode_nop buf p npl c =
     do { c \<leftarrow> on (npl \<ge> 1) (\<lambda>c. do { n \<leftarrow> dw buf p; Some (c\<lparr>index_offset := n\<rparr>) }) (c\<lparr>kind := DrawIndexOffset\<rparr>);
          on (npl \<ge> 2) (\<lambda>c. do { n \<leftarrow> dw buf (p + 1); Some (c\<lparr>index_count := n\<rparr>) }) c }"
  "sub_op c = R_JUMP \<Longrightarrow> decode_nop buf p npl c = decode_jump buf p npl c"
  "sub_op c = R_DMA_DATA \<Longrightarrow> decode_nop buf p npl c = decode_dma_data buf p npl c"
  "sub_op c = R_SET_PRED \<Longrightarrow> decode_nop buf p npl c = decode_set_pred buf p npl c"
  "sub_op c = R_CX_REGS_INDIRECT \<Longrightarrow> decode_nop buf p npl c = decode_regs_indirect buf p npl c"
  "sub_op c = R_SH_REGS_INDIRECT \<Longrightarrow> decode_nop buf p npl c = decode_regs_indirect buf p npl c"
  "sub_op c = R_UC_REGS_INDIRECT \<Longrightarrow> decode_nop buf p npl c = decode_regs_indirect buf p npl c"
  by (simp_all add: decode_nop_def r_opcodes)

lemmas decode_simps =
  decode_op_simps decode_nop_simps decode_set_reg_def decode_write_data_def decode_release_mem_def
  decode_wait_reg_mem_def decode_flip_def decode_draw_index_def decode_dispatch_direct_def
  decode_dma_data_def decode_jump_def decode_set_pred_def decode_regs_indirect_def
  decode_indirect_work_def decode_dispatch_addr_def on_def lo_hi_join

lemma opcode_fields [simp]:
  "IT_NOP AND 0xff = IT_NOP" "IT_INDEX_TYPE AND 0xff = IT_INDEX_TYPE" "IT_NUM_INSTANCES AND 0xff = IT_NUM_INSTANCES"
  "IT_EVENT_WRITE AND 0xff = IT_EVENT_WRITE" "IT_SET_CONTEXT_REG AND 0xff = IT_SET_CONTEXT_REG"
  "IT_SET_SH_REG AND 0xff = IT_SET_SH_REG" "IT_SET_UCONFIG_REG AND 0xff = IT_SET_UCONFIG_REG"
  by (simp_all add: it_opcodes)

lemma sub_op_fields [simp]:
  "R_DRAW_INDEX AND 0x3f = R_DRAW_INDEX"
  "R_DRAW_INDEX_AUTO AND 0x3f = R_DRAW_INDEX_AUTO"
  "R_DRAW_RESET AND 0x3f = R_DRAW_RESET"
  "R_WAIT_FLIP_DONE AND 0x3f = R_WAIT_FLIP_DONE"
  "R_PUSH_MARKER AND 0x3f = R_PUSH_MARKER"
  "R_POP_MARKER AND 0x3f = R_POP_MARKER"
  "R_SH_REGS_INDIRECT AND 0x3f = R_SH_REGS_INDIRECT"
  "R_CX_REGS_INDIRECT AND 0x3f = R_CX_REGS_INDIRECT"
  "R_UC_REGS_INDIRECT AND 0x3f = R_UC_REGS_INDIRECT"
  "R_ACQUIRE_MEM AND 0x3f = R_ACQUIRE_MEM"
  "R_WRITE_DATA AND 0x3f = R_WRITE_DATA"
  "R_WAIT_MEM_64 AND 0x3f = R_WAIT_MEM_64"
  "R_FLIP AND 0x3f = R_FLIP"
  "R_RELEASE_MEM AND 0x3f = R_RELEASE_MEM"
  "R_DMA_DATA AND 0x3f = R_DMA_DATA"
  "R_DISPATCH_DIRECT AND 0x3f = R_DISPATCH_DIRECT"
  "R_INDEX_BASE AND 0x3f = R_INDEX_BASE"
  "R_INDEX_COUNT AND 0x3f = R_INDEX_COUNT"
  "R_DRAW_INDEX_OFFSET AND 0x3f = R_DRAW_INDEX_OFFSET"
  "R_JUMP AND 0x3f = R_JUMP"
  "R_SET_PRED AND 0x3f = R_SET_PRED"
  "R_SET_BASE_INDIRECT_ARGS AND 0x3f = R_SET_BASE_INDIRECT_ARGS"
  "R_STALL_COMMAND_BUFFER_PARSER AND 0x3f = R_STALL_COMMAND_BUFFER_PARSER"
  "R_DRAW_INDEX_INDIRECT AND 0x3f = R_DRAW_INDEX_INDIRECT"
  "R_DISPATCH_INDIRECT AND 0x3f = R_DISPATCH_INDIRECT"
  "R_DISPATCH_INDIRECT_ADDR AND 0x3f = R_DISPATCH_INDIRECT_ADDR"
  by (simp_all add: r_opcodes)

lemma low_byte [simp]: "lo32 (a AND 0xff) AND 0xff = lo32 a AND 0xff"
proof -
  have "lo32 (a AND mask 8) AND mask 8 = lo32 a AND mask 8"
    by (rule bit_word_eqI) (auto simp: bit_simps)
  then show ?thesis by (simp add: mask_eq_exp_minus_1)
qed

lemma high_half [simp]: "push_bit 32 (ucast (hi32 a)) = push_bit 32 (drop_bit 32 a)"
  by (rule bit_word_eqI) (auto simp: bit_simps)

lemma read_at_1: "read_at buf i (Suc 0) = map_option (\<lambda>w. [w]) (dw buf i)"
  by (auto simp: read_at_def dw_def take_Suc_conv_app_nth)

lemmas operand_simps = operands_def packet_command_def new_command_def words_at_def read_at_1 it_opcodes r_opcodes

lemma small_numerals:
  "(2 :: nat) = Suc (Suc 0)" "(3 :: nat) = Suc (Suc (Suc 0))" "(4 :: nat) = Suc (Suc (Suc (Suc 0)))"
  "(5 :: nat) = Suc (Suc (Suc (Suc (Suc 0))))" "(6 :: nat) = Suc (Suc (Suc (Suc (Suc (Suc 0)))))"
  "(7 :: nat) = Suc (Suc (Suc (Suc (Suc (Suc (Suc 0))))))"
  "(8 :: nat) = Suc (Suc (Suc (Suc (Suc (Suc (Suc (Suc 0)))))))"
  by simp_all

lemma emits_draws:
  "ring_ok d \<Longrightarrow> emits d (agc_build None g d (DrawIndexAutoCall n m)) (call_meaning g (DrawIndexAutoCall n m))"
  "ring_ok d \<Longrightarrow> emits d (agc_build None g d (DrawIndexCall n a m)) (call_meaning g (DrawIndexCall n a m))"
  "ring_ok d \<Longrightarrow> emits d (agc_build None g d (SetIndexBufferCall a)) (call_meaning g (SetIndexBufferCall a))"
  "ring_ok d \<Longrightarrow> emits d (agc_build None g d (SetIndexCountCall n)) (call_meaning g (SetIndexCountCall n))"
  "ring_ok d \<Longrightarrow> emits d (agc_build None g d (DrawIndexOffsetCall n m)) (call_meaning g (DrawIndexOffsetCall n m))"
  "ring_ok d \<Longrightarrow> emits d (agc_build None g d (SetIndexSizeCall n)) (call_meaning g (SetIndexSizeCall n))"
  "ring_ok d \<Longrightarrow> emits d (agc_build None g d (SetNumInstancesCall n)) (call_meaning g (SetNumInstancesCall n))"
  "ring_ok d \<Longrightarrow> emits d (agc_build None g d (DrawIndexIndirectCall n m)) (call_meaning g (DrawIndexIndirectCall n m))"
  unfolding agc_build.simps call_meaning.simps builder_defs says_def packet_sizes
  by (rule emits_words; (simp add: decode_simps small_numerals)?; simp add: operand_simps)+

lemma emits_dispatches:
  "ring_ok d \<Longrightarrow> emits d (agc_build None g d (DispatchCall x y z m)) (call_meaning g (DispatchCall x y z m))"
  "ring_ok d \<Longrightarrow> emits d (agc_build None g d (DispatchIndirectCall n m)) (call_meaning g (DispatchIndirectCall n m))"
  "ring_ok d \<Longrightarrow> emits d (agc_build None g d (AcbDispatchIndirectCall a m)) (call_meaning g (AcbDispatchIndirectCall a m))"
  unfolding agc_build.simps call_meaning.simps builder_defs says_def packet_sizes
  by (rule emits_words; (simp add: decode_simps small_numerals)?; simp add: operand_simps)+

lemma emits_markers:
  "ring_ok d \<Longrightarrow> emits d (agc_build None g d ResetQueueCall) (call_meaning g ResetQueueCall)"
  "ring_ok d \<Longrightarrow> emits d (agc_build None g d PopMarkerCall) (call_meaning g PopMarkerCall)"
  "ring_ok d \<Longrightarrow> emits d (agc_build None g d StallCall) (call_meaning g StallCall)"
  "ring_ok d \<Longrightarrow> emits d (agc_build None g d (WaitSafeCall h b)) (call_meaning g (WaitSafeCall h b))"
  "ring_ok d \<Longrightarrow> emits d (agc_build None g d (AcquireMemCall a b)) (call_meaning g (AcquireMemCall a b))"
  "ring_ok d \<Longrightarrow> emits d (agc_build None g d (EventWriteCall a b)) (call_meaning g (EventWriteCall a b))"
  unfolding agc_build.simps call_meaning.simps builder_defs says_def packet_sizes
  by (rule emits_words; (simp add: decode_simps small_numerals)?; simp add: operand_simps)+

lemma emits_synchronisation:
  "ring_ok d \<Longrightarrow> emits d (agc_build None g d (JumpCall a n)) (call_meaning g (JumpCall a n))"
  "ring_ok d \<Longrightarrow> emits d (agc_build None g d (SetPredicationCall n a)) (call_meaning g (SetPredicationCall n a))"
  "ring_ok d \<Longrightarrow> emits d (agc_build None g d (WaitRegMemCall a2 a5 a6 a7 a8)) (call_meaning g (WaitRegMemCall a2 a5 a6 a7 a8))"
  "ring_ok d \<Longrightarrow> emits d (agc_build None g d (SetFlipCall h b m a)) (call_meaning g (SetFlipCall h b m a))"
  "ring_ok d \<Longrightarrow> emits d (agc_build None g d (ReleaseMemCall a1 a5 a6 a7)) (call_meaning g (ReleaseMemCall a1 a5 a6 a7))"
  unfolding agc_build.simps call_meaning.simps builder_defs says_def packet_sizes Let_def
  by (rule emits_words; (simp add: decode_simps small_numerals)?; simp add: operand_simps)+

lemma emits_dma:
  "ring_ok d \<Longrightarrow> emits d (agc_build None g d (AcbDmaDataCall a1 a2 a3 a6 a7)) (call_meaning g (AcbDmaDataCall a1 a2 a3 a6 a7))"
  "ring_ok d \<Longrightarrow> emits d (agc_build None g d (DmaDataCall a1 a2 a3 a4 a6 a7 a8)) (call_meaning g (DmaDataCall a1 a2 a3 a4 a6 a7 a8))"
  unfolding agc_build.simps call_meaning.simps builder_defs says_def packet_sizes Let_def
  by (rule emits_words; (simp add: decode_simps small_numerals split del: if_split)?; simp add: operand_simps)+

lemma emits_registers:
  "ring_ok d \<Longrightarrow> emits d (agc_build None g d (SetRegisterCall cls reg)) (call_meaning g (SetRegisterCall cls reg))"
  "ring_ok d \<Longrightarrow> emits d (agc_build None g d (SetRegsIndirectCall cls regs n)) (call_meaning g (SetRegsIndirectCall cls regs n))"
  "ring_ok d \<Longrightarrow> emits d (agc_build None g d (SetBaseIndirectArgsCall t a)) (call_meaning g (SetBaseIndirectArgsCall t a))"
  unfolding agc_build.simps call_meaning.simps builder_defs says_def packet_sizes sets_registers_def
  subgoal
    by (cases cls; simp; rule emits_words; (simp add: decode_simps small_numerals)?; simp add: operand_simps)
  subgoal
    by (cases cls; simp; rule emits_words; (simp add: decode_simps small_numerals)?; simp add: operand_simps)
  subgoal
    by (auto simp: not_less emits_nothing intro!: emits_words; (simp add: decode_simps small_numerals)?; simp add: operand_simps)
  done

subsection \<open>Builders of packets of any length\<close>

lemma unat_small: "n < 2 ^ 32 \<Longrightarrow> unat (word_of_nat n :: dword) = n"
  by (simp add: unat_of_nat)

lemma emits_filler: "ring_ok d \<Longrightarrow> emits d (agc_build None g d Type2NopCall) (call_meaning g Type2NopCall)"
proof -
  assume d: "ring_ok d"
  have "agc_dcb_type2_nop None d = Some (appended d [0x80000000])"
  proof (cases "1 \<le> available_dw d")
    case True
    then have "cursor_up d < length (dcb_mem d)"
      using d by (auto simp: available_dw ring_ok_def)
    then show ?thesis
      using True by (cases d) (simp add: agc_dcb_type2_nop_def allocate_none appended_def append_words_def write_at_def)
  next
    case False
    then show ?thesis by (simp add: agc_dcb_type2_nop_def allocate_none appended_def)
  qed
  moreover have "packet_for [0x80000000] (1, None)"
    by (simp add: packet_for_def filler_decodes)
  ultimately show ?thesis by (simp add: emits_appended del: One_nat_def)
qed

lemma emits_nop: "ring_ok d \<Longrightarrow> emits d (agc_build None g d (NopCall n)) (call_meaning g (NopCall n))"
proof -
  assume d: "ring_ok d"
  let ?k = "unat (lo32 n)"
  consider "?k = 0" | "?k = 1" | "2 \<le> ?k" "?k \<le> 0x4001" | "0x4001 < ?k" by linarith
  then show ?thesis
  proof cases
    case 3
    have "emits d (packet None d ?k IT_NOP 0 (replicate (?k - 1) 0)) [(?k, Some (new_command, []))]"
      using d 3 by (intro emits_words) (simp_all add: decode_simps operand_simps)
    then show ?thesis using 3 by (simp add: agc_cb_nop_def says_def Let_def)
  next
    case 4
    then show ?thesis by (simp add: agc_cb_nop_def Let_def packet_rejected emits_nothing)
  qed (use d emits_filler[OF d, of g] in \<open>simp_all add: agc_cb_nop_def Let_def emits_nothing\<close>)
qed

lemma length_pack_dwords: "length (pack_dwords bs) = (length bs + 3) div 4"
proof (induction bs rule: pack_dwords.induct)
  case (1 bs)
  show ?case
  proof (cases "length bs \<le> 4")
    case True
    have "(length bs + 3) div 4 = 1" if "bs \<noteq> []"
      using that True by (intro div_nat_eqI) (cases bs; simp)+
    then show ?thesis
      using True by (cases "bs = []") (simp_all add: pack_dwords.simps[of bs] pack_dwords.simps[of "[]"])
  next
    case False
    then have "bs \<noteq> []" by auto
    have "(length bs + 3) div 4 = (length bs - 4 + 3 + 4) div 4" using False by simp
    also have "\<dots> = Suc ((length bs - 4 + 3) div 4)" by simp
    finally show ?thesis using 1[OF \<open>bs \<noteq> []\<close>] \<open>bs \<noteq> []\<close> by (simp add: pack_dwords.simps[of bs])
  qed
qed

lemma emits_push_marker:
  "ring_ok d \<Longrightarrow> emits d (agc_build None g d (PushMarkerCall t)) (call_meaning g (PushMarkerCall t))"
proof (cases t)
  case None
  then show ?thesis by (simp add: agc_dcb_push_marker_def emits_nothing)
next
  case (Some s)
  assume d: "ring_ok d"
  let ?ws = "pack_dwords (s @ [0])"
  have len: "length ?ws = Suc (length s div 4)"
    by (simp add: length_pack_dwords)
  show ?thesis
  proof (cases "length s < 0x10000")
    case True
    then have bound: "length s div 4 < 0x4000" by simp
    have "emits d (packet None d (Suc (Suc (length s div 4))) IT_NOP R_PUSH_MARKER ?ws)
        [(length s div 4 + 2, Some (new_command\<lparr>kind := PushMarker\<rparr>, ?ws))]"
      by (rule emits_words)
        (use d bound in \<open>simp_all add: len decode_simps unat_small operand_simps del: of_nat_Suc\<close>)
    moreover have "(4 + length s) div 4 = Suc (length s div 4)"
      by simp
    ultimately show ?thesis using True Some by (simp add: agc_dcb_push_marker_def Let_def)
  next
    case False
    then show ?thesis using Some by (simp add: agc_dcb_push_marker_def emits_nothing)
  qed
qed

text \<open>Arrays as long as the call says.\<close>

fun arrays_ok :: "agc_call \<Rightarrow> bool" where
  "arrays_ok (SetShRangeCall off (Some vs) n) \<longleftrightarrow> unat (lo32 n) \<le> length vs"
| "arrays_ok (SetShRegistersCall (Some rs) n) \<longleftrightarrow> unat (lo32 n) \<le> length rs"
| "arrays_ok (WriteDataCall a1 a3 (Some src) n) \<longleftrightarrow> unat (lo32 n) \<le> length src"
| "arrays_ok _ \<longleftrightarrow> True"

lemma array_read:
  "(\<forall>xs. src = Some xs \<longrightarrow> n \<le> length xs) \<Longrightarrow>
   (case src of Some xs \<Rightarrow> read_at xs 0 n | None \<Rightarrow> Some (replicate n 0)) = Some (array_or_zeros src n)"
  "(\<forall>xs. src = Some xs \<longrightarrow> n \<le> length xs) \<Longrightarrow> length (array_or_zeros src n) = n"
  by (auto simp: read_at_def array_or_zeros_def split: option.split)

lemma emits_write_data:
  assumes d: "ring_ok d" and ok: "arrays_ok (WriteDataCall a1 a3 src n)"
  shows "emits d (agc_build None g d (WriteDataCall a1 a3 src n)) (call_meaning g (WriteDataCall a1 a3 src n))"
proof (cases "lo32 n \<le> 0x3FFC")
  case True
  let ?k = "unat (lo32 n)"
  let ?ws = "array_or_zeros src ?k"
  have k: "?k \<le> 0x3FFC" using True by (simp add: word_le_nat_alt)
  have src: "\<forall>xs. src = Some xs \<longrightarrow> ?k \<le> length xs" using ok by auto
  have "emits d (packet None d (?k + 5) IT_NOP R_WRITE_DATA (lo32 a1 # lo32 a3 # hi32 a3 # lo32 n # ?ws))
      [(?k + 5, Some (new_command\<lparr>kind := WriteData, wd_addr := a3, wd_declared_num := lo32 n, wd_num := lo32 n,
                                  wd_valid := True\<rparr>, ?ws))]"
  proof (rule emits_words)
    fix buf p
    assume at: "read_at buf p (length (lo32 a1 # lo32 a3 # hi32 a3 # lo32 n # ?ws))
      = Some (lo32 a1 # lo32 a3 # hi32 a3 # lo32 n # ?ws)"
    then have "lo_hi buf (Suc p) = Some a3" "dw buf (Suc (Suc (Suc p))) = Some (lo32 n)"
      and ws: "read_at buf (Suc (Suc (Suc (Suc p)))) ?k = Some ?ws"
      using array_read(2)[OF src] by (simp_all add: lo_hi_join)
    moreover have "word_of_nat (if 0 < ?k then ?k else 0) = lo32 n"
      by (simp add: unsigned_eq_0_iff)
    moreover have "?k = 0 \<longleftrightarrow> lo32 n = 0" by (rule unsigned_eq_0_iff)
    ultimately show "\<exists>c. decode_op buf p (length (lo32 a1 # lo32 a3 # hi32 a3 # lo32 n # ?ws))
         (packet_command (Suc (length (lo32 a1 # lo32 a3 # hi32 a3 # lo32 n # ?ws))) IT_NOP R_WRITE_DATA p) = Some c
       \<and> operands buf c = (new_command\<lparr>kind := WriteData, wd_addr := a3, wd_declared_num := lo32 n,
            wd_num := lo32 n, wd_valid := True\<rparr>, ?ws)"
      using array_read(2)[OF src]
      by (cases "lo32 n = 0") (simp_all add: decode_simps small_numerals Let_def word_greater_zero_iff, simp_all add: operand_simps)
  qed (use d k array_read(2)[OF src] in simp_all)
  moreover have "\<not> 0x3FFC < lo32 n" using True by (simp only: not_less)
  ultimately show ?thesis
    using True by (simp add: agc_dcb_write_data_def Let_def array_read(1)[OF src] add.commute)
next
  case False
  then have "0x3FFC < lo32 n" by (simp only: not_le)
  then show ?thesis using False by (simp add: agc_dcb_write_data_def Let_def emits_nothing)
qed

text \<open>Ranges of registers.\<close>

lemma range_decodes:
  assumes vs: "vs \<noteq> []" "length vs \<le> 0x3FFF" and cls: "opc = (case cls of
      Cx \<Rightarrow> IT_SET_CONTEXT_REG | Sh \<Rightarrow> IT_SET_SH_REG | Uc \<Rightarrow> IT_SET_UCONFIG_REG)"
  shows "packet_decodes (PM4 (word_of_nat (length vs + 2)) opc 0 # off # vs) (snd (sets_registers cls off vs))"
proof -
  have "packet_decodes (PM4 (word_of_nat (Suc (length (off # vs)))) opc 0 # off # vs)
      (Some (new_command\<lparr>kind := SetRegDirect, reg_class := cls, reg_offset := off,
            reg_value := hd vs, reg_count := word_of_nat (length vs)\<rparr>, vs))"
  proof (rule packet_decodesI)
    fix buf p
    assume at: "read_at buf p (length (off # vs)) = Some (off # vs)"
    then have off: "dw buf p = Some off" and all: "read_at buf (Suc p) (length vs) = Some vs"
      by simp_all
    moreover from all vs have "dw buf (Suc p) = Some (hd vs)"
      by (cases vs) auto
    ultimately show "\<exists>c. decode_op buf p (length (off # vs)) (packet_command (Suc (length (off # vs))) opc 0 p) = Some c
        \<and> operands buf c = (new_command\<lparr>kind := SetRegDirect, reg_class := cls, reg_offset := off,
              reg_value := hd vs, reg_count := word_of_nat (length vs)\<rparr>, vs)"
      using vs cls
      by (cases cls) (simp_all add: decode_simps small_numerals Suc_le_eq,
          simp_all add: operand_simps unat_small)
  qed (use vs cls in \<open>auto simp: Suc_le_eq split: reg_class.split\<close>)
  then show ?thesis by (simp add: sets_registers_def)
qed

lemma range_emits:
  assumes d: "ring_ok d" and vs: "vs \<noteq> []" "length vs \<le> 0x3FFF" and cls: "opc = (case cls of
      Cx \<Rightarrow> IT_SET_CONTEXT_REG | Sh \<Rightarrow> IT_SET_SH_REG | Uc \<Rightarrow> IT_SET_UCONFIG_REG)"
  shows "emits d (packet None d (length vs + 2) opc 0 (off # vs)) [sets_registers cls off vs]"
proof -
  have "packet_for (PM4 (word_of_nat (length vs + 2)) opc 0 # off # vs) (sets_registers cls off vs)"
    using range_decodes[OF vs cls] by (simp add: packet_for_def sets_registers_def)
  then show ?thesis
    using vs by (subst packet_appends[OF d]) (auto intro: emits_appended)
qed

lemma emits_Cons:
  assumes d: "ring_ok d" and ws: "packet_for ws p"
    and fits: "length ws \<le> available_dw d \<Longrightarrow> emits (append_words d ws) r ps"
    and full: "available_dw d < length ws \<Longrightarrow> \<exists>c. r = Some (d, c)"
  shows "emits d r (p # ps)"
proof (cases "length ws \<le> available_dw d")
  case True
  from fits[OF True] obtain wss c where r: "r = Some (append_words (append_words d ws) (concat wss), c)"
    and len: "length (concat wss) \<le> available_dw d - length ws"
    and all: "list_all2 packet_for wss (fitting (available_dw d - length ws) ps)"
    unfolding emits_def available_append[OF d True] by blast
  have "fst p = length ws" using ws by (simp add: packet_for_def)
  then show ?thesis
    unfolding emits_def
    using True r len all ws by (intro exI[of _ "ws # wss"] exI[of _ c]) (simp add: append_words_append[OF d True])
next
  case False
  then obtain c where "r = Some (d, c)" using full by auto
  moreover have "fst p = length ws" using ws by (simp add: packet_for_def)
  ultimately show ?thesis
    unfolding emits_def using False by (intro exI[of _ "[]"] exI[of _ c]) simp
qed

lemma packet_too_big: "available_dw d < n \<Longrightarrow> packet_from None d n opc r ws = Some (d, None)"
  by (cases "n < 2 \<or> 0x4001 < n") (auto simp: packet_from_def begin_packet_def allocate_none)

lemma padding_for: "packet_for [PM4 2 IT_NOP 0, w] (says 2 new_command)"
proof -
  have "packet_decodes (PM4 (word_of_nat (Suc (length [w]))) IT_NOP 0 # [w]) (Some (new_command, []))"
    by (rule packet_decodesI) (simp_all add: decode_simps operand_simps)
  then show ?thesis by (simp add: packet_for_def says_def)
qed

lemma emits_sh_range:
  assumes d: "ring_ok d" and ok: "arrays_ok (SetShRangeCall off vs n)"
  shows "emits d (agc_build None g d (SetShRangeCall off vs n)) (call_meaning g (SetShRangeCall off vs n))"
proof (cases "lo32 n = 0")
  case True
  then show ?thesis by (simp add: agc_cb_set_sh_register_range_direct_def Let_def emits_nothing)
next
  case False
  let ?k = "unat (lo32 n)"
  let ?ws = "array_or_zeros vs ?k"
  let ?range = "\<lambda>d. packet None d (unat (lo32 n + 2)) IT_SET_SH_REG 0 (lo32 off # ?ws)"
  have k: "0 < ?k" using False by (simp add: unat_gt_0)
  have src: "\<forall>xs. vs = Some xs \<longrightarrow> ?k \<le> length xs" using ok by auto
  have sum: "unat (lo32 n + 2) = (?k + 2) mod 2 ^ 32"
    by (simp add: unat_word_ariths)
  have small: "unat (lo32 n + 2) = ?k + 2" if "?k \<le> 0x3FFF"
    unfolding sum using that by simp
  have big: "unat (lo32 n + 2) < 2 \<or> 0x4001 < unat (lo32 n + 2)" if "0x3FFF < ?k"
  proof (cases "?k + 2 < 2 ^ 32")
    case True
    then show ?thesis unfolding sum using that by simp
  next
    case False
    have "?k < 2 ^ 32" using unsigned_less[of "lo32 n"] by simp
    then have "(?k + 2) mod 2 ^ 32 < 2" using False by (simp add: le_mod_geq)
    then show ?thesis unfolding sum by simp
  qed
  let ?M = "[PM4 2 IT_NOP 0, 0x6875000d]"
  have marker: "packet None d 2 IT_NOP 0 [0x6875000d] = Some (appended d ?M)"
    by (subst packet_appends[OF d]) simp_all
  have "agc_build None g d (SetShRangeCall off vs n) = ?range (fst (appended d ?M))"
    using False k
    by (simp add: agc_cb_set_sh_register_range_direct_def Let_def marker array_read(1)[OF src] split_beta)
  moreover have "emits d (?range (fst (appended d ?M)))
      (says 2 new_command # (if ?k \<le> 0x3FFF then [sets_registers Sh (lo32 off) ?ws] else []))"
  proof (rule emits_Cons[OF d padding_for])
    assume le: "length ?M \<le> available_dw d"
    then have "ring_ok (append_words d ?M)" by (rule ring_ok_append[OF d])
    moreover have "?ws \<noteq> []" using k array_read(2)[OF src] by auto
    ultimately show "emits (append_words d ?M) (?range (fst (appended d ?M)))
        (if ?k \<le> 0x3FFF then [sets_registers Sh (lo32 off) ?ws] else [])"
      using le range_emits[of "append_words d ?M" ?ws IT_SET_SH_REG Sh "lo32 off"] big
      by (cases "?k \<le> 0x3FFF") (simp_all add: appended_def small array_read(2)[OF src] packet_rejected emits_nothing)
  next
    assume "available_dw d < length ?M"
    then show "\<exists>c. ?range (fst (appended d ?M)) = Some (d, c)"
      using big small by (cases "?k \<le> 0x3FFF") (auto simp: appended_def packet_too_big packet_rejected)
  qed
  ultimately show ?thesis
    using False k by (simp add: Let_def)
qed

lemma emits_sh_runs:
  "ring_ok d \<Longrightarrow> length rs \<le> 4096 \<Longrightarrow>
   emits d (set_sh_runs None d rs first) (map (\<lambda>run. sets_registers Sh (fst (hd run)) (map snd run)) (sh_runs rs))"
proof (induction rs arbitrary: d first rule: sh_runs.induct)
  case (1 rs)
  show ?case
  proof (cases "rs = []")
    case True
    then show ?thesis by (simp add: set_sh_runs.simps sh_runs.simps emits_nothing)
  next
    case False
    let ?n = "run_length rs"
    let ?run = "take ?n rs"
    let ?f = "\<lambda>run. sets_registers Sh (fst (hd run)) (map snd run)"
    let ?ws = "PM4 (word_of_nat (length ?run + 2)) IT_SET_SH_REG 0 # fst (hd rs) # map snd ?run"
    from False have n: "0 < ?n" by (rule run_length_pos)
    then have run: "map snd ?run \<noteq> []" "length (map snd ?run) \<le> 0x3FFF" "hd ?run = hd rs"
      using False 1(3) by (auto simp: hd_take)
    have packet: "packet None d (length ?run + 2) IT_SET_SH_REG 0 (fst (hd rs) # map snd ?run) = Some (appended d ?ws)"
      using run(2) by (intro packet_appends[OF 1(2)]) simp_all
    have "packet_for ?ws (?f ?run)"
      using range_decodes[OF run(1,2), of IT_SET_SH_REG Sh "fst (hd rs)"]
      by (simp add: packet_for_def sets_registers_def run(3))
    moreover have "sh_runs rs = ?run # sh_runs (drop ?n rs)"
      using False by (simp add: sh_runs.simps[of rs])
    moreover have "emits d (set_sh_runs None d rs first) (?f ?run # map ?f (sh_runs (drop ?n rs)))"
    proof (rule emits_Cons[OF 1(2)])
      assume le: "length ?ws \<le> available_dw d"
      have "ring_ok (append_words d ?ws)" by (rule ring_ok_append[OF 1(2) le])
      then show "emits (append_words d ?ws) (set_sh_runs None d rs first) (map ?f (sh_runs (drop ?n rs)))"
        unfolding set_sh_runs.simps[of None d rs] using 1(1)[OF False, of "append_words d ?ws"] 1(3) False le packet
        by (simp add: appended_def)
    next
      assume "available_dw d < length ?ws"
      then show "\<exists>c. set_sh_runs None d rs first = Some (d, c)"
        unfolding set_sh_runs.simps[of None d rs] using False packet by (simp add: appended_def)
    qed fact
    ultimately show ?thesis by simp
  qed
qed

lemma emits_sh_registers:
  assumes d: "ring_ok d" and ok: "arrays_ok (SetShRegistersCall rs n)"
  shows "emits d (agc_build None g d (SetShRegistersCall rs n)) (call_meaning g (SetShRegistersCall rs n))"
proof (cases rs)
  case None
  then show ?thesis by (simp add: agc_cb_set_sh_registers_direct_def Let_def emits_nothing)
next
  case (Some regs)
  let ?k = "unat (lo32 n)"
  have k: "?k \<le> length regs" using ok Some by simp
  consider "?k = 0" | "0 < ?k" "?k \<le> 4096" | "4096 < ?k" by linarith
  then show ?thesis
  proof cases
    case 2
    then show ?thesis
      using emits_sh_runs[OF d, of "take ?k regs" None] k
      by (simp add: Some agc_cb_set_sh_registers_direct_def Let_def read_at_def)
  qed (simp_all add: Some agc_cb_set_sh_registers_direct_def Let_def emits_nothing sh_runs.simps[of "[]"])
qed

lemma call_emits:
  "ring_ok d \<Longrightarrow> arrays_ok call \<Longrightarrow> emits d (agc_build None g d call) (call_meaning g call)"
  by (cases call)
    (simp_all only: emits_draws emits_dispatches emits_markers emits_synchronisation emits_dma emits_registers
       emits_filler emits_nop emits_push_marker emits_write_data emits_sh_range emits_sh_registers)

subsection \<open>Sequences of calls\<close>

fun agc_run :: "full_callback option \<Rightarrow> (qword \<Rightarrow> qword option) \<Rightarrow> dcb \<Rightarrow> agc_call list \<Rightarrow> dcb option" where
  "agc_run full g d [] = Some d"
| "agc_run full g d (c # cs) = do { (d, _) \<leftarrow> agc_build full g d c; agc_run full g d cs }"

text \<open>The packets of a sequence of calls that fit into a ring, in order.\<close>

fun stream_packets :: "(qword \<Rightarrow> qword option) \<Rightarrow> nat \<Rightarrow> agc_call list \<Rightarrow> (nat \<times> meaning) list" where
  "stream_packets g room [] = []"
| "stream_packets g room (c # cs) =
     fitting room (call_meaning g c)
     @ stream_packets g (room - sum_list (map fst (fitting room (call_meaning g c)))) cs"

definition stream_meaning :: "(qword \<Rightarrow> qword option) \<Rightarrow> nat \<Rightarrow> agc_call list \<Rightarrow> (pm4_command \<times> dword list) list" where
  "stream_meaning g room calls = List.map_filter snd (stream_packets g room calls)"

lemma length_packets: "list_all2 packet_for wss ps \<Longrightarrow> length (concat wss) = sum_list (map fst ps)"
  by (induction rule: list_all2_induct) (auto simp: packet_for_def)

lemma run_appends:
  "ring_ok d \<Longrightarrow> \<forall>c\<in>set calls. arrays_ok c \<Longrightarrow>
   \<exists>wss. agc_run None g d calls = Some (append_words d (concat wss)) \<and> length (concat wss) \<le> available_dw d
     \<and> list_all2 packet_for wss (stream_packets g (available_dw d) calls)"
proof (induction calls arbitrary: d)
  case Nil
  then show ?case by (intro exI[of _ "[]"]) simp
next
  case (Cons c cs)
  let ?ps = "fitting (available_dw d) (call_meaning g c)"
  from Cons.prems have "emits d (agc_build None g d c) (call_meaning g c)"
    by (intro call_emits) simp_all
  then obtain wss r where build: "agc_build None g d c = Some (append_words d (concat wss), r)"
    and le: "length (concat wss) \<le> available_dw d" and all: "list_all2 packet_for wss ?ps"
    unfolding emits_def by blast
  let ?d = "append_words d (concat wss)"
  have room: "available_dw ?d = available_dw d - sum_list (map fst ?ps)"
    using available_append[OF Cons.prems(1) le] length_packets[OF all] by simp
  have "ring_ok ?d" by (rule ring_ok_append[OF Cons.prems(1) le])
  then obtain vss where run: "agc_run None g ?d cs = Some (append_words ?d (concat vss))"
    and le': "length (concat vss) \<le> available_dw ?d"
    and all': "list_all2 packet_for vss (stream_packets g (available_dw ?d) cs)"
    using Cons.IH[of ?d] Cons.prems(2) by auto
  have "agc_run None g d (c # cs) = Some (append_words d (concat (wss @ vss)))"
    using build run append_words_append[OF Cons.prems(1) le] by simp
  moreover have "length (concat (wss @ vss)) \<le> available_dw d"
    using le le' available_append[OF Cons.prems(1) le] by simp
  moreover have "list_all2 packet_for (wss @ vss) (stream_packets g (available_dw d) (c # cs))"
    using all all' by (simp add: Let_def room list_all2_appendI)
  ultimately show ?case by blast
qed

lemma decode_packets:
  "list_all2 packet_for wss ps \<Longrightarrow> read_at buf i (length (concat wss)) = Some (concat wss) \<Longrightarrow>
   \<exists>cs. decode_from buf (i + length (concat wss)) i = Some (cs, i + length (concat wss))
     \<and> map (operands buf) cs = List.map_filter snd ps"
proof (induction arbitrary: i rule: list_all2_induct)
  case Nil
  then show ?case by (simp add: decode_from.simps List.map_filter_def)
next
  case (Cons ws wss p ps)
  let ?n = "i + length ws + length (concat wss)"
  from Cons.prems have ws: "read_at buf i (length ws) = Some ws"
    and rest: "read_at buf (i + length ws) (length (concat wss)) = Some (concat wss)"
    by (auto simp: read_at_def take_add append_eq_append_conv drop_drop add.commute split: if_splits)
  from Cons.IH[OF rest] obtain cs where cs: "decode_from buf ?n (i + length ws) = Some (cs, ?n)"
      "map (operands buf) cs = List.map_filter snd ps"
    by blast
  have "packet_decodes ws (snd p)" using Cons.hyps(1) by (simp add: packet_for_def)
  note d = this[unfolded packet_decodes_def, rule_format, OF conjI, OF ws, of ?n]
  show ?case
  proof (cases "snd p")
    case None
    then show ?thesis using d cs by (simp add: List.map_filter_def add.assoc)
  next
    case (Some m)
    then obtain c where "operands buf c = m" "decode_from buf ?n i = Some (c # cs, ?n)"
      using d cs by auto
    then show ?thesis using cs Some by (intro exI[of _ "c # cs"]) (simp add: List.map_filter_def add.assoc)
  qed
qed

end
