(* ===== verification/Pm4Theorems.thy ===== *)
theory Pm4Theorems
  imports Pm4RoundTrip
begin

text \<open>
  Properties of command buffers: the decoder stays in its buffer and returns, sequences of builder
  calls decode to what they mean, and the size handlers agree with the builders.
\<close>

subsection \<open>The decoder on any buffer\<close>

text \<open>The walk from \<open>i\<close>: where it stops, and that it stops early at a word it cannot frame.\<close>

definition framed :: "dword list \<Rightarrow> nat \<Rightarrow> nat \<Rightarrow> bool" where
  "framed buf dwords i \<longleftrightarrow>
     (if is_type3 (buf ! i) then i + unat (hdr_len (buf ! i)) \<le> dwords
      else buf ! i AND 0xC0000000 = 0x80000000)"

lemma unat_hdr_len: "unat (hdr_len h) = unat (drop_bit 16 h AND mask 14) + 2"
proof -
  have "unat (take_bit 14 (drop_bit 16 h)) < 2 ^ 14"
    unfolding unsigned_take_bit_eq by (rule take_bit_nat_less_exp)
  then have lt: "unat (drop_bit 16 h AND mask 14) < 2 ^ 14"
    by (simp only: take_bit_eq_mask)
  have "hdr_len h = (drop_bit 16 h AND mask 14) + 2"
    by (simp add: hdr_len_def mask_eq_exp_minus_1)
  moreover have "unat ((drop_bit 16 h AND mask 14) + 2) = unat (drop_bit 16 h AND mask 14) + 2"
    using lt by (subst unat_add_lem[THEN iffD1]) simp_all
  ultimately show ?thesis by simp
qed

lemma decode_packet_defined:
  "i + unat (hdr_len h) \<le> length buf \<Longrightarrow> \<exists>c. decode_packet buf i h = Some c"
  using decode_op_defined[of "i + 1" "unat (hdr_len h) - 1" buf] by (simp add: decode_packet_def Let_def unat_hdr_len)

lemma decode_from_returns:
  "dwords \<le> length buf \<Longrightarrow> i \<le> dwords \<Longrightarrow>
   \<exists>cs n. decode_from buf dwords i = Some (cs, n) \<and> i \<le> n \<and> n \<le> dwords \<and> (n < dwords \<longrightarrow> \<not> framed buf dwords n)"
proof (induction buf dwords i rule: decode_from.induct)
  case (1 buf dwords i)
  show ?case
  proof (cases "i < dwords")
    case False
    then have "decode_from buf dwords i = Some ([], i)"
      by (simp add: decode_from.simps[of buf dwords i])
    then show ?thesis using 1(4) False by auto
  next
    case True
    let ?h = "buf ! i"
    have h: "dw buf i = Some ?h" using True 1(3) by (simp add: dw_def)
    show ?thesis
    proof (cases "is_type3 ?h")
      case no_header: False
      show ?thesis
      proof (cases "?h AND 0xC0000000 = 0x80000000")
        case True
        then have "decode_from buf dwords i = decode_from buf dwords (i + 1)"
          using \<open>i < dwords\<close> h no_header by (simp add: decode_from.simps[of buf dwords i])
        then show ?thesis
          using 1(1)[OF \<open>i < dwords\<close> h no_header True 1(3)] \<open>i < dwords\<close> by auto
      next
        case False
        then have "decode_from buf dwords i = Some ([], i)"
          using \<open>i < dwords\<close> h no_header by (simp add: decode_from.simps[of buf dwords i])
        moreover have "\<not> framed buf dwords i" using False no_header by (simp add: framed_def)
        ultimately show ?thesis using 1(4) by auto
      qed
    next
      case type3: True
      show ?thesis
      proof (cases "i + unat (hdr_len ?h) \<le> dwords")
        case False
        then show ?thesis
          using True h type3 by (simp add: decode_from.simps[of buf dwords i] framed_def)
      next
        case fits: True
        then obtain c where c: "decode_packet buf i ?h = Some c"
          using decode_packet_defined 1(3) le_trans by blast
        have "\<not> (unat (hdr_len ?h) = 0 \<or> i + unat (hdr_len ?h) > dwords)"
          using fits by (simp add: unat_hdr_len)
        from 1(2)[OF True h _ refl this c 1(3) fits] type3 obtain cs n where
          "decode_from buf dwords (i + unat (hdr_len ?h)) = Some (cs, n)" "i + unat (hdr_len ?h) \<le> n" "n \<le> dwords"
          "n < dwords \<longrightarrow> \<not> framed buf dwords n"
          by auto
        then show ?thesis
          using True h type3 fits c by (simp add: decode_from.simps[of buf dwords i] unat_hdr_len)
      qed
    qed
  qed
qed

text \<open>
  C29: On any buffer, garbage included, \<open>decode_pm4\<close> returns. It reads nothing outside the \<open>dwords\<close> it was
  given, keeps the commands already in the list, consumes at most \<open>dwords\<close>, and stops early only at a word
  that frames nothing: neither filler nor a type-3 header whose packet fits.
\<close>

theorem decode_pm4_returns:
  "dwords \<le> length buf \<Longrightarrow>
   \<exists>cs n. decode_pm4 buf dwords out = Some (out @ cs, n) \<and> n \<le> dwords \<and> (n < dwords \<longrightarrow> \<not> framed buf dwords n)"
  using decode_from_returns[of dwords buf 0] by (auto simp: decode_pm4_def)

theorem decode_pm4_returns_witness:
  "\<exists>cs n. decode_pm4 [0x80000000, 0xC0011078, 7] 3 [] = Some ([] @ cs, n)
     \<and> n \<le> 3 \<and> (n < 3 \<longrightarrow> \<not> framed [0x80000000, 0xC0011078, 7] 3 n)"
  by (rule decode_pm4_returns) simp

subsection \<open>Sequences of builder calls\<close>

text \<open>
  C28: Any sequence of builder calls on an empty ring without a callback, whether its packets fit or not,
  returns without a store outside the ring, and the decoder reads back from the written part exactly the
  meanings of the calls that fitted, in order: every 64-bit address and value reassembled, register ranges
  and immediate data included, fillers skipped, all of it consumed.
\<close>

theorem command_stream_round_trip:
  assumes "ring_ok d" and "cursor_up d = 0" and "\<forall>call\<in>set calls. arrays_ok call"
  shows "\<exists>d' cs. agc_run None g d calls = Some d'
     \<and> decode_pm4 (dcb_mem d') (cursor_up d') [] = Some (cs, cursor_up d')
     \<and> map (operands (dcb_mem d')) cs = stream_meaning g (available_dw d) calls"
proof -
  from run_appends[OF assms(1,3), of g] obtain wss where
    run: "agc_run None g d calls = Some (append_words d (concat wss))" and le: "length (concat wss) \<le> available_dw d"
    and all: "list_all2 packet_for wss (stream_packets g (available_dw d) calls)"
    by blast
  let ?d = "append_words d (concat wss)"
  have "read_at (dcb_mem ?d) 0 (length (concat wss)) = Some (concat wss)"
    using assms(2) by (simp add: append_words_def read_at_def)
  from decode_packets[OF all this] obtain cs where
    "decode_from (dcb_mem ?d) (cursor_up ?d) 0 = Some (cs, cursor_up ?d)"
    "map (operands (dcb_mem ?d)) cs = stream_meaning g (available_dw d) calls"
    using assms(2) unfolding stream_meaning_def by auto
  then show ?thesis using run by (auto simp: decode_pm4_def)
qed

theorem command_stream_round_trip_witness:
  "\<exists>d' cs. agc_run None (\<lambda>_. None) \<lparr>dcb_mem = replicate 24 0, cursor_up = 0, cursor_down = 24, reserved_dw = 4\<rparr>
       [WriteDataCall 0 0x123456789 (Some [1, 2]) 2, Type2NopCall, DrawIndexCall 3 0x200000000 0,
        SetFlipCall 1 0xFFFFFFFF 2 3, DispatchCall 1 1 1 0, StallCall] = Some d'
     \<and> decode_pm4 (dcb_mem d') (cursor_up d') [] = Some (cs, cursor_up d')
     \<and> map (operands (dcb_mem d')) cs =
        [(new_command\<lparr>kind := WriteData, wd_addr := 0x123456789, wd_declared_num := 2, wd_num := 2,
                      wd_valid := True\<rparr>, [1, 2]),
         (new_command\<lparr>kind := DrawIndex, index_count := 3, di_index_addr := 0x200000000, di_modifier := 0, di_valid := True\<rparr>, []),
         (new_command\<lparr>kind := StallCommandBufferParser\<rparr>, [])]"
proof -
  let ?d = "\<lparr>dcb_mem = replicate 24 0, cursor_up = 0, cursor_down = 24, reserved_dw = 4\<rparr> :: dcb"
  let ?calls = "[WriteDataCall 0 0x123456789 (Some [1, 2]) 2, Type2NopCall, DrawIndexCall 3 0x200000000 0,
        SetFlipCall 1 0xFFFFFFFF 2 3, DispatchCall 1 1 1 0, StallCall]"
  have "available_dw ?d = 20" by (simp add: available_dw_def u32_sub_def u32_def Let_def)
  moreover have "stream_meaning (\<lambda>_. None) 20 ?calls =
        [(new_command\<lparr>kind := WriteData, wd_addr := 0x123456789, wd_declared_num := 2, wd_num := 2,
                      wd_valid := True\<rparr>, [1, 2]),
         (new_command\<lparr>kind := DrawIndex, index_count := 3, di_index_addr := 0x200000000, di_modifier := 0, di_valid := True\<rparr>, []),
         (new_command\<lparr>kind := StallCommandBufferParser\<rparr>, [])]"
    by (simp add: stream_meaning_def List.map_filter_def says_def array_or_zeros_def Let_def)
  moreover have "ring_ok ?d" by (simp add: ring_ok_def)
  moreover have "\<forall>call\<in>set ?calls. arrays_ok call" by simp
  ultimately show ?thesis
    using command_stream_round_trip[of ?d ?calls "\<lambda>_. None"] by simp
qed

lemma allocated_cursor: "allocate_dw full n d = (d', Some c) \<Longrightarrow> cursor_up d' = c + n"
  by (auto simp: allocate_dw_def Let_def split: if_splits option.splits prod.splits)

lemma begin_cursor: "begin_packet full d n opc r = Some (d', Some c) \<Longrightarrow> cursor_up d' = c + n"
  by (cases "allocate_dw full n d")
    (auto simp: begin_packet_def bind_eq_Some_conv dest: allocated_cursor split: if_splits option.splits)

lemma packet_cursor: "packet_from full d n opc r ws = Some (d', Some c) \<Longrightarrow> cursor_up d' = c + n"
proof -
  assume "packet_from full d n opc r ws = Some (d', Some c)"
  then obtain d1 where "begin_packet full d n opc r = Some (d1, Some c)" "cursor_up d' = cursor_up d1"
    by (auto simp: packet_from_def bind_eq_Some_conv split: option.splits)
  then show ?thesis by (simp add: begin_cursor)
qed

lemma type2_cursor: "agc_dcb_type2_nop full d = Some (d', Some c) \<Longrightarrow> cursor_up d' = c + 1"
  by (cases "allocate_dw full 1 d")
    (auto simp: agc_dcb_type2_nop_def bind_eq_Some_conv dest: allocated_cursor split: option.splits)

lemma nop_cursor: "agc_cb_nop full d a = Some (d', Some c) \<Longrightarrow> 0 < unat (lo32 a) \<and> cursor_up d' = c + unat (lo32 a)"
  by (auto simp: agc_cb_nop_def Let_def dest: packet_cursor type2_cursor split: if_splits)

text \<open>
  C30: A packet that a builder returns ends at the cursor and is exactly as long as the size handler of the
  builder answers, whatever the callback for a full buffer does: a guest that reserves what it is told to
  is never overrun.
\<close>

theorem builders_append_get_size:
  assumes "agc_build full g d call = Some (d', Some c)" and "get_size call = Some n"
  shows "4 * cursor_up d' = 4 * c + n"
proof (cases "\<exists>a. call = NopCall a")
  case True
  then show ?thesis
    using assms by (auto simp: get_size_defs Let_def dest!: nop_cursor)
next
  case False
  then show ?thesis
    using assms by (cases call) (auto simp: get_size_defs packet_sizes builder_defs Let_def dest!: packet_cursor split: if_splits)
qed

theorem builders_append_get_size_witness:
  "\<exists>d'. agc_build None (\<lambda>_. None) \<lparr>dcb_mem = replicate 8 0, cursor_up = 1, cursor_down = 8, reserved_dw = 0\<rparr>
       (JumpCall 0x200000000 16) = Some (d', Some 1) \<and> 4 * cursor_up d' = 4 * 1 + 20"
proof -
  let ?d = "\<lparr>dcb_mem = replicate 8 0, cursor_up = 1, cursor_down = 8, reserved_dw = 0\<rparr> :: dcb"
  obtain d' where "agc_build None (\<lambda>_. None) ?d (JumpCall 0x200000000 16) = Some (d', Some 1)"
    by (simp add: agc_dcb_jump_def packet_from_def begin_packet_def allocate_dw_def available_dw_def
        u32_sub_def u32_def packet_sizes write_at_def Let_def)
  moreover have "get_size (JumpCall 0x200000000 16) = Some 20"
    by (simp add: get_size_defs packet_sizes)
  ultimately show ?thesis
    using builders_append_get_size by blast
qed

end
