(* ===== verification/Pm4Patch.thy ===== *)
theory Pm4Patch
  imports Pm4Build
begin

text \<open>
  The handlers that patch packets in place after they were built (\<open>hle/graphics/hle_agc.cpp\<close>). Memory is
  a list of dwords and \<open>cmd\<close> the index of the packet's header. \<open>ok n\<close> is the answer of the write probe for
  \<open>n\<close> bytes at the packet. The label histories and refusal reports are not modelled.
\<close>

subsection \<open>Known rings and the write probe\<close>

definition kDcbExtentSlots :: nat where "kDcbExtentSlots = 4"

record dcb_registry =
  dcb_extents :: "(nat \<times> nat) list"
  extent_next :: nat

definition empty_registry :: dcb_registry where
  "empty_registry = \<lparr>dcb_extents = replicate kDcbExtentSlots (0, 0), extent_next = 0\<rparr>"

definition remember_dcb_extent :: "nat \<Rightarrow> nat \<Rightarrow> dcb_registry \<Rightarrow> dcb_registry" where
  "remember_dcb_extent lo hi reg =
     (if lo = 0 \<or> hi \<le> lo then reg
      else if (lo, hi) \<in> set (dcb_extents reg) then reg
      else reg\<lparr>dcb_extents := (dcb_extents reg)[extent_next reg := (lo, hi)],
               extent_next := (extent_next reg + 1) mod kDcbExtentSlots\<rparr>)"

definition in_known_dcb :: "dcb_registry \<Rightarrow> nat \<Rightarrow> nat \<Rightarrow> bool" where
  "in_known_dcb reg p bytes \<longleftrightarrow>
     p \<noteq> 0 \<and> bytes \<noteq> 0
     \<and> list_ex (\<lambda>(lo, hi). lo \<noteq> 0 \<and> p \<ge> lo \<and> p < hi \<and> hi - p \<ge> bytes) (dcb_extents reg)"

definition patch_target_writable :: "dcb_registry \<Rightarrow> (nat \<Rightarrow> nat \<Rightarrow> bool) \<Rightarrow> nat \<Rightarrow> nat \<Rightarrow> bool" where
  "patch_target_writable reg guest_writable cmd_addr bytes \<longleftrightarrow>
     in_known_dcb reg cmd_addr bytes \<or> guest_writable cmd_addr (u32 bytes)"

subsection \<open>Patches\<close>

definition patch_check :: "dword \<Rightarrow> dword \<Rightarrow> bool" where
  "patch_check h want_r \<longleftrightarrow> drop_bit 8 h AND 0xff = IT_NOP \<and> drop_bit 2 h AND (R_NUM - 1) = want_r"

text \<open>A patch of a packet of one kind: the probe, the header check, the stores.\<close>

definition patch_packet ::
    "(nat \<Rightarrow> bool) \<Rightarrow> nat \<Rightarrow> dword \<Rightarrow> nat \<Rightarrow> (dword list \<Rightarrow> dword list option) \<Rightarrow> dword list \<Rightarrow> dword list option" where
  "patch_packet ok span want_r cmd store mem =
     (if \<not> ok (span * 4) then Some mem
      else do { h \<leftarrow> dw mem cmd; if \<not> patch_check h want_r then Some mem else store mem })"

definition agc_set_packet_predication :: "(nat \<Rightarrow> bool) \<Rightarrow> nat \<Rightarrow> dword list \<Rightarrow> dword list option" where
  "agc_set_packet_predication ok cmd mem = patch_packet ok 5 R_JUMP cmd (\<lambda>mem. write_at mem (cmd + 4) [1]) mem"

definition patch_set_address :: "(nat \<Rightarrow> bool) \<Rightarrow> nat \<Rightarrow> qword \<Rightarrow> dword \<Rightarrow> dword list \<Rightarrow> dword list option" where
  "patch_set_address ok cmd regs want_r mem =
     patch_packet ok kDwSetRegsIndirect want_r cmd (\<lambda>mem. write_at mem (cmd + 2) [lo32 regs, hi32 regs]) mem"

definition patch_add_registers :: "(nat \<Rightarrow> bool) \<Rightarrow> nat \<Rightarrow> qword \<Rightarrow> dword \<Rightarrow> dword list \<Rightarrow> dword list option" where
  "patch_add_registers ok cmd n want_r mem =
     patch_packet ok kDwSetRegsIndirect want_r cmd
       (\<lambda>mem. do { old \<leftarrow> dw mem (cmd + 1); write_at mem (cmd + 1) [old + lo32 n] }) mem"

definition patch_set_num_registers :: "(nat \<Rightarrow> bool) \<Rightarrow> nat \<Rightarrow> qword \<Rightarrow> dword \<Rightarrow> dword list \<Rightarrow> dword list option" where
  "patch_set_num_registers ok cmd n want_r mem =
     patch_packet ok kDwSetRegsIndirect want_r cmd (\<lambda>mem. write_at mem (cmd + 1) [lo32 n]) mem"

definition agc_patch_write_data_addr :: "(nat \<Rightarrow> bool) \<Rightarrow> nat \<Rightarrow> qword \<Rightarrow> dword list \<Rightarrow> dword list option" where
  "agc_patch_write_data_addr ok cmd a1 mem =
     patch_packet ok 4 R_WRITE_DATA cmd (\<lambda>mem. write_at mem (cmd + 2) [lo32 a1, hi32 a1]) mem"

definition agc_patch_wait_reg_mem_addr :: "(nat \<Rightarrow> bool) \<Rightarrow> nat \<Rightarrow> qword \<Rightarrow> dword list \<Rightarrow> dword list option" where
  "agc_patch_wait_reg_mem_addr ok cmd a1 mem =
     patch_packet ok 3 R_WAIT_MEM_64 cmd (\<lambda>mem. write_at mem (cmd + 1) [lo32 a1, hi32 a1]) mem"

definition agc_patch_release_mem_addr ::
    "(qword \<Rightarrow> qword option) \<Rightarrow> (nat \<Rightarrow> bool) \<Rightarrow> nat \<Rightarrow> qword \<Rightarrow> dword list \<Rightarrow> dword list option" where
  "agc_patch_release_mem_addr guest ok cmd a1 mem =
     patch_packet ok 4 R_RELEASE_MEM cmd
       (\<lambda>mem. do {
          mem \<leftarrow> write_at mem (cmd + 1) [lo32 a1, hi32 a1];
          h \<leftarrow> dw mem cmd;
          let l = hdr_len h;
          if l \<ge> 9 \<and> ok (9 * 4)
          then do { sel \<leftarrow> dw mem (cmd + 3);
                    let build_pre = label_build_pre guest a1 (if sel = 1 then 4 else 8);
                    write_at mem (cmd + 7) [lo32 build_pre, hi32 build_pre] }
          else if l \<ge> 8 \<and> l < 9 \<and> ok (8 * 4)
          then do { sel \<leftarrow> dw mem (cmd + 3);
                    write_at mem (cmd + 7) [hi32 (label_build_pre guest a1 (if sel = 1 then 4 else 8))] }
          else Some mem }) mem"

definition agc_patch_release_mem_data :: "(nat \<Rightarrow> bool) \<Rightarrow> nat \<Rightarrow> qword \<Rightarrow> dword list \<Rightarrow> dword list option" where
  "agc_patch_release_mem_data ok cmd a1 mem =
     patch_packet ok 6 R_RELEASE_MEM cmd (\<lambda>mem. write_at mem (cmd + 4) [lo32 a1, hi32 a1]) mem"

definition agc_jump_patch_target :: "(nat \<Rightarrow> bool) \<Rightarrow> nat \<Rightarrow> qword \<Rightarrow> qword \<Rightarrow> dword list \<Rightarrow> dword list option" where
  "agc_jump_patch_target ok cmd a2 a3 mem =
     patch_packet ok 4 R_JUMP cmd (\<lambda>mem. write_at mem (cmd + 1) [lo32 a2, hi32 a2, lo32 a3]) mem"

subsection \<open>DMA packets with a clobbered header\<close>

text \<open>\<open>readable\<close> is the read probe of the whole packet.\<close>

definition dma_patch_recover_header :: "bool \<Rightarrow> nat \<Rightarrow> dword list \<Rightarrow> (bool \<times> dword list) option" where
  "dma_patch_recover_header readable cmd mem =
     (if \<not> readable then Some (False, mem)
      else do {
        h \<leftarrow> dw mem cmd;
        if h \<noteq> 0 then Some (False, mem)
        else do {
          dst \<leftarrow> lo_hi mem (cmd + 1); bytes \<leftarrow> dw mem (cmd + 5);
          if dst < 0x10000 \<or> bytes = 0 \<or> bytes > 0x10000000 then Some (False, mem)
          else do { mem \<leftarrow> write_at mem cmd [PM4 (word_of_nat kDwDmaData) IT_NOP R_DMA_DATA]; Some (True, mem) } } })"

definition dma_patch_ready :: "bool \<Rightarrow> nat \<Rightarrow> dword list \<Rightarrow> (bool \<times> dword list) option" where
  "dma_patch_ready readable cmd mem =
     do { h \<leftarrow> dw mem cmd;
          if drop_bit 8 h AND 0xff = IT_NOP \<and> drop_bit 2 h AND (R_NUM - 1) = R_DMA_DATA then Some (True, mem)
          else do {
            (recovered, mem) \<leftarrow> dma_patch_recover_header readable cmd mem;
            if recovered then Some (True, mem)
            else do { h \<leftarrow> dw mem cmd; Some (patch_check h R_DMA_DATA, mem) } } }"

definition agc_patch_dma_data_dst ::
    "(qword \<Rightarrow> qword option) \<Rightarrow> (nat \<Rightarrow> bool) \<Rightarrow> bool \<Rightarrow> nat \<Rightarrow> qword \<Rightarrow> dword list \<Rightarrow> dword list option" where
  "agc_patch_dma_data_dst guest ok readable cmd a1 mem =
     (if \<not> ok (3 * 4) then Some mem
      else do {
        (ready, mem) \<leftarrow> dma_patch_ready readable cmd mem;
        if \<not> ready then Some mem
        else do {
          mem \<leftarrow> write_at mem (cmd + 1) [lo32 a1, hi32 a1];
          h \<leftarrow> dw mem cmd;
          if hdr_len h \<ge> 9 \<and> ok (9 * 4)
          then do { bytes \<leftarrow> dw mem (cmd + 5);
                    let build_pre = label_build_pre guest a1 (ucast bytes);
                    write_at mem (cmd + 7) [lo32 build_pre, hi32 build_pre] }
          else Some mem } })"

definition agc_patch_dma_data_src :: "(nat \<Rightarrow> bool) \<Rightarrow> bool \<Rightarrow> nat \<Rightarrow> qword \<Rightarrow> dword list \<Rightarrow> dword list option" where
  "agc_patch_dma_data_src ok readable cmd a1 mem =
     (if \<not> ok (5 * 4) then Some mem
      else do {
        (ready, mem) \<leftarrow> dma_patch_ready readable cmd mem;
        if \<not> ready then Some mem else write_at mem (cmd + 3) [lo32 a1, hi32 a1] })"

end
