(* ===== verification/Pm4PatchFacts.thy ===== *)
theory Pm4PatchFacts
  imports Pm4Patch Pm4RoundTrip
begin

text \<open>
  What patches do: a packet decodes after a patch as before but for the operand the patch names, and the
  rest of the stream is untouched; a refused patch changes nothing.
\<close>

subsection \<open>Stores in a stream\<close>

lemma dw_write_at:
  "write_at mem off ws = Some mem' \<Longrightarrow>
   dw mem' k = (if off \<le> k \<and> k < off + length ws then Some (ws ! (k - off)) else dw mem k)"
  by (auto simp: write_at_def dw_def nth_append split: if_splits)

text \<open>\<open>mem'\<close> differs from \<open>mem\<close> only in the dwords from \<open>i\<close> on, \<open>n\<close> of them.\<close>

definition only_changes :: "nat \<Rightarrow> nat \<Rightarrow> dword list \<Rightarrow> dword list \<Rightarrow> bool" where
  "only_changes i n mem mem' \<longleftrightarrow>
     length mem' = length mem \<and> (\<forall>k. k < i \<or> i + n \<le> k \<longrightarrow> dw mem' k = dw mem k)"

lemma only_changes_write:
  "write_at mem off ws = Some mem' \<Longrightarrow> i \<le> off \<Longrightarrow> off + length ws \<le> i + n \<Longrightarrow> only_changes i n mem mem'"
  by (auto simp: only_changes_def dw_write_at write_at_length)

lemma only_changes_trans:
  "only_changes i n mem mem1 \<Longrightarrow> only_changes i n mem1 mem2 \<Longrightarrow> only_changes i n mem mem2"
  by (simp add: only_changes_def)

subsection \<open>The register of rings\<close>

text \<open>\<open>S\<close> is every ring that was ever registered; the register keeps four of them.\<close>

definition registry_ok :: "(nat \<times> nat) set \<Rightarrow> dcb_registry \<Rightarrow> bool" where
  "registry_ok S reg \<longleftrightarrow>
     length (dcb_extents reg) = kDcbExtentSlots \<and> extent_next reg < kDcbExtentSlots
     \<and> set (dcb_extents reg) \<subseteq> insert (0, 0) S"

lemma registry_ok_empty: "registry_ok {} empty_registry"
  by (simp add: registry_ok_def empty_registry_def kDcbExtentSlots_def)

lemma registry_ok_remember:
  "registry_ok S reg \<Longrightarrow> registry_ok (insert (lo, hi) S) (remember_dcb_extent lo hi reg)"
  using set_update_subset_insert[of "dcb_extents reg" "extent_next reg" "(lo, hi)"]
  by (auto simp: registry_ok_def remember_dcb_extent_def kDcbExtentSlots_def)

lemma remembered_ring_known:
  "registry_ok S reg \<Longrightarrow> 0 < lo \<Longrightarrow> lo < hi \<Longrightarrow> lo \<le> p \<Longrightarrow> p + n \<le> hi \<Longrightarrow> 0 < n \<Longrightarrow>
   in_known_dcb (remember_dcb_extent lo hi reg) p n"
  by (auto simp: in_known_dcb_def remember_dcb_extent_def registry_ok_def list_ex_iff set_update_memI
      intro!: bexI[of _ "(lo, hi)"])

lemma known_in_ring:
  "registry_ok S reg \<Longrightarrow> in_known_dcb reg p n \<Longrightarrow> \<exists>lo hi. (lo, hi) \<in> S \<and> lo \<le> p \<and> p + n \<le> hi"
  by (fastforce simp: in_known_dcb_def registry_ok_def list_ex_iff)

subsection \<open>Patches and what they mean\<close>

datatype agc_patch =
    Predicate | Address reg_class qword | AddRegisters reg_class qword | NumRegisters reg_class qword
  | WriteDataAddr qword | WaitAddr qword | ReleaseAddr qword | ReleaseData qword | JumpTarget qword qword
  | DmaDst qword | DmaSrc qword

definition regs_subop :: "reg_class \<Rightarrow> dword" where
  "regs_subop cls = (case cls of Cx \<Rightarrow> R_CX_REGS_INDIRECT | Sh \<Rightarrow> R_SH_REGS_INDIRECT | Uc \<Rightarrow> R_UC_REGS_INDIRECT)"

fun apply_patch ::
    "(qword \<Rightarrow> qword option) \<Rightarrow> (nat \<Rightarrow> bool) \<Rightarrow> bool \<Rightarrow> nat \<Rightarrow> agc_patch \<Rightarrow> dword list \<Rightarrow> dword list option" where
  "apply_patch g ok rd cmd Predicate mem = agc_set_packet_predication ok cmd mem"
| "apply_patch g ok rd cmd (Address cls a) mem = patch_set_address ok cmd a (regs_subop cls) mem"
| "apply_patch g ok rd cmd (AddRegisters cls n) mem = patch_add_registers ok cmd n (regs_subop cls) mem"
| "apply_patch g ok rd cmd (NumRegisters cls n) mem = patch_set_num_registers ok cmd n (regs_subop cls) mem"
| "apply_patch g ok rd cmd (WriteDataAddr a) mem = agc_patch_write_data_addr ok cmd a mem"
| "apply_patch g ok rd cmd (WaitAddr a) mem = agc_patch_wait_reg_mem_addr ok cmd a mem"
| "apply_patch g ok rd cmd (ReleaseAddr a) mem = agc_patch_release_mem_addr g ok cmd a mem"
| "apply_patch g ok rd cmd (ReleaseData v) mem = agc_patch_release_mem_data ok cmd v mem"
| "apply_patch g ok rd cmd (JumpTarget a n) mem = agc_jump_patch_target ok cmd a n mem"
| "apply_patch g ok rd cmd (DmaDst a) mem = agc_patch_dma_data_dst g ok rd cmd a mem"
| "apply_patch g ok rd cmd (DmaSrc a) mem = agc_patch_dma_data_src ok rd cmd a mem"

text \<open>The kind of packet a patch is for, the length its builder gives it, and the dwords it touches.\<close>

fun patch_subop :: "agc_patch \<Rightarrow> dword" where
  "patch_subop Predicate = R_JUMP"
| "patch_subop (Address cls a) = regs_subop cls"
| "patch_subop (AddRegisters cls n) = regs_subop cls"
| "patch_subop (NumRegisters cls n) = regs_subop cls"
| "patch_subop (WriteDataAddr a) = R_WRITE_DATA"
| "patch_subop (WaitAddr a) = R_WAIT_MEM_64"
| "patch_subop (ReleaseAddr a) = R_RELEASE_MEM"
| "patch_subop (ReleaseData v) = R_RELEASE_MEM"
| "patch_subop (JumpTarget a n) = R_JUMP"
| "patch_subop (DmaDst a) = R_DMA_DATA"
| "patch_subop (DmaSrc a) = R_DMA_DATA"

fun patch_len :: "agc_patch \<Rightarrow> nat" where
  "patch_len Predicate = 5"
| "patch_len (Address cls a) = 4"
| "patch_len (AddRegisters cls n) = 4"
| "patch_len (NumRegisters cls n) = 4"
| "patch_len (WriteDataAddr a) = 5"
| "patch_len (WaitAddr a) = 9"
| "patch_len (ReleaseAddr a) = 8"
| "patch_len (ReleaseData v) = 8"
| "patch_len (JumpTarget a n) = 5"
| "patch_len (DmaDst a) = 7"
| "patch_len (DmaSrc a) = 7"

text \<open>The command after the patch.\<close>

fun patched :: "(qword \<Rightarrow> qword option) \<Rightarrow> agc_patch \<Rightarrow> pm4_command \<Rightarrow> pm4_command" where
  "patched g Predicate c = c\<lparr>jump_pred := 1\<rparr>"
| "patched g (Address cls a) c = c\<lparr>regs_vaddr := a\<rparr>"
| "patched g (AddRegisters cls n) c = c\<lparr>num_regs := num_regs c + lo32 n\<rparr>"
| "patched g (NumRegisters cls n) c = c\<lparr>num_regs := lo32 n\<rparr>"
| "patched g (WriteDataAddr a) c = c\<lparr>wd_addr := a\<rparr>"
| "patched g (WaitAddr a) c = c\<lparr>wm_addr := a\<rparr>"
| "patched g (ReleaseAddr a) c =
     c\<lparr>rel_addr := a,
       rel_build_pre := push_bit 32 (drop_bit 32 (label_build_pre g a (if rel_data_sel c = 1 then 4 else 8)))\<rparr>"
| "patched g (ReleaseData v) c = c\<lparr>rel_value := v\<rparr>"
| "patched g (JumpTarget a n) c = c\<lparr>jump_addr := a, jump_dwords := lo32 n\<rparr>"
| "patched g (DmaDst a) c = c\<lparr>dd_dst := a\<rparr>"
| "patched g (DmaSrc a) c = c\<lparr>dd_src := a\<rparr>"

text \<open>A header that the builder of the patched kind wrote.\<close>

definition patch_applies :: "agc_patch \<Rightarrow> dword \<Rightarrow> bool" where
  "patch_applies p h \<longleftrightarrow>
     patch_check h (patch_subop p)
     \<and> (case p of WriteDataAddr _ \<Rightarrow> patch_len p \<le> unat (hdr_len h) | _ \<Rightarrow> unat (hdr_len h) = patch_len p)"

definition header_command :: "dword \<Rightarrow> nat \<Rightarrow> pm4_command" where
  "header_command h i =
     new_command\<lparr>header := h, op := hdr_op h, sub_op := hdr_r h, len := hdr_len h, payload := Some (i + 1)\<rparr>"

lemma patch_check_fields: "patch_check h r \<Longrightarrow> hdr_op h = IT_NOP \<and> hdr_r h = r"
  by (simp add: patch_check_def hdr_op_def hdr_r_def R_NUM_def)

lemma decode_packet_nop:
  assumes "patch_check h r" "2 \<le> unat (hdr_len h)"
  shows "decode_packet buf i h = decode_nop buf (i + 1) (unat (hdr_len h) - 1) (header_command h i)"
proof -
  have "1 < hdr_len h" using assms(2) by (simp add: word_less_nat_alt)
  then show ?thesis
    using patch_check_fields[OF assms(1)] by (simp add: decode_packet_def Let_def header_command_def decode_op_simps)
qed

lemma sub_op_header_command: "patch_check h r \<Longrightarrow> sub_op (header_command h i) = r"
  using patch_check_fields by (simp add: header_command_def)

text \<open>The shape of a result, on the decoder of sub-operations.\<close>

definition patches_to :: "nat \<Rightarrow> dword \<Rightarrow> dword list \<Rightarrow> dword list option \<Rightarrow> (pm4_command \<Rightarrow> pm4_command) \<Rightarrow> bool" where
  "patches_to i h mem r f \<longleftrightarrow>
     (\<exists>mem' c. r = Some mem' \<and> dw mem' i = Some h \<and> decode_packet mem i h = Some c
        \<and> decode_packet mem' i h = Some (f c) \<and> only_changes (i + 1) (unat (hdr_len h) - 1) mem mem')"

lemma patches_toI:
  assumes check: "patch_check h sub" "2 \<le> unat (hdr_len h)" and h: "dw mem i = Some h"
    and len: "i + unat (hdr_len h) \<le> length mem" and same: "only_changes (i + 1) (unat (hdr_len h) - 1) mem mem'"
    and decode: "decode_nop mem' (i + 1) (unat (hdr_len h) - 1) (header_command h i)
      = map_option f (decode_nop mem (i + 1) (unat (hdr_len h) - 1) (header_command h i))"
  shows "patches_to i h mem (Some mem') f"
proof -
  obtain c where "decode_nop mem (i + 1) (unat (hdr_len h) - 1) (header_command h i) = Some c"
    using decode_nop_defined[of "i + 1" "unat (hdr_len h) - 1" mem "header_command h i"] check(2) len by auto
  moreover have "dw mem' i = Some h" using same h by (simp add: only_changes_def)
  ultimately show ?thesis
    unfolding patches_to_def using decode same by (simp add: decode_packet_nop[OF check])
qed

lemma patches_to_store:
  assumes "patch_check h sub" "2 \<le> unat (hdr_len h)" "dw mem i = Some h" "i + unat (hdr_len h) \<le> length mem"
    and bounds: "i < off" "off + length ws \<le> i + unat (hdr_len h)"
    and decode: "\<And>mem'. (\<And>k. dw mem' k = (if off \<le> k \<and> k < off + length ws then Some (ws ! (k - off)) else dw mem k)) \<Longrightarrow>
      decode_nop mem' (i + 1) (unat (hdr_len h) - 1) (header_command h i)
      = map_option f (decode_nop mem (i + 1) (unat (hdr_len h) - 1) (header_command h i))"
  shows "patches_to i h mem (write_at mem off ws) f"
proof -
  obtain mem' where w: "write_at mem off ws = Some mem'"
    using write_at_defined[of off ws mem] bounds assms(4) by auto
  show ?thesis
    unfolding w
  proof (rule patches_toI[OF assms(1-4)])
    show "only_changes (i + 1) (unat (hdr_len h) - 1) mem mem'"
      using bounds by (intro only_changes_write[OF w]) simp_all
  qed (rule decode[OF dw_write_at[OF w]])
qed

lemmas patch_simps = decode_nop_simps sub_op_header_command on_def lo_hi_def small_numerals
  decode_jump_def decode_regs_indirect_def decode_write_data_def decode_wait_reg_mem_def
  decode_release_mem_def decode_dma_data_def

lemma patch_lengths: "kDwSetRegsIndirect = 4" "kDwDmaData = 7"
  by (simp_all add: packet_sizes)

lemmas header_simps = header_command_def new_command_def

lemma join_halves [simp]: "ucast (lo32 a) OR push_bit 32 (drop_bit 32 a) = a"
proof (rule bit_word_eqI)
  fix n
  assume "n < LENGTH(64)"
  then show "bit (ucast (lo32 a) OR push_bit 32 (drop_bit 32 a)) n \<longleftrightarrow> bit a n"
    by (cases "n < 32") (auto simp: bit_simps)
qed

lemma dma_header_ready:
  "dw mem i = Some h \<Longrightarrow> patch_check h R_DMA_DATA \<Longrightarrow> dma_patch_ready rd i mem = Some (True, mem)"
  by (simp add: dma_patch_ready_def patch_check_def)

text \<open>The header after a store behind it.\<close>

lemma bind_store:
  "i < off \<Longrightarrow> write_at mem off ws \<bind> (\<lambda>mem'. dw mem' i \<bind> f mem') = write_at mem off ws \<bind> (\<lambda>mem'. dw mem i \<bind> f mem')"
  by (cases "write_at mem off ws") (simp_all add: dw_write_at)

lemma predicate_patched:
  assumes "patch_check h R_JUMP" "unat (hdr_len h) = 5" "i + 5 \<le> length mem" "dw mem i = Some h" "ok 20"
  shows "patches_to i h mem (apply_patch g ok rd i (Predicate) mem) (patched g (Predicate))"
proof -
  have "patches_to i h mem (write_at mem (i + 4) [1]) (patched g (Predicate))"
    using assms
    by (rule_tac patches_to_store) (simp_all add: patch_simps dw_defined join_halves, (simp add: header_simps)?)
  then show ?thesis
    using assms by (simp add: agc_set_packet_predication_def patch_packet_def)
qed

lemma jump_target_patched:
  assumes "patch_check h R_JUMP" "unat (hdr_len h) = 5" "i + 5 \<le> length mem" "dw mem i = Some h" "ok 16"
  shows "patches_to i h mem (apply_patch g ok rd i (JumpTarget a n) mem) (patched g (JumpTarget a n))"
proof -
  have "patches_to i h mem (write_at mem (i + 1) [lo32 a, hi32 a, lo32 n]) (patched g (JumpTarget a n))"
    using assms
    by (rule_tac patches_to_store) (simp_all add: patch_simps dw_defined join_halves, (simp add: header_simps)?)
  then show ?thesis
    using assms by (simp add: agc_jump_patch_target_def patch_packet_def)
qed

lemma wait_addr_patched:
  assumes "patch_check h R_WAIT_MEM_64" "unat (hdr_len h) = 9" "i + 9 \<le> length mem" "dw mem i = Some h" "ok 12"
  shows "patches_to i h mem (apply_patch g ok rd i (WaitAddr a) mem) (patched g (WaitAddr a))"
proof -
  have "patches_to i h mem (write_at mem (i + 1) [lo32 a, hi32 a]) (patched g (WaitAddr a))"
    using assms
    by (rule_tac patches_to_store) (simp_all add: patch_simps dw_defined join_halves, (simp add: header_simps)?)
  then show ?thesis
    using assms by (simp add: agc_patch_wait_reg_mem_addr_def patch_packet_def)
qed

lemma release_data_patched:
  assumes "patch_check h R_RELEASE_MEM" "unat (hdr_len h) = 8" "i + 8 \<le> length mem" "dw mem i = Some h" "ok 24"
  shows "patches_to i h mem (apply_patch g ok rd i (ReleaseData v) mem) (patched g (ReleaseData v))"
proof -
  have "patches_to i h mem (write_at mem (i + 4) [lo32 v, hi32 v]) (patched g (ReleaseData v))"
    using assms
    by (rule_tac patches_to_store) (simp_all add: patch_simps dw_defined join_halves, (simp add: header_simps)?)
  then show ?thesis
    using assms by (simp add: agc_patch_release_mem_data_def patch_packet_def)
qed

lemma dma_dst_patched:
  assumes "patch_check h R_DMA_DATA" "unat (hdr_len h) = 7" "i + 7 \<le> length mem" "dw mem i = Some h" "ok 12"
  shows "patches_to i h mem (apply_patch g ok rd i (DmaDst a) mem) (patched g (DmaDst a))"
proof -
  have "patches_to i h mem (write_at mem (i + 1) [lo32 a, hi32 a]) (patched g (DmaDst a))"
    using assms
    by (rule_tac patches_to_store) (simp_all add: patch_simps dw_defined join_halves, (simp add: header_simps)?)
  then show ?thesis
    using assms by (simp add: agc_patch_dma_data_dst_def dma_header_ready bind_store word_le_nat_alt)
qed

lemma dma_src_patched:
  assumes "patch_check h R_DMA_DATA" "unat (hdr_len h) = 7" "i + 7 \<le> length mem" "dw mem i = Some h" "ok 20"
  shows "patches_to i h mem (apply_patch g ok rd i (DmaSrc a) mem) (patched g (DmaSrc a))"
proof -
  have "patches_to i h mem (write_at mem (i + 3) [lo32 a, hi32 a]) (patched g (DmaSrc a))"
    using assms
    by (rule_tac patches_to_store) (simp_all add: patch_simps dw_defined join_halves, (simp add: header_simps)?)
  then show ?thesis
    using assms by (simp add: agc_patch_dma_data_src_def dma_header_ready)
qed

lemma regs_subop_simps:
  "decode_nop buf p npl (header_command h i) = decode_regs_indirect buf p npl (header_command h i)"
  if "patch_check h (regs_subop cls)"
  using that sub_op_header_command[OF that, of i]
  by (cases cls) (simp_all add: decode_nop_simps regs_subop_def)

lemma regs_patched:
  assumes "patch_check h (regs_subop cls)" "unat (hdr_len h) = 4" "i + 4 \<le> length mem" "dw mem i = Some h" "ok 16"
  shows "patches_to i h mem (apply_patch g ok rd i (Address cls a) mem) (patched g (Address cls a))"
    "patches_to i h mem (apply_patch g ok rd i (AddRegisters cls n) mem) (patched g (AddRegisters cls n))"
    "patches_to i h mem (apply_patch g ok rd i (NumRegisters cls n) mem) (patched g (NumRegisters cls n))"
proof -
  note simps = regs_subop_simps[OF assms(1)] decode_regs_indirect_def on_def lo_hi_def small_numerals dw_defined
  have "patches_to i h mem (write_at mem (i + 2) [lo32 a, hi32 a]) (patched g (Address cls a))"
    using assms by (rule_tac patches_to_store) (simp_all add: simps, (simp add: header_simps)?)
  moreover have "patches_to i h mem (write_at mem (i + 1) [mem ! (i + 1) + lo32 n]) (patched g (AddRegisters cls n))"
    using assms by (rule_tac patches_to_store) (simp_all add: simps, (simp add: header_simps)?)
  moreover have "patches_to i h mem (write_at mem (i + 1) [lo32 n]) (patched g (NumRegisters cls n))"
    using assms by (rule_tac patches_to_store) (simp_all add: simps, (simp add: header_simps)?)
  ultimately show
    "patches_to i h mem (apply_patch g ok rd i (Address cls a) mem) (patched g (Address cls a))"
    "patches_to i h mem (apply_patch g ok rd i (AddRegisters cls n) mem) (patched g (AddRegisters cls n))"
    "patches_to i h mem (apply_patch g ok rd i (NumRegisters cls n) mem) (patched g (NumRegisters cls n))"
    using assms
    by (simp_all add: patch_set_address_def patch_add_registers_def patch_set_num_registers_def
        patch_packet_def patch_lengths dw_defined)
qed

lemma write_data_patched:
  assumes "patch_check h R_WRITE_DATA" "5 \<le> unat (hdr_len h)" "i + unat (hdr_len h) \<le> length mem"
    "dw mem i = Some h" "ok 16"
  shows "patches_to i h mem (apply_patch g ok rd i (WriteDataAddr a) mem) (patched g (WriteDataAddr a))"
proof -
  obtain k where "unat (hdr_len h) = 5 + k" using assms(2) le_Suc_ex by blast
  then have k: "unat (hdr_len h) = Suc (Suc (Suc (Suc (Suc k))))" by simp
  have "patches_to i h mem (write_at mem (i + 2) [lo32 a, hi32 a]) (patched g (WriteDataAddr a))"
    using assms
    by (rule_tac patches_to_store) (simp_all add: k patch_simps dw_defined Let_def, (simp add: header_simps)?)
  then show ?thesis
    using assms by (simp add: agc_patch_write_data_addr_def patch_packet_def)
qed

lemma release_addr_patched:
  assumes "patch_check h R_RELEASE_MEM" "unat (hdr_len h) = 8" "i + 8 \<le> length mem" "dw mem i = Some h" "ok 16" "ok 32"
  shows "patches_to i h mem (apply_patch g ok rd i (ReleaseAddr a) mem) (patched g (ReleaseAddr a))"
proof -
  let ?pre = "hi32 (label_build_pre g a (if mem ! (i + 3) = 1 then 4 else 8))"
  obtain mem1 where 1: "write_at mem (i + 1) [lo32 a, hi32 a] = Some mem1"
    using write_at_defined[of "i + 1" "[lo32 a, hi32 a]" mem] assms(3) by auto
  obtain mem2 where 2: "write_at mem1 (i + 7) [?pre] = Some mem2"
    using write_at_defined[of "i + 7" "[?pre]" mem1] assms(3) write_at_length[OF 1] by auto
  have "apply_patch g ok rd i (ReleaseAddr a) mem = Some mem2"
    using assms 1 2
    by (simp add: agc_patch_release_mem_addr_def patch_packet_def dw_write_at[OF 1] word_le_nat_alt word_less_nat_alt dw_defined)
  moreover have "patches_to i h mem (Some mem2) (patched g (ReleaseAddr a))"
  proof (rule patches_toI[OF assms(1)])
    show "only_changes (i + 1) (unat (hdr_len h) - 1) mem mem2"
      using assms(2) by (intro only_changes_trans[OF only_changes_write[OF 1] only_changes_write[OF 2]]) simp_all
    show "decode_nop mem2 (i + 1) (unat (hdr_len h) - 1) (header_command h i)
        = map_option (patched g (ReleaseAddr a)) (decode_nop mem (i + 1) (unat (hdr_len h) - 1) (header_command h i))"
      using assms
      by (simp add: patch_simps dw_defined dw_write_at[OF 2] dw_write_at[OF 1], (simp add: header_simps)?)
  qed (use assms in simp_all)
  ultimately show ?thesis by simp
qed

subsection \<open>Every patch\<close>

lemma patch_result:
  assumes "patch_applies p h" "dw mem i = Some h" "i + unat (hdr_len h) \<le> length mem"
    "\<forall>n \<le> 4 * unat (hdr_len h). ok n"
  shows "patches_to i h mem (apply_patch g ok rd i p mem) (patched g p)"
proof -
  have len: "patch_len p \<le> unat (hdr_len h)" "case p of WriteDataAddr _ \<Rightarrow> True | _ \<Rightarrow> unat (hdr_len h) = patch_len p"
    using assms(1) by (auto simp: patch_applies_def split: agc_patch.splits)
  show ?thesis
    using assms len
    by (cases p)
      (auto simp: patch_applies_def simp del: apply_patch.simps patched.simps
        intro!: predicate_patched regs_patched write_data_patched wait_addr_patched release_addr_patched
          release_data_patched jump_target_patched dma_dst_patched dma_src_patched)
qed

text \<open>The first probe of a patch.\<close>

fun patch_span :: "agc_patch \<Rightarrow> nat" where
  "patch_span Predicate = 5"
| "patch_span (WaitAddr a) = 3"
| "patch_span (ReleaseData v) = 6"
| "patch_span (DmaDst a) = 3"
| "patch_span (DmaSrc a) = 5"
| "patch_span _ = 4"

lemma patch_refused:
  assumes "dw mem i = Some h" "h \<noteq> 0" "\<not> ok (patch_span p * 4) \<or> \<not> patch_check h (patch_subop p)"
  shows "apply_patch g ok rd i p mem = Some mem"
proof -
  have "dma_patch_ready rd i mem = Some (patch_check h R_DMA_DATA, mem)"
    using assms(1,2) by (auto simp: dma_patch_ready_def dma_patch_recover_header_def patch_check_def)
  then show ?thesis
    using assms
    by (cases p)
      (auto simp: patch_packet_def agc_set_packet_predication_def patch_set_address_def patch_add_registers_def
        patch_set_num_registers_def agc_patch_write_data_addr_def agc_patch_wait_reg_mem_addr_def
        agc_patch_release_mem_addr_def agc_patch_release_mem_data_def agc_jump_patch_target_def
        agc_patch_dma_data_dst_def agc_patch_dma_data_src_def patch_lengths)
qed

text \<open>
  C31: A patch of a packet as its builder wrote it changes, for the decoder, exactly the operand it names
  (the release-memory patch also the recorded old label), and no dword outside the packet's payload; a patch
  whose target is not writable or is another packet leaves the memory as it is.
\<close>

theorem patches_change_their_operand:
  assumes "dw mem i = Some h" and "h \<noteq> 0" and "i + unat (hdr_len h) \<le> length mem"
  shows "(patch_applies p h \<and> (\<forall>n \<le> 4 * unat (hdr_len h). ok n) \<longrightarrow>
       (\<exists>mem' c. apply_patch g ok rd i p mem = Some mem' \<and> decode_packet mem i h = Some c
          \<and> dw mem' i = Some h \<and> decode_packet mem' i h = Some (patched g p c)
          \<and> only_changes (i + 1) (unat (hdr_len h) - 1) mem mem'))
     \<and> (\<not> ok (patch_span p * 4) \<or> \<not> patch_check h (patch_subop p) \<longrightarrow> apply_patch g ok rd i p mem = Some mem)"
  using patch_result[of p h mem i ok g rd] patch_refused[of mem i h ok p g rd] assms
  unfolding patches_to_def by blast

theorem patches_change_their_operand_witness:
  "(\<exists>mem' c. apply_patch (\<lambda>_. None) (\<lambda>_. True) True 1 (JumpTarget 0x200000000 16) [0, 0xC0031078, 0, 0, 0, 1, 7] = Some mem'
      \<and> decode_packet [0, 0xC0031078, 0, 0, 0, 1, 7] 1 0xC0031078 = Some c
      \<and> dw mem' 1 = Some 0xC0031078
      \<and> decode_packet mem' 1 0xC0031078 = Some (patched (\<lambda>_. None) (JumpTarget 0x200000000 16) c)
      \<and> only_changes (1 + 1) (5 - 1) [0, 0xC0031078, 0, 0, 0, 1, 7] mem')
   \<and> apply_patch (\<lambda>_. None) (\<lambda>_. False) True 1 (JumpTarget 0x200000000 16) [0, 0xC0031078, 0, 0, 0, 1, 7]
      = Some [0, 0xC0031078, 0, 0, 0, 1, 7]"
proof -
  let ?mem = "[0, 0xC0031078, 0, 0, 0, 1, 7] :: dword list"
  let ?p = "JumpTarget 0x200000000 16"
  have l: "unat (hdr_len 0xC0031078) = 5" by (simp add: hdr_len_def)
  have h: "patch_applies ?p 0xC0031078" "dw ?mem 1 = Some 0xC0031078" "(0xC0031078 :: dword) \<noteq> 0"
    "1 + unat (hdr_len 0xC0031078) \<le> length ?mem"
    by (simp_all add: patch_applies_def patch_check_def it_opcodes r_opcodes R_NUM_def l dw_def)
  show ?thesis
    using patches_change_their_operand[OF h(2-4), of ?p "\<lambda>_. True" "\<lambda>_. None" True]
      patches_change_their_operand[OF h(2-4), of ?p "\<lambda>_. False" "\<lambda>_. None" True] h(1)
    unfolding l by blast
qed

text \<open>
  C32: A DMA packet whose header the guest has zeroed is restored when it is patched: with a plausible body
  it decodes again as a DMA copy of seven dwords with the new destination and its old operands, and nothing
  behind those seven dwords changes.
\<close>

theorem clobbered_dma_restored:
  assumes "i + 7 \<le> length mem" and "dw mem i = Some 0" and "\<forall>n \<le> 28. ok n"
    and "lo_hi mem (i + 1) = Some dst" and "dst \<ge> 0x10000"
    and "lo_hi mem (i + 3) = Some src" and "dw mem (i + 5) = Some bytes" and "0 < bytes" and "bytes \<le> 0x10000000"
    and "dw mem (i + 6) = Some sels"
  shows "\<exists>mem' h c. apply_patch g ok True i (DmaDst a) mem = Some mem' \<and> dw mem' i = Some h
     \<and> decode_packet mem' i h = Some c \<and> unat (hdr_len h) = 7 \<and> is_type3 h
     \<and> operands mem' c = (new_command\<lparr>kind := DmaData, dd_dst := a, dd_src := src, dd_bytes := bytes,
          dd_sels := sels, dd_valid := True\<rparr>, [])
     \<and> only_changes i 7 mem mem'"
proof -
  let ?h = "PM4 (word_of_nat 7) IT_NOP R_DMA_DATA"
  have h: "patch_check ?h R_DMA_DATA" "unat (hdr_len ?h) = 7"
    using hdr_op_PM4[of "word_of_nat 7" IT_NOP R_DMA_DATA] hdr_r_PM4[of "word_of_nat 7" IT_NOP R_DMA_DATA]
      hdr_len_PM4[of 7 IT_NOP R_DMA_DATA]
    by (simp_all add: patch_check_def hdr_op_def hdr_r_def R_NUM_def)
  obtain mem1 where 1: "write_at mem i [?h] = Some mem1"
    using write_at_defined[of i "[?h]" mem] assms(1) by auto
  obtain mem2 where 2: "write_at mem1 (i + 1) [lo32 a, hi32 a] = Some mem2"
    using write_at_defined[of "i + 1" "[lo32 a, hi32 a]" mem1] assms(1) write_at_length[OF 1] by auto
  have "drop_bit 8 0 AND 0xff \<noteq> IT_NOP" by (simp add: it_opcodes)
  moreover have "(dst < 0x10000) = False" "(bytes = 0) = False" "(0x10000000 < bytes) = False"
    using assms(5,8,9) by (auto simp only: not_less word_greater_zero_iff not_le)
  ultimately have "dma_patch_ready True i mem = Some (True, mem1)"
    using assms(2,4,7) 1 by (simp add: dma_patch_ready_def dma_patch_recover_header_def patch_lengths)
  then have result: "apply_patch g ok True i (DmaDst a) mem = Some mem2"
    using assms(3) 2 h(2) by (simp add: agc_patch_dma_data_dst_def dw_write_at[OF 2] dw_write_at[OF 1] word_le_nat_alt)
  have reads: "lo_hi mem2 (i + 1) = Some a" "lo_hi mem2 (i + 3) = Some src" "dw mem2 (i + 5) = Some bytes"
    "dw mem2 (i + 6) = Some sels" "dw mem2 i = Some ?h"
    using assms(6,7,10) by (simp_all add: lo_hi_def dw_write_at[OF 2] dw_write_at[OF 1])
  have "decode_packet mem2 i ?h = Some ((header_command ?h i)\<lparr>kind := DmaData, dd_dst := a, dd_src := src,
      dd_bytes := bytes, dd_sels := sels, dd_valid := True\<rparr>)"
    using reads h by (simp add: decode_packet_nop patch_simps)
  moreover have "operands mem2 ((header_command ?h i)\<lparr>kind := DmaData, dd_dst := a, dd_src := src,
      dd_bytes := bytes, dd_sels := sels, dd_valid := True\<rparr>)
    = (new_command\<lparr>kind := DmaData, dd_dst := a, dd_src := src, dd_bytes := bytes, dd_sels := sels, dd_valid := True\<rparr>, [])"
    by (simp add: operands_def header_simps)
  moreover have "only_changes i 7 mem mem2"
    by (intro only_changes_trans[OF only_changes_write[OF 1] only_changes_write[OF 2]]) simp_all
  ultimately show ?thesis using result reads(5) h(2) is_type3_PM4 by blast
qed

theorem clobbered_dma_restored_witness:
  "\<exists>mem' h c. apply_patch (\<lambda>_. None) (\<lambda>_. True) True 0 (DmaDst 0x300000000) [0, 0, 2, 5, 0, 8, 0, 0x80000000] = Some mem'
     \<and> dw mem' 0 = Some h \<and> decode_packet mem' 0 h = Some c \<and> unat (hdr_len h) = 7 \<and> is_type3 h
     \<and> operands mem' c = (new_command\<lparr>kind := DmaData, dd_dst := 0x300000000, dd_src := 5, dd_bytes := 8,
          dd_sels := 0, dd_valid := True\<rparr>, [])
     \<and> only_changes 0 7 [0, 0, 2, 5, 0, 8, 0, 0x80000000] mem'"
  by (rule clobbered_dma_restored[where dst = "0x200000000"]) (simp_all add: dw_def lo_hi_def)

end
