(* ===== verification/Rdna2Types.thy ===== *)
theory Rdna2Types
  imports Prelude
begin

text \<open>
  Instructions of guest shaders (\<open>gpu/recompiler/rdna2_decode.hpp\<close>): formats, operands, the decoded
  instruction and the predicates on opcodes that decoder and recompiler share. Fields of an
  instruction word are cut out with shifts and masks as in the code.
\<close>

definition ifld :: "dword \<Rightarrow> nat \<Rightarrow> dword \<Rightarrow> dword" where
  "ifld w k m = drop_bit k w AND m"

definition iflag :: "dword \<Rightarrow> nat \<Rightarrow> bool" where
  "iflag w k \<longleftrightarrow> drop_bit k w AND 1 \<noteq> 0"

subsection \<open>Formats and opcodes\<close>

datatype rdna2_format =
    SOP2 | SOP1 | SOPK | SOPC | SOPP | SMEM | VOP2 | VOP1 | VOPC | VOP3 | VINTRP | DS | MUBUF | MTBUF
  | MIMG | FLAT | EXP | VOP3P | UnknownFormat

definition kSop1OpcodeAndSaveexecB32 :: dword where "kSop1OpcodeAndSaveexecB32 = 0x3c"
definition kSop1OpcodeOrn2SaveexecB32 :: dword where "kSop1OpcodeOrn2SaveexecB32 = 0x40"
definition kSop1OpcodeAndn1SaveexecB32 :: dword where "kSop1OpcodeAndn1SaveexecB32 = 0x44"
definition kSop1OpcodeOrn1SaveexecB32 :: dword where "kSop1OpcodeOrn1SaveexecB32 = 0x45"
definition kSop1OpcodeAndn1WrexecB32 :: dword where "kSop1OpcodeAndn1WrexecB32 = 0x46"
definition kSop1OpcodeAndn2WrexecB32 :: dword where "kSop1OpcodeAndn2WrexecB32 = 0x47"
definition kSop2OpcodeAndB32 :: dword where "kSop2OpcodeAndB32 = 0x0e"
definition kSop2OpcodeOrB32 :: dword where "kSop2OpcodeOrB32 = 0x10"
definition kSop2OpcodeXorB32 :: dword where "kSop2OpcodeXorB32 = 0x12"
definition kSop2OpcodeAndn2B32 :: dword where "kSop2OpcodeAndn2B32 = 0x14"
definition kSop2OpcodeOrn2B32 :: dword where "kSop2OpcodeOrn2B32 = 0x16"
definition kSop2OpcodeNandB32 :: dword where "kSop2OpcodeNandB32 = 0x18"
definition kSop2OpcodeNorB32 :: dword where "kSop2OpcodeNorB32 = 0x1a"
definition kSop2OpcodeXnorB32 :: dword where "kSop2OpcodeXnorB32 = 0x1c"
definition kSoppOpcodeBranch :: dword where "kSoppOpcodeBranch = 0x02"
definition kSoppOpcodeCbranchScc0 :: dword where "kSoppOpcodeCbranchScc0 = 0x04"
definition kSoppOpcodeCbranchExecnz :: dword where "kSoppOpcodeCbranchExecnz = 0x09"
definition kSmemOpcodeBufferLoadDword :: dword where "kSmemOpcodeBufferLoadDword = 0x08"
definition kSmemOpcodeBufferLoadDwordX16 :: dword where "kSmemOpcodeBufferLoadDwordX16 = 0x0c"
definition kVop3OpcodeLshlrevB64 :: dword where "kVop3OpcodeLshlrevB64 = 0x2ff"
definition kVop3OpcodeLshrrevB64 :: dword where "kVop3OpcodeLshrrevB64 = 0x300"
definition kVop3OpcodeMacF32 :: dword where "kVop3OpcodeMacF32 = 0x11f"
definition kVop3OpcodeMulLoU32 :: dword where "kVop3OpcodeMulLoU32 = 0x169"
definition kVop3OpcodeMulHiU32 :: dword where "kVop3OpcodeMulHiU32 = 0x16a"
definition kVop3OpcodeMulHiI32 :: dword where "kVop3OpcodeMulHiI32 = 0x16c"
definition kVop3OpcodeAddCoU32 :: dword where "kVop3OpcodeAddCoU32 = 0x30f"
definition kVop3OpcodeSubCoU32 :: dword where "kVop3OpcodeSubCoU32 = 0x310"
definition kVop3OpcodeSubrevCoU32 :: dword where "kVop3OpcodeSubrevCoU32 = 0x319"
definition kVop3OpcodeLdexpF32 :: dword where "kVop3OpcodeLdexpF32 = 0x362"
definition kVop3OpcodeBfmB32 :: dword where "kVop3OpcodeBfmB32 = 0x363"
definition kDsOpcodeBpermuteB32 :: dword where "kDsOpcodeBpermuteB32 = 0xb3"
definition kMubufOpcodeLoadDword :: dword where "kMubufOpcodeLoadDword = 0x0c"
definition kMubufOpcodeAtomicSwapX2 :: dword where "kMubufOpcodeAtomicSwapX2 = 0x50"
definition kMubufOpcodeAtomicOrX2 :: dword where "kMubufOpcodeAtomicOrX2 = 0x5a"

lemmas rdna2_opcodes =
  kSop1OpcodeAndSaveexecB32_def kSop1OpcodeOrn2SaveexecB32_def kSop1OpcodeAndn1SaveexecB32_def
  kSop1OpcodeOrn1SaveexecB32_def kSop1OpcodeAndn1WrexecB32_def kSop1OpcodeAndn2WrexecB32_def
  kSop2OpcodeAndB32_def kSop2OpcodeOrB32_def kSop2OpcodeXorB32_def kSop2OpcodeAndn2B32_def
  kSop2OpcodeOrn2B32_def kSop2OpcodeNandB32_def kSop2OpcodeNorB32_def kSop2OpcodeXnorB32_def
  kSoppOpcodeBranch_def kSoppOpcodeCbranchScc0_def kSoppOpcodeCbranchExecnz_def
  kSmemOpcodeBufferLoadDword_def kSmemOpcodeBufferLoadDwordX16_def
  kVop3OpcodeLshlrevB64_def kVop3OpcodeLshrrevB64_def kVop3OpcodeMacF32_def kVop3OpcodeMulLoU32_def
  kVop3OpcodeMulHiU32_def kVop3OpcodeMulHiI32_def kVop3OpcodeAddCoU32_def kVop3OpcodeSubCoU32_def
  kVop3OpcodeSubrevCoU32_def kVop3OpcodeLdexpF32_def kVop3OpcodeBfmB32_def kDsOpcodeBpermuteB32_def
  kMubufOpcodeLoadDword_def kMubufOpcodeAtomicSwapX2_def kMubufOpcodeAtomicOrX2_def

definition sopp_opcode_is_direct_branch :: "dword \<Rightarrow> bool" where
  "sopp_opcode_is_direct_branch opc \<longleftrightarrow>
     opc = kSoppOpcodeBranch \<or> (opc \<ge> kSoppOpcodeCbranchScc0 \<and> opc \<le> kSoppOpcodeCbranchExecnz)"

definition sop1_opcode_is_saveexec_b32 :: "dword \<Rightarrow> bool" where
  "sop1_opcode_is_saveexec_b32 opc \<longleftrightarrow> opc \<ge> kSop1OpcodeAndSaveexecB32 \<and> opc \<le> kSop1OpcodeOrn1SaveexecB32"

definition sop1_opcode_is_wrexec_b32 :: "dword \<Rightarrow> bool" where
  "sop1_opcode_is_wrexec_b32 opc \<longleftrightarrow> opc \<ge> kSop1OpcodeAndn1WrexecB32 \<and> opc \<le> kSop1OpcodeAndn2WrexecB32"

definition sop1_opcode_writes_exec_b32 :: "dword \<Rightarrow> bool" where
  "sop1_opcode_writes_exec_b32 opc \<longleftrightarrow> sop1_opcode_is_saveexec_b32 opc \<or> sop1_opcode_is_wrexec_b32 opc"

definition sop1_opcode_is_emitted_saveexec_b32 :: "dword \<Rightarrow> bool" where
  "sop1_opcode_is_emitted_saveexec_b32 opc \<longleftrightarrow>
     opc = kSop1OpcodeAndSaveexecB32 \<or> opc = kSop1OpcodeOrn2SaveexecB32 \<or> opc = kSop1OpcodeAndn1SaveexecB32"

definition smem_opcode_is_buffer_load :: "dword \<Rightarrow> bool" where
  "smem_opcode_is_buffer_load opc \<longleftrightarrow> opc \<ge> kSmemOpcodeBufferLoadDword \<and> opc \<le> kSmemOpcodeBufferLoadDwordX16"

definition sop2_is_b32_logical :: "dword \<Rightarrow> bool" where
  "sop2_is_b32_logical opc \<longleftrightarrow>
     opc = kSop2OpcodeAndB32 \<or> opc = kSop2OpcodeOrB32 \<or> opc = kSop2OpcodeXorB32 \<or> opc = kSop2OpcodeAndn2B32
     \<or> opc = kSop2OpcodeOrn2B32 \<or> opc = kSop2OpcodeNandB32 \<or> opc = kSop2OpcodeNorB32 \<or> opc = kSop2OpcodeXnorB32"

definition emitted_vop3_opcode_has_two_data_sources :: "dword \<Rightarrow> bool" where
  "emitted_vop3_opcode_has_two_data_sources opc \<longleftrightarrow>
     (opc \<ge> 0x103 \<and> opc \<le> 0x105) \<or> opc = 0x107 \<or> opc = 0x108 \<or> opc = 0x10f \<or> opc = 0x110
     \<or> opc = kVop3OpcodeMacF32 \<or> opc = 0x12f
     \<or> opc = kVop3OpcodeMulLoU32 \<or> opc = kVop3OpcodeMulHiU32 \<or> opc = kVop3OpcodeMulHiI32
     \<or> opc = kVop3OpcodeLshlrevB64 \<or> opc = kVop3OpcodeLshrrevB64
     \<or> opc = kVop3OpcodeAddCoU32 \<or> opc = kVop3OpcodeSubCoU32 \<or> opc = kVop3OpcodeSubrevCoU32
     \<or> (opc \<ge> 0x303 \<and> opc \<le> 0x305) \<or> (opc \<ge> 0x307 \<and> opc \<le> 0x30e) \<or> opc = 0x311 \<or> opc = 0x314
     \<or> opc = 0x360 \<or> opc = 0x361 \<or> opc = kVop3OpcodeLdexpF32 \<or> opc = kVop3OpcodeBfmB32
     \<or> opc = 0x364 \<or> opc = 0x365 \<or> opc = 0x366 \<or> opc = 0x368 \<or> opc = 0x369 \<or> opc = 0x36a"

definition vopc_is_cmpx :: "dword \<Rightarrow> bool" where
  "vopc_is_cmpx opc \<longleftrightarrow>
     (opc \<ge> 0x10 \<and> opc \<le> 0x1F) \<or> (opc \<ge> 0x30 \<and> opc \<le> 0x3F) \<or> (opc \<ge> 0x90 \<and> opc \<le> 0x9F)
     \<or> (opc \<ge> 0xB0 \<and> opc \<le> 0xBE) \<or> (opc \<ge> 0xD0 \<and> opc \<le> 0xDF) \<or> (opc \<ge> 0xF0 \<and> opc \<le> 0xFF)"

definition vop1_is_f16_unary :: "dword \<Rightarrow> bool" where
  "vop1_is_f16_unary opc \<longleftrightarrow> (opc \<ge> 0x54 \<and> opc \<le> 0x58) \<or> (opc \<ge> 0x5B \<and> opc \<le> 0x61)"

subsection \<open>Operands\<close>

datatype operand_kind = NoOperand | SGPR | VGPR | InlineInt | InlineFloat | Literal | Special

record operand =
  opkind :: operand_kind
  opvalue :: int

definition no_operand :: operand where
  "no_operand = \<lparr>opkind = NoOperand, opvalue = 0\<rparr>"

abbreviation opnd :: "operand_kind \<Rightarrow> int \<Rightarrow> operand" where
  "opnd k v \<equiv> \<lparr>opkind = k, opvalue = v\<rparr>"

definition decode_src_field :: "dword \<Rightarrow> operand" where
  "decode_src_field f =
     (if f \<ge> 256 then opnd VGPR (uint (f - 256))
      else if f \<le> 105 then opnd SGPR (uint f)
      else if f = 128 then opnd InlineInt 0
      else if f \<ge> 129 \<and> f \<le> 192 then opnd InlineInt (uint f - 128)
      else if f \<ge> 193 \<and> f \<le> 208 then opnd InlineInt (192 - uint f)
      else if f \<ge> 240 \<and> f \<le> 248 then opnd InlineFloat (uint f)
      else if f = 255 then opnd Literal 0
      else opnd Special (uint f))"

text \<open>The value of an inline float, as the bits of its \<open>float\<close>.\<close>

definition inline_float_value :: "dword \<Rightarrow> dword" where
  "inline_float_value code =
     (if code = 240 then 0x3f000000 else if code = 241 then 0xbf000000
      else if code = 242 then 0x3f800000 else if code = 243 then 0xbf800000
      else if code = 244 then 0x40000000 else if code = 245 then 0xc0000000
      else if code = 246 then 0x40800000 else if code = 247 then 0xc0800000
      else if code = 248 then 0x3e22f983 else 0)"

definition vgpr :: "dword \<Rightarrow> operand" where
  "vgpr n = opnd VGPR (uint (n AND 0xFF))"

definition sgpr :: "dword \<Rightarrow> operand" where
  "sgpr n = opnd SGPR (uint (n AND 0x7F))"

definition sext16 :: "dword \<Rightarrow> int" where
  "sext16 w = sint (ucast (w AND 0xFFFF) :: 16 word)"

subsection \<open>Instructions\<close>

text \<open>The struct in two parts: what the framing of the stream determines, and the operands.\<close>

record rdna2_packet =
  fmt :: rdna2_format
  inst_pc :: nat
  words :: "dword list"
  len_dwords :: nat
  synthetic_terminator :: bool
  has_literal :: bool
  literal :: dword
  is_end :: bool
  has_modifier :: bool
  has_sdwa :: bool
  has_dpp :: bool
  dpp_ctrl :: "16 word"
  dpp_bound_ctrl :: bool
  dpp_bank_mask :: byte
  dpp_row_mask :: byte
  permlane_fetch_inactive :: bool
  permlane_bound_ctrl :: bool
  sdwa_dst_sel :: byte
  sdwa_dst_unused :: byte
  sdwa_src0_sel :: byte
  sdwa_src1_sel :: byte
  sdwa_src0_sext :: bool
  sdwa_src1_sext :: bool

record rdna2_inst = rdna2_packet +
  opcode :: dword
  dst :: operand
  src :: "operand list"
  n_src :: nat
  simm16 :: int
  src_neg :: "bool list"
  src_abs :: "bool list"
  clamp :: bool
  omod :: byte
  sdst :: operand
  exp_target :: dword
  exp_en :: dword
  exp_compr :: bool
  mubuf_glc :: bool
  mubuf_dlc :: bool
  mubuf_lds :: bool
  mubuf_tfe :: bool
  mtbuf_format :: dword
  mtbuf_tfe :: bool
  flat_segment :: dword
  flat_glc :: bool
  flat_slc :: bool
  flat_dlc :: bool
  flat_lds :: bool
  ds_gds :: bool
  mimg_nsa :: dword
  mimg_dmask :: dword
  mimg_dim :: dword
  mimg_unorm :: bool
  mimg_glc :: bool
  mimg_dlc :: bool
  mimg_r128 :: bool
  mimg_tfe :: bool
  mimg_lwe :: bool
  mimg_slc :: bool
  mimg_a16 :: bool
  mimg_d16 :: bool
  mimg_reserved :: bool
  vintrp_attr :: dword
  vintrp_chan :: dword
  vop3p_opsel :: byte
  vop3p_opsel_hi :: byte
  vop3p_neg_hi :: byte

text \<open>A default-constructed instruction, \<open>Rdna2Inst i;\<close>.\<close>

definition new_inst :: rdna2_inst where
  "new_inst = \<lparr>fmt = UnknownFormat, inst_pc = 0, words = replicate 5 0, len_dwords = 1,
     synthetic_terminator = False, has_literal = False, literal = 0, is_end = False,
     has_modifier = False, has_sdwa = False, has_dpp = False, dpp_ctrl = 0, dpp_bound_ctrl = False,
     dpp_bank_mask = 0, dpp_row_mask = 0, permlane_fetch_inactive = False,
     permlane_bound_ctrl = False, sdwa_dst_sel = 6, sdwa_dst_unused = 0, sdwa_src0_sel = 6,
     sdwa_src1_sel = 6, sdwa_src0_sext = False, sdwa_src1_sext = False,
     opcode = 0, dst = no_operand, src = replicate 4 no_operand, n_src = 0, simm16 = 0,
     src_neg = replicate 4 False, src_abs = replicate 4 False, clamp = False, omod = 0,
     sdst = no_operand, exp_target = 0, exp_en = 0, exp_compr = False,
     mubuf_glc = False, mubuf_dlc = False, mubuf_lds = False, mubuf_tfe = False,
     mtbuf_format = 0, mtbuf_tfe = False, flat_segment = 0, flat_glc = False, flat_slc = False,
     flat_dlc = False, flat_lds = False, ds_gds = False, mimg_nsa = 0, mimg_dmask = 0, mimg_dim = 0,
     mimg_unorm = False, mimg_glc = False, mimg_dlc = False, mimg_r128 = False, mimg_tfe = False,
     mimg_lwe = False, mimg_slc = False, mimg_a16 = False, mimg_d16 = False, mimg_reserved = False,
     vintrp_attr = 0, vintrp_chan = 0, vop3p_opsel = 0, vop3p_opsel_hi = 0, vop3p_neg_hi = 0\<rparr>"

end
