(* ===== verification/Rdna2Sdwa.thy ===== *)
theory Rdna2Sdwa
  imports Rdna2Types
begin

text \<open>
  Operands of the one-, two-source and compare vector formats (\<open>decode_operands\<close> of
  \<open>gpu/recompiler/rdna2_decode.cpp\<close>, the cases VOP1, VOP2 and VOPC). Source field 0xF9 says that
  the second dword is an SDWA control word: sub-dword selects of the sources and the destination,
  sign extension and float modifiers. An instruction starts with \<open>has_modifier\<close> set, which makes
  the recompiler refuse it; the arms below clear it for the forms the recompiler models.
\<close>

named_theorems rdna2_frame \<open>what decoding of operands leaves alone\<close>

subsection \<open>The control word\<close>

definition sdwa_dsel :: "dword \<Rightarrow> dword" where "sdwa_dsel sd = ifld sd 8 7"
definition sdwa_dun :: "dword \<Rightarrow> dword" where "sdwa_dun sd = ifld sd 11 3"
definition sdwa_s0sel :: "dword \<Rightarrow> dword" where "sdwa_s0sel sd = ifld sd 16 7"
definition sdwa_s1sel :: "dword \<Rightarrow> dword" where "sdwa_s1sel sd = ifld sd 24 7"

text \<open>The condition on modifiers that most arms for one source repeat.\<close>

definition sdwa_plain0 :: "dword \<Rightarrow> rdna2_inst \<Rightarrow> bool" where
  "sdwa_plain0 sd i \<longleftrightarrow>
     ifld sd 19 0x9 = 0 \<and> \<not> clamp i \<and> omod i = 0 \<and> \<not> src_neg i ! 0 \<and> \<not> src_abs i ! 0"

subsection \<open>VOP1\<close>

definition vop1_sdwa_mov :: "dword \<Rightarrow> rdna2_inst \<Rightarrow> rdna2_inst" where
  "vop1_sdwa_mov sd i =
     (if (sdwa_dsel sd = 4 \<or> sdwa_dsel sd = 5) \<and> sdwa_dun sd = 2
         \<and> sdwa_s0sel sd \<ge> 4 \<and> sdwa_s0sel sd \<le> 6 \<and> sdwa_plain0 sd i
      then i\<lparr>sdwa_dst_sel := ucast (sdwa_dsel sd), sdwa_dst_unused := ucast (sdwa_dun sd),
             sdwa_src0_sel := ucast (sdwa_s0sel sd), has_modifier := False\<rparr>
      else if sdwa_dsel sd = 6 \<and> sdwa_dun sd = 0 \<and> sdwa_s0sel sd \<le> 5
              \<and> \<not> iflag sd 22 \<and> \<not> clamp i \<and> omod i = 0 \<and> \<not> src_neg i ! 0 \<and> \<not> src_abs i ! 0
      then i\<lparr>sdwa_dst_sel := ucast (sdwa_dsel sd), sdwa_dst_unused := ucast (sdwa_dun sd),
             sdwa_src0_sel := ucast (sdwa_s0sel sd), sdwa_src0_sext := iflag sd 19,
             has_modifier := False\<rparr>
      else i)"

definition vop1_sdwa_bfrev :: "dword \<Rightarrow> rdna2_inst \<Rightarrow> rdna2_inst" where
  "vop1_sdwa_bfrev sd i =
     (if sdwa_dsel sd = 6 \<and> sdwa_dun sd = 0 \<and> sdwa_s0sel sd \<le> 5
         \<and> sdwa_plain0 sd i \<and> sd AND 0xff000000 = 0
      then i\<lparr>sdwa_dst_sel := ucast (sdwa_dsel sd), sdwa_dst_unused := ucast (sdwa_dun sd),
             sdwa_src0_sel := ucast (sdwa_s0sel sd), has_modifier := False\<rparr>
      else i)"

definition vop1_sdwa_cvt_f32_f16 :: "dword \<Rightarrow> rdna2_inst \<Rightarrow> rdna2_inst" where
  "vop1_sdwa_cvt_f32_f16 sd i =
     (if sdwa_dsel sd = 6 \<and> sdwa_dun sd = 0 \<and> sdwa_s0sel sd \<ge> 4 \<and> sdwa_s0sel sd \<le> 6
         \<and> ifld sd 19 0x9 = 0 \<and> \<not> clamp i \<and> omod i = 0
      then i\<lparr>sdwa_src0_sel := ucast (sdwa_s0sel sd), has_modifier := False\<rparr>
      else i)"

definition vop1_sdwa_cvt_f16_f32 :: "dword \<Rightarrow> rdna2_inst \<Rightarrow> rdna2_inst" where
  "vop1_sdwa_cvt_f16_f32 sd i =
     (if (sdwa_dsel sd = 4 \<or> sdwa_dsel sd = 5) \<and> sdwa_dun sd = 2 \<and> sdwa_s0sel sd = 6 \<and> sdwa_plain0 sd i
      then i\<lparr>sdwa_dst_sel := ucast (sdwa_dsel sd), sdwa_dst_unused := ucast (sdwa_dun sd),
             has_modifier := False\<rparr>
      else i)"

definition vop1_sdwa_cvt_int_f32 :: "dword \<Rightarrow> rdna2_inst \<Rightarrow> rdna2_inst" where
  "vop1_sdwa_cvt_int_f32 sd i =
     (if (sdwa_dsel sd = 4 \<or> sdwa_dsel sd = 5) \<and> sdwa_dun sd = 2 \<and> sdwa_s0sel sd = 6 \<and> sdwa_plain0 sd i
      then i\<lparr>sdwa_dst_sel := ucast (sdwa_dsel sd), sdwa_dst_unused := ucast (sdwa_dun sd),
             sdwa_src0_sel := ucast (sdwa_s0sel sd), has_modifier := False\<rparr>
      else i)"

definition vop1_sdwa_cvt_f32_int :: "dword \<Rightarrow> rdna2_inst \<Rightarrow> rdna2_inst" where
  "vop1_sdwa_cvt_f32_int sd i =
     (let signed_cvt = ifld (words i ! 0) 9 0xFF = 0x05; sext = iflag sd 19
      in if sdwa_dsel sd = 6 \<and> (sdwa_dun sd = 0 \<or> sdwa_dun sd = 2) \<and> sdwa_s0sel sd \<le> 5
            \<and> ifld sd 20 0x7 = 0 \<and> (signed_cvt \<or> \<not> sext)
            \<and> \<not> clamp i \<and> omod i = 0 \<and> \<not> src_neg i ! 0 \<and> \<not> src_abs i ! 0
         then i\<lparr>sdwa_dst_sel := ucast (sdwa_dsel sd), sdwa_dst_unused := ucast (sdwa_dun sd),
                sdwa_src0_sel := ucast (sdwa_s0sel sd), has_modifier := False\<rparr>
         else i)"

text \<open>The 16-bit conversions and the unary operations on halves, whose arms have the same body.\<close>

definition vop1_sdwa_half :: "dword \<Rightarrow> rdna2_inst \<Rightarrow> rdna2_inst" where
  "vop1_sdwa_half sd i =
     (if (sdwa_dsel sd = 4 \<or> sdwa_dsel sd = 5) \<and> sdwa_dun sd = 2
         \<and> sdwa_s0sel sd \<ge> 4 \<and> sdwa_s0sel sd \<le> 6 \<and> sdwa_plain0 sd i
      then i\<lparr>sdwa_dst_sel := ucast (sdwa_dsel sd), sdwa_dst_unused := ucast (sdwa_dun sd),
             sdwa_src0_sel := ucast (sdwa_s0sel sd), has_modifier := False\<rparr>
      else i)"

definition vop1_sdwa :: "dword \<Rightarrow> rdna2_inst \<Rightarrow> rdna2_inst" where
  "vop1_sdwa sd i =
     (let opc = ifld (words i ! 0) 9 0xFF
      in if opc \<noteq> 0x38 \<and> sdwa_dsel sd = 6 \<and> sdwa_s0sel sd = 6 \<and> ifld sd 19 0x9 = 0
         then i\<lparr>has_modifier := False\<rparr>
         else if opc = 0x01 then vop1_sdwa_mov sd i
         else if opc = 0x38 then vop1_sdwa_bfrev sd i
         else if opc = 0x0B then vop1_sdwa_cvt_f32_f16 sd i
         else if opc = 0x0A then vop1_sdwa_cvt_f16_f32 sd i
         else if opc = 0x07 \<or> opc = 0x08 then vop1_sdwa_cvt_int_f32 sd i
         else if opc = 0x05 \<or> opc = 0x06 then vop1_sdwa_cvt_f32_int sd i
         else if opc \<ge> 0x50 \<and> opc \<le> 0x53 then vop1_sdwa_half sd i
         else if vop1_is_f16_unary opc then vop1_sdwa_half sd i
         else i)"

text \<open>What a control word says of the first source; \<open>S0\<close> selects a scalar.\<close>

definition sdwa_src0 :: "dword \<Rightarrow> operand" where
  "sdwa_src0 sd = (if iflag sd 23 then decode_src_field (sd AND 0xFF) else vgpr (sd AND 0xFF))"

definition sdwa_src1 :: "dword \<Rightarrow> dword \<Rightarrow> operand" where
  "sdwa_src1 sd w = (if iflag sd 31 then decode_src_field (ifld w 9 0xFF) else vgpr (ifld w 9 0xFF))"

definition vop1_sdwa_operands :: "dword \<Rightarrow> rdna2_inst \<Rightarrow> rdna2_inst" where
  "vop1_sdwa_operands sd i =
     i\<lparr>src := (src i)[0 := sdwa_src0 sd], n_src := 1,
       src_neg := (src_neg i)[0 := iflag sd 20], src_abs := (src_abs i)[0 := iflag sd 21],
       clamp := iflag sd 13, omod := ucast (ifld sd 14 3)\<rparr>"

definition decode_vop1 :: "rdna2_inst \<Rightarrow> rdna2_inst" where
  "decode_vop1 i =
     (let w = words i ! 0; i' = i\<lparr>opcode := ifld w 9 0xFF, dst := vgpr (drop_bit 17 w)\<rparr>
      in if w AND 0x1FF = 0xF9 then vop1_sdwa (words i ! 1) (vop1_sdwa_operands (words i ! 1) i')
         else if has_dpp i then i'\<lparr>src := (src i)[0 := vgpr (words i ! 1)], n_src := 1\<rparr>
         else i'\<lparr>src := (src i)[0 := decode_src_field (w AND 0x1FF)], n_src := 1\<rparr>)"

subsection \<open>VOP2\<close>

definition vop2_integer_op :: "dword \<Rightarrow> bool" where
  "vop2_integer_op opc \<longleftrightarrow>
     opc = 0x0B \<or> (opc \<ge> 0x11 \<and> opc \<le> 0x14) \<or> opc = 0x16 \<or> opc = 0x18 \<or> (opc \<ge> 0x1A \<and> opc \<le> 0x1E)
     \<or> (opc \<ge> 0x25 \<and> opc \<le> 0x2A)"

definition vop2_sdwa_integer :: "dword \<Rightarrow> rdna2_inst \<Rightarrow> rdna2_inst" where
  "vop2_sdwa_integer sd i =
     (let s0_sext = iflag sd 19; s1_sext = iflag sd 27
      in if vop2_integer_op (ifld (words i ! 0) 25 0x3F) \<and> sdwa_dsel sd \<le> 6
            \<and> (sdwa_dun sd = 0 \<or> sdwa_dun sd = 2) \<and> sdwa_s0sel sd \<le> 6 \<and> sdwa_s1sel sd \<le> 6
            \<and> \<not> (s0_sext \<and> sdwa_s0sel sd = 6) \<and> \<not> (s1_sext \<and> sdwa_s1sel sd = 6)
            \<and> ifld sd 20 0x7 = 0 \<and> ifld sd 28 0x7 = 0 \<and> \<not> clamp i \<and> omod i = 0
         then i\<lparr>sdwa_dst_sel := ucast (sdwa_dsel sd), sdwa_dst_unused := ucast (sdwa_dun sd),
                sdwa_src0_sel := ucast (sdwa_s0sel sd), sdwa_src1_sel := ucast (sdwa_s1sel sd),
                sdwa_src0_sext := s0_sext, sdwa_src1_sext := s1_sext, has_modifier := False\<rparr>
         else i)"

definition vop2_sdwa_f16 :: "dword \<Rightarrow> rdna2_inst \<Rightarrow> rdna2_inst" where
  "vop2_sdwa_f16 sd i =
     (let preserve_word = (sdwa_dsel sd = 4 \<or> sdwa_dsel sd = 5) \<and> sdwa_dun sd = 2;
          padded_dword = sdwa_dsel sd = 6 \<and> sdwa_dun sd = 0
      in if (preserve_word \<or> padded_dword)
            \<and> sdwa_s0sel sd \<ge> 4 \<and> sdwa_s0sel sd \<le> 6 \<and> sdwa_s1sel sd \<ge> 4 \<and> sdwa_s1sel sd \<le> 6
            \<and> ifld sd 19 0x9 = 0 \<and> ifld sd 27 0x9 = 0 \<and> omod i = 0
         then i\<lparr>sdwa_dst_sel := ucast (sdwa_dsel sd), sdwa_dst_unused := ucast (sdwa_dun sd),
                sdwa_src0_sel := ucast (sdwa_s0sel sd), sdwa_src1_sel := ucast (sdwa_s1sel sd),
                has_modifier := False\<rparr>
         else i)"

definition vop2_sdwa_cndmask :: "dword \<Rightarrow> rdna2_inst \<Rightarrow> rdna2_inst" where
  "vop2_sdwa_cndmask sd i =
     (if (sdwa_dsel sd = 4 \<or> sdwa_dsel sd = 5) \<and> sdwa_dun sd = 2
         \<and> sdwa_s0sel sd \<ge> 4 \<and> sdwa_s0sel sd \<le> 6 \<and> sdwa_s1sel sd \<ge> 4 \<and> sdwa_s1sel sd \<le> 6
         \<and> ifld sd 19 0x9 = 0 \<and> ifld sd 27 0x9 = 0 \<and> \<not> clamp i \<and> omod i = 0
         \<and> \<not> src_neg i ! 0 \<and> \<not> src_abs i ! 0 \<and> \<not> src_neg i ! 1 \<and> \<not> src_abs i ! 1
      then i\<lparr>sdwa_dst_sel := ucast (sdwa_dsel sd), sdwa_dst_unused := ucast (sdwa_dun sd),
             sdwa_src0_sel := ucast (sdwa_s0sel sd), sdwa_src1_sel := ucast (sdwa_s1sel sd),
             has_modifier := False\<rparr>
      else i)"

definition vop2_sdwa_lshlrev :: "dword \<Rightarrow> rdna2_inst \<Rightarrow> rdna2_inst" where
  "vop2_sdwa_lshlrev sd i =
     (if sdwa_dsel sd = 6 \<and> sdwa_dun sd = 0 \<and> sdwa_s0sel sd = 6 \<and> sdwa_s1sel sd \<le> 5
         \<and> ifld sd 19 0xF = 0 \<and> ifld sd 27 0xF = 0 \<and> \<not> clamp i \<and> omod i = 0
      then i\<lparr>sdwa_src0_sel := ucast (sdwa_s0sel sd), sdwa_src1_sel := ucast (sdwa_s1sel sd),
             has_modifier := False\<rparr>
      else i)"

definition vop2_sdwa :: "dword \<Rightarrow> rdna2_inst \<Rightarrow> rdna2_inst" where
  "vop2_sdwa sd i =
     (let opc = ifld (words i ! 0) 25 0x3F;
          i1 = (if sdwa_dsel sd = 6 \<and> sdwa_s0sel sd = 6 \<and> sdwa_s1sel sd = 6
                   \<and> ifld sd 19 0x9 = 0 \<and> ifld sd 27 0x9 = 0
                then i\<lparr>has_modifier := False\<rparr> else vop2_sdwa_integer sd i)
      in if has_modifier i1 \<and> (opc = 0x32 \<or> opc = 0x33 \<or> opc = 0x35 \<or> opc = 0x39 \<or> opc = 0x3A)
         then vop2_sdwa_f16 sd i1
         else if has_modifier i1 \<and> opc = 0x01 then vop2_sdwa_cndmask sd i1
         else if opc = 0x1A then vop2_sdwa_lshlrev sd i1
         else i1)"

definition vop2_sdwa_operands :: "dword \<Rightarrow> rdna2_inst \<Rightarrow> rdna2_inst" where
  "vop2_sdwa_operands sd i =
     i\<lparr>src := (src i)[0 := sdwa_src0 sd, 1 := sdwa_src1 sd (words i ! 0)], n_src := 2,
       src_neg := (src_neg i)[0 := iflag sd 20, 1 := iflag sd 28],
       src_abs := (src_abs i)[0 := iflag sd 21, 1 := iflag sd 29],
       clamp := iflag sd 13, omod := ucast (ifld sd 14 3)\<rparr>"

definition decode_vop2 :: "rdna2_inst \<Rightarrow> rdna2_inst" where
  "decode_vop2 i =
     (let w = words i ! 0; i' = i\<lparr>opcode := ifld w 25 0x3F, dst := vgpr (drop_bit 17 w)\<rparr>
      in if w AND 0x1FF = 0xF9 then vop2_sdwa (words i ! 1) (vop2_sdwa_operands (words i ! 1) i')
         else if has_dpp i
         then i'\<lparr>src := (src i)[0 := vgpr (words i ! 1), 1 := vgpr (drop_bit 9 w)], n_src := 2\<rparr>
         else i'\<lparr>src := (src i)[0 := decode_src_field (w AND 0x1FF), 1 := vgpr (drop_bit 9 w)], n_src := 2\<rparr>)"

subsection \<open>VOPC\<close>

definition vopc_integer_compare :: "dword \<Rightarrow> bool" where
  "vopc_integer_compare eff \<longleftrightarrow>
     (eff \<ge> 0x81 \<and> eff \<le> 0x86) \<or> (eff \<ge> 0x89 \<and> eff \<le> 0x8E) \<or> (eff \<ge> 0xA9 \<and> eff \<le> 0xAE)
     \<or> (eff \<ge> 0xC1 \<and> eff \<le> 0xC6)"

definition vopc_sdwa :: "dword \<Rightarrow> rdna2_inst \<Rightarrow> rdna2_inst" where
  "vopc_sdwa sd i =
     (if sdwa_s0sel sd = 6 \<and> sdwa_s1sel sd = 6 \<and> ifld sd 19 0x9 = 0 \<and> ifld sd 27 0x9 = 0
      then i\<lparr>has_modifier := False\<rparr>
      else
        (let eff = (if vopc_is_cmpx (opcode i) then opcode i - 0x10 else opcode i);
             i1 = (if eff \<ge> 0xC9 \<and> eff \<le> 0xCE
                      \<and> sdwa_s0sel sd \<ge> 4 \<and> sdwa_s0sel sd \<le> 6 \<and> sdwa_s1sel sd \<ge> 4 \<and> sdwa_s1sel sd \<le> 6
                      \<and> ifld sd 19 0x9 = 0 \<and> ifld sd 27 0x9 = 0
                   then i\<lparr>sdwa_src0_sel := ucast (sdwa_s0sel sd), sdwa_src1_sel := ucast (sdwa_s1sel sd),
                          has_modifier := False\<rparr>
                   else i)
         in if vopc_integer_compare eff \<and> sdwa_s0sel sd \<le> 6 \<and> sdwa_s1sel sd \<le> 6
               \<and> ifld sd 19 0xF = 0 \<and> ifld sd 27 0xF = 0
            then i1\<lparr>sdwa_src0_sel := ucast (sdwa_s0sel sd), sdwa_src1_sel := ucast (sdwa_s1sel sd),
                    has_modifier := False\<rparr>
            else i1))"

definition vopc_sdwa_operands :: "dword \<Rightarrow> rdna2_inst \<Rightarrow> rdna2_inst" where
  "vopc_sdwa_operands sd i =
     i\<lparr>src := (src i)[0 := sdwa_src0 sd, 1 := sdwa_src1 sd (words i ! 0)], n_src := 2,
       dst := (if iflag sd 15 then sgpr (ifld sd 8 0x7F) else dst i),
       src_neg := (src_neg i)[0 := iflag sd 20, 1 := iflag sd 28],
       src_abs := (src_abs i)[0 := iflag sd 21, 1 := iflag sd 29]\<rparr>"

definition decode_vopc :: "rdna2_inst \<Rightarrow> rdna2_inst" where
  "decode_vopc i =
     (let w = words i ! 0; i' = i\<lparr>opcode := ifld w 17 0xFF, dst := opnd Special 106\<rparr>
      in if w AND 0x1FF = 0xF9 then vopc_sdwa (words i ! 1) (vopc_sdwa_operands (words i ! 1) i')
         else i'\<lparr>src := (src i)[0 := decode_src_field (w AND 0x1FF), 1 := vgpr (drop_bit 9 w)], n_src := 2\<rparr>)"

end
