(* ===== verification/Rdna2Operands.thy ===== *)
theory Rdna2Operands
  imports Rdna2Sdwa
begin

text \<open>
  Operands of the remaining formats (\<open>decode_operands\<close> of \<open>gpu/recompiler/rdna2_decode.cpp\<close>):
  three-source, packed, scalar, export, memory, image and interpolation instructions.
\<close>

subsection \<open>VOP3\<close>

definition bits3 :: "dword \<Rightarrow> nat \<Rightarrow> bool list \<Rightarrow> bool list" where
  "bits3 w k xs = xs[0 := iflag w k, 1 := iflag w (k + 1), 2 := iflag w (k + 2)]"

definition three_sources :: "dword \<Rightarrow> operand list \<Rightarrow> operand list" where
  "three_sources d1 xs =
     xs[0 := decode_src_field (d1 AND 0x1FF), 1 := decode_src_field (ifld d1 9 0x1FF),
        2 := decode_src_field (ifld d1 18 0x1FF)]"

definition vop3a_fields :: "rdna2_inst \<Rightarrow> rdna2_inst" where
  "vop3a_fields i =
     (let w = words i ! 0; d1 = words i ! 1
      in i\<lparr>opcode := ifld w 16 0x3FF, dst := vgpr w, src := three_sources d1 (src i), n_src := 3,
           src_abs := bits3 w 8 (src_abs i), src_neg := bits3 d1 29 (src_neg i),
           clamp := iflag w 15, omod := ucast (ifld d1 27 3)\<rparr>)"

text \<open>A compare in the three-source encoding is a VOPC with an explicit mask destination.\<close>

definition vop3_compare :: "rdna2_inst \<Rightarrow> rdna2_inst" where
  "vop3_compare i =
     (if opcode i < 0x100
      then i\<lparr>fmt := VOPC, dst := sgpr (words i ! 0 AND 0x7F), src := (src i)[2 := no_operand], n_src := 2\<rparr>
      else i)"

definition vop3b_opcode :: "dword \<Rightarrow> bool" where
  "vop3b_opcode opc \<longleftrightarrow>
     opc = 0x128 \<or> opc = 0x129 \<or> opc = 0x12A \<or> opc = 0x16D \<or> opc = 0x16E
     \<or> opc = 0x176 \<or> opc = 0x177 \<or> opc = 0x30F \<or> opc = 0x310 \<or> opc = 0x319"

definition vop3_scalar_dst :: "rdna2_inst \<Rightarrow> rdna2_inst" where
  "vop3_scalar_dst i =
     (if vop3b_opcode (opcode i)
      then i\<lparr>sdst := sgpr (ifld (words i ! 0) 8 0x7F), src_abs := (src_abs i)[0 := False, 1 := False, 2 := False]\<rparr>
      else i)"

definition vop3_two_sources :: "rdna2_inst \<Rightarrow> rdna2_inst" where
  "vop3_two_sources i =
     (if emitted_vop3_opcode_has_two_data_sources (opcode i)
      then i\<lparr>src := (src i)[2 := no_operand], n_src := 2\<rparr> else i)"

definition vop3_opsel_opcode :: "dword \<Rightarrow> bool" where
  "vop3_opsel_opcode opc \<longleftrightarrow>
     opc = 0x311 \<or> opc = 0x34B \<or> opc = 0x351 \<or> opc = 0x354 \<or> opc = 0x357
     \<or> (opc \<ge> 0x303 \<and> opc \<le> 0x30E \<and> opc \<noteq> 0x306)
     \<or> opc = 0x314 \<or> opc = 0x340 \<or> opc = 0x35E \<or> opc = 0x352 \<or> opc = 0x353 \<or> opc = 0x355
     \<or> opc = 0x356 \<or> opc = 0x358 \<or> opc = 0x359"

definition vop3_selectors :: "rdna2_inst \<Rightarrow> rdna2_inst" where
  "vop3_selectors i =
     (let w = words i ! 0;
          i1 = (if vop3_opsel_opcode (opcode i) then i\<lparr>vop3p_opsel := ucast (ifld w 11 0xF)\<rparr> else i)
      in if opcode i = 0x377 \<or> opcode i = 0x378
         then i1\<lparr>permlane_fetch_inactive := iflag w 11, permlane_bound_ctrl := iflag w 12\<rparr>
         else i1)"

definition decode_vop3 :: "rdna2_inst \<Rightarrow> rdna2_inst" where
  "decode_vop3 i = vop3_selectors (vop3_two_sources (vop3_scalar_dst (vop3_compare (vop3a_fields i))))"

subsection \<open>VOP3P\<close>

definition vop3p_opsel_hi_field :: "dword \<Rightarrow> dword \<Rightarrow> byte" where
  "vop3p_opsel_hi_field w d1 = ucast (ifld d1 27 3 OR push_bit 2 (ifld w 14 1))"

definition vop3p_modifiers :: "rdna2_inst \<Rightarrow> rdna2_inst" where
  "vop3p_modifiers i =
     (let w = words i ! 0; d1 = words i ! 1
      in if opcode i = 0x0E \<or> opcode i = 0x0F \<or> opcode i = 0x10 \<or> opcode i = 0x11 \<or> opcode i = 0x12
         then i\<lparr>src_neg := bits3 (ifld d1 29 7) 0 (src_neg i), vop3p_neg_hi := ucast (ifld w 8 7),
                vop3p_opsel := ucast (ifld w 11 7), vop3p_opsel_hi := vop3p_opsel_hi_field w d1,
                clamp := iflag w 15\<rparr>
         else if opcode i \<le> 0x0D
         then i\<lparr>src_neg := bits3 (ifld d1 29 7) 0 (src_neg i), vop3p_neg_hi := ucast (ifld w 8 7),
                vop3p_opsel := ucast (ifld w 11 7), vop3p_opsel_hi := vop3p_opsel_hi_field w d1,
                has_modifier := (if iflag w 15 then True else has_modifier i)\<rparr>
         else if opcode i \<ge> 0x20 \<and> opcode i \<le> 0x22
         then i\<lparr>src_neg := bits3 (ifld d1 29 7) 0 (src_neg i), src_abs := bits3 (ifld w 8 7) 0 (src_abs i),
                vop3p_opsel := ucast (ifld w 11 7), vop3p_opsel_hi := vop3p_opsel_hi_field w d1,
                clamp := iflag w 15\<rparr>
         else if ifld w 8 0xFF \<noteq> 0 \<or> ifld d1 27 0x1F \<noteq> 0 then i\<lparr>has_modifier := True\<rparr>
         else i)"

definition decode_vop3p :: "rdna2_inst \<Rightarrow> rdna2_inst" where
  "decode_vop3p i =
     vop3p_modifiers
       (i\<lparr>opcode := ifld (words i ! 0) 16 0x7F, dst := vgpr (words i ! 0),
          src := three_sources (words i ! 1) (src i), n_src := 3\<rparr>)"

subsection \<open>Scalar formats\<close>

definition decode_sop1 :: "rdna2_inst \<Rightarrow> rdna2_inst" where
  "decode_sop1 i =
     (let w = words i ! 0
      in i\<lparr>opcode := ifld w 8 0xFF, dst := sgpr (drop_bit 16 w),
           src := (src i)[0 := decode_src_field (w AND 0xFF)], n_src := 1\<rparr>)"

definition decode_sop2 :: "rdna2_inst \<Rightarrow> rdna2_inst" where
  "decode_sop2 i =
     (let w = words i ! 0
      in i\<lparr>opcode := ifld w 23 0x7F, dst := sgpr (drop_bit 16 w),
           src := (src i)[0 := decode_src_field (w AND 0xFF), 1 := decode_src_field (ifld w 8 0xFF)], n_src := 2\<rparr>)"

definition decode_sopk :: "rdna2_inst \<Rightarrow> rdna2_inst" where
  "decode_sopk i =
     (let w = words i ! 0
      in i\<lparr>opcode := ifld w 23 0x1F, dst := sgpr (drop_bit 16 w), simm16 := sext16 w\<rparr>)"

definition decode_sopc :: "rdna2_inst \<Rightarrow> rdna2_inst" where
  "decode_sopc i =
     (let w = words i ! 0
      in i\<lparr>opcode := ifld w 16 0x7F,
           src := (src i)[0 := decode_src_field (w AND 0xFF), 1 := decode_src_field (ifld w 8 0xFF)], n_src := 2\<rparr>)"

definition decode_sopp :: "rdna2_inst \<Rightarrow> rdna2_inst" where
  "decode_sopp i =
     (let w = words i ! 0 in i\<lparr>opcode := ifld w 16 0x7F, simm16 := sext16 w\<rparr>)"

subsection \<open>Exports and memory\<close>

definition decode_exp :: "rdna2_inst \<Rightarrow> rdna2_inst" where
  "decode_exp i =
     (let w = words i ! 0; d1 = words i ! 1
      in i\<lparr>exp_en := w AND 0xF, exp_target := ifld w 4 0x3F, exp_compr := iflag w 10,
           src := (src i)[0 := vgpr (d1 AND 0xFF), 1 := vgpr (ifld d1 8 0xFF), 2 := vgpr (ifld d1 16 0xFF),
                          3 := vgpr (ifld d1 24 0xFF)],
           n_src := 4\<rparr>)"

definition decode_smem :: "rdna2_inst \<Rightarrow> rdna2_inst" where
  "decode_smem i =
     (let w = words i ! 0; off21 = words i ! 1 AND 0x1FFFFF
      in i\<lparr>opcode := ifld w 18 0xFF, dst := sgpr (drop_bit 6 w),
           src := (src i)[0 := sgpr (push_bit 1 (w AND 0x3F)), 1 := decode_src_field (ifld (words i ! 1) 25 0x7F)],
           literal := (if off21 AND 0x100000 \<noteq> 0 then off21 OR 0xFFE00000 else off21), n_src := 2\<rparr>)"

definition buffer_offset :: "dword \<Rightarrow> dword" where
  "buffer_offset w = (w AND 0xFFF) OR push_bit 12 (ifld w 12 1) OR push_bit 13 (ifld w 13 1)"

definition decode_mubuf :: "rdna2_inst \<Rightarrow> rdna2_inst" where
  "decode_mubuf i =
     (let w = words i ! 0; d1 = words i ! 1
      in i\<lparr>opcode := ifld w 18 0xFF, mubuf_glc := iflag w 14, mubuf_dlc := iflag w 15, mubuf_lds := iflag w 16,
           mubuf_tfe := iflag d1 23, dst := vgpr (drop_bit 8 d1),
           src := (src i)[0 := vgpr d1, 1 := sgpr (push_bit 2 (ifld d1 16 0x1F)),
                          2 := decode_src_field (ifld d1 24 0xFF)],
           literal := buffer_offset w, n_src := 3\<rparr>)"

definition decode_mtbuf :: "rdna2_inst \<Rightarrow> rdna2_inst" where
  "decode_mtbuf i =
     (let w = words i ! 0; d1 = words i ! 1
      in i\<lparr>opcode := ifld w 16 0x7 OR push_bit 3 (ifld d1 21 1), mtbuf_format := ifld w 19 0x7F,
           mtbuf_tfe := iflag d1 23, mubuf_glc := iflag w 14, mubuf_dlc := iflag w 15,
           dst := vgpr (drop_bit 8 d1),
           src := (src i)[0 := vgpr d1, 1 := sgpr (push_bit 2 (ifld d1 16 0x1F)),
                          2 := decode_src_field (ifld d1 24 0xFF)],
           literal := buffer_offset w, n_src := 3\<rparr>)"

definition decode_flat :: "rdna2_inst \<Rightarrow> rdna2_inst" where
  "decode_flat i =
     (let w = words i ! 0; d1 = words i ! 1; opc = ifld w 18 0x7F; seg = ifld w 14 0x3;
          off12 = w AND 0xFFF; vaddr = d1 AND 0xFF; vdata = ifld d1 8 0xFF; saddr = ifld d1 16 0x7F;
          vdst = ifld d1 24 0xFF; store = opc \<ge> 0x18 \<and> opc \<le> 0x1F
      in i\<lparr>opcode := opc, flat_segment := seg, flat_glc := iflag w 16, flat_slc := iflag w 17,
           flat_dlc := iflag w 12, flat_lds := iflag w 13,
           literal := (if off12 AND 0x800 \<noteq> 0 then off12 OR 0xFFFFF000 else off12),
           dst := vgpr (if store then vdata else vdst),
           src := (src i)[0 := if seg = 1 \<and> saddr \<noteq> 125 \<and> vaddr = 0 then no_operand else vgpr vaddr,
                          1 := decode_src_field saddr],
           n_src := 2\<rparr>)"

definition decode_mimg :: "rdna2_inst \<Rightarrow> rdna2_inst" where
  "decode_mimg i =
     (let w = words i ! 0; d1 = words i ! 1
      in i\<lparr>opcode := push_bit 7 (w AND 1) OR ifld w 18 0x7F, mimg_nsa := ifld w 1 0x3,
           mimg_dmask := ifld w 8 0xF, mimg_unorm := iflag w 12, mimg_glc := iflag w 13,
           mimg_dim := ifld w 3 0x7, mimg_dlc := iflag w 7, mimg_r128 := iflag w 15,
           mimg_tfe := iflag w 16, mimg_lwe := iflag w 17, mimg_slc := iflag w 25,
           mimg_a16 := iflag d1 30, mimg_d16 := iflag d1 31,
           mimg_reserved := (w AND (push_bit 6 1 OR push_bit 14 1) \<noteq> 0 \<or> d1 AND push_bit 26 0xF \<noteq> 0),
           dst := vgpr (drop_bit 8 d1),
           src := (src i)[0 := vgpr (d1 AND 0xFF), 1 := sgpr (push_bit 2 (ifld d1 16 0x1F)),
                          2 := sgpr (push_bit 2 (ifld d1 21 0x1F))],
           n_src := 3\<rparr>)"

definition decode_ds :: "rdna2_inst \<Rightarrow> rdna2_inst" where
  "decode_ds i =
     (let w = words i ! 0; d1 = words i ! 1
      in i\<lparr>opcode := ifld w 18 0xFF, ds_gds := (ifld w 16 0x3 \<noteq> 0), literal := w AND 0xFFFF,
           src := (src i)[0 := vgpr (d1 AND 0xFF), 1 := vgpr (ifld d1 8 0xFF), 2 := vgpr (ifld d1 16 0xFF)],
           dst := vgpr (ifld d1 24 0xFF), n_src := 3\<rparr>)"

definition decode_vintrp :: "rdna2_inst \<Rightarrow> rdna2_inst" where
  "decode_vintrp i =
     (let w = words i ! 0
      in i\<lparr>opcode := ifld w 16 0x3, dst := vgpr (ifld w 18 0xFF), vintrp_attr := ifld w 10 0x3F,
           vintrp_chan := ifld w 8 0x3, src := (src i)[0 := vgpr (w AND 0xFF)], n_src := 1\<rparr>)"

definition decode_operands :: "rdna2_inst \<Rightarrow> rdna2_inst" where
  "decode_operands i =
     (case fmt i of
        VOP1 \<Rightarrow> decode_vop1 i | VOP2 \<Rightarrow> decode_vop2 i | VOPC \<Rightarrow> decode_vopc i | VOP3 \<Rightarrow> decode_vop3 i
      | VOP3P \<Rightarrow> decode_vop3p i | SOP1 \<Rightarrow> decode_sop1 i | SOP2 \<Rightarrow> decode_sop2 i | SOPK \<Rightarrow> decode_sopk i
      | SOPC \<Rightarrow> decode_sopc i | SOPP \<Rightarrow> decode_sopp i | EXP \<Rightarrow> decode_exp i | SMEM \<Rightarrow> decode_smem i
      | MUBUF \<Rightarrow> decode_mubuf i | MTBUF \<Rightarrow> decode_mtbuf i | FLAT \<Rightarrow> decode_flat i | MIMG \<Rightarrow> decode_mimg i
      | DS \<Rightarrow> decode_ds i | VINTRP \<Rightarrow> decode_vintrp i | UnknownFormat \<Rightarrow> i)"

end
