(* ===== verification/Rdna2Decode.thy ===== *)
theory Rdna2Decode
  imports Rdna2Operands
begin

text \<open>
  Framing of the instruction stream (\<open>rdna2_decode_one\<close>, \<open>rdna2_walk\<close> and their users of
  \<open>gpu/recompiler/rdna2_decode.cpp\<close>). \<open>code\<close> is the memory from the pointer on; a read outside of it
  is \<^term>\<open>None\<close>, so a decoder that returns \<open>Some\<close> stayed inside.
\<close>

definition code_at :: "dword list \<Rightarrow> nat \<Rightarrow> dword option" where
  "code_at code k = (if k < length code then Some (code ! k) else None)"

definition kLiteralMarker :: dword where "kLiteralMarker = 0xFF"
definition kSEndpgm :: dword where "kSEndpgm = 0xBF810000"

definition sop_has_literal :: "dword \<Rightarrow> nat \<Rightarrow> bool" where
  "sop_has_literal w nsrc \<longleftrightarrow>
     w AND 0xFF = kLiteralMarker \<or> (nsrc \<ge> 2 \<and> ifld w 8 0xFF = kLiteralMarker)"

definition two_dword :: "dword list \<Rightarrow> nat \<Rightarrow> rdna2_format \<Rightarrow> rdna2_inst \<Rightarrow> rdna2_inst option" where
  "two_dword code max_dwords f i =
     (if max_dwords \<ge> 2
      then do { d1 \<leftarrow> code_at code 1; Some (i\<lparr>fmt := f, len_dwords := 2, words := (words i)[1 := d1]\<rparr>) }
      else Some (i\<lparr>fmt := f, len_dwords := 1\<rparr>))"

definition one_plus_lit :: "dword list \<Rightarrow> nat \<Rightarrow> rdna2_format \<Rightarrow> bool \<Rightarrow> rdna2_inst \<Rightarrow> rdna2_inst option" where
  "one_plus_lit code max_dwords f lit i =
     (if lit \<and> max_dwords \<ge> 2
      then do { d1 \<leftarrow> code_at code 1;
                Some (i\<lparr>fmt := f, has_literal := True, literal := d1, len_dwords := 2\<rparr>) }
      else Some (i\<lparr>fmt := f, len_dwords := 1\<rparr>))"

subsection \<open>Cross-lane control words\<close>

definition dpp_row_xor :: "rdna2_format \<Rightarrow> dword \<Rightarrow> dword \<Rightarrow> bool" where
  "dpp_row_xor vf w d1 \<longleftrightarrow>
     (let ctrl = ifld d1 8 0x1FF; vop1_opcode = ifld w 9 0xff; vop2_opcode = ifld w 25 0x3f;
          row_xor_ctrl = ctrl = 0x128 \<or> (ctrl \<ge> 0x160 \<and> ctrl \<le> 0x16f)
      in row_xor_ctrl \<and> ifld d1 19 1 = 1
         \<and> ((vf = VOP1 \<and> vop1_opcode = 0x01) \<or> (vf = VOP2 \<and> (vop2_opcode = 0x0f \<or> vop2_opcode = 0x10))))"

definition dpp_modeled_ctrl :: "rdna2_format \<Rightarrow> dword \<Rightarrow> dword \<Rightarrow> bool" where
  "dpp_modeled_ctrl vf w d1 \<longleftrightarrow>
     (let ctrl = ifld d1 8 0x1FF
      in ctrl < 0x100 \<or> (ctrl \<ge> 0x111 \<and> ctrl \<le> 0x11F) \<or> dpp_row_xor vf w d1)"

definition dpp_full_masks :: "dword \<Rightarrow> bool" where
  "dpp_full_masks d1 \<longleftrightarrow>
     ifld d1 28 0xF = 0xF \<and> ifld d1 24 0xF = 0xF \<and> ifld d1 20 0xF = 0 \<and> ifld d1 18 1 = 0"

definition dpp_admit :: "rdna2_format \<Rightarrow> dword \<Rightarrow> dword \<Rightarrow> rdna2_inst \<Rightarrow> rdna2_inst" where
  "dpp_admit vf w d1 i =
     (let ctrl = ifld d1 8 0x1FF; vop2_opcode = ifld w 25 0x3F;
          admitted = i\<lparr>has_modifier := False, has_dpp := True, dpp_ctrl := ucast ctrl\<rparr>
      in if dpp_modeled_ctrl vf w d1 \<and> dpp_full_masks d1
         then admitted\<lparr>dpp_bound_ctrl := (ifld d1 19 1 \<noteq> 0)\<rparr>
         else if vf = VOP2 \<and> vop2_opcode = 0x1C \<and> ctrl \<ge> 0x111 \<and> ctrl \<le> 0x11F
                 \<and> ifld d1 28 0xF = 0xF \<and> ifld d1 24 0xF = 0xF \<and> ifld d1 20 0xF = 0
                 \<and> ifld d1 19 1 = 0 \<and> ifld d1 18 1 = 0
         then admitted
         else if vf = VOP2 \<and> vop2_opcode = 0x25 \<and> ctrl \<ge> 0x111 \<and> ctrl \<le> 0x11F
                 \<and> ifld d1 28 0xF = 0xF \<and> ifld d1 24 0xF = 0xF \<and> ifld d1 20 0xF = 0
                 \<and> ifld d1 19 1 = 1 \<and> ifld d1 18 1 = 0
         then admitted
         else if vf = VOP2 \<and> vop2_opcode = 0x25 \<and> ctrl = 0xe4
                 \<and> ifld d1 28 0xF = 0xa \<and> ifld d1 24 0xF = 0xf \<and> ifld d1 20 0xF = 0
                 \<and> ifld d1 19 1 = 0 \<and> ifld d1 18 1 = 0
         then admitted
         else i)"

definition dpp_record :: "dword \<Rightarrow> rdna2_inst \<Rightarrow> rdna2_inst" where
  "dpp_record d1 i =
     (if has_dpp i
      then i\<lparr>dpp_bound_ctrl := (ifld d1 19 1 \<noteq> 0), dpp_bank_mask := ucast (ifld d1 24 0xf),
             dpp_row_mask := ucast (ifld d1 28 0xf)\<rparr>
      else i)"

subsection \<open>One instruction\<close>

definition vector_modifier :: "dword list \<Rightarrow> nat \<Rightarrow> rdna2_format \<Rightarrow> dword \<Rightarrow> rdna2_inst \<Rightarrow> rdna2_inst option" where
  "vector_modifier code max_dwords vf w i =
     (let src0 = w AND 0x1FF; i0 = i\<lparr>has_modifier := True, has_sdwa := (src0 = 0xF9)\<rparr>
      in do {
        i1 \<leftarrow> two_dword code max_dwords vf i0;
        if src0 = 0xFA \<and> max_dwords \<ge> 2 \<and> vf \<noteq> VOPC
        then do { d1 \<leftarrow> code_at code 1; Some (dpp_record d1 (dpp_admit vf w d1 i1)) }
        else Some i1 })"

definition vector_format :: "dword \<Rightarrow> rdna2_format" where
  "vector_format w =
     (if w AND 0xFE000000 = 0x7E000000 then VOP1
      else if w AND 0xFE000000 = 0x7C000000 then VOPC else VOP2)"

definition vector_has_literal :: "rdna2_format \<Rightarrow> dword \<Rightarrow> bool" where
  "vector_has_literal vf w \<longleftrightarrow>
     w AND 0x1FF = 0xFF
     \<or> (vf = VOP2 \<and> (let opc = ifld w 25 0x3F in
           opc = 0x20 \<or> opc = 0x21 \<or> opc = 0x2C \<or> opc = 0x2D \<or> opc = 0x37 \<or> opc = 0x38))"

definition frame_vector :: "dword list \<Rightarrow> nat \<Rightarrow> dword \<Rightarrow> rdna2_inst \<Rightarrow> rdna2_inst option" where
  "frame_vector code max_dwords w i =
     (let vf = vector_format w; src0 = w AND 0x1FF
      in if src0 = 0xF9 \<or> src0 = 0xFA \<or> src0 = 0xE9 \<or> src0 = 0xEA
         then vector_modifier code max_dwords vf w i
         else one_plus_lit code max_dwords vf (vector_has_literal vf w) i)"

definition frame_scalar :: "dword list \<Rightarrow> nat \<Rightarrow> dword \<Rightarrow> rdna2_inst \<Rightarrow> rdna2_inst option" where
  "frame_scalar code max_dwords w i =
     (if w AND 0xFF800000 = 0xBF800000
      then Some (i\<lparr>fmt := SOPP, len_dwords := 1, is_end := (w = kSEndpgm)\<rparr>)
      else if w AND 0xFF800000 = 0xBF000000 then one_plus_lit code max_dwords SOPC (sop_has_literal w 2) i
      else if w AND 0xFF800000 = 0xBE800000 then one_plus_lit code max_dwords SOP1 (sop_has_literal w 1) i
      else if w AND 0xF0000000 = 0xB0000000
      then one_plus_lit code max_dwords SOPK (ifld w 23 0x1F = 21) i
      else one_plus_lit code max_dwords SOP2 (sop_has_literal w 2) i)"

definition three_source_literal :: "dword \<Rightarrow> bool" where
  "three_source_literal d1 \<longleftrightarrow>
     d1 AND 0x1FF = 0xFF \<or> ifld d1 9 0x1FF = 0xFF \<or> ifld d1 18 0x1FF = 0xFF"

definition frame_three_source ::
    "dword list \<Rightarrow> nat \<Rightarrow> rdna2_format \<Rightarrow> rdna2_inst \<Rightarrow> rdna2_inst option" where
  "frame_three_source code max_dwords f i =
     (if max_dwords \<ge> 2
      then do {
        d1 \<leftarrow> code_at code 1;
        let i1 = i\<lparr>fmt := f, words := (words i)[1 := d1]\<rparr> in
        if three_source_literal d1 \<and> max_dwords \<ge> 3
        then do { k \<leftarrow> code_at code 2; Some (i1\<lparr>has_literal := True, literal := k, len_dwords := 3\<rparr>) }
        else Some (i1\<lparr>len_dwords := 2\<rparr>) }
      else Some (i\<lparr>fmt := f, len_dwords := 1\<rparr>))"

definition keep_word :: "dword list \<Rightarrow> nat \<Rightarrow> bool \<Rightarrow> rdna2_inst \<Rightarrow> rdna2_inst option" where
  "keep_word code k wanted i =
     (if wanted then do { d \<leftarrow> code_at code k; Some (i\<lparr>words := (words i)[k := d]\<rparr>) } else Some i)"

definition frame_mimg :: "dword list \<Rightarrow> nat \<Rightarrow> dword \<Rightarrow> rdna2_inst \<Rightarrow> rdna2_inst option" where
  "frame_mimg code max_dwords w i =
     (let extra = unat (ifld w 1 0x3); i0 = i\<lparr>fmt := MIMG, len_dwords := 2 + extra\<rparr>
      in do {
        i1 \<leftarrow> keep_word code 1 (max_dwords \<ge> 2) i0;
        i2 \<leftarrow> keep_word code 2 (extra \<ge> 1 \<and> max_dwords \<ge> 3) i1;
        i3 \<leftarrow> keep_word code 3 (extra \<ge> 2 \<and> max_dwords \<ge> 4) i2;
        keep_word code 4 (extra \<ge> 3 \<and> max_dwords \<ge> 5) i3 })"

definition frame_wide :: "dword list \<Rightarrow> nat \<Rightarrow> dword \<Rightarrow> rdna2_inst \<Rightarrow> rdna2_inst option" where
  "frame_wide code max_dwords w i =
     (let top6 = drop_bit 26 w
      in if top6 = 0x32 then Some (i\<lparr>fmt := VINTRP, len_dwords := 1\<rparr>)
         else if top6 = 0x33 then frame_three_source code max_dwords VOP3P i
         else if top6 = 0x34 \<or> top6 = 0x35 then frame_three_source code max_dwords VOP3 i
         else if top6 = 0x36 then two_dword code max_dwords DS i
         else if top6 = 0x37 then two_dword code max_dwords FLAT i
         else if top6 = 0x38 then two_dword code max_dwords MUBUF i
         else if top6 = 0x3a then two_dword code max_dwords MTBUF i
         else if top6 = 0x3c then frame_mimg code max_dwords w i
         else if top6 = 0x3d then two_dword code max_dwords SMEM i
         else if top6 = 0x3e then two_dword code max_dwords EXP i
         else Some (i\<lparr>fmt := UnknownFormat, len_dwords := 1\<rparr>))"

definition clamp_len :: "nat \<Rightarrow> rdna2_inst \<Rightarrow> rdna2_inst" where
  "clamp_len max_dwords i = (if len_dwords i > max_dwords then i\<lparr>len_dwords := max_dwords\<rparr> else i)"

definition rdna2_decode_one :: "dword list \<Rightarrow> nat \<Rightarrow> rdna2_inst option" where
  "rdna2_decode_one code max_dwords =
     (if max_dwords = 0 then Some (new_inst\<lparr>fmt := UnknownFormat, len_dwords := 0\<rparr>)
      else do {
        w \<leftarrow> code_at code 0;
        let i = new_inst\<lparr>words := (words new_inst)[0 := w]\<rparr> in do {
          i1 \<leftarrow> (if w AND 0x80000000 = 0 then frame_vector code max_dwords w i
                 else if w AND 0xC0000000 = 0x80000000 then frame_scalar code max_dwords w i
                 else frame_wide code max_dwords w i);
          Some (decode_operands (clamp_len max_dwords i1)) } })"

subsection \<open>The stream\<close>

function rdna2_walk_from ::
    "dword list \<Rightarrow> nat \<Rightarrow> nat \<Rightarrow> rdna2_inst list \<Rightarrow> (nat \<times> rdna2_inst list) option" where
  "rdna2_walk_from code dwords pc out =
     (if pc < dwords
      then (case rdna2_decode_one (drop pc code) (dwords - pc) of
              None \<Rightarrow> None
            | Some j \<Rightarrow>
                if len_dwords j = 0 then Some (pc, out @ [j\<lparr>inst_pc := u32 pc\<rparr>])
                else if is_end j \<or> fmt j = UnknownFormat
                then Some (pc + len_dwords j, out @ [j\<lparr>inst_pc := u32 pc\<rparr>])
                else rdna2_walk_from code dwords (pc + len_dwords j) (out @ [j\<lparr>inst_pc := u32 pc\<rparr>]))
      else Some (pc, out))"
  by auto
termination
  by (relation "measure (\<lambda>(code, dwords, pc, out). dwords - pc)") auto

declare rdna2_walk_from.simps [simp del]

definition rdna2_walk :: "dword list \<Rightarrow> nat \<Rightarrow> (nat \<times> rdna2_inst list) option" where
  "rdna2_walk code dwords = rdna2_walk_from code dwords 0 []"

text \<open>A null pointer is \<^term>\<open>None\<close>.\<close>

definition rdna2_program_is_terminator_only :: "dword list option \<Rightarrow> nat \<Rightarrow> bool option" where
  "rdna2_program_is_terminator_only code dwords =
     (case code of
        None \<Rightarrow> Some False
      | Some c \<Rightarrow>
          if dwords = 0 then Some False
          else do { (consumed, insts) \<leftarrow> rdna2_walk c dwords;
                    Some (consumed \<noteq> 0 \<and> length insts = 1 \<and> is_end (hd insts)) })"

definition sload_words :: "dword \<Rightarrow> nat" where
  "sload_words opc =
     (if opc = 0x01 then 2 else if opc = 0x02 then 4 else if opc = 0x03 then 8
      else if opc = 0x04 then 16 else 1)"

definition sload_counts :: "dword \<Rightarrow> rdna2_inst \<Rightarrow> bool" where
  "sload_counts sgpr_base i \<longleftrightarrow>
     \<not> (fmt i \<noteq> SMEM \<or> opcode i > 0x04 \<or> opvalue (src i ! 0) \<noteq> sint sgpr_base
        \<or> opkind (src i ! 1) \<noteq> Special \<or> opvalue (src i ! 1) \<noteq> 125 \<or> sint (literal i) < 0)"

primrec sload_scan :: "dword \<Rightarrow> rdna2_inst list \<Rightarrow> nat \<Rightarrow> nat" where
  "sload_scan sgpr_base [] required = required"
| "sload_scan sgpr_base (i # is) required =
     (if is_end i then required
      else if \<not> sload_counts sgpr_base i then sload_scan sgpr_base is required
      else sload_scan sgpr_base is (max required (unat (literal i) + sload_words (opcode i) * 4)))"

definition rdna2_sload_required_bytes :: "dword list \<Rightarrow> nat \<Rightarrow> dword \<Rightarrow> nat option" where
  "rdna2_sload_required_bytes code dwords sgpr_base =
     do { (consumed, insts) \<leftarrow> rdna2_walk code dwords;
          let required = sload_scan sgpr_base insts 0;
          Some (if required > UINT32_MAX then UINT32_MAX else required) }"

end
