(* ===== verification/Rdna2Facts.thy ===== *)
theory Rdna2Facts
  imports Rdna2Decode
begin

text \<open>
  Facts of the decoder: what decoding of operands leaves alone, that every operand it produces is in
  the range of its kind, and that a framed instruction stays inside the buffer.
\<close>

subsection \<open>What decoding of operands leaves alone\<close>

definition framing :: "rdna2_inst \<Rightarrow> nat \<times> dword list \<times> nat \<times> bool \<times> bool \<times> bool \<times> bool" where
  "framing i = (inst_pc i, words i, len_dwords i, has_literal i, is_end i, has_sdwa i, has_dpp i)"

definition dpp_fields :: "rdna2_inst \<Rightarrow> 16 word \<times> bool \<times> byte \<times> byte" where
  "dpp_fields i = (dpp_ctrl i, dpp_bound_ctrl i, dpp_bank_mask i, dpp_row_mask i)"

lemmas vop1_arms =
  vop1_sdwa_mov_def vop1_sdwa_bfrev_def vop1_sdwa_cvt_f32_f16_def vop1_sdwa_cvt_f16_f32_def
  vop1_sdwa_cvt_int_f32_def vop1_sdwa_cvt_f32_int_def vop1_sdwa_half_def

lemmas vop2_arms =
  vop2_sdwa_integer_def vop2_sdwa_f16_def vop2_sdwa_cndmask_def vop2_sdwa_lshlrev_def

lemma vop1_arms_frame [rdna2_frame]:
  "framing (vop1_sdwa_mov sd i) = framing i"
  "framing (vop1_sdwa_bfrev sd i) = framing i"
  "framing (vop1_sdwa_cvt_f32_f16 sd i) = framing i"
  "framing (vop1_sdwa_cvt_f16_f32 sd i) = framing i"
  "framing (vop1_sdwa_cvt_int_f32 sd i) = framing i"
  "framing (vop1_sdwa_cvt_f32_int sd i) = framing i"
  "framing (vop1_sdwa_half sd i) = framing i"
  by (simp_all add: framing_def vop1_arms Let_def)

lemma vop2_arms_frame [rdna2_frame]:
  "framing (vop2_sdwa_integer sd i) = framing i"
  "framing (vop2_sdwa_f16 sd i) = framing i"
  "framing (vop2_sdwa_cndmask sd i) = framing i"
  "framing (vop2_sdwa_lshlrev sd i) = framing i"
  by (simp_all add: framing_def vop2_arms Let_def)

lemma has_modifier_frame [rdna2_frame]: "framing (i\<lparr>has_modifier := b\<rparr>) = framing i"
  by (simp add: framing_def)

lemma vop1_sdwa_frame [rdna2_frame]: "framing (vop1_sdwa sd i) = framing i"
  unfolding vop1_sdwa_def Let_def by (simp add: rdna2_frame)

lemma vop2_sdwa_frame [rdna2_frame]: "framing (vop2_sdwa sd i) = framing i"
  unfolding vop2_sdwa_def Let_def by (simp add: rdna2_frame)

lemma vopc_sdwa_frame [rdna2_frame]: "framing (vopc_sdwa sd i) = framing i"
  unfolding vopc_sdwa_def Let_def by (simp add: framing_def)

lemma sdwa_operands_frame [rdna2_frame]:
  "framing (vop1_sdwa_operands sd i) = framing i"
  "framing (vop2_sdwa_operands sd i) = framing i"
  "framing (vopc_sdwa_operands sd i) = framing i"
  by (simp_all add: framing_def vop1_sdwa_operands_def vop2_sdwa_operands_def vopc_sdwa_operands_def)

lemma dst_frame [rdna2_frame]: "framing (i\<lparr>opcode := a, dst := p\<rparr>) = framing i"
  by (simp add: framing_def)

lemma src_frame [rdna2_frame]: "framing (i\<lparr>src := xs, n_src := n\<rparr>) = framing i"
  by (simp add: framing_def)

lemma decode_vop1_frame [rdna2_frame]: "framing (decode_vop1 i) = framing i"
  unfolding decode_vop1_def Let_def
  by (simp only: rdna2_frame split: if_splits) (simp add: framing_def)

lemma decode_vop2_frame [rdna2_frame]: "framing (decode_vop2 i) = framing i"
  unfolding decode_vop2_def Let_def
  by (simp only: rdna2_frame split: if_splits) (simp add: framing_def)

lemma decode_vopc_frame [rdna2_frame]: "framing (decode_vopc i) = framing i"
  unfolding decode_vopc_def Let_def
  by (simp only: rdna2_frame split: if_splits) (simp add: framing_def)

lemma vop3_parts_frame [rdna2_frame]:
  "framing (vop3a_fields i) = framing i"
  "framing (vop3_compare i) = framing i"
  "framing (vop3_scalar_dst i) = framing i"
  "framing (vop3_two_sources i) = framing i"
  "framing (vop3_selectors i) = framing i"
  "framing (vop3p_modifiers i) = framing i"
  by (simp_all add: framing_def vop3a_fields_def vop3_compare_def vop3_scalar_dst_def
      vop3_two_sources_def vop3_selectors_def vop3p_modifiers_def Let_def)

lemma decode_vop3_frame [rdna2_frame]: "framing (decode_vop3 i) = framing i"
  by (simp add: decode_vop3_def rdna2_frame)

lemma decode_vop3p_frame [rdna2_frame]: "framing (decode_vop3p i) = framing i"
  by (simp add: decode_vop3p_def rdna2_frame)

lemmas plain_formats =
  decode_sop1_def decode_sop2_def decode_sopk_def decode_sopc_def decode_sopp_def decode_exp_def
  decode_smem_def decode_mubuf_def decode_mtbuf_def decode_flat_def decode_mimg_def decode_ds_def
  decode_vintrp_def

lemma plain_formats_frame [rdna2_frame]:
  "framing (decode_sop1 i) = framing i" "framing (decode_sop2 i) = framing i"
  "framing (decode_sopk i) = framing i" "framing (decode_sopc i) = framing i"
  "framing (decode_sopp i) = framing i" "framing (decode_exp i) = framing i"
  "framing (decode_smem i) = framing i" "framing (decode_mubuf i) = framing i"
  "framing (decode_mtbuf i) = framing i" "framing (decode_flat i) = framing i"
  "framing (decode_mimg i) = framing i" "framing (decode_ds i) = framing i"
  "framing (decode_vintrp i) = framing i"
  by (simp_all add: framing_def plain_formats Let_def)

lemma decode_operands_frame [rdna2_frame]: "framing (decode_operands i) = framing i"
  by (cases "fmt i") (simp_all add: decode_operands_def rdna2_frame)

subsection \<open>Ranges of operands\<close>

definition operand_ok :: "operand \<Rightarrow> bool" where
  "operand_ok p \<longleftrightarrow>
     (case opkind p of
        NoOperand \<Rightarrow> opvalue p = 0
      | SGPR \<Rightarrow> 0 \<le> opvalue p \<and> opvalue p \<le> 127
      | VGPR \<Rightarrow> 0 \<le> opvalue p \<and> opvalue p \<le> 255
      | InlineInt \<Rightarrow> -16 \<le> opvalue p \<and> opvalue p \<le> 64
      | InlineFloat \<Rightarrow> 240 \<le> opvalue p \<and> opvalue p \<le> 248
      | Literal \<Rightarrow> opvalue p = 0
      | Special \<Rightarrow> 106 \<le> opvalue p \<and> opvalue p \<le> 254)"

named_theorems operand_oks \<open>operands in their range\<close>

lemma no_operand_ok [operand_oks]: "operand_ok no_operand"
  by (simp add: operand_ok_def no_operand_def)

lemma uint_mask_le: "uint (n AND m) \<le> uint m" for n m :: dword
  using word_and_le1[of n m] by (simp add: word_le_def)

lemma vgpr_ok [operand_oks]: "operand_ok (vgpr n)"
  using uint_mask_le[of n "0xFF"] by (simp add: operand_ok_def vgpr_def)

lemma sgpr_ok [operand_oks]: "operand_ok (sgpr n)"
  using uint_mask_le[of n "0x7F"] by (simp add: operand_ok_def sgpr_def)

lemma decode_src_field_ok: "f < 512 \<Longrightarrow> operand_ok (decode_src_field f)"
proof -
  assume "f < 512"
  then have f: "uint f < 512" by (simp add: word_less_def)
  consider "uint f \<ge> 256" | "uint f \<le> 105" | "105 < uint f" "uint f < 256" by linarith
  then show ?thesis
  proof cases
    case 1
    then have ge: "f \<ge> 256" by (simp add: word_le_def)
    then have "uint (f - 256) = uint f - 256"
      using uint_minus_simple_alt[of 256 f] by simp
    with ge f 1 show ?thesis by (simp add: operand_ok_def decode_src_field_def)
  next
    case 2
    then show ?thesis by (simp add: operand_ok_def decode_src_field_def word_le_def)
  next
    case 3
    have eq: "f = numeral k \<longleftrightarrow> uint f = uint (numeral k :: dword)" for k
      by (rule word_uint_eq_iff)
    from 3 show ?thesis
      unfolding operand_ok_def decode_src_field_def word_le_def eq by auto
  qed
qed

lemma mask_less_512 [simp]:
  "n AND 0x1FF < (512 :: dword)" "n AND 0xFF < (512 :: dword)" "n AND 0x7F < (512 :: dword)"
  by (rule le_less_trans[OF word_and_le1]; simp)+

lemma decode_src_field_oks [operand_oks]:
  "operand_ok (decode_src_field (n AND 0x1FF))" "operand_ok (decode_src_field (n AND 0xFF))"
  "operand_ok (decode_src_field (n AND 0x7F))" "operand_ok (decode_src_field (ifld n k 0x1FF))"
  "operand_ok (decode_src_field (ifld n k 0xFF))" "operand_ok (decode_src_field (ifld n k 0x7F))"
  by (simp_all add: decode_src_field_ok ifld_def)

definition operand_fields :: "rdna2_inst \<Rightarrow> operand \<times> operand \<times> operand list \<times> nat" where
  "operand_fields i = (dst i, sdst i, src i, n_src i)"

definition fields_ok :: "operand \<times> operand \<times> operand list \<times> nat \<Rightarrow> bool" where
  "fields_ok = (\<lambda>(d, s, xs, n).
     operand_ok d \<and> operand_ok s \<and> length xs = 4 \<and> (\<forall>k<4. operand_ok (xs ! k)) \<and> n \<le> 4
     \<and> (\<forall>k<4. n \<le> k \<longrightarrow> xs ! k = no_operand))"

lemma vop_arms_operands:
  "operand_fields (vop1_sdwa_mov sd i) = operand_fields i"
  "operand_fields (vop1_sdwa_bfrev sd i) = operand_fields i"
  "operand_fields (vop1_sdwa_cvt_f32_f16 sd i) = operand_fields i"
  "operand_fields (vop1_sdwa_cvt_f16_f32 sd i) = operand_fields i"
  "operand_fields (vop1_sdwa_cvt_int_f32 sd i) = operand_fields i"
  "operand_fields (vop1_sdwa_cvt_f32_int sd i) = operand_fields i"
  "operand_fields (vop1_sdwa_half sd i) = operand_fields i"
  "operand_fields (vop2_sdwa_integer sd i) = operand_fields i"
  "operand_fields (vop2_sdwa_f16 sd i) = operand_fields i"
  "operand_fields (vop2_sdwa_cndmask sd i) = operand_fields i"
  "operand_fields (vop2_sdwa_lshlrev sd i) = operand_fields i"
  "operand_fields (i\<lparr>has_modifier := b\<rparr>) = operand_fields i"
  by (simp_all add: operand_fields_def vop1_arms vop2_arms Let_def)

lemma sdwa_operands_kept:
  "operand_fields (vop1_sdwa sd i) = operand_fields i"
  "operand_fields (vop2_sdwa sd i) = operand_fields i"
  "operand_fields (vopc_sdwa sd i) = operand_fields i"
  unfolding vop1_sdwa_def vop2_sdwa_def Let_def
    apply (simp add: vop_arms_operands)
   apply (simp add: vop_arms_operands)
  by (simp add: operand_fields_def vopc_sdwa_def Let_def)

lemma all_less_4: "(\<forall>k<4. P k) \<longleftrightarrow> P 0 \<and> P 1 \<and> P 2 \<and> P (3 :: nat)"
  by (auto simp: numeral_eq_Suc less_Suc_eq)

lemma list4_eq: "length xs = 4 \<Longrightarrow> \<exists>a b c d. xs = [a, b, c, d]"
  by (auto simp: numeral_eq_Suc length_Suc_conv)

text \<open>Sources have the form the default constructor gives them.\<close>

definition no_sources :: "rdna2_inst \<Rightarrow> bool" where
  "no_sources i \<longleftrightarrow> src i = replicate 4 no_operand \<and> n_src i = 0 \<and> dst i = no_operand \<and> sdst i = no_operand"

lemma replicate_4: "replicate 4 x = [x, x, x, x]"
  by (simp add: numeral_eq_Suc)

lemma sdwa_src_oks [operand_oks]: "operand_ok (sdwa_src0 sd)" "operand_ok (sdwa_src1 sd w)"
  by (simp_all add: sdwa_src0_def sdwa_src1_def operand_oks)

lemma special_vcc_ok [operand_oks]: "operand_ok (opnd Special 106)"
  by (simp add: operand_ok_def)

lemmas fields_ok_simps = fields_ok_def operand_fields_def all_less_4 operand_oks replicate_4

lemma decode_vop1_ok: "no_sources i \<Longrightarrow> fields_ok (operand_fields (decode_vop1 i))"
  unfolding decode_vop1_def Let_def
  by (simp add: sdwa_operands_kept) (simp add: fields_ok_simps no_sources_def vop1_sdwa_operands_def)

lemma decode_vop2_ok: "no_sources i \<Longrightarrow> fields_ok (operand_fields (decode_vop2 i))"
  unfolding decode_vop2_def Let_def
  by (simp add: sdwa_operands_kept) (simp add: fields_ok_simps no_sources_def vop2_sdwa_operands_def)

lemma decode_vopc_ok: "no_sources i \<Longrightarrow> fields_ok (operand_fields (decode_vopc i))"
  unfolding decode_vopc_def Let_def
  by (simp add: sdwa_operands_kept) (simp add: fields_ok_simps no_sources_def vopc_sdwa_operands_def)

lemma plain_formats_ok:
  assumes "no_sources i"
  shows "fields_ok (operand_fields (decode_sop1 i))" "fields_ok (operand_fields (decode_sop2 i))"
    "fields_ok (operand_fields (decode_sopk i))" "fields_ok (operand_fields (decode_sopc i))"
    "fields_ok (operand_fields (decode_sopp i))" "fields_ok (operand_fields (decode_exp i))"
    "fields_ok (operand_fields (decode_smem i))" "fields_ok (operand_fields (decode_mubuf i))"
    "fields_ok (operand_fields (decode_mtbuf i))" "fields_ok (operand_fields (decode_flat i))"
    "fields_ok (operand_fields (decode_mimg i))" "fields_ok (operand_fields (decode_ds i))"
    "fields_ok (operand_fields (decode_vintrp i))"
  using assms by (simp_all add: fields_ok_simps no_sources_def plain_formats Let_def)


lemma drop_third_ok:
  assumes "fields_ok (d, s, xs, n)" and "n \<le> 3" and "operand_ok d'" and "operand_ok s'"
  shows "fields_ok (d', s', xs[2 := no_operand], 2)" and "fields_ok (d', s', xs, n)"
proof -
  have "length xs = 4" using assms by (simp add: fields_ok_def)
  then obtain a b c e where xs: "xs = [a, b, c, e]"
    using list4_eq by blast
  show "fields_ok (d', s', xs[2 := no_operand], 2)"
    using assms unfolding xs by (auto simp: fields_ok_def all_less_4 operand_oks)
  show "fields_ok (d', s', xs, n)"
    using assms by (simp add: fields_ok_def)
qed

definition vop3_ok :: "rdna2_inst \<Rightarrow> bool" where
  "vop3_ok i \<longleftrightarrow> fields_ok (operand_fields i) \<and> n_src i \<le> 3"

lemma vop3_okD: "vop3_ok i \<Longrightarrow> operand_ok (dst i) \<and> operand_ok (sdst i)"
  by (simp add: vop3_ok_def fields_ok_def operand_fields_def)

lemma vop3_parts_ok:
  assumes "vop3_ok i"
  shows "vop3_ok (vop3_compare i)" "vop3_ok (vop3_scalar_dst i)" "vop3_ok (vop3_two_sources i)"
    "vop3_ok (vop3_selectors i)" "vop3_ok (vop3p_modifiers i)"
  using assms vop3_okD[OF assms] drop_third_ok[of "dst i" "sdst i" "src i" "n_src i"]
  by (simp_all add: vop3_ok_def vop3_compare_def vop3_scalar_dst_def vop3_two_sources_def
      vop3_selectors_def vop3p_modifiers_def operand_fields_def operand_oks Let_def)

lemma decode_vop3_ok: "no_sources i \<Longrightarrow> fields_ok (operand_fields (decode_vop3 i))"
proof -
  assume "no_sources i"
  then have "vop3_ok (vop3a_fields i)"
    by (simp add: vop3_ok_def fields_ok_simps no_sources_def vop3a_fields_def three_sources_def Let_def)
  then have "vop3_ok (decode_vop3 i)"
    by (simp add: decode_vop3_def vop3_parts_ok)
  then show ?thesis by (simp add: vop3_ok_def)
qed

lemma decode_vop3p_ok: "no_sources i \<Longrightarrow> fields_ok (operand_fields (decode_vop3p i))"
proof -
  assume "no_sources i"
  then have "vop3_ok (i\<lparr>opcode := ifld (words i ! 0) 16 0x7F, dst := vgpr (words i ! 0),
          src := three_sources (words i ! 1) (src i), n_src := 3\<rparr>)"
    by (simp add: vop3_ok_def fields_ok_simps no_sources_def three_sources_def)
  then have "vop3_ok (decode_vop3p i)"
    unfolding decode_vop3p_def by (rule vop3_parts_ok)
  then show ?thesis by (simp add: vop3_ok_def)
qed

lemma decode_operands_ok: "no_sources i \<Longrightarrow> fields_ok (operand_fields (decode_operands i))"
  by (cases "fmt i")
    (simp_all add: decode_operands_def decode_vop1_ok decode_vop2_ok decode_vopc_ok decode_vop3_ok
      decode_vop3p_ok plain_formats_ok, simp add: fields_ok_simps no_sources_def)

subsection \<open>Framing stays inside the buffer\<close>

text \<open>
  What framing alone produces from the first word \<open>w\<close>: the operands are still those of the
  default constructor, every kept word is a word of the stream, and the constant that follows, if
  any, is the last word of the instruction.
\<close>

definition framed :: "dword list \<Rightarrow> nat \<Rightarrow> rdna2_inst \<Rightarrow> bool" where
  "framed code max_dwords i \<longleftrightarrow>
     no_sources i \<and> length (words i) = 5 \<and> words i ! 0 = code ! 0 \<and> inst_pc i = 0
     \<and> 1 \<le> len_dwords i \<and> len_dwords i \<le> 5
     \<and> (is_end i \<longleftrightarrow> code ! 0 = kSEndpgm)
     \<and> (has_literal i \<longrightarrow> 2 \<le> len_dwords i \<and> len_dwords i \<le> max_dwords \<and> literal i = code ! (len_dwords i - 1))
     \<and> (\<forall>k. 0 < k \<longrightarrow> k < 5 \<longrightarrow>
          words i ! k = 0 \<or> (k < len_dwords i \<and> k < max_dwords \<and> words i ! k = code ! k))
     \<and> src_neg i = replicate 4 False \<and> src_abs i = replicate 4 False"

lemma new_inst_words: "words new_inst = [0, 0, 0, 0, 0]"
  by (simp add: new_inst_def numeral_eq_Suc)

lemma code_at_Some [simp]: "k < length code \<Longrightarrow> code_at code k = Some (code ! k)"
  by (simp add: code_at_def)


definition fresh :: "dword \<Rightarrow> rdna2_inst \<Rightarrow> bool" where
  "fresh w i \<longleftrightarrow>
     no_sources i \<and> words i = [w, 0, 0, 0, 0] \<and> inst_pc i = 0 \<and> \<not> is_end i \<and> \<not> has_literal i
     \<and> src_neg i = replicate 4 False \<and> src_abs i = replicate 4 False"

lemma all_1_to_4: "(\<forall>k. 0 < k \<longrightarrow> k < 5 \<longrightarrow> P k) \<longleftrightarrow> P 1 \<and> P 2 \<and> P 3 \<and> P (4 :: nat)"
proof -
  have "0 < k \<and> k < 5 \<longleftrightarrow> k = 1 \<or> k = 2 \<or> k = 3 \<or> k = 4" for k :: nat by auto
  then show ?thesis by metis
qed

lemmas framed_simps = framed_def fresh_def no_sources_def all_1_to_4

definition one_word_ok :: "dword list \<Rightarrow> nat \<Rightarrow> rdna2_inst \<Rightarrow> bool" where
  "one_word_ok code n i \<longleftrightarrow> 1 \<le> n \<and> n \<le> length code \<and> fresh (code ! 0) i \<and> code ! 0 \<noteq> kSEndpgm"

lemma two_dword_framed:
  "one_word_ok code n i \<Longrightarrow> \<exists>j. two_dword code n f i = Some j \<and> framed code n j"
  by (cases "n \<ge> 2") (simp_all add: one_word_ok_def two_dword_def framed_simps)

lemma one_plus_lit_framed:
  "one_word_ok code n i \<Longrightarrow> \<exists>j. one_plus_lit code n f lit i = Some j \<and> framed code n j"
  by (cases "lit \<and> n \<ge> 2") (auto simp: one_word_ok_def one_plus_lit_def framed_simps)

lemma frame_three_source_framed:
  "one_word_ok code n i \<Longrightarrow> \<exists>j. frame_three_source code n f i = Some j \<and> framed code n j"
  by (cases "n \<ge> 2"; cases "three_source_literal (code ! 1) \<and> n \<ge> 3")
    (simp_all add: one_word_ok_def frame_three_source_def framed_simps Let_def)

lemma keep_word_Some:
  "(b \<longrightarrow> k < n) \<Longrightarrow> n \<le> length code \<Longrightarrow>
   keep_word code k b i = Some (if b then i\<lparr>words := (words i)[k := code ! k]\<rparr> else i)"
  by (auto simp: keep_word_def)

lemma frame_mimg_framed:
  "one_word_ok code n i \<Longrightarrow> \<exists>j. frame_mimg code n w i = Some j \<and> framed code n j"
proof -
  assume i: "one_word_ok code n i"
  have "unat (ifld w 1 0x3) \<le> unat (0x3 :: dword)"
    unfolding ifld_def by (rule word_le_nat_alt[THEN iffD1, OF word_and_le1])
  then have x: "unat (ifld w 1 0x3) \<le> 3" by simp
  have n: "n \<le> length code" using i by (simp add: one_word_ok_def)
  show ?thesis
    unfolding frame_mimg_def Let_def
    using i x by (simp add: keep_word_Some[OF _ n] one_word_ok_def framed_simps)
qed


lemma dpp_parts_framed:
  "framed code n (dpp_admit vf w d1 i) = framed code n i" "framed code n (dpp_record d1 i) = framed code n i"
  by (simp_all add: framed_def no_sources_def dpp_admit_def dpp_record_def Let_def)

lemma vector_modifier_framed:
  assumes "one_word_ok code n i"
  shows "\<exists>j. vector_modifier code n vf w i = Some j \<and> framed code n j"
proof -
  have "one_word_ok code n (i\<lparr>has_modifier := True, has_sdwa := b\<rparr>)" for b
    using assms by (simp add: one_word_ok_def fresh_def no_sources_def)
  from two_dword_framed[OF this]
  obtain j where "two_dword code n vf (i\<lparr>has_modifier := True, has_sdwa := (w AND 0x1FF = 0xF9)\<rparr>) = Some j"
    and "framed code n j" by blast
  moreover have "n \<le> length code" using assms by (simp add: one_word_ok_def)
  ultimately show ?thesis
    by (simp add: vector_modifier_def Let_def dpp_parts_framed)
qed

lemma frame_vector_framed:
  "one_word_ok code n i \<Longrightarrow> \<exists>j. frame_vector code n w i = Some j \<and> framed code n j"
  unfolding frame_vector_def Let_def
  by (simp add: vector_modifier_framed one_plus_lit_framed)

lemma frame_scalar_framed:
  assumes "1 \<le> n" and "n \<le> length code" and "fresh (code ! 0) i"
  shows "\<exists>j. frame_scalar code n (code ! 0) i = Some j \<and> framed code n j"
proof (cases "code ! 0 AND 0xFF800000 = 0xBF800000")
  case True
  then show ?thesis using assms by (simp add: frame_scalar_def framed_simps)
next
  case False
  then have "code ! 0 \<noteq> kSEndpgm" by (auto simp: kSEndpgm_def)
  then have "one_word_ok code n i" using assms by (simp add: one_word_ok_def)
  with False show ?thesis by (simp add: frame_scalar_def one_plus_lit_framed)
qed

lemma frame_wide_framed:
  assumes "one_word_ok code n i"
  shows "\<exists>j. frame_wide code n w i = Some j \<and> framed code n j"
proof -
  have "framed code n (i\<lparr>fmt := f, len_dwords := Suc 0\<rparr>)" for f
    using assms by (simp add: one_word_ok_def framed_simps)
  then show ?thesis
    unfolding frame_wide_def Let_def using assms
    by (simp add: two_dword_framed frame_three_source_framed frame_mimg_framed)
qed

definition frame_one :: "dword list \<Rightarrow> nat \<Rightarrow> rdna2_inst option" where
  "frame_one code n =
     (let w = code ! 0; i = new_inst\<lparr>words := (words new_inst)[0 := w]\<rparr>
      in if w AND 0x80000000 = 0 then frame_vector code n w i
         else if w AND 0xC0000000 = 0x80000000 then frame_scalar code n w i
         else frame_wide code n w i)"

lemma fresh_new: "fresh w (new_inst\<lparr>words := (words new_inst)[0 := w]\<rparr>)"
  unfolding new_inst_words by (simp add: fresh_def no_sources_def new_inst_def)

lemma frame_one_framed:
  assumes "1 \<le> n" and "n \<le> length code"
  shows "\<exists>j. frame_one code n = Some j \<and> framed code n j"
proof (cases "code ! 0 = kSEndpgm")
  case True
  then have "\<not> code ! 0 AND 0x80000000 = 0" "code ! 0 AND 0xC0000000 = 0x80000000"
    by (simp_all add: kSEndpgm_def)
  then show ?thesis using assms frame_scalar_framed fresh_new by (simp add: frame_one_def Let_def)
next
  case False
  then have "one_word_ok code n (new_inst\<lparr>words := (words new_inst)[0 := code ! 0]\<rparr>)"
    using assms fresh_new by (simp add: one_word_ok_def)
  then show ?thesis
    using assms frame_scalar_framed fresh_new
    by (simp add: frame_one_def Let_def frame_vector_framed frame_wide_framed)
qed

lemma rdna2_decode_one_frame:
  assumes "1 \<le> n" and "n \<le> length code"
  shows "rdna2_decode_one code n = frame_one code n \<bind> (\<lambda>j. Some (decode_operands (clamp_len n j)))"
proof -
  have "0 < length code" and "n \<noteq> 0" using assms by auto
  then show ?thesis by (simp add: rdna2_decode_one_def frame_one_def Let_def)
qed

lemma clamp_len_framed: "framed code n i \<Longrightarrow> 1 \<le> n \<Longrightarrow> framed code n (clamp_len n i)"
  by (auto simp: clamp_len_def framed_def no_sources_def)

lemma rdna2_decode_one_Some:
  assumes "1 \<le> n" and "n \<le> length code"
  obtains j where "frame_one code n = Some j" and "framed code n j" and "framed code n (clamp_len n j)"
    and "rdna2_decode_one code n = Some (decode_operands (clamp_len n j))"
  using frame_one_framed[OF assms] rdna2_decode_one_frame[OF assms] clamp_len_framed assms that by force

lemma clamp_len_le: "len_dwords (clamp_len n i) \<le> n"
  by (simp add: clamp_len_def)

end
