(* ===== verification/Rdna2Walk.thy ===== *)
theory Rdna2Walk
  imports Rdna2Facts
begin

text \<open>
  The walk over a shader binary: it returns on every buffer, the instructions it lists tile the
  words it consumed, and only the last of them can end the program or be unknown. From this the
  users of the walk get their meaning in words of the buffer.
\<close>

subsection \<open>Decoding one instruction\<close>

lemma framing_decode:
  "words (decode_operands i) = words i" "len_dwords (decode_operands i) = len_dwords i"
  "is_end (decode_operands i) = is_end i" "inst_pc (decode_operands i) = inst_pc i"
  "has_literal (decode_operands i) = has_literal i" "has_sdwa (decode_operands i) = has_sdwa i"
  "has_dpp (decode_operands i) = has_dpp i"
  using decode_operands_frame[of i] by (simp_all add: framing_def)

lemma decode_one_facts:
  assumes "1 \<le> n" and "n \<le> length code"
  obtains i where "rdna2_decode_one code n = Some i" and "inst_pc i = 0" and "words i ! 0 = code ! 0"
    and "1 \<le> len_dwords i" and "len_dwords i \<le> 5" and "len_dwords i \<le> n"
    and "is_end i \<longleftrightarrow> code ! 0 = kSEndpgm" and "fields_ok (operand_fields i)"
proof -
  obtain j where j: "framed code n (clamp_len n j)"
    and r: "rdna2_decode_one code n = Some (decode_operands (clamp_len n j))"
    using rdna2_decode_one_Some[OF assms] by blast
  have "no_sources (clamp_len n j)" using j by (simp add: framed_def)
  then have "fields_ok (operand_fields (decode_operands (clamp_len n j)))"
    by (rule decode_operands_ok)
  with j r clamp_len_le[of n j] show ?thesis
    by (intro that[of "decode_operands (clamp_len n j)"])
      (simp_all add: framing_decode framed_def)
qed

subsection \<open>The walk\<close>

fun chain :: "dword list \<Rightarrow> nat \<Rightarrow> nat \<Rightarrow> rdna2_inst list \<Rightarrow> nat \<Rightarrow> bool" where
  "chain code dwords pc [] n \<longleftrightarrow> n = pc \<and> pc = dwords"
| "chain code dwords pc (i # is) n \<longleftrightarrow>
     pc < dwords \<and> rdna2_decode_one (drop pc code) (dwords - pc) = Some (i\<lparr>inst_pc := 0\<rparr>)
     \<and> inst_pc i = u32 pc \<and> words i ! 0 = code ! pc \<and> (is_end i \<longleftrightarrow> code ! pc = kSEndpgm)
     \<and> 1 \<le> len_dwords i \<and> len_dwords i \<le> 5 \<and> pc + len_dwords i \<le> dwords
     \<and> (if is_end i \<or> fmt i = UnknownFormat then is = [] \<and> n = pc + len_dwords i
         else chain code dwords (pc + len_dwords i) is n)"

lemma walk_from_chain:
  "dwords \<le> length code \<Longrightarrow> pc \<le> dwords \<Longrightarrow>
   \<exists>insts n. rdna2_walk_from code dwords pc out = Some (n, out @ insts) \<and> chain code dwords pc insts n"
proof (induction code dwords pc out rule: rdna2_walk_from.induct)
  case (1 code dwords pc out)
  show ?case
  proof (cases "pc < dwords")
    case False
    then show ?thesis using "1.prems" by (intro exI[of _ "[]"] exI[of _ pc]) (simp add: rdna2_walk_from.simps)
  next
    case True
    have size: "1 \<le> dwords - pc" "dwords - pc \<le> length (drop pc code)" using True "1.prems" by auto
    obtain j where j: "rdna2_decode_one (drop pc code) (dwords - pc) = Some j" and f: "inst_pc j = 0"
      "words j ! 0 = drop pc code ! 0" "1 \<le> len_dwords j" "len_dwords j \<le> 5" "len_dwords j \<le> dwords - pc"
      "is_end j \<longleftrightarrow> drop pc code ! 0 = kSEndpgm"
      using decode_one_facts[OF size] by metis
    define i where "i = j\<lparr>inst_pc := u32 pc\<rparr>"
    have ji: "j = i\<lparr>inst_pc := 0\<rparr>" using f(1) by (simp add: i_def)
    have c0: "drop pc code ! 0 = code ! pc" using True "1.prems" by simp
    have i: "fmt i = fmt j" "is_end i = is_end j" "len_dwords i = len_dwords j" "words i = words j"
      "inst_pc i = u32 pc"
      by (simp_all add: i_def)
    show ?thesis
    proof (cases "is_end j \<or> fmt j = UnknownFormat")
      case e: True
      have "rdna2_walk_from code dwords pc out = Some (pc + len_dwords j, out @ [i])"
        using True j f e by (simp add: rdna2_walk_from.simps i_def)
      moreover have "chain code dwords pc [i] (pc + len_dwords j)"
        using True j[unfolded ji] f c0 e i by simp
      ultimately show ?thesis by blast
    next
      case e: False
      have w: "rdna2_walk_from code dwords pc out = rdna2_walk_from code dwords (pc + len_dwords j) (out @ [i])"
        using True j f e by (simp add: rdna2_walk_from.simps[of code dwords pc out] i_def)
      have "\<exists>insts n. rdna2_walk_from code dwords (pc + len_dwords j) (out @ [j\<lparr>inst_pc := u32 pc\<rparr>])
            = Some (n, (out @ [j\<lparr>inst_pc := u32 pc\<rparr>]) @ insts) \<and> chain code dwords (pc + len_dwords j) insts n"
        by (rule "1.IH"[OF True j]) (use e f "1.prems" True in auto)
      then obtain insts n where r: "rdna2_walk_from code dwords (pc + len_dwords j) (out @ [i])
            = Some (n, (out @ [i]) @ insts)" and ch: "chain code dwords (pc + len_dwords j) insts n"
        unfolding i_def by blast
      have "chain code dwords pc (i # insts) n"
        using True j[unfolded ji] f c0 e i ch by simp
      with w r show ?thesis by auto
    qed
  qed
qed

lemma rdna2_walk_chain:
  assumes "dwords \<le> length code"
  obtains insts n where "rdna2_walk code dwords = Some (n, insts)" and "chain code dwords 0 insts n"
  using walk_from_chain[OF assms, of 0 "[]"] that by (auto simp: rdna2_walk_def)

definition pc_of :: "rdna2_inst list \<Rightarrow> nat \<Rightarrow> nat" where
  "pc_of insts k = sum_list (map len_dwords (take k insts))"

lemma chain_end:
  "chain code dwords pc insts n \<Longrightarrow>
   n = pc + sum_list (map len_dwords insts) \<and> n \<le> dwords
   \<and> (n < dwords \<longrightarrow> insts \<noteq> [] \<and> (is_end (last insts) \<or> fmt (last insts) = UnknownFormat))"
proof (induction insts arbitrary: pc)
  case Nil
  then show ?case by simp
next
  case (Cons i "is")
  show ?case
  proof (cases "is_end i \<or> fmt i = UnknownFormat")
    case True
    then show ?thesis using Cons.prems by auto
  next
    case False
    then have "chain code dwords (pc + len_dwords i) is n" using Cons.prems by simp
    from Cons.IH[OF this] this show ?thesis by (cases "is") auto
  qed
qed

lemma chain_nth:
  "chain code dwords pc insts n \<Longrightarrow> k < length insts \<Longrightarrow>
   rdna2_decode_one (drop (pc + pc_of insts k) code) (dwords - (pc + pc_of insts k))
     = Some ((insts ! k)\<lparr>inst_pc := 0\<rparr>)
   \<and> inst_pc (insts ! k) = u32 (pc + pc_of insts k) \<and> words (insts ! k) ! 0 = code ! (pc + pc_of insts k)
   \<and> (is_end (insts ! k) \<longleftrightarrow> code ! (pc + pc_of insts k) = kSEndpgm)
   \<and> 1 \<le> len_dwords (insts ! k) \<and> len_dwords (insts ! k) \<le> 5
   \<and> (k + 1 < length insts \<longrightarrow> \<not> is_end (insts ! k) \<and> fmt (insts ! k) \<noteq> UnknownFormat)
   \<and> pc + pc_of insts k < dwords"
proof (induction insts arbitrary: pc k)
  case Nil
  then show ?case by simp
next
  case (Cons i "is")
  show ?case
  proof (cases k)
    case 0
    then show ?thesis using Cons.prems by (auto simp: pc_of_def split: if_splits)
  next
    case (Suc m)
    then have m: "m < length is" using Cons.prems by simp
    then have "chain code dwords (pc + len_dwords i) is n" using Cons.prems by (auto split: if_splits)
    from Cons.IH[OF this m] show ?thesis unfolding Suc pc_of_def by (auto simp: add.assoc)
  qed
qed

text \<open>
  C33: Walking a shader binary returns on every buffer, without a read outside of it. The
  instructions it lists tile the words it consumed: each starts where the one before it ended,
  is one to five words long, keeps its first word and is what decoding at that place gives. It
  ends the program exactly where the word is \<open>s_endpgm\<close>, only the last instruction can end the
  program or be unknown, and the walk stops before the end of the buffer only for that reason.
\<close>

theorem rdna2_walk_tiles_stream:
  assumes "dwords \<le> length code"
  shows "\<exists>n insts. rdna2_walk code dwords = Some (n, insts)
     \<and> n = pc_of insts (length insts) \<and> n \<le> dwords
     \<and> (\<forall>k < length insts. let i = insts ! k; p = pc_of insts k in
           p < n \<and> inst_pc i = u32 p
           \<and> rdna2_decode_one (drop p code) (dwords - p) = Some (i\<lparr>inst_pc := 0\<rparr>)
           \<and> words i ! 0 = code ! p \<and> (is_end i \<longleftrightarrow> code ! p = kSEndpgm)
           \<and> 1 \<le> len_dwords i \<and> len_dwords i \<le> 5
           \<and> (k + 1 < length insts \<longrightarrow> \<not> is_end i \<and> fmt i \<noteq> UnknownFormat))
     \<and> (n < dwords \<longrightarrow> insts \<noteq> [] \<and> (is_end (last insts) \<or> fmt (last insts) = UnknownFormat))"
proof -
  obtain insts n where w: "rdna2_walk code dwords = Some (n, insts)" and c: "chain code dwords 0 insts n"
    using rdna2_walk_chain[OF assms] by blast
  have len: "pc_of insts k + len_dwords (insts ! k) \<le> pc_of insts (length insts)" if "k < length insts" for k
  proof -
    have "insts = take k insts @ insts ! k # drop (Suc k) insts" using that by (rule id_take_nth_drop)
    then have "pc_of insts (length insts)
        = sum_list (map len_dwords (take k insts @ insts ! k # drop (Suc k) insts))"
      by (simp add: pc_of_def)
    then show ?thesis by (simp add: pc_of_def)
  qed
  have e: "n = pc_of insts (length insts)" using chain_end[OF c] by (simp add: pc_of_def)
  have "pc_of insts k < n" if "k < length insts" for k
    using len[OF that] chain_nth[OF c that] e by auto
  with w e chain_end[OF c] chain_nth[OF c] show ?thesis
    unfolding Let_def by (intro exI[of _ n] exI[of _ insts]) auto
qed

theorem rdna2_walk_tiles_stream_witness:
  "\<exists>n insts. rdna2_walk [0x7E000301, 0xBF810000, 0xFFFFFFFF] 3 = Some (n, insts)
     \<and> n = pc_of insts (length insts) \<and> n \<le> 3"
proof -
  have "3 \<le> length [0x7E000301, 0xBF810000, 0xFFFFFFFF :: dword]" by simp
  from rdna2_walk_tiles_stream[OF this] show ?thesis by blast
qed

text \<open>
  A program counts as doing nothing exactly when its first word is \<open>s_endpgm\<close>; an encoding
  that could not be decoded, an instruction before the terminator or an empty or null buffer does
  not.
\<close>

lemma terminator_only_is_endpgm:
  assumes "\<And>c. code = Some c \<Longrightarrow> dwords \<le> length c"
  shows "rdna2_program_is_terminator_only code dwords
     = Some (case code of None \<Rightarrow> False | Some c \<Rightarrow> dwords \<noteq> 0 \<and> c ! 0 = kSEndpgm)"
proof (cases "code = None \<or> dwords = 0")
  case True
  then show ?thesis by (auto simp: rdna2_program_is_terminator_only_def split: option.splits)
next
  case False
  then obtain c where c: "code = Some c" and d: "dwords \<noteq> 0" by auto
  obtain insts n where w: "rdna2_walk c dwords = Some (n, insts)" and ch: "chain c dwords 0 insts n"
    using rdna2_walk_chain[OF assms[OF c]] by blast
  obtain i "is" where insts: "insts = i # is" using ch d by (cases insts) auto
  have e: "is_end i \<longleftrightarrow> c ! 0 = kSEndpgm" and nz: "n \<noteq> 0" and one: "is_end i \<Longrightarrow> is = []"
    using ch chain_end[OF ch] unfolding insts by (auto split: if_splits)
  show ?thesis
    using c d w e nz one unfolding insts
    by (auto simp: rdna2_program_is_terminator_only_def)
qed

end
