(* ===== verification/Rdna2Literals.thy ===== *)
theory Rdna2Literals
  imports Rdna2Walk
begin

text \<open>
  Operands of decoded instructions: they are in the range of their kind, the two-source operations
  of the three-source encoding expose no third source, and an operand that names the trailing
  constant has one.
\<close>

subsection \<open>Formats\<close>

text \<open>The arithmetic formats keep their format and the trailing constant.\<close>

definition alu_kept :: "rdna2_inst \<Rightarrow> rdna2_format \<times> dword" where
  "alu_kept i = (fmt i, literal i)"

lemma arms_kept:
  "alu_kept (vop1_sdwa_mov sd i) = alu_kept i" "alu_kept (vop1_sdwa_bfrev sd i) = alu_kept i"
  "alu_kept (vop1_sdwa_cvt_f32_f16 sd i) = alu_kept i" "alu_kept (vop1_sdwa_cvt_f16_f32 sd i) = alu_kept i"
  "alu_kept (vop1_sdwa_cvt_int_f32 sd i) = alu_kept i" "alu_kept (vop1_sdwa_cvt_f32_int sd i) = alu_kept i"
  "alu_kept (vop1_sdwa_half sd i) = alu_kept i" "alu_kept (vop2_sdwa_integer sd i) = alu_kept i"
  "alu_kept (vop2_sdwa_f16 sd i) = alu_kept i" "alu_kept (vop2_sdwa_cndmask sd i) = alu_kept i"
  "alu_kept (vop2_sdwa_lshlrev sd i) = alu_kept i" "alu_kept (vop1_sdwa_operands sd i) = alu_kept i"
  "alu_kept (vop2_sdwa_operands sd i) = alu_kept i" "alu_kept (vopc_sdwa_operands sd i) = alu_kept i"
  "alu_kept (vop3p_modifiers i) = alu_kept i" "alu_kept (i\<lparr>has_modifier := b\<rparr>) = alu_kept i"
  by (simp_all add: alu_kept_def vop1_arms vop2_arms vop1_sdwa_operands_def vop2_sdwa_operands_def
      vopc_sdwa_operands_def vop3p_modifiers_def Let_def)

lemma sdwa_kept:
  "alu_kept (vop1_sdwa sd i) = alu_kept i" "alu_kept (vop2_sdwa sd i) = alu_kept i"
  unfolding vop1_sdwa_def vop2_sdwa_def Let_def by (simp_all add: arms_kept)

lemma vopc_sdwa_kept: "alu_kept (vopc_sdwa sd i) = alu_kept i"
  by (simp add: alu_kept_def vopc_sdwa_def Let_def)

lemma field_updates_kept:
  "alu_kept (i\<lparr>opcode := a, dst := p, src := xs, n_src := m\<rparr>) = alu_kept i"
  "alu_kept (i\<lparr>opcode := a, dst := p\<rparr>) = alu_kept i"
  by (simp_all add: alu_kept_def)

lemma alu_formats_kept:
  "alu_kept (decode_vop1 i) = alu_kept i" "alu_kept (decode_vop2 i) = alu_kept i"
  "alu_kept (decode_vopc i) = alu_kept i" "alu_kept (decode_vop3p i) = alu_kept i"
  "alu_kept (decode_sop1 i) = alu_kept i" "alu_kept (decode_sop2 i) = alu_kept i"
  unfolding decode_vop1_def decode_vop2_def decode_vopc_def decode_vop3p_def decode_sop1_def decode_sop2_def Let_def
  by (simp_all add: sdwa_kept vopc_sdwa_kept arms_kept field_updates_kept)

lemma fmt_kept:
  "fmt (decode_vop1 i) = fmt i" "fmt (decode_vop2 i) = fmt i" "fmt (decode_vopc i) = fmt i"
  "fmt (decode_vop3p i) = fmt i"
  using alu_formats_kept[of i] by (simp_all add: alu_kept_def)

lemma fmt_kept_plain:
  "fmt (decode_sop1 i) = fmt i" "fmt (decode_sop2 i) = fmt i"
  "fmt (decode_sopk i) = fmt i" "fmt (decode_sopc i) = fmt i" "fmt (decode_sopp i) = fmt i"
  "fmt (decode_exp i) = fmt i" "fmt (decode_smem i) = fmt i" "fmt (decode_mubuf i) = fmt i"
  "fmt (decode_mtbuf i) = fmt i" "fmt (decode_flat i) = fmt i" "fmt (decode_mimg i) = fmt i"
  "fmt (decode_ds i) = fmt i" "fmt (decode_vintrp i) = fmt i"
  by (simp_all add: plain_formats Let_def)

lemma vop3_stages:
  "fmt (vop3_selectors i) = fmt i" "fmt (vop3_two_sources i) = fmt i" "fmt (vop3_scalar_dst i) = fmt i"
  "fmt (vop3a_fields i) = fmt i"
  "opcode (vop3_selectors i) = opcode i" "opcode (vop3_two_sources i) = opcode i"
  "opcode (vop3_scalar_dst i) = opcode i" "opcode (vop3_compare i) = opcode i"
  "n_src (vop3_selectors i) = n_src i"
  by (simp_all add: vop3_selectors_def vop3_two_sources_def vop3_scalar_dst_def vop3_compare_def
      vop3a_fields_def Let_def)

lemma fmt_decode_vop3: "fmt i = VOP3 \<Longrightarrow> fmt (decode_vop3 i) = VOP3 \<or> fmt (decode_vop3 i) = VOPC"
  by (simp add: decode_vop3_def vop3_stages vop3_compare_def)

lemma fmt_decode_operands:
  "fmt i \<noteq> VOP3 \<Longrightarrow> fmt (decode_operands i) = fmt i"
  "fmt i = VOP3 \<Longrightarrow> fmt (decode_operands i) = VOP3 \<or> fmt (decode_operands i) = VOPC"
  using fmt_decode_vop3[of i]
  by (cases "fmt i"; simp add: decode_operands_def fmt_kept fmt_kept_plain)+

lemma decode_operands_vop3: "fmt (decode_operands i) = VOP3 \<Longrightarrow> fmt i = VOP3 \<and> decode_operands i = decode_vop3 i"
  using fmt_decode_operands[of i] by (cases "fmt i = VOP3") (simp_all add: decode_operands_def)

lemma decode_vop3_two_sources:
  "emitted_vop3_opcode_has_two_data_sources (opcode (decode_vop3 i)) \<Longrightarrow> n_src (decode_vop3 i) = 2"
  unfolding decode_vop3_def by (simp add: vop3_stages) (simp add: vop3_two_sources_def vop3_stages)

text \<open>
  C34: Every operand of a decoded instruction is in the range of its kind: at most 128 scalar and
  256 vector registers, inline constants from -16 to 64. Sources beyond the number of sources are
  absent, and so is the reserved third source of every two-source operation in the three-source
  encoding.
\<close>

theorem decoded_operands_in_range:
  assumes "1 \<le> n" and "n \<le> length code" and "rdna2_decode_one code n = Some i"
  shows "operand_ok (dst i) \<and> operand_ok (sdst i) \<and> length (src i) = 4 \<and> n_src i \<le> 4
     \<and> (\<forall>k<4. operand_ok (src i ! k) \<and> (n_src i \<le> k \<longrightarrow> src i ! k = no_operand))
     \<and> (fmt i = VOP3 \<and> emitted_vop3_opcode_has_two_data_sources (opcode i) \<longrightarrow> n_src i = 2)"
proof -
  obtain j where i: "i = decode_operands (clamp_len n j)"
    using rdna2_decode_one_Some[OF assms(1,2)] assms(3) by (metis option.inject)
  have ok: "fields_ok (operand_fields i)"
    using decode_one_facts[OF assms(1,2)] assms(3) by (metis option.inject)
  have "n_src i = 2" if "fmt i = VOP3" "emitted_vop3_opcode_has_two_data_sources (opcode i)"
    using that decode_operands_vop3[of "clamp_len n j"] decode_vop3_two_sources[of "clamp_len n j"]
    unfolding i by simp
  with ok show ?thesis by (auto simp: fields_ok_def operand_fields_def)
qed

lemma mul_lo_example:
  "map_option (\<lambda>i. (fmt i, opcode i)) (rdna2_decode_one [0xD5690000, 0x00020300] 2) = Some (VOP3, 0x169)"
  by code_simp

theorem decoded_operands_in_range_witness:
  "\<exists>i. rdna2_decode_one [0xD5690000, 0x00020300] 2 = Some i \<and> fmt i = VOP3 \<and> n_src i = 2
     \<and> operand_ok (src i ! 0) \<and> src i ! 2 = no_operand"
proof -
  obtain i where i: "rdna2_decode_one [0xD5690000, 0x00020300] 2 = Some i" "fmt i = VOP3" "opcode i = 0x169"
    using mul_lo_example by auto
  have "emitted_vop3_opcode_has_two_data_sources (opcode i)"
    by (simp add: i emitted_vop3_opcode_has_two_data_sources_def kVop3OpcodeMulLoU32_def)
  moreover have "(1 :: nat) \<le> 2" "2 \<le> length [0xD5690000, 0x00020300 :: dword]" by simp_all
  ultimately show ?thesis
    using decoded_operands_in_range[OF _ _ i(1)] i by auto
qed

subsection \<open>Trailing constants\<close>

lemma decode_src_field_Literal: "opkind (decode_src_field f) = Literal \<longleftrightarrow> f = 0xFF"
  by (simp add: decode_src_field_def)

lemma not_Literal [simp]: "opkind (vgpr a) \<noteq> Literal" "opkind (sgpr a) \<noteq> Literal" "opkind no_operand \<noteq> Literal"
  by (simp_all add: vgpr_def sgpr_def no_operand_def)

definition literal_sources :: "rdna2_inst \<Rightarrow> bool" where
  "literal_sources i \<longleftrightarrow> (\<exists>k<4. opkind (src i ! k) = Literal)"

lemma ex_less_4: "(\<exists>k<4. P k) \<longleftrightarrow> P 0 \<or> P 1 \<or> P 2 \<or> P (3 :: nat)"
  by (auto simp: numeral_eq_Suc less_Suc_eq)

text \<open>Which source fields ask for a constant, per format.\<close>

lemma literal_sources_scalar:
  assumes "no_sources i"
  shows "literal_sources (decode_sop1 i) \<Longrightarrow> sop_has_literal (words i ! 0) 1"
    and "literal_sources (decode_sop2 i) \<Longrightarrow> sop_has_literal (words i ! 0) 2"
    and "literal_sources (decode_sopc i) \<Longrightarrow> sop_has_literal (words i ! 0) 2"
  using assms
  by (auto simp: literal_sources_def ex_less_4 no_sources_def decode_sop1_def decode_sop2_def decode_sopc_def Let_def
      replicate_4 decode_src_field_Literal sop_has_literal_def kLiteralMarker_def)

lemma literal_sources_vector:
  assumes "no_sources i" and "words i ! 0 AND 0x1FF \<noteq> 0xF9"
  shows "literal_sources (decode_vop1 i) \<Longrightarrow> words i ! 0 AND 0x1FF = 0xFF"
    and "literal_sources (decode_vop2 i) \<Longrightarrow> words i ! 0 AND 0x1FF = 0xFF"
    and "literal_sources (decode_vopc i) \<Longrightarrow> words i ! 0 AND 0x1FF = 0xFF"
  using assms
  by (auto simp: literal_sources_def ex_less_4 no_sources_def decode_vop1_def decode_vop2_def decode_vopc_def Let_def
      replicate_4 decode_src_field_Literal split: if_splits)

lemma vop3_sources:
  "src (vop3_selectors i) = src i"
  "src (vop3p_modifiers i) = src i"
  "src (vop3_scalar_dst i) = src i"
  "src (vop3_two_sources i) = src i \<or> src (vop3_two_sources i) = (src i)[2 := no_operand]"
  "src (vop3_compare i) = src i \<or> src (vop3_compare i) = (src i)[2 := no_operand]"
  by (simp_all add: vop3_selectors_def vop3p_modifiers_def vop3_scalar_dst_def vop3_two_sources_def vop3_compare_def Let_def)

lemma literal_sources_three:
  assumes "no_sources i"
  shows "literal_sources (decode_vop3 i) \<Longrightarrow> three_source_literal (words i ! 1)"
    and "literal_sources (decode_vop3p i) \<Longrightarrow> three_source_literal (words i ! 1)"
proof -
  have s: "src (vop3a_fields i) = three_sources (words i ! 1) (replicate 4 no_operand)"
    using assms by (simp add: vop3a_fields_def no_sources_def Let_def)
  show "literal_sources (decode_vop3 i) \<Longrightarrow> three_source_literal (words i ! 1)"
    using vop3_sources(4)[of "vop3_scalar_dst (vop3_compare (vop3a_fields i))"] vop3_sources(5)[of "vop3a_fields i"]
    by (auto simp: literal_sources_def ex_less_4 decode_vop3_def vop3_sources(1,3) s three_sources_def replicate_4
        decode_src_field_Literal three_source_literal_def)
  show "literal_sources (decode_vop3p i) \<Longrightarrow> three_source_literal (words i ! 1)"
    using assms
    by (auto simp: literal_sources_def ex_less_4 decode_vop3p_def vop3_sources(2) no_sources_def three_sources_def
        replicate_4 decode_src_field_Literal three_source_literal_def)
qed


definition alu_formats :: "rdna2_format set" where
  "alu_formats = {SOP1, SOP2, SOPC, VOP1, VOP2, VOPC, VOP3, VOP3P}"

text \<open>
  How far the constant of an encoding of \<open>need - 1\<close> words is read: whole when \<open>need\<close> words are
  there, not at all when the buffer ends before it.
\<close>

definition constant_read :: "dword list \<Rightarrow> nat \<Rightarrow> nat \<Rightarrow> rdna2_inst \<Rightarrow> bool" where
  "constant_read code n need j \<longleftrightarrow>
     (if need \<le> n then has_literal j \<and> literal j = code ! (need - 1) \<and> len_dwords j = need
      else \<not> has_literal j \<and> len_dwords j = n)"

definition constant_rule :: "dword list \<Rightarrow> nat \<Rightarrow> rdna2_inst \<Rightarrow> bool" where
  "constant_rule code n j \<longleftrightarrow>
     (let w = code ! 0 in
      (fmt j \<in> {VOP1, VOP2, VOPC} \<longrightarrow>
         has_sdwa j = (w AND 0x1FF = 0xF9) \<and> (has_sdwa j \<longrightarrow> \<not> has_literal j)
         \<and> (w AND 0x1FF = 0xFF \<longrightarrow> constant_read code n 2 j))
      \<and> (fmt j = SOP1 \<and> sop_has_literal w 1 \<longrightarrow> constant_read code n 2 j)
      \<and> (fmt j \<in> {SOP2, SOPC} \<and> sop_has_literal w 2 \<longrightarrow> constant_read code n 2 j)
      \<and> (fmt j \<in> {VOP3, VOP3P} \<and> three_source_literal (words j ! 1) \<longrightarrow> constant_read code n 3 j)
      \<and> (fmt j \<in> alu_formats \<longrightarrow> (fmt j \<in> {VOP3, VOP3P} \<longleftrightarrow> w AND 0xC0000000 = 0xC0000000))
      \<and> (fmt j \<in> {SOP1, SOP2, SOPC, VOP3, VOP3P} \<longrightarrow> \<not> has_sdwa j))"

lemma two_dword_Some:
  "2 \<le> n \<Longrightarrow> n \<le> length code \<Longrightarrow>
   two_dword code n f i = Some (i\<lparr>fmt := f, len_dwords := 2, words := (words i)[1 := code ! 1]\<rparr>)"
  by (simp add: two_dword_def)

lemma one_plus_lit_Some:
  "n \<le> length code \<Longrightarrow>
   one_plus_lit code n f b i =
     Some (if b \<and> 2 \<le> n then i\<lparr>fmt := f, has_literal := True, literal := code ! 1, len_dwords := 2\<rparr>
           else i\<lparr>fmt := f, len_dwords := 1\<rparr>)"
  by (simp add: one_plus_lit_def)

lemma frame_three_source_Some:
  "n \<le> length code \<Longrightarrow>
   frame_three_source code n f i =
     Some (if 2 \<le> n
           then if three_source_literal (code ! 1) \<and> 3 \<le> n
                then i\<lparr>fmt := f, words := (words i)[1 := code ! 1], has_literal := True, literal := code ! 2, len_dwords := 3\<rparr>
                else i\<lparr>fmt := f, words := (words i)[1 := code ! 1], len_dwords := 2\<rparr>
           else i\<lparr>fmt := f, len_dwords := 1\<rparr>)"
  by (simp add: frame_three_source_def Let_def)

lemma dpp_parts_kept:
  "fmt (dpp_admit vf w d1 i) = fmt i" "has_sdwa (dpp_admit vf w d1 i) = has_sdwa i"
  "fmt (dpp_record d1 i) = fmt i" "has_sdwa (dpp_record d1 i) = has_sdwa i"
  by (simp_all add: dpp_admit_def dpp_record_def Let_def)

lemma vector_format_cases: "vector_format w \<in> {VOP1, VOP2, VOPC}"
  by (simp add: vector_format_def)

lemma keep_word_fmt: "keep_word code k b i = Some j \<Longrightarrow> fmt j = fmt i"
  by (auto simp: keep_word_def bind_eq_Some_conv split: if_splits)

lemma frame_mimg_fmt: "frame_mimg code n w i = Some j \<Longrightarrow> fmt j = MIMG"
  by (auto simp: frame_mimg_def bind_eq_Some_conv Let_def dest!: keep_word_fmt)

lemma dpp_parts_literal:
  "has_literal (dpp_admit vf w d1 i) = has_literal i" "has_literal (dpp_record d1 i) = has_literal i"
  by (simp_all add: dpp_admit_def dpp_record_def Let_def)

lemma two_dword_parts:
  "two_dword code n f i = Some j \<Longrightarrow> fmt j = f \<and> has_sdwa j = has_sdwa i \<and> has_literal j = has_literal i"
  by (auto simp: two_dword_def bind_eq_Some_conv split: if_splits)

lemma vector_modifier_kept:
  assumes "vector_modifier code n vf w i = Some j"
  shows "fmt j = vf \<and> has_sdwa j = (w AND 0x1FF = 0xF9) \<and> has_literal j = has_literal i"
proof -
  have "\<exists>i1. two_dword code n vf (i\<lparr>has_modifier := True, has_sdwa := (w AND 0x1FF = 0xF9)\<rparr>) = Some i1
      \<and> (j = i1 \<or> (\<exists>d1. j = dpp_record d1 (dpp_admit vf w d1 i1)))"
    using assms by (force simp: vector_modifier_def Let_def bind_eq_Some_conv split: if_splits)
  then obtain i1 where i1: "two_dword code n vf (i\<lparr>has_modifier := True, has_sdwa := (w AND 0x1FF = 0xF9)\<rparr>) = Some i1"
    and j: "j = i1 \<or> (\<exists>d1. j = dpp_record d1 (dpp_admit vf w d1 i1))" by blast
  from two_dword_parts[OF i1] j show ?thesis
    by (auto simp: dpp_parts_kept dpp_parts_literal)
qed

lemma narrow_word: "w AND 0x80000000 = 0 \<Longrightarrow> w AND 0xC0000000 \<noteq> 0xC0000000" for w :: dword
proof
  assume z: "w AND 0x80000000 = 0" and "w AND 0xC0000000 = 0xC0000000"
  then have "(w AND 0xC0000000) AND 0x80000000 = 0x80000000" by simp
  with z show False by (simp add: and.assoc)
qed

text \<open>What a freshly started instruction has: no constant, no SDWA word, no second word.\<close>

definition unread :: "rdna2_inst \<Rightarrow> bool" where
  "unread i \<longleftrightarrow> \<not> has_literal i \<and> \<not> has_sdwa i \<and> words i ! 1 = 0 \<and> length (words i) = 5"

lemma frame_vector_constant:
  assumes "1 \<le> n" and "n \<le> length code" and "frame_vector code n (code ! 0) i = Some j" and "unread i"
    and "code ! 0 AND 0x80000000 = 0"
  shows "constant_rule code n j"
proof (cases "code ! 0 AND 0x1FF = 0xF9 \<or> code ! 0 AND 0x1FF = 0xFA \<or> code ! 0 AND 0x1FF = 0xE9 \<or> code ! 0 AND 0x1FF = 0xEA")
  case True
  have "vector_modifier code n (vector_format (code ! 0)) (code ! 0) i = Some j"
    using True assms(3) by (simp add: frame_vector_def Let_def)
  from vector_modifier_kept[OF this] vector_format_cases[of "code ! 0"] True assms(4) narrow_word[OF assms(5)] show ?thesis
    by (auto simp: constant_rule_def unread_def Let_def)
next
  case False
  have "one_plus_lit code n (vector_format (code ! 0)) (vector_has_literal (vector_format (code ! 0)) (code ! 0)) i = Some j"
    using False assms(3) by (simp add: frame_vector_def Let_def)
  then have "fmt j = vector_format (code ! 0)" "has_sdwa j = has_sdwa i"
    "code ! 0 AND 0x1FF = 0xFF \<Longrightarrow> constant_read code n 2 j"
    using assms(1,4) unfolding one_plus_lit_Some[OF assms(2)]
    by (auto simp: vector_has_literal_def constant_read_def unread_def split: if_splits)
  with False assms(4) vector_format_cases[of "code ! 0"] narrow_word[OF assms(5)] show ?thesis
    by (auto simp: constant_rule_def unread_def Let_def)
qed

lemma one_plus_lit_parts:
  assumes "1 \<le> n" and "n \<le> length code" and "unread i" and "one_plus_lit code n f b i = Some j"
  shows "fmt j = f" and "\<not> has_sdwa j" and "b \<Longrightarrow> constant_read code n 2 j"
  using assms unfolding one_plus_lit_Some[OF assms(2)]
  by (auto simp: constant_read_def unread_def split: if_splits)

lemma frame_scalar_constant:
  assumes "1 \<le> n" and "n \<le> length code" and "frame_scalar code n (code ! 0) i = Some j" and "unread i"
    and "code ! 0 AND 0xC0000000 = 0x80000000"
  shows "constant_rule code n j"
proof -
  have "code ! 0 AND 0xC0000000 \<noteq> 0xC0000000" using assms(5) by simp
  moreover have "fmt j = SOPP \<or> fmt j = SOPK
      \<or> fmt j = SOP1 \<and> \<not> has_sdwa j \<and> (sop_has_literal (code ! 0) 1 \<longrightarrow> constant_read code n 2 j)
      \<or> (fmt j = SOP2 \<or> fmt j = SOPC) \<and> \<not> has_sdwa j \<and> (sop_has_literal (code ! 0) 2 \<longrightarrow> constant_read code n 2 j)"
    using assms(3) one_plus_lit_parts[OF assms(1,2,4)] unfolding frame_scalar_def
    by (auto split: if_splits)
  ultimately show ?thesis by (auto simp: constant_rule_def alu_formats_def Let_def)
qed

lemma three_source_constant:
  assumes "1 \<le> n" and "n \<le> length code" and "frame_three_source code n f i = Some j" and "unread i"
  shows "fmt j = f \<and> \<not> has_sdwa j \<and> (three_source_literal (words j ! 1) \<longrightarrow> constant_read code n 3 j)"
  using assms(1,3,4) unfolding frame_three_source_Some[OF assms(2)] unread_def
  by (auto simp: constant_read_def three_source_literal_def ifld_def split: if_splits)

lemma two_dword_fmt: "two_dword code n f i = Some j \<Longrightarrow> fmt j = f"
  by (simp add: two_dword_parts)

lemma wide_word:
  fixes w :: dword
  assumes "w AND 0x80000000 \<noteq> 0" and "w AND 0xC0000000 \<noteq> 0x80000000"
  shows "w AND 0xC0000000 = 0xC0000000"
proof -
  have m: "(0x80000000 :: dword) = push_bit 31 1" "(0x40000000 :: dword) = push_bit 30 1" by simp_all
  have s: "w AND push_bit k 1 = (if bit w k then push_bit k 1 else 0)" for k
    by (rule bit_word_eqI) (auto simp: bit_simps)
  have split: "w AND 0xC0000000 = (w AND 0x80000000) OR (w AND 0x40000000)"
    by (simp add: and.left_commute flip: bit.conj_disj_distrib)
  show ?thesis using assms unfolding split m s by (auto split: if_splits)
qed

lemma frame_wide_constant:
  assumes "1 \<le> n" and "n \<le> length code" and "frame_wide code n (code ! 0) i = Some j" and "unread i"
    and "code ! 0 AND 0xC0000000 = 0xC0000000"
  shows "constant_rule code n j"
proof (cases "fmt j \<in> {DS, FLAT, MUBUF, MTBUF, MIMG, SMEM, EXP, VINTRP, UnknownFormat}")
  case True
  then show ?thesis by (auto simp: constant_rule_def alu_formats_def Let_def)
next
  case False
  have "\<exists>f \<in> {VOP3, VOP3P}. frame_three_source code n f i = Some j"
    using assms(3) False unfolding frame_wide_def Let_def
    by (auto dest!: two_dword_fmt frame_mimg_fmt split: if_splits)
  then obtain f where f: "f = VOP3 \<or> f = VOP3P" and j: "frame_three_source code n f i = Some j" by blast
  from three_source_constant[OF assms(1,2) j assms(4)] f assms(5) show ?thesis
    by (auto simp: constant_rule_def Let_def)
qed

lemma frame_one_constant:
  assumes "1 \<le> n" and "n \<le> length code" and "frame_one code n = Some j"
  shows "constant_rule code n j"
proof -
  have "unread (new_inst\<lparr>words := (words new_inst)[0 := code ! 0]\<rparr>)"
    by (simp add: unread_def new_inst_words) (simp add: new_inst_def)
  then show ?thesis
    using assms frame_vector_constant frame_scalar_constant frame_wide_constant wide_word
    unfolding frame_one_def Let_def by (auto split: if_splits)
qed

lemma vop3_literal:
  "literal (vop3_selectors i) = literal i" "literal (vop3_two_sources i) = literal i"
  "literal (vop3_scalar_dst i) = literal i" "literal (vop3_compare i) = literal i"
  "literal (vop3a_fields i) = literal i"
  by (simp_all add: vop3_selectors_def vop3_two_sources_def vop3_scalar_dst_def vop3_compare_def
      vop3a_fields_def Let_def)

lemma literal_kept:
  assumes "fmt i \<in> alu_formats"
  shows "literal (decode_operands i) = literal i"
proof -
  have "literal (decode_vop3 i) = literal i"
    by (simp add: decode_vop3_def vop3_literal)
  moreover have "literal (decode_sopc i) = literal i" by (simp add: decode_sopc_def Let_def)
  ultimately show ?thesis
    using assms alu_formats_kept[of i] by (auto simp: alu_kept_def alu_formats_def decode_operands_def)
qed

lemma constant_read_kept:
  assumes "constant_read code n need i" and "fmt i \<in> alu_formats"
  shows "constant_read code n need (decode_operands i)"
  using assms by (simp add: constant_read_def framing_decode literal_kept)

text \<open>The sources of an SDWA packet are those of its control word.\<close>

lemma iflag_bit: "k < 32 \<Longrightarrow> iflag w k \<longleftrightarrow> bit w k"
  by (simp add: iflag_def and_one_eq mod2_eq_if even_drop_bit_iff_not_bit)

definition sdwa_packet_literal :: "dword \<Rightarrow> dword \<Rightarrow> nat \<Rightarrow> bool" where
  "sdwa_packet_literal w sd k \<longleftrightarrow>
     k = 0 \<and> bit sd 23 \<and> sd AND 0xFF = 0xFF \<or> k = 1 \<and> bit sd 31 \<and> ifld w 9 0xFF = 0xFF"

lemma sdwa_sources:
  assumes "no_sources i" and "words i ! 0 AND 0x1FF = 0xF9" and "fmt i \<in> {VOP1, VOP2, VOPC}"
  shows "\<exists>s. (s = no_operand \<or> s = sdwa_src1 (words i ! 1) (words i ! 0))
     \<and> src (decode_operands i) = [sdwa_src0 (words i ! 1), s, no_operand, no_operand]"
proof -
  have s: "src (vop1_sdwa sd j) = src j" "src (vop2_sdwa sd j) = src j" "src (vopc_sdwa sd j) = src j" for sd j
    using sdwa_operands_kept[of sd j] by (simp_all add: operand_fields_def)
  show ?thesis
    using assms
    by (auto simp: decode_operands_def decode_vop1_def decode_vop2_def decode_vopc_def Let_def s no_sources_def
        vop1_sdwa_operands_def vop2_sdwa_operands_def vopc_sdwa_operands_def replicate_4)
qed

lemma sdwa_literal_source:
  assumes "no_sources i" and "words i ! 0 AND 0x1FF = 0xF9" and "fmt i \<in> {VOP1, VOP2, VOPC}"
    and "k < 4" and "opkind (src (decode_operands i) ! k) = Literal"
  shows "sdwa_packet_literal (words i ! 0) (words i ! 1) k"
proof -
  have "opkind (sdwa_src0 sd) = Literal \<longleftrightarrow> bit sd 23 \<and> sd AND 0xFF = 0xFF"
    "opkind (sdwa_src1 sd w) = Literal \<longleftrightarrow> bit sd 31 \<and> ifld w 9 0xFF = 0xFF" for sd w
    by (simp_all add: sdwa_src0_def sdwa_src1_def iflag_bit decode_src_field_Literal)
  moreover have "k = 0 \<or> k = 1 \<or> k = 2 \<or> k = 3" using assms(4) by auto
  ultimately show ?thesis
    using sdwa_sources[OF assms(1-3)] assms(5) by (auto simp: sdwa_packet_literal_def)
qed

lemma literal_sources_rule:
  assumes "constant_rule code n i" and "no_sources i" and "words i ! 0 = code ! 0" and "\<not> has_sdwa i"
    and "fmt i \<in> alu_formats" and "literal_sources (decode_operands i)"
  shows "constant_read code n (if code ! 0 AND 0xC0000000 = 0xC0000000 then 3 else 2) i"
  using assms(1,4-6) literal_sources_scalar[OF assms(2)] literal_sources_vector[OF assms(2)]
    literal_sources_three[OF assms(2)]
  by (cases "fmt i") (simp_all add: constant_rule_def decode_operands_def alu_formats_def assms(3) Let_def)

lemma constant_rule_clamp: "constant_rule code n i \<Longrightarrow> constant_rule code n (clamp_len n i)"
proof -
  have "fmt (clamp_len n i) = fmt i" "has_sdwa (clamp_len n i) = has_sdwa i"
    "has_literal (clamp_len n i) = has_literal i" "words (clamp_len n i) = words i"
    by (simp_all add: clamp_len_def)
  moreover have "constant_read code n need (clamp_len n i)" if "constant_read code n need i" for need
    using that by (simp add: constant_read_def clamp_len_def split: if_splits)
  ultimately show "constant_rule code n i \<Longrightarrow> constant_rule code n (clamp_len n i)"
    unfolding constant_rule_def Let_def by simp
qed

lemma alu_formats_back: "fmt (decode_operands i) \<in> alu_formats \<Longrightarrow> fmt i \<in> alu_formats"
  using fmt_decode_operands[of i] by (cases "fmt i = VOP3") (auto simp: alu_formats_def)

lemma sdwa_constant_rule:
  assumes "constant_rule code n i" and "fmt i \<in> alu_formats" and "has_sdwa i"
  shows "fmt i \<in> {VOP1, VOP2, VOPC}" and "code ! 0 AND 0x1FF = 0xF9" and "\<not> has_literal i"
  using assms by (auto simp: constant_rule_def alu_formats_def Let_def)

text \<open>
  C35: When operand \<open>k\<close> of a decoded scalar, vector, compare, three-source or packed instruction
  names the trailing constant, then in every encoding but SDWA the decoder has read that constant:
  it is the second word of the instruction, or the third in the encodings of two words, and the
  instruction ends with it; only when the buffer ends before that word is there no constant, and
  then the instruction is clamped to the end of the buffer. An SDWA packet, whose second word is
  the control word, never has a constant; one of its operands names it only when the control word
  selects a scalar there and the register field holds the code of the constant.
\<close>

theorem literal_operand_has_its_constant:
  assumes "1 \<le> n" and "n \<le> length code" and "rdna2_decode_one code n = Some i"
    and "fmt i \<in> alu_formats" and "k < 4" and "opkind (src i ! k) = Literal"
  shows "if has_sdwa i
     then \<not> has_literal i \<and> 2 \<le> n
       \<and> (k = 0 \<and> bit (code ! 1) 23 \<and> code ! 1 AND 0xFF = 0xFF
          \<or> k = 1 \<and> bit (code ! 1) 31 \<and> ifld (code ! 0) 9 0xFF = 0xFF)
     else let need = (if code ! 0 AND 0xC0000000 = 0xC0000000 then 3 else 2)
       in if need \<le> n then has_literal i \<and> literal i = code ! (need - 1) \<and> len_dwords i = need
          else \<not> has_literal i \<and> len_dwords i = n"
proof -
  obtain j where j: "frame_one code n = Some j" and fr: "framed code n (clamp_len n j)"
    and r: "rdna2_decode_one code n = Some (decode_operands (clamp_len n j))"
    using rdna2_decode_one_Some[OF assms(1,2)] by blast
  define c where "c = clamp_len n j"
  have i: "i = decode_operands c" using r assms(3) by (simp add: c_def)
  have f: "fmt c \<in> alu_formats" using assms(4) by (simp add: i alu_formats_back)
  have w0: "words c ! 0 = code ! 0" and ns: "no_sources c"
    using fr by (simp_all add: c_def framed_def)
  have "words c ! 1 = 0 \<or> (1 < len_dwords c \<and> 1 < n \<and> words c ! 1 = code ! 1)"
    using fr by (simp add: c_def framed_def all_1_to_4)
  then have w1: "words c ! 1 = 0 \<or> 2 \<le> n \<and> words c ! 1 = code ! 1" by auto
  have rule: "constant_rule code n c"
    using frame_one_constant[OF assms(1,2) j] by (simp add: c_def constant_rule_clamp)
  show ?thesis
  proof (cases "has_sdwa c")
    case True
    note sd = sdwa_constant_rule[OF rule f True]
    have "sdwa_packet_literal (code ! 0) (words c ! 1) k"
      using sdwa_literal_source[OF ns _ sd(1) assms(5)] sd(2) assms(6) by (simp add: i w0)
    with w1 sd(3) True show ?thesis
      by (auto simp: i framing_decode sdwa_packet_literal_def)
  next
    case False
    have "literal_sources (decode_operands c)"
      using assms(5,6) by (auto simp: literal_sources_def i)
    from constant_read_kept[OF literal_sources_rule[OF rule ns w0 False f this] f] False show ?thesis
      unfolding i constant_read_def Let_def by (simp only: framing_decode(6) if_False)
  qed
qed

lemma literal_examples:
  "map_option (\<lambda>i. (fmt i, has_sdwa i, opkind (src i ! 0))) (rdna2_decode_one [0x7E0002FF, 0x3F800000, 0xBF810000] 3)
     = Some (VOP1, False, Literal)"
  "map_option (\<lambda>i. (fmt i, has_sdwa i, opkind (src i ! 0))) (rdna2_decode_one [0x7E0002F9, 0x008606FF] 2)
     = Some (VOP1, True, Literal)"
  by code_simp+

theorem literal_operand_has_its_constant_witness:
  "(\<exists>i. rdna2_decode_one [0x7E0002FF, 0x3F800000, 0xBF810000] 3 = Some i
      \<and> has_literal i \<and> literal i = 0x3F800000 \<and> len_dwords i = 2)
   \<and> (\<exists>i. rdna2_decode_one [0x7E0002F9, 0x008606FF] 2 = Some i \<and> opkind (src i ! 0) = Literal \<and> \<not> has_literal i)"
proof
  obtain i where i: "rdna2_decode_one [0x7E0002FF, 0x3F800000, 0xBF810000] 3 = Some i" "fmt i = VOP1"
    "\<not> has_sdwa i" "opkind (src i ! 0) = Literal"
    using literal_examples(1) by auto
  have s: "(1 :: nat) \<le> 3" "3 \<le> length [0x7E0002FF, 0x3F800000, 0xBF810000 :: dword]"
    "fmt i \<in> alu_formats" "(0 :: nat) < 4"
    by (simp_all add: i alu_formats_def)
  from literal_operand_has_its_constant[OF s(1,2) i(1) s(3,4) i(4)] i
  show "\<exists>i. rdna2_decode_one [0x7E0002FF, 0x3F800000, 0xBF810000] 3 = Some i
      \<and> has_literal i \<and> literal i = 0x3F800000 \<and> len_dwords i = 2" by (simp add: Let_def)
next
  obtain i where i: "rdna2_decode_one [0x7E0002F9, 0x008606FF] 2 = Some i" "fmt i = VOP1"
    "has_sdwa i" "opkind (src i ! 0) = Literal"
    using literal_examples(2) by auto
  have s: "(1 :: nat) \<le> 2" "2 \<le> length [0x7E0002F9, 0x008606FF :: dword]" "fmt i \<in> alu_formats" "(0 :: nat) < 4"
    by (simp_all add: i alu_formats_def)
  from literal_operand_has_its_constant[OF s(1,2) i(1) s(3,4) i(4)] i
  show "\<exists>i. rdna2_decode_one [0x7E0002F9, 0x008606FF] 2 = Some i \<and> opkind (src i ! 0) = Literal \<and> \<not> has_literal i"
    by simp
qed

end
