(* ===== verification/Rdna2Modifiers.thy ===== *)
theory Rdna2Modifiers
  imports Rdna2Literals
begin

text \<open>
  Control words of vector instructions. An instruction with an SDWA or cross-lane control word
  starts refused (\<open>has_modifier\<close>); here it is shown that whenever the decoder admits one, the fields
  it records say what the control word says: the sources with their sign and magnitude modifiers,
  the destination, the output modifiers, the selects and the fill rule.
\<close>

subsection \<open>Bits of the control word\<close>

lemma ifld_0_bit: "ifld w k m = 0 \<Longrightarrow> bit m b \<Longrightarrow> \<not> bit w (k + b)"
proof -
  assume z: "ifld w k m = 0" and m: "bit m b"
  have "\<not> bit (ifld w k m) b" by (simp add: z)
  with m show ?thesis by (simp add: ifld_def bit_and_iff bit_drop_bit_eq)
qed

lemma sdwa_clear_bits:
  "ifld sd 19 0x9 = 0 \<Longrightarrow> \<not> iflag sd 19" "ifld sd 19 0x9 = 0 \<Longrightarrow> \<not> iflag sd 22"
  "ifld sd 27 0x9 = 0 \<Longrightarrow> \<not> iflag sd 27" "ifld sd 27 0x9 = 0 \<Longrightarrow> \<not> iflag sd 30"
  "ifld sd 19 0xF = 0 \<Longrightarrow> \<not> iflag sd 19" "ifld sd 19 0xF = 0 \<Longrightarrow> \<not> iflag sd 22"
  "ifld sd 27 0xF = 0 \<Longrightarrow> \<not> iflag sd 27" "ifld sd 27 0xF = 0 \<Longrightarrow> \<not> iflag sd 30"
  "ifld sd 20 0x7 = 0 \<Longrightarrow> \<not> iflag sd 22" "ifld sd 28 0x7 = 0 \<Longrightarrow> \<not> iflag sd 30"
  using ifld_0_bit[of sd 19 "0x9" 0] ifld_0_bit[of sd 19 "0x9" 3] ifld_0_bit[of sd 27 "0x9" 0]
    ifld_0_bit[of sd 27 "0x9" 3] ifld_0_bit[of sd 19 "0xF" 0] ifld_0_bit[of sd 19 "0xF" 3]
    ifld_0_bit[of sd 27 "0xF" 0] ifld_0_bit[of sd 27 "0xF" 3] ifld_0_bit[of sd 20 "0x7" 2] ifld_0_bit[of sd 28 "0x7" 2]
  by (simp_all add: iflag_bit)

subsection \<open>What an admitted SDWA packet records\<close>

definition sdwa_default :: "rdna2_inst \<Rightarrow> bool" where
  "sdwa_default i \<longleftrightarrow>
     has_modifier i \<and> sdwa_dst_sel i = 6 \<and> sdwa_dst_unused i = 0 \<and> sdwa_src0_sel i = 6 \<and> sdwa_src1_sel i = 6
     \<and> \<not> sdwa_src0_sext i \<and> \<not> sdwa_src1_sext i"

definition dst_recorded :: "dword \<Rightarrow> rdna2_inst \<Rightarrow> bool" where
  "dst_recorded sd i \<longleftrightarrow>
     sdwa_dst_sel i = ucast (sdwa_dsel sd)
     \<and> (sdwa_dsel sd \<noteq> 6 \<longrightarrow> (sdwa_dun sd = 0 \<or> sdwa_dun sd = 2) \<and> sdwa_dst_unused i = ucast (sdwa_dun sd))"

definition src0_recorded :: "dword \<Rightarrow> rdna2_inst \<Rightarrow> bool" where
  "src0_recorded sd i \<longleftrightarrow>
     sdwa_src0_sel i = ucast (sdwa_s0sel sd) \<and> \<not> iflag sd 22 \<and> (sdwa_src0_sext i \<longrightarrow> iflag sd 19)
     \<and> (iflag sd 19 \<longrightarrow> sdwa_s0sel sd \<le> 5 \<and> (sdwa_src0_sext i \<or> (fmt i = VOP1 \<and> opcode i = 0x05)))"

definition src1_recorded :: "dword \<Rightarrow> rdna2_inst \<Rightarrow> bool" where
  "src1_recorded sd i \<longleftrightarrow>
     sdwa_src1_sel i = ucast (sdwa_s1sel sd) \<and> \<not> iflag sd 30 \<and> (sdwa_src1_sext i \<longleftrightarrow> iflag sd 27)
     \<and> (iflag sd 27 \<longrightarrow> sdwa_s1sel sd \<le> 5)"

lemmas recorded_defs = dst_recorded_def src0_recorded_def sdwa_plain0_def sdwa_default_def

definition vop1_good :: "dword \<Rightarrow> rdna2_inst \<Rightarrow> bool" where
  "vop1_good sd i \<longleftrightarrow> has_modifier i \<or> (dst_recorded sd i \<and> src0_recorded sd i)"

lemma vop1_arms_good:
  assumes "sdwa_default i"
  shows "vop1_good sd (vop1_sdwa_mov sd i)" "vop1_good sd (vop1_sdwa_bfrev sd i)"
    "vop1_good sd (vop1_sdwa_cvt_f32_f16 sd i)" "vop1_good sd (vop1_sdwa_cvt_f16_f32 sd i)"
    "vop1_good sd (vop1_sdwa_cvt_int_f32 sd i)" "vop1_good sd (vop1_sdwa_half sd i)"
  using assms
  by (simp_all add: vop1_good_def vop1_arms recorded_defs sdwa_clear_bits)

lemma vop1_cvt_f32_int_good:
  assumes "sdwa_default i" and "fmt i = VOP1" and "opcode i = ifld (words i ! 0) 9 0xFF"
  shows "vop1_good sd (vop1_sdwa_cvt_f32_int sd i)"
  using assms by (simp add: vop1_good_def vop1_sdwa_cvt_f32_int_def recorded_defs sdwa_clear_bits Let_def)

lemma vop1_good_same: "sdwa_default i \<Longrightarrow> vop1_good sd i"
  by (simp add: vop1_good_def sdwa_default_def)

lemma vop1_sdwa_good:
  assumes "sdwa_default i" and "fmt i = VOP1" and "opcode i = ifld (words i ! 0) 9 0xFF"
  shows "vop1_good sd (vop1_sdwa sd i)"
proof -
  have "vop1_good sd (i\<lparr>has_modifier := False\<rparr>)"
    if "sdwa_dsel sd = 6" "sdwa_s0sel sd = 6" "ifld sd 19 0x9 = 0"
    using that assms(1) by (simp add: vop1_good_def recorded_defs sdwa_clear_bits)
  then show ?thesis
    unfolding vop1_sdwa_def Let_def
    using vop1_arms_good[OF assms(1)] vop1_cvt_f32_int_good[OF assms] vop1_good_same[OF assms(1)] by simp
qed

definition vop2_good :: "dword \<Rightarrow> rdna2_inst \<Rightarrow> bool" where
  "vop2_good sd i \<longleftrightarrow> has_modifier i \<or> (dst_recorded sd i \<and> src0_recorded sd i \<and> src1_recorded sd i)"

lemma select_below_6: "x \<le> 6 \<Longrightarrow> x \<noteq> 6 \<Longrightarrow> x \<le> 5" for x :: dword
  by unat_arith

lemma vop2_arms_good:
  assumes "sdwa_default i"
  shows "vop2_good sd (vop2_sdwa_integer sd i)" "vop2_good sd (vop2_sdwa_f16 sd i)"
    "vop2_good sd (vop2_sdwa_cndmask sd i)"
  using assms
  by (auto simp: vop2_good_def vop2_arms recorded_defs src1_recorded_def sdwa_clear_bits Let_def select_below_6)

lemma vop2_lshlrev_good: "vop2_good sd i \<Longrightarrow> \<not> has_modifier i \<Longrightarrow> vop2_good sd (vop2_sdwa_lshlrev sd i)"
  by (auto simp: vop2_good_def vop2_sdwa_lshlrev_def recorded_defs src1_recorded_def)

lemma vop2_lshlrev_good':
  "sdwa_default i \<Longrightarrow> vop2_good sd (vop2_sdwa_lshlrev sd i)"
  by (auto simp: vop2_good_def vop2_sdwa_lshlrev_def recorded_defs src1_recorded_def sdwa_clear_bits)

lemma vop2_integer_default: "sdwa_default i \<Longrightarrow> has_modifier (vop2_sdwa_integer sd i) \<Longrightarrow> vop2_sdwa_integer sd i = i"
  unfolding vop2_sdwa_integer_def Let_def by (auto split: if_splits)

lemma vop2_sdwa_good:
  assumes d: "sdwa_default i"
  shows "vop2_good sd (vop2_sdwa sd i)"
proof -
  define i1 where "i1 = (if sdwa_dsel sd = 6 \<and> sdwa_s0sel sd = 6 \<and> sdwa_s1sel sd = 6
      \<and> ifld sd 19 0x9 = 0 \<and> ifld sd 27 0x9 = 0 then i\<lparr>has_modifier := False\<rparr> else vop2_sdwa_integer sd i)"
  have good: "vop2_good sd i1"
    using d vop2_arms_good(1)[OF d]
    by (simp add: i1_def vop2_good_def recorded_defs src1_recorded_def sdwa_clear_bits)
  have same: "i1 = i" if "has_modifier i1"
    using that vop2_integer_default[OF d] by (auto simp: i1_def split: if_splits)
  have r: "vop2_sdwa sd i =
      (let opc = ifld (words i ! 0) 25 0x3F
       in if has_modifier i1 \<and> (opc = 0x32 \<or> opc = 0x33 \<or> opc = 0x35 \<or> opc = 0x39 \<or> opc = 0x3A)
          then vop2_sdwa_f16 sd i1
          else if has_modifier i1 \<and> opc = 0x01 then vop2_sdwa_cndmask sd i1
          else if opc = 0x1A then vop2_sdwa_lshlrev sd i1
          else i1)"
    unfolding vop2_sdwa_def i1_def Let_def ..
  show ?thesis
  proof (cases "has_modifier i1")
    case True
    then have "i1 = i" by (rule same)
    with d good r show ?thesis
      by (simp add: Let_def vop2_arms_good vop2_lshlrev_good')
  next
    case False
    with good r show ?thesis by (simp add: Let_def vop2_lshlrev_good)
  qed
qed

definition vopc_good :: "dword \<Rightarrow> rdna2_inst \<Rightarrow> bool" where
  "vopc_good sd i \<longleftrightarrow> has_modifier i \<or> (src0_recorded sd i \<and> src1_recorded sd i)"

lemma vopc_record_good:
  assumes "sdwa_default i" and "\<not> iflag sd 19" and "\<not> iflag sd 22" and "\<not> iflag sd 27" and "\<not> iflag sd 30"
  shows "vopc_good sd (i\<lparr>sdwa_src0_sel := ucast (sdwa_s0sel sd), sdwa_src1_sel := ucast (sdwa_s1sel sd),
                         has_modifier := False\<rparr>)"
    and "sdwa_s0sel sd = 6 \<Longrightarrow> sdwa_s1sel sd = 6 \<Longrightarrow> vopc_good sd (i\<lparr>has_modifier := False\<rparr>)"
  using assms by (simp_all add: vopc_good_def recorded_defs src1_recorded_def)

lemma vopc_sdwa_good:
  assumes d: "sdwa_default i"
  shows "vopc_good sd (vopc_sdwa sd i)"
proof -
  have "vopc_good sd i" using d by (simp add: vopc_good_def sdwa_default_def)
  then show ?thesis
    unfolding vopc_sdwa_def Let_def
    by (simp add: vopc_record_good[OF d] sdwa_clear_bits)
qed

subsection \<open>The operands of an SDWA packet\<close>

text \<open>What the arms that admit a packet leave alone.\<close>

definition operand_view ::
    "rdna2_inst \<Rightarrow> dword \<times> operand \<times> operand list \<times> nat \<times> bool list \<times> bool list \<times> bool \<times> byte" where
  "operand_view i = (opcode i, dst i, src i, n_src i, src_neg i, src_abs i, clamp i, omod i)"

lemma sdwa_arms_view:
  "operand_view (vop1_sdwa_mov sd i) = operand_view i" "operand_view (vop1_sdwa_bfrev sd i) = operand_view i"
  "operand_view (vop1_sdwa_cvt_f32_f16 sd i) = operand_view i" "operand_view (vop1_sdwa_cvt_f16_f32 sd i) = operand_view i"
  "operand_view (vop1_sdwa_cvt_int_f32 sd i) = operand_view i" "operand_view (vop1_sdwa_cvt_f32_int sd i) = operand_view i"
  "operand_view (vop1_sdwa_half sd i) = operand_view i" "operand_view (vop2_sdwa_integer sd i) = operand_view i"
  "operand_view (vop2_sdwa_f16 sd i) = operand_view i" "operand_view (vop2_sdwa_cndmask sd i) = operand_view i"
  "operand_view (vop2_sdwa_lshlrev sd i) = operand_view i"
  "operand_view (i\<lparr>has_modifier := b\<rparr>) = operand_view i"
  by (simp_all add: operand_view_def vop1_arms vop2_arms Let_def)

lemma sdwa_view:
  "operand_view (vop1_sdwa sd i) = operand_view i" "operand_view (vop2_sdwa sd i) = operand_view i"
  "operand_view (vopc_sdwa sd i) = operand_view i"
  unfolding vop1_sdwa_def vop2_sdwa_def Let_def
    apply (simp add: sdwa_arms_view)
   apply (simp add: sdwa_arms_view)
  by (simp add: operand_view_def vopc_sdwa_def Let_def)

text \<open>
  The fields of the first word and of the control word, by their position: the sources with their
  scalar bits, the negation and magnitude bits, and the destination, which a compare takes from the
  control word when its explicit-destination bit is set and which is VCC otherwise.
\<close>

definition sdwa_source :: "bool \<Rightarrow> dword \<Rightarrow> operand" where
  "sdwa_source scalar f = (if scalar then decode_src_field f else opnd VGPR (uint f))"

definition sdwa_operands_recorded :: "dword \<Rightarrow> dword \<Rightarrow> rdna2_inst \<Rightarrow> bool" where
  "sdwa_operands_recorded w sd i \<longleftrightarrow>
     opcode i = (if fmt i = VOP1 then ifld w 9 0xFF else if fmt i = VOP2 then ifld w 25 0x3F else ifld w 17 0xFF)
     \<and> dst i = (if fmt i \<noteq> VOPC then opnd VGPR (uint (ifld w 17 0xFF))
                else if bit sd 15 then opnd SGPR (uint (ifld sd 8 0x7F)) else opnd Special 106)
     \<and> n_src i = (if fmt i = VOP1 then 1 else 2)
     \<and> src i = [sdwa_source (bit sd 23) (sd AND 0xFF),
                if fmt i = VOP1 then no_operand else sdwa_source (bit sd 31) (ifld w 9 0xFF),
                no_operand, no_operand]
     \<and> src_neg i = [bit sd 20, fmt i \<noteq> VOP1 \<and> bit sd 28, False, False]
     \<and> src_abs i = [bit sd 21, fmt i \<noteq> VOP1 \<and> bit sd 29, False, False]
     \<and> (fmt i \<noteq> VOPC \<longrightarrow> clamp i = bit sd 13 \<and> omod i = ucast (ifld sd 14 3))"

lemma register_fields:
  "vgpr (drop_bit 17 w) = opnd VGPR (uint (ifld w 17 0xFF))"
  "sdwa_src0 sd = sdwa_source (bit sd 23) (sd AND 0xFF)"
  "sdwa_src1 sd w = sdwa_source (bit sd 31) (ifld w 9 0xFF)"
  "sgpr (ifld sd 8 0x7F) = opnd SGPR (uint (ifld sd 8 0x7F))"
  by (simp_all add: vgpr_def sgpr_def ifld_def sdwa_src0_def sdwa_src1_def sdwa_source_def iflag_bit and.assoc)

lemma decode_sdwa_operands:
  assumes "no_sources i" and "src_neg i = replicate 4 False" and "src_abs i = replicate 4 False"
    and "words i ! 0 AND 0x1FF = 0xF9" and "fmt i \<in> {VOP1, VOP2, VOPC}"
  shows "sdwa_operands_recorded (words i ! 0) (words i ! 1) (decode_operands i)"
proof -
  have view: "opcode (f sd j) = opcode j" "dst (f sd j) = dst j" "src (f sd j) = src j" "n_src (f sd j) = n_src j"
    "src_neg (f sd j) = src_neg j" "src_abs (f sd j) = src_abs j" "clamp (f sd j) = clamp j" "omod (f sd j) = omod j"
    if "f = vop1_sdwa \<or> f = vop2_sdwa \<or> f = vopc_sdwa" for f sd j
    using that sdwa_view[of sd j] by (auto simp: operand_view_def)
  note views = view[of vop1_sdwa, simplified] view[of vop2_sdwa, simplified] view[of vopc_sdwa, simplified]
  consider "fmt i = VOP1" | "fmt i = VOP2" | "fmt i = VOPC" using assms(5) by auto
  then show ?thesis
  proof cases
    case 1
    then have "decode_operands i = decode_vop1 i" "fmt (decode_vop1 i) = VOP1"
      by (simp_all add: decode_operands_def fmt_kept)
    then show ?thesis using assms(1-4)
      by (simp add: sdwa_operands_recorded_def)
        (simp add: decode_vop1_def views vop1_sdwa_operands_def no_sources_def replicate_4 Let_def register_fields iflag_bit)
  next
    case 2
    then have "decode_operands i = decode_vop2 i" "fmt (decode_vop2 i) = VOP2"
      by (simp_all add: decode_operands_def fmt_kept)
    then show ?thesis using assms(1-4)
      by (simp add: sdwa_operands_recorded_def)
        (simp add: decode_vop2_def views vop2_sdwa_operands_def no_sources_def replicate_4 Let_def register_fields iflag_bit)
  next
    case 3
    then have "decode_operands i = decode_vopc i" "fmt (decode_vopc i) = VOPC"
      by (simp_all add: decode_operands_def fmt_kept)
    then show ?thesis using assms(1-4)
      by (simp add: sdwa_operands_recorded_def)
        (simp add: decode_vopc_def views vopc_sdwa_operands_def no_sources_def replicate_4 Let_def register_fields iflag_bit)
  qed
qed

subsection \<open>From the stream\<close>

lemma clamp_len_same: "len_dwords i \<le> n \<Longrightarrow> clamp_len n i = i"
  by (simp add: clamp_len_def)

lemma dpp_parts_len:
  "len_dwords (dpp_admit vf w d1 i) = len_dwords i" "len_dwords (dpp_record d1 i) = len_dwords i"
  by (simp_all add: dpp_admit_def dpp_record_def Let_def)

lemma vector_modifier_frame:
  assumes n: "2 \<le> n" "n \<le> length code" and v: "code ! 0 AND 0x80000000 = 0"
    and m: "code ! 0 AND 0x1FF = 0xF9 \<or> code ! 0 AND 0x1FF = 0xFA"
  obtains j where "rdna2_decode_one code n =
      Some (decode_operands (if code ! 0 AND 0x1FF = 0xFA \<and> vector_format (code ! 0) \<noteq> VOPC
             then dpp_record (code ! 1) (dpp_admit (vector_format (code ! 0)) (code ! 0) (code ! 1) j) else j))"
    and "fmt j = vector_format (code ! 0)" and "words j ! 0 = code ! 0" and "words j ! 1 = code ! 1"
    and "sdwa_default j" and "\<not> has_dpp j" and "no_sources j" and "len_dwords j = 2"
    and "src_neg j = replicate 4 False" and "src_abs j = replicate 4 False"
    and "has_sdwa j = (code ! 0 AND 0x1FF = 0xF9)"
proof -
  define j where "j = new_inst\<lparr>has_modifier := True, has_sdwa := (code ! 0 AND 0x1FF = 0xF9),
     fmt := vector_format (code ! 0), len_dwords := 2, words := [code ! 0, code ! 1, 0, 0, 0]\<rparr>"
  have "frame_one code n = vector_modifier code n (vector_format (code ! 0)) (code ! 0)
          (new_inst\<lparr>words := (words new_inst)[0 := code ! 0]\<rparr>)"
    using v m by (auto simp: frame_one_def frame_vector_def Let_def)
  also have "\<dots> = Some (if code ! 0 AND 0x1FF = 0xFA \<and> vector_format (code ! 0) \<noteq> VOPC
             then dpp_record (code ! 1) (dpp_admit (vector_format (code ! 0)) (code ! 0) (code ! 1) j) else j)"
    using n by (simp add: vector_modifier_def two_dword_Some new_inst_words Let_def j_def)
  finally have "frame_one code n = Some (if code ! 0 AND 0x1FF = 0xFA \<and> vector_format (code ! 0) \<noteq> VOPC
             then dpp_record (code ! 1) (dpp_admit (vector_format (code ! 0)) (code ! 0) (code ! 1) j) else j)" .
  moreover have "len_dwords j = 2" by (simp add: j_def)
  then have "clamp_len n (dpp_record d1 (dpp_admit vf w d1 j)) = dpp_record d1 (dpp_admit vf w d1 j)"
    "clamp_len n j = j" for vf w d1
    using n by (simp_all add: clamp_len_same dpp_parts_len)
  ultimately have "rdna2_decode_one code n =
      Some (decode_operands (if code ! 0 AND 0x1FF = 0xFA \<and> vector_format (code ! 0) \<noteq> VOPC
             then dpp_record (code ! 1) (dpp_admit (vector_format (code ! 0)) (code ! 0) (code ! 1) j) else j))"
    using n rdna2_decode_one_frame[of n code] by simp
  then show ?thesis
    by (rule that) (simp_all add: j_def sdwa_default_def new_inst_def no_sources_def)
qed

lemma decode_sdwa_parts:
  assumes "sdwa_default i" and "words i ! 0 AND 0x1FF = 0xF9"
  shows "fmt i = VOP1 \<Longrightarrow> vop1_good (words i ! 1) (decode_vop1 i)"
    and "fmt i = VOP2 \<Longrightarrow> vop2_good (words i ! 1) (decode_vop2 i)"
    and "fmt i = VOPC \<Longrightarrow> vopc_good (words i ! 1) (decode_vopc i)"
proof -
  define w where "w = words i ! 0"
  define sd where "sd = words i ! 1"
  show "vop1_good (words i ! 1) (decode_vop1 i)" if "fmt i = VOP1"
  proof -
    define k where "k = vop1_sdwa_operands sd (i\<lparr>opcode := ifld w 9 0xFF, dst := vgpr (drop_bit 17 w)\<rparr>)"
    have "sdwa_default k" "fmt k = VOP1" "opcode k = ifld (words k ! 0) 9 0xFF"
      using assms(1) that by (simp_all add: k_def vop1_sdwa_operands_def sdwa_default_def w_def)
    from vop1_sdwa_good[OF this] show ?thesis
      using assms(2) by (simp add: decode_vop1_def k_def w_def sd_def Let_def)
  qed
  show "vop2_good (words i ! 1) (decode_vop2 i)" if "fmt i = VOP2"
  proof -
    define k where "k = vop2_sdwa_operands sd (i\<lparr>opcode := ifld w 25 0x3F, dst := vgpr (drop_bit 17 w)\<rparr>)"
    have "sdwa_default k" using assms(1) by (simp add: k_def vop2_sdwa_operands_def sdwa_default_def)
    from vop2_sdwa_good[OF this] show ?thesis
      using assms(2) by (simp add: decode_vop2_def k_def w_def sd_def Let_def)
  qed
  show "vopc_good (words i ! 1) (decode_vopc i)" if "fmt i = VOPC"
  proof -
    define k where "k = vopc_sdwa_operands sd (i\<lparr>opcode := ifld w 17 0xFF, dst := opnd Special 106\<rparr>)"
    have "sdwa_default k" using assms(1) by (simp add: k_def vopc_sdwa_operands_def sdwa_default_def)
    from vopc_sdwa_good[OF this] show ?thesis
      using assms(2) by (simp add: decode_vopc_def k_def w_def sd_def Let_def)
  qed
qed

text \<open>
  C36: A vector instruction with an SDWA control word is either refused or recorded in full. The
  operation, the destination, the sources and how many there are, their negation and magnitude bits
  and, but for compares, the clamp and the output multiplier are those of the two words; the
  selects of the sources and, where the format has one, of the destination are those of the control
  word; a part of the destination is written only with a fill rule the recompiler knows; the
  reserved bits are clear; and sign extension is only admitted together with a select of a byte or
  a half, and is recorded, except for the signed integer to float conversion.
\<close>

theorem sdwa_admission_recorded:
  assumes "2 \<le> n" and "n \<le> length code"
    and "code ! 0 AND 0x80000000 = 0" and "code ! 0 AND 0x1FF = 0xF9"
    and "rdna2_decode_one code n = Some i" and "\<not> has_modifier i"
  shows "fmt i = vector_format (code ! 0) \<and> has_sdwa i
     \<and> sdwa_operands_recorded (code ! 0) (code ! 1) i \<and> src0_recorded (code ! 1) i
     \<and> (fmt i \<noteq> VOP1 \<longrightarrow> src1_recorded (code ! 1) i) \<and> (fmt i \<noteq> VOPC \<longrightarrow> dst_recorded (code ! 1) i)"
proof -
  obtain j where j: "rdna2_decode_one code n = Some (decode_operands j)"
    and f: "fmt j = vector_format (code ! 0)" and w: "words j ! 0 = code ! 0" "words j ! 1 = code ! 1"
    and d: "sdwa_default j" and ns: "no_sources j" "src_neg j = replicate 4 False" "src_abs j = replicate 4 False"
    and sd: "has_sdwa j = (code ! 0 AND 0x1FF = 0xF9)"
    by (rule vector_modifier_frame[OF assms(1-3)]) (use assms(4) in auto)
  have i: "i = decode_operands j" using j assms(5) by simp
  note good = decode_sdwa_parts[OF d, unfolded w, OF assms(4)]
  have "fmt j \<noteq> VOP3" using f vector_format_cases[of "code ! 0"] by auto
  then have fi: "fmt i = vector_format (code ! 0)" "has_sdwa i"
    using f sd assms(4) by (simp_all add: i fmt_decode_operands(1) framing_decode)
  have ops: "sdwa_operands_recorded (code ! 0) (code ! 1) i"
    using decode_sdwa_operands[OF ns] w assms(4) f vector_format_cases[of "code ! 0"] by (simp add: i)
  consider "fmt j = VOP1" | "fmt j = VOP2" | "fmt j = VOPC" using f vector_format_cases[of "code ! 0"] by auto
  then show ?thesis
  proof cases
    case 1
    with good(1)[OF 1] assms(6) fi f ops show ?thesis by (simp add: i decode_operands_def vop1_good_def)
  next
    case 2
    with good(2)[OF 2] assms(6) fi f ops show ?thesis by (simp add: i decode_operands_def vop2_good_def)
  next
    case 3
    with good(3)[OF 3] assms(6) fi f ops show ?thesis by (simp add: i decode_operands_def vopc_good_def)
  qed
qed

lemma sdwa_and_example:
  "map_option (\<lambda>i. (fmt i, has_modifier i)) (rdna2_decode_one [0x360400f9, 0x04861486] 2) = Some (VOP2, False)"
  by code_simp

theorem sdwa_admission_recorded_witness:
  "\<exists>i. rdna2_decode_one [0x360400f9, 0x04861486] 2 = Some i \<and> \<not> has_modifier i
     \<and> sdwa_dst_sel i = 4 \<and> sdwa_dst_unused i = 2 \<and> sdwa_src1_sel i = 4
     \<and> src i ! 0 = opnd InlineInt 6 \<and> dst i = opnd VGPR 2"
proof -
  obtain i where i: "rdna2_decode_one [0x360400f9, 0x04861486] 2 = Some i" "fmt i = VOP2" "\<not> has_modifier i"
    using sdwa_and_example by auto
  have s: "(2 :: nat) \<le> 2" "2 \<le> length [0x360400f9, 0x04861486 :: dword]"
    "[0x360400f9, 0x04861486 :: dword] ! 0 AND 0x80000000 = 0" "[0x360400f9, 0x04861486 :: dword] ! 0 AND 0x1FF = 0xF9"
    by simp_all
  have "sdwa_dsel 0x04861486 = 4" "sdwa_dun 0x04861486 = 2" "sdwa_s1sel 0x04861486 = 4" by code_simp+
  moreover have "sdwa_source (bit (0x04861486 :: dword) 23) (0x04861486 AND 0xFF) = opnd InlineInt 6"
    "uint (ifld 0x360400f9 17 0xFF) = 2" by code_simp+
  ultimately show ?thesis using sdwa_admission_recorded[OF s i(1,3)] i
    by (simp add: dst_recorded_def src1_recorded_def sdwa_operands_recorded_def)
qed

subsection \<open>Cross-lane control words\<close>

text \<open>The one partial row mask that is admitted: an integer add of the lane itself on every other row.\<close>

definition dpp_alternate_rows :: "rdna2_format \<Rightarrow> dword \<Rightarrow> dword \<Rightarrow> bool" where
  "dpp_alternate_rows vf w d1 \<longleftrightarrow>
     vf = VOP2 \<and> ifld w 25 0x3F = 0x25 \<and> ifld d1 8 0x1FF = 0xe4 \<and> ifld d1 28 0xF = 0xa \<and> ifld d1 19 1 = 0"

definition dpp_admitted :: "rdna2_format \<Rightarrow> dword \<Rightarrow> dword \<Rightarrow> bool" where
  "dpp_admitted vf w d1 \<longleftrightarrow>
     ifld d1 18 1 = 0 \<and> ifld d1 20 0xF = 0 \<and> ifld d1 24 0xF = 0xF
     \<and> ((ifld d1 28 0xF = 0xF \<and> dpp_modeled_ctrl vf w d1) \<or> dpp_alternate_rows vf w d1)"

lemma if_three: "(if a then x else if b then x else if c then x else y) = (if a \<or> b \<or> c then x else y)"
  by simp

lemma dpp_admit_branches:
  obtains c1 c2 where
    "dpp_admit vf w d1 j =
       (if c1 then j\<lparr>has_modifier := False, has_dpp := True, dpp_ctrl := ucast (ifld d1 8 0x1FF),
                     dpp_bound_ctrl := (ifld d1 19 1 \<noteq> 0)\<rparr>
        else if c2 then j\<lparr>has_modifier := False, has_dpp := True, dpp_ctrl := ucast (ifld d1 8 0x1FF)\<rparr>
        else j)"
    and "c1 \<or> c2 \<longleftrightarrow> dpp_admitted vf w d1"
proof -
  define ctrl where "ctrl = ifld d1 8 0x1FF"
  define c1 where "c1 \<longleftrightarrow> dpp_modeled_ctrl vf w d1 \<and> dpp_full_masks d1"
  define shr where "shr opc bc \<longleftrightarrow> vf = VOP2 \<and> ifld w 25 0x3F = opc \<and> ctrl \<ge> 0x111 \<and> ctrl \<le> 0x11F
     \<and> ifld d1 28 0xF = 0xF \<and> ifld d1 24 0xF = 0xF \<and> ifld d1 20 0xF = 0 \<and> ifld d1 19 1 = bc \<and> ifld d1 18 1 = 0"
    for opc bc
  define c4 where "c4 \<longleftrightarrow> vf = VOP2 \<and> ifld w 25 0x3F = 0x25 \<and> ctrl = 0xe4
                 \<and> ifld d1 28 0xF = 0xa \<and> ifld d1 24 0xF = 0xf \<and> ifld d1 20 0xF = 0
                 \<and> ifld d1 19 1 = 0 \<and> ifld d1 18 1 = 0"
  have shr1: "shr opc bc \<Longrightarrow> c1" for opc bc
    by (simp add: shr_def c1_def dpp_modeled_ctrl_def dpp_full_masks_def ctrl_def Let_def)
  have "c1 \<or> c4 \<longleftrightarrow> dpp_admitted vf w d1"
    by (auto simp: c1_def c4_def dpp_admitted_def dpp_alternate_rows_def dpp_full_masks_def ctrl_def)
  then have c: "c1 \<or> shr 0x1C 0 \<or> shr 0x25 1 \<or> c4 \<longleftrightarrow> dpp_admitted vf w d1"
    using shr1 by blast
  show ?thesis
  proof (rule that)
    show "dpp_admit vf w d1 j =
       (if c1 then j\<lparr>has_modifier := False, has_dpp := True, dpp_ctrl := ucast (ifld d1 8 0x1FF),
                     dpp_bound_ctrl := (ifld d1 19 1 \<noteq> 0)\<rparr>
        else if shr 0x1C 0 \<or> shr 0x25 1 \<or> c4
        then j\<lparr>has_modifier := False, has_dpp := True, dpp_ctrl := ucast (ifld d1 8 0x1FF)\<rparr> else j)"
      unfolding dpp_admit_def Let_def if_three c1_def shr_def c4_def ctrl_def by (rule refl)
    show "(c1 \<or> (shr 0x1C 0 \<or> shr 0x25 1 \<or> c4)) = dpp_admitted vf w d1" using c by blast
  qed
qed

lemma dpp_admit_cases:
  assumes "has_modifier j" and "\<not> has_dpp j"
  shows "has_dpp (dpp_admit vf w d1 j) = dpp_admitted vf w d1"
    and "has_modifier (dpp_admit vf w d1 j) = (\<not> dpp_admitted vf w d1)"
    and "dpp_admitted vf w d1 \<Longrightarrow> dpp_ctrl (dpp_admit vf w d1 j) = ucast (ifld d1 8 0x1FF)"
proof -
  obtain c1 c2 where r: "dpp_admit vf w d1 j =
       (if c1 then j\<lparr>has_modifier := False, has_dpp := True, dpp_ctrl := ucast (ifld d1 8 0x1FF),
                     dpp_bound_ctrl := (ifld d1 19 1 \<noteq> 0)\<rparr>
        else if c2 then j\<lparr>has_modifier := False, has_dpp := True, dpp_ctrl := ucast (ifld d1 8 0x1FF)\<rparr>
        else j)" and c: "c1 \<or> c2 \<longleftrightarrow> dpp_admitted vf w d1"
    by (rule dpp_admit_branches)
  show "has_dpp (dpp_admit vf w d1 j) = dpp_admitted vf w d1"
    "has_modifier (dpp_admit vf w d1 j) = (\<not> dpp_admitted vf w d1)"
    "dpp_admitted vf w d1 \<Longrightarrow> dpp_ctrl (dpp_admit vf w d1 j) = ucast (ifld d1 8 0x1FF)"
    unfolding r using c assms by auto
qed

lemma dpp_parts_sources:
  "no_sources (dpp_admit vf w d1 j) = no_sources j" "no_sources (dpp_record d1 j) = no_sources j"
  "words (dpp_admit vf w d1 j) = words j" "words (dpp_record d1 j) = words j"
  by (simp_all add: no_sources_def dpp_admit_def dpp_record_def Let_def)

lemma dpp_record_fields:
  "has_dpp (dpp_record d1 j) = has_dpp j" "has_modifier (dpp_record d1 j) = has_modifier j"
  "dpp_ctrl (dpp_record d1 j) = dpp_ctrl j"
  "has_dpp j \<Longrightarrow> dpp_bound_ctrl (dpp_record d1 j) = (ifld d1 19 1 \<noteq> 0)"
  "has_dpp j \<Longrightarrow> dpp_bank_mask (dpp_record d1 j) = ucast (ifld d1 24 0xF)"
  "has_dpp j \<Longrightarrow> dpp_row_mask (dpp_record d1 j) = ucast (ifld d1 28 0xF)"
  by (simp_all add: dpp_record_def)

lemma decode_dpp:
  assumes "words k ! 0 AND 0x1FF = 0xFA" and "no_sources k"
  shows "fmt k = VOP1 \<Longrightarrow> has_modifier (decode_operands k) = has_modifier k \<and> dpp_fields (decode_operands k) = dpp_fields k
           \<and> (has_dpp k \<longrightarrow> src (decode_operands k) ! 0 = vgpr (words k ! 1))"
    and "fmt k = VOP2 \<Longrightarrow> has_modifier (decode_operands k) = has_modifier k \<and> dpp_fields (decode_operands k) = dpp_fields k
           \<and> (has_dpp k \<longrightarrow> src (decode_operands k) ! 0 = vgpr (words k ! 1)) \<and> opcode (decode_operands k) = ifld (words k ! 0) 25 0x3F"
    and "fmt k = VOPC \<Longrightarrow> has_modifier (decode_operands k) = has_modifier k \<and> dpp_fields (decode_operands k) = dpp_fields k"
  using assms
  by (simp_all add: decode_operands_def decode_vop1_def decode_vop2_def decode_vopc_def dpp_fields_def no_sources_def Let_def)

text \<open>
  C37: A vector instruction with a cross-lane control word is admitted exactly when its format is
  not a compare, the fetch-inactive bit and the source modifiers are clear, all banks are enabled
  and either all rows are enabled and the control is a modelled permutation, or it is the integer
  add of the lane itself on alternate rows. An admitted one records the control, the bound rule and
  both masks of the word and reads its real source register; every other one stays refused.
\<close>

theorem dpp_admission_exact:
  assumes "2 \<le> n" and "n \<le> length code"
    and "code ! 0 AND 0x80000000 = 0" and "code ! 0 AND 0x1FF = 0xFA"
    and "rdna2_decode_one code n = Some i"
  shows "has_dpp i = (fmt i \<noteq> VOPC \<and> dpp_admitted (fmt i) (code ! 0) (code ! 1))
     \<and> has_modifier i = (\<not> has_dpp i)
     \<and> (has_dpp i \<longrightarrow> dpp_ctrl i = ucast (ifld (code ! 1) 8 0x1FF) \<and> dpp_bound_ctrl i = (ifld (code ! 1) 19 1 \<noteq> 0)
          \<and> dpp_bank_mask i = ucast (ifld (code ! 1) 24 0xF) \<and> dpp_row_mask i = ucast (ifld (code ! 1) 28 0xF)
          \<and> src i ! 0 = vgpr (code ! 1))"
proof -
  let ?vf = "vector_format (code ! 0)"
  obtain j where j: "rdna2_decode_one code n =
      Some (decode_operands (if code ! 0 AND 0x1FF = 0xFA \<and> ?vf \<noteq> VOPC
             then dpp_record (code ! 1) (dpp_admit ?vf (code ! 0) (code ! 1) j) else j))"
    and f: "fmt j = ?vf" and w: "words j ! 0 = code ! 0" "words j ! 1 = code ! 1"
    and d: "sdwa_default j" "\<not> has_dpp j" "no_sources j"
    by (rule vector_modifier_frame[OF assms(1-3)]) (use assms(4) in auto)
  have m: "has_modifier j" using d by (simp add: sdwa_default_def)
  note admit = dpp_admit_cases[OF m d(2), of ?vf "code ! 0" "code ! 1"]
  show ?thesis
  proof (cases "?vf = VOPC")
    case True
    have i: "i = decode_operands j" using j assms(5) True by simp
    have "fmt j = VOPC" using True f by simp
    with decode_dpp(3)[of j] w d m assms(4) framing_decode(7)[of j] show ?thesis
      by (simp add: i fmt_decode_operands(1))
  next
    case False
    define k where "k = dpp_record (code ! 1) (dpp_admit ?vf (code ! 0) (code ! 1) j)"
    have i: "i = decode_operands k" using j assms(4,5) False by (simp add: k_def)
    have k: "fmt k = ?vf" "words k ! 0 = code ! 0" "words k ! 1 = code ! 1" "no_sources k"
      using f w d by (simp_all add: k_def dpp_parts_kept dpp_parts_sources)
    have v: "fmt k = VOP1 \<or> fmt k = VOP2" using k(1) False vector_format_cases[of "code ! 0"] by auto
    then have "fmt k \<noteq> VOP3" by auto
    then have fi: "fmt i = ?vf" by (simp add: i fmt_decode_operands(1) k(1))
    have adm: "has_dpp k = dpp_admitted ?vf (code ! 0) (code ! 1)"
      "has_modifier k = (\<not> dpp_admitted ?vf (code ! 0) (code ! 1))"
      "has_dpp k \<Longrightarrow> dpp_ctrl k = ucast (ifld (code ! 1) 8 0x1FF)"
      using admit by (simp_all add: k_def dpp_record_fields)
    have "has_modifier i = has_modifier k \<and> dpp_fields i = dpp_fields k \<and> (has_dpp k \<longrightarrow> src i ! 0 = vgpr (code ! 1))"
      using v decode_dpp(1,2)[of k] k assms(4) by (auto simp: i)
    moreover have "has_dpp i = has_dpp k" by (simp add: i framing_decode)
    moreover have "has_dpp k \<Longrightarrow> dpp_fields k = (ucast (ifld (code ! 1) 8 0x1FF), ifld (code ! 1) 19 1 \<noteq> 0,
        ucast (ifld (code ! 1) 24 0xF), ucast (ifld (code ! 1) 28 0xF))"
      using adm(3) by (simp add: dpp_fields_def k_def dpp_record_fields)
    ultimately show ?thesis using adm fi False by (simp add: dpp_fields_def)
  qed
qed

lemma dpp_quad_example:
  "map_option (\<lambda>i. fmt i) (rdna2_decode_one [0x7e0802fa, 0xff08a002] 2) = Some VOP1"
  by code_simp

theorem dpp_admission_exact_witness:
  "\<exists>i. rdna2_decode_one [0x7e0802fa, 0xff08a002] 2 = Some i \<and> has_dpp i \<and> \<not> has_modifier i
     \<and> dpp_ctrl i = 0xa0 \<and> dpp_bound_ctrl i \<and> src i ! 0 = vgpr 2"
proof -
  obtain i where i: "rdna2_decode_one [0x7e0802fa, 0xff08a002] 2 = Some i" "fmt i = VOP1"
    using dpp_quad_example by auto
  have s: "(2 :: nat) \<le> 2" "2 \<le> length [0x7e0802fa, 0xff08a002 :: dword]"
    "[0x7e0802fa, 0xff08a002 :: dword] ! 0 AND 0x80000000 = 0" "[0x7e0802fa, 0xff08a002 :: dword] ! 0 AND 0x1FF = 0xFA"
    by simp_all
  have "dpp_admitted VOP1 0x7e0802fa 0xff08a002" by code_simp
  moreover have "vgpr 0xff08a002 = vgpr 2" "ifld 0xff08a002 19 1 = 1" "ifld 0xff08a002 8 0x1FF = 0xa0" by code_simp+
  ultimately show ?thesis
    using dpp_admission_exact[OF s i(1)] i by simp
qed

end
