(* ===== verification/Rdna2Spans.thy ===== *)
theory Rdna2Spans
  imports Rdna2Types
begin

text \<open>
  What analyses ask of a decoded instruction (\<open>gpu/recompiler/rdna2_decode.cpp\<close>): whether it may
  change the execution mask, how many vector registers it writes, reads and occupies, where a
  texel-fault status goes, and the packet shapes that later proofs specialise.
\<close>

definition is_exec_operand :: "operand \<Rightarrow> bool" where
  "is_exec_operand p \<longleftrightarrow> (opkind p = SGPR \<or> opkind p = Special) \<and> (opvalue p = 126 \<or> opvalue p = 127)"

definition rdna2_instruction_may_change_exec :: "rdna2_inst \<Rightarrow> bool" where
  "rdna2_instruction_may_change_exec i \<longleftrightarrow>
     (fmt i = VOPC \<and> vopc_is_cmpx (opcode i))
     \<or> (fmt i = SOP1
        \<and> ((opcode i \<ge> 0x24 \<and> opcode i \<le> 0x2b) \<or> opcode i = 0x37 \<or> opcode i = 0x38
           \<or> sop1_opcode_writes_exec_b32 (opcode i)))
     \<or> is_exec_operand (dst i) \<or> is_exec_operand (sdst i)"

definition mtbuf_vdata_dwords :: "rdna2_inst \<Rightarrow> nat" where
  "mtbuf_vdata_dwords i =
     (if opcode i > 15 then 0
      else let components = unat (opcode i AND 3) + 1
           in if opcode i \<ge> 8 then (components + 1) div 2 else components)"

definition mimg_vdata_dwords :: "rdna2_inst \<Rightarrow> nat" where
  "mimg_vdata_dwords i =
     (let components =
            (if opcode i = 0x47 \<or> opcode i = 0x57 then 4
             else let c = (\<Sum>k\<leftarrow>[0..<4]. unat (ifld (mimg_dmask i) k 1))
                  in if c = 0 then 4 else c)
      in if mimg_d16 i then (components + 1) div 2 else components)"

definition ds_write_count :: "dword \<Rightarrow> nat" where
  "ds_write_count opc =
     (if opc = 0x35 \<or> opc = 0x36 \<or> opc = 0x3d \<or> opc = 0x3e \<or> opc = 0xb1 \<or> opc = 0x20 \<or> opc = 0x2d
         \<or> opc = kDsOpcodeBpermuteB32 then 1
      else if opc = 0x37 \<or> opc = 0x76 then 2
      else if opc = 0xfe then 3
      else if opc = 0x77 \<or> opc = 0xff then 4
      else 0)"

definition mubuf_write_count :: "dword \<Rightarrow> nat" where
  "mubuf_write_count opc =
     (if (opc \<ge> 0x04 \<and> opc \<le> 0x07) \<or> (opc \<ge> 0x1c \<and> opc \<le> 0x1f) then 0
      else if opc \<le> 0x03 then unat opc + 1
      else if opc \<ge> 0x08 \<and> opc \<le> 0x0c then 1
      else if opc = 0x0d then 2
      else if opc = 0x0e then 4
      else if opc = 0x0f then 3
      else if opc = kMubufOpcodeAtomicSwapX2 \<or> opc = kMubufOpcodeAtomicOrX2 then 2
      else 1)"

definition flat_write_count :: "dword \<Rightarrow> nat" where
  "flat_write_count opc =
     (if opc = 0x08 \<or> opc = 0x09 \<or> opc = 0x0a \<or> opc = 0x0b \<or> opc = 0x0c then 1
      else if opc = 0x0d then 2
      else if opc = 0x0e then 4
      else if opc = 0x0f then 3
      else 0)"

definition rdna2_vgpr_write_count :: "rdna2_inst \<Rightarrow> nat" where
  "rdna2_vgpr_write_count i =
     (if opkind (dst i) \<noteq> VGPR then 0
      else case fmt i of
        VOP1 \<Rightarrow> if opcode i = 0x02 then 0 else 1
      | VOP2 \<Rightarrow> 1
      | VOP3P \<Rightarrow> 1
      | VOP3 \<Rightarrow>
          if opcode i = 0x360 then 0
          else if opcode i = 0x16e \<or> opcode i = 0x176 \<or> opcode i = 0x177
                  \<or> opcode i = kVop3OpcodeLshlrevB64 \<or> opcode i = kVop3OpcodeLshrrevB64 then 2 else 1
      | DS \<Rightarrow> ds_write_count (opcode i)
      | MUBUF \<Rightarrow> mubuf_write_count (opcode i)
      | MTBUF \<Rightarrow>
          if opcode i \<le> 3 \<or> (opcode i \<ge> 8 \<and> opcode i \<le> 11) then mtbuf_vdata_dwords i else 0
      | FLAT \<Rightarrow> flat_write_count (opcode i)
      | MIMG \<Rightarrow> if opcode i = 0x08 \<or> opcode i = 0x09 then 0 else mimg_vdata_dwords i
      | VINTRP \<Rightarrow> 1
      | _ \<Rightarrow> 0)"

definition rdna2_vgpr_source_span :: "rdna2_inst \<Rightarrow> nat \<Rightarrow> nat" where
  "rdna2_vgpr_source_span i source_index =
     (if source_index \<ge> n_src i \<or> opkind (src i ! source_index) \<noteq> VGPR then 0
      else if fmt i = VOP3 \<and> opcode i = kVop3OpcodeLshrrevB64 \<and> source_index = 1 then 2
      else if fmt i = DS then 4
      else 1)"

definition rdna2_tfe_status_vgpr :: "rdna2_inst \<Rightarrow> int" where
  "rdna2_tfe_status_vgpr i =
     (if opkind (dst i) \<noteq> VGPR \<or> opvalue (dst i) < 0 then -1
      else if fmt i = MUBUF \<and> mubuf_tfe i \<and> rdna2_vgpr_write_count i \<noteq> 0
      then opvalue (dst i) + int (rdna2_vgpr_write_count i)
      else if fmt i = MIMG \<and> mimg_tfe i then opvalue (dst i) + int (mimg_vdata_dwords i)
      else if fmt i = MTBUF \<and> mtbuf_tfe i \<and> mtbuf_vdata_dwords i \<noteq> 0
      then opvalue (dst i) + int (mtbuf_vdata_dwords i)
      else -1)"

text \<open>The registers a store reads, which the destination field names.\<close>

definition stored_span :: "rdna2_inst \<Rightarrow> nat" where
  "stored_span i =
     (case fmt i of
        MUBUF \<Rightarrow>
          if opcode i \<ge> 0x04 \<and> opcode i \<le> 0x07 then unat (opcode i) - 3
          else if opcode i = 0x1c then 1
          else if opcode i = 0x1d then 2
          else if opcode i = 0x1e then 4
          else if opcode i = 0x1f then 3
          else 0
      | MTBUF \<Rightarrow> mtbuf_vdata_dwords i
      | FLAT \<Rightarrow>
          if opcode i = 0x18 \<or> opcode i = 0x1a \<or> opcode i = 0x1c then 1
          else if opcode i = 0x1d then 2
          else if opcode i = 0x1e then 4
          else if opcode i = 0x1f then 3
          else 0
      | MIMG \<Rightarrow> if opcode i = 0x08 \<or> opcode i = 0x09 then mimg_vdata_dwords i else 0
      | _ \<Rightarrow> 0)"

definition rdna2_vgpr_destination_span :: "rdna2_inst \<Rightarrow> nat" where
  "rdna2_vgpr_destination_span i =
     (let writes = rdna2_vgpr_write_count i
      in if opkind (dst i) \<noteq> VGPR \<or> opvalue (dst i) < 0 then 0
         else let span = (if writes = 0 then stored_span i else writes);
                  status_vgpr = rdna2_tfe_status_vgpr i
              in if status_vgpr \<ge> opvalue (dst i)
                 then max span (nat (status_vgpr - opvalue (dst i) + 1)) else span)"

subsection \<open>Packet shapes\<close>

definition rdna2_optional_null_raw_load_shape :: "rdna2_inst \<Rightarrow> bool" where
  "rdna2_optional_null_raw_load_shape i \<longleftrightarrow>
     (let zero_soffset = (opkind (src i ! 2) = Special \<and> opvalue (src i ! 2) = 125)
                         \<or> (opkind (src i ! 2) = InlineInt \<and> opvalue (src i ! 2) = 0)
      in fmt i = MUBUF \<and> opcode i = kMubufOpcodeLoadDword \<and> len_dwords i = 2 \<and> opkind (dst i) = VGPR
         \<and> opkind (src i ! 0) = VGPR \<and> opkind (src i ! 1) = SGPR \<and> zero_soffset
         \<and> literal i AND 0x3fff = 0x2000 \<and> \<not> mubuf_glc i \<and> \<not> mubuf_dlc i \<and> \<not> mubuf_lds i
         \<and> words i ! 0 AND 0x00020000 = 0 \<and> words i ! 1 AND 0x00e00000 = 0)"

definition zero_mip_register :: "rdna2_inst \<Rightarrow> nat option" where
  "zero_mip_register i =
     (if opcode i = 0x01 \<and> mimg_unorm i \<and> mimg_glc i \<and> (mimg_dmask i = 1 \<or> mimg_dmask i = 0xf)
         \<and> (mimg_dim i = 1 \<or> mimg_dim i = 5) \<and> mimg_nsa i = 0 \<and> len_dwords i = 2
      then Some (nat (opvalue (src i ! 0)) + (if mimg_dim i = 5 then 3 else 2))
      else if opcode i = 0x09 \<and> mimg_unorm i \<and> mimg_glc i \<and> (mimg_dmask i = 1 \<or> mimg_dmask i = 0xf)
              \<and> mimg_dim i = 1 \<and> mimg_nsa i = 1 \<and> len_dwords i = 3 \<and> words i ! 2 AND 0xffff0000 = 0
      then Some (unat (ifld (words i ! 2) 8 0xff))
      else if opcode i = 0x01 \<and> \<not> mimg_unorm i \<and> \<not> mimg_glc i \<and> mimg_dmask i = 0x7 \<and> mimg_dim i = 1
              \<and> mimg_nsa i = 1 \<and> len_dwords i = 3 \<and> words i ! 2 AND 0xffff0000 = 0
      then Some (unat (ifld (words i ! 2) 8 0xff))
      else None)"

text \<open>The register is the out-parameter of a call that returns true.\<close>

definition rdna2_mimg_zero_mip_shape :: "rdna2_inst \<Rightarrow> nat option" where
  "rdna2_mimg_zero_mip_shape i =
     (if fmt i \<noteq> MIMG \<or> mimg_dlc i \<or> mimg_r128 i \<or> mimg_tfe i \<or> mimg_lwe i \<or> mimg_slc i \<or> mimg_a16 i
         \<or> mimg_d16 i \<or> mimg_reserved i \<or> opkind (src i ! 0) \<noteq> VGPR \<or> opvalue (src i ! 0) < 0
      then None
      else case zero_mip_register i of
             None \<Rightarrow> None
           | Some reg \<Rightarrow> if reg \<ge> 256 then None else Some reg)"

definition dynamic_mip_register :: "rdna2_inst \<Rightarrow> nat option" where
  "dynamic_mip_register i =
     (let address_count = (if mimg_dim i = 5 then 4 else 3)
      in if mimg_nsa i = 0
         then (if len_dwords i \<noteq> 2 then None
               else Some (nat (opvalue (src i ! 0)) + (address_count - 1)))
         else if mimg_nsa i \<noteq> 1 \<or> len_dwords i \<noteq> 3 then None
         else let nsa_addresses = address_count - 1
              in if drop_bit (8 * nsa_addresses) (words i ! 2) \<noteq> 0 then None
                 else Some (unat (ifld (words i ! 2) (8 * (nsa_addresses - 1)) 0xff)))"

definition rdna2_mimg_dynamic_mip_shape :: "rdna2_inst \<Rightarrow> nat option" where
  "rdna2_mimg_dynamic_mip_shape i =
     (if fmt i \<noteq> MIMG \<or> opcode i \<noteq> 0x01 then None
      else if mimg_r128 i \<or> mimg_tfe i \<or> mimg_lwe i \<or> mimg_a16 i \<or> mimg_d16 i \<or> mimg_reserved i then None
      else if mimg_dim i \<noteq> 1 \<and> mimg_dim i \<noteq> 5 then None
      else if opkind (src i ! 0) \<noteq> VGPR \<or> opvalue (src i ! 0) < 0 then None
      else case dynamic_mip_register i of
             None \<Rightarrow> None
           | Some reg \<Rightarrow> if reg \<ge> 256 then None else Some reg)"

end
