(* ===== verification/Rdna2Uses.thy ===== *)
theory Rdna2Uses
  imports Rdna2Literals Rdna2Spans
begin

text \<open>
  The questions analyses ask of decoded instructions: the registers of a destination field, the
  register of a mip operand, and the bytes of a pointer table a shader reads.
\<close>

subsection \<open>Destination fields\<close>

lemma unat_and_le: "unat (n AND m) \<le> unat m" for n m :: dword
  using word_and_le1[of n m] by (simp add: word_le_nat_alt)

lemma unat_ifld_le: "unat (ifld w k m) \<le> unat m"
  unfolding ifld_def by (rule unat_and_le)

lemma mtbuf_vdata_le: "mtbuf_vdata_dwords i \<le> 4"
  using unat_and_le[of "opcode i" 3] by (auto simp: mtbuf_vdata_dwords_def Let_def)

lemma mimg_vdata_bounds: "1 \<le> mimg_vdata_dwords i \<and> mimg_vdata_dwords i \<le> 4"
proof -
  define c where "c = (\<Sum>k\<leftarrow>[0..<4]. unat (ifld (mimg_dmask i) k 1))"
  have "[0..<4] = [0, 1, 2, 3 :: nat]" by (simp add: upt_rec numeral_eq_Suc)
  then have "c \<le> 4"
    using unat_ifld_le[of "mimg_dmask i" 0 1] unat_ifld_le[of "mimg_dmask i" 1 1]
      unat_ifld_le[of "mimg_dmask i" 2 1] unat_ifld_le[of "mimg_dmask i" 3 1]
    by (simp add: c_def)
  then show ?thesis by (auto simp: mimg_vdata_dwords_def c_def[symmetric] Let_def)
qed

lemma mubuf_write_le: "mubuf_write_count opc \<le> 4"
  by (simp add: mubuf_write_count_def word_le_nat_alt)

lemma write_count_le: "rdna2_vgpr_write_count i \<le> 4"
  using mubuf_write_le[of "opcode i"] mtbuf_vdata_le[of i] mimg_vdata_bounds[of i]
  by (cases "fmt i") (simp_all add: rdna2_vgpr_write_count_def ds_write_count_def flat_write_count_def)

lemma stored_span_le: "stored_span i \<le> 4"
  using mtbuf_vdata_le[of i] mimg_vdata_bounds[of i]
  by (cases "fmt i") (auto simp: stored_span_def word_le_nat_alt)

text \<open>
  The destination field of an instruction covers every register it writes and is at most five
  registers long; when a texel-fault status is appended, the status register is the last one of
  the field and none of the data registers.
\<close>

lemma destination_field_covers_writes:
  assumes "0 \<le> opvalue (dst i)"
  shows "rdna2_vgpr_write_count i \<le> rdna2_vgpr_destination_span i \<and> rdna2_vgpr_destination_span i \<le> 5
     \<and> (rdna2_tfe_status_vgpr i \<noteq> -1 \<longrightarrow>
          rdna2_tfe_status_vgpr i = opvalue (dst i) + int (rdna2_vgpr_destination_span i) - 1
          \<and> rdna2_vgpr_write_count i < rdna2_vgpr_destination_span i)"
proof (cases "opkind (dst i) = VGPR")
  case False
  then show ?thesis
    by (simp add: rdna2_vgpr_write_count_def rdna2_vgpr_destination_span_def rdna2_tfe_status_vgpr_def Let_def)
next
  case True
  define s where "s = (if rdna2_vgpr_write_count i = 0 then stored_span i else rdna2_vgpr_write_count i)"
  have sp: "rdna2_vgpr_destination_span i =
      (if rdna2_tfe_status_vgpr i \<ge> opvalue (dst i)
       then max s (nat (rdna2_tfe_status_vgpr i - opvalue (dst i) + 1)) else s)"
    using True assms by (simp add: rdna2_vgpr_destination_span_def s_def Let_def)
  have s: "rdna2_vgpr_write_count i \<le> s" "s \<le> 4"
    using write_count_le[of i] stored_span_le[of i] by (simp_all add: s_def)
  have "rdna2_tfe_status_vgpr i = -1 \<or> rdna2_tfe_status_vgpr i = opvalue (dst i) + int s"
    using True assms mimg_vdata_bounds[of i]
    by (cases "fmt i") (auto simp: rdna2_tfe_status_vgpr_def s_def rdna2_vgpr_write_count_def stored_span_def)
  with s assms show ?thesis unfolding sp by auto
qed

subsection \<open>Mip operands\<close>

lemma high_half_clear: "w AND 0xffff0000 = 0 \<Longrightarrow> drop_bit 16 w = 0" for w :: dword
proof (rule bit_eqI)
  fix k
  assume z: "w AND 0xffff0000 = 0" and k: "possible_bit TYPE(dword) k"
  show "bit (drop_bit 16 w) k = bit (0 :: dword) k"
  proof (cases "16 + k < 32")
    case True
    have "0xffff0000 = push_bit 16 (mask 16 :: dword)" by (simp add: mask_eq_exp_minus_1 push_bit_eq_mult)
    then have "bit (0xffff0000 :: dword) (16 + k)"
      using True by (simp only: bit_push_bit_iff bit_mask_iff) simp
    moreover have "\<not> bit (w AND 0xffff0000) (16 + k)" by (simp only: z) simp
    ultimately show ?thesis by (simp add: bit_drop_bit_eq bit_and_iff)
  next
    case False
    then show ?thesis by (auto simp: bit_drop_bit_eq dest: bit_imp_le_length)
  qed
qed

text \<open>
  A load that has the exact shape in which a mip operand proven zero may be dropped also has
  the general shape of a load with a mip operand, and both name the same vector register.
\<close>

lemma zero_mip_shape_is_dynamic:
  assumes "rdna2_mimg_zero_mip_shape i = Some r" and "opcode i = 0x01"
  shows "rdna2_mimg_dynamic_mip_shape i = Some r \<and> r < 256"
proof -
  have g: "fmt i = MIMG" "\<not> mimg_r128 i" "\<not> mimg_tfe i" "\<not> mimg_lwe i" "\<not> mimg_a16 i" "\<not> mimg_d16 i"
    "\<not> mimg_reserved i" "opkind (src i ! 0) = VGPR" "\<not> opvalue (src i ! 0) < 0"
    and z: "zero_mip_register i = Some r" and r: "r < 256"
    using assms(1) by (auto simp: rdna2_mimg_zero_mip_shape_def split: if_splits option.splits)
  have "mimg_dim i = 1 \<or> mimg_dim i = 5"
    using z assms(2) by (auto simp: zero_mip_register_def split: if_splits)
  moreover have "dynamic_mip_register i = Some r"
    using z assms(2)
    by (auto simp: zero_mip_register_def dynamic_mip_register_def Let_def dest: high_half_clear split: if_splits)
  ultimately show ?thesis
    using g assms(2) r by (auto simp: rdna2_mimg_dynamic_mip_shape_def)
qed

subsection \<open>Pointer tables\<close>

text \<open>
  A scalar load, as its two words say it: an immediate load of one to sixteen dwords through the
  pointer in the given register pair, with a non-negative offset; and where its bytes end.
\<close>

definition table_load :: "dword \<Rightarrow> dword \<Rightarrow> dword \<Rightarrow> bool" where
  "table_load sgpr_base w d1 \<longleftrightarrow>
     drop_bit 26 w = 0x3d \<and> ifld w 18 0xFF \<le> 4 \<and> 2 * unat (w AND 0x3F) = unat sgpr_base
     \<and> ifld d1 25 0x7F = 125 \<and> \<not> bit d1 20"

definition table_load_end :: "dword \<Rightarrow> dword \<Rightarrow> nat" where
  "table_load_end w d1 = unat (d1 AND 0xFFFFF) + 4 * 2 ^ unat (ifld w 18 0xFF)"

lemma sload_words_power: "opc \<le> 4 \<Longrightarrow> sload_words opc = 2 ^ unat opc"
proof -
  assume "opc \<le> 4"
  then have "unat opc \<le> 4" by (simp add: word_le_nat_alt)
  then have "unat opc = 0 \<or> unat opc = 1 \<or> unat opc = 2 \<or> unat opc = 3 \<or> unat opc = 4" by auto
  then have "opc = 0 \<or> opc = 1 \<or> opc = 2 \<or> opc = 3 \<or> opc = 4"
    by (auto simp: word_unat_eq_iff)
  then show ?thesis by (auto simp: sload_words_def)
qed

lemma pair_base: "uint (push_bit 1 (w AND 0x3F) AND 0x7F) = 2 * int (unat (w AND 0x3F))" for w :: dword
proof -
  have le: "unat (w AND 0x3F) \<le> 0x3F" using unat_and_le[of w "0x3F"] by simp
  define y where "y = push_bit 1 (w AND 0x3F)"
  have y: "unat y = 2 * unat (w AND 0x3F)"
    using le by (simp add: y_def push_bit_eq_mult unat_word_ariths)
  have "y AND 0x7F = take_bit 7 y"
    by (simp add: take_bit_eq_mask mask_eq_exp_minus_1)
  then have "unat (y AND 0x7F) = take_bit 7 (unat y)"
    by (simp add: unsigned_take_bit_eq)
  also have "\<dots> = unat y"
  proof (rule take_bit_nat_eq_self)
    show "unat y < 2 ^ 7" using le unfolding y by simp
  qed
  finally have "int (unat (y AND 0x7F)) = 2 * int (unat (w AND 0x3F))" using y by simp
  then show ?thesis unfolding y_def by simp
qed

lemma sint_eq_small: "0 \<le> x \<Longrightarrow> x < 2 ^ 31 \<Longrightarrow> x = sint b \<longleftrightarrow> x = uint b" for b :: dword
proof -
  assume x: "0 \<le> x" "x < 2 ^ 31"
  have u: "take_bit 32 (uint b) = uint b" using uint_lt2p[of b] by (simp add: take_bit_int_eq_self_iff)
  define r where "r = take_bit 31 (uint b)"
  have t: "0 \<le> r" "r < 2 ^ 31" unfolding r_def by (simp_all only: take_bit_nonnegative take_bit_int_less_exp)
  have "uint b = 2 ^ 31 * of_bool (bit (uint b) 31) + r"
    using take_bit_Suc_from_most[of 31 "uint b"] u by (simp add: r_def)
  moreover have "sint b = uint b - 2 ^ 32 * of_bool (bit (uint b) 31)"
    using signed_take_bit_eq_take_bit_minus[of 31 "uint b"] u by (simp add: sint_uint)
  ultimately show ?thesis using x t by (cases "bit (uint b) 31") auto
qed

lemma mask_bit_20: "d AND 0x100000 = 0 \<longleftrightarrow> \<not> bit d 20" for d :: dword
  using and_exp_eq_0_iff_not_bit[of d 20] by simp

lemma offset_words:
  fixes d :: dword
  defines "off \<equiv> d AND 0x1FFFFF"
  defines "lit \<equiv> if off AND 0x100000 \<noteq> 0 then off OR 0xFFE00000 else off"
  shows "sint lit < 0 \<longleftrightarrow> bit d 20" and "\<not> bit d 20 \<Longrightarrow> unat lit = unat (d AND 0xFFFFF)"
proof -
  have o: "off AND 0x100000 = d AND 0x100000" by (simp add: off_def and.assoc)
  have neg: "sint v < 0 \<longleftrightarrow> bit v 31" for v :: dword
    by (simp add: sint_uint bit_uint_iff)
  have "\<not> bit off 31" by (simp add: off_def bit_and_iff)
  moreover have "bit (off OR 0xFFE00000) 31" by (simp add: bit_or_iff)
  ultimately show "sint lit < 0 \<longleftrightarrow> bit d 20"
    unfolding neg lit_def o mask_bit_20 by simp
  show "unat lit = unat (d AND 0xFFFFF)" if "\<not> bit d 20"
  proof -
    have z: "d AND 0x100000 = 0" using that by (simp add: mask_bit_20)
    have "d AND 0x1FFFFF = (d AND 0xFFFFF) OR (d AND 0x100000)"
      by (simp only: bit.conj_disj_distrib[symmetric]) simp
    moreover have "lit = off" unfolding lit_def o using z by simp
    ultimately show ?thesis using z by (simp add: off_def)
  qed
qed

lemma frame_scalar_fmt: "frame_scalar code n w i = Some j \<Longrightarrow> fmt j \<noteq> SMEM"
  by (auto simp: frame_scalar_def one_plus_lit_def bind_eq_Some_conv split: if_splits)

lemma frame_three_source_fmt: "frame_three_source code n f i = Some j \<Longrightarrow> fmt j = f"
  by (auto simp: frame_three_source_def bind_eq_Some_conv Let_def split: if_splits)

lemma vector_fmt_not_SMEM:
  assumes "frame_vector code n w i = Some j"
  shows "fmt j \<noteq> SMEM"
proof -
  have v: "vector_format w \<noteq> SMEM" using vector_format_cases[of w] by auto
  show ?thesis
    using assms v
    by (auto simp: frame_vector_def vector_modifier_def one_plus_lit_def bind_eq_Some_conv Let_def dpp_parts_kept
        dest: two_dword_fmt split: if_splits)
qed

lemma top6_SMEM:
  assumes "drop_bit 26 w = (0x3d :: dword)"
  shows "w AND 0x80000000 \<noteq> 0" and "w AND 0xC0000000 \<noteq> 0x80000000"
proof -
  have b: "bit w (26 + k) = bit (0x3d :: dword) k" for k
    using bit_drop_bit_eq[of 26 w] assms by (metis comp_apply)
  have "bit w 31" "bit w 30" using b[of 5] b[of 4] by simp_all
  then have "bit (w AND 0x80000000) 31" "bit (w AND 0xC0000000) 30" by (simp_all add: bit_and_iff)
  then show "w AND 0x80000000 \<noteq> 0" "w AND 0xC0000000 \<noteq> 0x80000000" by auto
qed

lemma frame_one_SMEM:
  assumes "1 \<le> n" and "n \<le> length code" and "frame_one code n = Some j"
  shows "fmt j = SMEM \<longleftrightarrow> drop_bit 26 (code ! 0) = 0x3d"
    and "fmt j = SMEM \<Longrightarrow> words j ! 1 = (if 2 \<le> n then code ! 1 else 0)"
proof -
  let ?w = "code ! 0" and ?i = "new_inst\<lparr>words := (words new_inst)[0 := code ! 0]\<rparr>"
  have wide: "fmt j = SMEM \<longleftrightarrow> drop_bit 26 ?w = 0x3d" if "frame_wide code n ?w ?i = Some j"
    using that unfolding frame_wide_def Let_def
    by (auto dest: two_dword_fmt frame_three_source_fmt frame_mimg_fmt split: if_splits)
  show r: "fmt j = SMEM \<longleftrightarrow> drop_bit 26 ?w = 0x3d"
    using assms(3) wide top6_SMEM[of ?w] vector_fmt_not_SMEM[of code n ?w ?i j] frame_scalar_fmt[of code n ?w ?i j]
    unfolding frame_one_def Let_def by (auto split: if_splits)
  show "words j ! 1 = (if 2 \<le> n then code ! 1 else 0)" if "fmt j = SMEM"
  proof -
    have t: "drop_bit 26 ?w = 0x3d" using that r by simp
    have "two_dword code n SMEM ?i = Some j"
      using assms(3) top6_SMEM[OF t] t by (simp add: frame_one_def frame_wide_def Let_def)
    then show ?thesis
      using assms(2) by (auto simp: two_dword_def new_inst_words split: if_splits)
  qed
qed


lemma null_soffset: "opkind (decode_src_field f) = Special \<and> opvalue (decode_src_field f) = 125 \<longleftrightarrow> f = 125"
proof -
  have "uint f = 125 \<longleftrightarrow> f = 125" by (simp add: word_uint_eq_iff)
  then show ?thesis by (auto simp: decode_src_field_def)
qed

lemma sload_counts_decoded:
  assumes "1 \<le> n" and "n \<le> length code" and "rdna2_decode_one code n = Some i"
  shows "sload_counts b i \<longleftrightarrow> 2 \<le> n \<and> table_load b (code ! 0) (code ! 1)"
    and "sload_counts b i \<Longrightarrow> unat (literal i) + sload_words (opcode i) * 4 = table_load_end (code ! 0) (code ! 1)"
proof -
  obtain j where j: "frame_one code n = Some j" and fr: "framed code n (clamp_len n j)"
    and r: "rdna2_decode_one code n = Some (decode_operands (clamp_len n j))"
    using rdna2_decode_one_Some[OF assms(1,2)] by blast
  define c where "c = clamp_len n j"
  have i: "i = decode_operands c" using r assms(3) by (simp add: c_def)
  have fc: "fmt c = fmt j" "words c = words j" by (simp_all add: c_def clamp_len_def)
  have w0: "words c ! 0 = code ! 0" and ns: "no_sources c" using fr by (simp_all add: c_def framed_def)
  note smem = frame_one_SMEM[OF assms(1,2) j]
  have "fmt i = SMEM \<longleftrightarrow> fmt c = SMEM"
    using fmt_decode_operands[of c] unfolding i by (cases "fmt c = VOP3") auto
  then have f: "fmt i = SMEM \<longleftrightarrow> drop_bit 26 (code ! 0) = 0x3d" using smem(1) fc by simp
  have fields: "opcode i = ifld (code ! 0) 18 0xFF"
    "opvalue (src i ! 0) = 2 * int (unat (code ! 0 AND 0x3F))"
    "src i ! 1 = decode_src_field (ifld (words c ! 1) 25 0x7F)"
    "literal i = (if (words c ! 1 AND 0x1FFFFF) AND 0x100000 \<noteq> 0 then (words c ! 1 AND 0x1FFFFF) OR 0xFFE00000
                  else words c ! 1 AND 0x1FFFFF)" if "fmt i = SMEM"
  proof -
    have "fmt c = SMEM" using that \<open>fmt i = SMEM \<longleftrightarrow> fmt c = SMEM\<close> by simp
    then have "i = decode_smem c" by (simp add: i decode_operands_def)
    then show "opcode i = ifld (code ! 0) 18 0xFF"
      "opvalue (src i ! 0) = 2 * int (unat (code ! 0 AND 0x3F))"
      "src i ! 1 = decode_src_field (ifld (words c ! 1) 25 0x7F)"
      "literal i = (if (words c ! 1 AND 0x1FFFFF) AND 0x100000 \<noteq> 0 then (words c ! 1 AND 0x1FFFFF) OR 0xFFE00000
                  else words c ! 1 AND 0x1FFFFF)"
      using ns w0 pair_base[of "code ! 0"]
      by (simp_all add: decode_smem_def no_sources_def sgpr_def replicate_4 Let_def)
  qed
  have base: "2 * int (unat (code ! 0 AND 0x3F)) = sint b \<longleftrightarrow> 2 * unat (code ! 0 AND 0x3F) = unat b"
  proof -
    define u where "u = unat (code ! 0 AND 0x3F)"
    have "u \<le> 63" using unat_and_le[of "code ! 0" "0x3F"] by (simp add: u_def)
    then have "2 * int u = sint b \<longleftrightarrow> 2 * int u = uint b"
      by (intro sint_eq_small) simp_all
    also have "\<dots> \<longleftrightarrow> int (2 * u) = int (unat b)" by simp
    finally show ?thesis unfolding u_def by (simp only: of_nat_eq_iff)
  qed
  have sl: "sload_counts b i \<longleftrightarrow> fmt i = SMEM \<and> ifld (code ! 0) 18 0xFF \<le> 4
      \<and> 2 * unat (code ! 0 AND 0x3F) = unat b \<and> ifld (words c ! 1) 25 0x7F = 125 \<and> \<not> bit (words c ! 1) 20"
  proof (cases "fmt i = SMEM")
    case True
    have "opkind (src i ! 1) = Special \<and> opvalue (src i ! 1) = 125 \<longleftrightarrow> ifld (words c ! 1) 25 0x7F = 125"
      unfolding fields(3)[OF True] by (rule null_soffset)
    moreover have "sint (literal i) < 0 \<longleftrightarrow> bit (words c ! 1) 20"
      unfolding fields(4)[OF True] by (rule offset_words)
    ultimately show ?thesis
      unfolding sload_counts_def using True base fields(1,2)[OF True] by (auto simp: not_less)
  next
    case False
    then show ?thesis by (simp add: sload_counts_def)
  qed
  have one: "ifld (words c ! 1) 25 0x7F = 125 \<Longrightarrow> fmt i = SMEM \<Longrightarrow> 2 \<le> n \<and> words c ! 1 = code ! 1"
    using smem fc f by (auto simp: ifld_def split: if_splits)
  have two: "fmt i = SMEM \<Longrightarrow> 2 \<le> n \<Longrightarrow> words c ! 1 = code ! 1" using smem fc f by simp
  show cnt: "sload_counts b i \<longleftrightarrow> 2 \<le> n \<and> table_load b (code ! 0) (code ! 1)"
    using sl one two f by (auto simp: table_load_def)
  show "unat (literal i) + sload_words (opcode i) * 4 = table_load_end (code ! 0) (code ! 1)" if "sload_counts b i"
  proof -
    have s: "fmt i = SMEM" "ifld (code ! 0) 18 0xFF \<le> 4" "\<not> bit (words c ! 1) 20" "words c ! 1 = code ! 1"
      using that sl one by auto
    have "unat (literal i) = unat (code ! 1 AND 0xFFFFF)"
      using offset_words(2)[OF s(3)] unfolding fields(4)[OF s(1)] s(4) .
    then show ?thesis using sload_words_power[OF s(2)] fields(1)[OF s(1)] by (simp add: table_load_end_def)
  qed
qed

lemma sload_scan_max:
  "sload_scan b insts r =
     fold max (map (\<lambda>i. unat (literal i) + sload_words (opcode i) * 4)
                 (filter (sload_counts b) (takeWhile (\<lambda>i. \<not> is_end i) insts))) r"
  by (induction insts arbitrary: r) (simp_all add: max.commute)

lemma fold_max:
  "x \<in> set xs \<Longrightarrow> x \<le> fold max xs (r :: nat)" "r \<le> fold max xs r" "fold max xs r = r \<or> fold max xs r \<in> set xs"
proof -
  have ge: "r \<le> fold max xs r" for r :: nat and xs by (induction xs arbitrary: r) (auto intro: order_trans[OF max.cobounded2])
  then show "r \<le> fold max xs r" .
  show "x \<in> set xs \<Longrightarrow> x \<le> fold max xs r"
  proof (induction xs arbitrary: r)
    case (Cons y ys)
    then show ?case using ge[of "max y r" ys] by auto
  qed simp
  show "fold max xs r = r \<or> fold max xs r \<in> set xs"
    by (induction xs arbitrary: r) (auto simp: max_def)
qed

lemma chain_sload:
  assumes c: "chain code dwords 0 insts n" and le: "dwords \<le> length code" and k: "k < length insts"
  shows "sload_counts b (insts ! k) \<longleftrightarrow>
           pc_of insts k + 1 < dwords \<and> table_load b (code ! pc_of insts k) (code ! (pc_of insts k + 1))"
    and "sload_counts b (insts ! k) \<Longrightarrow> unat (literal (insts ! k)) + sload_words (opcode (insts ! k)) * 4
           = table_load_end (code ! pc_of insts k) (code ! (pc_of insts k + 1))"
proof -
  let ?p = "pc_of insts k"
  have d: "rdna2_decode_one (drop ?p code) (dwords - ?p) = Some ((insts ! k)\<lparr>inst_pc := 0\<rparr>)" and p: "?p < dwords"
    using chain_nth[OF c k] by simp_all
  have s: "1 \<le> dwords - ?p" "dwords - ?p \<le> length (drop ?p code)" using p le by auto
  have same: "sload_counts b ((insts ! k)\<lparr>inst_pc := 0\<rparr>) = sload_counts b (insts ! k)"
    by (simp add: sload_counts_def)
  have nth: "drop ?p code ! 0 = code ! ?p" "drop ?p code ! 1 = code ! (?p + 1)" using p le by simp_all
  show "sload_counts b (insts ! k) \<longleftrightarrow> ?p + 1 < dwords \<and> table_load b (code ! ?p) (code ! (?p + 1))"
    using sload_counts_decoded(1)[OF s d, of b] unfolding same nth by auto
  show "unat (literal (insts ! k)) + sload_words (opcode (insts ! k)) * 4
        = table_load_end (code ! ?p) (code ! (?p + 1))" if "sload_counts b (insts ! k)"
    using sload_counts_decoded(2)[OF s d, of b] that unfolding same nth by simp
qed

lemma table_load_end_le: "table_load b w d1 \<Longrightarrow> table_load_end w d1 \<le> 0x10003F"
proof -
  assume "table_load b w d1"
  then have "unat (ifld w 18 0xFF) \<le> 4" by (simp add: table_load_def word_le_nat_alt)
  then have "(2 :: nat) ^ unat (ifld w 18 0xFF) \<le> 2 ^ 4" by (intro power_increasing) simp_all
  moreover have "unat (d1 AND 0xFFFFF) \<le> 0xFFFFF" using unat_and_le[of d1 "0xFFFFF"] by simp
  ultimately show ?thesis by (simp add: table_load_end_def)
qed

lemma chain_before_end:
  assumes c: "chain code dwords 0 insts n" and k: "k < length insts" and e: "\<not> is_end (insts ! k)"
  shows "insts ! k \<in> set (takeWhile (\<lambda>i. \<not> is_end i) insts)"
proof -
  have "\<not> is_end (insts ! m)" if "m \<le> k" for m
  proof (cases "m = k")
    case False
    with that k have "m + 1 < length insts" by linarith
    then show ?thesis using chain_nth[OF c, of m] by auto
  qed (use e in simp)
  then have "k < length (takeWhile (\<lambda>i. \<not> is_end i) insts)"
    using k by (metis (no_types, lifting) leI nth_length_takeWhile order.strict_trans1)
  then show ?thesis by (metis nth_mem takeWhile_nth)
qed

text \<open>
  C38: The bytes a shader needs of a pointer table are exactly the furthest end of an immediate
  scalar load through that register pair on the walked path: every such load ends inside, some
  load ends there (or there is none and the answer is 0), and the clamp to 32 bits never acts.
\<close>

theorem sload_required_bytes_exact:
  assumes "dwords \<le> length code"
  shows "\<exists>n insts r. rdna2_walk code dwords = Some (n, insts)
     \<and> rdna2_sload_required_bytes code dwords b = Some r \<and> r \<le> 0x10003F
     \<and> (\<forall>k < length insts. let p = pc_of insts k in
          p + 1 < dwords \<and> table_load b (code ! p) (code ! (p + 1)) \<longrightarrow> table_load_end (code ! p) (code ! (p + 1)) \<le> r)
     \<and> (r = 0 \<or> (\<exists>k < length insts. let p = pc_of insts k in
          p + 1 < dwords \<and> table_load b (code ! p) (code ! (p + 1)) \<and> r = table_load_end (code ! p) (code ! (p + 1))))"
proof -
  obtain insts n where w: "rdna2_walk code dwords = Some (n, insts)" and c: "chain code dwords 0 insts n"
    using rdna2_walk_chain[OF assms] by blast
  define xs where "xs = filter (sload_counts b) (takeWhile (\<lambda>i. \<not> is_end i) insts)"
  define r where "r = sload_scan b insts 0"
  have r: "r = fold max (map (\<lambda>i. unat (literal i) + sload_words (opcode i) * 4) xs) 0"
    by (simp add: r_def sload_scan_max xs_def)
  note ld = chain_sload[OF c assms, of _ b]
  have A: "\<forall>k < length insts. pc_of insts k + 1 < dwords
      \<and> table_load b (code ! pc_of insts k) (code ! (pc_of insts k + 1))
      \<longrightarrow> table_load_end (code ! pc_of insts k) (code ! (pc_of insts k + 1)) \<le> r"
  proof (intro allI impI, elim conjE)
    fix k
    assume k: "k < length insts" "pc_of insts k + 1 < dwords"
      "table_load b (code ! pc_of insts k) (code ! (pc_of insts k + 1))"
    have s: "sload_counts b (insts ! k)" using ld(1)[OF k(1)] k by simp
    have "code ! pc_of insts k \<noteq> kSEndpgm" using k(3) by (auto simp: table_load_def kSEndpgm_def)
    then have "\<not> is_end (insts ! k)" using chain_nth[OF c k(1)] by simp
    then have "insts ! k \<in> set xs" using chain_before_end[OF c k(1)] s by (simp add: xs_def)
    then show "table_load_end (code ! pc_of insts k) (code ! (pc_of insts k + 1)) \<le> r"
      unfolding r ld(2)[OF k(1) s, symmetric] by (intro fold_max(1)) simp
  qed
  have ex: "r = 0 \<or> (\<exists>k < length insts. pc_of insts k + 1 < dwords
      \<and> table_load b (code ! pc_of insts k) (code ! (pc_of insts k + 1))
      \<and> r = table_load_end (code ! pc_of insts k) (code ! (pc_of insts k + 1)))"
  proof (cases "r = 0")
    case False
    then obtain i where i: "i \<in> set xs" "r = unat (literal i) + sload_words (opcode i) * 4"
      using fold_max(3)[of "map (\<lambda>i. unat (literal i) + sload_words (opcode i) * 4) xs" 0] unfolding r by auto
    then have "i \<in> set insts" "sload_counts b i" by (auto simp: xs_def dest: set_takeWhileD)
    then obtain k where k: "k < length insts" "insts ! k = i" by (auto simp: in_set_conv_nth)
    with i ld[OF k(1)] \<open>sload_counts b i\<close> show ?thesis by auto
  qed simp
  have bound: "r \<le> 0x10003F" using ex table_load_end_le by auto
  then have res: "rdna2_sload_required_bytes code dwords b = Some r"
    using w by (simp add: rdna2_sload_required_bytes_def r_def[symmetric] Let_def)
  show ?thesis
    unfolding Let_def
    by (rule exI[of _ n], rule exI[of _ insts], rule exI[of _ r], intro conjI)
      (fact w, fact res, fact bound, fact A, fact ex)
qed

theorem sload_required_bytes_exact_witness:
  "rdna2_sload_required_bytes [0xf4080104, 0xfa000010, 0xBF810000] 3 8 = Some 32"
proof -
  let ?code = "[0xf4080104, 0xfa000010, 0xBF810000] :: dword list"
  have three: "3 \<le> length ?code" by simp
  from sload_required_bytes_exact[OF three, of 8, unfolded Let_def]
  obtain n insts r where w: "rdna2_walk ?code 3 = Some (n, insts)" and r: "rdna2_sload_required_bytes ?code 3 8 = Some r"
    and up: "\<forall>k < length insts. pc_of insts k + 1 < 3
        \<and> table_load 8 (?code ! pc_of insts k) (?code ! (pc_of insts k + 1))
        \<longrightarrow> table_load_end (?code ! pc_of insts k) (?code ! (pc_of insts k + 1)) \<le> r"
    and k: "r = 0 \<or> (\<exists>k < length insts. pc_of insts k + 1 < 3
        \<and> table_load 8 (?code ! pc_of insts k) (?code ! (pc_of insts k + 1))
        \<and> r = table_load_end (?code ! pc_of insts k) (?code ! (pc_of insts k + 1)))"
    by (elim exE conjE)
  have ev: "table_load 8 0xf4080104 0xfa000010" "table_load_end 0xf4080104 0xfa000010 = 32"
    "\<not> table_load 8 0xfa000010 0xBF810000"
    by code_simp+
  obtain insts' n' where "rdna2_walk ?code 3 = Some (n', insts')" and "chain ?code 3 0 insts' n'"
    using rdna2_walk_chain[OF three] by blast
  with w have "0 < length insts" by (cases insts) auto
  moreover have "pc_of insts 0 = 0" by (simp add: pc_of_def)
  ultimately have "32 \<le> r" using up ev by force
  then obtain m where m: "pc_of insts m + 1 < 3"
    "table_load 8 (?code ! pc_of insts m) (?code ! (pc_of insts m + 1))"
    "r = table_load_end (?code ! pc_of insts m) (?code ! (pc_of insts m + 1))"
    using k by auto
  from m(1) have "pc_of insts m = 0 \<or> pc_of insts m = 1" by auto
  with m ev have "r = 32" by auto
  with r show ?thesis by simp
qed

end
