(* ===== verification/Spec2Isabelle.thy ===== *)
theory Spec2Isabelle
  imports PermissionProtocol TileMeta TileChains BcSurface LinkerTheorems Pm4Theorems Pm4PatchFacts Rdna2Modifiers Rdna2Uses
begin

text \<open>
  A verification development of parts of prosper (\<open>src/prosper\<close>), a compatibility layer that runs
  PS5 programs on a host: it loads and links the guest's modules, implements the guest's system
  libraries, reads the command buffers the guest writes, recompiles its shaders and draws with
  the host's graphics driver. File names below are relative to \<open>src/prosper/src\<close>.

  \<^bold>\<open>How the parts interact.\<close>
  A guest program arrives as signed ELF files, which the parser turns into modules and the linker
  into images, with imports bound by name identifier (NID) and thread-local storage laid out. The
  program builds command packets into rings through library calls and patches packets it has
  built; the decoder reads the rings back. Draws name shaders, which the recompiler decodes from
  guest memory, and textures, which lie in guest memory tiled, block-compressed and with mip
  chains and compression planes, and are copied out of it. All of these read addresses a guest
  chose, so before they touch memory they ask whether it is readable or writable, and the answer
  is cached against changes other threads make.

  \<^bold>\<open>Modelling.\<close>
  \<open>Prelude\<close> holds what everything shares. A C++ pointer access outside its buffer is \<^term>\<open>None\<close>, so a
  theorem that a routine returns \<open>Some\<close> is a memory-safety theorem. Sizes, offsets and coordinates
  are naturals with \<open>u32\<close> and \<open>u64\<close> written where the C++ expression can wrap; register words,
  addresses in packets, packed texels and instruction words are machine words. Loops over buffers are
  \<open>foldM\<close>; loops without a bound in the code are functions with a termination proof.

  \<^bold>\<open>Guest memory permissions\<close> (\<open>GuestRanges\<close>, \<open>GuestPermission\<close>, \<open>GuestWritable\<close>,
  \<open>PermissionProtocol\<close>). \<open>host/memory/guest_memory_map.hpp\<close> and \<open>guest_readable\<close>,
  \<open>guest_writable\<close> of \<open>gpu/execute/gpu_executor.cpp\<close>: the sorted range cache with its binary search and
  memo (\<open>cache_insert\<close>, \<open>cache_erase\<close>, \<open>cache_contains\<close>), the registry of readable mappings with its
  generation (\<open>map_step\<close>), the streaming parser of \<open>/proc/self/maps\<close> (\<open>parse_maps\<close>), and both queries. The
  locale \<open>span_set\<close> is what the clients need of a cache: it stands for a set of bytes. The cache
  refines the set under every sequence of operations; both queries are decided exactly; and in a
  step relation in which another thread may publish a change between any two steps, a memo hit
  tells the truth when changes are published after they are made (\<open>settled_hit_is_writable\<close>); when
  they are published before, a reachable state has a stale one. Which bytes are mapped is the host's, a parameter.

  \<^bold>\<open>Tiled textures\<close> (\<open>Swizzle\<close>, \<open>TilePatterns\<close>, \<open>Tile\<close>, \<open>TileRoundTrip\<close>, \<open>TileVolume\<close>, \<open>TileMeta\<close>,
  \<open>TileLevels\<close>, \<open>TileMips\<close>, \<open>TileChains\<close>). \<open>gpu/texture/tile.cpp\<close>: the address tables, the copies in
  both directions of surfaces, volumes and multisampled depth (\<open>tile_surface\<close>, \<open>tile_volume\<close>,
  \<open>tile_msaa_surface\<close> and their inverses), mip chains with packed tails, and the DCC and HTILE planes. The locale
  \<open>block_swizzle\<close> is the contract of a layout, that inside a block the address is a permutation; every
  table the code ships is shown to meet it by computing with its bit masks, and round trips, the
  independence from old bytes, the equality of the fast and the plain walk and the disjointness of
  levels follow once for all. Not modelled: the AVX2 rows and the split of rows over threads (both
  have the same result as the loop that is modelled), and the census counters.

  \<^bold>\<open>Block-compressed textures\<close> (\<open>BcTables\<close>, \<open>BitFields\<close>, \<open>Bc7\<close>, \<open>Bc7Layout\<close>, \<open>Bc6h\<close>, \<open>Bc6hFacts\<close>,
  \<open>BcHalf\<close>, \<open>BcSurface\<close>). \<open>gpu/texture/bc_decode.cpp\<close> for BC1 to BC7. The bit readers of BC7 and BC6H are
  compared with the published layouts, given as positions in the 128-bit number of the block. The
  conversion of half-floats is exact, and the three binary32 roundings of the conversion to eight bits are
  written out as rounding of naturals: a float is the natural number of its units in the last place of
  the smallest denormal, with at most 24 significant bits.

  \<^bold>\<open>Modules and linking\<close> (\<open>SelfModule\<close>, \<open>SelfModuleFacts\<close>, \<open>SelfImage\<close>, \<open>SelfImageFacts\<close>, \<open>TlsLayout\<close>,
  \<open>Linker\<close>, \<open>LinkerFacts\<close>, \<open>LinkerExample\<close>, \<open>LinkerTheorems\<close>). \<open>self/module.cpp\<close>, \<open>loader/tls_layout.hpp\<close> and
  \<open>loader/linker.cpp\<close>: header and segment parsing, dynamic tables, names, image building, relocation,
  TLS, and linking of a program with optional modules. The files are arbitrary bytes. The bytes
  a path names and the image sizes the host can allocate are parameters. A loaded module's symbols and relocations
  are the entries of the tables in the file, and loading returns unless a library id overflows. The
  locale \<open>definitions\<close> is the contract of the linker's loops over definitions, the first of which wins; it is
  interpreted on the claimed NIDs, the export table and each module's own exports. Which optional modules
  are skipped, and for which export of whom, is exact. \<open>LinkerExample\<close> is a module of 328 bytes on which the
  theorems are applied.

  \<^bold>\<open>Command buffers\<close> (\<open>Pm4Decode\<close>, \<open>Pm4Build\<close>, \<open>Pm4Stream\<close>, \<open>Pm4Calls\<close>, \<open>Pm4RoundTrip\<close>, \<open>Pm4Theorems\<close>,
  \<open>Pm4Patch\<close>, \<open>Pm4PatchFacts\<close>). \<open>gpu/pm4/pm4_decode.cpp\<close> and the builders, size handlers and patch handlers
  of \<open>hle/graphics/hle_agc.cpp\<close>. The callback by which a guest extends a full ring is a parameter. \<open>Pm4Calls\<close> makes
  the builders one type of calls and says, without the encoding, what each tells the reader; \<open>Pm4RoundTrip\<close>
  proves it of any sequence of calls. A patch is described by what the decoder sees of it.

  \<^bold>\<open>Shader instructions\<close> (\<open>Rdna2Types\<close>, \<open>Rdna2Sdwa\<close>, \<open>Rdna2Operands\<close>, \<open>Rdna2Decode\<close>, \<open>Rdna2Spans\<close>, \<open>Rdna2Facts\<close>,
  \<open>Rdna2Walk\<close>, \<open>Rdna2Literals\<close>, \<open>Rdna2Modifiers\<close>, \<open>Rdna2Uses\<close>). \<open>gpu/recompiler/rdna2_decode.cpp\<close>, all of it: the
  format and length of an instruction (\<open>frame_vector\<close>, \<open>frame_scalar\<close>, \<open>frame_wide\<close>), its operands per format
  (\<open>decode_operands\<close>), the control words of sub-dword and cross-lane forms with the conditions under which they
  are admitted, the walk over a program, and the questions analyses ask of an instruction. A walk tiles
  the buffer; operands are in range; an operand that names the trailing constant has it, but for a buffer that
  ends before it and for control words of the sub-dword form; what is admitted of a control word is recorded in full; and the size of a pointer table is exactly what the loads through it need.
  The code is the list of words from the pointer on, and the walk ends because every length is at least one.

  \<^bold>\<open>Bounds.\<close>
  Sizes of surfaces are bounded in the theorems where the C++ computes products in 32 or 64
  bits; within the bounds the wrap-around is shown not to happen. There is no fuel: every function is total, by
  structural recursion or a measure, and a loop of the code that may not end is shown to end or
  its condition is stated. The page loop of \<open>guest_readable\<close> is the one that can fail to end (\<open>guest_readable_last_page\<close>).

  \<^bold>\<open>Not modelled.\<close>
  The translation of instructions to SPIR-V, whose meaning rests on a specification and
  drivers outside the repository; the renderer in \<open>frontends\<close>, glue over the Vulkan driver; the guest memory
  manager and the threads of the guest (\<open>hle/memory\<close>, \<open>hle/kernel\<close>, \<open>hle/sync\<close>), which are host system calls,
  signals and host scheduling; the command processor's register state and callbacks, shader binding and render
  state (\<open>gpu/pm4/command_processor.cpp\<close>, \<open>gpu/agc\<close>, \<open>gpu/state\<close>, \<open>gpu/resources\<close>), which the
  development does not reach; capture and timeline files, diagnostics and tools; the remaining system
  libraries under \<open>hle\<close>; and vendored code.
\<close>

end
